(* ===== verification/Auth_Prelude.thy ===== *)
theory Auth_Prelude
  imports
    Main
    "HOL-Library.Word"
    "HOL-Library.Signed_Division"
    "HOL-Library.Char_ord"
    "HOL-Library.List_Lexorder"
    "HOL-Library.Product_Lexorder"
    "HOL-Library.Sublist"
begin

text \<open>
  Shared vocabulary of the development.

  \<^item> Go values: byte strings are \<open>string\<close> (one \<open>char\<close> per byte), instants and durations are
    nanoseconds in \<open>int\<close>, UUIDs are their canonical text.
  \<^item> PostgreSQL: a table is the list of its rows; \<open>UPDATE\<close>, \<open>DELETE\<close>, \<open>SELECT ... ORDER BY
    ... LIMIT\<close> and the affected-row counts are the \<open>sql_\<close> operations below. A transaction is one
    atomic state change at one reading of the database clock; every statement of the source that
    can fail has a named fault site, and a failing statement or commit leaves the tables as they
    were before the transaction.
  \<^item> Go string functions of the standard library that the sources call.
\<close>

named_theorems sql_simps \<open>rewrite rules for the table operations\<close>
named_theorems go_defs \<open>definitions of the Go standard library functions used by the sources\<close>

section \<open>Types\<close>

type_synonym time = int
type_synonym duration = int
type_synonym uid = string
type_synonym byte = "8 word"

text \<open>Fault sites are named by the error context the source wraps around the failing call.\<close>

type_synonym faults = "string \<Rightarrow> bool"

abbreviation no_faults :: faults where
  "no_faults \<equiv> (\<lambda>_. False)"

datatype store_error =
    StoreInvalid string
  | StoreDb string
  | ErrBackgroundJobLeaseLost
  | ErrBackgroundJobNotFound
  | ErrBackgroundJobNotDeadLettered
  | ErrIdempotencyConflict
  | ErrIdempotencyLeaseLost

text \<open>JSON documents, as the \<^verbatim>\<open>jsonb\<close> columns and the request bodies hold them.\<close>

datatype json =
    JNull
  | JBool bool
  | JNum int
  | JStr string
  | JArr "json list"
  | JObj "(string \<times> json) list"

definition uuid_Nil :: uid where
  "uuid_Nil = ''00000000-0000-0000-0000-000000000000''"

section \<open>Time\<close>

definition Second :: duration where "Second = 1000000000"
definition Minute :: duration where "Minute = 60 * Second"
definition Hour :: duration where "Hour = 60 * Minute"

lemma Second_pos [simp]: "0 < Second" "0 \<le> Second" "\<not> Second \<le> 0"
  by (simp_all add: Second_def)

lemma Minute_pos [simp]: "0 < Minute"
  by (simp add: Minute_def Second_def)

lemma Hour_pos [simp]: "0 < Hour"
  by (simp add: Hour_def Minute_def Second_def)

lemmas time_defs = Second_def Minute_def Hour_def

section \<open>Tables\<close>

definition sql_update :: "('r \<Rightarrow> bool) \<Rightarrow> ('r \<Rightarrow> 'r) \<Rightarrow> 'r list \<Rightarrow> 'r list" where
  "sql_update p f t = map (\<lambda>r. if p r then f r else r) t"

definition sql_count :: "('r \<Rightarrow> bool) \<Rightarrow> 'r list \<Rightarrow> nat" where
  "sql_count p t = length (filter p t)"

definition sql_delete :: "('r \<Rightarrow> bool) \<Rightarrow> 'r list \<Rightarrow> 'r list" where
  "sql_delete p t = filter (\<lambda>r. \<not> p r) t"

text \<open>\<open>QueryRow\<close>: the first matching row, if there is one.\<close>

definition sql_row :: "('r \<Rightarrow> bool) \<Rightarrow> 'r list \<Rightarrow> 'r option" where
  "sql_row p t = find p t"

text \<open>\<open>SELECT ... WHERE p ORDER BY k LIMIT n\<close>.\<close>

definition sql_select :: "('r \<Rightarrow> bool) \<Rightarrow> ('r \<Rightarrow> 'k::linorder) \<Rightarrow> nat \<Rightarrow> 'r list \<Rightarrow> 'r list" where
  "sql_select p k n t = take n (sort_key k (filter p t))"

lemma sql_update_Nil [simp]: "sql_update p f [] = []"
  by (simp add: sql_update_def)

lemma sql_update_Cons [simp]:
  "sql_update p f (r # t) = (if p r then f r else r) # sql_update p f t"
  by (simp add: sql_update_def)

lemma sql_update_append [simp]: "sql_update p f (s @ t) = sql_update p f s @ sql_update p f t"
  by (simp add: sql_update_def)

lemma length_sql_update [simp]: "length (sql_update p f t) = length t"
  by (simp add: sql_update_def)

lemma set_sql_update: "set (sql_update p f t) = (\<lambda>r. if p r then f r else r) ` set t"
  by (simp add: sql_update_def)

lemma sql_update_id: "(\<And>r. r \<in> set t \<Longrightarrow> \<not> p r) \<Longrightarrow> sql_update p f t = t"
  by (induction t) auto

lemma map_key_sql_update [simp]:
  "(\<And>r. k (f r) = k r) \<Longrightarrow> map k (sql_update p f t) = map k t"
  by (induction t) auto

lemma list_all_sql_update:
  "list_all Q t \<Longrightarrow> (\<And>r. r \<in> set t \<Longrightarrow> Q r \<Longrightarrow> p r \<Longrightarrow> Q (f r)) \<Longrightarrow> list_all Q (sql_update p f t)"
  by (induction t) auto

lemma sql_count_Nil [simp]: "sql_count p [] = 0"
  by (simp add: sql_count_def)

lemma sql_count_Cons [simp]: "sql_count p (r # t) = (if p r then Suc (sql_count p t) else sql_count p t)"
  by (simp add: sql_count_def)

lemma sql_count_0_iff [simp]: "sql_count p t = 0 \<longleftrightarrow> (\<forall>r \<in> set t. \<not> p r)"
  by (induction t) auto

lemma sql_delete_Nil [simp]: "sql_delete p [] = []"
  by (simp add: sql_delete_def)

lemma sql_delete_Cons [simp]:
  "sql_delete p (r # t) = (if p r then sql_delete p t else r # sql_delete p t)"
  by (simp add: sql_delete_def)

lemma set_sql_delete: "set (sql_delete p t) = {r \<in> set t. \<not> p r}"
  by (auto simp: sql_delete_def)

lemma length_sql_delete: "length (sql_delete p t) + sql_count p t = length t"
  by (induction t) auto

lemma list_all_sql_delete: "list_all Q t \<Longrightarrow> list_all Q (sql_delete p t)"
  by (auto simp: list_all_iff set_sql_delete)

lemma distinct_map_sql_delete: "distinct (map k t) \<Longrightarrow> distinct (map k (sql_delete p t))"
  by (simp add: sql_delete_def distinct_map_filter)

lemma sql_row_Nil [simp]: "sql_row p [] = None"
  by (simp add: sql_row_def)

lemma sql_row_Cons [simp]: "sql_row p (r # t) = (if p r then Some r else sql_row p t)"
  by (simp add: sql_row_def)

lemma sql_row_None_iff: "sql_row p t = None \<longleftrightarrow> (\<forall>r \<in> set t. \<not> p r)"
  by (induction t) auto

lemma sql_row_SomeD: "sql_row p t = Some r \<Longrightarrow> r \<in> set t \<and> p r"
  by (induction t) (auto split: if_splits)

lemma length_sql_select: "length (sql_select p k n t) = min n (sql_count p t)"
  by (simp add: sql_select_def sql_count_def min.commute)

lemma set_sql_select_subset: "set (sql_select p k n t) \<subseteq> {r \<in> set t. p r}"
  unfolding sql_select_def by (rule subset_trans [OF set_take_subset]) auto

lemma distinct_map_sql_select: "distinct (map g t) \<Longrightarrow> distinct (map g (sql_select p k n t))"
proof -
  assume "distinct (map g t)"
  then have "distinct (map g (sort_key k (filter p t)))"
    by (auto simp: distinct_map intro: inj_on_subset)
  then show ?thesis
    by (simp add: sql_select_def take_map [symmetric])
qed

text \<open>The first row in an ordering is the least eligible one.\<close>

lemma sql_select_1_least:
  assumes "sql_select p k 1 t = [r]"
  shows "r \<in> set t" and "p r" and "\<And>r'. r' \<in> set t \<Longrightarrow> p r' \<Longrightarrow> k r \<le> k r'"
proof -
  let ?s = "sort_key k (filter p t)"
  from assms obtain rest where s: "?s = r # rest"
    by (cases ?s) (auto simp: sql_select_def)
  have set_s: "set ?s = {x \<in> set t. p x}" by simp
  from s set_s show "r \<in> set t" and "p r" by auto
  fix r' assume r': "r' \<in> set t" "p r'"
  have "sorted (map k ?s)" by simp
  with s have "\<And>x. x \<in> set (r # rest) \<Longrightarrow> k r \<le> k x" by auto
  moreover from r' set_s s have "r' \<in> set (r # rest)" by auto
  ultimately show "k r \<le> k r'" by blast
qed

lemma sql_select_1_cases:
  obtains (none) "sql_select p k 1 t = []" "\<forall>r \<in> set t. \<not> p r"
  | (one) r where "sql_select p k 1 t = [r]"
proof (cases "sql_select p k 1 t")
  case Nil
  then have "filter p t = []"
    by (auto simp: sql_select_def dest: arg_cong [where f = length])
  then have "\<forall>r \<in> set t. \<not> p r" by (simp add: filter_empty_conv)
  with Nil show thesis by (rule none)
next
  case (Cons r rest)
  then have "rest = []"
    using length_sql_select [of p k 1 t] by (cases rest) auto
  with Cons show thesis by (blast intro: one)
qed

text \<open>A comparison with a nullable timestamp column is not true when the column is null.\<close>

definition sql_le :: "time option \<Rightarrow> time \<Rightarrow> bool" where
  "sql_le x now = (case x of None \<Rightarrow> False | Some t \<Rightarrow> t \<le> now)"

lemma sql_le_simps [simp]: "\<not> sql_le None now" "sql_le (Some t) now = (t \<le> now)"
  by (simp_all add: sql_le_def)

subsection \<open>Rows under a primary key\<close>

text \<open>
  With distinct keys a predicate that fixes the key selects at most one row, so the affected-row
  count of a keyed statement is decided by looking that row up.
\<close>

lemma sql_row_key_eq:
  assumes "distinct (map key t)" and "r \<in> set t" and "key r = x"
  shows "sql_row (\<lambda>r. key r = x) t = Some r"
  using assms by (induction t) (auto simp: image_iff)

lemma sql_count_key:
  assumes "distinct (map key t)"
  shows "sql_count (\<lambda>r. key r = x \<and> q r) t =
    (case sql_row (\<lambda>r. key r = x) t of None \<Rightarrow> 0 | Some r \<Rightarrow> if q r then 1 else 0)"
  using assms
proof (induction t)
  case (Cons r t)
  show ?case
  proof (cases "key r = x")
    case True
    with Cons.prems have "\<forall>r' \<in> set t. \<not> (key r' = x \<and> q r')" by (auto simp: image_iff)
    then have "sql_count (\<lambda>r. key r = x \<and> q r) t = 0" by simp
    with True show ?thesis by simp
  next
    case False
    with Cons show ?thesis by simp
  qed
qed simp

lemma sql_row_update_key:
  assumes "\<And>r. key (f r) = key r"
  shows "sql_row (\<lambda>r. key r = x) (sql_update p f t) =
    map_option (\<lambda>r. if p r then f r else r) (sql_row (\<lambda>r. key r = x) t)"
  using assms by (induction t) auto

lemma sql_row_append:
  "sql_row p (s @ t) = (case sql_row p s of None \<Rightarrow> sql_row p t | Some r \<Rightarrow> Some r)"
  by (induction s) auto

lemma sql_row_delete:
  assumes "distinct (map key t)"
  shows "sql_row (\<lambda>r. key r = x) (sql_delete p t) =
    (case sql_row (\<lambda>r. key r = x) t of None \<Rightarrow> None | Some r \<Rightarrow> if p r then None else Some r)"
  using assms
proof (induction t)
  case (Cons r t)
  show ?case
  proof (cases "key r = x \<and> p r")
    case True
    with Cons.prems have "sql_row (\<lambda>r. key r = x) (sql_delete p t) = None"
      by (auto simp: sql_row_None_iff set_sql_delete image_iff)
    with True show ?thesis by simp
  next
    case False
    with Cons show ?thesis by auto
  qed
qed simp

lemmas sql_keyed [sql_simps] = sql_count_key sql_row_update_key sql_row_append sql_row_delete

subsection \<open>Bounded deletion\<close>

text \<open>
  \<^verbatim>\<open>WITH expired AS (SELECT key FROM t WHERE p ORDER BY k LIMIT n) DELETE FROM t USING expired WHERE
  t.key = expired.key\<close>: the affected-row count and the remaining table.
\<close>

definition sql_delete_batch ::
  "('r \<Rightarrow> 'key) \<Rightarrow> ('r \<Rightarrow> bool) \<Rightarrow> ('r \<Rightarrow> 'k::linorder) \<Rightarrow> nat \<Rightarrow> 'r list \<Rightarrow> nat \<times> 'r list" where
  "sql_delete_batch key p k n t =
     (let expired = map key (sql_select p k n t); hit = (\<lambda>r. key r \<in> set expired)
      in (sql_count hit t, sql_delete hit t))"

lemma batch_hit:
  assumes "distinct (map key t)" and "r \<in> set t" and "key r \<in> set (map key (sql_select p k n t))"
  shows "r \<in> set (sql_select p k n t)" and "p r"
proof -
  from assms(3) obtain r' where r': "r' \<in> set (sql_select p k n t)" "key r' = key r" by auto
  then have "r' \<in> set t" "p r'" using set_sql_select_subset [of p k n t] by auto
  with assms(1,2) r'(2) have "r' = r" by (auto simp: distinct_map inj_on_def)
  with r'(1) \<open>p r'\<close> show "r \<in> set (sql_select p k n t)" and "p r" by auto
qed

lemma batch_length: "length (snd (sql_delete_batch key p k n t)) + fst (sql_delete_batch key p k n t) = length t"
  by (simp add: sql_delete_batch_def Let_def length_sql_delete)

lemma batch_subset: "set (snd (sql_delete_batch key p k n t)) \<subseteq> set t"
  by (auto simp: sql_delete_batch_def Let_def set_sql_delete)

lemma batch_keeps:
  assumes "distinct (map key t)" and "r \<in> set t" and "\<not> p r"
  shows "r \<in> set (snd (sql_delete_batch key p k n t))"
  using batch_hit(2) [OF assms(1,2)] assms(2,3)
  by (auto simp: sql_delete_batch_def Let_def set_sql_delete)

lemma batch_keeps_row:
  assumes "distinct (map key t)" and "sql_row (\<lambda>r. key r = x) t = Some r" and "\<not> p r"
  shows "sql_row (\<lambda>r. key r = x) (snd (sql_delete_batch key p k n t)) = Some r"
  using batch_hit(2) [OF assms(1), of r p k n] sql_row_SomeD [OF assms(2)] assms
  by (auto simp: sql_delete_batch_def Let_def sql_row_delete)

lemma batch_count:
  assumes "distinct (map key t)"
  shows "fst (sql_delete_batch key p k n t) = min n (sql_count p t)"
proof -
  let ?sel = "sql_select p k n t"
  let ?hit = "\<lambda>r. key r \<in> set (map key ?sel)"
  have sub: "set ?sel \<subseteq> set t" using set_sql_select_subset [of p k n t] by blast
  have "set (filter ?hit t) = set ?sel"
  proof
    show "set (filter ?hit t) \<subseteq> set ?sel" using batch_hit(1) [OF assms, of _ p k n] by auto
    show "set ?sel \<subseteq> set (filter ?hit t)" using sub by auto
  qed
  moreover have "distinct t" using assms by (simp only: distinct_map)
  moreover have "distinct ?sel" using distinct_map_sql_select [OF assms, of p k n] by (simp only: distinct_map)
  ultimately have "length (filter ?hit t) = length ?sel" by (metis distinct_card distinct_filter)
  then show ?thesis
    by (simp add: sql_delete_batch_def Let_def sql_count_def length_sql_select [unfolded sql_count_def])
qed

lemma batch_distinct:
  "distinct (map g t) \<Longrightarrow> distinct (map g (snd (sql_delete_batch key p k n t)))"
  by (simp add: sql_delete_batch_def Let_def distinct_map_sql_delete)

lemma batch_list_all: "list_all Q t \<Longrightarrow> list_all Q (snd (sql_delete_batch key p k n t))"
  by (simp add: sql_delete_batch_def Let_def list_all_sql_delete)

end
