(* ===== verification/Go_Strings.thy ===== *)
theory Go_Strings
  imports Auth_Prelude
begin

text \<open>
  The parts of Go's \<^verbatim>\<open>strings\<close>, \<^verbatim>\<open>regexp\<close>, \<^verbatim>\<open>unicode\<close> and \<^verbatim>\<open>strconv\<close> packages that the sources
  call, on byte strings. \<open>TrimSpace\<close> removes the UTF-8 encodings of every rune for which
  \<open>unicode.IsSpace\<close> holds; \<open>ContainsControl\<close> finds the runes of \<open>unicode.IsControl\<close>. The
  lower-casing of non-ASCII text is a parameter, ASCII text is lower-cased byte by byte.
\<close>

section \<open>Character classes and anchored patterns\<close>

definition is_lower_c :: "char \<Rightarrow> bool" where
  "is_lower_c c \<longleftrightarrow> CHR ''a'' \<le> c \<and> c \<le> CHR ''z''"
definition is_upper_c :: "char \<Rightarrow> bool" where
  "is_upper_c c \<longleftrightarrow> CHR ''A'' \<le> c \<and> c \<le> CHR ''Z''"
definition is_digit_c :: "char \<Rightarrow> bool" where
  "is_digit_c c \<longleftrightarrow> CHR ''0'' \<le> c \<and> c \<le> CHR ''9''"
definition is_alnum_c :: "char \<Rightarrow> bool" where
  "is_alnum_c c \<longleftrightarrow> is_lower_c c \<or> is_upper_c c \<or> is_digit_c c"

lemmas char_class_defs [go_defs] = is_lower_c_def is_upper_c_def is_digit_c_def is_alnum_c_def

text \<open>\<^verbatim>\<open>^[first][rest]{0,n}$\<close>.\<close>

definition head_tail_match :: "(char \<Rightarrow> bool) \<Rightarrow> (char \<Rightarrow> bool) \<Rightarrow> nat \<Rightarrow> string \<Rightarrow> bool" where
  "head_tail_match first rest n s =
     (case s of [] \<Rightarrow> False | c # cs \<Rightarrow> first c \<and> list_all rest cs \<and> length cs \<le> n)"

lemma head_tail_match_length: "head_tail_match f r n s \<Longrightarrow> 1 \<le> length s \<and> length s \<le> Suc n"
  by (auto simp: head_tail_match_def split: list.splits)

section \<open>\<open>strings.TrimSpace\<close>\<close>

text \<open>The UTF-8 encodings of the runes in \<open>unicode.White_Space\<close>.\<close>

definition white_space :: "string list" where
  "white_space =
     map (\<lambda>n. [char_of (n::nat)]) [9, 10, 11, 12, 13, 32] @
     [map char_of [0xC2::nat, 0x85], map char_of [0xC2::nat, 0xA0],
      map char_of [0xE1::nat, 0x9A, 0x80]] @
     map (\<lambda>n. map char_of [0xE2::nat, 0x80, n]) [0x80 ..< 0x8B] @
     [map char_of [0xE2::nat, 0x80, 0xA8], map char_of [0xE2::nat, 0x80, 0xA9],
      map char_of [0xE2::nat, 0x80, 0xAF], map char_of [0xE2::nat, 0x81, 0x9F],
      map char_of [0xE3::nat, 0x80, 0x80]]"

lemma white_space_nonempty: "w \<in> set white_space \<Longrightarrow> w \<noteq> []"
  by (auto simp: white_space_def)

function trim_prefixes :: "string list \<Rightarrow> string \<Rightarrow> string" where
  "trim_prefixes ws s =
     (case find (\<lambda>w. w \<noteq> [] \<and> prefix w s) ws of
        None \<Rightarrow> s
      | Some w \<Rightarrow> trim_prefixes ws (drop (length w) s))"
  by pat_completeness auto
termination
proof (relation "measure (\<lambda>(ws, s). length s)")
  show "wf (measure (\<lambda>(ws, s). length s))" by simp
next
  fix ws s w
  assume "find (\<lambda>w. w \<noteq> [] \<and> prefix w s) ws = Some w"
  then have "w \<noteq> []" and "prefix w s" by (auto simp: find_Some_iff)
  then have "0 < length w" and "length w \<le> length s" by (auto dest: prefix_length_le)
  then have "length s - length w < length s" by linarith
  then show "((ws, drop (length w) s), ws, s) \<in> measure (\<lambda>(ws, s). length s)" by simp
qed

declare trim_prefixes.simps [simp del]

definition TrimLeftSpace :: "string \<Rightarrow> string" where
  "TrimLeftSpace s = trim_prefixes white_space s"
definition TrimRightSpace :: "string \<Rightarrow> string" where
  "TrimRightSpace s = rev (trim_prefixes (map rev white_space) (rev s))"
definition TrimSpace :: "string \<Rightarrow> string" where
  "TrimSpace s = TrimRightSpace (TrimLeftSpace s)"

lemma trim_prefixes_suffix: "suffix (trim_prefixes ws s) s"
proof (induction ws s rule: trim_prefixes.induct)
  case (1 ws s)
  show ?case
  proof (cases "find (\<lambda>w. w \<noteq> [] \<and> prefix w s) ws")
    case None
    then show ?thesis by (simp add: trim_prefixes.simps [of ws s])
  next
    case (Some w)
    with "1.IH" have "suffix (trim_prefixes ws (drop (length w) s)) (drop (length w) s)" by simp
    then have "suffix (trim_prefixes ws (drop (length w) s)) s"
      by (meson suffix_drop suffix_order.trans)
    with Some show ?thesis by (simp add: trim_prefixes.simps [of ws s])
  qed
qed

lemma trim_prefixes_done: "w \<in> set ws \<Longrightarrow> w \<noteq> [] \<Longrightarrow> \<not> prefix w (trim_prefixes ws s)"
proof (induction ws s rule: trim_prefixes.induct)
  case (1 ws s)
  show ?case
  proof (cases "find (\<lambda>w. w \<noteq> [] \<and> prefix w s) ws")
    case None
    then have "trim_prefixes ws s = s" by (simp add: trim_prefixes.simps [of ws s])
    with None "1.prems" show ?thesis by (auto simp: find_None_iff)
  next
    case (Some w')
    with "1.IH" [OF Some] "1.prems" show ?thesis by (simp add: trim_prefixes.simps [of ws s])
  qed
qed

lemma TrimSpace_length: "length (TrimSpace s) \<le> length s"
proof -
  have "length (trim_prefixes ws x) \<le> length x" for ws x
    using trim_prefixes_suffix by (rule suffix_length_le)
  then have "length (TrimRightSpace y) \<le> length y" and "length (TrimLeftSpace y) \<le> length y" for y
    by (simp_all add: TrimRightSpace_def TrimLeftSpace_def)
      (metis length_rev)
  then show ?thesis unfolding TrimSpace_def by (meson order_trans)
qed

text \<open>Text that begins and ends with a visible ASCII character is already trimmed.\<close>

definition visible_c :: "char \<Rightarrow> bool" where
  "visible_c c \<longleftrightarrow> 32 < (of_char c :: nat) \<and> (of_char c :: nat) < 127"

lemma white_space_invisible: "w \<in> set white_space \<Longrightarrow> \<not> visible_c (hd w) \<and> \<not> visible_c (last w)"
  by (auto simp: white_space_def visible_c_def)

lemma trim_prefixes_id:
  assumes "\<And>w. w \<in> set ws \<Longrightarrow> w \<noteq> [] \<Longrightarrow> \<not> prefix w s"
  shows "trim_prefixes ws s = s"
proof -
  have "find (\<lambda>w. w \<noteq> [] \<and> prefix w s) ws = None" using assms by (auto simp: find_None_iff)
  then show ?thesis by (simp add: trim_prefixes.simps [of ws s])
qed

lemma TrimSpace_visible:
  assumes "s \<noteq> []" and "visible_c (hd s)" and "visible_c (last s)"
  shows "TrimSpace s = s"
proof -
  have hd: "hd w = hd s" if "prefix w s" "w \<noteq> []" for w :: string
    using that by (auto simp: prefix_def)
  have "TrimLeftSpace s = s" unfolding TrimLeftSpace_def
  proof (rule trim_prefixes_id)
    fix w assume "w \<in> set white_space" and "w \<noteq> []"
    then show "\<not> prefix w s" using assms hd white_space_invisible by metis
  qed
  moreover have "trim_prefixes (map rev white_space) (rev s) = rev s"
  proof (rule trim_prefixes_id)
    fix w assume w: "w \<in> set (map rev white_space)" "w \<noteq> []"
    then have "rev w \<in> set white_space" by auto
    then have "\<not> visible_c (last (rev w))" by (simp add: white_space_invisible)
    with w(2) have "hd w \<noteq> last s" using assms(3) by (auto simp: last_rev)
    with w(2) assms(1) show "\<not> prefix w (rev s)" by (auto simp: prefix_def hd_rev [symmetric])
  qed
  ultimately show ?thesis by (simp add: TrimSpace_def TrimRightSpace_def)
qed

section \<open>\<open>unicode.IsControl\<close> over a string\<close>

text \<open>
  C0 controls and DEL are single bytes; the C1 controls U+0080 to U+009F are the pairs
  \<^verbatim>\<open>C2 80\<close> to \<^verbatim>\<open>C2 9F\<close>. The byte \<^verbatim>\<open>C2\<close> is never a continuation byte, so a pair found by scanning
  bytes is a decoded rune.
\<close>

fun ContainsControl :: "string \<Rightarrow> bool" where
  "ContainsControl [] = False"
| "ContainsControl (c # cs) =
     (let n = (of_char c :: nat) in
      n < 32 \<or> n = 127 \<or>
      (n = 0xC2 \<and> (case cs of [] \<Rightarrow> False | d # _ \<Rightarrow> 0x80 \<le> (of_char d :: nat) \<and> (of_char d :: nat) \<le> 0x9F)) \<or>
      ContainsControl cs)"

section \<open>\<open>strings.ToLower\<close>\<close>

definition is_ascii :: "string \<Rightarrow> bool" where
  "is_ascii s = list_all (\<lambda>c. (of_char c :: nat) < 128) s"

definition lower_c :: "char \<Rightarrow> char" where
  "lower_c c = (if is_upper_c c then char_of ((of_char c :: nat) + 32) else c)"

definition ToLower :: "(string \<Rightarrow> string) \<Rightarrow> string \<Rightarrow> string" where
  "ToLower unicode_lower s = (if is_ascii s then map lower_c s else unicode_lower s)"

section \<open>\<open>strings.Split\<close>, \<open>strings.Cut\<close>, \<open>strings.LastIndex\<close>\<close>

fun Split :: "char \<Rightarrow> string \<Rightarrow> string list" where
  "Split sep [] = [[]]"
| "Split sep (c # cs) =
     (if c = sep then [] # Split sep cs
      else (case Split sep cs of [] \<Rightarrow> [[c]] | w # ws \<Rightarrow> (c # w) # ws))"

text \<open>\<open>strings.Cut\<close> around one byte: \<open>None\<close> when the separator does not occur.\<close>

fun Cut :: "char \<Rightarrow> string \<Rightarrow> (string \<times> string) option" where
  "Cut sep [] = None"
| "Cut sep (c # cs) =
     (if c = sep then Some ([], cs)
      else (case Cut sep cs of None \<Rightarrow> None | Some (a, b) \<Rightarrow> Some (c # a, b)))"

lemma Split_nonempty [simp]: "Split sep s \<noteq> []"
  by (cases s) (auto split: list.splits)

lemma Split_no_sep: "sep \<notin> set s \<Longrightarrow> Split sep s = [s]"
  by (induction s) auto

lemma Split_append_sep: "sep \<notin> set a \<Longrightarrow> Split sep (a @ sep # b) = a # Split sep b"
  by (induction a) auto

lemma Cut_append: "sep \<notin> set a \<Longrightarrow> Cut sep (a @ sep # b) = Some (a, b)"
  by (induction a) auto

lemma Cut_SomeD: "Cut sep s = Some (a, b) \<Longrightarrow> s = a @ sep # b \<and> sep \<notin> set a"
  by (induction s arbitrary: a) (auto split: if_splits option.splits)

lemma Cut_None_iff: "Cut sep s = None \<longleftrightarrow> sep \<notin> set s"
  by (induction s) (auto split: option.splits)

text \<open>\<open>strings.TrimPrefix\<close>.\<close>

definition TrimPrefix :: "string \<Rightarrow> string \<Rightarrow> string" where
  "TrimPrefix s p = (if prefix p s then drop (length p) s else s)"

lemma TrimPrefix_append [simp]: "TrimPrefix (p @ s) p = s"
  by (simp add: TrimPrefix_def)

section \<open>\<open>strconv\<close> decimal numbers\<close>

fun digits_value :: "nat \<Rightarrow> string \<Rightarrow> nat option" where
  "digits_value acc [] = Some acc"
| "digits_value acc (c # cs) =
     (if is_digit_c c then digits_value (10 * acc + (of_char c - 48)) cs else None)"

text \<open>\<open>strconv.ParseUint(s, 10, bits)\<close>; syntax and range errors are \<open>None\<close>.\<close>

definition ParseUint :: "nat \<Rightarrow> string \<Rightarrow> nat option" where
  "ParseUint bits s =
     (if s = [] then None
      else (case digits_value 0 s of
              None \<Rightarrow> None
            | Some n \<Rightarrow> if n < 2 ^ bits then Some n else None))"

function decimal :: "nat \<Rightarrow> string" where
  "decimal n = (if n < 10 then [char_of (48 + n)] else decimal (n div 10) @ [char_of (48 + n mod 10)])"
  by pat_completeness auto
termination
  by (relation "measure id") auto

declare decimal.simps [simp del]

lemma is_digit_char_of: "d < 10 \<Longrightarrow> is_digit_c (char_of (48 + d :: nat))"
  by (simp add: is_digit_c_def less_eq_char_def)

lemma digits_value_append:
  "digits_value acc (xs @ ys) = (case digits_value acc xs of None \<Rightarrow> None | Some a \<Rightarrow> digits_value a ys)"
  by (induction xs arbitrary: acc) auto

lemma digits_value_decimal: "digits_value 0 (decimal n) = Some n"
proof (induction n rule: decimal.induct)
  case (1 n)
  show ?case
  proof (cases "n < 10")
    case True
    then show ?thesis
      by (simp add: decimal.simps [of n] is_digit_char_of)
  next
    case False
    with "1.IH" show ?thesis
      by (simp add: decimal.simps [of n] digits_value_append is_digit_char_of)
  qed
qed

lemma decimal_nonempty [simp]: "decimal n \<noteq> []"
  by (subst decimal.simps) simp

lemma decimal_digits: "c \<in> set (decimal n) \<Longrightarrow> is_digit_c c"
proof (induction n rule: decimal.induct)
  case (1 n)
  then show ?case
    by (cases "n < 10") (auto simp: decimal.simps [of n] is_digit_char_of)
qed

lemma ParseUint_decimal: "n < 2 ^ bits \<Longrightarrow> ParseUint bits (decimal n) = Some n"
  by (simp add: ParseUint_def digits_value_decimal)

lemma ParseUint_bound: "ParseUint bits s = Some n \<Longrightarrow> n < 2 ^ bits"
  by (auto simp: ParseUint_def split: if_splits option.splits)

section \<open>\<open>strings.Join\<close>\<close>

fun Join :: "string \<Rightarrow> string list \<Rightarrow> string" where
  "Join sep [] = []"
| "Join sep [x] = x"
| "Join sep (x # y # ys) = x @ sep @ Join sep (y # ys)"

lemma Split_Join:
  "xs \<noteq> [] \<Longrightarrow> list_all (\<lambda>x. sep \<notin> set x) xs \<Longrightarrow> Split sep (Join [sep] xs) = xs"
  by (induction "[sep]" xs rule: Join.induct) (simp_all add: Split_no_sep Split_append_sep)

lemma Join_hd: "xs \<noteq> [] \<Longrightarrow> hd xs \<noteq> [] \<Longrightarrow> hd (Join sep xs) = hd (hd xs) \<and> Join sep xs \<noteq> []"
  by (cases "(sep, xs)" rule: Join.cases) simp_all

lemma Join_last: "xs \<noteq> [] \<Longrightarrow> list_all (\<lambda>x. x \<noteq> []) xs \<Longrightarrow> last (Join sep xs) = last (last xs) \<and> Join sep xs \<noteq> []"
  by (induction sep xs rule: Join.induct) auto


section \<open>\<open>strings.Fields\<close>\<close>

text \<open>The maximal runs of bytes between white space; \<open>cur\<close> is the run being read. A white-space rune begins with
  a byte that continues no other rune, so scanning bytes finds exactly the decoded runes.\<close>

function fields_from :: "string \<Rightarrow> string \<Rightarrow> string list" where
  "fields_from cur [] = (if cur = [] then [] else [cur])"
| "fields_from cur (b # bs) =
     (case find (\<lambda>w. w \<noteq> [] \<and> prefix w (b # bs)) white_space of
        None \<Rightarrow> fields_from (cur @ [b]) bs
      | Some w \<Rightarrow> (if cur = [] then [] else [cur]) @ fields_from [] (drop (length w) (b # bs)))"
  by pat_completeness auto
termination
proof (relation "measure (\<lambda>(cur, s). length s)")
  fix cur :: string and b bs w
  assume "find (\<lambda>w. w \<noteq> [] \<and> prefix w (b # bs)) white_space = Some w"
  then have "w \<noteq> []" by (auto simp: find_Some_iff)
  then have "0 < length w" by simp
  then have "length (b # bs) - length w < length (b # bs)" by (simp only: list.size)
  then show "(([], drop (length w) (b # bs)), cur, b # bs) \<in> measure (\<lambda>(cur, s). length s)" by simp
qed simp_all

declare fields_from.simps [simp del]

definition Fields :: "string \<Rightarrow> string list" where
  "Fields s = fields_from [] s"

lemma fields_visible: "list_all visible_c x \<Longrightarrow> fields_from cur (x @ rest) = fields_from (cur @ x) rest"
proof (induction x arbitrary: cur)
  case (Cons b x)
  have "find (\<lambda>w. w \<noteq> [] \<and> prefix w (b # x @ rest)) white_space = None"
  proof -
    have "\<not> prefix w (b # x @ rest)" if "w \<in> set white_space" "w \<noteq> []" for w
      using white_space_invisible [OF that(1)] that(2) Cons.prems by (cases w) auto
    then show ?thesis by (auto simp: find_None_iff)
  qed
  with Cons show ?case by (simp add: fields_from.simps)
qed simp

lemma fields_space: "fields_from cur (CHR '' '' # rest) = (if cur = [] then [] else [cur]) @ fields_from [] rest"
proof -
  have only: "w = '' ''" if "w \<in> set white_space" "prefix w (CHR '' '' # rest)" for w
    using that by (auto simp: white_space_def char_of_def)
  have "'' '' \<in> set white_space" by code_simp
  then have "find (\<lambda>w. w \<noteq> [] \<and> prefix w (CHR '' '' # rest)) white_space \<noteq> None"
    unfolding find_None_iff by (metis Cons_prefix_Cons Nil_prefix list.distinct(1))
  then obtain w where w: "find (\<lambda>w. w \<noteq> [] \<and> prefix w (CHR '' '' # rest)) white_space = Some w" by auto
  then have "w = '' ''" using only by (auto simp: find_Some_iff)
  with w show ?thesis by (simp add: fields_from.simps)
qed

lemma Fields_Join:
  "list_all (\<lambda>x. x \<noteq> [] \<and> list_all visible_c x) xs \<Longrightarrow> Fields (Join '' '' xs) = xs"
proof (induction "'' ''" xs rule: Join.induct)
  case (2 x)
  then show ?case using fields_visible [of x "[]" "[]"] by (simp add: Fields_def fields_from.simps)
next
  case (3 x y ys)
  then show ?case
    using fields_visible [of x "[]" "'' '' @ Join '' '' (y # ys)"] by (simp add: Fields_def fields_space)
qed (simp add: Fields_def fields_from.simps)

lemma fields_from_nonempty: "x \<in> set (fields_from cur s) \<Longrightarrow> x \<noteq> []"
  by (induction cur s rule: fields_from.induct) (auto simp: fields_from.simps split: option.splits if_splits)

end
