(* ===== verification/Migrations.thy ===== *)
theory Migrations
  imports Go_Strings
begin

text \<open>
  The forward-only schema migrations, \<^verbatim>\<open>internal/store/migrations.go\<close>. The directory is the list of
  its entries, SHA-256 is a parameter, and so is the effect of a migration file on the rest of the
  database (\<open>None\<close> is a file PostgreSQL refuses). Every statement outside a transaction commits on its
  own, so a failure leaves the statements before it in place. The advisory lock makes one run of
  \<open>Migrate\<close> at a time see the history table.
\<close>

section \<open>Data\<close>

record dir_entry =
  de_name :: string
  de_is_dir :: bool
  de_contents :: "byte list option"

record migrationFile =
  mf_name :: string
  mf_contents :: "byte list"
  mf_checksum :: string

record history_row =
  hr_version :: string
  hr_checksum :: "string option"

text \<open>\<open>schema_migrations\<close> (absent before the first run), its \<open>NOT NULL\<close> constraint, and the rest.\<close>

record 'db schema =
  sc_history :: "history_row list option"
  sc_not_null :: bool
  sc_db :: 'db

datatype migration_error =
    ReadMigrations
  | InvalidMigrationName string
  | ReadMigration string
  | DuplicateMigrationVersion string
  | MigrationMissing string
  | MigrationModified string string string
  | MigrationFailed string

section \<open>File names\<close>

definition forwardSQLPattern :: "string \<Rightarrow> bool" where
  "forwardSQLPattern s = suffix ''.up.sql'' s"

definition migration_word :: "string \<Rightarrow> bool" where
  "migration_word w \<longleftrightarrow> w \<noteq> [] \<and> list_all (\<lambda>c. is_lower_c c \<or> is_digit_c c) w"

definition migrationNamePattern :: "string \<Rightarrow> bool" where
  "migrationNamePattern s \<longleftrightarrow>
     forwardSQLPattern s \<and>
     (let b = take (length s - 7) s in
      length b > 7 \<and> list_all is_digit_c (take 6 b) \<and> b ! 6 = CHR ''_'' \<and>
      list_all migration_word (Split (CHR ''_'') (drop 7 b)))"

definition hex_digit :: "nat \<Rightarrow> char" where
  "hex_digit n = ''0123456789abcdef'' ! n"

definition hex_EncodeToString :: "byte list \<Rightarrow> string" where
  "hex_EncodeToString bs = concat (map (\<lambda>b. [hex_digit (unat b div 16), hex_digit (unat b mod 16)]) bs)"

section \<open>\<open>loadMigrations\<close>\<close>

fun read_entries :: "(byte list \<Rightarrow> byte list) \<Rightarrow> dir_entry list \<Rightarrow> migration_error + migrationFile list" where
  "read_entries Sum256 [] = Inr []"
| "read_entries Sum256 (entry # entries) =
     (if de_is_dir entry \<or> \<not> forwardSQLPattern (de_name entry) then read_entries Sum256 entries
      else if \<not> migrationNamePattern (de_name entry) then Inl (InvalidMigrationName (de_name entry))
      else (case de_contents entry of
              None \<Rightarrow> Inl (ReadMigration (de_name entry))
            | Some contents \<Rightarrow>
                (case read_entries Sum256 entries of
                   Inl e \<Rightarrow> Inl e
                 | Inr ms \<Rightarrow>
                     Inr (\<lparr>mf_name = de_name entry, mf_contents = contents,
                           mf_checksum = hex_EncodeToString (Sum256 contents)\<rparr> # ms))))"

definition version_prefix :: "migrationFile \<Rightarrow> string" where
  "version_prefix m = take 6 (mf_name m)"

text \<open>The scan over neighbours after sorting: the first repeated version prefix.\<close>

fun duplicate_version :: "migrationFile list \<Rightarrow> string option" where
  "duplicate_version (a # b # ms) =
     (if version_prefix a = version_prefix b then Some (version_prefix b) else duplicate_version (b # ms))"
| "duplicate_version _ = None"

definition loadMigrations ::
  "(byte list \<Rightarrow> byte list) \<Rightarrow> dir_entry list option \<Rightarrow> migration_error + migrationFile list" where
  "loadMigrations Sum256 dir =
     (case dir of
        None \<Rightarrow> Inl ReadMigrations
      | Some entries \<Rightarrow>
          (case read_entries Sum256 entries of
             Inl e \<Rightarrow> Inl e
           | Inr ms \<Rightarrow>
               let migrations = sort_key mf_name ms in
               (case duplicate_version migrations of
                  Some v \<Rightarrow> Inl (DuplicateMigrationVersion v)
                | None \<Rightarrow> Inr migrations)))"

section \<open>\<open>Migrate\<close>\<close>

definition by_name :: "migrationFile list \<Rightarrow> string \<Rightarrow> migrationFile option" where
  "by_name migrations n = map_of (rev (map (\<lambda>m. (mf_name m, m)) migrations)) n"

text \<open>The check of the recorded history against the release: the first error, if any.\<close>

fun check_history :: "migrationFile list \<Rightarrow> history_row list \<Rightarrow> migration_error option" where
  "check_history migrations [] = None"
| "check_history migrations (r # rs) =
     (case by_name migrations (hr_version r) of
        None \<Rightarrow> Some (MigrationMissing (hr_version r))
      | Some m \<Rightarrow>
          (case hr_checksum r of
             Some c \<Rightarrow> if c \<noteq> mf_checksum m then Some (MigrationModified (hr_version r) c (mf_checksum m))
                       else check_history migrations rs
           | None \<Rightarrow> check_history migrations rs))"

definition seal_row :: "migrationFile \<Rightarrow> history_row \<Rightarrow> history_row" where
  "seal_row m r = r\<lparr>hr_checksum := Some (mf_checksum m)\<rparr>"

fun seal_loop ::
  "faults \<Rightarrow> (string \<Rightarrow> bool) \<Rightarrow> migrationFile list \<Rightarrow> history_row list \<Rightarrow>
   migration_error option \<times> history_row list" where
  "seal_loop flt applied [] h = (None, h)"
| "seal_loop flt applied (m # ms) h =
     (if \<not> applied (mf_name m) then seal_loop flt applied ms h
      else if flt (''seal migration '' @ mf_name m) then (Some (MigrationFailed (''seal migration '' @ mf_name m)), h)
      else seal_loop flt applied ms
             (sql_update (\<lambda>r. hr_version r = mf_name m \<and> hr_checksum r = None) (seal_row m) h))"

definition new_history_row :: "migrationFile \<Rightarrow> history_row" where
  "new_history_row m = \<lparr>hr_version = mf_name m, hr_checksum = Some (mf_checksum m)\<rparr>"

fun apply_loop ::
  "faults \<Rightarrow> (byte list \<Rightarrow> 'db \<Rightarrow> 'db option) \<Rightarrow> (string \<Rightarrow> bool) \<Rightarrow> migrationFile list \<Rightarrow>
   history_row list \<Rightarrow> 'db \<Rightarrow> migration_error option \<times> history_row list \<times> 'db" where
  "apply_loop flt exec applied [] h db = (None, h, db)"
| "apply_loop flt exec applied (m # ms) h db =
     (if applied (mf_name m) then apply_loop flt exec applied ms h db
      else if flt (''begin migration '' @ mf_name m)
      then (Some (MigrationFailed (''begin migration '' @ mf_name m)), h, db)
      else if flt (''apply '' @ mf_name m) then (Some (MigrationFailed (''apply '' @ mf_name m)), h, db)
      else (case exec (mf_contents m) db of
              None \<Rightarrow> (Some (MigrationFailed (''apply '' @ mf_name m)), h, db)
            | Some db' \<Rightarrow>
                if sql_row (\<lambda>r. hr_version r = mf_name m) h \<noteq> None
                then (Some (MigrationFailed (''apply '' @ mf_name m)), h, db)
                else if flt (''commit '' @ mf_name m)
                then (Some (MigrationFailed (''commit '' @ mf_name m)), h, db)
                else apply_loop flt exec applied ms (h @ [new_history_row m]) db'))"

text \<open>The rows after \<open>CREATE TABLE IF NOT EXISTS\<close>.\<close>

definition history_of :: "'db schema \<Rightarrow> history_row list" where
  "history_of s = (case sc_history s of None \<Rightarrow> [] | Some h \<Rightarrow> h)"

definition Migrate ::
  "faults \<Rightarrow> (byte list \<Rightarrow> byte list) \<Rightarrow> (byte list \<Rightarrow> 'db \<Rightarrow> 'db option) \<Rightarrow> dir_entry list option \<Rightarrow>
   'db schema \<Rightarrow> (migration_error + unit) \<times> 'db schema" where
  "Migrate flt Sum256 exec dir s =
     (case loadMigrations Sum256 dir of
        Inl e \<Rightarrow> (Inl e, s)
      | Inr migrations \<Rightarrow>
          if flt ''acquire migration connection'' then (Inl (MigrationFailed ''acquire migration connection''), s)
          else if flt ''acquire migration lock'' then (Inl (MigrationFailed ''acquire migration lock''), s)
          else if flt ''initialize migration history''
          then (Inl (MigrationFailed ''initialize migration history''), s)
          else let h = history_of s; s1 = s\<lparr>sc_history := Some h\<rparr> in
          if flt ''read migration history'' then (Inl (MigrationFailed ''read migration history''), s1)
          else (case check_history migrations (sort_key hr_version h) of
            Some e \<Rightarrow> (Inl e, s1)
          | None \<Rightarrow>
             let applied = (\<lambda>n. n \<in> hr_version ` set h) in
             (case seal_loop flt applied migrations h of
                (Some e, h2) \<Rightarrow> (Inl e, s\<lparr>sc_history := Some h2\<rparr>)
              | (None, h2) \<Rightarrow>
                  if flt ''require migration checksums'' \<or> (\<exists>r \<in> set h2. hr_checksum r = None)
                  then (Inl (MigrationFailed ''require migration checksums''), s\<lparr>sc_history := Some h2\<rparr>)
                  else (case apply_loop flt exec applied migrations h2 (sc_db s) of
                          (e, h3, db3) \<Rightarrow>
                            ((case e of None \<Rightarrow> Inr () | Some e \<Rightarrow> Inl e),
                             \<lparr>sc_history = Some h3, sc_not_null = True, sc_db = db3\<rparr>)))))"

section \<open>The loaded release\<close>

lemma forward_take: "migrationNamePattern s \<Longrightarrow> 6 < length s"
  by (auto simp: migrationNamePattern_def Let_def)

lemma read_entries_names:
  "read_entries Sum256 es = Inr ms \<Longrightarrow>
     mf_name ` set ms = de_name ` {e \<in> set es. \<not> de_is_dir e \<and> forwardSQLPattern (de_name e)} \<and>
     (\<forall>m \<in> set ms. migrationNamePattern (mf_name m) \<and> mf_checksum m = hex_EncodeToString (Sum256 (mf_contents m)))"
proof (induction es arbitrary: ms)
  case (Cons e es)
  show ?case
  proof (cases "de_is_dir e \<or> \<not> forwardSQLPattern (de_name e)")
    case True
    then have "{x \<in> set (e # es). \<not> de_is_dir x \<and> forwardSQLPattern (de_name x)} =
        {x \<in> set es. \<not> de_is_dir x \<and> forwardSQLPattern (de_name x)}" by auto
    with True Cons show ?thesis by simp
  next
    case False
    with Cons.prems obtain c ms' where
      "migrationNamePattern (de_name e)" "read_entries Sum256 es = Inr ms'"
      "ms = \<lparr>mf_name = de_name e, mf_contents = c, mf_checksum = hex_EncodeToString (Sum256 c)\<rparr> # ms'"
      by (auto split: if_splits option.splits sum.splits)
    moreover have "{x \<in> set (e # es). \<not> de_is_dir x \<and> forwardSQLPattern (de_name x)} =
        insert e {x \<in> set es. \<not> de_is_dir x \<and> forwardSQLPattern (de_name x)}" using False by auto
    ultimately show ?thesis using Cons.IH by simp
  qed
qed simp

text \<open>Truncation keeps the lexicographic order, so equal prefixes are neighbours after sorting.\<close>

lemma take_mono_lex: "(xs :: 'a :: linorder list) \<le> ys \<Longrightarrow> take n xs \<le> take n ys"
proof (induction n arbitrary: xs ys)
  case (Suc n)
  then show ?case by (cases xs; cases ys) (auto simp: Cons_le_Cons)
qed simp

lemma duplicate_version_None:
  "duplicate_version ms = None \<Longrightarrow> sorted (map mf_name ms) \<Longrightarrow> distinct (map version_prefix ms)"
proof (induction ms rule: duplicate_version.induct)
  case (1 a b ms)
  then have d: "distinct (map version_prefix (b # ms))" and ne: "version_prefix a \<noteq> version_prefix b"
    by (simp_all split: if_splits)
  have mono: "mf_name x \<le> mf_name y \<Longrightarrow> version_prefix x \<le> version_prefix y" for x y
    unfolding version_prefix_def by (rule take_mono_lex)
  have "version_prefix a \<le> version_prefix b" using "1.prems"(2) by (simp add: mono)
  moreover have "version_prefix b \<le> version_prefix m" if "m \<in> set (b # ms)" for m
    using "1.prems"(2) that mono by auto
  ultimately have "version_prefix a < version_prefix m" if "m \<in> set (b # ms)" for m
    using that ne by (meson le_less_trans order_less_le less_le_trans)
  then have "version_prefix a \<notin> version_prefix ` set (b # ms)" by (metis imageE less_irrefl)
  then show ?case using d by simp
qed simp_all

lemma loadMigrations_ok:
  assumes "loadMigrations Sum256 dir = Inr ms"
  shows "sorted (map mf_name ms)" "distinct (map version_prefix ms)" "distinct (map mf_name ms)"
proof -
  from assms obtain es rs where r: "dir = Some es" "read_entries Sum256 es = Inr rs"
    "ms = sort_key mf_name rs" "duplicate_version ms = None"
    by (auto simp: loadMigrations_def Let_def split: option.splits sum.splits)
  show s: "sorted (map mf_name ms)" by (simp add: r)
  show d: "distinct (map version_prefix ms)" using r(4) s by (rule duplicate_version_None)
  have "map version_prefix ms = map (take 6) (map mf_name ms)" by (simp add: version_prefix_def)
  with d have "distinct (map (take 6) (map mf_name ms))" by (simp only:)
  then show "distinct (map mf_name ms)" by (simp only: distinct_map)
qed

section \<open>The history check and the sealing pass\<close>

text \<open>A history the release accepts: every applied file is present with the recorded checksum.\<close>

definition history_ok :: "migrationFile list \<Rightarrow> history_row list \<Rightarrow> bool" where
  "history_ok ms h \<longleftrightarrow> (\<forall>r \<in> set h. \<exists>m \<in> set ms. mf_name m = hr_version r \<and>
     (hr_checksum r = None \<or> hr_checksum r = Some (mf_checksum m)))"

lemma by_name_Some_iff:
  assumes "distinct (map mf_name ms)"
  shows "by_name ms n = Some m \<longleftrightarrow> m \<in> set ms \<and> mf_name m = n"
proof -
  have "distinct (map fst (rev (map (\<lambda>m. (mf_name m, m)) ms)))"
    using assms by (simp add: rev_map [symmetric] o_def)
  then show ?thesis by (auto simp: by_name_def)
qed

lemma by_name_None_iff: "by_name ms n = None \<longleftrightarrow> n \<notin> mf_name ` set ms"
  by (auto simp: by_name_def map_of_eq_None_iff image_image)

lemma check_history_None_iff:
  assumes "distinct (map mf_name ms)"
  shows "check_history ms h = None \<longleftrightarrow> history_ok ms h"
proof (induction h)
  case (Cons r h)
  show ?case
  proof (cases "by_name ms (hr_version r)")
    case None
    then have "hr_version r \<notin> mf_name ` set ms" by (simp add: by_name_None_iff)
    then have "\<not> history_ok ms (r # h)" unfolding history_ok_def by (metis image_eqI list.set_intros(1))
    with None show ?thesis by simp
  next
    case (Some m)
    then have m: "m \<in> set ms" "mf_name m = hr_version r" using by_name_Some_iff [OF assms] by auto
    have uniq: "k = m" if "k \<in> set ms" "mf_name k = hr_version r" for k
      using that m assms by (metis by_name_Some_iff option.inject)
    have "check_history ms (r # h) = None \<longleftrightarrow>
        (hr_checksum r = None \<or> hr_checksum r = Some (mf_checksum m)) \<and> check_history ms h = None"
      using Some by (auto split: option.splits)
    also have "\<dots> \<longleftrightarrow> history_ok ms (r # h)"
    proof -
      have "(\<exists>k \<in> set ms. mf_name k = hr_version r \<and> (hr_checksum r = None \<or> hr_checksum r = Some (mf_checksum k))) \<longleftrightarrow>
          hr_checksum r = None \<or> hr_checksum r = Some (mf_checksum m)"
        using m uniq by blast
      then show ?thesis unfolding Cons by (simp add: history_ok_def)
    qed
    finally show ?thesis .
  qed
qed (simp add: history_ok_def)

lemma history_ok_sort [simp]: "history_ok ms (sort_key k h) = history_ok ms h"
  by (simp add: history_ok_def)

definition sealed :: "migrationFile list \<Rightarrow> history_row list \<Rightarrow> history_row list" where
  "sealed ms h = map (\<lambda>r. case (hr_checksum r, by_name ms (hr_version r)) of
     (None, Some m) \<Rightarrow> seal_row m r | _ \<Rightarrow> r) h"

lemma seal_row_simps [simp]:
  "hr_version (seal_row m r) = hr_version r" "hr_checksum (seal_row m r) = Some (mf_checksum m)"
  by (simp_all add: seal_row_def)

lemma versions_sealed [simp]: "map hr_version (sealed ms h) = map hr_version h"
  by (induction h) (auto simp: sealed_def split: option.splits)

lemma versions_sealed_set [simp]: "hr_version ` set (sealed ms h) = hr_version ` set h"
  using arg_cong [OF versions_sealed, of set] by (simp del: versions_sealed)

text \<open>One sealing statement, under the history check.\<close>

definition seal_one :: "migrationFile \<Rightarrow> history_row list \<Rightarrow> history_row list" where
  "seal_one m = sql_update (\<lambda>r. hr_version r = mf_name m \<and> hr_checksum r = None) (seal_row m)"

lemma seal_one_simps:
  "map hr_version (seal_one m h) = map hr_version h"
  by (simp add: seal_one_def)

lemma history_ok_seal_one: "history_ok ms h \<Longrightarrow> m \<in> set ms \<Longrightarrow> history_ok ms (seal_one m h)"
  by (auto simp: history_ok_def seal_one_def set_sql_update)

lemma sealed_seal_one:
  assumes "distinct (map mf_name ms)" and "m \<in> set ms"
  shows "sealed ms (seal_one m h) = sealed ms h"
proof -
  have "by_name ms (mf_name m) = Some m" using by_name_Some_iff [OF assms(1)] assms(2) by auto
  then show ?thesis by (induction h) (auto simp: sealed_def seal_one_def)
qed

lemma seal_loop_partial:
  assumes "distinct (map mf_name all)" and "set ms \<subseteq> set all" and "history_ok all h"
    and "seal_loop flt A ms h = (e, h')"
  shows "history_ok all h' \<and> sealed all h' = sealed all h \<and> map hr_version h' = map hr_version h"
  using assms(2-)
proof (induction ms arbitrary: h)
  case (Cons m ms)
  have m: "m \<in> set all" using Cons.prems by simp
  show ?case
  proof (cases "A (mf_name m) \<and> \<not> flt (''seal migration '' @ mf_name m)")
    case True
    then have "seal_loop flt A ms (seal_one m h) = (e, h')" using Cons.prems(3) by (simp add: seal_one_def)
    then show ?thesis
      using Cons.IH [of "seal_one m h"] Cons.prems m history_ok_seal_one sealed_seal_one [OF assms(1) m] seal_one_simps
      by auto
  next
    case False
    then show ?thesis using Cons by (auto split: if_splits)
  qed
qed simp

lemma unsealed_by_seal_one:
  "q \<in> set (seal_one m h) \<Longrightarrow> hr_checksum q = None \<Longrightarrow> q \<in> set h \<and> hr_version q \<noteq> mf_name m"
  by (auto simp: seal_one_def set_sql_update split: if_splits)

lemma seal_loop_unsealed:
  "seal_loop flt A ms g = (e, g') \<Longrightarrow> q \<in> set g' \<Longrightarrow> hr_checksum q = None \<Longrightarrow>
     \<exists>p \<in> set g. hr_checksum p = None \<and> hr_version p = hr_version q"
proof (induction ms arbitrary: g)
  case (Cons m ms)
  show ?case
  proof (cases "A (mf_name m) \<and> \<not> flt (''seal migration '' @ mf_name m)")
    case True
    then have "seal_loop flt A ms (seal_one m g) = (e, g')" using Cons.prems(1) by (simp add: seal_one_def)
    from Cons.IH [OF this Cons.prems(2,3)] show ?thesis using unsealed_by_seal_one by blast
  next
    case False
    then show ?thesis using Cons by (cases "A (mf_name m)") auto
  qed
qed auto

text \<open>With no fault every applied file has been sealed.\<close>

lemma seal_loop_total:
  "seal_loop flt A ms h = (None, h') \<Longrightarrow> r \<in> set h' \<Longrightarrow> hr_checksum r = None \<Longrightarrow>
     hr_version r \<notin> {n \<in> mf_name ` set ms. A n}"
proof (induction ms arbitrary: h)
  case (Cons m ms)
  show ?case
  proof (cases "A (mf_name m)")
    case True
    then have loop: "seal_loop flt A ms (seal_one m h) = (None, h')"
      using Cons.prems(1) by (auto simp: seal_one_def split: if_splits)
    obtain q where "q \<in> set (seal_one m h)" "hr_checksum q = None" "hr_version q = hr_version r"
      using seal_loop_unsealed [OF loop Cons.prems(2,3)] by blast
    then have "hr_version r \<noteq> mf_name m" using unsealed_by_seal_one by metis
    then show ?thesis using Cons.IH [OF loop Cons.prems(2,3)] by auto
  next
    case False
    then show ?thesis using Cons by auto
  qed
qed simp

section \<open>The application loop\<close>

text \<open>The migrations still to apply, and the effect of applying a list of files in order.\<close>

definition pending :: "migrationFile list \<Rightarrow> history_row list \<Rightarrow> migrationFile list" where
  "pending ms h = filter (\<lambda>m. mf_name m \<notin> hr_version ` set h) ms"

fun exec_all :: "(byte list \<Rightarrow> 'db \<Rightarrow> 'db option) \<Rightarrow> migrationFile list \<Rightarrow> 'db \<Rightarrow> 'db option" where
  "exec_all exec [] db = Some db"
| "exec_all exec (m # ms) db =
     (case exec (mf_contents m) db of None \<Rightarrow> None | Some db' \<Rightarrow> exec_all exec ms db')"

definition agrees :: "(string \<Rightarrow> bool) \<Rightarrow> migrationFile list \<Rightarrow> history_row list \<Rightarrow> bool" where
  "agrees A ms h \<longleftrightarrow> (\<forall>m \<in> set ms. A (mf_name m) \<longleftrightarrow> mf_name m \<in> hr_version ` set h)"

lemma agrees_self [simp]: "agrees (\<lambda>n. n \<in> hr_version ` set h) ms h"
  by (simp add: agrees_def)

lemma agrees_Cons_append:
  "agrees A (m # ms) h \<Longrightarrow> distinct (map mf_name (m # ms)) \<Longrightarrow> agrees A ms (h @ [new_history_row m])"
  unfolding agrees_def by (simp add: new_history_row_def) (metis image_eqI)

lemma apply_loop_cong:
  "(\<And>m. m \<in> set ms \<Longrightarrow> A (mf_name m) = B (mf_name m)) \<Longrightarrow> apply_loop flt exec A ms h db = apply_loop flt exec B ms h db"
proof (induction ms arbitrary: h db)
  case (Cons m ms)
  then have "apply_loop flt exec A ms g d = apply_loop flt exec B ms g d" for g d by simp
  moreover have "A (mf_name m) = B (mf_name m)" by (rule Cons.prems) simp
  ultimately show ?case by (simp only: apply_loop.simps)
qed simp

text \<open>A stopped application loop and its continuation from the state it left do the same as one run.\<close>

lemma apply_loop_step:
  assumes "agrees A (m # ms) h" and "\<not> A (mf_name m)" and "\<not> flt (''begin migration '' @ mf_name m)"
    and "\<not> flt (''apply '' @ mf_name m)" and "\<not> flt (''commit '' @ mf_name m)"
    and "exec (mf_contents m) db = Some db'"
  shows "apply_loop flt exec A (m # ms) h db = apply_loop flt exec A ms (h @ [new_history_row m]) db'"
proof -
  have "mf_name m \<notin> hr_version ` set h" using assms(1,2) by (simp add: agrees_def)
  then have "sql_row (\<lambda>r. hr_version r = mf_name m) h = None"
    unfolding sql_row_None_iff by (metis image_eqI)
  then show ?thesis using assms by simp
qed

lemma apply_loop_stop:
  assumes "agrees A (m # ms) h" and "\<not> A (mf_name m)"
    and "flt (''begin migration '' @ mf_name m) \<or> flt (''apply '' @ mf_name m) \<or> flt (''commit '' @ mf_name m) \<or>
      exec (mf_contents m) db = None"
  shows "\<exists>e. apply_loop flt exec A (m # ms) h db = (Some e, h, db)"
  using assms by (auto split: option.splits)

lemma apply_loop_resume:
  assumes "apply_loop flt exec A ms h db = (e, h', db')" and "distinct (map mf_name ms)" and "agrees A ms h"
  shows "set h \<subseteq> set h' \<and>
    (agrees B ms h' \<longrightarrow> apply_loop no_faults exec B ms h' db' = apply_loop no_faults exec A ms h db)"
  using assms
proof (induction ms arbitrary: h db)
  case (Cons m ms)
  have tl: "agrees A ms h" "distinct (map mf_name ms)" using Cons.prems by (simp_all add: agrees_def)
  show ?case
  proof (cases "A (mf_name m)")
    case True
    then have "apply_loop flt exec A ms h db = (e, h', db')" using Cons.prems(1) by simp
    note ih = Cons.IH [OF this tl(2,1)]
    have "mf_name m \<in> hr_version ` set h" using True Cons.prems(3) by (simp add: agrees_def)
    then have "mf_name m \<in> hr_version ` set h'" using ih by blast
    then have "B (mf_name m) \<and> agrees B ms h'" if "agrees B (m # ms) h'" using that by (simp add: agrees_def)
    then show ?thesis using ih True by (metis apply_loop.simps(2))
  next
    case False
    show ?thesis
    proof (cases "flt (''begin migration '' @ mf_name m) \<or> flt (''apply '' @ mf_name m) \<or>
        flt (''commit '' @ mf_name m) \<or> exec (mf_contents m) db = None")
      case True
      from apply_loop_stop [of A m ms h flt exec db, OF Cons.prems(3) False True] Cons.prems(1)
      have eq: "h' = h" "db' = db" by auto
      have "apply_loop no_faults exec B (m # ms) h db = apply_loop no_faults exec A (m # ms) h db"
        if "agrees B (m # ms) h"
        by (rule apply_loop_cong) (use that Cons.prems(3) in \<open>auto simp: agrees_def\<close>)
      then show ?thesis unfolding eq by blast
    next
      case cont: False
      then obtain db1 where db1: "exec (mf_contents m) db = Some db1" by auto
      let ?h1 = "h @ [new_history_row m]"
      have "apply_loop flt exec A ms ?h1 db1 = (e, h', db')"
        using apply_loop_step [OF Cons.prems(3) False, of flt exec db db1] cont db1 Cons.prems(1) by simp
      note ih = Cons.IH [OF this tl(2) agrees_Cons_append [OF Cons.prems(3,2)]]
      have "new_history_row m \<in> set h'" using ih by auto
      then have "mf_name m \<in> hr_version ` set h'" by (force simp: new_history_row_def)
      then have "B (mf_name m) \<and> agrees B ms h'" if "agrees B (m # ms) h'" using that by (simp add: agrees_def)
      moreover have "apply_loop no_faults exec A (m # ms) h db = apply_loop no_faults exec A ms ?h1 db1"
        by (rule apply_loop_step [OF Cons.prems(3) False]) (simp_all add: db1)
      moreover have "set h \<subseteq> set h'" using ih by simp
      ultimately show ?thesis using ih by (metis apply_loop.simps(2))
    qed
  qed
qed simp

lemma apply_loop_shape:
  assumes "apply_loop flt exec A ms h db = (e, h', db')" and "distinct (map mf_name ms)" and "agrees A ms h"
  shows "\<exists>ks. h' = h @ map new_history_row ks \<and> set ks \<subseteq> set ms \<and> exec_all exec ks db = Some db' \<and>
    prefix ks (pending ms h) \<and> (e = None \<longrightarrow> ks = pending ms h)"
  using assms
proof (induction ms arbitrary: h db)
  case (Cons m ms)
  have tl: "agrees A ms h" "distinct (map mf_name ms)" using Cons.prems by (simp_all add: agrees_def)
  show ?case
  proof (cases "A (mf_name m)")
    case True
    then have "apply_loop flt exec A ms h db = (e, h', db')" using Cons.prems(1) by simp
    note ih = Cons.IH [OF this tl(2,1)]
    have "pending (m # ms) h = pending ms h"
      using True Cons.prems(3) by (simp add: agrees_def pending_def)
    then show ?thesis using ih by (metis list.set_intros(2) subset_code(1))
  next
    case False
    then have p: "pending (m # ms) h = m # pending ms h"
      using Cons.prems(3) by (simp add: agrees_def pending_def)
    show ?thesis
    proof (cases "flt (''begin migration '' @ mf_name m) \<or> flt (''apply '' @ mf_name m) \<or>
        flt (''commit '' @ mf_name m) \<or> exec (mf_contents m) db = None")
      case True
      from apply_loop_stop [of A m ms h flt exec db, OF Cons.prems(3) False True] Cons.prems(1)
      have "h' = h" "db' = db" "e \<noteq> None" by auto
      then show ?thesis by (intro exI [of _ "[]"]) auto
    next
      case cont: False
      then obtain db1 where db1: "exec (mf_contents m) db = Some db1" by auto
      have "apply_loop flt exec A ms (h @ [new_history_row m]) db1 = (e, h', db')"
        using apply_loop_step [OF Cons.prems(3) False, of flt exec db db1] cont db1 Cons.prems(1) by simp
      from Cons.IH [OF this tl(2) agrees_Cons_append [OF Cons.prems(3,2)]]
      obtain ks where ks: "h' = (h @ [new_history_row m]) @ map new_history_row ks" "set ks \<subseteq> set ms"
        "exec_all exec ks db1 = Some db'" "prefix ks (pending ms (h @ [new_history_row m]))"
        "e = None \<longrightarrow> ks = pending ms (h @ [new_history_row m])" by blast
      have "pending ms (h @ [new_history_row m]) = pending ms h"
        using Cons.prems(2) unfolding pending_def
        by (intro filter_cong) (simp_all add: new_history_row_def, metis image_eqI)
      then show ?thesis using ks db1 p by (intro exI [of _ "m # ks"]) auto
    qed
  qed
qed (simp add: pending_def)

section \<open>A run without faults\<close>

lemma history_of_simps [simp]:
  "history_of (s\<lparr>sc_history := Some h\<rparr>) = h"
  "history_of \<lparr>sc_history = Some h, sc_not_null = b, sc_db = db\<rparr> = h"
  by (simp_all add: history_of_def)

lemma no_faults_seal_loop: "\<exists>h'. seal_loop no_faults A ms h = (None, h')"
  by (induction ms arbitrary: h) auto

text \<open>Once the history check has passed, sealing leaves no row without a checksum.\<close>

lemma seal_loop_all:
  assumes "distinct (map mf_name ms)" and "history_ok ms h"
    and "seal_loop flt (\<lambda>n. n \<in> hr_version ` set h) ms h = (None, h')"
  shows "h' = sealed ms h" "\<forall>r \<in> set h'. hr_checksum r \<noteq> None"
proof -
  note part = seal_loop_partial [OF assms(1) subset_refl assms(2,3)]
  have versions: "hr_version ` set h' = hr_version ` set h"
    using part by (metis list.set_map)
  show all: "\<forall>r \<in> set h'. hr_checksum r \<noteq> None"
  proof (intro ballI notI)
    fix r assume r: "r \<in> set h'" "hr_checksum r = None"
    then have "hr_version r \<in> hr_version ` set h" using versions by blast
    moreover have "hr_version r \<in> mf_name ` set ms" using part r(1) unfolding history_ok_def by (metis image_eqI)
    ultimately show False using seal_loop_total [OF assms(3) r] by simp
  qed
  then have "sealed ms h' = h'" by (auto simp: sealed_def intro!: map_idI split: option.splits)
  then show "h' = sealed ms h" using part by simp
qed

lemma Migrate_faultless:
  assumes "loadMigrations Sum256 dir = Inr ms"
  shows "Migrate no_faults Sum256 exec dir s =
    (case check_history ms (sort_key hr_version (history_of s)) of
       Some e \<Rightarrow> (Inl e, s\<lparr>sc_history := Some (history_of s)\<rparr>)
     | None \<Rightarrow>
        (case apply_loop no_faults exec (\<lambda>n. n \<in> hr_version ` set (history_of s)) ms (sealed ms (history_of s)) (sc_db s) of
           (e, h3, db3) \<Rightarrow> ((case e of None \<Rightarrow> Inr () | Some e \<Rightarrow> Inl e),
              \<lparr>sc_history = Some h3, sc_not_null = True, sc_db = db3\<rparr>)))"
proof (cases "check_history ms (sort_key hr_version (history_of s))")
  case None
  note d = loadMigrations_ok(3) [OF assms]
  have ok: "history_ok ms (history_of s)" using None check_history_None_iff [OF d] history_ok_sort by blast
  obtain h' where seal: "seal_loop no_faults (\<lambda>n. n \<in> hr_version ` set (history_of s)) ms (history_of s) = (None, h')"
    using no_faults_seal_loop by blast
  note h' = seal_loop_all [OF d ok seal]
  have full: "(\<exists>r \<in> set (sealed ms (history_of s)). hr_checksum r = None) = False" using h' by auto
  show ?thesis
    using None h'(1) seal assms full by (simp del: bex_simps add: Migrate_def Let_def)
next
  case (Some e)
  then show ?thesis using assms by (simp add: Migrate_def Let_def)
qed

lemma history_ok_new_rows:
  "history_ok ms h \<Longrightarrow> set ks \<subseteq> set ms \<Longrightarrow> history_ok ms (h @ map new_history_row ks)"
  by (auto simp: history_ok_def new_history_row_def)

text \<open>Sealing and applying afterwards: the state a stopped run leaves gives the faultless run again.\<close>

lemma resume_after_seal:
  assumes load: "loadMigrations Sum256 dir = Inr ms" and ok: "history_ok ms (history_of s)"
    and "history_ok ms h" and "sealed ms h = sealed ms (history_of s)"
    and "map hr_version h = map hr_version (history_of s)"
  shows "Migrate no_faults Sum256 exec dir (s\<lparr>sc_history := Some h\<rparr>) = Migrate no_faults Sum256 exec dir s"
proof -
  note check = check_history_None_iff [OF loadMigrations_ok(3) [OF load]]
  have "hr_version ` set h = hr_version ` set (history_of s)" using assms(5) by (metis list.set_map)
  moreover have "check_history ms (sort_key hr_version h) = None"
    "check_history ms (sort_key hr_version (history_of s)) = None"
    using check ok assms(3) by simp_all
  ultimately show ?thesis
    unfolding Migrate_faultless [OF load] using assms(4) by simp
qed

lemma resume_after_apply:
  assumes load: "loadMigrations Sum256 dir = Inr ms" and ok: "history_ok ms (history_of s)"
    and "apply_loop flt exec (\<lambda>n. n \<in> hr_version ` set (history_of s)) ms (sealed ms (history_of s)) (sc_db s) = (e, h3, db3)"
    and full: "\<forall>r \<in> set (sealed ms (history_of s)). hr_checksum r \<noteq> None" and okh: "history_ok ms (sealed ms (history_of s))"
  shows "Migrate no_faults Sum256 exec dir \<lparr>sc_history = Some h3, sc_not_null = True, sc_db = db3\<rparr> =
    Migrate no_faults Sum256 exec dir s"
proof -
  note d = loadMigrations_ok(3) [OF load]
  let ?h = "sealed ms (history_of s)" and ?A = "\<lambda>n. n \<in> hr_version ` set (history_of s)"
  have A: "agrees ?A ms ?h" by (simp add: agrees_def)
  obtain ks where h3: "h3 = ?h @ map new_history_row ks" "set ks \<subseteq> set ms"
    using apply_loop_shape [OF assms(3) d A] by blast
  have ok3: "history_ok ms h3" unfolding h3(1) by (rule history_ok_new_rows [OF okh h3(2)])
  have "\<forall>r \<in> set h3. hr_checksum r \<noteq> None" using full by (auto simp: h3(1) new_history_row_def)
  then have s3: "sealed ms h3 = h3" by (auto simp: sealed_def intro!: map_idI split: option.splits)
  have "apply_loop no_faults exec (\<lambda>n. n \<in> hr_version ` set h3) ms h3 db3 =
      apply_loop no_faults exec ?A ms ?h (sc_db s)"
    using apply_loop_resume [OF assms(3) d A, of "\<lambda>n. n \<in> hr_version ` set h3"] by simp
  moreover have "check_history ms (sort_key hr_version h3) = None"
    "check_history ms (sort_key hr_version (history_of s)) = None"
    using check_history_None_iff [OF d] ok ok3 by simp_all
  ultimately show ?thesis
    unfolding Migrate_faultless [OF load] by (simp add: s3)
qed

section \<open>Properties\<close>

text \<open>What a run leaves behind, by the place where it stops.\<close>

lemma Migrate_cases:
  assumes "loadMigrations Sum256 dir = Inr ms" and "Migrate flt Sum256 exec dir s = (r, s')"
  shows "(\<exists>e. r = Inl e \<and> (s' = s \<or> s' = s\<lparr>sc_history := Some (history_of s)\<rparr>)) \<or>
    history_ok ms (history_of s) \<and>
     ((\<exists>e eo h. r = Inl e \<and> s' = s\<lparr>sc_history := Some h\<rparr> \<and>
        seal_loop flt (\<lambda>n. n \<in> hr_version ` set (history_of s)) ms (history_of s) = (eo, h)) \<or>
      (\<exists>eo h db. seal_loop flt (\<lambda>n. n \<in> hr_version ` set (history_of s)) ms (history_of s) =
          (None, sealed ms (history_of s)) \<and> (\<forall>r \<in> set (sealed ms (history_of s)). hr_checksum r \<noteq> None) \<and>
        apply_loop flt exec (\<lambda>n. n \<in> hr_version ` set (history_of s)) ms (sealed ms (history_of s)) (sc_db s) = (eo, h, db) \<and>
        r = (case eo of None \<Rightarrow> Inr () | Some e \<Rightarrow> Inl e) \<and>
        s' = \<lparr>sc_history = Some h, sc_not_null = True, sc_db = db\<rparr>))"
proof -
  note d = loadMigrations_ok(3) [OF assms(1)]
  let ?h = "history_of s" and ?A = "\<lambda>n. n \<in> hr_version ` set (history_of s)"
  have M: "Migrate flt Sum256 exec dir s =
     (if flt ''acquire migration connection'' then (Inl (MigrationFailed ''acquire migration connection''), s)
      else if flt ''acquire migration lock'' then (Inl (MigrationFailed ''acquire migration lock''), s)
      else if flt ''initialize migration history''
      then (Inl (MigrationFailed ''initialize migration history''), s)
      else if flt ''read migration history''
      then (Inl (MigrationFailed ''read migration history''), s\<lparr>sc_history := Some ?h\<rparr>)
      else (case check_history ms (sort_key hr_version ?h) of
        Some e \<Rightarrow> (Inl e, s\<lparr>sc_history := Some ?h\<rparr>)
      | None \<Rightarrow>
         (case seal_loop flt ?A ms ?h of
            (Some e, h2) \<Rightarrow> (Inl e, s\<lparr>sc_history := Some h2\<rparr>)
          | (None, h2) \<Rightarrow>
              if flt ''require migration checksums'' \<or> (\<exists>r \<in> set h2. hr_checksum r = None)
              then (Inl (MigrationFailed ''require migration checksums''), s\<lparr>sc_history := Some h2\<rparr>)
              else (case apply_loop flt exec ?A ms h2 (sc_db s) of
                      (e, h3, db3) \<Rightarrow> ((case e of None \<Rightarrow> Inr () | Some e \<Rightarrow> Inl e),
                         \<lparr>sc_history = Some h3, sc_not_null = True, sc_db = db3\<rparr>)))))"
    by (simp only: Migrate_def assms(1) sum.case Let_def)
  show ?thesis
  proof (cases "flt ''acquire migration connection'' \<or> flt ''acquire migration lock'' \<or>
      flt ''initialize migration history'' \<or> flt ''read migration history''")
    case True
    then show ?thesis using assms(2) unfolding M by (auto split: if_splits)
  next
    case False
    show ?thesis
    proof (cases "check_history ms (sort_key hr_version ?h)")
      case (Some e)
      then have "r = Inl e \<and> s' = s\<lparr>sc_history := Some ?h\<rparr>" using assms(2) False unfolding M by simp
      then show ?thesis by blast
    next
      case None
      then have ok: "history_ok ms ?h" using check_history_None_iff [OF d] by simp
      obtain eo h2 where seal: "seal_loop flt ?A ms ?h = (eo, h2)" by fastforce
      show ?thesis
      proof (cases "eo = None \<and> \<not> flt ''require migration checksums''")
        case True
        then have "seal_loop flt ?A ms ?h = (None, h2)" using seal by simp
        note full = seal_loop_all [OF d ok this]
        obtain eo3 h3 db3 where ap: "apply_loop flt exec ?A ms h2 (sc_db s) = (eo3, h3, db3)"
          by (metis prod_cases3)
        have full': "(\<exists>r \<in> set h2. hr_checksum r = None) = False" using full(2) by auto
        have "r = (case eo3 of None \<Rightarrow> Inr () | Some e \<Rightarrow> Inl e)"
          "s' = \<lparr>sc_history = Some h3, sc_not_null = True, sc_db = db3\<rparr>"
          using assms(2) False None seal True ap full' unfolding M by (simp_all del: bex_simps)
        then show ?thesis using ok seal True full ap by blast
      next
        case stop: False
        then have "\<exists>e. r = Inl e \<and> s' = s\<lparr>sc_history := Some h2\<rparr>"
          using assms(2) False None seal unfolding M by (cases eo) auto
        then show ?thesis using ok seal by blast
      qed
    qed
  qed
qed

text \<open>C38 (migration_resumes): whatever step of a run fails -- the connection, a sealing statement, a
  migration's own transaction -- and however often, running \<open>Migrate\<close> again from the state left behind has
  the same result and ends in the same database as one run that was never interrupted.\<close>

theorem migration_resumes:
  "Migrate no_faults Sum256 exec dir (snd (Migrate flt Sum256 exec dir s)) = Migrate no_faults Sum256 exec dir s"
proof (cases "loadMigrations Sum256 dir")
  case (Inl e)
  then show ?thesis by (simp add: Migrate_def)
next
  case (Inr ms)
  note d = loadMigrations_ok(3) [OF Inr]
  obtain r s' where run: "Migrate flt Sum256 exec dir s = (r, s')" by fastforce
  have init: "Migrate no_faults Sum256 exec dir (s\<lparr>sc_history := Some (history_of s)\<rparr>) = Migrate no_faults Sum256 exec dir s"
    unfolding Migrate_faultless [OF Inr] history_of_simps
    by (cases "check_history ms (sort_key hr_version (history_of s))") simp_all
  have "Migrate no_faults Sum256 exec dir s' = Migrate no_faults Sum256 exec dir s"
    using Migrate_cases [OF Inr run]
  proof (elim disjE exE conjE, goal_cases)
    case (3 e eo h)
    from seal_loop_partial [OF d subset_refl 3(1) 3(4)] show ?case
      unfolding 3(3) using resume_after_seal [OF Inr 3(1)] by blast
  next
    case (4 eo h db)
    note part = seal_loop_partial [OF d subset_refl 4(1) 4(2)]
    show ?case unfolding 4(6) by (rule resume_after_apply [OF Inr 4(1) 4(4) 4(3)]) (use part in blast)
  qed (simp_all add: init)
  then show ?thesis by (simp add: run)
qed

text \<open>Lemma (migration_success): when \<open>Migrate\<close> returns without error the history holds exactly the release's
  files, each with the checksum of its bytes; the loaded files are in ascending order with pairwise
  different version numbers, and the database is the result of executing exactly the files that were not
  yet recorded, each once, in that order.\<close>

theorem migration_success:
  assumes "loadMigrations Sum256 dir = Inr ms" and "Migrate flt Sum256 exec dir s = (Inr (), s')"
  shows "sorted (map mf_name ms) \<and> distinct (map version_prefix ms) \<and>
    hr_version ` set (history_of s') = mf_name ` set ms \<and>
    (\<forall>r \<in> set (history_of s'). \<exists>m \<in> set ms. hr_version r = mf_name m \<and> hr_checksum r = Some (mf_checksum m)) \<and>
    exec_all exec (pending ms (history_of s)) (sc_db s) = Some (sc_db s')"
proof -
  note d = loadMigrations_ok [OF assms(1)]
  let ?A = "\<lambda>n. n \<in> hr_version ` set (history_of s)" and ?h = "sealed ms (history_of s)"
  obtain h db where ok: "history_ok ms (history_of s)"
    and seal: "seal_loop flt ?A ms (history_of s) = (None, ?h)" and full: "\<forall>r \<in> set ?h. hr_checksum r \<noteq> None"
    and ap: "apply_loop flt exec ?A ms ?h (sc_db s) = (None, h, db)"
    and s': "s' = \<lparr>sc_history = Some h, sc_not_null = True, sc_db = db\<rparr>"
    using Migrate_cases [OF assms] by (auto split: option.splits)
  have ok': "history_ok ms ?h" using seal_loop_partial [OF d(3) subset_refl ok seal] by blast
  have "agrees ?A ms ?h" by (simp add: agrees_def)
  from apply_loop_shape [OF ap d(3) this] have h: "h = ?h @ map new_history_row (pending ms ?h)"
    and db: "exec_all exec (pending ms ?h) (sc_db s) = Some db" by auto
  have p: "pending ms ?h = pending ms (history_of s)" by (simp add: pending_def)
  have rows: "\<exists>m \<in> set ms. hr_version r = mf_name m \<and> hr_checksum r = Some (mf_checksum m)" if "r \<in> set h" for r
    using that unfolding h set_append set_map Un_iff
  proof
    assume "r \<in> set ?h"
    then show ?thesis using ok' full unfolding history_ok_def by metis
  next
    assume "r \<in> new_history_row ` set (pending ms ?h)"
    then show ?thesis by (auto simp: pending_def new_history_row_def)
  qed
  moreover have "hr_version ` set h = mf_name ` set ms"
  proof
    show "hr_version ` set h \<subseteq> mf_name ` set ms" using rows by force
    show "mf_name ` set ms \<subseteq> hr_version ` set h"
      unfolding h by (auto simp: pending_def new_history_row_def image_image image_Un)
  qed
  ultimately show ?thesis using d db p by (simp add: s')
qed

text \<open>Lemma (migration_drift_refused): if a recorded migration is no longer in the release, or its bytes have
  another checksum, \<open>Migrate\<close> fails whatever else happens, executes no migration file and leaves the
  recorded history as it was.\<close>

theorem migration_drift_refused:
  assumes "loadMigrations Sum256 dir = Inr ms" and "r \<in> set (history_of s)"
    and "\<forall>m \<in> set ms. mf_name m = hr_version r \<longrightarrow>
      (\<exists>c. hr_checksum r = Some c \<and> c \<noteq> mf_checksum m)"
  shows "\<exists>e s'. Migrate flt Sum256 exec dir s = (Inl e, s') \<and> sc_db s' = sc_db s \<and> history_of s' = history_of s"
proof -
  obtain q s' where run: "Migrate flt Sum256 exec dir s = (q, s')" by fastforce
  have "\<not> history_ok ms (history_of s)" using assms(2,3) unfolding history_ok_def by (metis option.distinct(1) option.inject)
  then obtain e where "q = Inl e" "s' = s \<or> s' = s\<lparr>sc_history := Some (history_of s)\<rparr>"
    using Migrate_cases [OF assms(1) run] by blast
  then show ?thesis using run by auto
qed

definition demo_dir :: "dir_entry list" where
  "demo_dir = [\<lparr>de_name = ''000002_b.up.sql'', de_is_dir = False, de_contents = Some [2]\<rparr>,
               \<lparr>de_name = ''000001_a.up.sql'', de_is_dir = False, de_contents = Some [1]\<rparr>,
               \<lparr>de_name = ''000001_a.down.sql'', de_is_dir = False, de_contents = None\<rparr>]"

definition demo_files :: "migrationFile list" where
  "demo_files = [\<lparr>mf_name = ''000001_a.up.sql'', mf_contents = [1], mf_checksum = ''01''\<rparr>,
                 \<lparr>mf_name = ''000002_b.up.sql'', mf_contents = [2], mf_checksum = ''02''\<rparr>]"

lemma demo_load: "loadMigrations id (Some demo_dir) = Inr demo_files"
  by code_simp

definition demo_exec :: "byte list \<Rightarrow> byte list \<Rightarrow> byte list option" where
  "demo_exec c db = Some (db @ c)"

definition demo_schema :: "byte list schema" where
  "demo_schema = \<lparr>sc_history = Some [\<lparr>hr_version = ''000001_a.up.sql'', hr_checksum = None\<rparr>],
                  sc_not_null = False, sc_db = [1]\<rparr>"

lemma demo_migrate:
  "Migrate no_faults id demo_exec (Some demo_dir) demo_schema =
     (Inr (), \<lparr>sc_history = Some (map new_history_row demo_files), sc_not_null = True, sc_db = [1, 2]\<rparr>)"
  by code_simp

theorem migration_success_witness:
  "loadMigrations id (Some demo_dir) = Inr demo_files \<and>
   hr_version ` set (map new_history_row demo_files) = mf_name ` set demo_files \<and>
   exec_all demo_exec (pending demo_files (history_of demo_schema)) (sc_db demo_schema) = Some [1, 2]"
  using migration_success [OF demo_load demo_migrate] demo_load by simp

theorem migration_drift_refused_witness:
  "\<exists>e s'. Migrate no_faults id demo_exec (Some demo_dir)
      (demo_schema\<lparr>sc_history := Some [\<lparr>hr_version = ''000001_a.up.sql'', hr_checksum = Some ''ff''\<rparr>]\<rparr>) = (Inl e, s') \<and>
    sc_db s' = sc_db demo_schema \<and>
    history_of s' = [\<lparr>hr_version = ''000001_a.up.sql'', hr_checksum = Some ''ff''\<rparr>]"
  using migration_drift_refused [OF demo_load, of "\<lparr>hr_version = ''000001_a.up.sql'', hr_checksum = Some ''ff''\<rparr>"
    "demo_schema\<lparr>sc_history := Some [\<lparr>hr_version = ''000001_a.up.sql'', hr_checksum = Some ''ff''\<rparr>]\<rparr>" no_faults demo_exec]
  by (simp add: demo_files_def)

end
