(* ===== verification/Store_Common.thy ===== *)
theory Store_Common
  imports Go_Strings
begin

text \<open>
  What the three stores of \<^verbatim>\<open>internal/store\<close> share: the rounding of durations to whole seconds
  (\<^verbatim>\<open>idempotency.go\<close>), the comparison of digests (\<^verbatim>\<open>idempotency.go\<close>), the anchored name patterns,
  and the contract of a leased record as a locale, which the background-job store and the
  idempotency store interpret.
\<close>

unbundle bit_operations_syntax

section \<open>\<open>durationSeconds\<close>\<close>

definition durationSeconds :: "duration \<Rightarrow> int" where
  "durationSeconds d =
     (let seconds = d sdiv Second;
          seconds = (if d smod Second \<noteq> 0 then seconds + 1 else seconds)
      in if seconds < 1 then 1 else seconds)"

lemma sdiv_smod_nonneg:
  assumes "0 \<le> (d::int)"
  shows "d sdiv Second = d div Second" and "d smod Second = d mod Second"
  using assms by (cases "d = 0"; simp add: signed_divide_int_def signed_modulo_int_def Second_def)+

text \<open>For a positive duration the result is the least number of whole seconds covering it.\<close>

lemma durationSeconds_pos_eq:
  assumes "0 < d"
  shows "durationSeconds d = (if d mod Second = 0 then d div Second else d div Second + 1)"
proof -
  have "0 \<le> d div Second" using assms by (simp add: Second_def pos_imp_zdiv_nonneg_iff)
  moreover have "1 \<le> d div Second" if "d mod Second = 0"
  proof (rule ccontr)
    assume "\<not> 1 \<le> d div Second"
    with \<open>0 \<le> d div Second\<close> have "d div Second = 0" by simp
    with that have "d = 0" using div_mult_mod_eq [of d Second] by simp
    with assms show False by simp
  qed
  ultimately show ?thesis
    using assms by (auto simp: durationSeconds_def sdiv_smod_nonneg Let_def)
qed

lemma durationSeconds_ceiling:
  assumes "0 < d"
  shows "d \<le> durationSeconds d * Second" and "(durationSeconds d - 1) * Second < d"
proof -
  let ?q = "d div Second" and ?m = "d mod Second"
  have d: "?q * Second + ?m = d" and m: "0 \<le> ?m" "?m < Second" by simp_all
  have D: "durationSeconds d = (if ?m = 0 then ?q else ?q + 1)"
    by (rule durationSeconds_pos_eq [OF assms])
  show "d \<le> durationSeconds d * Second"
  proof (cases "?m = 0")
    case True
    then have "durationSeconds d * Second = ?q * Second" using D by simp
    then show ?thesis using d True by linarith
  next
    case False
    then have "durationSeconds d * Second = ?q * Second + Second" using D by (simp add: distrib_right)
    then show ?thesis using d m by linarith
  qed
  show "(durationSeconds d - 1) * Second < d"
  proof (cases "?m = 0")
    case True
    then have "(durationSeconds d - 1) * Second = ?q * Second - Second"
      using D by (simp add: left_diff_distrib)
    then show ?thesis using d m by linarith
  next
    case False
    then have "(durationSeconds d - 1) * Second = ?q * Second" using D by simp
    then show ?thesis using d m False by linarith
  qed
qed

lemma durationSeconds_pos [simp]: "1 \<le> durationSeconds d" "0 < durationSeconds d"
  by (simp_all add: durationSeconds_def Let_def)

lemma durationSeconds_expiry [simp]: "now < now + durationSeconds d * Second"
  by simp

section \<open>\<open>equalDigest\<close>\<close>

definition digest_size :: nat where "digest_size = 32"

text \<open>The loop accumulates the XOR of every byte pair; no early exit.\<close>

fun digest_difference :: "byte \<Rightarrow> byte list \<Rightarrow> byte list \<Rightarrow> byte" where
  "digest_difference d (x # xs) (y # ys) = digest_difference (d OR (x XOR y)) xs ys"
| "digest_difference d _ _ = d"

definition equalDigest :: "byte list \<Rightarrow> byte list \<Rightarrow> bool" where
  "equalDigest stored expected =
     (if length stored \<noteq> digest_size then False
      else digest_difference 0 stored expected = 0)"

lemma word_or_eq_0: "a OR b = 0 \<longleftrightarrow> a = 0 \<and> b = 0" for a b :: byte
  by (auto simp: bit_eq_iff bit_or_iff)

lemma word_xor_eq_0: "a XOR b = 0 \<longleftrightarrow> a = b" for a b :: byte
  by (auto simp: bit_eq_iff bit_xor_iff)

lemma digest_difference_0_iff:
  "length xs = length ys \<Longrightarrow> digest_difference d xs ys = 0 \<longleftrightarrow> d = 0 \<and> xs = ys"
  by (induction d xs ys rule: digest_difference.induct)
    (auto simp: word_or_eq_0 word_xor_eq_0)

section \<open>The contract of a leased record\<close>

text \<open>
  A store hands out leases on records. \<open>holder s k\<close> is the lease under which record \<open>k\<close> is being
  processed; \<open>finish k l\<close> ends the processing of \<open>k\<close> on behalf of lease \<open>l\<close> and says whether it was
  accepted. The provider promises that only the current holder is accepted, that a refused caller
  changes nothing, and that an accepted one releases the record.
\<close>

text \<open>A sequence of finishing attempts, with the answer each got.\<close>

fun run_finishes :: "('k \<Rightarrow> 'l \<Rightarrow> 's \<Rightarrow> bool \<times> 's) \<Rightarrow> ('k \<times> 'l) list \<Rightarrow> 's \<Rightarrow> bool list \<times> 's" where
  "run_finishes fin [] s = ([], s)"
| "run_finishes fin ((k, l) # rs) s =
     (let (ok, s1) = fin k l s; (oks, s2) = run_finishes fin rs s1 in (ok # oks, s2))"

definition accepted_for :: "'k \<Rightarrow> ('k \<times> 'l) list \<Rightarrow> bool list \<Rightarrow> nat" where
  "accepted_for k reqs oks = length (filter (\<lambda>((k', l), ok). k' = k \<and> ok) (zip reqs oks))"

locale lease_contract =
  fixes invar :: "'s \<Rightarrow> bool"
    and holder :: "'s \<Rightarrow> 'k \<Rightarrow> 'l option"
    and finish :: "'k \<Rightarrow> 'l \<Rightarrow> 's \<Rightarrow> bool \<times> 's"
  assumes finish_iff: "invar s \<Longrightarrow> fst (finish k l s) \<longleftrightarrow> holder s k = Some l"
    and finish_lost: "invar s \<Longrightarrow> holder s k \<noteq> Some l \<Longrightarrow> snd (finish k l s) = s"
    and finish_release: "invar s \<Longrightarrow> holder s k = Some l \<Longrightarrow> holder (snd (finish k l s)) k = None"
    and finish_frame: "invar s \<Longrightarrow> k' \<noteq> k \<Longrightarrow> holder (snd (finish k l s)) k' = holder s k'"
    and finish_invar: "invar s \<Longrightarrow> invar (snd (finish k l s))"
begin

lemma superseded:
  assumes "invar s" and "holder s k = Some l" and "l' \<noteq> l"
  shows "finish k l' s = (False, s)"
proof -
  from assms have "\<not> fst (finish k l' s)" and "snd (finish k l' s) = s"
    by (auto simp: finish_iff finish_lost)
  then show ?thesis by (simp add: prod_eq_iff)
qed

lemma finish_None_stays:
  assumes "invar s" and "holder s k = None"
  shows "holder (snd (finish k' l s)) k = None"
proof (cases "k' = k")
  case True
  with assms have "snd (finish k' l s) = s" by (simp add: finish_lost)
  with assms show ?thesis by simp
next
  case False
  with assms show ?thesis by (simp add: finish_frame)
qed

lemma run_finishes_none:
  "invar s \<Longrightarrow> holder s k = None \<Longrightarrow> accepted_for k reqs (fst (run_finishes finish reqs s)) = 0"
proof (induction reqs arbitrary: s)
  case Nil
  then show ?case by (simp add: accepted_for_def)
next
  case (Cons kl reqs)
  obtain k' l where kl: "kl = (k', l)" by (cases kl)
  from Cons.prems have ok: "k' = k \<Longrightarrow> \<not> fst (finish k' l s)" by (auto simp: finish_iff)
  have "invar (snd (finish k' l s))" and "holder (snd (finish k' l s)) k = None"
    using Cons.prems by (simp_all add: finish_invar finish_None_stays)
  then have IH: "accepted_for k reqs (fst (run_finishes finish reqs (snd (finish k' l s)))) = 0"
    by (rule Cons.IH)
  from ok IH show ?case
    by (auto simp: kl accepted_for_def Let_def split: prod.splits)
qed

text \<open>Whatever callers try, in whatever order, a lease is finished at most once.\<close>

lemma finished_once:
  "invar s \<Longrightarrow> accepted_for k reqs (fst (run_finishes finish reqs s)) \<le> 1"
proof (induction reqs arbitrary: s)
  case Nil
  then show ?case by (simp add: accepted_for_def)
next
  case (Cons kl reqs)
  obtain k' l where kl: "kl = (k', l)" by (cases kl)
  let ?s' = "snd (finish k' l s)"
  have inv: "invar ?s'" using Cons.prems by (rule finish_invar)
  have split: "accepted_for k (kl # reqs) (fst (run_finishes finish (kl # reqs) s)) =
      (if k' = k \<and> fst (finish k' l s) then 1 else 0) +
      accepted_for k reqs (fst (run_finishes finish reqs ?s'))"
    by (auto simp: kl accepted_for_def Let_def split: prod.splits)
  show ?case
  proof (cases "k' = k \<and> fst (finish k' l s)")
    case True
    with Cons.prems have "holder ?s' k = None" by (auto simp: finish_iff intro: finish_release)
    with inv have "accepted_for k reqs (fst (run_finishes finish reqs ?s')) = 0"
      by (rule run_finishes_none)
    with True split show ?thesis by simp
  next
    case False
    with split Cons.IH [OF inv] show ?thesis by auto
  qed
qed

end

end
