(* ===== verification/Background_Jobs.thy ===== *)
theory Background_Jobs
  imports Store_Common
begin

text \<open>
  The background-job store, \<^verbatim>\<open>internal/store/background_jobs.go\<close>: the rows of
  \<^verbatim>\<open>background_jobs\<close> and \<^verbatim>\<open>platform_operator_actions\<close>, the operations \<open>List\<close>, \<open>Replay\<close>, \<open>Claim\<close>,
  \<open>Complete\<close>, \<open>Retry\<close> and \<open>Reschedule\<close>, the table's check constraint as an invariant, the
  lease contract and the step relation of workers and operators over the table.
\<close>

section \<open>Data\<close>

datatype job_status = Pending | Running | Completed | DeadLettered

fun status_text :: "job_status \<Rightarrow> string" where
  "status_text Pending = ''pending''"
| "status_text Running = ''running''"
| "status_text Completed = ''completed''"
| "status_text DeadLettered = ''dead_lettered''"

record job_row =
  jr_uid :: uid
  jr_queue :: string
  jr_type :: string
  jr_dedup :: "string option"
  jr_payload :: json
  jr_status :: job_status
  jr_attempts :: int
  jr_max_attempts :: int
  jr_available_at :: time
  jr_lease_uid :: "uid option"
  jr_lease_expires_at :: "time option"
  jr_last_error :: "string option"
  jr_created_at :: time
  jr_updated_at :: time
  jr_completed_at :: "time option"
  jr_dead_lettered_at :: "time option"

record operator_action =
  oa_uid :: uid
  oa_actor :: string
  oa_action :: string
  oa_target_type :: string
  oa_target_uid :: uid
  oa_reason :: string
  oa_metadata :: json
  oa_created_at :: time

record job_db =
  background_jobs :: "job_row list"
  platform_operator_actions :: "operator_action list"

text \<open>\<open>BackgroundJob\<close>: the handle a worker gets from \<open>Claim\<close>.\<close>

record BackgroundJob =
  bj_uid :: uid
  bj_queue :: string
  bj_type :: string
  bj_dedup :: "string option"
  bj_payload :: json
  bj_attempt :: int
  bj_max_attempts :: int
  bj_lease_uid :: uid
  bj_lease_expires_at :: time
  bj_created_at :: time

text \<open>\<open>BackgroundJobSummary\<close>: every column but the payload and the deduplication key.\<close>

record BackgroundJobSummary =
  sm_uid :: uid
  sm_queue :: string
  sm_type :: string
  sm_status :: string
  sm_attempts :: int
  sm_max_attempts :: int
  sm_available_at :: time
  sm_lease_expires_at :: "time option"
  sm_last_error :: "string option"
  sm_created_at :: time
  sm_updated_at :: time
  sm_completed_at :: "time option"
  sm_dead_lettered_at :: "time option"

record BackgroundJobReplay =
  rp_job_uid :: uid
  rp_actor :: string
  rp_reason :: string

section \<open>Operations\<close>

definition backgroundJobQueue :: "string \<Rightarrow> bool" where
  "backgroundJobQueue =
     head_tail_match is_lower_c (\<lambda>c. is_lower_c c \<or> is_digit_c c \<or> c = CHR ''_'') 62"

definition job_summary :: "job_row \<Rightarrow> BackgroundJobSummary" where
  "job_summary j =
     \<lparr>sm_uid = jr_uid j, sm_queue = jr_queue j, sm_type = jr_type j,
      sm_status = status_text (jr_status j), sm_attempts = jr_attempts j,
      sm_max_attempts = jr_max_attempts j, sm_available_at = jr_available_at j,
      sm_lease_expires_at = jr_lease_expires_at j, sm_last_error = jr_last_error j,
      sm_created_at = jr_created_at j, sm_updated_at = jr_updated_at j,
      sm_completed_at = jr_completed_at j, sm_dead_lettered_at = jr_dead_lettered_at j\<rparr>"

definition List_jobs ::
  "bool \<Rightarrow> faults \<Rightarrow> string \<Rightarrow> int \<Rightarrow> job_db \<Rightarrow> store_error + BackgroundJobSummary list" where
  "List_jobs has_db flt status limit d =
     (if \<not> has_db then Inl (StoreInvalid ''background job store database is required'')
      else let limit = (if limit = 0 then 100 else limit) in
      if limit < 1 \<or> limit > 500
      then Inl (StoreInvalid ''background job list limit must be between 1 and 500'')
      else if status \<noteq> '''' \<and> status \<noteq> ''pending'' \<and> status \<noteq> ''running'' \<and>
              status \<noteq> ''completed'' \<and> status \<noteq> ''dead_lettered''
      then Inl (StoreInvalid ''background job status is invalid'')
      else if flt ''list background jobs'' then Inl (StoreDb ''list background jobs'')
      else if flt ''scan background job'' then Inl (StoreDb ''scan background job'')
      else Inr (map job_summary
             (take (nat limit)
               (rev (sort_key (\<lambda>j. (jr_updated_at j, jr_uid j))
                 (filter (\<lambda>j. status = '''' \<or> status_text (jr_status j) = status)
                   (background_jobs d)))))))"

definition replay_row :: "time \<Rightarrow> job_row \<Rightarrow> job_row" where
  "replay_row now j = j\<lparr>jr_status := Pending, jr_attempts := 0, jr_available_at := now,
     jr_lease_uid := None, jr_lease_expires_at := None, jr_last_error := None,
     jr_completed_at := None, jr_dead_lettered_at := None, jr_updated_at := now\<rparr>"

definition replay_metadata :: "job_row \<Rightarrow> json" where
  "replay_metadata j =
     JObj [(''queue'', JStr (jr_queue j)), (''job_type'', JStr (jr_type j)),
           (''attempts'', JNum (jr_attempts j)), (''max_attempts'', JNum (jr_max_attempts j)),
           (''had_last_error'', JBool (jr_last_error j \<noteq> None))]"

definition Replay ::
  "bool \<Rightarrow> faults \<Rightarrow> time \<Rightarrow> uid \<Rightarrow> BackgroundJobReplay \<Rightarrow> job_db \<Rightarrow> (store_error + unit) \<times> job_db" where
  "Replay has_db flt now action_uid replay d =
     (if \<not> has_db then (Inl (StoreInvalid ''background job store database is required''), d)
      else let actor = TrimSpace (rp_actor replay); reason = TrimSpace (rp_reason replay) in
      if rp_job_uid replay = uuid_Nil
      then (Inl (StoreInvalid ''background job UID is required''), d)
      else if actor = '''' \<or> length actor > 200 \<or> actor \<noteq> rp_actor replay
      then (Inl (StoreInvalid ''operator actor must be between 1 and 200 trimmed characters''), d)
      else if length reason < 10 \<or> length reason > 1000 \<or> reason \<noteq> rp_reason replay
      then (Inl (StoreInvalid ''operator reason must be between 10 and 1000 trimmed characters''), d)
      else if flt ''begin background job replay''
      then (Inl (StoreDb ''begin background job replay''), d)
      else if flt ''lock background job for replay''
      then (Inl (StoreDb ''lock background job for replay''), d)
      else (case sql_row (\<lambda>j. jr_uid j = rp_job_uid replay) (background_jobs d) of
        None \<Rightarrow> (Inl ErrBackgroundJobNotFound, d)
      | Some j \<Rightarrow>
          if jr_status j \<noteq> DeadLettered then (Inl ErrBackgroundJobNotDeadLettered, d)
          else if flt ''record background job replay'' \<or>
                  action_uid \<in> set (map oa_uid (platform_operator_actions d))
          then (Inl (StoreDb ''record background job replay''), d)
          else let action = \<lparr>oa_uid = action_uid, oa_actor = actor,
                     oa_action = ''background_job.replayed'', oa_target_type = ''background_job'',
                     oa_target_uid = rp_job_uid replay, oa_reason = reason,
                     oa_metadata = replay_metadata j, oa_created_at = now\<rparr> in
          if flt ''replay background job'' then (Inl (StoreDb ''replay background job''), d)
          else if flt ''commit background job replay''
          then (Inl (StoreDb ''commit background job replay''), d)
          else (Inr (), d\<lparr>background_jobs := sql_update (\<lambda>j. jr_uid j = rp_job_uid replay)
                              (replay_row now) (background_jobs d),
                          platform_operator_actions := platform_operator_actions d @ [action]\<rparr>)))"

text \<open>\<open>Claim\<close>: the two statements of its transaction, then the transaction.\<close>

definition lease_exhausted :: "time \<Rightarrow> string \<Rightarrow> job_row \<Rightarrow> bool" where
  "lease_exhausted now queue j \<longleftrightarrow>
     jr_queue j = queue \<and> jr_status j = Running \<and> sql_le (jr_lease_expires_at j) now \<and>
     jr_max_attempts j \<le> jr_attempts j"

definition abandon_row :: "time \<Rightarrow> job_row \<Rightarrow> job_row" where
  "abandon_row now j = j\<lparr>jr_status := DeadLettered, jr_lease_uid := None,
     jr_lease_expires_at := None, jr_dead_lettered_at := Some now, jr_updated_at := now,
     jr_last_error := (case jr_last_error j of
         None \<Rightarrow> Some ''worker lease expired after the maximum number of attempts''
       | Some e \<Rightarrow> Some e)\<rparr>"

definition claimable :: "time \<Rightarrow> string \<Rightarrow> job_row \<Rightarrow> bool" where
  "claimable now queue j \<longleftrightarrow>
     jr_queue j = queue \<and> jr_available_at j \<le> now \<and> jr_attempts j < jr_max_attempts j \<and>
     (jr_status j = Pending \<or> (jr_status j = Running \<and> sql_le (jr_lease_expires_at j) now))"

definition claim_order :: "job_row \<Rightarrow> time \<times> time \<times> uid" where
  "claim_order j = (jr_available_at j, jr_created_at j, jr_uid j)"

definition lease_row :: "time \<Rightarrow> uid \<Rightarrow> int \<Rightarrow> job_row \<Rightarrow> job_row" where
  "lease_row now lease seconds j = j\<lparr>jr_status := Running, jr_attempts := jr_attempts j + 1,
     jr_lease_uid := Some lease, jr_lease_expires_at := Some (now + seconds * Second),
     jr_updated_at := now\<rparr>"

text \<open>The \<open>RETURNING\<close> clause of the claiming statement.\<close>

definition job_handle :: "uid \<Rightarrow> time \<Rightarrow> job_row \<Rightarrow> BackgroundJob" where
  "job_handle lease expires j =
     \<lparr>bj_uid = jr_uid j, bj_queue = jr_queue j, bj_type = jr_type j, bj_dedup = jr_dedup j,
      bj_payload = jr_payload j, bj_attempt = jr_attempts j, bj_max_attempts = jr_max_attempts j,
      bj_lease_uid = lease, bj_lease_expires_at = expires, bj_created_at = jr_created_at j\<rparr>"

definition Claim ::
  "bool \<Rightarrow> faults \<Rightarrow> (uid \<Rightarrow> bool) \<Rightarrow> time \<Rightarrow> uid \<Rightarrow> string \<Rightarrow> duration \<Rightarrow> job_db \<Rightarrow>
   (store_error + BackgroundJob option) \<times> job_db" where
  "Claim has_db flt locked now leaseUID queue leaseDuration d =
     (if \<not> has_db then (Inl (StoreInvalid ''background job store database is required''), d)
      else if \<not> backgroundJobQueue queue
      then (Inl (StoreInvalid ''background job queue is invalid''), d)
      else if leaseDuration \<le> 0
      then (Inl (StoreInvalid ''background job lease duration must be positive''), d)
      else let leaseSeconds = durationSeconds leaseDuration in
      if flt ''begin background job claim''
      then (Inl (StoreDb ''begin background job claim''), d)
      else if flt ''dead-letter exhausted background jobs''
      then (Inl (StoreDb ''dead-letter exhausted background jobs''), d)
      else let jobs = sql_update (lease_exhausted now queue) (abandon_row now) (background_jobs d) in
      if flt ''claim background job'' then (Inl (StoreDb ''claim background job''), d)
      else (case sql_select (\<lambda>j. claimable now queue j \<and> \<not> locked (jr_uid j)) claim_order 1 jobs of
        [] \<Rightarrow>
          if flt ''commit empty background job claim''
          then (Inl (StoreDb ''commit empty background job claim''), d)
          else (Inr None, d\<lparr>background_jobs := jobs\<rparr>)
      | candidate # _ \<Rightarrow>
          let job = lease_row now leaseUID leaseSeconds candidate in
          if flt ''commit background job claim''
          then (Inl (StoreDb ''commit background job claim''), d)
          else (Inr (Some (job_handle leaseUID (now + leaseSeconds * Second) job)),
                d\<lparr>background_jobs := sql_update (\<lambda>j. jr_uid j = jr_uid candidate)
                                     (lease_row now leaseUID leaseSeconds) jobs\<rparr>)))"

text \<open>The guard the three releasing statements share: \<^verbatim>\<open>WHERE uid=$1 AND status='running' AND lease_uid=$2\<close>.\<close>

definition owned_by :: "BackgroundJob \<Rightarrow> job_row \<Rightarrow> bool" where
  "owned_by job j \<longleftrightarrow>
     jr_uid j = bj_uid job \<and> jr_status j = Running \<and> jr_lease_uid j = Some (bj_lease_uid job)"

definition complete_row :: "time \<Rightarrow> job_row \<Rightarrow> job_row" where
  "complete_row now j = j\<lparr>jr_status := Completed, jr_lease_uid := None,
     jr_lease_expires_at := None, jr_completed_at := Some now, jr_updated_at := now,
     jr_last_error := None\<rparr>"

definition Complete :: "faults \<Rightarrow> time \<Rightarrow> BackgroundJob \<Rightarrow> job_db \<Rightarrow> (store_error + unit) \<times> job_db" where
  "Complete flt now job d =
     (if flt ''complete background job'' then (Inl (StoreDb ''complete background job''), d)
      else let d' = d\<lparr>background_jobs :=
               sql_update (owned_by job) (complete_row now) (background_jobs d)\<rparr> in
      if sql_count (owned_by job) (background_jobs d) \<noteq> 1 then (Inl ErrBackgroundJobLeaseLost, d')
      else (Inr (), d'))"

definition retry_message :: "string option \<Rightarrow> string" where
  "retry_message cause =
     (let message = (case cause of
           None \<Rightarrow> ''background job failed''
         | Some e \<Rightarrow> if TrimSpace e = '''' then ''background job failed'' else TrimSpace e)
      in if length message > 2000 then take 2000 message else message)"

definition retry_row :: "time \<Rightarrow> time \<Rightarrow> string \<Rightarrow> job_row \<Rightarrow> job_row" where
  "retry_row now availableAt message j = j\<lparr>
     jr_status := (if jr_max_attempts j \<le> jr_attempts j then DeadLettered else Pending),
     jr_available_at := (if jr_max_attempts j \<le> jr_attempts j then jr_available_at j else availableAt),
     jr_lease_uid := None, jr_lease_expires_at := None, jr_completed_at := None,
     jr_dead_lettered_at := (if jr_max_attempts j \<le> jr_attempts j then Some now else None),
     jr_last_error := Some message, jr_updated_at := now\<rparr>"

definition Retry ::
  "faults \<Rightarrow> time \<Rightarrow> BackgroundJob \<Rightarrow> time \<Rightarrow> string option \<Rightarrow> job_db \<Rightarrow> (store_error + bool) \<times> job_db" where
  "Retry flt now job availableAt cause d =
     (let message = retry_message cause in
      if flt ''retry background job'' then (Inl (StoreDb ''retry background job''), d)
      else let d' = d\<lparr>background_jobs :=
               sql_update (owned_by job) (retry_row now availableAt message) (background_jobs d)\<rparr> in
      if sql_count (owned_by job) (background_jobs d) \<noteq> 1 then (Inl ErrBackgroundJobLeaseLost, d')
      else (Inr (bj_max_attempts job \<le> bj_attempt job), d'))"

definition reschedule_row :: "time \<Rightarrow> time \<Rightarrow> job_row \<Rightarrow> job_row" where
  "reschedule_row now availableAt j = j\<lparr>jr_status := Pending,
     jr_attempts := max (jr_attempts j - 1) 0, jr_available_at := availableAt,
     jr_lease_uid := None, jr_lease_expires_at := None, jr_completed_at := None,
     jr_dead_lettered_at := None, jr_last_error := None, jr_updated_at := now\<rparr>"

definition Reschedule ::
  "faults \<Rightarrow> time \<Rightarrow> BackgroundJob \<Rightarrow> time \<Rightarrow> job_db \<Rightarrow> (store_error + unit) \<times> job_db" where
  "Reschedule flt now job availableAt d =
     (if flt ''reschedule background job'' then (Inl (StoreDb ''reschedule background job''), d)
      else let d' = d\<lparr>background_jobs :=
               sql_update (owned_by job) (reschedule_row now availableAt) (background_jobs d)\<rparr> in
      if sql_count (owned_by job) (background_jobs d) \<noteq> 1 then (Inl ErrBackgroundJobLeaseLost, d')
      else (Inr (), d'))"

text \<open>
  Producers insert rows with the column defaults of the schema; the primary key and
  \<^verbatim>\<open>UNIQUE(queue, deduplication_key)\<close> decide whether an insertion conflicts.
\<close>

definition new_job :: "time \<Rightarrow> uid \<Rightarrow> string \<Rightarrow> string \<Rightarrow> string option \<Rightarrow> json \<Rightarrow> int \<Rightarrow> time \<Rightarrow> job_row" where
  "new_job now u queue typ dedup payload max_attempts available_at =
     \<lparr>jr_uid = u, jr_queue = queue, jr_type = typ, jr_dedup = dedup, jr_payload = payload,
      jr_status = Pending, jr_attempts = 0, jr_max_attempts = max_attempts,
      jr_available_at = available_at, jr_lease_uid = None, jr_lease_expires_at = None,
      jr_last_error = None, jr_created_at = now, jr_updated_at = now,
      jr_completed_at = None, jr_dead_lettered_at = None\<rparr>"

definition dedup_conflict :: "job_row \<Rightarrow> job_row \<Rightarrow> bool" where
  "dedup_conflict a b \<longleftrightarrow> jr_queue a = jr_queue b \<and> jr_dedup a = jr_dedup b \<and> jr_dedup a \<noteq> None"

definition job_conflict :: "job_row \<Rightarrow> job_db \<Rightarrow> bool" where
  "job_conflict j d = list_ex (\<lambda>i. jr_uid i = jr_uid j \<or> dedup_conflict i j) (background_jobs d)"

section \<open>The table's constraints as an invariant\<close>

text \<open>
  \<open>background_jobs_state_check\<close> of migration 000010, the bounds on the attempt counters, the
  primary keys and the deduplication key.
\<close>

definition state_check :: "job_row \<Rightarrow> bool" where
  "state_check j = (case jr_status j of
       Pending \<Rightarrow> jr_lease_uid j = None \<and> jr_lease_expires_at j = None \<and>
                  jr_completed_at j = None \<and> jr_dead_lettered_at j = None
     | Running \<Rightarrow> jr_lease_uid j \<noteq> None \<and> jr_lease_expires_at j \<noteq> None \<and>
                  jr_completed_at j = None \<and> jr_dead_lettered_at j = None
     | Completed \<Rightarrow> jr_lease_uid j = None \<and> jr_lease_expires_at j = None \<and>
                  jr_completed_at j \<noteq> None \<and> jr_dead_lettered_at j = None
     | DeadLettered \<Rightarrow> jr_lease_uid j = None \<and> jr_lease_expires_at j = None \<and>
                  jr_completed_at j = None \<and> jr_dead_lettered_at j \<noteq> None)"

definition job_row_ok :: "job_row \<Rightarrow> bool" where
  "job_row_ok j \<longleftrightarrow> state_check j \<and> 0 \<le> jr_attempts j \<and> jr_attempts j \<le> jr_max_attempts j \<and>
     1 \<le> jr_max_attempts j \<and> jr_max_attempts j \<le> 100"

definition dedup_keys :: "job_row list \<Rightarrow> (string \<times> string option) list" where
  "dedup_keys t = map (\<lambda>j. (jr_queue j, jr_dedup j)) (filter (\<lambda>j. jr_dedup j \<noteq> None) t)"

definition job_invar :: "job_db \<Rightarrow> bool" where
  "job_invar d \<longleftrightarrow> distinct (map jr_uid (background_jobs d)) \<and>
     list_all job_row_ok (background_jobs d) \<and> distinct (dedup_keys (background_jobs d)) \<and>
     distinct (map oa_uid (platform_operator_actions d))"

lemma dedup_keys_update:
  assumes "\<And>j. jr_queue (f j) = jr_queue j" and "\<And>j. jr_dedup (f j) = jr_dedup j"
  shows "dedup_keys (sql_update p f t) = dedup_keys t"
  using assms by (induction t) (auto simp: dedup_keys_def)

lemma job_invar_update:
  assumes "job_invar d"
    and "\<And>j. jr_uid (f j) = jr_uid j" "\<And>j. jr_queue (f j) = jr_queue j" "\<And>j. jr_dedup (f j) = jr_dedup j"
    and "\<And>j. job_row_ok j \<Longrightarrow> p j \<Longrightarrow> job_row_ok (f j)"
  shows "job_invar (d\<lparr>background_jobs := sql_update p f (background_jobs d)\<rparr>)"
  using assms by (auto simp: job_invar_def dedup_keys_update intro: list_all_sql_update)

lemma row_keys [simp]:
  "jr_uid (replay_row now j) = jr_uid j" "jr_uid (abandon_row now j) = jr_uid j"
  "jr_uid (lease_row now l n j) = jr_uid j" "jr_uid (complete_row now j) = jr_uid j"
  "jr_uid (retry_row now a m j) = jr_uid j" "jr_uid (reschedule_row now a j) = jr_uid j"
  by (simp_all add: replay_row_def abandon_row_def lease_row_def complete_row_def retry_row_def
      reschedule_row_def)

lemma row_queues [simp]:
  "jr_queue (replay_row now j) = jr_queue j" "jr_queue (abandon_row now j) = jr_queue j"
  "jr_queue (lease_row now l n j) = jr_queue j" "jr_queue (complete_row now j) = jr_queue j"
  "jr_queue (retry_row now a m j) = jr_queue j" "jr_queue (reschedule_row now a j) = jr_queue j"
  by (simp_all add: replay_row_def abandon_row_def lease_row_def complete_row_def retry_row_def
      reschedule_row_def)

lemma row_dedups [simp]:
  "jr_dedup (replay_row now j) = jr_dedup j" "jr_dedup (abandon_row now j) = jr_dedup j"
  "jr_dedup (lease_row now l n j) = jr_dedup j" "jr_dedup (complete_row now j) = jr_dedup j"
  "jr_dedup (retry_row now a m j) = jr_dedup j" "jr_dedup (reschedule_row now a j) = jr_dedup j"
  by (simp_all add: replay_row_def abandon_row_def lease_row_def complete_row_def retry_row_def
      reschedule_row_def)

lemma job_row_ok_transitions:
  assumes "job_row_ok j"
  shows "job_row_ok (replay_row now j)"
    and "jr_status j = Running \<Longrightarrow> job_row_ok (abandon_row now j)"
    and "jr_status j = Pending \<or> jr_status j = Running \<Longrightarrow> jr_attempts j < jr_max_attempts j \<Longrightarrow>
         job_row_ok (lease_row now l n j)"
    and "jr_status j = Running \<Longrightarrow> job_row_ok (complete_row now j)"
    and "jr_status j = Running \<Longrightarrow> job_row_ok (retry_row now a m j)"
    and "jr_status j = Running \<Longrightarrow> job_row_ok (reschedule_row now a j)"
  using assms
  by (auto simp: job_row_ok_def state_check_def replay_row_def abandon_row_def lease_row_def
      complete_row_def retry_row_def reschedule_row_def split: job_status.splits)

subsection \<open>Every operation keeps it\<close>

text \<open>
  \<open>Complete\<close>, \<open>Retry\<close> and \<open>Reschedule\<close> rewrite the row their caller owns and differ in what they
  write. What they share is proved once, for any rewriting that keeps the keys, turns a running
  row into a well-formed one and releases it.
\<close>

definition owned_at :: "uid \<Rightarrow> uid \<Rightarrow> job_row \<Rightarrow> bool" where
  "owned_at u l j \<longleftrightarrow> jr_uid j = u \<and> jr_status j = Running \<and> jr_lease_uid j = Some l"

definition release :: "(job_row \<Rightarrow> job_row) \<Rightarrow> uid \<Rightarrow> uid \<Rightarrow> job_db \<Rightarrow> bool \<times> job_db" where
  "release f u l d =
     (sql_count (owned_at u l) (background_jobs d) = 1,
      d\<lparr>background_jobs := sql_update (owned_at u l) f (background_jobs d)\<rparr>)"

text \<open>The lease under which a job is being processed.\<close>

definition job_holder :: "job_db \<Rightarrow> uid \<Rightarrow> uid option" where
  "job_holder d u = (case sql_row (\<lambda>j. jr_uid j = u) (background_jobs d) of
       None \<Rightarrow> None
     | Some j \<Rightarrow> if jr_status j = Running then jr_lease_uid j else None)"

lemma owned_by_at: "owned_by job = owned_at (bj_uid job) (bj_lease_uid job)"
  by (simp add: fun_eq_iff owned_by_def owned_at_def)

lemma owned_count:
  assumes "job_invar d"
  shows "sql_count (owned_at u l) (background_jobs d) = (if job_holder d u = Some l then 1 else 0)"
proof -
  have "distinct (map jr_uid (background_jobs d))" using assms by (simp add: job_invar_def)
  from sql_count_key [OF this, of u "\<lambda>j. jr_status j = Running \<and> jr_lease_uid j = Some l"]
  show ?thesis by (auto simp: owned_at_def [abs_def] job_holder_def split: option.splits)
qed

lemma owned_at_holder:
  assumes "job_invar d" and "j \<in> set (background_jobs d)" and "owned_at u l j"
  shows "job_holder d u = Some l"
  using assms sql_row_key_eq [of jr_uid "background_jobs d" j u]
  by (auto simp: job_invar_def owned_at_def job_holder_def)

locale job_release =
  fixes f :: "job_row \<Rightarrow> job_row"
  assumes keeps_uid: "jr_uid (f j) = jr_uid j"
    and keeps_queue: "jr_queue (f j) = jr_queue j"
    and keeps_dedup: "jr_dedup (f j) = jr_dedup j"
    and row_ok: "job_row_ok j \<Longrightarrow> jr_status j = Running \<Longrightarrow> job_row_ok (f j)"
    and released: "jr_status (f j) \<noteq> Running"
begin

lemma release_invar: "job_invar d \<Longrightarrow> job_invar (snd (release f u l d))"
  unfolding release_def snd_conv
  by (rule job_invar_update) (auto simp: keeps_uid keeps_queue keeps_dedup owned_at_def intro: row_ok)

lemma release_lost: "job_invar d \<Longrightarrow> job_holder d u \<noteq> Some l \<Longrightarrow> snd (release f u l d) = d"
proof -
  assume "job_invar d" and "job_holder d u \<noteq> Some l"
  then have "\<not> owned_at u l j" if "j \<in> set (background_jobs d)" for j
    using that owned_at_holder by blast
  then show "snd (release f u l d) = d" by (simp add: release_def sql_update_id)
qed

lemma release_holder:
  "job_holder (snd (release f u l d)) u' =
     (if u' = u \<and> job_holder d u = Some l then None else job_holder d u')"
proof (cases "sql_row (\<lambda>j. jr_uid j = u') (background_jobs d)")
  case None
  then show ?thesis by (simp add: release_def job_holder_def sql_row_update_key keeps_uid)
next
  case (Some j)
  then have "jr_uid j = u'" by (auto dest: sql_row_SomeD)
  with Some show ?thesis
    by (auto simp: release_def job_holder_def owned_at_def sql_row_update_key keeps_uid released)
qed

lemma release_lease_contract: "lease_contract job_invar job_holder (release f)"
proof
  fix d u l u'
  assume inv: "job_invar d"
  show "fst (release f u l d) \<longleftrightarrow> job_holder d u = Some l"
    by (simp add: release_def owned_count [OF inv])
  show "job_invar (snd (release f u l d))" using inv by (rule release_invar)
  show "job_holder d u \<noteq> Some l \<Longrightarrow> snd (release f u l d) = d" using inv by (rule release_lost)
  show "job_holder d u = Some l \<Longrightarrow> job_holder (snd (release f u l d)) u = None"
    by (simp add: release_holder)
  show "u' \<noteq> u \<Longrightarrow> job_holder (snd (release f u l d)) u' = job_holder d u'"
    by (simp add: release_holder)
qed

end

sublocale job_release \<subseteq> lease_contract job_invar job_holder "release f"
  by (rule release_lease_contract)

interpretation completion: job_release "complete_row now" for now
  by unfold_locales (simp_all add: job_row_ok_transitions, simp add: complete_row_def)

interpretation retrial: job_release "retry_row now a m" for now a m
  by unfold_locales (simp_all add: job_row_ok_transitions, simp add: retry_row_def)

interpretation rescheduling: job_release "reschedule_row now a" for now a
  by unfold_locales (simp_all add: job_row_ok_transitions, simp add: reschedule_row_def)

lemma Complete_release:
  "\<not> flt ''complete background job'' \<Longrightarrow> Complete flt now job d =
     (let (ok, d') = release (complete_row now) (bj_uid job) (bj_lease_uid job) d
      in (if ok then Inr () else Inl ErrBackgroundJobLeaseLost, d'))"
  by (simp add: Complete_def release_def owned_by_at Let_def)

lemma Retry_release:
  "\<not> flt ''retry background job'' \<Longrightarrow> Retry flt now job a cause d =
     (let (ok, d') = release (retry_row now a (retry_message cause)) (bj_uid job) (bj_lease_uid job) d
      in (if ok then Inr (bj_max_attempts job \<le> bj_attempt job) else Inl ErrBackgroundJobLeaseLost, d'))"
  by (simp add: Retry_def release_def owned_by_at Let_def)

lemma Reschedule_release:
  "\<not> flt ''reschedule background job'' \<Longrightarrow> Reschedule flt now job a d =
     (let (ok, d') = release (reschedule_row now a) (bj_uid job) (bj_lease_uid job) d
      in (if ok then Inr () else Inl ErrBackgroundJobLeaseLost, d'))"
  by (simp add: Reschedule_def release_def owned_by_at Let_def)

lemma Complete_invar: "job_invar d \<Longrightarrow> job_invar (snd (Complete flt now job d))"
  using completion.release_invar [of d now "bj_uid job" "bj_lease_uid job"]
  by (auto simp: Complete_def release_def owned_by_at Let_def)

lemma Retry_invar: "job_invar d \<Longrightarrow> job_invar (snd (Retry flt now job a cause d))"
  using retrial.release_invar [of d now a "retry_message cause" "bj_uid job" "bj_lease_uid job"]
  by (auto simp: Retry_def release_def owned_by_at Let_def)

lemma Reschedule_invar: "job_invar d \<Longrightarrow> job_invar (snd (Reschedule flt now job a d))"
  using rescheduling.release_invar [of d now a "bj_uid job" "bj_lease_uid job"]
  by (auto simp: Reschedule_def release_def owned_by_at Let_def)

lemma job_invar_action:
  "job_invar d \<Longrightarrow> oa_uid a \<notin> set (map oa_uid (platform_operator_actions d)) \<Longrightarrow>
   job_invar (d\<lparr>platform_operator_actions := platform_operator_actions d @ [a]\<rparr>)"
  by (simp add: job_invar_def)

lemma Replay_invar:
  assumes "job_invar d"
  shows "job_invar (snd (Replay has_db flt now auid replay d))"
proof -
  have upd: "job_invar (d\<lparr>background_jobs := sql_update (\<lambda>j. jr_uid j = u) (replay_row now) (background_jobs d)\<rparr>)" for u
    using assms by (rule job_invar_update) (simp_all add: job_row_ok_transitions)
  have "job_invar (d\<lparr>background_jobs := sql_update (\<lambda>j. jr_uid j = u) (replay_row now) (background_jobs d),
       platform_operator_actions := platform_operator_actions d @ [a]\<rparr>)"
    if "oa_uid a \<notin> set (map oa_uid (platform_operator_actions d))" for u a
    using job_invar_action [OF upd, of a u] that by simp
  then show ?thesis
    using assms by (auto simp: Replay_def Let_def split: option.splits)
qed

text \<open>After the exhausted leases are abandoned, the claiming statement leases one row.\<close>

definition after_abandon :: "time \<Rightarrow> string \<Rightarrow> job_db \<Rightarrow> job_db" where
  "after_abandon now queue d = d\<lparr>background_jobs :=
     sql_update (lease_exhausted now queue) (abandon_row now) (background_jobs d)\<rparr>"

lemma after_abandon_invar: "job_invar d \<Longrightarrow> job_invar (after_abandon now queue d)"
  unfolding after_abandon_def
  by (rule job_invar_update) (auto simp: lease_exhausted_def job_row_ok_transitions)

text \<open>The possible outcomes of a claim.\<close>

lemma Claim_cases:
  obtains (error) e where "Claim has_db flt locked now lease queue dur d = (Inl e, d)"
  | (empty) "Claim has_db flt locked now lease queue dur d = (Inr None, after_abandon now queue d)"
      "\<forall>j \<in> set (background_jobs (after_abandon now queue d)). \<not> (claimable now queue j \<and> \<not> locked (jr_uid j))"
  | (claimed) c where "Claim has_db flt locked now lease queue dur d =
        (Inr (Some (job_handle lease (now + durationSeconds dur * Second) (lease_row now lease (durationSeconds dur) c))),
         d\<lparr>background_jobs := sql_update (\<lambda>j. jr_uid j = jr_uid c) (lease_row now lease (durationSeconds dur))
            (background_jobs (after_abandon now queue d))\<rparr>)"
      "sql_select (\<lambda>j. claimable now queue j \<and> \<not> locked (jr_uid j)) claim_order 1
         (background_jobs (after_abandon now queue d)) = [c]"
proof (cases "fst (Claim has_db flt locked now lease queue dur d)")
  case (Inl e)
  then show thesis
    by (intro error [of e])
      (auto simp: Claim_def Let_def split: if_splits list.splits)
next
  case (Inr r)
  show thesis
  proof (cases rule: sql_select_1_cases [of "\<lambda>j. claimable now queue j \<and> \<not> locked (jr_uid j)" claim_order
        "background_jobs (after_abandon now queue d)"])
    case none
    with Inr show thesis
      by (intro empty) (auto simp: Claim_def Let_def after_abandon_def split: if_splits)
  next
    case (one c)
    with Inr show thesis
      by (intro claimed [of c]) (auto simp: Claim_def Let_def after_abandon_def split: if_splits)
  qed
qed

lemma key_row_unique:
  "distinct (map jr_uid t) \<Longrightarrow> i \<in> set t \<Longrightarrow> j \<in> set t \<Longrightarrow> jr_uid i = jr_uid j \<Longrightarrow> i = j"
  by (auto simp: distinct_map inj_on_def)

lemma job_invar_lease:
  assumes inv: "job_invar d" and c: "c \<in> set (background_jobs d)" and "claimable now queue c"
  shows "job_invar (d\<lparr>background_jobs :=
    sql_update (\<lambda>j. jr_uid j = jr_uid c) (lease_row now lease n) (background_jobs d)\<rparr>)"
proof -
  have "j = c" if "j \<in> set (background_jobs d)" "jr_uid j = jr_uid c" for j
    using inv c that by (auto simp: job_invar_def dest: key_row_unique)
  then have "sql_update (\<lambda>j. jr_uid j = jr_uid c) (lease_row now lease n) (background_jobs d) =
      sql_update (\<lambda>j. j = c) (lease_row now lease n) (background_jobs d)"
    by (auto simp: sql_update_def)
  moreover have "job_invar (d\<lparr>background_jobs := sql_update (\<lambda>j. j = c) (lease_row now lease n) (background_jobs d)\<rparr>)"
    using inv by (rule job_invar_update)
      (use assms(3) in \<open>auto simp: claimable_def job_row_ok_transitions\<close>)
  ultimately show ?thesis by simp
qed

lemma Claim_invar:
  assumes "job_invar d"
  shows "job_invar (snd (Claim has_db flt locked now lease queue dur d))"
proof (cases rule: Claim_cases [of has_db flt locked now lease queue dur d])
  case (error e)
  with assms show ?thesis by simp
next
  case empty
  with assms show ?thesis by (simp add: after_abandon_invar)
next
  case (claimed c)
  note c = sql_select_1_least(1,2) [OF claimed(2)]
  have "job_invar ((after_abandon now queue d)\<lparr>background_jobs :=
    sql_update (\<lambda>j. jr_uid j = jr_uid c) (lease_row now lease (durationSeconds dur))
      (background_jobs (after_abandon now queue d))\<rparr>)"
    using c by (intro job_invar_lease [OF after_abandon_invar [OF assms]]) auto
  then show ?thesis by (simp add: claimed(1) after_abandon_def)
qed

section \<open>What a claim does\<close>

lemma not_both: "claimable now queue j \<Longrightarrow> \<not> lease_exhausted now' queue' j"
  by (auto simp: claimable_def lease_exhausted_def)

lemma abandoned_not_claimable: "\<not> claimable now queue (abandon_row now' j)"
  by (simp add: claimable_def abandon_row_def)

lemma claimable_after_abandon:
  "j \<in> set (background_jobs (after_abandon now queue d)) \<and> claimable now' queue' j \<longleftrightarrow>
   j \<in> set (background_jobs d) \<and> claimable now' queue' j"
proof
  assume "j \<in> set (background_jobs (after_abandon now queue d)) \<and> claimable now' queue' j"
  then show "j \<in> set (background_jobs d) \<and> claimable now' queue' j"
    by (auto simp: after_abandon_def set_sql_update abandoned_not_claimable split: if_splits)
next
  assume j: "j \<in> set (background_jobs d) \<and> claimable now' queue' j"
  then have "\<not> lease_exhausted now queue j" by (auto dest: not_both)
  with j show "j \<in> set (background_jobs (after_abandon now queue d)) \<and> claimable now' queue' j"
    by (force simp: after_abandon_def set_sql_update)
qed

lemma sql_row_after_abandon:
  "sql_row (\<lambda>j. jr_uid j = u) (background_jobs (after_abandon now queue d)) =
   map_option (\<lambda>j. if lease_exhausted now queue j then abandon_row now j else j)
     (sql_row (\<lambda>j. jr_uid j = u) (background_jobs d))"
  by (simp add: after_abandon_def sql_row_update_key)

text \<open>The row a claim picks, and the table it leaves.\<close>

lemma Claim_SomeE:
  assumes inv: "job_invar d" and cl: "Claim has_db flt locked now lease queue dur d = (Inr (Some job), d')"
  obtains c where "sql_row (\<lambda>j. jr_uid j = jr_uid c) (background_jobs d) = Some c"
    and "claimable now queue c" and "\<not> locked (jr_uid c)"
    and "\<And>j. j \<in> set (background_jobs d) \<Longrightarrow> claimable now queue j \<Longrightarrow> \<not> locked (jr_uid j) \<Longrightarrow>
           claim_order c \<le> claim_order j"
    and "job = job_handle lease (now + durationSeconds dur * Second) (lease_row now lease (durationSeconds dur) c)"
    and "\<And>u. sql_row (\<lambda>j. jr_uid j = u) (background_jobs d') =
           (if u = jr_uid c then Some (lease_row now lease (durationSeconds dur) c)
            else map_option (\<lambda>j. if lease_exhausted now queue j then abandon_row now j else j)
                   (sql_row (\<lambda>j. jr_uid j = u) (background_jobs d)))"
    and "platform_operator_actions d' = platform_operator_actions d"
proof (cases rule: Claim_cases [of has_db flt locked now lease queue dur d])
  case (error e)
  with cl show thesis by simp
next
  case empty
  with cl show thesis by simp
next
  case (claimed c)
  note sel = sql_select_1_least [OF claimed(2)]
  have c: "c \<in> set (background_jobs d)" "claimable now queue c" "\<not> locked (jr_uid c)"
    using sel(1,2) claimable_after_abandon by blast+
  have row_c: "sql_row (\<lambda>j. jr_uid j = jr_uid c) (background_jobs d) = Some c"
    using inv c(1) by (intro sql_row_key_eq) (auto simp: job_invar_def)
  have least: "claim_order c \<le> claim_order j"
    if "j \<in> set (background_jobs d)" "claimable now queue j" "\<not> locked (jr_uid j)" for j
    using sel(3) that claimable_after_abandon by blast
  have d': "d' = d\<lparr>background_jobs := sql_update (\<lambda>j. jr_uid j = jr_uid c)
      (lease_row now lease (durationSeconds dur)) (background_jobs (after_abandon now queue d))\<rparr>"
    and job: "job = job_handle lease (now + durationSeconds dur * Second)
      (lease_row now lease (durationSeconds dur) c)"
    using claimed(1) cl by simp_all
  have "sql_row (\<lambda>j. jr_uid j = u) (background_jobs d') =
      (if u = jr_uid c then Some (lease_row now lease (durationSeconds dur) c)
       else map_option (\<lambda>j. if lease_exhausted now queue j then abandon_row now j else j)
              (sql_row (\<lambda>j. jr_uid j = u) (background_jobs d)))" for u
    using row_c not_both [OF c(2)]
    by (cases "sql_row (\<lambda>j. jr_uid j = u) (background_jobs d)")
      (auto simp: d' sql_row_update_key sql_row_after_abandon dest: sql_row_SomeD)
  with row_c c least job d' show thesis by (intro that [of c]) auto
qed

lemma Claim_holder:
  assumes "job_invar d" and "Claim has_db flt locked now lease queue dur d = (Inr (Some job), d')"
  shows "job_holder d' (bj_uid job) = Some lease" and "bj_lease_uid job = lease"
    and "bj_lease_expires_at job = now + durationSeconds dur * Second"
  using assms by (auto elim!: Claim_SomeE simp: job_holder_def job_handle_def lease_row_def)

section \<open>Workers and operators over the table\<close>

text \<open>
  The system state: the database clock, the tables and the leases handed out so far. A claim uses
  a fresh lease UID; producers insert well-formed pending rows that do not conflict.
\<close>

record job_sys =
  js_now :: time
  js_db :: job_db
  js_leases :: "uid list"

definition init_job_sys :: "time \<Rightarrow> job_sys" where
  "init_job_sys now = \<lparr>js_now = now, js_db = \<lparr>background_jobs = [], platform_operator_actions = []\<rparr>,
     js_leases = []\<rparr>"

inductive job_step :: "job_sys \<Rightarrow> job_sys \<Rightarrow> bool" where
  tick: "js_now s \<le> t \<Longrightarrow> job_step s (s\<lparr>js_now := t\<rparr>)"
| enqueue: "row = new_job (js_now s) u queue typ dedup payload max_attempts available_at \<Longrightarrow>
    1 \<le> max_attempts \<Longrightarrow> max_attempts \<le> 100 \<Longrightarrow> \<not> job_conflict row (js_db s) \<Longrightarrow>
    job_step s (s\<lparr>js_db := (js_db s)\<lparr>background_jobs := background_jobs (js_db s) @ [row]\<rparr>\<rparr>)"
| claim: "lease \<notin> set (js_leases s) \<Longrightarrow> lease \<noteq> uuid_Nil \<Longrightarrow>
    Claim True flt locked (js_now s) lease queue dur (js_db s) = (r, d') \<Longrightarrow>
    job_step s (s\<lparr>js_db := d', js_leases := lease # js_leases s\<rparr>)"
| complete: "Complete flt (js_now s) job (js_db s) = (r, d') \<Longrightarrow> job_step s (s\<lparr>js_db := d'\<rparr>)"
| retry: "Retry flt (js_now s) job a cause (js_db s) = (r', d') \<Longrightarrow> job_step s (s\<lparr>js_db := d'\<rparr>)"
| reschedule: "Reschedule flt (js_now s) job a (js_db s) = (r, d') \<Longrightarrow> job_step s (s\<lparr>js_db := d'\<rparr>)"
| replay: "Replay True flt (js_now s) auid rp (js_db s) = (r, d') \<Longrightarrow> job_step s (s\<lparr>js_db := d'\<rparr>)"

inductive job_reachable :: "job_sys \<Rightarrow> bool" where
  init: "job_reachable (init_job_sys now)"
| step: "job_reachable s \<Longrightarrow> job_step s t \<Longrightarrow> job_reachable t"

lemma enqueue_invar:
  assumes "job_invar d" and "\<not> job_conflict row d" and "job_row_ok row"
  shows "job_invar (d\<lparr>background_jobs := background_jobs d @ [row]\<rparr>)"
  using assms
  by (auto simp: job_invar_def job_conflict_def dedup_keys_def dedup_conflict_def list_ex_iff image_iff)

lemma new_job_ok: "1 \<le> m \<Longrightarrow> m \<le> 100 \<Longrightarrow> job_row_ok (new_job now u q t dd p m a)"
  by (simp add: job_row_ok_def state_check_def new_job_def)

lemma job_step_invar: "job_step s t \<Longrightarrow> job_invar (js_db s) \<Longrightarrow> job_invar (js_db t)"
proof (induction rule: job_step.induct)
  case (claim lease s flt locked queue dur r d')
  then show ?case using Claim_invar [of "js_db s" True flt locked "js_now s" lease queue dur] by simp
next
  case (complete flt s job r d')
  then show ?case using Complete_invar [of "js_db s" flt "js_now s" job] by simp
next
  case (retry flt s job a cause r d')
  then show ?case using Retry_invar [of "js_db s" flt "js_now s" job a cause] by simp
next
  case (reschedule flt s job a r d')
  then show ?case using Reschedule_invar [of "js_db s" flt "js_now s" job a] by simp
next
  case (replay flt s auid rp r d')
  then show ?case using Replay_invar [of "js_db s" True flt "js_now s" auid rp] by simp
qed (simp_all add: enqueue_invar new_job_ok)

lemma job_reachable_invar: "job_reachable s \<Longrightarrow> job_invar (js_db s)"
  by (induction rule: job_reachable.induct)
    (auto simp: init_job_sys_def job_invar_def dedup_keys_def dest: job_step_invar)

subsection \<open>Leases are never shared\<close>

definition leases_ok :: "job_sys \<Rightarrow> bool" where
  "leases_ok s \<longleftrightarrow>
     (\<forall>u l. job_holder (js_db s) u = Some l \<longrightarrow> l \<in> set (js_leases s)) \<and>
     (\<forall>u u' l. job_holder (js_db s) u = Some l \<longrightarrow> job_holder (js_db s) u' = Some l \<longrightarrow> u = u')"

lemma leases_okI_shrink:
  assumes "leases_ok s" and "set (js_leases s) \<subseteq> set (js_leases t)"
    and "\<And>u l. job_holder (js_db t) u = Some l \<Longrightarrow> job_holder (js_db s) u = Some l"
  shows "leases_ok t"
  using assms unfolding leases_ok_def by (meson subsetD)

lemma holder_abandon:
  "job_holder (after_abandon now queue d) u = Some l \<Longrightarrow> job_holder d u = Some l"
  by (auto simp: job_holder_def sql_row_after_abandon abandon_row_def split: option.splits if_splits)

lemma holder_append:
  "jr_status row \<noteq> Running \<Longrightarrow>
   job_holder (d\<lparr>background_jobs := background_jobs d @ [row]\<rparr>) u = Some l \<Longrightarrow> job_holder d u = Some l"
  by (auto simp: job_holder_def sql_row_append split: option.splits if_splits)

lemma holder_Replay:
  "job_holder (snd (Replay has_db flt now auid rp d)) u = Some l \<Longrightarrow> job_holder d u = Some l"
  by (auto simp: Replay_def job_holder_def Let_def sql_row_update_key replay_row_def
      split: option.splits if_splits)

lemma holder_release_ops:
  shows "job_holder (snd (Complete flt now job d)) u = Some l \<Longrightarrow> job_holder d u = Some l"
    and "job_holder (snd (Retry flt now job a cause d)) u = Some l \<Longrightarrow> job_holder d u = Some l"
    and "job_holder (snd (Reschedule flt now job a d)) u = Some l \<Longrightarrow> job_holder d u = Some l"
  using completion.release_holder retrial.release_holder rescheduling.release_holder
  by (auto simp: Complete_def Retry_def Reschedule_def release_def owned_by_at Let_def split: if_splits)

lemma holder_Claim:
  assumes inv: "job_invar d"
    and cl: "Claim has_db flt locked now lease queue dur d = (r, d')"
    and h: "job_holder d' u = Some l"
  shows "job_holder d u = Some l \<or> (l = lease \<and> (\<exists>job. r = Inr (Some job) \<and> u = bj_uid job))"
proof (cases rule: Claim_cases [of has_db flt locked now lease queue dur d])
  case (error e)
  with cl h show ?thesis by simp
next
  case empty
  with cl h show ?thesis by (auto dest: holder_abandon)
next
  case (claimed c)
  with cl obtain job where r: "r = Inr (Some job)" by auto
  from inv cl [unfolded r] show ?thesis
  proof (cases rule: Claim_SomeE)
    case (1 c)
    show ?thesis
    proof (cases "u = jr_uid c")
      case True
      with 1 h r show ?thesis by (simp add: job_holder_def lease_row_def job_handle_def)
    next
      case False
      with 1 h show ?thesis
        by (auto simp: job_holder_def abandon_row_def split: option.splits if_splits)
    qed
  qed
qed

lemma job_step_leases_ok:
  assumes "job_step s t" and "job_invar (js_db s)" and "leases_ok s"
  shows "leases_ok t"
  using assms
proof (induction rule: job_step.induct)
  case (tick s t)
  then show ?case by (simp add: leases_ok_def)
next
  case (enqueue row s u queue ty dedup payload m a)
  then have "jr_status row \<noteq> Running" by (simp add: new_job_def)
  then show ?case
    by (intro leases_okI_shrink [OF enqueue.prems(2)]) (auto dest: holder_append)
next
  case (claim lease s flt locked queue dur r d')
  let ?old = "job_holder (js_db s)"
  have new: "?old u = Some l \<or> (l = lease \<and> (\<exists>job. r = Inr (Some job) \<and> u = bj_uid job))"
    if "job_holder d' u = Some l" for u l
    using claim.prems(1) claim.hyps(3) that by (rule holder_Claim)
  have fresh: "?old u \<noteq> Some lease" for u
    using claim.prems(2) claim.hyps(1) by (auto simp: leases_ok_def)
  show ?case unfolding leases_ok_def
  proof (intro conjI allI impI)
    fix u l assume "job_holder (js_db (s\<lparr>js_db := d', js_leases := lease # js_leases s\<rparr>)) u = Some l"
    then show "l \<in> set (js_leases (s\<lparr>js_db := d', js_leases := lease # js_leases s\<rparr>))"
      using new claim.prems(2) by (fastforce simp: leases_ok_def)
  next
    fix u u' l
    assume "job_holder (js_db (s\<lparr>js_db := d', js_leases := lease # js_leases s\<rparr>)) u = Some l"
      and "job_holder (js_db (s\<lparr>js_db := d', js_leases := lease # js_leases s\<rparr>)) u' = Some l"
    then have "job_holder d' u = Some l" and "job_holder d' u' = Some l" by simp_all
    from new [OF this(1)] new [OF this(2)] show "u = u'"
      using fresh claim.prems(2) by (auto simp: leases_ok_def)
  qed
next
  case (complete flt s job r d')
  have "\<And>u l. job_holder d' u = Some l \<Longrightarrow> job_holder (js_db s) u = Some l"
    using holder_release_ops(1) [of flt "js_now s" job "js_db s"] complete.hyps by simp
  then show ?case by (intro leases_okI_shrink [OF complete.prems(2)]) auto
next
  case (retry flt s job a cause r d')
  have "\<And>u l. job_holder d' u = Some l \<Longrightarrow> job_holder (js_db s) u = Some l"
    using holder_release_ops(2) [of flt "js_now s" job a cause "js_db s"] retry.hyps by simp
  then show ?case by (intro leases_okI_shrink [OF retry.prems(2)]) auto
next
  case (reschedule flt s job a r d')
  have "\<And>u l. job_holder d' u = Some l \<Longrightarrow> job_holder (js_db s) u = Some l"
    using holder_release_ops(3) [of flt "js_now s" job a "js_db s"] reschedule.hyps by simp
  then show ?case by (intro leases_okI_shrink [OF reschedule.prems(2)]) auto
next
  case (replay flt s auid rp r d')
  have "\<And>u l. job_holder d' u = Some l \<Longrightarrow> job_holder (js_db s) u = Some l"
    using holder_Replay [of True flt "js_now s" auid rp "js_db s"] replay.hyps by simp
  then show ?case by (intro leases_okI_shrink [OF replay.prems(2)]) auto
qed

lemma job_reachable_leases_ok: "job_reachable s \<Longrightarrow> leases_ok s"
proof (induction rule: job_reachable.induct)
  case (init now)
  then show ?case by (simp add: leases_ok_def init_job_sys_def job_holder_def)
next
  case (step s t)
  then show ?case by (blast intro: job_step_leases_ok job_reachable_invar)
qed

section \<open>Properties\<close>

text \<open>A small table for the witnesses: one pending job of the retention queue, created at time 0.\<close>

definition demo_job :: job_row where
  "demo_job = new_job 0 ''11111111-1111-4111-8111-111111111111'' ''retention'' ''support_case.purge''
     None JNull 2 0"

definition demo_db :: job_db where
  "demo_db = \<lparr>background_jobs = [demo_job], platform_operator_actions = []\<rparr>"

definition demo_lease :: uid where
  "demo_lease = ''22222222-2222-4222-8222-222222222222''"

definition demo_claimed :: job_row where
  "demo_claimed = lease_row 5 demo_lease 30 demo_job"

definition demo_handle :: BackgroundJob where
  "demo_handle = job_handle demo_lease (5 + 30 * Second) demo_claimed"

definition demo_running :: job_db where
  "demo_running = \<lparr>background_jobs = [demo_claimed], platform_operator_actions = []\<rparr>"

lemma demo_invar: "job_invar demo_db" "job_invar demo_running"
  by (simp_all add: job_invar_def demo_db_def demo_running_def demo_claimed_def demo_job_def new_job_def
      lease_row_def dedup_keys_def job_row_ok_def state_check_def)

lemma demo_queue: "backgroundJobQueue ''retention''"
  by (simp add: backgroundJobQueue_def head_tail_match_def char_class_defs less_eq_char_def)

lemma demo_duration: "durationSeconds (30 * Second) = 30"
  by (simp add: durationSeconds_def Second_def signed_divide_int_def signed_modulo_int_def)

lemma demo_claim:
  "Claim True no_faults (\<lambda>_. False) 5 demo_lease ''retention'' (30 * Second) demo_db =
   (Inr (Some demo_handle), demo_running)"
  by (simp add: Claim_def demo_queue demo_duration demo_db_def demo_running_def demo_handle_def
      demo_claimed_def demo_job_def new_job_def lease_exhausted_def claimable_def sql_select_def
      lease_row_def job_handle_def Let_def not_le)

text \<open>
  Lemma (Claim_picks_oldest): a successful claim returns the least job, in the order of availability, creation and
  UID, among the rows of the queue that are due, have attempts left, are pending or hold an expired
  lease, and are not locked by another transaction; the row is leased to the caller for the rounded
  duration with its attempt counted, no other row changes except that expired leases without
  attempts left become dead letters.
\<close>

theorem Claim_picks_oldest:
  assumes "job_invar d" and "Claim has_db flt locked now lease queue dur d = (Inr (Some job), d')"
  shows "\<exists>c \<in> set (background_jobs d). claimable now queue c \<and> \<not> locked (jr_uid c) \<and>
      (\<forall>j \<in> set (background_jobs d). claimable now queue j \<longrightarrow> \<not> locked (jr_uid j) \<longrightarrow>
         claim_order c \<le> claim_order j) \<and>
      job = job_handle lease (now + durationSeconds dur * Second) (c\<lparr>jr_attempts := jr_attempts c + 1\<rparr>) \<and>
      (\<forall>u. sql_row (\<lambda>j. jr_uid j = u) (background_jobs d') =
         (if u = jr_uid c
          then Some (c\<lparr>jr_status := Running, jr_attempts := jr_attempts c + 1, jr_lease_uid := Some lease,
                 jr_lease_expires_at := Some (now + durationSeconds dur * Second), jr_updated_at := now\<rparr>)
          else map_option (\<lambda>j. if lease_exhausted now queue j then abandon_row now j else j)
                 (sql_row (\<lambda>j. jr_uid j = u) (background_jobs d))))"
  using assms
proof (cases rule: Claim_SomeE)
  case (1 c)
  have "c \<in> set (background_jobs d)" using 1(1) by (auto dest: sql_row_SomeD)
  with 1 show ?thesis
    by (intro bexI [of _ c]) (auto simp: lease_row_def job_handle_def)
qed

theorem Claim_picks_oldest_witness:
  "\<exists>c \<in> set (background_jobs demo_db). demo_handle = job_handle demo_lease (5 + 30 * Second) (c\<lparr>jr_attempts := jr_attempts c + 1\<rparr>)"
  using Claim_picks_oldest [OF demo_invar(1) demo_claim] by (auto simp: demo_duration)

text \<open>
  Lemma (Claim_progress): with the database up, a claim on a valid queue never fails, and it comes back empty exactly
  when no row of the queue is claimable and unlocked; a queue with eligible work always hands some out.
\<close>

theorem Claim_progress:
  assumes "backgroundJobQueue queue" and "0 < dur"
  shows "(\<exists>r d'. Claim True no_faults locked now lease queue dur d = (Inr r, d')) \<and>
         ((\<exists>job d'. Claim True no_faults locked now lease queue dur d = (Inr (Some job), d')) \<longleftrightarrow>
          (\<exists>j \<in> set (background_jobs d). claimable now queue j \<and> \<not> locked (jr_uid j)))"
proof (cases rule: Claim_cases [of True no_faults locked now lease queue dur d])
  case (error e)
  with assms show ?thesis by (auto simp: Claim_def Let_def split: list.splits)
next
  case empty
  have "\<not> (\<exists>j \<in> set (background_jobs d). claimable now queue j \<and> \<not> locked (jr_uid j))"
    using empty(2) claimable_after_abandon by blast
  with empty(1) show ?thesis by simp
next
  case (claimed c)
  from sql_select_1_least(1,2) [OF claimed(2)]
  have "\<exists>j \<in> set (background_jobs d). claimable now queue j \<and> \<not> locked (jr_uid j)"
    using claimable_after_abandon by blast
  with claimed(1) show ?thesis by simp
qed

theorem Claim_progress_witness:
  "\<exists>job d'. Claim True no_faults (\<lambda>_. False) 5 demo_lease ''retention'' (30 * Second) demo_db = (Inr (Some job), d')"
proof -
  have "\<exists>j \<in> set (background_jobs demo_db). claimable 5 ''retention'' j \<and> \<not> False"
    by (simp add: demo_db_def demo_job_def new_job_def claimable_def)
  then show ?thesis
    using Claim_progress [OF demo_queue, of "30 * Second" "\<lambda>_. False" 5 demo_lease demo_db] by (simp add: Second_def)
qed

text \<open>
  Lemma (claimed_job_exclusive): once a job is claimed, no claim made before the lease expires, by any worker on any queue,
  hands the same job out again, and the lease survives that claim.
\<close>

theorem claimed_job_exclusive:
  assumes inv: "job_invar d"
    and first: "Claim hd1 flt1 locked1 now1 lease1 queue1 dur1 d = (Inr (Some job), d1)"
    and early: "now2 < bj_lease_expires_at job"
    and second: "Claim hd2 flt2 locked2 now2 lease2 queue2 dur2 d1 = (r, d2)"
  shows "job_holder d2 (bj_uid job) = Some lease1 \<and> (\<forall>job2. r = Inr (Some job2) \<longrightarrow> bj_uid job2 \<noteq> bj_uid job)"
proof -
  have inv1: "job_invar d1" using Claim_invar [OF inv, of hd1 flt1 locked1 now1 lease1 queue1 dur1] first by simp
  from inv first obtain c where
    row: "sql_row (\<lambda>j. jr_uid j = bj_uid job) (background_jobs d1) = Some (lease_row now1 lease1 (durationSeconds dur1) c)"
    and "bj_lease_expires_at job = now1 + durationSeconds dur1 * Second"
    by (cases rule: Claim_SomeE) (auto simp: job_handle_def)
  then have late: "now2 < now1 + durationSeconds dur1 * Second" using early by simp
  let ?j = "lease_row now1 lease1 (durationSeconds dur1) c"
  have nc: "\<not> claimable now2 queue2 ?j" and ne: "\<not> lease_exhausted now2 queue2 ?j"
    using late by (auto simp: claimable_def lease_exhausted_def lease_row_def)
  show ?thesis
  proof (cases rule: Claim_cases [of hd2 flt2 locked2 now2 lease2 queue2 dur2 d1])
    case (error e)
    with second Claim_holder(1) [OF inv first] show ?thesis by auto
  next
    case empty
    with second row ne show ?thesis by (auto simp: job_holder_def sql_row_after_abandon lease_row_def)
  next
    case (claimed c2)
    with second obtain job2 where r: "r = Inr (Some job2)" by auto
    from inv1 second [unfolded r] show ?thesis
    proof (cases rule: Claim_SomeE)
      case (1 c2)
      then have "jr_uid c2 \<noteq> bj_uid job" using row nc by auto
      with 1 r row ne show ?thesis by (auto simp: job_holder_def job_handle_def lease_row_def)
    qed
  qed
qed

theorem claimed_job_exclusive_witness:
  "job_holder (snd (Claim True no_faults (\<lambda>_. False) 6 ''l2'' ''retention'' (30 * Second) demo_running))
     (bj_uid demo_handle) = Some demo_lease"
proof -
  have early: "6 < bj_lease_expires_at demo_handle"
    by (simp add: demo_handle_def job_handle_def Second_def)
  show ?thesis
    using claimed_job_exclusive [OF demo_invar(1) demo_claim early, of True no_faults "\<lambda>_. False" "''l2''"
        "''retention''" "30 * Second"]
    by (metis prod.collapse)
qed

text \<open>
  C33 (superseded_worker_is_refused): after a job has been claimed under a new lease, a worker that still holds an older handle
  of it can neither complete, retry nor reschedule it: every attempt reports the lost lease and
  leaves the tables exactly as they are.
\<close>

theorem superseded_worker_is_refused:
  assumes inv: "job_invar d"
    and cl: "Claim has_db flt locked now lease queue dur d = (Inr (Some job), d')"
    and stale: "bj_uid old = bj_uid job" "bj_lease_uid old \<noteq> lease"
  shows "Complete no_faults now' old d' = (Inl ErrBackgroundJobLeaseLost, d') \<and>
         Retry no_faults now' old a cause d' = (Inl ErrBackgroundJobLeaseLost, d') \<and>
         Reschedule no_faults now' old a d' = (Inl ErrBackgroundJobLeaseLost, d')"
proof -
  have inv': "job_invar d'" using Claim_invar [OF inv, of has_db flt locked now lease queue dur] cl by simp
  have h: "job_holder d' (bj_uid old) = Some lease" using Claim_holder(1) [OF inv cl] stale by simp
  have "release (complete_row now') (bj_uid old) (bj_lease_uid old) d' = (False, d')"
    and "release (retry_row now' a (retry_message cause)) (bj_uid old) (bj_lease_uid old) d' = (False, d')"
    and "release (reschedule_row now' a) (bj_uid old) (bj_lease_uid old) d' = (False, d')"
    using stale(2) by (intro completion.superseded [OF inv' h] retrial.superseded [OF inv' h]
        rescheduling.superseded [OF inv' h]; simp)+
  then show ?thesis by (simp add: Complete_release Retry_release Reschedule_release)
qed

theorem superseded_worker_is_refused_witness:
  "Complete no_faults 7 (demo_handle\<lparr>bj_lease_uid := ''old''\<rparr>) demo_running =
     (Inl ErrBackgroundJobLeaseLost, demo_running)"
  using superseded_worker_is_refused [OF demo_invar(1) demo_claim, of "demo_handle\<lparr>bj_lease_uid := ''old''\<rparr>" 7 0 None]
  by (simp add: demo_lease_def)

text \<open>
  Lemma (completed_at_most_once): whatever handles workers present to \<open>Complete\<close>, and in whatever order, at most one call per
  job is accepted before the job is leased again.
\<close>

theorem completed_at_most_once:
  assumes "job_invar d"
  shows "accepted_for u reqs (fst (run_finishes (\<lambda>k l d.
     (case Complete no_faults now (job\<lparr>bj_uid := k, bj_lease_uid := l\<rparr>) d of (r, d') \<Rightarrow> (\<not> isl r, d'))) reqs d)) \<le> 1"
proof -
  have eq: "(\<lambda>k l d. (case Complete no_faults now (job\<lparr>bj_uid := k, bj_lease_uid := l\<rparr>) d of (r, d') \<Rightarrow> (\<not> isl r, d'))) =
      release (complete_row now)"
    by (auto simp: fun_eq_iff Complete_release split: prod.splits)
  show ?thesis unfolding eq using assms by (rule completion.finished_once)
qed

theorem completed_at_most_once_witness:
  "accepted_for (jr_uid demo_job) [(jr_uid demo_job, demo_lease), (jr_uid demo_job, demo_lease)]
     (fst (run_finishes (\<lambda>k l d. (case Complete no_faults 6 (demo_handle\<lparr>bj_uid := k, bj_lease_uid := l\<rparr>) d of
        (r, d') \<Rightarrow> (\<not> isl r, d'))) [(jr_uid demo_job, demo_lease), (jr_uid demo_job, demo_lease)] demo_running)) \<le> 1"
  by (rule completed_at_most_once [OF demo_invar(2)])

text \<open>
  C32 (job_table_safe): in every state that producers, workers and operators can reach, in any interleaving of
  insertions, claims, completions, retries, reschedulings, replays, failures and the passing of
  time, the table satisfies its check constraint, no job has used more attempts than it may, keys
  and deduplication keys are unique, and no two jobs are ever being processed under one lease.
\<close>

theorem job_table_safe:
  assumes "job_reachable s"
  shows "job_invar (js_db s) \<and>
    (\<forall>u u' l. job_holder (js_db s) u = Some l \<longrightarrow> job_holder (js_db s) u' = Some l \<longrightarrow> u = u') \<and>
    (\<forall>u l. job_holder (js_db s) u = Some l \<longrightarrow> l \<in> set (js_leases s))"
  using job_reachable_invar [OF assms] job_reachable_leases_ok [OF assms]
  unfolding leases_ok_def by blast

theorem job_table_safe_witness:
  "job_invar \<lparr>background_jobs = [demo_job], platform_operator_actions = []\<rparr>"
proof -
  have "job_reachable ((init_job_sys 0)\<lparr>js_db := (js_db (init_job_sys 0))\<lparr>background_jobs :=
      background_jobs (js_db (init_job_sys 0)) @ [demo_job]\<rparr>\<rparr>)"
    by (rule job_reachable.step [OF job_reachable.init], rule job_step.enqueue [where max_attempts = 2])
      (simp_all add: demo_job_def init_job_sys_def job_conflict_def)
  from job_table_safe [OF this] show ?thesis by (simp add: init_job_sys_def)
qed

text \<open>
  Lemma (Retry_dead_letters_last_attempt): a worker that holds the lease of a job and reports a failure is always accepted; the flag it
  gets back says truthfully whether the attempt was the last one, in which case the job is a dead
  letter that no later claim on any queue can hand out, and otherwise it is pending, due at the time
  asked for, with the failure recorded.
\<close>

theorem Retry_dead_letters_last_attempt:
  assumes inv: "job_invar d"
    and cl: "Claim has_db flt locked now lease queue dur d = (Inr (Some job), d')"
  shows "\<exists>j d''. Retry no_faults now' job a cause d' = (Inr (bj_attempt job = bj_max_attempts job), d'') \<and>
     sql_row (\<lambda>j. jr_uid j = bj_uid job) (background_jobs d'') = Some j \<and>
     jr_last_error j = Some (retry_message cause) \<and> jr_attempts j = bj_attempt job \<and>
     (if bj_attempt job = bj_max_attempts job
      then jr_status j = DeadLettered \<and> (\<forall>t q. \<not> claimable t q j)
      else jr_status j = Pending \<and> jr_available_at j = a \<and> claimable a (bj_queue job) j)"
  using inv cl
proof (cases rule: Claim_SomeE)
  case (1 c)
  let ?row = "lease_row now lease (durationSeconds dur) c"
  let ?m = "retry_message cause"
  have inv': "job_invar d'" using Claim_invar [OF inv, of has_db flt locked now lease queue dur] cl by simp
  have row: "sql_row (\<lambda>j. jr_uid j = bj_uid job) (background_jobs d') = Some ?row"
    and h: "job_holder d' (bj_uid job) = Some (bj_lease_uid job)"
    using 1 Claim_holder [OF inv cl] by (simp_all add: job_handle_def)
  let ?d'' = "snd (release (retry_row now' a ?m) (bj_uid job) (bj_lease_uid job) d')"
  have "fst (release (retry_row now' a ?m) (bj_uid job) (bj_lease_uid job) d')"
    using retrial.finish_iff [OF inv'] h by blast
  then have ret: "Retry no_faults now' job a cause d' = (Inr (bj_max_attempts job \<le> bj_attempt job), ?d'')"
    by (simp add: Retry_release split_beta Let_def)
  have "claimable now queue c" and "bj_attempt job = jr_attempts c + 1" and "bj_max_attempts job = jr_max_attempts c"
    using 1 by (simp_all add: job_handle_def lease_row_def)
  then have att: "bj_max_attempts job \<le> bj_attempt job \<longleftrightarrow> bj_attempt job = bj_max_attempts job"
    by (auto simp: claimable_def)
  have "sql_row (\<lambda>j. jr_uid j = bj_uid job) (background_jobs ?d'') = Some (retry_row now' a ?m ?row)"
    using row 1 by (simp add: release_def sql_row_update_key owned_at_def lease_row_def job_handle_def)
  with ret att 1 show ?thesis
    by (intro exI [of _ "retry_row now' a ?m ?row"] exI [of _ ?d''])
      (auto simp: retry_row_def lease_row_def job_handle_def claimable_def)
qed

theorem Retry_dead_letters_last_attempt_witness:
  "\<exists>d''. Retry no_faults 9 demo_handle 10 (Some ''boom'') demo_running = (Inr False, d'')"
  using Retry_dead_letters_last_attempt [OF demo_invar(1) demo_claim, of 9 10 "Some ''boom''"]
  by (auto simp: demo_handle_def demo_claimed_def demo_job_def new_job_def job_handle_def lease_row_def)

text \<open>
  Lemma (Replay_only_dead_letters): with the database up, a replay with a well-formed actor and reason succeeds exactly for a
  dead-lettered job; it then makes the job claimable from the first attempt and appends exactly one
  operator action naming the operator, the reason and the job. Every refused or failed replay, under
  any pattern of database failures, leaves both tables as they are.
\<close>

theorem Replay_only_dead_letters:
  assumes "job_invar d" and "rp_job_uid rp \<noteq> uuid_Nil"
    and "rp_actor rp \<noteq> ''''" "length (rp_actor rp) \<le> 200" "TrimSpace (rp_actor rp) = rp_actor rp"
    and "10 \<le> length (rp_reason rp)" "length (rp_reason rp) \<le> 1000" "TrimSpace (rp_reason rp) = rp_reason rp"
    and fresh: "auid \<notin> set (map oa_uid (platform_operator_actions d))"
  shows "(\<forall>flt e d'. Replay True flt now auid rp d = (Inl e, d') \<longrightarrow> d' = d) \<and>
    (case sql_row (\<lambda>j. jr_uid j = rp_job_uid rp) (background_jobs d) of
       None \<Rightarrow> Replay True no_faults now auid rp d = (Inl ErrBackgroundJobNotFound, d)
     | Some j \<Rightarrow>
         if jr_status j \<noteq> DeadLettered
         then Replay True no_faults now auid rp d = (Inl ErrBackgroundJobNotDeadLettered, d)
         else (\<exists>d' j' act. Replay True no_faults now auid rp d = (Inr (), d') \<and>
           sql_row (\<lambda>j. jr_uid j = rp_job_uid rp) (background_jobs d') = Some j' \<and>
           jr_attempts j' = 0 \<and> claimable now (jr_queue j) j' \<and>
           platform_operator_actions d' = platform_operator_actions d @ [act] \<and>
           oa_uid act = auid \<and> oa_actor act = rp_actor rp \<and> oa_reason act = rp_reason rp \<and>
           oa_target_uid act = rp_job_uid rp))"
proof (cases "sql_row (\<lambda>j. jr_uid j = rp_job_uid rp) (background_jobs d)")
  case None
  with assms show ?thesis by (auto simp: Replay_def Let_def split: if_splits)
next
  case (Some j)
  have "j \<in> set (background_jobs d)" "jr_uid j = rp_job_uid rp" using Some by (auto dest: sql_row_SomeD)
  then have "1 \<le> jr_max_attempts j" using assms(1) by (auto simp: job_invar_def list_all_iff job_row_ok_def)
  then have cl: "claimable now (jr_queue j) (replay_row now j)" "jr_attempts (replay_row now j) = 0"
    by (simp_all add: claimable_def replay_row_def)
  have row': "sql_row (\<lambda>j. jr_uid j = rp_job_uid rp)
      (sql_update (\<lambda>j. jr_uid j = rp_job_uid rp) (replay_row now) (background_jobs d)) = Some (replay_row now j)"
    using Some \<open>jr_uid j = rp_job_uid rp\<close> by (simp add: sql_row_update_key)
  have err: "\<forall>flt e d'. Replay True flt now auid rp d = (Inl e, d') \<longrightarrow> d' = d"
    using Some by (auto simp: Replay_def Let_def split: if_splits)
  show ?thesis
  proof (cases "jr_status j = DeadLettered")
    case True
    with Some assms row' cl err show ?thesis by (auto simp: Replay_def Let_def)
  next
    case False
    with Some assms err show ?thesis by (auto simp: Replay_def Let_def)
  qed
qed

definition demo_dead :: job_db where
  "demo_dead = \<lparr>background_jobs = [demo_job\<lparr>jr_status := DeadLettered, jr_attempts := 2, jr_dead_lettered_at := Some 3\<rparr>],
     platform_operator_actions = []\<rparr>"

definition demo_replay :: BackgroundJobReplay where
  "demo_replay = \<lparr>rp_job_uid = jr_uid demo_job, rp_actor = ''oncall'', rp_reason = ''INC-42 fixed''\<rparr>"

theorem Replay_only_dead_letters_witness:
  "\<exists>d'. Replay True no_faults 9 ''a1'' demo_replay demo_dead = (Inr (), d')"
proof -
  have inv: "job_invar demo_dead"
    by (simp add: job_invar_def demo_dead_def demo_job_def new_job_def dedup_keys_def job_row_ok_def state_check_def)
  have trim: "TrimSpace ''oncall'' = ''oncall''" "TrimSpace ''INC-42 fixed'' = ''INC-42 fixed''"
    by (rule TrimSpace_visible; simp add: visible_c_def)+
  show ?thesis
    using Replay_only_dead_letters [OF inv, of demo_replay "''a1''" 9]
    by (simp add: demo_replay_def demo_dead_def demo_job_def new_job_def uuid_Nil_def trim) blast
qed

subsection \<open>The attempt budget of a recurring job\<close>

lemma Retry_okE:
  assumes "Retry no_faults now job a cause d = (Inr b, d')"
  shows "background_jobs d' = sql_update (owned_by job) (retry_row now a (retry_message cause)) (background_jobs d)"
    and "b = (bj_max_attempts job \<le> bj_attempt job)"
  using assms by (auto simp: Retry_def Let_def split: if_splits)

lemma Reschedule_okE:
  assumes "Reschedule no_faults now job a d = (Inr (), d')"
  shows "background_jobs d' = sql_update (owned_by job) (reschedule_row now a) (background_jobs d)"
  using assms by (auto simp: Reschedule_def Let_def split: if_splits)

text \<open>
  Lemma (recurring_job_loses_budget): a recurring job that fails once and then succeeds has lost that attempt for good: after
  claim, retry, claim, reschedule it is pending again with one attempt more than before. The
  maintenance job, which is never completed and only rescheduled, therefore becomes a dead letter
  once its failures over its whole lifetime reach \<open>max_attempts\<close>.
\<close>

theorem recurring_job_loses_budget:
  assumes inv: "job_invar d"
    and c1: "Claim h1 f1 l1 t1 lease1 q1 dur1 d = (Inr (Some job), d1)"
    and r1: "Retry no_faults t2 job a cause d1 = (Inr False, d2)"
    and c2: "Claim h2 f2 l2 t3 lease2 q2 dur2 d2 = (Inr (Some job2), d3)"
    and same: "bj_uid job2 = bj_uid job"
    and r2: "Reschedule no_faults t4 job2 b d3 = (Inr (), d4)"
  shows "\<exists>j j'. sql_row (\<lambda>j. jr_uid j = bj_uid job) (background_jobs d) = Some j \<and>
     sql_row (\<lambda>j. jr_uid j = bj_uid job) (background_jobs d4) = Some j' \<and>
     jr_status j' = Pending \<and> jr_attempts j' = jr_attempts j + 1"
proof -
  let ?row = "\<lambda>d. sql_row (\<lambda>j. jr_uid j = bj_uid job) (background_jobs d)"
  have inv1: "job_invar d1" using Claim_invar [OF inv, of h1 f1 l1 t1 lease1 q1 dur1] c1 by simp
  have inv2: "job_invar d2" using Retry_invar [OF inv1, of no_faults t2 job a cause] r1 by simp
  from inv c1 obtain c where c: "?row d = Some c" "?row d1 = Some (lease_row t1 lease1 (durationSeconds dur1) c)"
    "0 \<le> jr_attempts c" "jr_uid c = bj_uid job" "bj_lease_uid job = lease1"
  proof (cases rule: Claim_SomeE)
    case (1 c)
    have "c \<in> set (background_jobs d)" using 1(1) by (auto dest: sql_row_SomeD)
    then have "0 \<le> jr_attempts c" using inv by (auto simp: job_invar_def list_all_iff job_row_ok_def)
    with 1 show thesis by (intro that [of c]) (simp_all add: job_handle_def)
  qed
  from Retry_okE [OF r1] c have "?row d2 = Some (retry_row t2 a (retry_message cause) (lease_row t1 lease1 (durationSeconds dur1) c))"
    by (simp add: sql_row_update_key owned_by_def lease_row_def)
  then obtain j2 where j2: "?row d2 = Some j2" "jr_attempts j2 = jr_attempts c + 1"
    by (simp add: retry_row_def lease_row_def)
  from inv2 c2 have "?row d3 = Some (lease_row t3 lease2 (durationSeconds dur2) j2)" "bj_lease_uid job2 = lease2"
    using j2(1) same by (cases rule: Claim_SomeE; auto simp: job_handle_def)+
  with Reschedule_okE [OF r2] same j2 have
    "?row d4 = Some (reschedule_row t4 b (lease_row t3 lease2 (durationSeconds dur2) j2))"
    by (auto simp: sql_row_update_key owned_by_def lease_row_def dest: sql_row_SomeD)
  with c j2 show ?thesis by (auto simp: reschedule_row_def lease_row_def)
qed

definition demo_lease2 :: uid where
  "demo_lease2 = ''33333333-3333-4333-8333-333333333333''"

definition demo_retried :: job_db where
  "demo_retried = snd (Retry no_faults 9 demo_handle 10 (Some ''boom'') demo_running)"

lemma demo_retried_eq:
  "demo_retried = \<lparr>background_jobs = [demo_claimed\<lparr>jr_status := Pending, jr_available_at := 10,
      jr_lease_uid := None, jr_lease_expires_at := None, jr_last_error := Some ''boom'', jr_updated_at := 9\<rparr>],
    platform_operator_actions = []\<rparr>"
proof -
  have "TrimSpace ''boom'' = ''boom''" by (rule TrimSpace_visible) (simp_all add: visible_c_def)
  then have "retry_message (Some ''boom'') = ''boom''" by (simp add: retry_message_def)
  then show ?thesis
    by (simp add: demo_retried_def Retry_def Let_def owned_by_def demo_running_def demo_claimed_def
        demo_handle_def job_handle_def lease_row_def retry_row_def demo_job_def new_job_def)
qed

theorem recurring_job_loses_budget_witness:
  "\<exists>job2 d3 d4. Claim True no_faults (\<lambda>_. False) 11 demo_lease2 ''retention'' (30 * Second) demo_retried = (Inr (Some job2), d3) \<and>
     Reschedule no_faults 12 job2 100 d3 = (Inr (), d4) \<and>
     (\<exists>j'. sql_row (\<lambda>j. jr_uid j = jr_uid demo_job) (background_jobs d4) = Some j' \<and> jr_attempts j' = 1)"
proof -
  have r1: "Retry no_faults 9 demo_handle 10 (Some ''boom'') demo_running = (Inr False, demo_retried)"
    by (simp add: demo_retried_def Retry_def Let_def owned_by_def demo_running_def demo_claimed_def
        demo_handle_def job_handle_def lease_row_def demo_job_def new_job_def)
  define row3 where "row3 = lease_row 11 demo_lease2 30 (hd (background_jobs demo_retried))"
  define job2 where "job2 = job_handle demo_lease2 (11 + 30 * Second) row3"
  define d3 where "d3 = \<lparr>background_jobs = [row3], platform_operator_actions = []\<rparr>"
  have c2: "Claim True no_faults (\<lambda>_. False) 11 demo_lease2 ''retention'' (30 * Second) demo_retried = (Inr (Some job2), d3)"
    by (simp add: Claim_def demo_queue demo_duration demo_retried_eq demo_claimed_def demo_job_def new_job_def
        lease_exhausted_def claimable_def sql_select_def lease_row_def job_handle_def Let_def not_le
        job2_def d3_def row3_def)
  have uid: "bj_uid job2 = bj_uid demo_handle" "bj_uid demo_handle = jr_uid demo_job"
    by (simp_all add: job2_def row3_def demo_retried_eq job_handle_def demo_handle_def demo_claimed_def)
  obtain d4 where r2: "Reschedule no_faults 12 job2 100 d3 = (Inr (), d4)"
    by (simp add: Reschedule_def Let_def d3_def owned_by_def job2_def job_handle_def row3_def lease_row_def)
  from recurring_job_loses_budget [OF demo_invar(1) demo_claim r1 c2 uid(1) r2] c2 r2 uid show ?thesis
    by (auto simp: demo_db_def demo_job_def new_job_def)
qed

text \<open>
  Lemma (List_jobs_bounded): an operator listing is bounded by 500 rows, shows only rows of the table with the status asked
  for, newest first, and is a function of the rows without their payloads.
\<close>

theorem List_jobs_bounded:
  assumes "List_jobs has_db flt status limit d = Inr items"
  shows "length items \<le> 500 \<and> (limit \<noteq> 0 \<longrightarrow> int (length items) \<le> limit) \<and>
    set items \<subseteq> job_summary ` {j \<in> set (background_jobs d). status = '''' \<or> status_text (jr_status j) = status} \<and>
    sorted (rev (map (\<lambda>i. (sm_updated_at i, sm_uid i)) items)) \<and>
    List_jobs has_db flt status limit (d\<lparr>background_jobs := map (\<lambda>j. j\<lparr>jr_payload := p\<rparr>) (background_jobs d)\<rparr>) = Inr items"
proof -
  let ?k = "\<lambda>j. (jr_updated_at j, jr_uid j)"
  let ?q = "\<lambda>j. status = '''' \<or> status_text (jr_status j) = status"
  let ?n = "nat (if limit = 0 then 100 else limit)"
  let ?s = "sort_key ?k (filter ?q (background_jobs d))"
  have items: "items = map job_summary (take ?n (rev ?s))" and n: "?n \<le> 500"
    and lim: "limit \<noteq> 0 \<longrightarrow> 0 \<le> limit"
    using assms by (auto simp: List_jobs_def Let_def split: if_splits)
  have len: "length items \<le> ?n" by (simp add: items)
  have keys: "map (\<lambda>i. (sm_updated_at i, sm_uid i)) items = take ?n (rev (map ?k ?s))"
    by (simp add: items job_summary_def take_map rev_map comp_def)
  have "sorted (map ?k ?s)" by simp
  then have srt: "sorted (rev (take ?n (rev (map ?k ?s))))" by (simp add: rev_take sorted_wrt_drop)
  let ?g = "\<lambda>j. j\<lparr>jr_payload := p\<rparr>"
  have ins: "insort_key ?k (?g x) (map ?g xs) = map ?g (insort_key ?k x xs)" for x xs
    by (induction xs) auto
  have srt_map: "sort_key ?k (map ?g xs) = map ?g (sort_key ?k xs)" for xs
    by (induction xs) (simp_all add: ins)
  have "map job_summary (take ?n (rev (sort_key ?k (filter ?q (map ?g (background_jobs d)))))) = items"
    by (simp add: filter_map comp_def srt_map rev_map take_map items job_summary_def)
  then have pay: "List_jobs has_db flt status limit (d\<lparr>background_jobs := map ?g (background_jobs d)\<rparr>) = Inr items"
    using assms by (auto simp: List_jobs_def Let_def split: if_splits)
  have "set items \<subseteq> job_summary ` set (rev ?s)" unfolding items set_map by (intro image_mono set_take_subset)
  then have sub: "set items \<subseteq> job_summary ` {j \<in> set (background_jobs d). ?q j}" by simp
  have "length items \<le> 500" using len n by simp
  moreover have "limit \<noteq> 0 \<longrightarrow> int (length items) \<le> limit" using len lim by auto
  ultimately show ?thesis using sub srt pay unfolding keys by blast
qed

theorem List_jobs_bounded_witness:
  "List_jobs True no_faults ''pending'' 1 demo_db = Inr [job_summary demo_job] \<and> length [job_summary demo_job] \<le> 500"
proof -
  have l: "List_jobs True no_faults ''pending'' 1 demo_db = Inr [job_summary demo_job]"
    by (simp add: List_jobs_def demo_db_def demo_job_def new_job_def)
  from List_jobs_bounded [OF l] l show ?thesis by blast
qed

end
