(* ===== verification/Idempotency.thy ===== *)
theory Idempotency
  imports Store_Common
begin

text \<open>
  The idempotency store, \<^verbatim>\<open>internal/store/idempotency.go\<close>: request validation, \<open>Begin\<close>,
  \<open>Complete\<close>, \<open>CompleteTx\<close> and \<open>DeleteExpired\<close> over the rows of \<^verbatim>\<open>idempotency_records\<close>, the table's
  constraint as an invariant, the lease contract, and the protocol a retrying client observes.
  The JSON encoding of the response headers is a parameter of the operations that use it.
\<close>

section \<open>Data\<close>

type_synonym headers = "(string \<times> string list) list"

text \<open>\<open>json.Marshal\<close> and \<open>json.Unmarshal\<close> of a header map; \<open>None\<close> is their error.\<close>

record header_codec =
  marshal_headers :: "headers \<Rightarrow> string option"
  unmarshal_headers :: "string \<Rightarrow> headers option"

datatype idem_state = Processing | Done

text \<open>The primary key: principal type, principal UID, operation, key.\<close>

type_synonym idem_key = "string \<times> string \<times> string \<times> string"

record idem_row =
  ir_key :: idem_key
  ir_request_hash :: "byte list"
  ir_state :: idem_state
  ir_lease_uid :: uid
  ir_lease_expires_at :: time
  ir_response_status :: "int option"
  ir_response_headers :: "string option"
  ir_response_body :: "string option"
  ir_created_at :: time
  ir_completed_at :: "time option"
  ir_expires_at :: time

record IdempotencyRequest =
  rq_PrincipalType :: string
  rq_PrincipalUID :: string
  rq_Operation :: string
  rq_Key :: string
  rq_RequestHash :: "byte list"
  rq_LeaseDuration :: duration
  rq_Retention :: duration

text \<open>\<open>StoredHTTPResponse\<close>; a nil header map or body is \<open>None\<close>.\<close>

record StoredHTTPResponse =
  sr_Status :: int
  sr_Headers :: "headers option"
  sr_Body :: "string option"

record IdempotencyClaim =
  cl_LeaseUID :: uid
  cl_RetryAfter :: duration
  cl_Replay :: "StoredHTTPResponse option"

definition empty_claim :: IdempotencyClaim where
  "empty_claim = \<lparr>cl_LeaseUID = uuid_Nil, cl_RetryAfter = 0, cl_Replay = None\<rparr>"

definition request_key :: "IdempotencyRequest \<Rightarrow> idem_key" where
  "request_key r = (rq_PrincipalType r, rq_PrincipalUID r, rq_Operation r, rq_Key r)"

section \<open>Operations\<close>

definition idempotencyPrincipalType :: "string \<Rightarrow> bool" where
  "idempotencyPrincipalType =
     head_tail_match is_lower_c (\<lambda>c. is_lower_c c \<or> is_digit_c c \<or> c = CHR ''_'') 62"

definition idempotencyOperation :: "string \<Rightarrow> bool" where
  "idempotencyOperation =
     head_tail_match is_lower_c (\<lambda>c. is_lower_c c \<or> is_digit_c c \<or> c = CHR ''_'' \<or> c = CHR ''.'') 127"

definition validateIdempotencyRequest :: "IdempotencyRequest \<Rightarrow> store_error option" where
  "validateIdempotencyRequest r =
     (if \<not> idempotencyPrincipalType (rq_PrincipalType r)
      then Some (StoreInvalid ''invalid idempotency principal type'')
      else if length (rq_PrincipalUID r) < 1 \<or> length (rq_PrincipalUID r) > 255 \<or>
              TrimSpace (rq_PrincipalUID r) \<noteq> rq_PrincipalUID r
      then Some (StoreInvalid ''invalid idempotency principal UID'')
      else if \<not> idempotencyOperation (rq_Operation r)
      then Some (StoreInvalid ''invalid idempotency operation'')
      else if length (rq_Key r) < 1 \<or> length (rq_Key r) > 255 \<or> TrimSpace (rq_Key r) \<noteq> rq_Key r \<or>
              ContainsControl (rq_Key r)
      then Some (StoreInvalid ''invalid idempotency key'')
      else if rq_LeaseDuration r \<le> 0 \<or> rq_LeaseDuration r > 10 * Minute
      then Some (StoreInvalid ''idempotency lease duration must be between 1ns and 10m'')
      else if rq_Retention r \<le> rq_LeaseDuration r \<or> rq_Retention r > 30 * 24 * Hour
      then Some (StoreInvalid ''idempotency retention must exceed the lease and be at most 30 days'')
      else None)"

definition claim_row :: "time \<Rightarrow> uid \<Rightarrow> IdempotencyRequest \<Rightarrow> idem_row" where
  "claim_row now lease r =
     \<lparr>ir_key = request_key r, ir_request_hash = rq_RequestHash r, ir_state = Processing,
      ir_lease_uid = lease, ir_lease_expires_at = now + durationSeconds (rq_LeaseDuration r) * Second,
      ir_response_status = None, ir_response_headers = None, ir_response_body = None,
      ir_created_at = now, ir_completed_at = None,
      ir_expires_at = now + durationSeconds (rq_Retention r) * Second\<rparr>"

definition reclaim_row :: "time \<Rightarrow> uid \<Rightarrow> IdempotencyRequest \<Rightarrow> idem_row \<Rightarrow> idem_row" where
  "reclaim_row now lease r row = row\<lparr>ir_request_hash := rq_RequestHash r, ir_state := Processing,
      ir_lease_uid := lease, ir_lease_expires_at := now + durationSeconds (rq_LeaseDuration r) * Second,
      ir_response_status := None, ir_response_headers := None, ir_response_body := None,
      ir_created_at := now, ir_completed_at := None,
      ir_expires_at := now + durationSeconds (rq_Retention r) * Second\<rparr>"

definition Begin ::
  "header_codec \<Rightarrow> faults \<Rightarrow> time \<Rightarrow> uid \<Rightarrow> IdempotencyRequest \<Rightarrow> idem_row list \<Rightarrow>
   (store_error + IdempotencyClaim) \<times> idem_row list" where
  "Begin codec flt now leaseUID r t =
     (case validateIdempotencyRequest r of
        Some e \<Rightarrow> (Inl e, t)
      | None \<Rightarrow>
      if flt ''begin idempotency claim'' then (Inl (StoreDb ''begin idempotency claim''), t)
      else if flt ''insert idempotency claim'' then (Inl (StoreDb ''insert idempotency claim''), t)
      else if request_key r \<notin> set (map ir_key t) then
        (if flt ''commit idempotency claim'' then (Inl (StoreDb ''commit idempotency claim''), t)
         else (Inr (empty_claim\<lparr>cl_LeaseUID := leaseUID\<rparr>), t @ [claim_row now leaseUID r]))
      else if flt ''read idempotency claim'' then (Inl (StoreDb ''read idempotency claim''), t)
      else (case sql_row (\<lambda>row. ir_key row = request_key r) t of
        None \<Rightarrow> (Inl (StoreDb ''read idempotency claim''), t)
      | Some row \<Rightarrow>
          if now < ir_expires_at row \<and> \<not> equalDigest (ir_request_hash row) (rq_RequestHash r)
          then (Inl ErrIdempotencyConflict, t)
          else if \<not> now < ir_expires_at row \<or>
                  (ir_state row = Processing \<and> \<not> now < ir_lease_expires_at row) then
            (if flt ''reclaim idempotency lease'' then (Inl (StoreDb ''reclaim idempotency lease''), t)
             else if flt ''commit reclaimed idempotency lease''
             then (Inl (StoreDb ''commit reclaimed idempotency lease''), t)
             else (Inr (empty_claim\<lparr>cl_LeaseUID := leaseUID\<rparr>),
                   sql_update (\<lambda>row. ir_key row = request_key r) (reclaim_row now leaseUID r) t))
          else if ir_state row = Done then
            (case (ir_response_status row, ir_response_headers row, ir_response_body row) of
               (Some status, Some headersJSON, Some body) \<Rightarrow>
                 (case unmarshal_headers codec headersJSON of
                    None \<Rightarrow> (Inl (StoreInvalid ''decode idempotent response headers''), t)
                  | Some hs \<Rightarrow>
                      if flt ''commit idempotent replay''
                      then (Inl (StoreDb ''commit idempotent replay''), t)
                      else (Inr (empty_claim\<lparr>cl_Replay := Some \<lparr>sr_Status = status,
                              sr_Headers = Some hs, sr_Body = Some body\<rparr>\<rparr>), t))
             | _ \<Rightarrow> (Inl (StoreInvalid ''completed idempotency record has no stored response''), t))
          else if flt ''commit idempotency contention check''
          then (Inl (StoreDb ''commit idempotency contention check''), t)
          else (Inr (empty_claim\<lparr>cl_RetryAfter := ir_lease_expires_at row - now\<rparr>), t)))"

definition completes :: "idem_key \<Rightarrow> uid \<Rightarrow> idem_row \<Rightarrow> bool" where
  "completes k lease row \<longleftrightarrow> ir_key row = k \<and> ir_lease_uid row = lease \<and> ir_state row = Processing"

definition done_row :: "time \<Rightarrow> int \<Rightarrow> string \<Rightarrow> string \<Rightarrow> idem_row \<Rightarrow> idem_row" where
  "done_row now status headersJSON body row = row\<lparr>ir_state := Done, ir_response_status := Some status,
     ir_response_headers := Some headersJSON, ir_response_body := Some body, ir_completed_at := Some now\<rparr>"

definition completeIdempotency ::
  "faults \<Rightarrow> time \<Rightarrow> IdempotencyRequest \<Rightarrow> uid \<Rightarrow> int \<Rightarrow> string \<Rightarrow> string \<Rightarrow> idem_row list \<Rightarrow>
   (store_error + unit) \<times> idem_row list" where
  "completeIdempotency flt now r leaseUID status headersJSON body t =
     (if flt ''complete idempotency claim'' then (Inl (StoreDb ''complete idempotency claim''), t)
      else let t' = sql_update (completes (request_key r) leaseUID) (done_row now status headersJSON body) t in
      if sql_count (completes (request_key r) leaseUID) t \<noteq> 1 then (Inl ErrIdempotencyLeaseLost, t')
      else (Inr (), t'))"

text \<open>
  \<open>Complete\<close> and \<open>CompleteTx\<close> have the same checks and differ in the connection they execute the
  statement on: the pool, or the caller's transaction.
\<close>

definition Complete_checks :: "header_codec \<Rightarrow> IdempotencyRequest \<Rightarrow> uid \<Rightarrow> StoredHTTPResponse \<Rightarrow>
   store_error + int \<times> string \<times> string" where
  "Complete_checks codec r leaseUID response =
     (case validateIdempotencyRequest r of
        Some e \<Rightarrow> Inl e
      | None \<Rightarrow>
      if leaseUID = uuid_Nil then Inl (StoreInvalid ''idempotency lease UID is required'')
      else if sr_Status response < 100 \<or> sr_Status response > 599
      then Inl (StoreInvalid ''idempotent response status must be between 100 and 599'')
      else let headers = (case sr_Headers response of None \<Rightarrow> [] | Some h \<Rightarrow> h);
               body = (case sr_Body response of None \<Rightarrow> '''' | Some b \<Rightarrow> b) in
      (case marshal_headers codec headers of
         None \<Rightarrow> Inl (StoreInvalid ''encode idempotent response headers'')
       | Some headersJSON \<Rightarrow> Inr (sr_Status response, headersJSON, body)))"

definition Complete_response ::
  "header_codec \<Rightarrow> faults \<Rightarrow> time \<Rightarrow> IdempotencyRequest \<Rightarrow> uid \<Rightarrow> StoredHTTPResponse \<Rightarrow> idem_row list \<Rightarrow>
   (store_error + unit) \<times> idem_row list" where
  "Complete_response codec flt now r leaseUID response t =
     (case Complete_checks codec r leaseUID response of
        Inl e \<Rightarrow> (Inl e, t)
      | Inr (status, headersJSON, body) \<Rightarrow>
          completeIdempotency flt now r leaseUID status headersJSON body t)"

text \<open>
  Inside a caller's transaction the effect on the table is the same; the caller commits it together
  with its own writes or rolls both back.
\<close>

definition CompleteTx ::
  "header_codec \<Rightarrow> faults \<Rightarrow> time \<Rightarrow> IdempotencyRequest \<Rightarrow> uid \<Rightarrow> StoredHTTPResponse \<Rightarrow> idem_row list \<Rightarrow>
   (store_error + unit) \<times> idem_row list" where
  "CompleteTx codec flt now r leaseUID response tx =
     (case Complete_checks codec r leaseUID response of
        Inl e \<Rightarrow> (Inl e, tx)
      | Inr (status, headersJSON, body) \<Rightarrow>
          completeIdempotency flt now r leaseUID status headersJSON body tx)"

definition DeleteExpired_records :: "faults \<Rightarrow> time \<Rightarrow> int \<Rightarrow> idem_row list \<Rightarrow> (store_error + nat) \<times> idem_row list" where
  "DeleteExpired_records flt now limit t =
     (if limit < 1 \<or> limit > 10000
      then (Inl (StoreInvalid ''cleanup limit must be between 1 and 10000''), t)
      else if flt ''delete expired idempotency records''
      then (Inl (StoreDb ''delete expired idempotency records''), t)
      else (case sql_delete_batch ir_key (\<lambda>row. ir_expires_at row \<le> now) ir_expires_at (nat limit) t of
              (n, t') \<Rightarrow> (Inr n, t')))"

section \<open>The table's constraints as an invariant\<close>

definition idem_row_ok :: "idem_row \<Rightarrow> bool" where
  "idem_row_ok row \<longleftrightarrow> length (ir_request_hash row) = digest_size \<and>
     (case ir_state row of
        Processing \<Rightarrow> ir_response_status row = None \<and> ir_response_headers row = None \<and>
          ir_response_body row = None \<and> ir_completed_at row = None
      | Done \<Rightarrow> ir_response_status row \<noteq> None \<and> ir_response_headers row \<noteq> None \<and>
          ir_response_body row \<noteq> None \<and> ir_completed_at row \<noteq> None) \<and>
     ir_lease_expires_at row \<le> ir_expires_at row"

definition idem_invar :: "idem_row list \<Rightarrow> bool" where
  "idem_invar t \<longleftrightarrow> distinct (map ir_key t) \<and> list_all idem_row_ok t"

lemma idem_row_keys [simp]:
  "ir_key (claim_row now l r) = request_key r" "ir_key (reclaim_row now l r row) = ir_key row"
  "ir_key (done_row now s h b row) = ir_key row"
  by (simp_all add: claim_row_def reclaim_row_def done_row_def)

text \<open>A valid request keeps its record at least as long as its lease.\<close>

lemma durationSeconds_mono: "0 < a \<Longrightarrow> a \<le> b \<Longrightarrow> durationSeconds a \<le> durationSeconds b"
proof (rule ccontr)
  assume "0 < a" "a \<le> b" and "\<not> durationSeconds a \<le> durationSeconds b"
  then have "durationSeconds b \<le> durationSeconds a - 1" by simp
  then have "durationSeconds b * Second \<le> (durationSeconds a - 1) * Second"
    by (intro mult_right_mono) simp_all
  with durationSeconds_ceiling(2) [of a] durationSeconds_ceiling(1) [of b] \<open>0 < a\<close> \<open>a \<le> b\<close>
  show False by linarith
qed

lemma valid_request_durations:
  assumes "validateIdempotencyRequest r = None"
  shows "durationSeconds (rq_LeaseDuration r) * Second \<le> durationSeconds (rq_Retention r) * Second"
proof -
  have "0 < rq_LeaseDuration r" and "rq_LeaseDuration r \<le> rq_Retention r"
    using assms by (auto simp: validateIdempotencyRequest_def split: if_splits)
  then show ?thesis by (intro mult_right_mono durationSeconds_mono) simp_all
qed

lemma claimed_row_ok:
  assumes "validateIdempotencyRequest r = None" and "length (rq_RequestHash r) = digest_size"
  shows "idem_row_ok (claim_row now l r)" and "idem_row_ok (reclaim_row now l r row)"
  using valid_request_durations [OF assms(1)] assms(2)
  by (simp_all add: idem_row_ok_def claim_row_def reclaim_row_def)

lemma idem_invar_update:
  assumes "idem_invar t" and "\<And>row. ir_key (f row) = ir_key row"
    and "\<And>row. idem_row_ok row \<Longrightarrow> p row \<Longrightarrow> idem_row_ok (f row)"
  shows "idem_invar (sql_update p f t)"
  using assms by (auto simp: idem_invar_def intro: list_all_sql_update)

lemma Begin_invar:
  assumes "idem_invar t" and "length (rq_RequestHash r) = digest_size"
  shows "idem_invar (snd (Begin codec flt now l r t))"
proof (cases "validateIdempotencyRequest r")
  case None
  have "idem_invar (t @ [claim_row now l r])" if "request_key r \<notin> set (map ir_key t)"
    using assms that claimed_row_ok [OF None assms(2)] by (auto simp: idem_invar_def)
  moreover have "idem_invar (sql_update p (reclaim_row now l r) t)" for p
    using assms claimed_row_ok [OF None assms(2)] by (intro idem_invar_update) auto
  ultimately show ?thesis
    using assms None
    by (auto simp: Begin_def Let_def split: option.splits idem_state.splits)
next
  case (Some e)
  with assms show ?thesis by (simp add: Begin_def)
qed

lemma done_row_ok: "idem_row_ok row \<Longrightarrow> idem_row_ok (done_row now s h b row)"
  by (auto simp: idem_row_ok_def done_row_def)

lemma completeIdempotency_invar:
  "idem_invar t \<Longrightarrow> idem_invar (snd (completeIdempotency flt now r l s h b t))"
  by (auto simp: completeIdempotency_def Let_def intro!: idem_invar_update done_row_ok)

lemma Complete_response_invar: "idem_invar t \<Longrightarrow> idem_invar (snd (Complete_response codec flt now r l resp t))"
  by (auto simp: Complete_response_def completeIdempotency_invar split: sum.splits)

lemma CompleteTx_eq: "CompleteTx = Complete_response"
  by (simp add: fun_eq_iff CompleteTx_def Complete_response_def)

lemma DeleteExpired_records_invar: "idem_invar t \<Longrightarrow> idem_invar (snd (DeleteExpired_records flt now limit t))"
  by (auto simp: DeleteExpired_records_def idem_invar_def split_beta batch_distinct batch_list_all)

section \<open>The lease contract\<close>

definition idem_holder :: "idem_row list \<Rightarrow> idem_key \<Rightarrow> uid option" where
  "idem_holder t k = (case sql_row (\<lambda>row. ir_key row = k) t of
       None \<Rightarrow> None
     | Some row \<Rightarrow> if ir_state row = Processing then Some (ir_lease_uid row) else None)"

definition idem_finish :: "time \<Rightarrow> int \<Rightarrow> string \<Rightarrow> string \<Rightarrow> idem_key \<Rightarrow> uid \<Rightarrow> idem_row list \<Rightarrow> bool \<times> idem_row list" where
  "idem_finish now s h b k l t =
     (sql_count (completes k l) t = 1, sql_update (completes k l) (done_row now s h b) t)"

lemma completes_count:
  assumes "idem_invar t"
  shows "sql_count (completes k l) t = (if idem_holder t k = Some l then 1 else 0)"
  using sql_count_key [of ir_key t k "\<lambda>row. ir_lease_uid row = l \<and> ir_state row = Processing"] assms
  by (auto simp: idem_invar_def completes_def [abs_def] idem_holder_def split: option.splits)

lemma completes_holder:
  "idem_invar t \<Longrightarrow> row \<in> set t \<Longrightarrow> completes k l row \<Longrightarrow> idem_holder t k = Some l"
  using sql_row_key_eq [of ir_key t row k] by (auto simp: idem_invar_def completes_def idem_holder_def)

lemma idem_finish_holder:
  "idem_holder (snd (idem_finish now s h b k l t)) k' =
     (if k' = k \<and> idem_holder t k = Some l then None else idem_holder t k')"
proof (cases "sql_row (\<lambda>row. ir_key row = k') t")
  case None
  then show ?thesis by (simp add: idem_finish_def idem_holder_def sql_row_update_key)
next
  case (Some row)
  then have "ir_key row = k'" by (auto dest: sql_row_SomeD)
  with Some show ?thesis
    by (auto simp: idem_finish_def idem_holder_def completes_def sql_row_update_key done_row_def)
qed

interpretation response_lease: lease_contract idem_invar idem_holder "idem_finish now s h b" for now s h b
proof
  fix t k l k'
  assume inv: "idem_invar t"
  show "fst (idem_finish now s h b k l t) \<longleftrightarrow> idem_holder t k = Some l"
    by (simp add: idem_finish_def completes_count [OF inv])
  show "idem_invar (snd (idem_finish now s h b k l t))"
    using inv by (auto simp: idem_finish_def intro!: idem_invar_update done_row_ok)
  show "snd (idem_finish now s h b k l t) = t" if "idem_holder t k \<noteq> Some l"
  proof -
    have "\<not> completes k l row" if "row \<in> set t" for row
      using completes_holder [OF inv that] \<open>idem_holder t k \<noteq> Some l\<close> by blast
    then show ?thesis by (simp add: idem_finish_def sql_update_id)
  qed
  show "idem_holder t k = Some l \<Longrightarrow> idem_holder (snd (idem_finish now s h b k l t)) k = None"
    and "k' \<noteq> k \<Longrightarrow> idem_holder (snd (idem_finish now s h b k l t)) k' = idem_holder t k'"
    by (simp_all add: idem_finish_holder)
qed

lemma completeIdempotency_finish:
  "completeIdempotency no_faults now r l s h b t =
     (let (ok, t') = idem_finish now s h b (request_key r) l t
      in (if ok then Inr () else Inl ErrIdempotencyLeaseLost, t'))"
  by (simp add: completeIdempotency_def idem_finish_def Let_def)

section \<open>What \<open>Begin\<close> answers\<close>

lemma equalDigest_iff:
  "length stored = digest_size \<Longrightarrow> length expected = digest_size \<Longrightarrow>
   equalDigest stored expected \<longleftrightarrow> stored = expected"
  by (simp add: equalDigest_def digest_difference_0_iff)

lemma Begin_new:
  "validateIdempotencyRequest r = None \<Longrightarrow> sql_row (\<lambda>row. ir_key row = request_key r) t = None \<Longrightarrow>
   Begin codec no_faults now l r t = (Inr (empty_claim\<lparr>cl_LeaseUID := l\<rparr>), t @ [claim_row now l r])"
  by (auto simp: Begin_def sql_row_None_iff image_iff)

lemma Begin_existing:
  assumes "validateIdempotencyRequest r = None" and "sql_row (\<lambda>row. ir_key row = request_key r) t = Some row"
  shows "Begin codec no_faults now l r t =
    (if now < ir_expires_at row \<and> \<not> equalDigest (ir_request_hash row) (rq_RequestHash r)
     then (Inl ErrIdempotencyConflict, t)
     else if \<not> now < ir_expires_at row \<or> (ir_state row = Processing \<and> \<not> now < ir_lease_expires_at row)
     then (Inr (empty_claim\<lparr>cl_LeaseUID := l\<rparr>), sql_update (\<lambda>row. ir_key row = request_key r) (reclaim_row now l r) t)
     else if ir_state row = Done then
       (case (ir_response_status row, ir_response_headers row, ir_response_body row) of
          (Some status, Some hj, Some body) \<Rightarrow>
            (case unmarshal_headers codec hj of
               None \<Rightarrow> (Inl (StoreInvalid ''decode idempotent response headers''), t)
             | Some hs \<Rightarrow> (Inr (empty_claim\<lparr>cl_Replay := Some \<lparr>sr_Status = status, sr_Headers = Some hs, sr_Body = Some body\<rparr>\<rparr>), t))
        | _ \<Rightarrow> (Inl (StoreInvalid ''completed idempotency record has no stored response''), t))
     else (Inr (empty_claim\<lparr>cl_RetryAfter := ir_lease_expires_at row - now\<rparr>), t))"
proof -
  have "request_key r \<in> set (map ir_key t)" using sql_row_SomeD [OF assms(2)] by force
  with assms show ?thesis
    by (cases "ir_response_status row"; cases "ir_response_headers row"; cases "ir_response_body row")
      (auto simp: Begin_def split: option.split)
qed

text \<open>A successful claim leaves the caller's row, whatever was there before.\<close>

lemma Begin_claimedE:
  assumes inv: "idem_invar t" and b: "Begin codec flt now l r t = (Inr cl, t')" and l: "l \<noteq> uuid_Nil"
    and got: "cl_LeaseUID cl = l"
  shows "validateIdempotencyRequest r = None" and "cl = empty_claim\<lparr>cl_LeaseUID := l\<rparr>"
    and "sql_row (\<lambda>row. ir_key row = request_key r) t' = Some (claim_row now l r)"
    and "\<And>k. k \<noteq> request_key r \<Longrightarrow> sql_row (\<lambda>row. ir_key row = k) t' = sql_row (\<lambda>row. ir_key row = k) t"
proof -
  show v: "validateIdempotencyRequest r = None" using b by (auto simp: Begin_def split: option.splits)
  have nil: "cl_LeaseUID empty_claim = uuid_Nil" by (simp add: empty_claim_def)
  have t': "(sql_row (\<lambda>row. ir_key row = request_key r) t = None \<and> t' = t @ [claim_row now l r]) \<or>
     (\<exists>row. sql_row (\<lambda>row. ir_key row = request_key r) t = Some row \<and>
        t' = sql_update (\<lambda>row. ir_key row = request_key r) (reclaim_row now l r) t)"
    and cl: "cl = empty_claim\<lparr>cl_LeaseUID := l\<rparr>"
    using b l got nil v
    by (auto simp: Begin_def sql_row_None_iff image_iff split: if_splits option.splits idem_state.splits)
  from cl show "cl = empty_claim\<lparr>cl_LeaseUID := l\<rparr>" .
  have rec: "reclaim_row now l r row = claim_row now l r" if "ir_key row = request_key r" for row
    using that by (simp add: reclaim_row_def claim_row_def)
  show "sql_row (\<lambda>row. ir_key row = request_key r) t' = Some (claim_row now l r)"
    using t' rec by (auto simp: sql_row_append sql_row_update_key dest: sql_row_SomeD)
  show "sql_row (\<lambda>row. ir_key row = k) t' = sql_row (\<lambda>row. ir_key row = k) t" if "k \<noteq> request_key r" for k
    using t' that
    by (cases "sql_row (\<lambda>row. ir_key row = k) t")
      (auto simp: sql_row_append sql_row_update_key dest: sql_row_SomeD)
qed

lemma Complete_checks_okE:
  assumes "Complete_checks codec r l resp = Inr (status, hj, body)"
  shows "status = sr_Status resp" and "body = (case sr_Body resp of None \<Rightarrow> [] | Some b \<Rightarrow> b)"
    and "marshal_headers codec (case sr_Headers resp of None \<Rightarrow> [] | Some h \<Rightarrow> h) = Some hj"
    and "validateIdempotencyRequest r = None" and "l \<noteq> uuid_Nil"
proof -
  define H where "H = (case sr_Headers resp of None \<Rightarrow> [] | Some h \<Rightarrow> h)"
  define B where "B = (case sr_Body resp of None \<Rightarrow> [] | Some b \<Rightarrow> b)"
  have c: "Complete_checks codec r l resp =
    (case validateIdempotencyRequest r of Some e \<Rightarrow> Inl e | None \<Rightarrow>
      if l = uuid_Nil then Inl (StoreInvalid ''idempotency lease UID is required'')
      else if sr_Status resp < 100 \<or> sr_Status resp > 599
      then Inl (StoreInvalid ''idempotent response status must be between 100 and 599'')
      else (case marshal_headers codec H of
         None \<Rightarrow> Inl (StoreInvalid ''encode idempotent response headers'')
       | Some hj \<Rightarrow> Inr (sr_Status resp, hj, B)))"
    unfolding Complete_checks_def Let_def H_def B_def by (rule refl)
  show "status = sr_Status resp" "body = (case sr_Body resp of None \<Rightarrow> [] | Some b \<Rightarrow> b)"
    "marshal_headers codec (case sr_Headers resp of None \<Rightarrow> [] | Some h \<Rightarrow> h) = Some hj"
    "validateIdempotencyRequest r = None" "l \<noteq> uuid_Nil"
    using assms unfolding c H_def [symmetric] B_def [symmetric]
    by (cases "validateIdempotencyRequest r"; cases "marshal_headers codec H"; simp split: if_split_asm)+
qed

lemma Complete_response_okE:
  assumes inv: "idem_invar t" and c: "Complete_response codec flt now r l resp t = (Inr (), t')"
  obtains hj where "marshal_headers codec (case sr_Headers resp of None \<Rightarrow> [] | Some h \<Rightarrow> h) = Some hj"
    and "t' = sql_update (completes (request_key r) l)
       (done_row now (sr_Status resp) hj (case sr_Body resp of None \<Rightarrow> [] | Some b \<Rightarrow> b)) t"
    and "idem_holder t (request_key r) = Some l"
proof -
  from c obtain status hj body where chk: "Complete_checks codec r l resp = Inr (status, hj, body)"
    and ci: "completeIdempotency flt now r l status hj body t = (Inr (), t')"
    by (cases "Complete_checks codec r l resp") (auto simp: Complete_response_def)
  note vals = Complete_checks_okE [OF chk]
  from ci have t': "t' = sql_update (completes (request_key r) l) (done_row now status hj body) t"
    and cnt: "sql_count (completes (request_key r) l) t = 1"
    by (auto simp: completeIdempotency_def Let_def split: if_splits)
  have h: "idem_holder t (request_key r) = Some l"
    using cnt unfolding completes_count [OF inv] by (metis zero_neq_one)
  show thesis by (rule that [OF vals(3) t' [unfolded vals(1,2)] h])
qed

section \<open>Requests against the store as steps\<close>

text \<open>
  One step is one call at some time by some request; the clock does not matter for the relation
  itself, so a run is the list of the times and tables it goes through.
\<close>

inductive idem_step :: "header_codec \<Rightarrow> time \<Rightarrow> idem_row list \<Rightarrow> idem_row list \<Rightarrow> bool" for codec now where
  begin_request: "length (rq_RequestHash r) = digest_size \<Longrightarrow>
    idem_step codec now t (snd (Begin codec flt now l r t))"
| complete_request: "idem_step codec now t (snd (Complete_response codec flt now r l resp t))"
| cleanup: "idem_step codec now t (snd (DeleteExpired_records flt now limit t))"

inductive idem_run :: "header_codec \<Rightarrow> time \<Rightarrow> idem_row list \<Rightarrow> idem_row list \<Rightarrow> bool" for codec deadline where
  run_nil: "idem_run codec deadline t t"
| run_step: "idem_run codec deadline t t' \<Longrightarrow> now < deadline \<Longrightarrow> idem_step codec now t' t'' \<Longrightarrow>
    idem_run codec deadline t t''"

lemma idem_step_invar: "idem_step codec now t t' \<Longrightarrow> idem_invar t \<Longrightarrow> idem_invar t'"
  by (induction rule: idem_step.induct)
    (auto simp: Begin_invar Complete_response_invar DeleteExpired_records_invar)

lemma idem_run_invar: "idem_run codec deadline t t' \<Longrightarrow> idem_invar t \<Longrightarrow> idem_invar t'"
  by (induction rule: idem_run.induct) (auto dest: idem_step_invar)

text \<open>A finished, unexpired record is not touched by any call.\<close>

lemma Begin_keeps_done:
  assumes row: "sql_row (\<lambda>row. ir_key row = k) t = Some row" and "ir_state row = Done" and "now < ir_expires_at row"
  shows "sql_row (\<lambda>row. ir_key row = k) (snd (Begin codec flt now l r t)) = Some row"
proof (cases "request_key r = k")
  case True
  have "request_key r \<in> set (map ir_key t)" using sql_row_SomeD [OF row] True by force
  with True assms show ?thesis by (auto simp: Begin_def split: option.splits)
next
  case False
  have "sql_row (\<lambda>row. ir_key row = k) (t @ [claim_row now l r]) = Some row"
    using row by (simp add: sql_row_append)
  moreover have "sql_row (\<lambda>row. ir_key row = k)
      (sql_update (\<lambda>row. ir_key row = request_key r) (reclaim_row now l r) t) = Some row"
    using row False sql_row_SomeD [OF row] by (simp add: sql_row_update_key)
  ultimately show ?thesis
    using row by (auto simp: Begin_def split: option.splits idem_state.splits)
qed

lemma completeIdempotency_keeps_done:
  assumes "sql_row (\<lambda>row. ir_key row = k) t = Some row" and "ir_state row = Done"
  shows "sql_row (\<lambda>row. ir_key row = k) (snd (completeIdempotency flt now r l s h b t)) = Some row"
  using assms by (auto simp: completeIdempotency_def Let_def sql_row_update_key completes_def)

lemma Complete_response_keeps_done:
  assumes "sql_row (\<lambda>row. ir_key row = k) t = Some row" and "ir_state row = Done"
  shows "sql_row (\<lambda>row. ir_key row = k) (snd (Complete_response codec flt now r l resp t)) = Some row"
  using assms completeIdempotency_keeps_done [OF assms]
  by (cases "Complete_checks codec r l resp") (auto simp: Complete_response_def)

lemma DeleteExpired_keeps_unexpired:
  assumes inv: "idem_invar t" and row: "sql_row (\<lambda>row. ir_key row = k) t = Some row" and live: "now < ir_expires_at row"
  shows "sql_row (\<lambda>row. ir_key row = k) (snd (DeleteExpired_records flt now limit t)) = Some row"
proof -
  have "sql_row (\<lambda>row. ir_key row = k)
      (snd (sql_delete_batch ir_key (\<lambda>row. ir_expires_at row \<le> now) ir_expires_at (nat limit) t)) = Some row"
    using inv row live by (intro batch_keeps_row) (auto simp: idem_invar_def)
  then show ?thesis using row by (auto simp: DeleteExpired_records_def split_beta)
qed

lemma idem_step_keeps_done:
  assumes "idem_step codec now t t'" and "idem_invar t"
    and "sql_row (\<lambda>row. ir_key row = k) t = Some row" and "ir_state row = Done" and "now < ir_expires_at row"
  shows "sql_row (\<lambda>row. ir_key row = k) t' = Some row"
  using assms
  by (induction rule: idem_step.induct)
    (auto simp: Begin_keeps_done Complete_response_keeps_done DeleteExpired_keeps_unexpired)

lemma idem_run_keeps_done:
  assumes "idem_run codec deadline t t'" and "idem_invar t"
    and "sql_row (\<lambda>row. ir_key row = k) t = Some row" and "ir_state row = Done" and "deadline \<le> ir_expires_at row"
  shows "sql_row (\<lambda>row. ir_key row = k) t' = Some row"
  using assms
proof (induction rule: idem_run.induct)
  case (run_step t t' now t'')
  then have "idem_invar t'" by (blast intro: idem_run_invar)
  with run_step show ?case by (intro idem_step_keeps_done [OF run_step.hyps(3)]) auto
qed simp

section \<open>Properties\<close>

definition demo_codec :: header_codec where
  "demo_codec = \<lparr>marshal_headers = (\<lambda>h. if h = [] then Some ''{}'' else None),
     unmarshal_headers = (\<lambda>j. if j = ''{}'' then Some [] else None)\<rparr>"

definition demo_request :: IdempotencyRequest where
  "demo_request = \<lparr>rq_PrincipalType = ''tenant_member'', rq_PrincipalUID = ''m1'', rq_Operation = ''projects.create'',
     rq_Key = ''k1'', rq_RequestHash = replicate 32 7, rq_LeaseDuration = 30 * Second, rq_Retention = 24 * Hour\<rparr>"

definition demo_response :: StoredHTTPResponse where
  "demo_response = \<lparr>sr_Status = 201, sr_Headers = None, sr_Body = Some ''ok''\<rparr>"

lemma demo_request_valid: "validateIdempotencyRequest demo_request = None"
proof -
  have "TrimSpace ''m1'' = ''m1''" "TrimSpace ''k1'' = ''k1''"
    by (rule TrimSpace_visible; simp add: visible_c_def)+
  moreover have "idempotencyPrincipalType ''tenant_member''" "idempotencyOperation ''projects.create''"
    by (simp_all add: idempotencyPrincipalType_def idempotencyOperation_def head_tail_match_def
        char_class_defs less_eq_char_def)
  ultimately show ?thesis
    by (simp add: validateIdempotencyRequest_def demo_request_def time_defs)
qed

lemma demo_hash: "length (rq_RequestHash demo_request) = digest_size"
  by (simp add: demo_request_def digest_size_def)

lemma demo_begin:
  "Begin demo_codec no_faults 0 ''l1'' demo_request [] = (Inr (empty_claim\<lparr>cl_LeaseUID := ''l1''\<rparr>), [claim_row 0 ''l1'' demo_request])"
  using Begin_new [OF demo_request_valid, of "[]"] by simp

lemma demo_empty_invar: "idem_invar []"
  by (simp add: idem_invar_def)

lemma demo_complete:
  "Complete_response demo_codec no_faults 5 demo_request ''l1'' demo_response [claim_row 0 ''l1'' demo_request] =
   (Inr (), [done_row 5 201 ''{}'' ''ok'' (claim_row 0 ''l1'' demo_request)])"
  by (simp add: Complete_response_def Complete_checks_def demo_request_valid uuid_Nil_def demo_response_def
      demo_codec_def completeIdempotency_def completes_def claim_row_def)

text \<open>
  C30 (response_replayed_exactly): once the holder of a lease has stored its response, every later request with the same
  scope, key and request hash gets exactly that response, status, headers and body, for as long as
  the record is retained, whatever other requests, completions and cleanups happen in between and
  whatever failures they meet; the replay changes nothing. (The JSON codec of the headers is assumed
  to decode what it encoded.)
\<close>

theorem response_replayed_exactly:
  assumes codec: "\<And>h j. marshal_headers codec h = Some j \<Longrightarrow> unmarshal_headers codec j = Some h"
    and inv: "idem_invar t" and hash: "length (rq_RequestHash r) = digest_size"
    and claim: "Begin codec flt now l r t = (Inr cl, t1)" "l \<noteq> uuid_Nil" "cl_LeaseUID cl = l"
    and stored: "Complete_response codec flt' now' r l resp t1 = (Inr (), t2)"
    and run: "idem_run codec (now + durationSeconds (rq_Retention r) * Second) t2 t3"
    and same: "request_key r2 = request_key r" "rq_RequestHash r2 = rq_RequestHash r" "validateIdempotencyRequest r2 = None"
    and live: "now2 < now + durationSeconds (rq_Retention r) * Second"
  shows "Begin codec no_faults now2 l2 r2 t3 =
    (Inr (empty_claim\<lparr>cl_Replay := Some \<lparr>sr_Status = sr_Status resp,
        sr_Headers = Some (case sr_Headers resp of None \<Rightarrow> [] | Some h \<Rightarrow> h),
        sr_Body = Some (case sr_Body resp of None \<Rightarrow> [] | Some b \<Rightarrow> b)\<rparr>\<rparr>), t3)"
proof -
  have inv1: "idem_invar t1" using Begin_invar [OF inv hash, of codec flt now l] claim(1) by simp
  note row1 = Begin_claimedE(3) [OF inv claim]
  from Complete_response_okE [OF inv1 stored] obtain hj where
    hj: "marshal_headers codec (case sr_Headers resp of None \<Rightarrow> [] | Some h \<Rightarrow> h) = Some hj"
    and t2: "t2 = sql_update (completes (request_key r) l)
       (done_row now' (sr_Status resp) hj (case sr_Body resp of None \<Rightarrow> [] | Some b \<Rightarrow> b)) t1"
    by metis
  let ?row = "done_row now' (sr_Status resp) hj (case sr_Body resp of None \<Rightarrow> [] | Some b \<Rightarrow> b) (claim_row now l r)"
  have "sql_row (\<lambda>row. ir_key row = request_key r) t2 = Some ?row"
    using row1 by (simp add: t2 sql_row_update_key completes_def claim_row_def)
  moreover have inv2: "idem_invar t2" using Complete_response_invar [OF inv1, of codec flt' now' r l resp] stored by simp
  ultimately have "sql_row (\<lambda>row. ir_key row = request_key r2) t3 = Some ?row"
    unfolding same(1) by (intro idem_run_keeps_done [OF run]) (simp_all add: done_row_def claim_row_def)
  from Begin_existing [OF same(3) this, of codec now2 l2] show ?thesis
    using live hash same(2) codec [OF hj] by (simp add: done_row_def claim_row_def equalDigest_iff)
qed

theorem response_replayed_exactly_witness:
  "Begin demo_codec no_faults 9 ''l2'' demo_request [done_row 5 201 ''{}'' ''ok'' (claim_row 0 ''l1'' demo_request)] =
   (Inr (empty_claim\<lparr>cl_Replay := Some \<lparr>sr_Status = 201, sr_Headers = Some [], sr_Body = Some ''ok''\<rparr>\<rparr>),
    [done_row 5 201 ''{}'' ''ok'' (claim_row 0 ''l1'' demo_request)])"
proof -
  have codec: "\<And>h j. marshal_headers demo_codec h = Some j \<Longrightarrow> unmarshal_headers demo_codec j = Some h"
    by (auto simp: demo_codec_def split: if_splits)
  have live: "9 < 0 + durationSeconds (rq_Retention demo_request) * Second"
    by (simp add: demo_request_def durationSeconds_def time_defs signed_divide_int_def signed_modulo_int_def)
  have nn: "''l1'' \<noteq> uuid_Nil" by (simp add: uuid_Nil_def)
  show ?thesis
    using response_replayed_exactly [OF codec demo_empty_invar demo_hash demo_begin nn _ demo_complete
        idem_run.run_nil refl refl demo_request_valid live, of "''l2''"]
    by (simp add: demo_response_def)
qed



text \<open>
  Lemma (reused_key_conflicts): a key that is still retained and was used with different inputs is rejected as a conflict,
  in whatever state its record is, and the record stays as it is; the constant-time digest
  comparison behind this is equality of digests.
\<close>

theorem reused_key_conflicts:
  assumes "idem_invar t" and "length (rq_RequestHash r) = digest_size" and "validateIdempotencyRequest r = None"
    and row: "row \<in> set t" "ir_key row = request_key r" "now < ir_expires_at row"
  shows "(Begin codec no_faults now l r t = (Inl ErrIdempotencyConflict, t) \<longleftrightarrow> ir_request_hash row \<noteq> rq_RequestHash r) \<and>
    (equalDigest (ir_request_hash row) (rq_RequestHash r) \<longleftrightarrow> ir_request_hash row = rq_RequestHash r)"
proof -
  have r: "sql_row (\<lambda>row. ir_key row = request_key r) t = Some row"
    using assms by (intro sql_row_key_eq) (auto simp: idem_invar_def)
  have eq: "equalDigest (ir_request_hash row) (rq_RequestHash r) \<longleftrightarrow> ir_request_hash row = rq_RequestHash r"
    using assms by (intro equalDigest_iff) (auto simp: idem_invar_def list_all_iff idem_row_ok_def)
  show ?thesis
    using row(3) eq unfolding Begin_existing [OF assms(3) r]
    by (auto split: option.split)
qed

theorem reused_key_conflicts_witness:
  "Begin demo_codec no_faults 3 ''l2'' (demo_request\<lparr>rq_RequestHash := replicate 32 8\<rparr>) [claim_row 0 ''l1'' demo_request] =
     (Inl ErrIdempotencyConflict, [claim_row 0 ''l1'' demo_request])"
proof -
  let ?r = "demo_request\<lparr>rq_RequestHash := replicate 32 8\<rparr>"
  have inv: "idem_invar [claim_row 0 ''l1'' demo_request]"
    using claimed_row_ok [OF demo_request_valid demo_hash] by (simp add: idem_invar_def)
  have v: "validateIdempotencyRequest ?r = None"
  proof -
    have "validateIdempotencyRequest ?r = validateIdempotencyRequest demo_request"
      unfolding validateIdempotencyRequest_def by simp
    with demo_request_valid show ?thesis by simp
  qed
  have h: "length (rq_RequestHash ?r) = digest_size" by (simp add: digest_size_def)
  have k: "ir_key (claim_row 0 ''l1'' demo_request) = request_key ?r" by (simp add: request_key_def)
  have live: "3 < ir_expires_at (claim_row 0 ''l1'' demo_request)"
    by (simp add: claim_row_def demo_request_def durationSeconds_def time_defs signed_divide_int_def signed_modulo_int_def)
  have ne: "ir_request_hash (claim_row 0 ''l1'' demo_request) \<noteq> rq_RequestHash ?r"
    by (simp add: claim_row_def demo_request_def)
  show ?thesis
    using reused_key_conflicts [OF inv h v _ k live, of demo_codec "''l2''"] ne by simp
qed

text \<open>
  Lemma (superseded_request_cannot_store): a request whose lease was taken over by a newer one cannot store its response any more:
  it is told the lease is lost, the table does not change, and the newer request remains the one
  entitled to complete; the same holds inside a caller's transaction.
\<close>

theorem superseded_request_cannot_store:
  assumes inv: "idem_invar t" and hash: "length (rq_RequestHash r) = digest_size"
    and claim: "Begin codec flt now l r t = (Inr cl, t1)" "l \<noteq> uuid_Nil" "cl_LeaseUID cl = l"
    and old: "request_key r' = request_key r" "l' \<noteq> l"
    and ok: "Complete_checks codec r' l' resp = Inr v"
  shows "Complete_response codec no_faults now' r' l' resp t1 = (Inl ErrIdempotencyLeaseLost, t1) \<and>
    CompleteTx codec no_faults now' r' l' resp t1 = (Inl ErrIdempotencyLeaseLost, t1) \<and>
    idem_holder t1 (request_key r) = Some l"
proof -
  have inv1: "idem_invar t1" using Begin_invar [OF inv hash, of codec flt now l] claim(1) by simp
  have h: "idem_holder t1 (request_key r) = Some l"
    using Begin_claimedE(3) [OF inv claim] by (simp add: idem_holder_def claim_row_def)
  obtain s hj b where v: "v = (s, hj, b)" by (cases v)
  have "idem_finish now' s hj b (request_key r') l' t1 = (False, t1)"
    using response_lease.superseded [OF inv1 h old(2)] old(1) by simp
  with h ok show ?thesis
    by (simp add: CompleteTx_eq Complete_response_def completeIdempotency_finish v)
qed

theorem superseded_request_cannot_store_witness:
  "Complete_response demo_codec no_faults 5 demo_request ''l0'' demo_response [claim_row 0 ''l1'' demo_request] =
     (Inl ErrIdempotencyLeaseLost, [claim_row 0 ''l1'' demo_request])"
proof -
  have nn: "''l1'' \<noteq> uuid_Nil" by (simp add: uuid_Nil_def)
  have ok: "Complete_checks demo_codec demo_request ''l0'' demo_response = Inr (201, ''{}'', ''ok'')"
    by (simp add: Complete_checks_def demo_request_valid uuid_Nil_def demo_response_def demo_codec_def)
  show ?thesis
    using superseded_request_cannot_store [OF demo_empty_invar demo_hash demo_begin nn _ refl _ ok, of 5] by simp
qed

text \<open>
  Lemma (keys_are_isolated): a call under one scope and key, whether it succeeds or fails, leaves the records of every
  other principal, operation and key exactly as they were.
\<close>

theorem keys_are_isolated:
  assumes "k \<noteq> request_key r"
  shows "sql_row (\<lambda>row. ir_key row = k) (snd (Begin codec flt now l r t)) = sql_row (\<lambda>row. ir_key row = k) t \<and>
    sql_row (\<lambda>row. ir_key row = k) (snd (Complete_response codec flt now r l resp t)) = sql_row (\<lambda>row. ir_key row = k) t"
proof
  have upd: "sql_row (\<lambda>row. ir_key row = k) (sql_update p f t) = sql_row (\<lambda>row. ir_key row = k) t"
    if "\<And>row. ir_key (f row) = ir_key row" "\<And>row. p row \<Longrightarrow> ir_key row = request_key r" for p f
    using that assms by (cases "sql_row (\<lambda>row. ir_key row = k) t") (auto simp: sql_row_update_key dest: sql_row_SomeD)
  have app: "sql_row (\<lambda>row. ir_key row = k) (t @ [claim_row now l r]) = sql_row (\<lambda>row. ir_key row = k) t"
    using assms by (simp add: sql_row_append split: option.splits)
  show "sql_row (\<lambda>row. ir_key row = k) (snd (Begin codec flt now l r t)) = sql_row (\<lambda>row. ir_key row = k) t"
    using app upd [of "reclaim_row now l r" "\<lambda>row. ir_key row = request_key r"]
    by (auto simp: Begin_def split: option.splits idem_state.splits)
  show "sql_row (\<lambda>row. ir_key row = k) (snd (Complete_response codec flt now r l resp t)) = sql_row (\<lambda>row. ir_key row = k) t"
    using upd [of "done_row now _ _ _" "completes (request_key r) l"]
    by (cases "Complete_checks codec r l resp")
      (auto simp: Complete_response_def completeIdempotency_def Let_def completes_def)
qed

theorem keys_are_isolated_witness:
  "sql_row (\<lambda>row. ir_key row = (''a'', ''b'', ''c'', ''d'')) (snd (Begin demo_codec no_faults 0 ''l1'' demo_request [])) = None"
  using keys_are_isolated [of "(''a'', ''b'', ''c'', ''d'')" demo_request demo_codec no_faults 0 "''l1''" "[]"]
  by (simp add: request_key_def demo_request_def)

text \<open>
  Lemma (cleanup_bounded_and_safe): a cleanup deletes only records whose retention has passed, never more than the limit, and
  reports the number it deleted: the smaller of the limit and the number of expired records.
\<close>

theorem cleanup_bounded_and_safe:
  assumes inv: "idem_invar t" and ok: "DeleteExpired_records flt now limit t = (Inr n, t')"
  shows "n = min (nat limit) (sql_count (\<lambda>row. ir_expires_at row \<le> now) t) \<and> n \<le> 10000 \<and>
    length t' + n = length t \<and>
    (\<forall>row \<in> set t. now < ir_expires_at row \<longrightarrow> row \<in> set t')"
proof -
  let ?b = "sql_delete_batch ir_key (\<lambda>row. ir_expires_at row \<le> now) ir_expires_at (nat limit) t"
  have dist: "distinct (map ir_key t)" using inv by (simp add: idem_invar_def)
  have n: "n = fst ?b" and t': "t' = snd ?b" and lim: "limit \<le> 10000"
    using ok by (auto simp: DeleteExpired_records_def split_beta split: if_splits)
  have "row \<in> set t'" if "row \<in> set t" "now < ir_expires_at row" for row
    unfolding t' using that by (intro batch_keeps [OF dist]) auto
  then show ?thesis
    using batch_count [OF dist, of "\<lambda>row. ir_expires_at row \<le> now" ir_expires_at "nat limit"]
      batch_length [of ir_key "\<lambda>row. ir_expires_at row \<le> now" ir_expires_at "nat limit" t] lim
    by (simp add: n t' del: sql_count_0_iff)
qed

theorem cleanup_bounded_and_safe_witness:
  "\<exists>n t'. DeleteExpired_records no_faults (31 * 24 * Hour) 1 [claim_row 0 ''l1'' demo_request] = (Inr n, t') \<and> n \<le> 10000"
proof -
  have inv: "idem_invar [claim_row 0 ''l1'' demo_request]"
    using claimed_row_ok [OF demo_request_valid demo_hash] by (simp add: idem_invar_def)
  obtain n t' where ok: "DeleteExpired_records no_faults (31 * 24 * Hour) 1 [claim_row 0 ''l1'' demo_request] = (Inr n, t')"
    by (simp add: DeleteExpired_records_def split_beta)
  from cleanup_bounded_and_safe [OF inv ok] ok show ?thesis by blast
qed

end
