(* ===== verification/Rate_Limits.thy ===== *)
theory Rate_Limits
  imports Store_Common
begin

text \<open>
  The distributed rate limiter, \<^verbatim>\<open>internal/store/rate_limits.go\<close>: \<open>Take\<close>, \<open>Reset\<close> and \<open>DeleteExpired\<close>
  over the rows of \<^verbatim>\<open>rate_limit_buckets\<close>. The capped counter of the table is shown to refine an
  abstract limiter that counts every request of the current window.
\<close>

section \<open>Data and operations\<close>

record bucket =
  rb_policy :: string
  rb_key_hash :: "byte list"
  rb_request_count :: int
  rb_window_started_at :: time
  rb_expires_at :: time

type_synonym bucket_key = "string \<times> byte list"

definition bucket_key :: "bucket \<Rightarrow> bucket_key" where
  "bucket_key b = (rb_policy b, rb_key_hash b)"

record RateLimitResult =
  rl_Allowed :: bool
  rl_Limit :: int
  rl_Remaining :: int
  rl_RetryAfter :: duration
  rl_ResetAt :: time

definition rateLimitPolicyPattern :: "string \<Rightarrow> bool" where
  "rateLimitPolicyPattern =
     head_tail_match is_lower_c (\<lambda>c. is_lower_c c \<or> is_digit_c c \<or> c = CHR ''_'' \<or> c = CHR ''.'') 127"

definition insert_bucket :: "time \<Rightarrow> string \<Rightarrow> byte list \<Rightarrow> int \<Rightarrow> bucket" where
  "insert_bucket now policy keyHash windowSeconds =
     \<lparr>rb_policy = policy, rb_key_hash = keyHash, rb_request_count = 1, rb_window_started_at = now,
      rb_expires_at = now + windowSeconds * Second\<rparr>"

definition bump_bucket :: "time \<Rightarrow> int \<Rightarrow> int \<Rightarrow> bucket \<Rightarrow> bucket" where
  "bump_bucket now limit windowSeconds b = b\<lparr>
     rb_request_count := (if rb_expires_at b \<le> now then 1 else min (rb_request_count b + 1) (limit + 1)),
     rb_window_started_at := (if rb_expires_at b \<le> now then now else rb_window_started_at b),
     rb_expires_at := (if rb_expires_at b \<le> now then now + windowSeconds * Second else rb_expires_at b)\<rparr>"

text \<open>The upsert with its \<open>RETURNING\<close> row.\<close>

definition upsert_bucket :: "time \<Rightarrow> string \<Rightarrow> byte list \<Rightarrow> int \<Rightarrow> int \<Rightarrow> bucket list \<Rightarrow> bucket \<times> bucket list" where
  "upsert_bucket now policy keyHash limit windowSeconds t =
     (case sql_row (\<lambda>b. bucket_key b = (policy, keyHash)) t of
        None \<Rightarrow> (insert_bucket now policy keyHash windowSeconds,
                 t @ [insert_bucket now policy keyHash windowSeconds])
      | Some b \<Rightarrow> (bump_bucket now limit windowSeconds b,
                   sql_update (\<lambda>b. bucket_key b = (policy, keyHash)) (bump_bucket now limit windowSeconds) t))"

definition Take ::
  "faults \<Rightarrow> time \<Rightarrow> string \<Rightarrow> byte list \<Rightarrow> int \<Rightarrow> duration \<Rightarrow> bucket list \<Rightarrow>
   (store_error + RateLimitResult) \<times> bucket list" where
  "Take flt now policy keyHash limit window t =
     (if \<not> rateLimitPolicyPattern policy then (Inl (StoreInvalid ''invalid rate-limit policy''), t)
      else if length keyHash \<noteq> 32 then (Inl (StoreInvalid ''rate-limit key hash must be 32 bytes''), t)
      else if limit < 1 \<or> limit > 1000000
      then (Inl (StoreInvalid ''rate-limit allowance must be between 1 and 1000000''), t)
      else if window < Second \<or> window > 7 * 24 * Hour
      then (Inl (StoreInvalid ''rate-limit window must be between one second and seven days''), t)
      else if flt ''consume rate limit'' then (Inl (StoreDb ''consume rate limit''), t)
      else let (b, t') = upsert_bucket now policy keyHash limit (durationSeconds window) t;
               count = rb_request_count b; resetAt = rb_expires_at b;
               remaining = (if limit - count < 0 then 0 else limit - count);
               allowed = (count \<le> limit);
               retryAfter = (if allowed then 0 else if resetAt - now < 0 then 0 else resetAt - now) in
      (Inr \<lparr>rl_Allowed = allowed, rl_Limit = limit, rl_Remaining = remaining,
            rl_RetryAfter = retryAfter, rl_ResetAt = resetAt\<rparr>, t'))"

definition Reset_bucket :: "faults \<Rightarrow> string \<Rightarrow> byte list \<Rightarrow> bucket list \<Rightarrow> (store_error + unit) \<times> bucket list" where
  "Reset_bucket flt policy keyHash t =
     (if \<not> rateLimitPolicyPattern policy \<or> length keyHash \<noteq> 32
      then (Inl (StoreInvalid ''invalid rate-limit reset key''), t)
      else if flt ''reset rate limit'' then (Inl (StoreDb ''reset rate limit''), t)
      else (Inr (), sql_delete (\<lambda>b. bucket_key b = (policy, keyHash)) t))"

definition DeleteExpired_buckets :: "faults \<Rightarrow> time \<Rightarrow> int \<Rightarrow> bucket list \<Rightarrow> (store_error + nat) \<times> bucket list" where
  "DeleteExpired_buckets flt now limit t =
     (if limit < 1 \<or> limit > 10000
      then (Inl (StoreInvalid ''cleanup limit must be between 1 and 10000''), t)
      else if flt ''delete expired rate limits'' then (Inl (StoreDb ''delete expired rate limits''), t)
      else (case sql_delete_batch bucket_key (\<lambda>b. rb_expires_at b \<le> now) rb_expires_at (nat limit) t of
              (n, t') \<Rightarrow> (Inr n, t')))"

section \<open>Invariant and helper lemmas\<close>

definition buckets_invar :: "bucket list \<Rightarrow> bool" where
  "buckets_invar t \<longleftrightarrow> distinct (map bucket_key t) \<and>
     list_all (\<lambda>b. 1 \<le> rb_request_count b \<and> rb_request_count b \<le> 1000001) t"

lemma bucket_key_simps [simp]:
  "bucket_key (insert_bucket now p h w) = (p, h)" "bucket_key (bump_bucket now l w b) = bucket_key b"
  by (simp_all add: insert_bucket_def bump_bucket_def bucket_key_def)

lemma insert_bucket_simps [simp]:
  "rb_request_count (insert_bucket now p h w) = 1"
  "rb_expires_at (insert_bucket now p h w) = now + w * Second"
  by (simp_all add: insert_bucket_def)

lemma upsert_lookup:
  "sql_row (\<lambda>b. bucket_key b = k) (snd (upsert_bucket now p h limit w t)) =
     (if k = (p, h) then Some (fst (upsert_bucket now p h limit w t))
      else sql_row (\<lambda>b. bucket_key b = k) t)"
proof (cases "sql_row (\<lambda>b. bucket_key b = (p, h)) t")
  case None
  then show ?thesis
    by (auto simp: upsert_bucket_def sql_row_append split: option.splits)
next
  case (Some b)
  then have "bucket_key b = (p, h)" by (auto dest: sql_row_SomeD)
  with Some show ?thesis
    by (cases "sql_row (\<lambda>b. bucket_key b = k) t")
      (auto simp: upsert_bucket_def sql_row_update_key dest: sql_row_SomeD)
qed

lemma upsert_invar:
  assumes "buckets_invar t" and "1 \<le> limit" and "limit \<le> 1000000"
  shows "buckets_invar (snd (upsert_bucket now p h limit w t))"
proof (cases "sql_row (\<lambda>b. bucket_key b = (p, h)) t")
  case None
  with assms show ?thesis
    by (fastforce simp: upsert_bucket_def buckets_invar_def dest: sql_row_None_iff [THEN iffD1])
next
  case (Some b)
  have "1 \<le> rb_request_count (bump_bucket now limit w b) \<and> rb_request_count (bump_bucket now limit w b) \<le> 1000001"
    if "1 \<le> rb_request_count b" for b
    using assms(2,3) that by (auto simp: bump_bucket_def)
  with Some assms show ?thesis
    by (auto simp: upsert_bucket_def buckets_invar_def intro!: list_all_sql_update)
qed

lemma Take_invar: "buckets_invar t \<Longrightarrow> buckets_invar (snd (Take flt now p h limit w t))"
  using upsert_invar [of t limit now p h "durationSeconds w"]
  by (auto simp: Take_def Let_def split: prod.splits)

lemma Reset_bucket_invar: "buckets_invar t \<Longrightarrow> buckets_invar (snd (Reset_bucket flt p h t))"
  by (auto simp: Reset_bucket_def buckets_invar_def distinct_map_sql_delete list_all_sql_delete)

lemma DeleteExpired_buckets_invar: "buckets_invar t \<Longrightarrow> buckets_invar (snd (DeleteExpired_buckets flt now limit t))"
  by (auto simp: DeleteExpired_buckets_def buckets_invar_def split_beta batch_distinct batch_list_all)

definition take_args_ok :: "string \<Rightarrow> byte list \<Rightarrow> int \<Rightarrow> duration \<Rightarrow> bool" where
  "take_args_ok policy keyHash limit window \<longleftrightarrow> rateLimitPolicyPattern policy \<and> length keyHash = 32 \<and>
     1 \<le> limit \<and> limit \<le> 1000000 \<and> Second \<le> window \<and> window \<le> 7 * 24 * Hour"

lemma Take_ok:
  assumes "take_args_ok p h limit w"
  shows "Take no_faults now p h limit w t =
    (case upsert_bucket now p h limit (durationSeconds w) t of (b, t') \<Rightarrow>
      (Inr \<lparr>rl_Allowed = (rb_request_count b \<le> limit), rl_Limit = limit,
            rl_Remaining = max 0 (limit - rb_request_count b),
            rl_RetryAfter = (if rb_request_count b \<le> limit then 0 else max 0 (rb_expires_at b - now)),
            rl_ResetAt = rb_expires_at b\<rparr>, t'))"
  using assms by (auto simp: Take_def take_args_ok_def Let_def max_def split: prod.splits)

section \<open>Refinement of a limiter that counts every request\<close>

text \<open>
  The abstract limiter keeps, per key, when the current window ends and how many requests it has
  seen; the count is not capped. A request opens a new window when there is none or it is over.
\<close>

type_synonym window_spec = "bucket_key \<Rightarrow> (nat \<times> time) option"

definition spec_take :: "time \<Rightarrow> bucket_key \<Rightarrow> int \<Rightarrow> duration \<Rightarrow> window_spec \<Rightarrow> bool \<times> window_spec" where
  "spec_take now k limit window s =
     (let (n, e) = (case s k of
           None \<Rightarrow> (1, now + durationSeconds window * Second)
         | Some (n, e) \<Rightarrow> if e \<le> now then (1, now + durationSeconds window * Second) else (Suc n, e))
      in (int n \<le> limit, s(k \<mapsto> (n, e))))"

text \<open>A stream of requests: the time, the policy and the key digest of each.\<close>

type_synonym take_event = "time \<times> string \<times> byte list"

fun spec_run :: "(string \<Rightarrow> int \<times> duration) \<Rightarrow> take_event list \<Rightarrow> window_spec \<Rightarrow> bool list" where
  "spec_run cfg [] s = []"
| "spec_run cfg ((now, p, h) # es) s =
     (let (ok, s') = spec_take now (p, h) (fst (cfg p)) (snd (cfg p)) s in ok # spec_run cfg es s')"

fun take_run :: "(string \<Rightarrow> int \<times> duration) \<Rightarrow> take_event list \<Rightarrow> bucket list \<Rightarrow> bool list" where
  "take_run cfg [] t = []"
| "take_run cfg ((now, p, h) # es) t =
     (case Take no_faults now p h (fst (cfg p)) (snd (cfg p)) t of
        (Inl e, t') \<Rightarrow> False # take_run cfg es t'
      | (Inr r, t') \<Rightarrow> rl_Allowed r # take_run cfg es t')"

text \<open>The simulation relation: the stored counter is the true count capped one above the limit.\<close>

definition refines :: "(string \<Rightarrow> int \<times> duration) \<Rightarrow> bucket list \<Rightarrow> window_spec \<Rightarrow> bool" where
  "refines cfg t s \<longleftrightarrow> (\<forall>k. case sql_row (\<lambda>b. bucket_key b = k) t of
       None \<Rightarrow> s k = None
     | Some b \<Rightarrow> (\<exists>n. s k = Some (n, rb_expires_at b) \<and> 1 \<le> n \<and>
                       rb_request_count b = min (int n) (fst (cfg (fst k)) + 1)))"

lemma refinesD:
  "refines cfg t s \<Longrightarrow> (case sql_row (\<lambda>b. bucket_key b = k) t of
       None \<Rightarrow> s k = None
     | Some b \<Rightarrow> (\<exists>n. s k = Some (n, rb_expires_at b) \<and> 1 \<le> n \<and>
                       rb_request_count b = min (int n) (fst (cfg (fst k)) + 1)))"
  by (simp only: refines_def)

lemma upsert_refines:
  assumes ref: "refines cfg t s" and lim: "1 \<le> fst (cfg p)"
    and up: "upsert_bucket now p h (fst (cfg p)) (durationSeconds w) t = (b, t')"
    and st: "spec_take now (p, h) (fst (cfg p)) w s = (ok, s')"
  shows "(rb_request_count b \<le> fst (cfg p)) = ok \<and> refines cfg t' s'"
proof -
  let ?k = "(p, h)" and ?l = "fst (cfg p)"
  have look: "sql_row (\<lambda>b. bucket_key b = k) t' = (if k = ?k then Some b else sql_row (\<lambda>b. bucket_key b = k) t)" for k
    using upsert_lookup [of k now p h ?l "durationSeconds w" t] up by simp
  obtain n where n: "s' = s(?k \<mapsto> (n, rb_expires_at b))" "1 \<le> n" "ok = (int n \<le> ?l)"
    "rb_request_count b = min (int n) (?l + 1)"
  proof (cases "sql_row (\<lambda>b. bucket_key b = ?k) t")
    case None
    with refinesD [OF ref, of ?k] have "s ?k = None" by simp
    with None up st lim that [of 1] show thesis
      by (auto simp: upsert_bucket_def spec_take_def insert_bucket_def)
  next
    case (Some b0)
    with refinesD [OF ref, of ?k] obtain m where m: "s ?k = Some (m, rb_expires_at b0)" "1 \<le> m"
      "rb_request_count b0 = min (int m) (?l + 1)"
      by auto
    show thesis
    proof (cases "rb_expires_at b0 \<le> now")
      case True
      with Some m up st lim that [of 1] show thesis
        by (auto simp: upsert_bucket_def spec_take_def bump_bucket_def)
    next
      case False
      with Some m up st lim that [of "Suc m"] show thesis
        by (auto simp: upsert_bucket_def spec_take_def bump_bucket_def)
    qed
  qed
  have "refines cfg t' s'" unfolding refines_def
  proof
    fix k
    show "case sql_row (\<lambda>b. bucket_key b = k) t' of None \<Rightarrow> s' k = None
      | Some b \<Rightarrow> \<exists>n. s' k = Some (n, rb_expires_at b) \<and> 1 \<le> n \<and> rb_request_count b = min (int n) (fst (cfg (fst k)) + 1)"
      using refinesD [OF ref, of k] n(1,2,4) by (cases "k = ?k") (auto simp: look split: option.splits)
  qed
  with n lim show ?thesis by auto
qed

lemma take_run_refines:
  assumes "\<And>now p h. (now, p, h) \<in> set es \<Longrightarrow> take_args_ok p h (fst (cfg p)) (snd (cfg p))"
    and "refines cfg t s"
  shows "take_run cfg es t = spec_run cfg es s"
  using assms
proof (induction es arbitrary: t s)
  case Nil
  then show ?case by simp
next
  case (Cons e es)
  obtain now p h where e: "e = (now, p, h)" by (cases e)
  have ok: "take_args_ok p h (fst (cfg p)) (snd (cfg p))" using Cons.prems(1) e by auto
  obtain b t' where up: "upsert_bucket now p h (fst (cfg p)) (durationSeconds (snd (cfg p))) t = (b, t')"
    by (metis surj_pair)
  obtain a s' where st: "spec_take now (p, h) (fst (cfg p)) (snd (cfg p)) s = (a, s')" by (metis surj_pair)
  have "(rb_request_count b \<le> fst (cfg p)) = a" and "refines cfg t' s'"
    using upsert_refines [OF Cons.prems(2) _ up st] ok by (auto simp: take_args_ok_def)
  moreover from this(2) have "take_run cfg es t' = spec_run cfg es s'"
    using Cons.prems(1) by (intro Cons.IH) auto
  ultimately show ?case by (simp add: e Take_ok [OF ok] up st)
qed

section \<open>Windows\<close>

text \<open>The answers a stream gives to the requests of one key depend on that key's requests only.\<close>

definition event_key :: "take_event \<Rightarrow> bucket_key" where
  "event_key e = (fst (snd e), snd (snd e))"

definition answers_for :: "bucket_key \<Rightarrow> take_event list \<Rightarrow> bool list \<Rightarrow> bool list" where
  "answers_for k es as = map snd (filter (\<lambda>(e, a). event_key e = k) (zip es as))"

lemma spec_run_filter:
  "s k = s2 k \<Longrightarrow> answers_for k es (spec_run cfg es s) = spec_run cfg (filter (\<lambda>e. event_key e = k) es) s2"
proof (induction es arbitrary: s s2)
  case Nil
  then show ?case by (simp add: answers_for_def)
next
  case (Cons e es)
  obtain now p h where e: "e = (now, p, h)" by (cases e)
  let ?st = "spec_take now (p, h) (fst (cfg p)) (snd (cfg p))"
  show ?case
  proof (cases "(p, h) = k")
    case True
    have "snd (?st s) k = snd (?st s2) k" and "fst (?st s) = fst (?st s2)"
      using Cons.prems True by (auto simp: spec_take_def split: prod.splits option.splits)
    with True Cons.IH [of "snd (?st s)" "snd (?st s2)"] show ?thesis
      by (auto simp: e event_key_def answers_for_def split_beta)
  next
    case False
    have "snd (?st s) k = s2 k"
      using Cons.prems False by (auto simp: spec_take_def split: prod.splits)
    with False Cons.IH [of "snd (?st s)" s2] show ?thesis
      by (simp add: e event_key_def answers_for_def split_beta)
  qed
qed

lemma spec_run_open:
  assumes "s (p, h) = Some (n, e)" and "\<And>t. t \<in> set ts \<Longrightarrow> t < e"
  shows "spec_run cfg (map (\<lambda>t. (t, p, h)) ts) s = map (\<lambda>i. int i \<le> fst (cfg p)) [Suc n ..< Suc n + length ts]"
  using assms
proof (induction ts arbitrary: s n)
  case (Cons t ts)
  let ?s' = "s((p, h) \<mapsto> (Suc n, e))"
  have st: "spec_take t (p, h) (fst (cfg p)) (snd (cfg p)) s = (int (Suc n) \<le> fst (cfg p), ?s')"
    using Cons.prems(1) Cons.prems(2) [of t] by (simp add: spec_take_def)
  have "spec_run cfg (map (\<lambda>t. (t, p, h)) ts) ?s' = map (\<lambda>i. int i \<le> fst (cfg p)) [Suc (Suc n) ..< Suc (Suc n) + length ts]"
    using Cons.prems by (intro Cons.IH) auto
  then show ?case by (simp add: st upt_conv_Cons del: upt_Suc)
qed simp

lemma spec_run_window:
  assumes "s (p, h) = None" and "\<And>t. t \<in> set ts \<Longrightarrow> t < t0 + durationSeconds (snd (cfg p)) * Second"
  shows "spec_run cfg (map (\<lambda>t. (t, p, h)) (t0 # ts)) s = map (\<lambda>i. int i < fst (cfg p)) [0 ..< Suc (length ts)]"
proof -
  let ?e = "t0 + durationSeconds (snd (cfg p)) * Second"
  have st: "spec_take t0 (p, h) (fst (cfg p)) (snd (cfg p)) s = (1 \<le> fst (cfg p), s((p, h) \<mapsto> (1, ?e)))"
    using assms(1) by (simp add: spec_take_def)
  have "spec_run cfg (map (\<lambda>t. (t, p, h)) ts) (s((p, h) \<mapsto> (1, ?e))) =
      map (\<lambda>i. int i \<le> fst (cfg p)) [Suc 1 ..< Suc 1 + length ts]"
    using assms(2) by (intro spec_run_open) auto
  moreover have "map (\<lambda>i. int i \<le> fst (cfg p)) [Suc 1 ..< Suc 1 + length ts] = map (\<lambda>i. int i < fst (cfg p)) [1 ..< Suc (length ts)]"
    by (rule nth_equalityI) (auto simp del: upt_Suc)
  moreover have "(1 \<le> fst (cfg p)) = (0 < fst (cfg p))" by linarith
  ultimately show ?thesis by (simp add: st upt_conv_Cons del: upt_Suc)
qed

section \<open>Properties\<close>

definition demo_policy :: string where "demo_policy = ''console_login''"
definition demo_digest :: "byte list" where "demo_digest = replicate 32 1"
definition demo_cfg :: "string \<Rightarrow> int \<times> duration" where "demo_cfg p = (2, 60 * Second)"

lemma demo_take_args: "take_args_ok demo_policy demo_digest 2 (60 * Second)"
proof -
  have "rateLimitPolicyPattern demo_policy"
    by (simp add: rateLimitPolicyPattern_def demo_policy_def head_tail_match_def char_class_defs less_eq_char_def)
  then show ?thesis by (simp add: take_args_ok_def demo_digest_def time_defs)
qed

text \<open>
  C34 (limiter_counts_exactly): for every stream of requests, over any policies, keys and times, the table-backed limiter with
  its capped counter gives the same answers as the abstract limiter that counts every request of
  each key's current window: capping the counter loses nothing.
\<close>

theorem limiter_counts_exactly:
  assumes "\<And>now p h. (now, p, h) \<in> set es \<Longrightarrow> take_args_ok p h (fst (cfg p)) (snd (cfg p))"
  shows "take_run cfg es [] = spec_run cfg es (\<lambda>_. None)"
  by (rule take_run_refines) (use assms in \<open>auto simp: refines_def\<close>)

theorem limiter_counts_exactly_witness:
  "take_run demo_cfg [(0, demo_policy, demo_digest), (1, demo_policy, demo_digest)] [] =
   spec_run demo_cfg [(0, demo_policy, demo_digest), (1, demo_policy, demo_digest)] (\<lambda>_. None)"
  by (rule limiter_counts_exactly) (use demo_take_args in \<open>auto simp: demo_cfg_def\<close>)

text \<open>
  Lemma (exactly_limit_allowed_per_window): within one window of a key, exactly the first \<open>limit\<close> requests are allowed and all later
  ones denied, however many there are and whatever requests for other policies and keys are mixed
  in between.
\<close>

theorem exactly_limit_allowed_per_window:
  assumes args: "\<And>now p h. (now, p, h) \<in> set es \<Longrightarrow> take_args_ok p h (fst (cfg p)) (snd (cfg p))"
    and stream: "filter (\<lambda>e. event_key e = (p, h)) es = map (\<lambda>t. (t, p, h)) (t0 # ts)"
    and within: "\<And>t. t \<in> set ts \<Longrightarrow> t < t0 + durationSeconds (snd (cfg p)) * Second"
  shows "answers_for (p, h) es (take_run cfg es []) = map (\<lambda>i. int i < fst (cfg p)) [0 ..< Suc (length ts)]"
proof -
  have run: "take_run cfg es [] = spec_run cfg es (\<lambda>_. None)"
    by (rule take_run_refines) (use args in \<open>auto simp: refines_def\<close>)
  have "answers_for (p, h) es (spec_run cfg es (\<lambda>_. None)) =
      spec_run cfg (filter (\<lambda>e. event_key e = (p, h)) es) (\<lambda>_. None)"
    by (rule spec_run_filter) simp
  also have "\<dots> = map (\<lambda>i. int i < fst (cfg p)) [0 ..< Suc (length ts)]"
    unfolding stream using within by (intro spec_run_window) simp_all
  finally show ?thesis by (simp add: run)
qed

theorem exactly_limit_allowed_per_window_witness:
  "answers_for (demo_policy, demo_digest)
     [(0, demo_policy, demo_digest), (1, ''other'', demo_digest), (2, demo_policy, demo_digest), (3, demo_policy, demo_digest)]
     (take_run demo_cfg
       [(0, demo_policy, demo_digest), (1, ''other'', demo_digest), (2, demo_policy, demo_digest), (3, demo_policy, demo_digest)] []) =
   [True, True, False]"
proof -
  let ?es = "[(0, demo_policy, demo_digest), (1, ''other'', demo_digest), (2, demo_policy, demo_digest), (3, demo_policy, demo_digest)]"
  have other: "take_args_ok ''other'' demo_digest 2 (60 * Second)"
    using demo_take_args
    by (simp add: take_args_ok_def rateLimitPolicyPattern_def head_tail_match_def char_class_defs less_eq_char_def)
  have args: "take_args_ok p h (fst (demo_cfg p)) (snd (demo_cfg p))" if "(now, p, h) \<in> set ?es" for now p h
    using that demo_take_args other by (auto simp: demo_cfg_def)
  have stream: "filter (\<lambda>e. event_key e = (demo_policy, demo_digest)) ?es = map (\<lambda>t. (t, demo_policy, demo_digest)) (0 # [2, 3])"
    by (simp add: event_key_def demo_policy_def)
  have within: "t < 0 + durationSeconds (snd (demo_cfg demo_policy)) * Second" if "t \<in> set [2, 3]" for t :: int
    using that by (auto simp: demo_cfg_def durationSeconds_def Second_def signed_divide_int_def signed_modulo_int_def)
  show ?thesis
    using exactly_limit_allowed_per_window [of ?es demo_cfg, OF args stream within]
    by (simp add: demo_cfg_def upt_rec)
qed

text \<open>
  Lemma (take_result_bounds): the answer to a request is consistent and bounded: remaining allowance is between zero and
  one less than the limit and is positive or zero exactly as the counter says, a denied caller is
  told to wait no longer than until the window resets, at most the rounded window, the stored
  counter never exceeds 1000001, and validation or database failures leave the table as it is.
\<close>

theorem take_result_bounds:
  assumes inv: "buckets_invar t" and tk: "Take flt now p h limit w t = (r, t')"
    and windows: "\<And>b. b \<in> set t \<Longrightarrow> rb_policy b = p \<Longrightarrow> rb_expires_at b \<le> now + durationSeconds w * Second"
  shows "case r of
      Inl e \<Rightarrow> t' = t
    | Inr x \<Rightarrow> buckets_invar t' \<and> rl_Limit x = limit \<and> 0 \<le> rl_Remaining x \<and> rl_Remaining x < limit \<and>
        (\<not> rl_Allowed x \<longrightarrow> rl_Remaining x = 0) \<and> (rl_Allowed x \<longrightarrow> rl_RetryAfter x = 0) \<and>
        (\<not> rl_Allowed x \<longrightarrow> rl_RetryAfter x = rl_ResetAt x - now \<and> 0 < rl_RetryAfter x) \<and>
        rl_RetryAfter x \<le> durationSeconds w * Second"
proof (cases r)
  case (Inl e)
  with tk show ?thesis by (auto simp: Take_def Let_def split: if_splits prod.splits)
next
  case (Inr x)
  let ?w = "durationSeconds w"
  have lim: "1 \<le> limit" and x: "(case upsert_bucket now p h limit ?w t of (b, t1) \<Rightarrow>
      x = \<lparr>rl_Allowed = (rb_request_count b \<le> limit), rl_Limit = limit, rl_Remaining = max 0 (limit - rb_request_count b),
            rl_RetryAfter = (if rb_request_count b \<le> limit then 0 else max 0 (rb_expires_at b - now)),
            rl_ResetAt = rb_expires_at b\<rparr>)"
    using tk Inr by (auto simp: Take_def Let_def max_def split: if_splits prod.splits)
  define b where "b = fst (upsert_bucket now p h limit ?w t)"
  have wpos: "0 < ?w * Second" "0 \<le> ?w * Second" by (simp_all add: less_imp_le)
  have b: "1 \<le> rb_request_count b \<and> rb_expires_at b \<le> now + ?w * Second \<and> (limit < rb_request_count b \<longrightarrow> now < rb_expires_at b)"
  proof (cases "sql_row (\<lambda>b. bucket_key b = (p, h)) t")
    case None
    with lim wpos show ?thesis by (simp add: b_def upsert_bucket_def)
  next
    case (Some b0)
    then have b0: "b0 \<in> set t" "rb_policy b0 = p" by (auto dest!: sql_row_SomeD simp: bucket_key_def)
    with inv have "1 \<le> rb_request_count b0" by (auto simp: buckets_invar_def list_all_iff)
    with Some windows [OF b0] lim wpos show ?thesis by (auto simp: b_def upsert_bucket_def bump_bucket_def)
  qed
  have x': "x = \<lparr>rl_Allowed = (rb_request_count b \<le> limit), rl_Limit = limit, rl_Remaining = max 0 (limit - rb_request_count b),
      rl_RetryAfter = (if rb_request_count b \<le> limit then 0 else max 0 (rb_expires_at b - now)), rl_ResetAt = rb_expires_at b\<rparr>"
    using x by (simp add: b_def split_beta)
  have "buckets_invar t'" using Take_invar [OF inv, of flt now p h limit w] tk by simp
  with b lim wpos show ?thesis unfolding Inr x' by (auto simp: max_def)
qed

theorem take_result_bounds_witness:
  "\<exists>x t'. Take no_faults 0 demo_policy demo_digest 2 (60 * Second) [] = (Inr x, t') \<and> rl_Remaining x < 2"
proof -
  obtain x t' where tk: "Take no_faults 0 demo_policy demo_digest 2 (60 * Second) [] = (Inr x, t')"
    by (simp add: Take_ok [OF demo_take_args] upsert_bucket_def)
  have "buckets_invar []" by (simp add: buckets_invar_def)
  from take_result_bounds [OF this tk] tk show ?thesis by auto
qed

end
