(* ===== verification/Base64_Codec.thy ===== *)
theory Base64_Codec
  imports Go_Strings
begin

text \<open>
  \<^verbatim>\<open>encoding/base64\<close> without padding, in its URL-safe and standard alphabets, as \<^verbatim>\<open>internal/auth\<close> and
  \<^verbatim>\<open>internal/api\<close> use it: encoding, Go's lenient decoding (line breaks are skipped, unused low bits
  are not checked), and the round trip.
\<close>

section \<open>Alphabets\<close>

definition std_alphabet :: string where
  "std_alphabet = ''ABCDEFGHIJKLMNOPQRSTUVWXYZabcdefghijklmnopqrstuvwxyz0123456789+/''"
definition url_alphabet :: string where
  "url_alphabet = ''ABCDEFGHIJKLMNOPQRSTUVWXYZabcdefghijklmnopqrstuvwxyz0123456789-_''"

fun index_of :: "'a \<Rightarrow> 'a list \<Rightarrow> nat option" where
  "index_of x [] = None"
| "index_of x (y # ys) = (if x = y then Some 0 else map_option Suc (index_of x ys))"

lemma index_of_nth: "distinct xs \<Longrightarrow> i < length xs \<Longrightarrow> index_of (xs ! i) xs = Some i"
proof (induction xs arbitrary: i)
  case (Cons x xs)
  then show ?case by (cases i) (auto simp: nth_eq_iff_index_eq)
qed simp

lemma alphabet_facts:
  "distinct std_alphabet" "length std_alphabet = 64" "distinct url_alphabet" "length url_alphabet = 64"
  by (simp_all add: std_alphabet_def url_alphabet_def)

section \<open>Encoding and decoding\<close>

fun encode_with :: "string \<Rightarrow> byte list \<Rightarrow> string" where
  "encode_with al [] = []"
| "encode_with al [a] = (let n = unat a * 16 in [al ! (n div 64), al ! (n mod 64)])"
| "encode_with al [a, b] =
     (let n = (unat a * 256 + unat b) * 4 in [al ! (n div 4096), al ! (n div 64 mod 64), al ! (n mod 64)])"
| "encode_with al (a # b # c # rest) =
     (let n = unat a * 65536 + unat b * 256 + unat c in
      [al ! (n div 262144), al ! (n div 4096 mod 64), al ! (n div 64 mod 64), al ! (n mod 64)]
      @ encode_with al rest)"

text \<open>Decoding of the sextets; a single left-over sextet is a corrupt input.\<close>

fun decode_sextets :: "nat list \<Rightarrow> byte list option" where
  "decode_sextets [] = Some []"
| "decode_sextets [w] = None"
| "decode_sextets [w, x] = Some [of_nat ((w * 64 + x) div 16 mod 256)]"
| "decode_sextets [w, x, y] =
     (let n = (w * 64 + x) * 64 + y in Some [of_nat (n div 1024 mod 256), of_nat (n div 4 mod 256)])"
| "decode_sextets (w # x # y # z # rest) =
     (let n = ((w * 64 + x) * 64 + y) * 64 + z in
      map_option (\<lambda>bs. of_nat (n div 65536 mod 256) # of_nat (n div 256 mod 256) # of_nat (n mod 256) # bs)
        (decode_sextets rest))"

definition is_newline :: "char \<Rightarrow> bool" where
  "is_newline c \<longleftrightarrow> of_char c = (10 :: nat) \<or> of_char c = (13 :: nat)"

fun sextets :: "string \<Rightarrow> string \<Rightarrow> nat list option" where
  "sextets al [] = Some []"
| "sextets al (c # cs) =
     (if is_newline c then sextets al cs
      else (case index_of c al of None \<Rightarrow> None | Some i \<Rightarrow> map_option ((#) i) (sextets al cs)))"

definition decode_with :: "string \<Rightarrow> string \<Rightarrow> byte list option" where
  "decode_with al s = Option.bind (sextets al s) decode_sextets"

definition RawURLEncode :: "byte list \<Rightarrow> string" where "RawURLEncode = encode_with url_alphabet"
definition RawURLDecode :: "string \<Rightarrow> byte list option" where "RawURLDecode = decode_with url_alphabet"
definition RawStdEncode :: "byte list \<Rightarrow> string" where "RawStdEncode = encode_with std_alphabet"
definition RawStdDecode :: "string \<Rightarrow> byte list option" where "RawStdDecode = decode_with std_alphabet"

section \<open>Round trip\<close>

fun encode_sextets :: "byte list \<Rightarrow> nat list" where
  "encode_sextets [] = []"
| "encode_sextets [a] = (let n = unat a * 16 in [n div 64, n mod 64])"
| "encode_sextets [a, b] = (let n = (unat a * 256 + unat b) * 4 in [n div 4096, n div 64 mod 64, n mod 64])"
| "encode_sextets (a # b # c # rest) =
     (let n = unat a * 65536 + unat b * 256 + unat c in
      [n div 262144, n div 4096 mod 64, n div 64 mod 64, n mod 64] @ encode_sextets rest)"

lemma encode_with_sextets: "encode_with al bs = map ((!) al) (encode_sextets bs)"
  by (induction bs rule: encode_sextets.induct) (simp_all add: Let_def)

lemma unat_byte_less: "unat (a :: byte) < 256"
  using unsigned_less [of a] by simp

lemma encode_sextets_bound: "i \<in> set (encode_sextets bs) \<Longrightarrow> i < 64"
proof (induction bs rule: encode_sextets.induct)
  case (2 a)
  then show ?case using unat_byte_less [of a] by (auto simp: Let_def)
next
  case (3 a b)
  then show ?case using unat_byte_less [of a] unat_byte_less [of b] by (auto simp: Let_def)
next
  case (4 a b c rest)
  then show ?case using unat_byte_less [of a] unat_byte_less [of b] unat_byte_less [of c] by (auto simp: Let_def)
qed simp

lemma length_encode_sextets: "length (encode_sextets bs) = (length bs * 4 + 2) div 3"
  by (induction bs rule: encode_sextets.induct) (simp_all add: Let_def)

lemma byte_of_nat_unat: "m = unat b \<Longrightarrow> of_nat m = (b :: byte)"
  by simp

lemma low_digit: "r < d \<Longrightarrow> (q * d + r) mod d = r" "r < d \<Longrightarrow> (q * d + r) div d = (q :: nat)"
  by simp_all

lemma rejoin2: "n div 64 * 64 + n mod 64 = (n :: nat)"
  by (rule div_mult_mod_eq)

lemma rejoin3: "(n div 4096 * 64 + n div 64 mod 64) * 64 + n mod 64 = (n :: nat)"
proof -
  have "n div 4096 = n div 64 div 64" by (simp add: div_mult2_eq [symmetric])
  then show ?thesis using rejoin2 [of "n div 64"] rejoin2 [of n] by simp
qed

lemma rejoin4:
  "((n div 262144 * 64 + n div 4096 mod 64) * 64 + n div 64 mod 64) * 64 + n mod 64 = (n :: nat)"
proof -
  have "n div 262144 = n div 64 div 4096" "n div 4096 = n div 64 div 64"
    by (simp_all add: div_mult2_eq [symmetric])
  then show ?thesis using rejoin3 [of "n div 64"] rejoin2 [of n] by simp
qed

lemma decode_encode_sextets: "decode_sextets (encode_sextets bs) = Some bs"
proof (induction bs rule: encode_sextets.induct)
  case (2 a)
  define n where "n = unat a * 16"
  have "n div 16 mod 256 = unat a" using unat_byte_less [of a] by (simp add: n_def)
  then have "of_nat (n div 16 mod 256) = a" by (intro byte_of_nat_unat)
  then show ?case by (simp only: encode_sextets.simps decode_sextets.simps Let_def n_def [symmetric] rejoin2)
next
  case (3 a b)
  define n where "n = (unat a * 256 + unat b) * 4"
  have "n div 1024 mod 256 = unat a" "n div 4 mod 256 = unat b"
    using unat_byte_less [of a] unat_byte_less [of b] by (simp_all add: n_def)
  then have "of_nat (n div 1024 mod 256) = a" "of_nat (n div 4 mod 256) = b"
    by (simp_all only: byte_of_nat_unat)
  then show ?case by (simp only: encode_sextets.simps decode_sextets.simps Let_def n_def [symmetric] rejoin3)
next
  case (4 a b c rest)
  define n where "n = unat a * 65536 + unat b * 256 + unat c"
  have n: "n = (unat a * 256 + unat b) * 256 + unat c" by (simp add: n_def)
  have "n div 65536 mod 256 = unat a"
    using unat_byte_less [of a] unat_byte_less [of b] unat_byte_less [of c] by (simp add: n_def)
  moreover have "n mod 256 = unat c" "n div 256 = unat a * 256 + unat b"
    unfolding n using unat_byte_less [of c] by (simp_all only: low_digit)
  then have "n div 256 mod 256 = unat b" "n mod 256 = unat c"
    using unat_byte_less [of b] by simp_all
  ultimately have "n div 65536 mod 256 = unat a" "n div 256 mod 256 = unat b" "n mod 256 = unat c" .
  then have bytes: "of_nat (n div 65536 mod 256) = a" "of_nat (n div 256 mod 256) = b" "of_nat (n mod 256) = c"
    by (simp_all only: byte_of_nat_unat)
  show ?case
    by (simp only: encode_sextets.simps decode_sextets.simps Let_def n_def [symmetric] rejoin4 append.simps
        bytes 4 option.map)
qed simp

lemma sextets_map:
  assumes "distinct al" and "length al = 64" and "\<And>c. c \<in> set al \<Longrightarrow> \<not> is_newline c"
    and "\<And>i. i \<in> set is \<Longrightarrow> i < 64"
  shows "sextets al (map ((!) al) is) = Some is"
  using assms(4)
proof (induction "is")
  case (Cons i "is")
  then have "i < length al" using assms(2) by simp
  then have "\<not> is_newline (al ! i)" "index_of (al ! i) al = Some i"
    using assms(1,3) by (simp_all add: index_of_nth)
  with Cons show ?case by simp
qed simp

lemma alphabet_no_newline:
  "c \<in> set std_alphabet \<Longrightarrow> \<not> is_newline c" "c \<in> set url_alphabet \<Longrightarrow> \<not> is_newline c"
  by (auto simp: std_alphabet_def url_alphabet_def is_newline_def)

lemma decode_encode_with:
  assumes "distinct al" and "length al = 64" and "\<And>c. c \<in> set al \<Longrightarrow> \<not> is_newline c"
  shows "decode_with al (encode_with al bs) = Some bs"
  using sextets_map [OF assms, of "encode_sextets bs"] encode_sextets_bound
  by (simp add: decode_with_def encode_with_sextets decode_encode_sextets)

lemma RawURLDecode_Encode: "RawURLDecode (RawURLEncode bs) = Some bs"
  unfolding RawURLDecode_def RawURLEncode_def
  by (rule decode_encode_with) (simp_all add: alphabet_facts alphabet_no_newline)

lemma RawStdDecode_Encode: "RawStdDecode (RawStdEncode bs) = Some bs"
  unfolding RawStdDecode_def RawStdEncode_def
  by (rule decode_encode_with) (simp_all add: alphabet_facts alphabet_no_newline)

lemma encode_with_chars:
  "length al = 64 \<Longrightarrow> set (encode_with al bs) \<subseteq> set al"
  using encode_sextets_bound by (auto simp: encode_with_sextets intro!: nth_mem)

lemma RawURLEncode_chars: "set (RawURLEncode bs) \<subseteq> set url_alphabet"
  unfolding RawURLEncode_def by (rule encode_with_chars) (rule alphabet_facts)

lemma RawStdEncode_chars: "set (RawStdEncode bs) \<subseteq> set std_alphabet"
  unfolding RawStdEncode_def by (rule encode_with_chars) (rule alphabet_facts)

lemma length_RawURLEncode: "length (RawURLEncode bs) = (length bs * 4 + 2) div 3"
  by (simp add: RawURLEncode_def encode_with_sextets length_encode_sextets)

end
