(* ===== verification/Tokens.thy ===== *)
theory Tokens
  imports Base64_Codec
begin

text \<open>
  \<^verbatim>\<open>internal/auth/token.go\<close>: bearer tokens and their hashes. The system's random source is an argument
  of the operations that read it, SHA-256 and HMAC-SHA-256 are parameters.
\<close>

section \<open>The random source\<close>

text \<open>\<open>None\<close> is a source that fails; otherwise the bytes it delivers, in order.\<close>

type_synonym entropy = "(nat \<Rightarrow> byte) option"

definition rand_Read :: "entropy \<Rightarrow> nat \<Rightarrow> byte list option" where
  "rand_Read rnd n = map_option (\<lambda>r. map r [0..<n]) rnd"

lemma rand_Read_length: "rand_Read rnd n = Some bs \<Longrightarrow> length bs = n"
  by (auto simp: rand_Read_def)

lemma rand_Read_None_iff [simp]: "rand_Read rnd n = None \<longleftrightarrow> rnd = None"
  by (simp add: rand_Read_def)

definition bytes_of :: "string \<Rightarrow> byte list" where
  "bytes_of s = map (\<lambda>c. of_nat (of_char c)) s"

lemma length_bytes_of [simp]: "length (bytes_of s) = length s"
  by (simp add: bytes_of_def)

lemma of_char_byte_inject: "(of_nat (of_char c) :: byte) = of_nat (of_char d) \<Longrightarrow> c = d"
proof -
  assume eq: "(of_nat (of_char c) :: byte) = of_nat (of_char d)"
  have small: "unat (of_nat (of_char x) :: byte) = (of_char x :: nat)" for x :: char
    using nat_of_char_less_256 [of x] by (simp add: unsigned_of_nat take_bit_nat_eq_self)
  have "(of_char c :: nat) = of_char d" using arg_cong [OF eq, of unat] by (simp only: small)
  then show ?thesis by simp
qed

lemma bytes_of_inject [simp]: "bytes_of s = bytes_of t \<longleftrightarrow> s = t"
proof
  assume "bytes_of s = bytes_of t"
  moreover have "inj (\<lambda>c. of_nat (of_char c) :: byte)" by (intro injI of_char_byte_inject)
  ultimately show "s = t" unfolding bytes_of_def by (simp add: inj_map_eq_map)
qed simp

section \<open>Operations\<close>

definition RandomToken :: "entropy \<Rightarrow> string option" where
  "RandomToken rnd = (case rand_Read rnd 32 of None \<Rightarrow> None | Some b \<Rightarrow> Some (RawURLEncode b))"

definition SessionHash :: "(byte list \<Rightarrow> byte list) \<Rightarrow> string \<Rightarrow> byte list" where
  "SessionHash Sum256 token = Sum256 (bytes_of token)"

definition SecretHash :: "(byte list \<Rightarrow> byte list \<Rightarrow> byte list) \<Rightarrow> byte list \<Rightarrow> string \<Rightarrow> byte list" where
  "SecretHash hmacSHA256 key token = hmacSHA256 key (bytes_of token)"

section \<open>Tokens carry all 32 random bytes\<close>

lemma RandomToken_Some_iff: "(\<exists>t. RandomToken rnd = Some t) \<longleftrightarrow> rnd \<noteq> None"
  by (auto simp: RandomToken_def rand_Read_def split: option.splits)

text \<open>Lemma (tokens_are_lossless): a token is produced whenever the random source works, it has 43
  characters of the URL-safe alphabet, it decodes to exactly the 32 bytes drawn, and two draws give the
  same token only when their 32 bytes agree; without randomness no token is produced.\<close>

theorem tokens_are_lossless:
  "RandomToken None = None \<and>
   (\<exists>t. RandomToken (Some r) = Some t \<and> length t = 43 \<and> set t \<subseteq> set url_alphabet \<and>
        RawURLDecode t = Some (map r [0..<32]) \<and>
        (RandomToken (Some r') = Some t \<longleftrightarrow> map r [0..<32] = map r' [0..<32]))"
proof -
  have inj: "RawURLEncode bs = RawURLEncode cs \<longleftrightarrow> bs = cs" for bs cs
    using RawURLDecode_Encode by (metis option.inject)
  have tok: "RandomToken (Some q) = Some (RawURLEncode (map q [0..<32]))" for q
    by (simp add: RandomToken_def rand_Read_def)
  show ?thesis
    unfolding tok option.inject
    using RawURLEncode_chars RawURLDecode_Encode
    by (auto simp: length_RawURLEncode RandomToken_def rand_Read_def inj simp del: upt_Suc)
qed

end
