(* ===== verification/Passwords.thy ===== *)
theory Passwords
  imports Tokens Store_Common
begin

text \<open>
  \<^verbatim>\<open>internal/auth/password.go\<close>: the length policy in characters, the encoded Argon2id hash and its
  verification. \<open>argon2.IDKey\<close> is a parameter: password, salt, time, memory, threads, key length; its
  result \<open>None\<close> is the panic the package raises on a zero time or thread count.
\<close>

section \<open>\<open>len([]rune(s))\<close>\<close>

definition utf8_cont :: "nat \<Rightarrow> bool" where
  "utf8_cont b \<longleftrightarrow> 0x80 \<le> b \<and> b \<le> 0xBF"

text \<open>The accepted range of the second byte after a first byte of a three or four byte sequence.\<close>

definition utf8_second :: "nat \<Rightarrow> nat \<Rightarrow> bool" where
  "utf8_second a b \<longleftrightarrow>
     (if a = 0xE0 then 0xA0 else if a = 0xF0 then 0x90 else 0x80) \<le> b \<and>
     b \<le> (if a = 0xED then 0x9F else if a = 0xF4 then 0x8F else 0xBF)"

text \<open>The number of bytes one iteration of rune decoding consumes; an invalid byte is one rune.\<close>

definition rune_width :: "nat list \<Rightarrow> nat" where
  "rune_width bs =
     (case bs of
        a # b # rest \<Rightarrow>
          (if 0xC2 \<le> a \<and> a \<le> 0xDF \<and> utf8_cont b then 2
           else if 0xE0 \<le> a \<and> a \<le> 0xEF \<and> utf8_second a b \<and> rest \<noteq> [] \<and> utf8_cont (rest ! 0) then 3
           else if 0xF0 \<le> a \<and> a \<le> 0xF4 \<and> utf8_second a b \<and> length rest \<ge> 2 \<and>
                   utf8_cont (rest ! 0) \<and> utf8_cont (rest ! 1) then 4
           else 1)
      | _ \<Rightarrow> 1)"

lemma rune_width_pos [simp]: "0 < rune_width bs"
  by (simp add: rune_width_def split: list.splits)

function count_runes :: "nat list \<Rightarrow> nat" where
  "count_runes bs = (if bs = [] then 0 else Suc (count_runes (drop (rune_width bs) bs)))"
  by pat_completeness auto
termination
  by (relation "measure length") auto

declare count_runes.simps [simp del]

definition rune_count :: "string \<Rightarrow> nat" where
  "rune_count s = count_runes (map of_char s)"

lemma count_runes_le: "count_runes bs \<le> length bs"
proof (induction bs rule: count_runes.induct)
  case (1 bs)
  show ?case
  proof (cases "bs = []")
    case False
    then have "count_runes (drop (rune_width bs) bs) \<le> length bs - rune_width bs" using 1 by simp
    moreover have "0 < rune_width bs" "0 < length bs" using False by simp_all
    ultimately have "Suc (count_runes (drop (rune_width bs) bs)) \<le> length bs" by linarith
    then show ?thesis using False by (subst count_runes.simps) simp
  qed (simp add: count_runes.simps)
qed

lemma count_runes_ascii: "list_all (\<lambda>b. b < 128) bs \<Longrightarrow> count_runes bs = length bs"
proof (induction bs)
  case (Cons a bs)
  then have "rune_width (a # bs) = 1" by (simp add: rune_width_def split: list.splits)
  with Cons show ?case by (subst count_runes.simps) simp
qed (simp add: count_runes.simps)

lemma rune_count_ascii: "is_ascii s \<Longrightarrow> rune_count s = length s"
  unfolding rune_count_def is_ascii_def by (subst count_runes_ascii) (simp_all add: list_all_iff)

section \<open>Operations\<close>

datatype password_error =
    PasswordLength
  | SaltUnavailable
  | Argon2Panic

type_synonym argon2 = "byte list \<Rightarrow> byte list \<Rightarrow> nat \<Rightarrow> nat \<Rightarrow> nat \<Rightarrow> nat \<Rightarrow> byte list option"

definition argonMemory :: nat where "argonMemory = 19 * 1024"
definition argonIterations :: nat where "argonIterations = 2"
definition argonParallelism :: nat where "argonParallelism = 1"
definition argonSaltLength :: nat where "argonSaltLength = 16"
definition argonKeyLength :: nat where "argonKeyLength = 32"

lemmas argon_defs = argonMemory_def argonIterations_def argonParallelism_def argonSaltLength_def argonKeyLength_def

definition ValidatePassword :: "string \<Rightarrow> password_error + unit" where
  "ValidatePassword password =
     (let n = rune_count password in if n < 12 \<or> n > 128 then Inl PasswordLength else Inr ())"

text \<open>\<open>fmt.Sprintf\<close> of the encoded hash.\<close>

definition encode_hash :: "nat \<Rightarrow> nat \<Rightarrow> nat \<Rightarrow> byte list \<Rightarrow> byte list \<Rightarrow> string" where
  "encode_hash memory iterations parallelism salt hash =
     ''$argon2id$v=19$m='' @ decimal memory @ '',t='' @ decimal iterations @ '',p='' @ decimal parallelism @
     ''$'' @ RawStdEncode salt @ ''$'' @ RawStdEncode hash"

definition HashPassword :: "argon2 \<Rightarrow> entropy \<Rightarrow> string \<Rightarrow> password_error + string" where
  "HashPassword IDKey rnd password =
     (case ValidatePassword password of
        Inl e \<Rightarrow> Inl e
      | Inr _ \<Rightarrow>
          (case rand_Read rnd argonSaltLength of
             None \<Rightarrow> Inl SaltUnavailable
           | Some salt \<Rightarrow>
               (case IDKey (bytes_of password) salt argonIterations argonMemory argonParallelism argonKeyLength of
                  None \<Rightarrow> Inl Argon2Panic
                | Some hash \<Rightarrow> Inr (encode_hash argonMemory argonIterations argonParallelism salt hash))))"

definition ConstantTimeCompare :: "byte list \<Rightarrow> byte list \<Rightarrow> int" where
  "ConstantTimeCompare x y =
     (if length x \<noteq> length y then 0 else if digest_difference 0 x y = 0 then 1 else 0)"

definition VerifyPassword :: "argon2 \<Rightarrow> string \<Rightarrow> string \<Rightarrow> password_error + bool \<times> bool" where
  "VerifyPassword IDKey encoded password =
     (let parts = Split (CHR ''$'') encoded in
      if length parts \<noteq> 6 \<or> parts ! 1 \<noteq> ''argon2id'' \<or> parts ! 2 \<noteq> ''v=19'' then Inr (False, False)
      else let params = Split (CHR '','') (parts ! 3) in
      if length params \<noteq> 3 then Inr (False, False)
      else (case (ParseUint 32 (TrimPrefix (params ! 0) ''m=''), ParseUint 32 (TrimPrefix (params ! 1) ''t=''),
                  ParseUint 8 (TrimPrefix (params ! 2) ''p=''), RawStdDecode (parts ! 4), RawStdDecode (parts ! 5)) of
              (Some memory64, Some iterations64, Some parallel64, Some salt, Some want) \<Rightarrow>
                if length want = 0 then Inr (False, False)
                else (case IDKey (bytes_of password) salt iterations64 memory64 parallel64 (length want mod 2 ^ 32) of
                        None \<Rightarrow> Inl Argon2Panic
                      | Some got \<Rightarrow>
                          let valid = (ConstantTimeCompare got want = 1);
                              rehash = (memory64 \<noteq> argonMemory \<or> iterations64 \<noteq> argonIterations \<or>
                                        parallel64 \<noteq> argonParallelism) in
                          Inr (valid, valid \<and> rehash))
            | _ \<Rightarrow> Inr (False, False)))"

section \<open>The encoded form is parsed back\<close>

lemma ConstantTimeCompare_1_iff [simp]: "ConstantTimeCompare x y = 1 \<longleftrightarrow> x = y"
  by (auto simp: ConstantTimeCompare_def digest_difference_0_iff)

lemma std_alphabet_plain: "c \<in> set std_alphabet \<Longrightarrow> c \<noteq> CHR ''$''"
  by (auto simp: std_alphabet_def)

lemma digit_plain: "is_digit_c c \<Longrightarrow> c \<noteq> CHR ''$'' \<and> c \<noteq> CHR '',''"
  by (auto simp: is_digit_c_def less_eq_char_def)

definition hash_params :: "nat \<Rightarrow> nat \<Rightarrow> nat \<Rightarrow> string" where
  "hash_params m t p = ''m='' @ decimal m @ '',t='' @ decimal t @ '',p='' @ decimal p"

lemma hash_params_shape:
  "CHR ''$'' \<notin> set (hash_params m t p)"
  "Split (CHR '','') (hash_params m t p) = [''m='' @ decimal m, ''t='' @ decimal t, ''p='' @ decimal p]"
proof -
  have plain: "CHR ''$'' \<notin> set (decimal n)" "CHR '','' \<notin> set (decimal n)" for n
    using decimal_digits digit_plain by blast+
  then show "CHR ''$'' \<notin> set (hash_params m t p)" by (auto simp: hash_params_def)
  have "hash_params m t p = Join '','' [''m='' @ decimal m, ''t='' @ decimal t, ''p='' @ decimal p]"
    by (simp add: hash_params_def)
  then show "Split (CHR '','') (hash_params m t p) = [''m='' @ decimal m, ''t='' @ decimal t, ''p='' @ decimal p]"
    using plain by (simp only:) (rule Split_Join; simp)
qed

lemma encode_hash_split:
  "Split (CHR ''$'') (encode_hash m t p salt hash) =
     [[], ''argon2id'', ''v=19'', hash_params m t p, RawStdEncode salt, RawStdEncode hash]"
proof -
  have enc: "CHR ''$'' \<notin> set (RawStdEncode bs)" for bs
    using RawStdEncode_chars std_alphabet_plain by blast
  have "encode_hash m t p salt hash =
      Join ''$'' [[], ''argon2id'', ''v=19'', hash_params m t p, RawStdEncode salt, RawStdEncode hash]"
    by (simp add: encode_hash_def hash_params_def)
  then show ?thesis using enc hash_params_shape(1) by (simp only:) (rule Split_Join; simp)
qed

lemma TrimPrefix_param:
  "TrimPrefix (''m='' @ s) ''m='' = s" "TrimPrefix (''t='' @ s) ''t='' = s" "TrimPrefix (''p='' @ s) ''p='' = s"
  by (rule TrimPrefix_append)+

lemma VerifyPassword_encoded:
  assumes "m < 2 ^ 32" and "t < 2 ^ 32" and "p < 2 ^ 8" and "want \<noteq> []"
  shows "VerifyPassword IDKey (encode_hash m t p salt want) password =
    (case IDKey (bytes_of password) salt t m p (length want mod 2 ^ 32) of
       None \<Rightarrow> Inl Argon2Panic
     | Some got \<Rightarrow> Inr (got = want, got = want \<and> (m, t, p) \<noteq> (argonMemory, argonIterations, argonParallelism)))"
proof -
  have "ParseUint 32 (decimal m) = Some m" "ParseUint 32 (decimal t) = Some t" "ParseUint 8 (decimal p) = Some p"
    using assms by (simp_all only: ParseUint_decimal)
  then show ?thesis
    using assms(4)
    unfolding VerifyPassword_def encode_hash_split Let_def
    by (simp add: hash_params_shape(2) TrimPrefix_param [simplified] RawStdDecode_Encode split: option.splits)
qed

section \<open>Properties\<close>

text \<open>The documented behaviour of \<open>argon2.IDKey\<close>: it panics on zero rounds or zero threads and otherwise
  derives a key of the requested length.\<close>

definition argon2_documented :: "argon2 \<Rightarrow> bool" where
  "argon2_documented IDKey \<longleftrightarrow>
     (\<forall>password salt t m p n. if t = 0 \<or> p = 0 then IDKey password salt t m p n = None
        else (\<exists>key. IDKey password salt t m p n = Some key \<and> length key = n))"

lemma argon2_derives:
  assumes "argon2_documented IDKey" and "t \<noteq> 0" and "p \<noteq> 0"
  obtains key where "IDKey password salt t m p n = Some key" and "length key = n"
proof -
  have "if t = 0 \<or> p = 0 then IDKey password salt t m p n = None
      else (\<exists>key. IDKey password salt t m p n = Some key \<and> length key = n)"
    using assms(1) unfolding argon2_documented_def by blast
  then show ?thesis using assms(2,3) that by auto
qed

lemma costs_nonzero: "(2 :: nat) \<noteq> 0" "(1 :: nat) \<noteq> 0"
  by simp_all

lemma HashPassword_ok:
  assumes "argon2_documented IDKey" and "12 \<le> rune_count password" and "rune_count password \<le> 128"
  shows "\<exists>hash. length hash = 32 \<and> IDKey (bytes_of password) (map r [0..<16]) 2 19456 1 32 = Some hash \<and>
    HashPassword IDKey (Some r) password = Inr (encode_hash 19456 2 1 (map r [0..<16]) hash)"
proof -
  obtain hash where "IDKey (bytes_of password) (map r [0..<16]) 2 19456 1 32 = Some hash" "length hash = 32"
    by (rule argon2_derives [OF assms(1) costs_nonzero])
  then show ?thesis
    using assms(2,3) by (simp add: HashPassword_def ValidatePassword_def rand_Read_def argon_defs del: upt_Suc)
qed

text \<open>C36 (password_hash_round_trip): hashing a password of 12 to 128 characters succeeds whenever the
  random source works; the stored text verifies that password and never asks for a rehash; any other
  password is accepted exactly when Argon2id derives the same 32-byte key from it under the stored salt.\<close>

theorem password_hash_round_trip:
  assumes "argon2_documented IDKey" and "12 \<le> rune_count password" and "rune_count password \<le> 128"
  shows "\<exists>encoded. HashPassword IDKey (Some r) password = Inr encoded \<and>
    VerifyPassword IDKey encoded password = Inr (True, False) \<and>
    VerifyPassword IDKey encoded other =
      Inr (IDKey (bytes_of other) (map r [0..<16]) 2 19456 1 32 =
           IDKey (bytes_of password) (map r [0..<16]) 2 19456 1 32, False)"
proof -
  obtain hash where h: "length hash = 32" "IDKey (bytes_of password) (map r [0..<16]) 2 19456 1 32 = Some hash"
    "HashPassword IDKey (Some r) password = Inr (encode_hash 19456 2 1 (map r [0..<16]) hash)"
    using HashPassword_ok [OF assms] by blast
  have verify: "VerifyPassword IDKey (encode_hash 19456 2 1 (map r [0..<16]) hash) q =
      (case IDKey (bytes_of q) (map r [0..<16]) 2 19456 1 32 of
         None \<Rightarrow> Inl Argon2Panic | Some got \<Rightarrow> Inr (got = hash, False))" for q
    using h(1) by (subst VerifyPassword_encoded) (auto simp: argon_defs split: option.splits)
  obtain key where "IDKey (bytes_of other) (map r [0..<16]) 2 19456 1 32 = Some key"
    by (rule argon2_derives [OF assms(1) costs_nonzero])
  then show ?thesis using h(2,3) verify by (auto simp del: upt_Suc)
qed

definition demo_argon2 :: argon2 where
  "demo_argon2 password salt t m p n =
     (if t = 0 \<or> p = 0 then None else Some (take n (password @ replicate n 0)))"

lemma demo_argon2_documented: "argon2_documented demo_argon2"
  by (auto simp: argon2_documented_def demo_argon2_def)

lemma demo_password: "rune_count ''correct horse battery'' = 21"
  by (subst rune_count_ascii) (simp_all add: is_ascii_def)

theorem password_hash_round_trip_witness:
  "argon2_documented demo_argon2 \<and> (\<exists>encoded.
    HashPassword demo_argon2 (Some (\<lambda>_. 5)) ''correct horse battery'' = Inr encoded \<and>
    VerifyPassword demo_argon2 encoded ''correct horse battery'' = Inr (True, False) \<and>
    VerifyPassword demo_argon2 encoded ''wrong'' =
      Inr (demo_argon2 (bytes_of ''wrong'') (map (\<lambda>_. 5) [0..<16]) 2 19456 1 32 =
           demo_argon2 (bytes_of ''correct horse battery'') (map (\<lambda>_. 5) [0..<16]) 2 19456 1 32, False))"
proof (intro conjI demo_argon2_documented)
qed (rule password_hash_round_trip [OF demo_argon2_documented]; simp add: demo_password)

text \<open>Lemma (password_policy_and_rehash): passwords outside 12 to 128 characters are refused before any salt
  is drawn; a stored hash with other (non-zero) cost parameters still verifies its password and then, and
  only then, asks for a rehash; a stored hash with a zero iteration or thread count makes verification
  panic instead of returning false.\<close>

theorem password_policy_and_rehash:
  assumes "argon2_documented IDKey" and "m < 2 ^ 32" and "t < 2 ^ 32" and "p < 2 ^ 8"
    and "want \<noteq> []" and "length want < 2 ^ 32"
  shows "(rune_count password < 12 \<or> 128 < rune_count password \<longrightarrow>
      HashPassword IDKey rnd password = Inl PasswordLength) \<and>
    (if t = 0 \<or> p = 0 then VerifyPassword IDKey (encode_hash m t p salt want) password = Inl Argon2Panic
     else \<exists>valid. VerifyPassword IDKey (encode_hash m t p salt want) password =
       Inr (valid, valid \<and> (m, t, p) \<noteq> (argonMemory, argonIterations, argonParallelism)) \<and>
       (valid \<longleftrightarrow> IDKey (bytes_of password) salt t m p (length want) = Some want))"
proof (intro conjI impI)
  assume "rune_count password < 12 \<or> 128 < rune_count password"
  then show "HashPassword IDKey rnd password = Inl PasswordLength"
    by (auto simp: HashPassword_def ValidatePassword_def Let_def)
next
  have key: "if t = 0 \<or> p = 0 then IDKey (bytes_of password) salt t m p (length want) = None
      else (\<exists>key. IDKey (bytes_of password) salt t m p (length want) = Some key \<and> length key = length want)"
    using assms(1) unfolding argon2_documented_def by blast
  have len: "length want mod 2 ^ 32 = length want" using assms(6) by (rule mod_less)
  have verify: "VerifyPassword IDKey (encode_hash m t p salt want) password =
    (case IDKey (bytes_of password) salt t m p (length want) of
       None \<Rightarrow> Inl Argon2Panic
     | Some got \<Rightarrow> Inr (got = want, got = want \<and> (m, t, p) \<noteq> (argonMemory, argonIterations, argonParallelism)))"
    using VerifyPassword_encoded [OF assms(2-5), of IDKey salt password] unfolding len .
  show "if t = 0 \<or> p = 0 then VerifyPassword IDKey (encode_hash m t p salt want) password = Inl Argon2Panic
     else \<exists>valid. VerifyPassword IDKey (encode_hash m t p salt want) password =
       Inr (valid, valid \<and> (m, t, p) \<noteq> (argonMemory, argonIterations, argonParallelism)) \<and>
       (valid \<longleftrightarrow> IDKey (bytes_of password) salt t m p (length want) = Some want)"
  proof (cases "t = 0 \<or> p = 0")
    case True
    with key have "IDKey (bytes_of password) salt t m p (length want) = None" by simp
    with True verify show ?thesis by simp
  next
    case False
    with key obtain got where "IDKey (bytes_of password) salt t m p (length want) = Some got"
      by auto
    with False verify show ?thesis by simp
  qed
qed

theorem password_policy_and_rehash_witness:
  "argon2_documented demo_argon2 \<and> HashPassword demo_argon2 None ''short'' = Inl PasswordLength \<and>
    VerifyPassword demo_argon2 (encode_hash 4096 0 1 [1] [2]) ''short'' = Inl Argon2Panic"
proof -
  have "rune_count ''short'' < 12" by code_simp
  then show ?thesis
    using demo_argon2_documented
      password_policy_and_rehash [of demo_argon2 4096 0 1 "[2]" "''short''" None "[1]"] by simp
qed

end
