(* ===== verification/Keyring.thy ===== *)
theory Keyring
  imports Tokens
begin

text \<open>
  \<^verbatim>\<open>internal/auth/keyring.go\<close>: the versioned encryption keyring that protects secrets at rest. AES-GCM
  is a parameter (its sealing and opening functions); its key and nonce sizes are the standard
  library's.
\<close>

section \<open>Data\<close>

record EncryptedValue =
  ev_KeyVersion :: string
  ev_Nonce :: "byte list"
  ev_Ciphertext :: "byte list"

record EncryptionKeyring =
  activeVersion :: string
  keys :: "string \<rightharpoonup> byte list"

datatype keyring_error =
    KeysRequired
  | InvalidKeyEntry string
  | DuplicateKeyVersion string
  | InvalidKeyBytes string
  | KeyringNotConfigured
  | InvalidKeySize nat
  | NonceUnavailable
  | KeyVersionUnavailable string
  | InvalidNonceLength
  | AuthenticationFailed

text \<open>\<open>aead_seal\<close> and \<open>aead_open\<close> take key, nonce, text and authenticated context, in this order.\<close>

type_synonym aead_seal = "byte list \<Rightarrow> byte list \<Rightarrow> byte list \<Rightarrow> byte list \<Rightarrow> byte list"
type_synonym aead_open = "byte list \<Rightarrow> byte list \<Rightarrow> byte list \<Rightarrow> byte list \<Rightarrow> byte list option"

definition keyVersionPattern :: "string \<Rightarrow> bool" where
  "keyVersionPattern =
     head_tail_match is_alnum_c (\<lambda>c. is_alnum_c c \<or> c = CHR ''.'' \<or> c = CHR ''_'' \<or> c = CHR ''-'') 31"

section \<open>Operations\<close>

text \<open>The loop over the comma separated entries.\<close>

fun parse_keys ::
  "string \<Rightarrow> (string \<rightharpoonup> byte list) \<Rightarrow> string list \<Rightarrow> keyring_error + EncryptionKeyring" where
  "parse_keys active ks [] = Inr \<lparr>activeVersion = active, keys = ks\<rparr>"
| "parse_keys active ks (entry # entries) =
     (case Cut (CHR '':'') (TrimSpace entry) of
        None \<Rightarrow> Inl (InvalidKeyEntry entry)
      | Some (version, encoded) \<Rightarrow>
          if \<not> keyVersionPattern version \<or> encoded = [] then Inl (InvalidKeyEntry entry)
          else if ks version \<noteq> None then Inl (DuplicateKeyVersion version)
          else (case RawURLDecode encoded of
                  None \<Rightarrow> Inl (InvalidKeyBytes version)
                | Some key \<Rightarrow>
                    if length key \<noteq> 32 then Inl (InvalidKeyBytes version)
                    else parse_keys (if active = [] then version else active) (ks(version \<mapsto> key)) entries))"

definition ParseEncryptionKeyring :: "string \<Rightarrow> keyring_error + EncryptionKeyring" where
  "ParseEncryptionKeyring raw =
     (let entries = Split (CHR '','') (TrimSpace raw) in
      if length entries = 1 \<and> TrimSpace (entries ! 0) = [] then Inl KeysRequired
      else parse_keys [] Map.empty entries)"

definition ActiveVersion :: "EncryptionKeyring option \<Rightarrow> string" where
  "ActiveVersion k = (case k of None \<Rightarrow> [] | Some r \<Rightarrow> activeVersion r)"

text \<open>\<open>aes.NewCipher\<close> accepts keys of 16, 24 and 32 bytes; the AEAD is represented by the key.\<close>

definition newAEAD :: "byte list \<Rightarrow> keyring_error + byte list" where
  "newAEAD key = (if length key \<in> {16, 24, 32} then Inr key else Inl (InvalidKeySize (length key)))"

definition NonceSize :: nat where "NonceSize = 12"

text \<open>A missing map entry reads as the nil slice.\<close>

definition Seal :: "aead_seal \<Rightarrow> EncryptionKeyring option \<Rightarrow> entropy \<Rightarrow> byte list \<Rightarrow> byte list \<Rightarrow>
    keyring_error + EncryptedValue" where
  "Seal sealf k rnd plaintext authenticatedContext =
     (case k of
        None \<Rightarrow> Inl KeyringNotConfigured
      | Some r \<Rightarrow>
          if activeVersion r = [] then Inl KeyringNotConfigured
          else (case newAEAD (case keys r (activeVersion r) of None \<Rightarrow> [] | Some key \<Rightarrow> key) of
                  Inl e \<Rightarrow> Inl e
                | Inr aead \<Rightarrow>
                    (case rand_Read rnd NonceSize of
                       None \<Rightarrow> Inl NonceUnavailable
                     | Some nonce \<Rightarrow>
                         Inr \<lparr>ev_KeyVersion = activeVersion r, ev_Nonce = nonce,
                              ev_Ciphertext = sealf aead nonce plaintext authenticatedContext\<rparr>)))"

definition Open :: "aead_open \<Rightarrow> EncryptionKeyring option \<Rightarrow> EncryptedValue \<Rightarrow> byte list \<Rightarrow>
    keyring_error + byte list" where
  "Open openf k value authenticatedContext =
     (case k of
        None \<Rightarrow> Inl KeyringNotConfigured
      | Some r \<Rightarrow>
          (case keys r (ev_KeyVersion value) of
             None \<Rightarrow> Inl (KeyVersionUnavailable (ev_KeyVersion value))
           | Some key \<Rightarrow>
               (case newAEAD key of
                  Inl e \<Rightarrow> Inl e
                | Inr aead \<Rightarrow>
                    if length (ev_Nonce value) \<noteq> NonceSize then Inl InvalidNonceLength
                    else (case openf aead (ev_Nonce value) (ev_Ciphertext value) authenticatedContext of
                            None \<Rightarrow> Inl AuthenticationFailed
                          | Some plaintext \<Rightarrow> Inr plaintext))))"

section \<open>Parsing\<close>

definition keyring_ok :: "EncryptionKeyring \<Rightarrow> bool" where
  "keyring_ok r \<longleftrightarrow> activeVersion r \<noteq> [] \<and> activeVersion r \<in> dom (keys r) \<and>
     (\<forall>v key. keys r v = Some key \<longrightarrow> keyVersionPattern v \<and> length key = 32)"

lemma keyVersionPattern_nonempty: "keyVersionPattern v \<Longrightarrow> v \<noteq> []"
  by (auto simp: keyVersionPattern_def dest: head_tail_match_length)

text \<open>The loop invariant: nothing parsed yet, or a well-formed keyring.\<close>

lemma parse_keys_ok:
  assumes "parse_keys active ks entries = Inr r"
    and "entries = [] \<longrightarrow> active \<noteq> []"
    and "active \<noteq> [] \<Longrightarrow> active \<in> dom ks"
    and "\<forall>v key. ks v = Some key \<longrightarrow> keyVersionPattern v \<and> length key = 32"
  shows "keyring_ok r"
  using assms
proof (induction active ks entries rule: parse_keys.induct)
  case (1 active ks)
  then show ?case by (auto simp: keyring_ok_def)
next
  case (2 active ks entry entries)
  from "2.prems"(1) obtain version encoded key where
    c: "Cut (CHR '':'') (TrimSpace entry) = Some (version, encoded)"
    and v: "keyVersionPattern version" "encoded \<noteq> []" "ks version = None"
    and k: "RawURLDecode encoded = Some key" "length key = 32"
    and r: "parse_keys (if active = [] then version else active) (ks(version \<mapsto> key)) entries = Inr r"
    by (auto split: option.splits if_splits)
  show ?case
    by (rule "2.IH" [OF c refl _ _ k(1) _ r])
      (use v k "2.prems"(3-) keyVersionPattern_nonempty in auto)
qed

lemma ParseEncryptionKeyring_ok:
  assumes "ParseEncryptionKeyring raw = Inr r"
  shows "keyring_ok r"
proof -
  have "parse_keys [] Map.empty (Split (CHR '','') (TrimSpace raw)) = Inr r"
    using assms by (simp add: ParseEncryptionKeyring_def Let_def split: if_splits)
  then show ?thesis by (rule parse_keys_ok) simp_all
qed

section \<open>Printing and parsing\<close>

text \<open>The documented configuration format, newest key first.\<close>

definition print_key :: "string \<times> byte list \<Rightarrow> string" where
  "print_key e = fst e @ CHR '':'' # RawURLEncode (snd e)"

definition print_keyring :: "(string \<times> byte list) list \<Rightarrow> string" where
  "print_keyring es = Join '','' (map print_key es)"

definition key_entry_ok :: "string \<times> byte list \<Rightarrow> bool" where
  "key_entry_ok e \<longleftrightarrow> keyVersionPattern (fst e) \<and> length (snd e) = 32"

lemma keyVersionPattern_chars:
  assumes "keyVersionPattern v"
  shows "CHR '':'' \<notin> set v" "CHR '','' \<notin> set v" "visible_c (hd v)"
proof -
  from assms obtain c cs where v: "v = c # cs" "is_alnum_c c"
    and cs: "list_all (\<lambda>c. is_alnum_c c \<or> c = CHR ''.'' \<or> c = CHR ''_'' \<or> c = CHR ''-'') cs"
    by (auto simp: keyVersionPattern_def head_tail_match_def split: list.splits)
  have no: "\<not> is_alnum_c (CHR '':'')" "\<not> is_alnum_c (CHR '','')"
    by (simp_all add: char_class_defs less_eq_char_def)
  show "CHR '':'' \<notin> set v" "CHR '','' \<notin> set v"
    using v cs no by (auto simp: list_all_iff)
  show "visible_c (hd v)"
    using v by (auto simp: visible_c_def char_class_defs less_eq_char_def)
qed

lemma url_alphabet_plain:
  "c \<in> set url_alphabet \<Longrightarrow> visible_c c \<and> c \<noteq> CHR '':'' \<and> c \<noteq> CHR '',''"
  by (auto simp: url_alphabet_def visible_c_def)

lemma RawURLEncode_nonempty: "length key = 32 \<Longrightarrow> RawURLEncode key \<noteq> []"
  using length_RawURLEncode [of key] by auto

lemma print_key_shape:
  assumes "key_entry_ok e"
  shows "TrimSpace (print_key e) = print_key e" "CHR '','' \<notin> set (print_key e)" "print_key e \<noteq> []"
    "visible_c (hd (print_key e))" "visible_c (last (print_key e))"
    "Cut (CHR '':'') (print_key e) = Some (fst e, RawURLEncode (snd e))"
proof -
  have v: "keyVersionPattern (fst e)" and n: "RawURLEncode (snd e) \<noteq> []"
    using assms RawURLEncode_nonempty by (auto simp: key_entry_ok_def)
  note v' = keyVersionPattern_chars [OF v] keyVersionPattern_nonempty [OF v]
  have enc: "visible_c c \<and> c \<noteq> CHR '':'' \<and> c \<noteq> CHR '',''" if "c \<in> set (RawURLEncode (snd e))" for c
    using that RawURLEncode_chars url_alphabet_plain by blast
  show ne: "print_key e \<noteq> []" by (simp add: print_key_def)
  show hd: "visible_c (hd (print_key e))" using v' by (simp add: print_key_def hd_append)
  show last: "visible_c (last (print_key e))"
    using n enc last_in_set by (auto simp: print_key_def)
  show "TrimSpace (print_key e) = print_key e" by (rule TrimSpace_visible [OF ne hd last])
  show "CHR '','' \<notin> set (print_key e)" using v' enc by (auto simp: print_key_def)
  show "Cut (CHR '':'') (print_key e) = Some (fst e, RawURLEncode (snd e))"
    using v' by (simp add: print_key_def Cut_append)
qed

lemma parse_keys_print:
  assumes "list_all key_entry_ok es" and "distinct (map fst es)" and "dom ks \<inter> fst ` set es = {}"
  shows "parse_keys active ks (map print_key es) =
    Inr \<lparr>activeVersion = (if active = [] \<and> es \<noteq> [] then fst (hd es) else active), keys = ks ++ map_of es\<rparr>"
  using assms
proof (induction es arbitrary: active ks)
  case (Cons e es)
  have ok: "key_entry_ok e" and v: "keyVersionPattern (fst e)" "length (snd e) = 32" "ks (fst e) = None"
    using Cons.prems by (auto simp: key_entry_ok_def)
  have ne: "fst e \<noteq> []" using v(1) by (rule keyVersionPattern_nonempty)
  have "map_of es (fst e) = None" using Cons.prems(2) by (simp add: map_of_eq_None_iff)
  then have m: "ks(fst e \<mapsto> snd e) ++ map_of es = ks ++ map_of (e # es)"
    by (cases e) (auto simp: map_add_def split: option.splits)
  have "parse_keys active ks (map print_key (e # es)) =
      parse_keys (if active = [] then fst e else active) (ks(fst e \<mapsto> snd e)) (map print_key es)"
    using ok v by (simp add: print_key_shape RawURLDecode_Encode RawURLEncode_nonempty)
  also have "\<dots> = Inr \<lparr>activeVersion = (if active = [] then fst e else active),
      keys = ks(fst e \<mapsto> snd e) ++ map_of es\<rparr>"
    using Cons.prems ne by (subst Cons.IH) auto
  finally show ?case unfolding m by (simp only: list.simps list.sel if_False if_True simp_thms)
qed simp

lemma print_keyring_shape:
  assumes "es \<noteq> []" and "list_all key_entry_ok es"
  shows "TrimSpace (print_keyring es) = print_keyring es"
    "Split (CHR '','') (print_keyring es) = map print_key es"
proof -
  have ok: "key_entry_ok e" if "e \<in> set es" for e using assms(2) that by (simp add: list_all_iff)
  have ne: "map print_key es \<noteq> []" "list_all (\<lambda>x. x \<noteq> []) (map print_key es)"
    "hd (map print_key es) \<noteq> []"
    using assms(1) ok print_key_shape(3) by (simp_all add: list_all_iff hd_map)
  have "visible_c (hd (print_keyring es))" "visible_c (last (print_keyring es))" "print_keyring es \<noteq> []"
    using Join_hd [OF ne(1,3), of "'',''"] Join_last [OF ne(1,2), of "'',''"] assms(1) ok
      print_key_shape(4,5) hd_in_set last_in_set
    by (simp_all add: print_keyring_def hd_map last_map)
  then show "TrimSpace (print_keyring es) = print_keyring es" by (intro TrimSpace_visible)
  show "Split (CHR '','') (print_keyring es) = map print_key es"
    unfolding print_keyring_def using ne(1) ok print_key_shape(2)
    by (intro Split_Join) (auto simp: list_all_iff)
qed

lemma ParseEncryptionKeyring_print:
  assumes "es \<noteq> []" and "list_all key_entry_ok es" and "distinct (map fst es)"
  shows "ParseEncryptionKeyring (print_keyring es) =
    Inr \<lparr>activeVersion = fst (hd es), keys = map_of es\<rparr>"
proof -
  have "TrimSpace (map print_key es ! 0) \<noteq> []"
    using assms(1,2) by (cases es) (simp_all add: print_key_shape)
  then show ?thesis
    using assms by (simp add: ParseEncryptionKeyring_def print_keyring_shape Let_def parse_keys_print)
qed

section \<open>Properties\<close>

definition aead_correct :: "aead_seal \<Rightarrow> aead_open \<Rightarrow> bool" where
  "aead_correct sealf openf \<longleftrightarrow>
     (\<forall>key nonce text ctx. openf key nonce (sealf key nonce text ctx) ctx = Some text)"

lemma Seal_ok:
  assumes "keyring_ok r"
  shows "Seal sealf (Some r) (Some q) text ctx =
    Inr \<lparr>ev_KeyVersion = activeVersion r, ev_Nonce = map q [0..<12],
         ev_Ciphertext = sealf (the (keys r (activeVersion r))) (map q [0..<12]) text ctx\<rparr>"
proof -
  from assms obtain key where "activeVersion r \<noteq> []" "keys r (activeVersion r) = Some key" "length key = 32"
    by (auto simp: keyring_ok_def)
  then show ?thesis by (simp add: Seal_def newAEAD_def rand_Read_def NonceSize_def del: upt_Suc)
qed

lemma Open_sealed:
  assumes "aead_correct sealf openf" and "keyring_ok r"
    and "keys r version = Some key"
  shows "Open openf (Some r) \<lparr>ev_KeyVersion = version, ev_Nonce = map q [0..<12],
      ev_Ciphertext = sealf key (map q [0..<12]) text ctx\<rparr> ctx = Inr text"
  using assms by (simp add: Open_def newAEAD_def NonceSize_def keyring_ok_def aead_correct_def del: upt_Suc)

lemma keyring_ok_print:
  assumes "es \<noteq> []" and "list_all key_entry_ok es" and "distinct (map fst es)"
  shows "keyring_ok \<lparr>activeVersion = fst (hd es), keys = map_of es\<rparr>"
  using ParseEncryptionKeyring_print [OF assms] by (rule ParseEncryptionKeyring_ok)

text \<open>Lemma (parsed_keyring_usable): whatever text \<open>ParseEncryptionKeyring\<close> accepts gives a keyring whose
  active key exists and has 32 bytes; sealing with it succeeds on every text as long as the random source
  works, stamps the value with the active version and a 12-byte nonce, and the same keyring opens the
  value under the same context to the original text.\<close>

theorem parsed_keyring_usable:
  assumes "ParseEncryptionKeyring raw = Inr r" and "aead_correct sealf openf"
  shows "keyring_ok r \<and>
    (\<exists>v. Seal sealf (Some r) (Some q) text ctx = Inr v \<and>
         ev_KeyVersion v = ActiveVersion (Some r) \<and> length (ev_Nonce v) = NonceSize \<and>
         Open openf (Some r) v ctx = Inr text)"
proof -
  have ok: "keyring_ok r" using assms(1) by (rule ParseEncryptionKeyring_ok)
  then obtain key where key: "keys r (activeVersion r) = Some key" by (auto simp: keyring_ok_def)
  show ?thesis
    using ok Seal_ok [OF ok, of sealf q "text" ctx] Open_sealed [OF assms(2) ok key, of q "text" ctx] key
    by (simp add: ActiveVersion_def NonceSize_def del: upt_Suc)
qed

definition demo_seal :: aead_seal where
  "demo_seal key nonce text ctx = text @ ctx"
definition demo_open :: aead_open where
  "demo_open key nonce ct ctx =
     (if suffix ctx ct then Some (take (length ct - length ctx) ct) else None)"

lemma demo_aead_correct: "aead_correct demo_seal demo_open"
  by (simp add: aead_correct_def demo_seal_def demo_open_def suffix_def)

definition demo_keys :: "(string \<times> byte list) list" where
  "demo_keys = [(''v1'', replicate 32 7)]"

lemma demo_keys_ok: "demo_keys \<noteq> []" "list_all key_entry_ok demo_keys" "distinct (map fst demo_keys)"
  by (simp_all add: demo_keys_def key_entry_ok_def keyVersionPattern_def head_tail_match_def char_class_defs
      less_eq_char_def)

theorem parsed_keyring_usable_witness:
  "\<exists>r. ParseEncryptionKeyring (print_keyring demo_keys) = Inr r \<and> aead_correct demo_seal demo_open \<and>
    keyring_ok r \<and>
    (\<exists>v. Seal demo_seal (Some r) (Some (\<lambda>_. 3)) [1, 2] [9] = Inr v \<and>
         ev_KeyVersion v = ActiveVersion (Some r) \<and> length (ev_Nonce v) = NonceSize \<and>
         Open demo_open (Some r) v [9] = Inr [1, 2])"
  using parsed_keyring_usable [OF ParseEncryptionKeyring_print [OF demo_keys_ok] demo_aead_correct]
    ParseEncryptionKeyring_print [OF demo_keys_ok] demo_aead_correct by blast

text \<open>Lemma (key_rotation_keeps_values): putting a key with a fresh version in front of the configuration
  keeps every value sealed before the rotation readable, seals new values under the new version, and a
  process still running with the old configuration refuses the new values by name of the missing version
  instead of misreading them.\<close>

theorem key_rotation_keeps_values:
  assumes "es \<noteq> []" and "list_all key_entry_ok (e # es)" and "distinct (map fst (e # es))"
    and "aead_correct sealf openf"
  shows "\<exists>old new v w.
    ParseEncryptionKeyring (print_keyring es) = Inr old \<and>
    ParseEncryptionKeyring (print_keyring (e # es)) = Inr new \<and>
    Seal sealf (Some old) (Some q) text ctx = Inr v \<and> Open openf (Some new) v ctx = Inr text \<and>
    Seal sealf (Some new) (Some q) text ctx = Inr w \<and> ev_KeyVersion w = fst e \<and>
    Open openf (Some new) w ctx = Inr text \<and>
    Open openf (Some old) w ctx = Inl (KeyVersionUnavailable (fst e))"
proof -
  let ?old = "\<lparr>activeVersion = fst (hd es), keys = map_of es\<rparr>"
  let ?new = "\<lparr>activeVersion = fst e, keys = map_of (e # es)\<rparr>"
  have es: "list_all key_entry_ok es" "distinct (map fst es)" using assms(2,3) by simp_all
  note parse_old = ParseEncryptionKeyring_print [OF assms(1) es]
  have parse_new: "ParseEncryptionKeyring (print_keyring (e # es)) = Inr ?new"
    using ParseEncryptionKeyring_print [OF _ assms(2,3)] by simp
  have ok_old: "keyring_ok ?old" and ok_new: "keyring_ok ?new"
    using ParseEncryptionKeyring_ok parse_old parse_new by blast+
  have fresh: "map_of es (fst e) = None" using assms(3) by (simp add: map_of_eq_None_iff)
  have "fst (hd es) \<in> fst ` set es" using assms(1) by (simp add: hd_in_set)
  then obtain key where key: "map_of es (fst (hd es)) = Some key"
    by (metis map_of_eq_None_iff option.exhaust)
  have ne: "fst (hd es) \<noteq> fst e" using fresh key by auto
  have open_old: "Open openf (Some ?new) \<lparr>ev_KeyVersion = fst (hd es), ev_Nonce = map q [0..<12],
      ev_Ciphertext = sealf key (map q [0..<12]) text ctx\<rparr> ctx = Inr text"
    by (rule Open_sealed [OF assms(4) ok_new]) (use key ne in \<open>cases e; simp\<close>)
  have open_new: "Open openf (Some ?new) \<lparr>ev_KeyVersion = fst e, ev_Nonce = map q [0..<12],
      ev_Ciphertext = sealf (snd e) (map q [0..<12]) text ctx\<rparr> ctx = Inr text"
    by (rule Open_sealed [OF assms(4) ok_new]) (cases e; simp)
  have missing: "Open openf (Some ?old) \<lparr>ev_KeyVersion = fst e, ev_Nonce = nonce, ev_Ciphertext = c\<rparr> ctx =
      Inl (KeyVersionUnavailable (fst e))" for nonce c
    using fresh by (simp add: Open_def)
  show ?thesis
    using parse_old parse_new Seal_ok [OF ok_old, of sealf q "text" ctx] Seal_ok [OF ok_new, of sealf q "text" ctx]
      open_old open_new key missing
    by (cases e) (simp del: upt_Suc)
qed

theorem key_rotation_keeps_values_witness:
  "\<exists>old new v w.
    ParseEncryptionKeyring (print_keyring demo_keys) = Inr old \<and>
    ParseEncryptionKeyring (print_keyring ((''v2'', replicate 32 8) # demo_keys)) = Inr new \<and>
    Seal demo_seal (Some old) (Some (\<lambda>_. 3)) [1, 2] [9] = Inr v \<and> Open demo_open (Some new) v [9] = Inr [1, 2] \<and>
    Seal demo_seal (Some new) (Some (\<lambda>_. 3)) [1, 2] [9] = Inr w \<and> ev_KeyVersion w = fst (''v2'', replicate 32 8 :: byte list) \<and>
    Open demo_open (Some new) w [9] = Inr [1, 2] \<and>
    Open demo_open (Some old) w [9] = Inl (KeyVersionUnavailable (fst (''v2'', replicate 32 8 :: byte list)))"
  by (rule key_rotation_keeps_values [OF demo_keys_ok(1) _ _ demo_aead_correct])
    (simp_all add: demo_keys_def key_entry_ok_def keyVersionPattern_def head_tail_match_def char_class_defs
      less_eq_char_def)

end
