(* ===== verification/Api_Base.thy ===== *)
theory Api_Base
  imports Background_Jobs Idempotency Rate_Limits Passwords Keyring
begin

text \<open>
  What the HTTP components share: requests and responses, the server's configuration with the external
  functions it calls, and the database as one record with a field per table.

  A handler is a function of the server, of the circumstances of the call (the instant, the generated
  UUIDs and random bytes, the failing database calls), of the request and of the database; it returns
  the response and the database. The body of a JSON request is the value the decoder produced, an argument of
  the handler that is \<open>None\<close> when decoding fails; the body of a form request is the text in \<open>hq_body\<close>.
\<close>

section \<open>Requests and responses\<close>

record principal =
  p_TenantUID :: uid
  p_MemberUID :: uid
  p_SessionUID :: uid
  p_Role :: string
  p_AuthenticationAssurance :: string

record service_context =
  serviceCredentialUID :: uid
  serviceAccountUID :: uid
  serviceTenantUID :: uid
  serviceProjectUID :: uid

record oauthResourcePrincipal =
  op_TenantUID :: uid
  op_MemberUID :: uid
  op_Subject :: string
  op_ApplicationUID :: uid
  op_ResourceServerUID :: uid
  op_ResourceServerIdentifier :: string
  op_Scopes :: "string list"
  op_PolicyVersion :: int
  op_ExpiresAt :: time

record http_request =
  hq_method :: string
  hq_header :: "string \<Rightarrow> string"
  hq_cookie :: "string \<Rightarrow> string option"
  hq_path :: "string \<Rightarrow> string"
  hq_query :: "string \<Rightarrow> string"
  hq_body :: string
  hq_basic_auth :: "(string \<times> string) option"
  hq_remote_addr :: string
  hq_request_id :: string
  hq_principal :: "principal option"
  hq_service :: "service_context option"
  hq_resource_principal :: "oauthResourcePrincipal option"

datatype http_body = NoBody | JsonBody json | TextBody string

record http_response =
  hs_status :: nat
  hs_headers :: "(string \<times> string) list"
  hs_body :: http_body

definition writeJSON :: "nat \<Rightarrow> json \<Rightarrow> http_response" where
  "writeJSON status value =
     \<lparr>hs_status = status, hs_headers = [(''Content-Type'', ''application/json'')],
      hs_body = (if status \<noteq> 204 then JsonBody value else NoBody)\<rparr>"

definition problem :: "http_request \<Rightarrow> string \<Rightarrow> string \<Rightarrow> json" where
  "problem r code message =
     JObj [(''error'', JObj [(''code'', JStr code), (''message'', JStr message),
                             (''request_id'', JStr (hq_request_id r))])]"

definition fail :: "http_request \<Rightarrow> nat \<Rightarrow> string \<Rightarrow> string \<Rightarrow> http_response" where
  "fail r status code message = writeJSON status (problem r code message)"

definition with_header :: "string \<Rightarrow> string \<Rightarrow> http_response \<Rightarrow> http_response" where
  "with_header name value w = w\<lparr>hs_headers := (name, value) # hs_headers w\<rparr>"

definition no_content :: "nat \<Rightarrow> http_response" where
  "no_content status = \<lparr>hs_status = status, hs_headers = [], hs_body = NoBody\<rparr>"

lemma response_status [simp]:
  "hs_status (writeJSON s j) = s" "hs_status (fail r s c m) = s" "hs_status (with_header n v w) = hs_status w"
  "hs_status (no_content s) = s"
  by (simp_all add: writeJSON_def fail_def with_header_def no_content_def)

definition mustPrincipal :: "http_request \<Rightarrow> principal" where
  "mustPrincipal r = the (hq_principal r)"

section \<open>The server\<close>

record url_parts =
  up_Scheme :: string
  up_Host :: string
  up_Hostname :: string
  up_has_User :: bool
  up_Fragment :: string
  up_RawQuery :: string
  up_Path :: string
  up_String :: string

record emailMessage =
  em_DeliveryUID :: uid
  em_To :: string
  em_Subject :: string
  em_Text :: string

text \<open>
  The configuration, followed by the functions of other packages: hashes, ciphers and signatures
  (\<open>Sum256\<close> to \<open>rsa_Sign\<close>, private keys being their PKCS8 bytes), the codecs of \<open>encoding/json\<close>, \<open>net/url\<close>
  (\<open>url_Parse\<close>, \<open>url_WithQuery\<close>: parse, set the given parameters, print; \<open>url_WithFragment\<close>; \<open>QueryEscape\<close>, \<open>ParseQuery\<close>),
  \<open>mime\<close>, \<open>html\<close> and \<open>strconv.Quote\<close>, and \<open>net\<close>
  (\<open>split_host\<close>, \<open>parse_ip\<close> to the canonical form, \<open>is_loopback\<close>, membership in each trusted network),
  \<open>strings.ToLower\<close> beyond ASCII, \<open>uuid.Parse\<close>'s validity and the date format of cookies.
\<close>

record server =
  ConsoleOrigin :: string
  OAuthIssuer :: string
  SecretHashKey :: "byte list"
  DataEncryptionKeys :: "EncryptionKeyring option"
  MemberAbsoluteTTL :: duration
  MemberIdleTTL :: duration
  UserAbsoluteTTL :: duration
  UserIdleTTL :: duration
  CookieSecure :: bool
  OAuthAuthorizationTTL :: duration
  OAuthCodeTTL :: duration
  OAuthAccessTokenTTL :: duration
  OAuthSigningKeyMaxAge :: duration
  in_trusted_proxy :: "(string \<Rightarrow> bool) list"
  Sum256 :: "byte list \<Rightarrow> byte list"
  HMAC256 :: "byte list \<Rightarrow> byte list \<Rightarrow> byte list"
  Argon2 :: argon2
  AEAD_Seal :: aead_seal
  AEAD_Open :: aead_open
  rsa_Generate :: "entropy \<Rightarrow> byte list option"
  rsa_IsKey :: "byte list \<Rightarrow> bool"
  rsa_Public :: "byte list \<Rightarrow> byte list \<times> nat"
  rsa_Sign :: "byte list \<Rightarrow> byte list \<Rightarrow> byte list option"
  Codec :: header_codec
  json_text :: "json \<Rightarrow> string"
  json_parse :: "string \<Rightarrow> json option"
  url_Parse :: "string \<Rightarrow> url_parts option"
  url_WithQuery :: "string \<Rightarrow> (string \<times> string) list \<Rightarrow> string option"
  url_WithFragment :: "string \<Rightarrow> string \<Rightarrow> string"
  QueryEscape :: "string \<Rightarrow> string"
  ParseQuery :: "string \<Rightarrow> (string \<times> string list) list option"
  ParseMediaType :: "string \<Rightarrow> string option"
  html_Escape :: "string \<Rightarrow> string"
  go_Quote :: "string \<Rightarrow> string"
  split_host :: "string \<Rightarrow> string option"
  parse_ip :: "string \<Rightarrow> string option"
  is_loopback :: "string \<Rightarrow> bool"
  lower_unicode :: "string \<Rightarrow> string"
  uuid_ok :: "string \<Rightarrow> bool"
  http_date :: "time \<Rightarrow> string"

text \<open>
  The circumstances of a call: the failing database calls, the instant, the UUID and the random bytes
  drawn at each named place of the handler, and the outcome of handing a message to the mail server.
\<close>

record call =
  ca_flt :: faults
  ca_now :: time
  ca_uid :: "string \<Rightarrow> uid"
  ca_rand :: "string \<Rightarrow> entropy"
  ca_send :: "emailMessage \<Rightarrow> string option"

definition durationOr :: "duration \<Rightarrow> duration \<Rightarrow> duration" where
  "durationOr value fallback = (if value > 0 then value else fallback)"

definition SessionHash_of :: "server \<Rightarrow> string \<Rightarrow> byte list" where
  "SessionHash_of sv = SessionHash (Sum256 sv)"

definition SecretHash_of :: "server \<Rightarrow> string \<Rightarrow> byte list" where
  "SecretHash_of sv = SecretHash (HMAC256 sv) (SecretHashKey sv)"

section \<open>Tables\<close>

record tenant_row =
  tn_uid :: uid
  tn_name :: string
  tn_slug :: string

record member_row =
  tm_uid :: uid
  tm_tenant_uid :: uid
  tm_email :: string
  tm_email_normalized :: string
  tm_display_name :: string
  tm_role :: string
  tm_password_hash :: string
  tm_status :: string
  tm_email_verified_at :: "time option"
  tm_created_at :: time

record member_session_row =
  ms_uid :: uid
  ms_tenant_member_uid :: uid
  ms_tenant_uid :: uid
  ms_session_secret_hash :: "byte list"
  ms_authentication_assurance :: string
  ms_created_at :: time
  ms_expires_at :: time
  ms_idle_expires_at :: time
  ms_last_seen_at :: time
  ms_revoked_at :: "time option"

record project_row =
  pj_uid :: uid
  pj_tenant_uid :: uid
  pj_name :: string
  pj_environment :: string
  pj_status :: string
  pj_rp_id :: string
  pj_rp_name :: string
  pj_rp_id_locked_at :: "time option"
  pj_created_at :: time
  pj_updated_at :: time

record origin_row =
  og_uid :: uid
  og_project_uid :: uid
  og_origin :: string
  og_created_at :: time

record project_user_row =
  pu_uid :: uid
  pu_project_uid :: uid
  pu_email :: string
  pu_email_normalized :: string
  pu_email_verified_at :: "time option"
  pu_status :: string
  pu_password_hash :: "string option"
  pu_created_at :: time
  pu_updated_at :: time

record passkey_row =
  wk_uid :: uid
  wk_project_uid :: uid
  wk_project_user_uid :: uid
  wk_created_at :: time

record service_account_row =
  sa_uid :: uid
  sa_project_uid :: uid
  sa_name :: string
  sa_description :: string
  sa_status :: string
  sa_scopes :: "string list"
  sa_version :: int
  sa_created_by_member_uid :: "uid option"
  sa_created_at :: time
  sa_updated_at :: time
  sa_disabled_at :: "time option"
  sa_deleted_at :: "time option"

record service_credential_row =
  cr_uid :: uid
  cr_service_account_uid :: uid
  cr_name :: string
  cr_prefix :: string
  cr_fingerprint :: string
  cr_secret_hash :: "byte list"
  cr_effective_scopes :: "string list option"
  cr_external_subject :: "string option"
  cr_external_integration_id :: "string option"
  cr_status :: string
  cr_created_by_member_uid :: "uid option"
  cr_created_at :: time
  cr_expires_at :: time
  cr_last_used_at :: "time option"
  cr_revoked_at :: "time option"
  cr_revoked_by_member_uid :: "uid option"
  cr_revocation_reason :: "string option"

record application_row =
  ap_uid :: uid
  ap_tenant_uid :: uid
  ap_name :: string
  ap_client_id :: string
  ap_application_type :: string
  ap_status :: string
  ap_version :: int
  ap_created_at :: time
  ap_updated_at :: time
  ap_deleted_at :: "time option"

record redirect_uri_row =
  ru_application_uid :: uid
  ru_redirect_uri :: string

record client_secret_row =
  cs_uid :: uid
  cs_application_uid :: uid
  cs_name :: string
  cs_prefix :: string
  cs_secret_hash :: "byte list"
  cs_status :: string
  cs_created_at :: time
  cs_expires_at :: time
  cs_last_used_at :: "time option"
  cs_revoked_at :: "time option"

record auth_request_row =
  ar_uid :: uid
  ar_request_secret_hash :: "byte list"
  ar_application_uid :: uid
  ar_tenant_uid :: uid
  ar_redirect_uri :: string
  ar_scopes :: "string list"
  ar_state :: string
  ar_nonce :: string
  ar_code_challenge :: string
  ar_status :: string
  ar_tenant_member_uid :: "uid option"
  ar_created_at :: time
  ar_expires_at :: time
  ar_resolved_at :: "time option"
  ar_resource_server_uid :: "uid option"

record auth_code_row =
  ac_uid :: uid
  ac_code_hash :: "byte list"
  ac_application_uid :: uid
  ac_tenant_uid :: uid
  ac_tenant_member_uid :: uid
  ac_redirect_uri :: string
  ac_scopes :: "string list"
  ac_nonce :: string
  ac_code_challenge :: string
  ac_auth_time :: time
  ac_created_at :: time
  ac_expires_at :: time
  ac_consumed_at :: "time option"
  ac_resource_server_uid :: "uid option"

record consent_row =
  co_uid :: uid
  co_tenant_uid :: uid
  co_tenant_member_uid :: uid
  co_application_uid :: uid
  co_scopes :: "string list"
  co_status :: string
  co_created_at :: time
  co_updated_at :: time
  co_revoked_at :: "time option"
  co_resource_server_uid :: "uid option"

record subject_row =
  su_uid :: uid
  su_application_uid :: uid
  su_tenant_member_uid :: uid
  su_subject :: string

record access_token_row =
  tk_uid :: uid
  tk_token_hash :: "byte list"
  tk_jti :: uid
  tk_application_uid :: uid
  tk_tenant_uid :: uid
  tk_tenant_member_uid :: uid
  tk_subject :: string
  tk_scopes :: "string list"
  tk_created_at :: time
  tk_expires_at :: time
  tk_revoked_at :: "time option"
  tk_resource_server_uid :: "uid option"

record resource_server_row =
  rv_uid :: uid
  rv_tenant_uid :: uid
  rv_name :: string
  rv_identifier :: string
  rv_status :: string
  rv_version :: int
  rv_policy_version :: int
  rv_created_at :: time
  rv_updated_at :: time
  rv_deleted_at :: "time option"

record scope_row =
  sp_uid :: uid
  sp_resource_server_uid :: uid
  sp_name :: string
  sp_display_name :: string
  sp_description :: string
  sp_status :: string
  sp_version :: int
  sp_created_at :: time
  sp_updated_at :: time
  sp_deleted_at :: "time option"

record grant_row =
  gr_uid :: uid
  gr_tenant_uid :: uid
  gr_application_uid :: uid
  gr_resource_server_uid :: uid
  gr_status :: string
  gr_version :: int
  gr_created_at :: time
  gr_updated_at :: time
  gr_deleted_at :: "time option"

record grant_scope_row =
  gs_grant_uid :: uid
  gs_scope_uid :: uid

record audit_row =
  au_uid :: uid
  au_tenant_uid :: uid
  au_project_uid :: "uid option"
  au_actor_type :: string
  au_actor_uid :: "uid option"
  au_action :: string
  au_target_type :: string
  au_target_uid :: uid
  au_metadata :: json

record support_case_row =
  sk_uid :: uid
  sk_tenant_uid :: uid
  sk_project_uid :: "uid option"
  sk_case_reference :: string
  sk_category :: string
  sk_status :: string
  sk_priority :: string
  sk_reporter_type :: string
  sk_reporter_uid :: uid
  sk_assignee_member_uid :: "uid option"
  sk_subject :: EncryptedValue
  sk_diagnostic_consent :: bool
  sk_diagnostics :: "EncryptedValue option"
  sk_version :: int
  sk_message_count :: int
  sk_attachment_count :: int
  sk_attachment_bytes :: int
  sk_created_at :: time
  sk_updated_at :: time
  sk_last_message_at :: time
  sk_resolved_at :: "time option"
  sk_closed_at :: "time option"
  sk_retention_until :: "time option"

record support_message_row =
  mg_uid :: uid
  mg_case_uid :: uid
  mg_author_type :: string
  mg_author_uid :: uid
  mg_visibility :: string
  mg_body :: EncryptedValue
  mg_created_at :: time

record support_event_row =
  se_uid :: uid
  se_case_uid :: uid
  se_event_type :: string
  se_actor_type :: string
  se_actor_uid :: uid
  se_visibility :: string
  se_payload :: json
  se_created_at :: time

record verification_row =
  vf_uid :: uid
  vf_tenant_uid :: uid
  vf_tenant_member_uid :: uid
  vf_token_hash :: "byte list"
  vf_created_at :: time
  vf_expires_at :: time
  vf_consumed_at :: "time option"
  vf_revoked_at :: "time option"

record user_session_row =
  us_uid :: uid
  us_project_uid :: uid
  us_project_user_uid :: uid
  us_session_secret_hash :: "byte list"
  us_created_at :: time
  us_expires_at :: time
  us_idle_expires_at :: time
  us_revoked_at :: "time option"

record signing_key_row =
  sg_uid :: uid
  sg_kid :: string
  sg_status :: string
  sg_public_jwk :: json
  sg_private_key :: EncryptedValue
  sg_created_at :: time
  sg_publish_until :: "time option"
  sg_retired_at :: "time option"

record email_delivery_row =
  ed_uid :: uid
  ed_tenant_uid :: uid
  ed_template :: string
  ed_recipient :: EncryptedValue
  ed_payload :: EncryptedValue
  ed_status :: string
  ed_created_at :: time
  ed_delivered_at :: "time option"

record invitation_row =
  iv_uid :: uid
  iv_tenant_uid :: uid
  iv_email :: string
  iv_email_normalized :: string
  iv_role :: string
  iv_status :: string
  iv_acceptance_token_hash :: "byte list"
  iv_created_by_member_uid :: "uid option"
  iv_accepted_by_member_uid :: "uid option"
  iv_revoked_by_member_uid :: "uid option"
  iv_created_at :: time
  iv_expires_at :: time
  iv_accepted_at :: "time option"
  iv_revoked_at :: "time option"

text \<open>Login attempts and WebAuthn ceremonies: the columns the retention rules read and, for a ceremony, the
  login attempt or session whose deletion cascades to it; then the columns of each table.\<close>

record expiring_row =
  xr_uid :: uid
  xr_expires_at :: time
  xr_login_attempt_uid :: "uid option"
  xr_session_uid :: "uid option"

record user_attempt_row = expiring_row +
  ul_project_uid :: uid
  ul_project_user_uid :: "uid option"
  ul_login_secret_hash :: "byte list"
  ul_password_verified_at :: "time option"
  ul_consumed_at :: "time option"

record member_attempt_row = expiring_row +
  la_tenant_member_uid :: "uid option"
  la_client_secret_hash :: "byte list"
  la_identity_key_hash :: "byte list"
  la_password_verified_at :: "time option"
  la_consumed_at :: "time option"

record member_ceremony_row = expiring_row +
  mc_tenant_uid :: uid
  mc_tenant_member_uid :: uid
  mc_ceremony_type :: string
  mc_credential_kind :: string
  mc_credential_name :: "string option"
  mc_session_data :: json
  mc_consumed_at :: "time option"

record member_credential_row =
  mw_uid :: uid
  mw_tenant_uid :: uid
  mw_tenant_member_uid :: uid
  mw_credential_id :: "byte list"
  mw_credential_json :: json
  mw_name :: string
  mw_credential_kind :: string
  mw_attested :: bool
  mw_version :: int
  mw_created_at :: time
  mw_updated_at :: time
  mw_last_used_at :: "time option"

record db =
  db_tenants :: "tenant_row list"
  db_members :: "member_row list"
  db_member_sessions :: "member_session_row list"
  db_projects :: "project_row list"
  db_service_accounts :: "service_account_row list"
  db_service_credentials :: "service_credential_row list"
  db_applications :: "application_row list"
  db_redirect_uris :: "redirect_uri_row list"
  db_client_secrets :: "client_secret_row list"
  db_auth_requests :: "auth_request_row list"
  db_auth_codes :: "auth_code_row list"
  db_consents :: "consent_row list"
  db_subjects :: "subject_row list"
  db_access_tokens :: "access_token_row list"
  db_resource_servers :: "resource_server_row list"
  db_scopes :: "scope_row list"
  db_grants :: "grant_row list"
  db_grant_scopes :: "grant_scope_row list"
  db_audit :: "audit_row list"
  db_support_cases :: "support_case_row list"
  db_user_login_attempts :: "user_attempt_row list"
  db_webauthn_ceremonies :: "expiring_row list"
  db_member_login_attempts :: "member_attempt_row list"
  db_member_ceremonies :: "member_ceremony_row list"
  db_email_verifications :: "verification_row list"
  db_password_resets :: "verification_row list"
  db_user_sessions :: "user_session_row list"
  db_signing_keys :: "signing_key_row list"
  db_invitations :: "invitation_row list"
  db_email_deliveries :: "email_delivery_row list"
  db_jobs :: job_db
  db_idempotency :: "idem_row list"
  db_buckets :: "bucket list"
  db_origins :: "origin_row list"
  db_project_users :: "project_user_row list"
  db_passkeys :: "passkey_row list"
  db_member_credentials :: "member_credential_row list"
  db_support_messages :: "support_message_row list"
  db_support_events :: "support_event_row list"

text \<open>\<open>json.Unmarshal\<close> into a struct with one string field: an absent or null field is the empty string.\<close>

definition json_string_field :: "string \<Rightarrow> json \<Rightarrow> string option" where
  "json_string_field name j =
     (case j of
        JNull \<Rightarrow> Some []
      | JObj fs \<Rightarrow> (case map_of fs name of
                    None \<Rightarrow> Some [] | Some JNull \<Rightarrow> Some [] | Some (JStr v) \<Rightarrow> Some v | Some _ \<Rightarrow> None)
      | _ \<Rightarrow> None)"

text \<open>\<open>INSERT INTO background_jobs\<close> with the columns' defaults; \<open>None\<close> when the deduplication key is taken.\<close>

definition enqueue_job :: "time \<Rightarrow> uid \<Rightarrow> string \<Rightarrow> string \<Rightarrow> string \<Rightarrow> json \<Rightarrow> int \<Rightarrow> job_db \<Rightarrow> job_db option" where
  "enqueue_job now uid queue jobType key payload maxAttempts d =
     (let row = new_job now uid queue jobType (Some key) payload maxAttempts now in
      if job_conflict row d then None
      else Some (d\<lparr>background_jobs := background_jobs d @ [row]\<rparr>))"

lemma enqueue_job_invar:
  "enqueue_job now u q t k p m d = Some d' \<Longrightarrow> job_invar d \<Longrightarrow> 1 \<le> m \<Longrightarrow> m \<le> 100 \<Longrightarrow> job_invar d'"
  by (auto simp: enqueue_job_def Let_def enqueue_invar new_job_ok split: if_splits)

type_synonym handler = "http_request \<Rightarrow> db \<Rightarrow> http_response \<times> db"

definition add_audit :: "audit_row \<Rightarrow> db \<Rightarrow> db" where
  "add_audit a d = d\<lparr>db_audit := db_audit d @ [a]\<rparr>"

section \<open>Shared request guards\<close>

text \<open>\<open>decode\<close>'s error response.\<close>

definition invalid_json :: "http_request \<Rightarrow> http_response" where
  "invalid_json r = fail r 400 ''invalid_json'' ''request body is not valid JSON''"

text \<open>A positive duration rounded up to whole seconds, at least one: the \<open>Retry-After\<close> header.\<close>

definition retry_after_seconds :: "duration \<Rightarrow> int" where
  "retry_after_seconds t = (let s = t div Second; s' = (if t mod Second \<noteq> 0 then s + 1 else s) in if s' < 1 then 1 else s')"

definition takeRateLimit ::
  "server \<Rightarrow> call \<Rightarrow> http_request \<Rightarrow> string \<Rightarrow> string \<Rightarrow> int \<Rightarrow> duration \<Rightarrow> db \<Rightarrow> http_response option \<times> db" where
  "takeRateLimit sv c r policy key limit window d =
     (case Take (ca_flt c) (ca_now c) policy (SecretHash_of sv (policy @ [char_of (0 :: nat)] @ key)) limit window (db_buckets d) of
        (Inl e, t) \<Rightarrow> (Some (fail r 503 ''dependency_unavailable'' ''request safety dependency is unavailable''), d\<lparr>db_buckets := t\<rparr>)
      | (Inr result, t) \<Rightarrow>
          if rl_Allowed result then (None, d\<lparr>db_buckets := t\<rparr>)
          else (Some (with_header ''Retry-After'' (decimal (nat (retry_after_seconds (rl_RetryAfter result))))
                  (fail r 429 ''rate_limited'' ''too many attempts; retry later'')), d\<lparr>db_buckets := t\<rparr>))"

definition resetRateLimit :: "server \<Rightarrow> call \<Rightarrow> string \<Rightarrow> string \<Rightarrow> db \<Rightarrow> db" where
  "resetRateLimit sv c policy key d =
     d\<lparr>db_buckets := snd (Reset_bucket (ca_flt c) policy (SecretHash_of sv (policy @ [char_of (0 :: nat)] @ key)) (db_buckets d))\<rparr>"

definition writeStoredResponse :: "StoredHTTPResponse \<Rightarrow> http_response" where
  "writeStoredResponse response =
     \<lparr>hs_status = nat (sr_Status response),
      hs_headers = concat (map (\<lambda>(name, values). map (Pair name) values)
                             (case sr_Headers response of None \<Rightarrow> [] | Some h \<Rightarrow> h)),
      hs_body = TextBody (case sr_Body response of None \<Rightarrow> [] | Some b \<Rightarrow> b)\<rparr>"

definition beginIdempotentRequest ::
  "server \<Rightarrow> call \<Rightarrow> http_request \<Rightarrow> IdempotencyRequest \<Rightarrow> db \<Rightarrow> (http_response + IdempotencyClaim) \<times> db" where
  "beginIdempotentRequest sv c r request d =
     (case Begin (Codec sv) (ca_flt c) (ca_now c) (ca_uid c ''idempotency lease'') request (db_idempotency d) of
        (Inl e, t) \<Rightarrow>
          (Inl (if e = ErrIdempotencyConflict
                then fail r 409 ''idempotency_key_reused'' ''the idempotency key was already used with different inputs''
                else fail r 503 ''dependency_unavailable'' ''idempotency coordination is unavailable''),
           d\<lparr>db_idempotency := t\<rparr>)
      | (Inr claim, t) \<Rightarrow>
          ((case cl_Replay claim of
              Some response \<Rightarrow> Inl (writeStoredResponse response)
            | None \<Rightarrow>
                if cl_LeaseUID claim = uuid_Nil
                then Inl (with_header ''Retry-After'' (decimal (nat (retry_after_seconds (cl_RetryAfter claim))))
                       (fail r 409 ''idempotency_in_progress'' ''an identical request is still being processed''))
                else Inr claim),
           d\<lparr>db_idempotency := t\<rparr>))"

definition storedJSONResponse :: "server \<Rightarrow> int \<Rightarrow> json \<Rightarrow> StoredHTTPResponse" where
  "storedJSONResponse sv status value =
     \<lparr>sr_Status = status,
      sr_Headers = Some [(''Content-Type'', [''application/json'']), (''Cache-Control'', [''no-store''])],
      sr_Body = Some (json_text sv value @ [char_of (10 :: nat)])\<rparr>"

definition problemResponse :: "server \<Rightarrow> http_request \<Rightarrow> int \<Rightarrow> string \<Rightarrow> string \<Rightarrow> StoredHTTPResponse" where
  "problemResponse sv r status code message = storedJSONResponse sv status (problem r code message)"

text \<open>The client address: the remote host, or the first forwarded address when a trusted proxy connects.\<close>

fun forwarded_client :: "server \<Rightarrow> http_request \<Rightarrow> string \<Rightarrow> (string \<Rightarrow> bool) list \<Rightarrow> string option" where
  "forwarded_client sv r host [] = None"
| "forwarded_client sv r host (contains # networks) =
     (if parse_ip sv host = None \<or> \<not> contains host then forwarded_client sv r host networks
      else (case parse_ip sv (TrimSpace (hd (Split (CHR '','') (hq_header r ''X-Forwarded-For'')))) of
              Some client \<Rightarrow> Some client
            | None \<Rightarrow> forwarded_client sv r host networks))"

definition clientIP :: "server \<Rightarrow> http_request \<Rightarrow> string" where
  "clientIP sv r =
     (let host = (case split_host sv (hq_remote_addr r) of None \<Rightarrow> hq_remote_addr r | Some h \<Rightarrow> h) in
      case forwarded_client sv r host (in_trusted_proxy sv) of Some client \<Rightarrow> client | None \<Rightarrow> host)"

definition normalizeEmail :: "server \<Rightarrow> string \<Rightarrow> string" where
  "normalizeEmail sv v = ToLower (lower_unicode sv) (TrimSpace v)"

section \<open>A small server and an empty database\<close>

definition demo_digest :: "byte list \<Rightarrow> byte list" where
  "demo_digest bs = take 32 (bs @ replicate 32 0)"

definition demo_codec_h :: header_codec where
  "demo_codec_h = \<lparr>marshal_headers = \<lambda>_. Some ''{}'', unmarshal_headers = \<lambda>_. Some []\<rparr>"

definition demo_server :: server where
  "demo_server =
     \<lparr>ConsoleOrigin = ''https://console.example'', OAuthIssuer = ''https://id.example'', SecretHashKey = [7],
      DataEncryptionKeys = Some \<lparr>activeVersion = fst (hd demo_keys), keys = map_of demo_keys\<rparr>,
      MemberAbsoluteTTL = 168 * Hour, MemberIdleTTL = 24 * Hour, UserAbsoluteTTL = 720 * Hour, UserIdleTTL = 168 * Hour, CookieSecure = True, OAuthAuthorizationTTL = 10 * Minute,
      OAuthCodeTTL = 5 * Minute, OAuthAccessTokenTTL = 10 * Minute, OAuthSigningKeyMaxAge = 720 * Hour,
      in_trusted_proxy = [], Sum256 = demo_digest, HMAC256 = (\<lambda>k. demo_digest), Argon2 = demo_argon2,
      AEAD_Seal = demo_seal, AEAD_Open = demo_open,
      rsa_Generate = (\<lambda>_. Some [1, 2, 3]), rsa_IsKey = (\<lambda>_. True), rsa_Public = (\<lambda>_. ([1], 65537)),
      rsa_Sign = (\<lambda>k m. Some [9]), Codec = demo_codec_h, json_text = (\<lambda>_. ''{}''), json_parse = (\<lambda>_. None),
      url_Parse = (\<lambda>_. None), url_WithQuery = (\<lambda>u q. Some u), url_WithFragment = (\<lambda>u f. u @ ''#'' @ f), QueryEscape = id,
      ParseQuery = (\<lambda>_. Some []), ParseMediaType = Some, html_Escape = id, go_Quote = id,
      split_host = Some, parse_ip = Some, is_loopback = (\<lambda>_. False), lower_unicode = id, uuid_ok = (\<lambda>u. u \<noteq> []),
      http_date = (\<lambda>_. ''Thu, 01 Jan 1970 00:00:00 GMT'')\<rparr>"

definition demo_call :: call where
  "demo_call = \<lparr>ca_flt = no_faults, ca_now = 1000 * Second, ca_uid = (\<lambda>site. ''u-'' @ site),
     ca_rand = (\<lambda>site. Some (\<lambda>_. of_nat (length site))), ca_send = (\<lambda>_. None)\<rparr>"

definition demo_request :: http_request where
  "demo_request = \<lparr>hq_method = ''POST'', hq_header = (\<lambda>_. []), hq_cookie = (\<lambda>_. None), hq_path = (\<lambda>_. []),
     hq_query = (\<lambda>_. []), hq_body = [], hq_basic_auth = None, hq_remote_addr = ''192.0.2.1:9'',
     hq_request_id = ''req'', hq_principal = None, hq_service = None, hq_resource_principal = None\<rparr>"

definition empty_db :: db where
  "empty_db = \<lparr>db_tenants = [], db_members = [], db_member_sessions = [], db_projects = [], db_service_accounts = [],
     db_service_credentials = [], db_applications = [], db_redirect_uris = [], db_client_secrets = [],
     db_auth_requests = [], db_auth_codes = [], db_consents = [], db_subjects = [], db_access_tokens = [],
     db_resource_servers = [], db_scopes = [], db_grants = [], db_grant_scopes = [], db_audit = [],
     db_support_cases = [], db_user_login_attempts = [], db_webauthn_ceremonies = [], db_member_login_attempts = [],
     db_member_ceremonies = [], db_email_verifications = [], db_password_resets = [], db_user_sessions = [],
     db_signing_keys = [], db_invitations = [], db_email_deliveries = [],
     db_jobs = \<lparr>background_jobs = [], platform_operator_actions = []\<rparr>, db_idempotency = [], db_buckets = [], db_origins = [], db_project_users = [], db_passkeys = [],
     db_member_credentials = [], db_support_messages = [], db_support_events = []\<rparr>"

lemma demo_keyring_ok: "keyring_ok \<lparr>activeVersion = fst (hd demo_keys), keys = map_of demo_keys\<rparr>"
  by (rule keyring_ok_print [OF demo_keys_ok])

end
