(* ===== verification/Email_Delivery.thy ===== *)
theory Email_Delivery
  imports Api_Base
begin

text \<open>
  Transactional email, \<^verbatim>\<open>internal/api/email_delivery.go\<close>: scheduling a delivery inside a caller's
  transaction (sealed recipient and payload, plus the background job) and delivering it. The SMTP
  conversation itself is an argument of the call: the outcome of handing over one message.
\<close>

section \<open>Data\<close>

record emailDeliveryPayload =
  dp_DisplayName :: string
  dp_TenantName :: string
  dp_Link :: string

definition payload_json :: "emailDeliveryPayload \<Rightarrow> json" where
  "payload_json p = JObj [(''display_name'', JStr (dp_DisplayName p)), (''tenant_name'', JStr (dp_TenantName p)),
                          (''link'', JStr (dp_Link p))]"

definition json_payload :: "json \<Rightarrow> emailDeliveryPayload option" where
  "json_payload j =
     (case (json_string_field ''display_name'' j, json_string_field ''tenant_name'' j, json_string_field ''link'' j) of
        (Some a, Some b, Some c) \<Rightarrow> Some \<lparr>dp_DisplayName = a, dp_TenantName = b, dp_Link = c\<rparr>
      | _ \<Rightarrow> None)"

lemma json_payload_roundtrip: "json_payload (payload_json p) = Some p"
  by (simp add: json_payload_def payload_json_def json_string_field_def)

definition string_of_bytes :: "byte list \<Rightarrow> string" where
  "string_of_bytes bs = map (\<lambda>b. char_of (unat b)) bs"

lemma string_of_bytes_of [simp]: "string_of_bytes (bytes_of s) = s"
proof -
  have "char_of (unat (of_nat (of_char c) :: byte)) = c" for c :: char
    using nat_of_char_less_256 [of c] by (simp add: unsigned_of_nat take_bit_nat_eq_self)
  then show ?thesis by (simp add: string_of_bytes_def bytes_of_def map_idI)
qed

definition emailDeliveryContext :: "uid \<Rightarrow> string \<Rightarrow> byte list" where
  "emailDeliveryContext deliveryUID field = bytes_of (''email-delivery|'' @ deliveryUID @ ''|'' @ field)"

definition email_templates :: "string list" where
  "email_templates = [''tenant_email_verification'', ''tenant_password_reset'', ''tenant_invitation'']"

definition newline :: string where "newline = [char_of (10 :: nat)]"

section \<open>Operations\<close>

definition renderEmail :: "string \<Rightarrow> emailDeliveryPayload \<Rightarrow> string + string \<times> string" where
  "renderEmail template p =
     (let salutation = ''Hello'' @ (if dp_DisplayName p \<noteq> [] then '' '' @ dp_DisplayName p else []);
          gap = newline @ newline in
      if template = ''tenant_email_verification'' then
        Inr (''Verify your ComplicatedAuth email'',
             salutation @ '','' @ gap @ ''Verify your email for '' @ dp_TenantName p @ '':'' @ gap @ dp_Link p @ gap @
             ''This link expires in 24 hours. If you did not request it, you can ignore this message.'')
      else if template = ''tenant_password_reset'' then
        Inr (''Reset your ComplicatedAuth password'',
             salutation @ '','' @ gap @ ''Reset your password for '' @ dp_TenantName p @ '':'' @ gap @ dp_Link p @ gap @
             ''This link expires in 30 minutes and can be used once. If you did not request it, you can ignore this message.'')
      else if template = ''tenant_invitation'' then
        Inr (''You were invited to ComplicatedAuth'',
             salutation @ '','' @ gap @ ''You were invited to join '' @ dp_TenantName p @ '':'' @ gap @ dp_Link p @ gap @
             ''This link expires in 7 days and can be used once.'')
      else Inl (''unsupported email template '' @ template))"

text \<open>The statements run in the caller's transaction: an error makes the caller roll back.\<close>

definition scheduleEmailDelivery ::
  "server \<Rightarrow> call \<Rightarrow> uid \<Rightarrow> string \<Rightarrow> string \<Rightarrow> emailDeliveryPayload \<Rightarrow> db \<Rightarrow> string + db" where
  "scheduleEmailDelivery sv c tenantUID template recipient payload d =
     (let deliveryUID = ca_uid c ''delivery'' in
      case Seal (AEAD_Seal sv) (DataEncryptionKeys sv) (ca_rand c ''recipient nonce'')
             (bytes_of recipient) (emailDeliveryContext deliveryUID ''recipient'') of
        Inl _ \<Rightarrow> Inl ''seal recipient''
      | Inr recipientEncrypted \<Rightarrow>
          (case Seal (AEAD_Seal sv) (DataEncryptionKeys sv) (ca_rand c ''payload nonce'')
                  (bytes_of (json_text sv (payload_json payload))) (emailDeliveryContext deliveryUID ''payload'') of
             Inl _ \<Rightarrow> Inl ''seal payload''
           | Inr payloadEncrypted \<Rightarrow>
               if ca_flt c ''insert email delivery'' \<or> template \<notin> set email_templates \<or>
                  (\<exists>e \<in> set (db_email_deliveries d). ed_uid e = deliveryUID)
               then Inl ''insert email delivery''
               else let row = \<lparr>ed_uid = deliveryUID, ed_tenant_uid = tenantUID, ed_template = template,
                               ed_recipient = recipientEncrypted, ed_payload = payloadEncrypted,
                               ed_status = ''pending'', ed_created_at = ca_now c, ed_delivered_at = None\<rparr> in
               if ca_flt c ''insert email job'' then Inl ''insert email job''
               else (case enqueue_job (ca_now c) (ca_uid c ''delivery job'') ''email'' ''email.delivery''
                            (''email-delivery:'' @ deliveryUID) (JObj [(''delivery_uid'', JStr deliveryUID)]) 8 (db_jobs d) of
                       None \<Rightarrow> Inl ''insert email job''
                     | Some jobs \<Rightarrow>
                         Inr (d\<lparr>db_email_deliveries := db_email_deliveries d @ [row], db_jobs := jobs\<rparr>))))"

definition delivered_row :: "time \<Rightarrow> email_delivery_row \<Rightarrow> email_delivery_row" where
  "delivered_row now e = e\<lparr>ed_status := ''delivered'', ed_delivered_at := Some now\<rparr>"

text \<open>The error, if any, and the message that was handed to the mail server, if one was.\<close>

definition deliverEmail ::
  "server \<Rightarrow> call \<Rightarrow> uid \<Rightarrow> db \<Rightarrow> (string option \<times> emailMessage option) \<times> db" where
  "deliverEmail sv c deliveryUID d =
     (if ca_flt c ''load email delivery'' then ((Some ''load email delivery'', None), d)
      else case sql_row (\<lambda>e. ed_uid e = deliveryUID) (db_email_deliveries d) of
        None \<Rightarrow> ((None, None), d)
      | Some row \<Rightarrow>
          if ed_status row = ''delivered'' then ((None, None), d)
          else (case Open (AEAD_Open sv) (DataEncryptionKeys sv) (ed_recipient row)
                       (emailDeliveryContext deliveryUID ''recipient'') of
            Inl _ \<Rightarrow> ((Some ''decrypt email recipient'', None), d)
          | Inr recipient \<Rightarrow>
              (case Open (AEAD_Open sv) (DataEncryptionKeys sv) (ed_payload row)
                      (emailDeliveryContext deliveryUID ''payload'') of
                 Inl _ \<Rightarrow> ((Some ''decrypt email payload'', None), d)
               | Inr rawPayload \<Rightarrow>
                   (case Option.bind (json_parse sv (string_of_bytes rawPayload)) json_payload of
                      None \<Rightarrow> ((Some ''decode email payload'', None), d)
                    | Some payload \<Rightarrow>
                        (case renderEmail (ed_template row) payload of
                           Inl e \<Rightarrow> ((Some e, None), d)
                         | Inr (subject, body) \<Rightarrow>
                             let message = \<lparr>em_DeliveryUID = deliveryUID, em_To = string_of_bytes recipient,
                                            em_Subject = subject, em_Text = body\<rparr> in
                             (case ca_send c message of
                                Some e \<Rightarrow> ((Some e, Some message), d)
                              | None \<Rightarrow>
                                  if ca_flt c ''mark email delivered''
                                  then ((Some ''mark email delivered'', Some message), d)
                                  else ((None, Some message), d\<lparr>db_email_deliveries :=
                                     sql_update (\<lambda>e. ed_uid e = deliveryUID \<and> ed_status e = ''pending'')
                                       (delivered_row (ca_now c)) (db_email_deliveries d)\<rparr>)))))))"

section \<open>Properties\<close>

lemma renderEmail_supported: "template \<in> set email_templates \<Longrightarrow> \<exists>s b. renderEmail template p = Inr (s, b)"
  by (auto simp: renderEmail_def email_templates_def Let_def)

lemma deliverEmail_missing [simp]:
  "sql_row (\<lambda>e. ed_uid e = u) (db_email_deliveries d) = Some row \<Longrightarrow> ed_status row = ''delivered'' \<Longrightarrow>
     \<not> ca_flt c ''load email delivery'' \<Longrightarrow> deliverEmail sv c u d = ((None, None), d)"
  by (simp add: deliverEmail_def)

text \<open>What scheduling leaves in the database.\<close>

lemma scheduleEmailDelivery_row:
  assumes "scheduleEmailDelivery sv c tenant template recipient p d = Inr d'"
  obtains recE payE jobs where
    "Seal (AEAD_Seal sv) (DataEncryptionKeys sv) (ca_rand c ''recipient nonce'') (bytes_of recipient)
       (emailDeliveryContext (ca_uid c ''delivery'') ''recipient'') = Inr recE"
    "Seal (AEAD_Seal sv) (DataEncryptionKeys sv) (ca_rand c ''payload nonce'') (bytes_of (json_text sv (payload_json p)))
       (emailDeliveryContext (ca_uid c ''delivery'') ''payload'') = Inr payE"
    "template \<in> set email_templates" "\<forall>e \<in> set (db_email_deliveries d). ed_uid e \<noteq> ca_uid c ''delivery''"
    "d' = d\<lparr>db_email_deliveries := db_email_deliveries d @ [\<lparr>ed_uid = ca_uid c ''delivery'', ed_tenant_uid = tenant,
       ed_template = template, ed_recipient = recE, ed_payload = payE, ed_status = ''pending'',
       ed_created_at = ca_now c, ed_delivered_at = None\<rparr>], db_jobs := jobs\<rparr>"
  using assms unfolding scheduleEmailDelivery_def Let_def
  by (auto split: sum.splits if_splits option.splits)

lemma Seal_then_Open:
  assumes "aead_correct sealf openf" and "keyring_ok r" and "keyring_ok r'" and "keys r \<subseteq>\<^sub>m keys r'"
    and "Seal sealf (Some r) rnd plain ctx = Inr v"
  shows "Open openf (Some r') v ctx = Inr plain"
proof -
  obtain q where q: "rnd = Some q"
    using assms(2,5) by (cases rnd) (auto simp: Seal_def newAEAD_def keyring_ok_def rand_Read_def split: if_splits option.splits)
  have act: "activeVersion r \<in> dom (keys r)" using assms(2) by (simp add: keyring_ok_def)
  then obtain key where key: "keys r (activeVersion r) = Some key" by blast
  then have key': "keys r' (activeVersion r) = Some key"
    using assms(4) act unfolding map_le_def by (metis)
  have v: "v = \<lparr>ev_KeyVersion = activeVersion r, ev_Nonce = map q [0..<12],
      ev_Ciphertext = sealf key (map q [0..<12]) plain ctx\<rparr>"
    using assms(5) key Seal_ok [OF assms(2), of sealf q plain ctx] by (simp add: q del: upt_Suc)
  show ?thesis unfolding v by (rule Open_sealed [OF assms(1,3) key'])
qed

text \<open>Lemma (scheduled_email_is_delivered): an email scheduled in a transaction that committed is, when its job
  runs and the mail server accepts it, sent to exactly the given recipient with the rendered template of the
  given payload -- also by a server whose keyring was rotated in between, as long as it retains the old key --
  and is then marked delivered, so that running the job again sends nothing.\<close>

theorem scheduled_email_is_delivered:
  assumes "scheduleEmailDelivery sv c tenant template recipient p d = Inr d'"
    and "DataEncryptionKeys sv = Some r" and "keyring_ok r"
    and "DataEncryptionKeys sv' = Some r'" and "keyring_ok r'" and "keys r \<subseteq>\<^sub>m keys r'"
    and "aead_correct (AEAD_Seal sv) (AEAD_Open sv')" and "json_parse sv' (json_text sv (payload_json p)) = Some (payload_json p)"
    and "ca_flt c' = no_faults" and "\<forall>m. ca_send c' m = None"
  shows "\<exists>subject body d''. renderEmail template p = Inr (subject, body) \<and>
    deliverEmail sv' c' (ca_uid c ''delivery'') d' =
      ((None, Some \<lparr>em_DeliveryUID = ca_uid c ''delivery'', em_To = recipient, em_Subject = subject, em_Text = body\<rparr>), d'') \<and>
    deliverEmail sv' c' (ca_uid c ''delivery'') d'' = ((None, None), d'')"
proof -
  let ?u = "ca_uid c ''delivery''"
  obtain recE payE jobs where
    seals: "Seal (AEAD_Seal sv) (Some r) (ca_rand c ''recipient nonce'') (bytes_of recipient)
       (emailDeliveryContext ?u ''recipient'') = Inr recE"
    "Seal (AEAD_Seal sv) (Some r) (ca_rand c ''payload nonce'') (bytes_of (json_text sv (payload_json p)))
       (emailDeliveryContext ?u ''payload'') = Inr payE"
    and tmpl: "template \<in> set email_templates" and fresh: "\<forall>e \<in> set (db_email_deliveries d). ed_uid e \<noteq> ?u"
    and d': "d' = d\<lparr>db_email_deliveries := db_email_deliveries d @ [\<lparr>ed_uid = ?u, ed_tenant_uid = tenant,
       ed_template = template, ed_recipient = recE, ed_payload = payE, ed_status = ''pending'',
       ed_created_at = ca_now c, ed_delivered_at = None\<rparr>], db_jobs := jobs\<rparr>"
    by (rule scheduleEmailDelivery_row [OF assms(1), unfolded assms(2)]) blast
  let ?row = "\<lparr>ed_uid = ?u, ed_tenant_uid = tenant, ed_template = template, ed_recipient = recE, ed_payload = payE,
    ed_status = ''pending'', ed_created_at = ca_now c, ed_delivered_at = None\<rparr>"
  note opens = seals [THEN Seal_then_Open [OF assms(7,3,5,6)]]
  obtain subject body where render: "renderEmail template p = Inr (subject, body)"
    using renderEmail_supported [OF tmpl] by blast
  have none: "sql_row (\<lambda>e. ed_uid e = ?u) (db_email_deliveries d) = None"
    using fresh by (simp add: sql_row_None_iff)
  let ?d = "d'\<lparr>db_email_deliveries := db_email_deliveries d @ [delivered_row (ca_now c') ?row]\<rparr>"
  have upd: "sql_update (\<lambda>e. ed_uid e = ?u \<and> ed_status e = ''pending'') (delivered_row t) (db_email_deliveries d) =
      db_email_deliveries d" for t
    by (rule sql_update_id) (use fresh in auto)
  have first: "deliverEmail sv' c' ?u d' =
      ((None, Some \<lparr>em_DeliveryUID = ?u, em_To = recipient, em_Subject = subject, em_Text = body\<rparr>), ?d)"
    using opens render none assms(4,8,9,10) upd
    by (simp add: deliverEmail_def d' sql_row_append json_payload_roundtrip Let_def)
  have "deliverEmail sv' c' ?u ?d = ((None, None), ?d)"
    by (rule deliverEmail_missing [of _ _ "delivered_row (ca_now c') ?row"])
      (use none assms(9) in \<open>simp_all add: sql_row_append delivered_row_def\<close>)
  with first render show ?thesis by blast
qed

definition demo_payload :: emailDeliveryPayload where
  "demo_payload = \<lparr>dp_DisplayName = ''Ada'', dp_TenantName = ''Acme'', dp_Link = ''https://x''\<rparr>"

definition demo_email_server :: server where
  "demo_email_server = demo_server\<lparr>json_parse := \<lambda>_. Some (payload_json demo_payload)\<rparr>"

lemma demo_schedule:
  "\<exists>d'. scheduleEmailDelivery demo_email_server demo_call ''t'' ''tenant_invitation'' ''ada@example.org'' demo_payload empty_db
     = Inr d'"
  by (simp add: scheduleEmailDelivery_def demo_email_server_def demo_server_def demo_call_def empty_db_def
      Seal_ok [OF demo_keyring_ok] email_templates_def enqueue_job_def job_conflict_def Let_def del: upt_Suc)

theorem scheduled_email_is_delivered_witness:
  "\<exists>d' subject body d''.
    scheduleEmailDelivery demo_email_server demo_call ''t'' ''tenant_invitation'' ''ada@example.org'' demo_payload empty_db = Inr d' \<and>
    renderEmail ''tenant_invitation'' demo_payload = Inr (subject, body) \<and>
    deliverEmail demo_email_server demo_call (ca_uid demo_call ''delivery'') d' =
      ((None, Some \<lparr>em_DeliveryUID = ca_uid demo_call ''delivery'', em_To = ''ada@example.org'', em_Subject = subject, em_Text = body\<rparr>), d'') \<and>
    deliverEmail demo_email_server demo_call (ca_uid demo_call ''delivery'') d'' = ((None, None), d'')"
proof -
  obtain d' where s: "scheduleEmailDelivery demo_email_server demo_call ''t'' ''tenant_invitation'' ''ada@example.org''
      demo_payload empty_db = Inr d'" using demo_schedule by blast
  have k: "DataEncryptionKeys demo_email_server = Some \<lparr>activeVersion = fst (hd demo_keys), keys = map_of demo_keys\<rparr>"
    "aead_correct (AEAD_Seal demo_email_server) (AEAD_Open demo_email_server)"
    "json_parse demo_email_server (json_text demo_email_server (payload_json demo_payload)) = Some (payload_json demo_payload)"
    "ca_flt demo_call = no_faults" "\<forall>m. ca_send demo_call m = None"
    using demo_aead_correct by (simp_all add: demo_email_server_def demo_server_def demo_call_def)
  show ?thesis
    using s scheduled_email_is_delivered [OF s k(1) demo_keyring_ok k(1) demo_keyring_ok map_le_refl k(2-)] by blast
qed

end
