(* ===== verification/Maintenance.thy ===== *)
theory Maintenance
  imports Api_Base
begin

text \<open>
  Retention, \<^verbatim>\<open>internal/api/maintenance.go\<close>: the recurring job that deletes, in bounded batches, the rows
  whose protocol lifetime and diagnostic retention have ended. Each statement is its own transaction.
  Foreign keys with \<open>ON DELETE CASCADE\<close> take a login attempt's or session's WebAuthn ceremonies along.
\<close>

section \<open>What has expired\<close>

definition days :: "int \<Rightarrow> duration" where "days n = n * 24 * Hour"

definition verification_gone :: "time \<Rightarrow> verification_row \<Rightarrow> bool" where
  "verification_gone now v \<longleftrightarrow> vf_expires_at v \<le> now - days 7 \<or> sql_le (vf_consumed_at v) (now - days 7) \<or>
     sql_le (vf_revoked_at v) (now - days 7)"

definition member_session_gone :: "time \<Rightarrow> member_session_row \<Rightarrow> bool" where
  "member_session_gone now s \<longleftrightarrow> ms_expires_at s \<le> now - days 30 \<or> ms_idle_expires_at s \<le> now - days 30 \<or>
     sql_le (ms_revoked_at s) (now - days 30)"

definition user_session_gone :: "time \<Rightarrow> user_session_row \<Rightarrow> bool" where
  "user_session_gone now s \<longleftrightarrow> us_expires_at s \<le> now - days 30 \<or> us_idle_expires_at s \<le> now - days 30 \<or>
     sql_le (us_revoked_at s) (now - days 30)"

definition auth_request_gone :: "time \<Rightarrow> auth_request_row \<Rightarrow> bool" where
  "auth_request_gone now q \<longleftrightarrow> ar_expires_at q \<le> now - 24 * Hour \<or> sql_le (ar_resolved_at q) (now - 24 * Hour)"

definition auth_code_gone :: "time \<Rightarrow> auth_code_row \<Rightarrow> bool" where
  "auth_code_gone now a \<longleftrightarrow> ac_expires_at a \<le> now - 24 * Hour \<or> sql_le (ac_consumed_at a) (now - 24 * Hour)"

definition access_token_gone :: "time \<Rightarrow> access_token_row \<Rightarrow> bool" where
  "access_token_gone now a \<longleftrightarrow> tk_expires_at a \<le> now - 24 * Hour \<or> sql_le (tk_revoked_at a) (now - 24 * Hour)"

definition invitation_gone :: "time \<Rightarrow> invitation_row \<Rightarrow> bool" where
  "invitation_gone now i \<longleftrightarrow>
     (iv_status i = ''accepted'' \<and> sql_le (iv_accepted_at i) (now - days 90)) \<or>
     (iv_status i = ''revoked'' \<and> sql_le (iv_revoked_at i) (now - days 90)) \<or>
     (iv_status i = ''pending'' \<and> iv_expires_at i \<le> now - days 90)"

definition email_delivery_gone :: "time \<Rightarrow> email_delivery_row \<Rightarrow> bool" where
  "email_delivery_gone now e \<longleftrightarrow> ed_status e = ''delivered'' \<and> sql_le (ed_delivered_at e) (now - days 30)"

definition job_gone :: "time \<Rightarrow> job_row \<Rightarrow> bool" where
  "job_gone now j \<longleftrightarrow> jr_status j = Completed \<and> sql_le (jr_completed_at j) (now - days 7)"

definition instant :: "time option \<Rightarrow> time" where
  "instant t = (case t of None \<Rightarrow> 0 | Some x \<Rightarrow> x)"

section \<open>The statements\<close>

definition maintenanceCleanupBatch :: nat where "maintenanceCleanupBatch = 1000"
definition maintenanceInterval :: duration where "maintenanceInterval = Hour"

definition put_jobs :: "job_row list \<Rightarrow> db \<Rightarrow> db" where
  "put_jobs js d = d\<lparr>db_jobs := (db_jobs d)\<lparr>background_jobs := js\<rparr>\<rparr>"

text \<open>The rows of a child table that survive the deletion of parent rows.\<close>

definition cascade :: "('c \<Rightarrow> uid option) \<Rightarrow> ('p \<Rightarrow> uid) \<Rightarrow> 'p list \<Rightarrow> 'p list \<Rightarrow> 'c list \<Rightarrow> 'c list" where
  "cascade parent uid before after children =
     (let gone = map uid (filter (\<lambda>p. uid p \<notin> set (map uid after)) before) in
      filter (\<lambda>x. case parent x of None \<Rightarrow> True | Some u \<Rightarrow> u \<notin> set gone) children)"

definition clean_buckets :: "time \<Rightarrow> db \<Rightarrow> nat \<times> db" where
  "clean_buckets now d = (case sql_delete_batch bucket_key (\<lambda>b. rb_expires_at b \<le> now) rb_expires_at
     maintenanceCleanupBatch (db_buckets d) of (n, t) \<Rightarrow> (n, d\<lparr>db_buckets := t\<rparr>))"

definition clean_user_login_attempts :: "time \<Rightarrow> db \<Rightarrow> nat \<times> db" where
  "clean_user_login_attempts now d = (case sql_delete_batch xr_uid (\<lambda>x. xr_expires_at x \<le> now) xr_expires_at
     maintenanceCleanupBatch (db_user_login_attempts d) of
     (n, t) \<Rightarrow> (n, d\<lparr>db_user_login_attempts := t, db_webauthn_ceremonies :=
        cascade xr_login_attempt_uid xr_uid (db_user_login_attempts d) t (db_webauthn_ceremonies d)\<rparr>))"

definition clean_webauthn_ceremonies :: "time \<Rightarrow> db \<Rightarrow> nat \<times> db" where
  "clean_webauthn_ceremonies now d = (case sql_delete_batch xr_uid (\<lambda>x. xr_expires_at x \<le> now) xr_expires_at
     maintenanceCleanupBatch (db_webauthn_ceremonies d) of (n, t) \<Rightarrow> (n, d\<lparr>db_webauthn_ceremonies := t\<rparr>))"

definition clean_member_login_attempts :: "time \<Rightarrow> db \<Rightarrow> nat \<times> db" where
  "clean_member_login_attempts now d = (case sql_delete_batch xr_uid (\<lambda>x. xr_expires_at x \<le> now) xr_expires_at
     maintenanceCleanupBatch (db_member_login_attempts d) of
     (n, t) \<Rightarrow> (n, d\<lparr>db_member_login_attempts := t, db_member_ceremonies :=
        cascade xr_login_attempt_uid xr_uid (db_member_login_attempts d) t (db_member_ceremonies d)\<rparr>))"

definition clean_member_ceremonies :: "time \<Rightarrow> db \<Rightarrow> nat \<times> db" where
  "clean_member_ceremonies now d = (case sql_delete_batch xr_uid (\<lambda>x. xr_expires_at x \<le> now) xr_expires_at
     maintenanceCleanupBatch (db_member_ceremonies d) of (n, t) \<Rightarrow> (n, d\<lparr>db_member_ceremonies := t\<rparr>))"

definition clean_email_verifications :: "time \<Rightarrow> db \<Rightarrow> nat \<times> db" where
  "clean_email_verifications now d = (case sql_delete_batch vf_uid (verification_gone now) vf_created_at
     maintenanceCleanupBatch (db_email_verifications d) of (n, t) \<Rightarrow> (n, d\<lparr>db_email_verifications := t\<rparr>))"

definition clean_password_resets :: "time \<Rightarrow> db \<Rightarrow> nat \<times> db" where
  "clean_password_resets now d = (case sql_delete_batch vf_uid (verification_gone now) vf_created_at
     maintenanceCleanupBatch (db_password_resets d) of (n, t) \<Rightarrow> (n, d\<lparr>db_password_resets := t\<rparr>))"

definition clean_member_sessions :: "time \<Rightarrow> db \<Rightarrow> nat \<times> db" where
  "clean_member_sessions now d = (case sql_delete_batch ms_uid (member_session_gone now) ms_created_at
     maintenanceCleanupBatch (db_member_sessions d) of
     (n, t) \<Rightarrow> (n, d\<lparr>db_member_sessions := t, db_member_ceremonies :=
        cascade xr_session_uid ms_uid (db_member_sessions d) t (db_member_ceremonies d)\<rparr>))"

definition clean_user_sessions :: "time \<Rightarrow> db \<Rightarrow> nat \<times> db" where
  "clean_user_sessions now d = (case sql_delete_batch us_uid (user_session_gone now) us_created_at
     maintenanceCleanupBatch (db_user_sessions d) of (n, t) \<Rightarrow> (n, d\<lparr>db_user_sessions := t\<rparr>))"

definition clean_auth_requests :: "time \<Rightarrow> db \<Rightarrow> nat \<times> db" where
  "clean_auth_requests now d = (case sql_delete_batch ar_uid (auth_request_gone now) ar_created_at
     maintenanceCleanupBatch (db_auth_requests d) of (n, t) \<Rightarrow> (n, d\<lparr>db_auth_requests := t\<rparr>))"

definition clean_auth_codes :: "time \<Rightarrow> db \<Rightarrow> nat \<times> db" where
  "clean_auth_codes now d = (case sql_delete_batch ac_uid (auth_code_gone now) ac_created_at
     maintenanceCleanupBatch (db_auth_codes d) of (n, t) \<Rightarrow> (n, d\<lparr>db_auth_codes := t\<rparr>))"

definition clean_access_tokens :: "time \<Rightarrow> db \<Rightarrow> nat \<times> db" where
  "clean_access_tokens now d = (case sql_delete_batch tk_uid (access_token_gone now) tk_created_at
     maintenanceCleanupBatch (db_access_tokens d) of (n, t) \<Rightarrow> (n, d\<lparr>db_access_tokens := t\<rparr>))"

definition clean_invitations :: "time \<Rightarrow> db \<Rightarrow> nat \<times> db" where
  "clean_invitations now d = (case sql_delete_batch iv_uid (invitation_gone now) iv_created_at
     maintenanceCleanupBatch (db_invitations d) of (n, t) \<Rightarrow> (n, d\<lparr>db_invitations := t\<rparr>))"

definition clean_email_deliveries :: "time \<Rightarrow> db \<Rightarrow> nat \<times> db" where
  "clean_email_deliveries now d = (case sql_delete_batch ed_uid (email_delivery_gone now) (\<lambda>e. instant (ed_delivered_at e))
     maintenanceCleanupBatch (db_email_deliveries d) of (n, t) \<Rightarrow> (n, d\<lparr>db_email_deliveries := t\<rparr>))"

definition clean_jobs :: "time \<Rightarrow> db \<Rightarrow> nat \<times> db" where
  "clean_jobs now d = (case sql_delete_batch jr_uid (job_gone now) (\<lambda>j. instant (jr_completed_at j))
     maintenanceCleanupBatch (background_jobs (db_jobs d)) of (n, t) \<Rightarrow> (n, put_jobs t d))"

definition cleanups :: "(string \<times> (time \<Rightarrow> db \<Rightarrow> nat \<times> db)) list" where
  "cleanups =
     [(''rate_limit_buckets'', clean_buckets),
      (''project_user_login_attempts'', clean_user_login_attempts),
      (''webauthn_ceremonies'', clean_webauthn_ceremonies),
      (''tenant_member_login_attempts'', clean_member_login_attempts),
      (''tenant_member_webauthn_ceremonies'', clean_member_ceremonies),
      (''tenant_member_email_verifications'', clean_email_verifications),
      (''tenant_member_password_resets'', clean_password_resets),
      (''tenant_member_sessions'', clean_member_sessions),
      (''project_user_sessions'', clean_user_sessions),
      (''oauth_authorization_requests'', clean_auth_requests),
      (''oauth_authorization_codes'', clean_auth_codes),
      (''oauth_access_tokens'', clean_access_tokens),
      (''tenant_invitations'', clean_invitations),
      (''email_deliveries'', clean_email_deliveries),
      (''background_jobs'', clean_jobs)]"

section \<open>The job\<close>

fun cleanup_loop ::
  "faults \<Rightarrow> time \<Rightarrow> (string \<times> (time \<Rightarrow> db \<Rightarrow> nat \<times> db)) list \<Rightarrow> bool \<Rightarrow> db \<Rightarrow> (string + bool) \<times> db" where
  "cleanup_loop flt now [] full d = (Inr full, d)"
| "cleanup_loop flt now ((name, query) # cs) full d =
     (if flt (''clean up '' @ name) then (Inl (''clean up '' @ name), d)
      else (case query now d of
              (n, d') \<Rightarrow> cleanup_loop flt now cs (full \<or> n = maintenanceCleanupBatch) d'))"

definition runMaintenanceCleanup :: "call \<Rightarrow> db \<Rightarrow> (string + time option) \<times> db" where
  "runMaintenanceCleanup c d =
     (case DeleteExpired_records (ca_flt c) (ca_now c) (int maintenanceCleanupBatch) (db_idempotency d) of
        (Inl e, t) \<Rightarrow> (Inl ''delete expired idempotency records'', d\<lparr>db_idempotency := t\<rparr>)
      | (Inr deletedIdempotency, t) \<Rightarrow>
          (case cleanup_loop (ca_flt c) (ca_now c) cleanups (deletedIdempotency = maintenanceCleanupBatch)
                  (d\<lparr>db_idempotency := t\<rparr>) of
             (Inl e, d') \<Rightarrow> (Inl e, d')
           | (Inr batchWasFull, d') \<Rightarrow>
               if ca_flt c ''schedule next maintenance cleanup'' then (Inl ''schedule next maintenance cleanup'', d')
               else (Inr (Some (ca_now c + (if batchWasFull then Minute else maintenanceInterval))), d')))"

definition ensureMaintenanceJob :: "call \<Rightarrow> db \<Rightarrow> (string + unit) \<times> db" where
  "ensureMaintenanceJob c d =
     (let row = new_job (ca_now c) (ca_uid c ''maintenance'') ''maintenance'' ''maintenance.cleanup'' (Some ''global'')
                  (JObj []) 12 (ca_now c) in
      if ca_flt c ''initialize maintenance cleanup job'' then (Inl ''initialize maintenance cleanup job'', d)
      else if list_ex (\<lambda>j. dedup_conflict j row) (background_jobs (db_jobs d)) then (Inr (), d)
      else if job_conflict row (db_jobs d) then (Inl ''initialize maintenance cleanup job'', d)
      else (Inr (), put_jobs (background_jobs (db_jobs d) @ [row]) d))"

section \<open>What a run may remove\<close>

text \<open>The second table has lost only rows that satisfy the predicate.\<close>

definition table_kept :: "('r \<Rightarrow> bool) \<Rightarrow> 'r list \<Rightarrow> 'r list \<Rightarrow> bool" where
  "table_kept P t t' \<longleftrightarrow> set t' \<subseteq> set t \<and> (\<forall>r \<in> set t. \<not> P r \<longrightarrow> r \<in> set t')"

lemma table_kept_refl [simp]: "table_kept P t t"
  by (simp add: table_kept_def)

lemma table_kept_trans:
  "table_kept P t t' \<Longrightarrow> table_kept Q t' t'' \<Longrightarrow> (\<And>r. Q r \<Longrightarrow> P r) \<Longrightarrow> table_kept P t t''"
  by (fastforce simp: table_kept_def)

lemma table_kept_batch:
  "distinct (map key t) \<Longrightarrow> table_kept P t (snd (sql_delete_batch key P k n t))"
  unfolding table_kept_def by (intro conjI ballI impI batch_subset) (rule batch_keeps)

definition ceremony_gone :: "time \<Rightarrow> 'a expiring_row_scheme list \<Rightarrow> 'b expiring_row_scheme \<Rightarrow> bool" where
  "ceremony_gone now attempts x \<longleftrightarrow> xr_expires_at x \<le> now \<or>
     (\<exists>a \<in> set attempts. xr_login_attempt_uid x = Some (xr_uid a) \<and> xr_expires_at a \<le> now)"

definition member_ceremony_gone :: "time \<Rightarrow> db \<Rightarrow> member_ceremony_row \<Rightarrow> bool" where
  "member_ceremony_gone now d x \<longleftrightarrow> ceremony_gone now (db_member_login_attempts d) x \<or>
     (\<exists>s \<in> set (db_member_sessions d). xr_session_uid x = Some (ms_uid s) \<and> member_session_gone now s)"

text \<open>Everything outside the cleaned tables.\<close>

definition frame :: "db \<Rightarrow> db" where
  "frame d = d\<lparr>db_idempotency := [], db_buckets := [], db_user_login_attempts := [], db_webauthn_ceremonies := [],
     db_member_login_attempts := [], db_member_ceremonies := [], db_email_verifications := [],
     db_password_resets := [], db_member_sessions := [], db_user_sessions := [], db_auth_requests := [],
     db_auth_codes := [], db_access_tokens := [], db_invitations := [], db_email_deliveries := [],
     db_jobs := (db_jobs d)\<lparr>background_jobs := []\<rparr>\<rparr>"

definition only_expired_removed :: "time \<Rightarrow> db \<Rightarrow> db \<Rightarrow> bool" where
  "only_expired_removed now d d' \<longleftrightarrow>
     frame d' = frame d \<and>
     table_kept (\<lambda>r. ir_expires_at r \<le> now) (db_idempotency d) (db_idempotency d') \<and>
     table_kept (\<lambda>b. rb_expires_at b \<le> now) (db_buckets d) (db_buckets d') \<and>
     table_kept (\<lambda>x. xr_expires_at x \<le> now) (db_user_login_attempts d) (db_user_login_attempts d') \<and>
     table_kept (ceremony_gone now (db_user_login_attempts d)) (db_webauthn_ceremonies d) (db_webauthn_ceremonies d') \<and>
     table_kept (\<lambda>x. xr_expires_at x \<le> now) (db_member_login_attempts d) (db_member_login_attempts d') \<and>
     table_kept (member_ceremony_gone now d) (db_member_ceremonies d) (db_member_ceremonies d') \<and>
     table_kept (verification_gone now) (db_email_verifications d) (db_email_verifications d') \<and>
     table_kept (verification_gone now) (db_password_resets d) (db_password_resets d') \<and>
     table_kept (member_session_gone now) (db_member_sessions d) (db_member_sessions d') \<and>
     table_kept (user_session_gone now) (db_user_sessions d) (db_user_sessions d') \<and>
     table_kept (auth_request_gone now) (db_auth_requests d) (db_auth_requests d') \<and>
     table_kept (auth_code_gone now) (db_auth_codes d) (db_auth_codes d') \<and>
     table_kept (access_token_gone now) (db_access_tokens d) (db_access_tokens d') \<and>
     table_kept (invitation_gone now) (db_invitations d) (db_invitations d') \<and>
     table_kept (email_delivery_gone now) (db_email_deliveries d) (db_email_deliveries d') \<and>
     table_kept (job_gone now) (background_jobs (db_jobs d)) (background_jobs (db_jobs d'))"

lemma only_expired_removed_refl: "only_expired_removed now d d"
  by (simp add: only_expired_removed_def)

lemma gone_mono:
  assumes "only_expired_removed now d d'"
  shows "ceremony_gone now (db_user_login_attempts d') y \<Longrightarrow> ceremony_gone now (db_user_login_attempts d) y"
    and "member_ceremony_gone now d' x \<Longrightarrow> member_ceremony_gone now d x"
proof -
  have sub: "set (db_user_login_attempts d') \<subseteq> set (db_user_login_attempts d)"
    "set (db_member_login_attempts d') \<subseteq> set (db_member_login_attempts d)"
    "set (db_member_sessions d') \<subseteq> set (db_member_sessions d)"
    using assms by (simp_all add: only_expired_removed_def table_kept_def)
  show "ceremony_gone now (db_user_login_attempts d') y \<Longrightarrow> ceremony_gone now (db_user_login_attempts d) y"
    using sub(1) unfolding ceremony_gone_def by blast
  show "member_ceremony_gone now d' x \<Longrightarrow> member_ceremony_gone now d x"
    using sub(2,3) unfolding member_ceremony_gone_def ceremony_gone_def by blast
qed

lemma table_kept_same: "table_kept P t t' \<Longrightarrow> table_kept P t' t'' \<Longrightarrow> table_kept P t t''"
  by (rule table_kept_trans)

lemma only_expired_removed_trans:
  assumes "only_expired_removed now d d'" and "only_expired_removed now d' d''"
  shows "only_expired_removed now d d''"
proof -
  note mono = gone_mono [OF assms(1)]
  note one = assms(1) [unfolded only_expired_removed_def] and two = assms(2) [unfolded only_expired_removed_def]
  have "table_kept (ceremony_gone now (db_user_login_attempts d)) (db_webauthn_ceremonies d) (db_webauthn_ceremonies d'')"
    by (rule table_kept_trans [where t' = "db_webauthn_ceremonies d'" and Q = "ceremony_gone now (db_user_login_attempts d')"])
      (use one two mono(1) in simp_all)
  moreover have "table_kept (member_ceremony_gone now d) (db_member_ceremonies d) (db_member_ceremonies d'')"
    by (rule table_kept_trans [where t' = "db_member_ceremonies d'" and Q = "member_ceremony_gone now d'"])
      (use one two mono(2) in simp_all)
  moreover have "frame d'' = frame d" using one two by simp
  ultimately show ?thesis
    using one two unfolding only_expired_removed_def
    by (elim conjE) (intro conjI; (assumption | (rule table_kept_same, assumption, assumption)))
qed

section \<open>Each statement removes expired rows only\<close>

text \<open>The primary keys.\<close>

definition keys_distinct :: "db \<Rightarrow> bool" where
  "keys_distinct d \<longleftrightarrow>
     distinct (map ir_key (db_idempotency d)) \<and> distinct (map bucket_key (db_buckets d)) \<and>
     distinct (map xr_uid (db_user_login_attempts d)) \<and> distinct (map xr_uid (db_webauthn_ceremonies d)) \<and>
     distinct (map xr_uid (db_member_login_attempts d)) \<and> distinct (map xr_uid (db_member_ceremonies d)) \<and>
     distinct (map vf_uid (db_email_verifications d)) \<and> distinct (map vf_uid (db_password_resets d)) \<and>
     distinct (map ms_uid (db_member_sessions d)) \<and> distinct (map us_uid (db_user_sessions d)) \<and>
     distinct (map ar_uid (db_auth_requests d)) \<and> distinct (map ac_uid (db_auth_codes d)) \<and>
     distinct (map tk_uid (db_access_tokens d)) \<and> distinct (map iv_uid (db_invitations d)) \<and>
     distinct (map ed_uid (db_email_deliveries d)) \<and> distinct (map jr_uid (background_jobs (db_jobs d)))"

lemma distinct_map_filterI: "distinct (map f xs) \<Longrightarrow> distinct (map f (filter P xs))"
  by (rule distinct_map_filter)

lemma cascade_distinct: "distinct (map f xs) \<Longrightarrow> distinct (map f (cascade parent u b a xs))"
  by (simp add: cascade_def Let_def distinct_map_filterI)

lemma cascade_kept:
  assumes "distinct (map u t)"
  shows "table_kept (\<lambda>x. \<exists>p \<in> set t. parent x = Some (u p) \<and> P p) xs
    (cascade parent u t (snd (sql_delete_batch u P k n t)) xs)"
proof -
  let ?t' = "snd (sql_delete_batch u P k n t)"
  have "P p" if "p \<in> set t" "u p \<notin> u ` set ?t'" for p
    using batch_keeps [OF assms that(1), of P k n] that(2) by (metis image_eqI)
  then show ?thesis
    by (auto simp: table_kept_def cascade_def Let_def split: option.splits)
qed

lemma frame_simps [simp]:
  "frame (d\<lparr>db_idempotency := t1\<rparr>) = frame d" "frame (d\<lparr>db_buckets := t2\<rparr>) = frame d"
  "frame (d\<lparr>db_user_login_attempts := t3\<rparr>) = frame d" "frame (d\<lparr>db_webauthn_ceremonies := t4\<rparr>) = frame d"
  "frame (d\<lparr>db_member_login_attempts := t5\<rparr>) = frame d" "frame (d\<lparr>db_member_ceremonies := t6\<rparr>) = frame d"
  "frame (d\<lparr>db_email_verifications := t7\<rparr>) = frame d" "frame (d\<lparr>db_password_resets := t8\<rparr>) = frame d"
  "frame (d\<lparr>db_member_sessions := t9\<rparr>) = frame d" "frame (d\<lparr>db_user_sessions := t10\<rparr>) = frame d"
  "frame (d\<lparr>db_auth_requests := t11\<rparr>) = frame d" "frame (d\<lparr>db_auth_codes := t12\<rparr>) = frame d"
  "frame (d\<lparr>db_access_tokens := t13\<rparr>) = frame d" "frame (d\<lparr>db_invitations := t14\<rparr>) = frame d"
  "frame (d\<lparr>db_email_deliveries := t15\<rparr>) = frame d" "frame (put_jobs t16 d) = frame d"
  by (simp_all add: frame_def put_jobs_def)

definition step_ok :: "(time \<Rightarrow> db \<Rightarrow> nat \<times> db) \<Rightarrow> bool" where
  "step_ok q \<longleftrightarrow> (\<forall>now d. keys_distinct d \<longrightarrow>
     only_expired_removed now d (snd (q now d)) \<and> keys_distinct (snd (q now d)))"

lemma table_kept_weaken: "table_kept P t t' \<Longrightarrow> (\<And>r. P r \<Longrightarrow> Q r) \<Longrightarrow> table_kept Q t t'"
  by (auto simp: table_kept_def)

lemmas step_simps = step_ok_def split_beta only_expired_removed_def keys_distinct_def table_kept_batch
  batch_distinct put_jobs_def frame_simps [unfolded put_jobs_def]

lemma plain_steps:
  "step_ok clean_buckets" "step_ok clean_email_verifications" "step_ok clean_password_resets"
  "step_ok clean_user_sessions" "step_ok clean_auth_requests" "step_ok clean_auth_codes"
  "step_ok clean_access_tokens" "step_ok clean_invitations" "step_ok clean_email_deliveries" "step_ok clean_jobs"
  by (simp_all add: step_simps clean_buckets_def clean_email_verifications_def clean_password_resets_def
      clean_user_sessions_def clean_auth_requests_def clean_auth_codes_def clean_access_tokens_def
      clean_invitations_def clean_email_deliveries_def clean_jobs_def)

lemma ceremony_kept:
  "distinct (map xr_uid t) \<Longrightarrow>
     table_kept (ceremony_gone now attempts) t (snd (sql_delete_batch xr_uid (\<lambda>x. xr_expires_at x \<le> now) xr_expires_at n t))"
  by (rule table_kept_weaken [OF table_kept_batch]) (simp_all add: ceremony_gone_def)

lemma member_ceremony_kept:
  "distinct (map xr_uid t) \<Longrightarrow>
     table_kept (member_ceremony_gone now d) t (snd (sql_delete_batch xr_uid (\<lambda>x. xr_expires_at x \<le> now) xr_expires_at n t))"
  by (rule table_kept_weaken [OF table_kept_batch]) (simp_all add: member_ceremony_gone_def ceremony_gone_def)

lemma ceremony_steps: "step_ok clean_webauthn_ceremonies" "step_ok clean_member_ceremonies"
  by (simp_all add: step_simps clean_webauthn_ceremonies_def clean_member_ceremonies_def ceremony_kept member_ceremony_kept)

lemma ceremony_cascade:
  "distinct (map xr_uid t) \<Longrightarrow>
     table_kept (ceremony_gone now t) xs (cascade xr_login_attempt_uid xr_uid t
       (snd (sql_delete_batch xr_uid (\<lambda>x. xr_expires_at x \<le> now) xr_expires_at n t)) xs)"
  by (rule table_kept_weaken [OF cascade_kept]) (auto simp: ceremony_gone_def)

lemma cascade_steps:
  "step_ok clean_user_login_attempts" "step_ok clean_member_login_attempts" "step_ok clean_member_sessions"
proof -
  show "step_ok clean_user_login_attempts"
    by (simp add: step_simps clean_user_login_attempts_def cascade_distinct ceremony_cascade)
  have "table_kept (member_ceremony_gone now d) xs (cascade xr_login_attempt_uid xr_uid (db_member_login_attempts d)
      (snd (sql_delete_batch xr_uid (\<lambda>x. xr_expires_at x \<le> now) xr_expires_at n (db_member_login_attempts d))) xs)"
    if "distinct (map xr_uid (db_member_login_attempts d))" for now d xs n
    by (rule table_kept_weaken [OF cascade_kept [OF that]]) (auto simp: member_ceremony_gone_def ceremony_gone_def)
  then show "step_ok clean_member_login_attempts"
    by (simp add: step_simps clean_member_login_attempts_def cascade_distinct)
  have "table_kept (member_ceremony_gone now d) xs (cascade xr_session_uid ms_uid (db_member_sessions d)
      (snd (sql_delete_batch ms_uid (member_session_gone now) ms_created_at n (db_member_sessions d))) xs)"
    if "distinct (map ms_uid (db_member_sessions d))" for now d xs n
    by (rule table_kept_weaken [OF cascade_kept [OF that]]) (auto simp: member_ceremony_gone_def)
  then show "step_ok clean_member_sessions"
    by (simp add: step_simps clean_member_sessions_def cascade_distinct)
qed

lemma cleanups_ok: "\<forall>(name, q) \<in> set cleanups. step_ok q"
  using plain_steps ceremony_steps cascade_steps by (simp add: cleanups_def)

lemma cleanup_loop_ok:
  assumes "\<forall>(name, q) \<in> set cs. step_ok q" and "keys_distinct d"
  shows "only_expired_removed now d (snd (cleanup_loop flt now cs full d)) \<and>
    keys_distinct (snd (cleanup_loop flt now cs full d))"
  using assms
proof (induction cs arbitrary: d full)
  case Nil
  then show ?case by (simp add: only_expired_removed_refl)
next
  case (Cons e cs)
  obtain name q where e: "e = (name, q)" by fastforce
  have step: "only_expired_removed now d (snd (q now d))" "keys_distinct (snd (q now d))"
    using Cons.prems by (auto simp: e step_ok_def)
  have "only_expired_removed now (snd (q now d)) (snd (cleanup_loop flt now cs full' (snd (q now d)))) \<and>
      keys_distinct (snd (cleanup_loop flt now cs full' (snd (q now d))))" for full'
    using Cons.prems step(2) by (intro Cons.IH) auto
  then show ?case
    using only_expired_removed_trans [OF step(1)] Cons.prems(2)
    by (simp add: e split_beta only_expired_removed_refl)
qed

text \<open>Lemma (maintenance_removes_only_expired): whatever statement of a maintenance run fails, the run has deleted
  only rows whose lifetime and retention were over at the database's clock -- and ceremonies whose login
  attempt or session was such a row -- and has changed nothing else: no live session, token, code, pending
  invitation, undelivered email, unfinished job, and no row of any other table.\<close>

theorem maintenance_removes_only_expired:
  assumes "keys_distinct d"
  shows "only_expired_removed (ca_now c) d (snd (runMaintenanceCleanup c d)) \<and>
    keys_distinct (snd (runMaintenanceCleanup c d))"
proof -
  obtain r t where del: "DeleteExpired_records (ca_flt c) (ca_now c) (int maintenanceCleanupBatch) (db_idempotency d) = (r, t)"
    by fastforce
  let ?d = "d\<lparr>db_idempotency := t\<rparr>"
  have t: "t = snd (sql_delete_batch ir_key (\<lambda>row. ir_expires_at row \<le> ca_now c) ir_expires_at 1000 (db_idempotency d)) \<or>
      t = db_idempotency d"
    using del by (auto simp: DeleteExpired_records_def maintenanceCleanupBatch_def split_beta split: if_splits)
  have first: "only_expired_removed (ca_now c) d ?d" "keys_distinct ?d"
    using t assms by (auto simp: only_expired_removed_def keys_distinct_def table_kept_batch batch_distinct)
  note loop = cleanup_loop_ok [OF cleanups_ok first(2), of "ca_now c"]
  have "only_expired_removed (ca_now c) d (snd (cleanup_loop (ca_flt c) (ca_now c) cleanups full ?d))" for full
    using only_expired_removed_trans [OF first(1)] loop by blast
  then show ?thesis
    using del first loop
    by (auto simp: runMaintenanceCleanup_def split_beta split: sum.splits)
qed

section \<open>A run without backlog cleans everything\<close>

lemma batch_all:
  assumes "distinct (map key t)" and "sql_count p t \<le> n"
  shows "snd (sql_delete_batch key p k n t) = filter (\<lambda>r. \<not> p r) t"
proof -
  have sel: "set (sql_select p k n t) = {r \<in> set t. p r}"
    using assms(2) by (auto simp: sql_select_def sql_count_def)
  have "key r \<in> set (map key (sql_select p k n t)) \<longleftrightarrow> p r" if "r \<in> set t" for r
    using that sel batch_hit(2) [OF assms(1) that, of p k n] by auto
  then show ?thesis
    by (simp add: sql_delete_batch_def Let_def sql_delete_def cong: filter_cong)
qed

lemma sql_count_filter_le: "sql_count p (filter q t) \<le> sql_count p t"
  by (induction t) auto

definition backlog_small :: "time \<Rightarrow> db \<Rightarrow> bool" where
  "backlog_small now d \<longleftrightarrow>
     sql_count (\<lambda>r. ir_expires_at r \<le> now) (db_idempotency d) < 1000 \<and>
     sql_count (\<lambda>b. rb_expires_at b \<le> now) (db_buckets d) < 1000 \<and>
     sql_count (\<lambda>x. xr_expires_at x \<le> now) (db_user_login_attempts d) < 1000 \<and>
     sql_count (\<lambda>x. xr_expires_at x \<le> now) (db_webauthn_ceremonies d) < 1000 \<and>
     sql_count (\<lambda>x. xr_expires_at x \<le> now) (db_member_login_attempts d) < 1000 \<and>
     sql_count (\<lambda>x. xr_expires_at x \<le> now) (db_member_ceremonies d) < 1000 \<and>
     sql_count (verification_gone now) (db_email_verifications d) < 1000 \<and>
     sql_count (verification_gone now) (db_password_resets d) < 1000 \<and>
     sql_count (member_session_gone now) (db_member_sessions d) < 1000 \<and>
     sql_count (user_session_gone now) (db_user_sessions d) < 1000 \<and>
     sql_count (auth_request_gone now) (db_auth_requests d) < 1000 \<and>
     sql_count (auth_code_gone now) (db_auth_codes d) < 1000 \<and>
     sql_count (access_token_gone now) (db_access_tokens d) < 1000 \<and>
     sql_count (invitation_gone now) (db_invitations d) < 1000 \<and>
     sql_count (email_delivery_gone now) (db_email_deliveries d) < 1000 \<and>
     sql_count (job_gone now) (background_jobs (db_jobs d)) < 1000"

definition nothing_expired :: "time \<Rightarrow> db \<Rightarrow> bool" where
  "nothing_expired now d \<longleftrightarrow>
     list_all (\<lambda>r. \<not> ir_expires_at r \<le> now) (db_idempotency d) \<and>
     list_all (\<lambda>b. \<not> rb_expires_at b \<le> now) (db_buckets d) \<and>
     list_all (\<lambda>x. \<not> xr_expires_at x \<le> now) (db_user_login_attempts d) \<and>
     list_all (\<lambda>x. \<not> xr_expires_at x \<le> now) (db_webauthn_ceremonies d) \<and>
     list_all (\<lambda>x. \<not> xr_expires_at x \<le> now) (db_member_login_attempts d) \<and>
     list_all (\<lambda>x. \<not> xr_expires_at x \<le> now) (db_member_ceremonies d) \<and>
     list_all (\<lambda>v. \<not> verification_gone now v) (db_email_verifications d) \<and>
     list_all (\<lambda>v. \<not> verification_gone now v) (db_password_resets d) \<and>
     list_all (\<lambda>s. \<not> member_session_gone now s) (db_member_sessions d) \<and>
     list_all (\<lambda>s. \<not> user_session_gone now s) (db_user_sessions d) \<and>
     list_all (\<lambda>q. \<not> auth_request_gone now q) (db_auth_requests d) \<and>
     list_all (\<lambda>a. \<not> auth_code_gone now a) (db_auth_codes d) \<and>
     list_all (\<lambda>a. \<not> access_token_gone now a) (db_access_tokens d) \<and>
     list_all (\<lambda>i. \<not> invitation_gone now i) (db_invitations d) \<and>
     list_all (\<lambda>e. \<not> email_delivery_gone now e) (db_email_deliveries d) \<and>
     list_all (\<lambda>j. \<not> job_gone now j) (background_jobs (db_jobs d))"

lemma batch_small:
  assumes "distinct (map key t)" and "sql_count p t < 1000"
  shows "sql_delete_batch key p k maintenanceCleanupBatch t = (sql_count p t, filter (\<lambda>r. \<not> p r) t)"
  using batch_all [OF assms(1), of p 1000 k] batch_count [OF assms(1), of p k 1000] assms(2)
  by (cases "sql_delete_batch key p k maintenanceCleanupBatch t") (simp add: maintenanceCleanupBatch_def)

lemma cascade_filter: "\<exists>P. cascade parent u b a xs = filter P xs"
  unfolding cascade_def Let_def by blast

lemma not_full [simp]: "n < 1000 \<Longrightarrow> n \<noteq> maintenanceCleanupBatch"
  by (simp add: maintenanceCleanupBatch_def)

lemma less_after_filter: "sql_count p t < 1000 \<Longrightarrow> sql_count p (filter q t) < 1000"
  using sql_count_filter_le [of p q t] by simp

lemma cascade_count: "sql_count p t < 1000 \<Longrightarrow> sql_count p (cascade parent u b a t) < 1000"
  by (simp add: cascade_def Let_def less_after_filter)

lemma cascade_all: "list_all P xs \<Longrightarrow> list_all P (cascade parent u b a xs)"
  by (auto simp: cascade_def Let_def list_all_iff)

lemma filter_all: "list_all (\<lambda>r. \<not> p r) (filter (\<lambda>r. \<not> p r) t)"
  by (simp add: list_all_iff)

lemmas clean_defs = clean_buckets_def clean_user_login_attempts_def clean_webauthn_ceremonies_def
  clean_member_login_attempts_def clean_member_ceremonies_def clean_email_verifications_def
  clean_password_resets_def clean_member_sessions_def clean_user_sessions_def clean_auth_requests_def
  clean_auth_codes_def clean_access_tokens_def clean_invitations_def clean_email_deliveries_def clean_jobs_def

text \<open>Lemma (maintenance_drains): when no table has a backlog of 1000 expired rows and the database works, a run
  leaves no expired row in any cleaned table and asks to run again in one hour.\<close>

theorem maintenance_drains:
  assumes "keys_distinct d" and "backlog_small (ca_now c) d" and "ca_flt c = no_faults"
  shows "\<exists>d'. runMaintenanceCleanup c d = (Inr (Some (ca_now c + Hour)), d') \<and> nothing_expired (ca_now c) d'"
proof -
  have idem: "DeleteExpired_records (ca_flt c) (ca_now c) (int maintenanceCleanupBatch) (db_idempotency d) =
      (Inr (sql_count (\<lambda>r. ir_expires_at r \<le> ca_now c) (db_idempotency d)),
       filter (\<lambda>r. \<not> ir_expires_at r \<le> ca_now c) (db_idempotency d))"
    using assms batch_small [of ir_key "db_idempotency d" "\<lambda>r. ir_expires_at r \<le> ca_now c" ir_expires_at]
    by (simp add: DeleteExpired_records_def keys_distinct_def backlog_small_def maintenanceCleanupBatch_def)
  show ?thesis
    using assms idem unfolding keys_distinct_def backlog_small_def
    by (simp add: runMaintenanceCleanup_def cleanups_def clean_defs batch_small cascade_count cascade_distinct
        nothing_expired_def filter_all cascade_all put_jobs_def maintenanceInterval_def)
qed

definition demo_expired_db :: db where
  "demo_expired_db = empty_db\<lparr>db_webauthn_ceremonies := [\<lparr>xr_uid = ''a'', xr_expires_at = 5,
     xr_login_attempt_uid = None, xr_session_uid = None\<rparr>]\<rparr>"

theorem maintenance_removes_only_expired_witness:
  "keys_distinct demo_expired_db \<and>
   only_expired_removed (ca_now demo_call) demo_expired_db (snd (runMaintenanceCleanup demo_call demo_expired_db))"
proof -
  have "keys_distinct demo_expired_db" by (simp add: keys_distinct_def demo_expired_db_def empty_db_def)
  then show ?thesis using maintenance_removes_only_expired [of demo_expired_db demo_call] by simp
qed

theorem maintenance_drains_witness:
  "\<exists>d'. runMaintenanceCleanup demo_call demo_expired_db = (Inr (Some (ca_now demo_call + Hour)), d') \<and>
     nothing_expired (ca_now demo_call) d'"
  by (rule maintenance_drains)
    (simp_all add: keys_distinct_def backlog_small_def demo_expired_db_def empty_db_def demo_call_def)

end
