(* ===== verification/Worker.thy ===== *)
theory Worker
  imports Email_Delivery Maintenance
begin

text \<open>
  The background-job workers, \<^verbatim>\<open>internal/api/background_jobs.go\<close>: the retry delay, the dispatch of a job to
  its handler, the purge of a support case, and one iteration of a worker's loop -- scanning the queues,
  running the handler, and completing, retrying or rescheduling the job. Cancellation and logging are
  left out; \<open>waitForBackgroundJob\<close> only waits.
\<close>

section \<open>Retry delay\<close>

definition backgroundJobRetryDelay :: "entropy \<Rightarrow> int \<Rightarrow> duration" where
  "backgroundJobRetryDelay rnd attempt0 =
     (let attempt1 = (if attempt0 < 1 then 1 else attempt0);
          attempt = (if attempt1 > 9 then 9 else attempt1);
          base0 = Second * 2 ^ nat (attempt - 1);
          base = (if base0 > 5 * Minute then 5 * Minute else base0) in
      case rand_Read rnd 1 of
        None \<Rightarrow> base
      | Some random \<Rightarrow> base + (base div 4 * int (unat (random ! 0))) div 255)"

section \<open>Handlers\<close>

text \<open>A handler returns an error, or the instant to run again if the job is to be rescheduled.\<close>

type_synonym backgroundJobResult = "string + time option"

definition purge_audit :: "call \<Rightarrow> support_case_row \<Rightarrow> audit_row" where
  "purge_audit c k = \<lparr>au_uid = ca_uid c ''purge audit'', au_tenant_uid = sk_tenant_uid k, au_project_uid = sk_project_uid k,
     au_actor_type = ''system'', au_actor_uid = None, au_action = ''support_case.purged'',
     au_target_type = ''support_case'', au_target_uid = sk_uid k,
     au_metadata = JObj [(''case_reference'', JStr (sk_case_reference k)), (''category'', JStr (sk_category k)),
       (''retention_until'', case sk_retention_until k of None \<Rightarrow> JNull | Some t \<Rightarrow> JNum t)]\<rparr>"

text \<open>Deleting the case cascades to its messages and events.\<close>

definition purgeSupportCase :: "server \<Rightarrow> call \<Rightarrow> BackgroundJob \<Rightarrow> db \<Rightarrow> backgroundJobResult \<times> db" where
  "purgeSupportCase sv c job d =
     (case json_string_field ''case_uid'' (bj_payload job) of
        None \<Rightarrow> (Inl ''decode support case purge payload'', d)
      | Some caseUID \<Rightarrow>
          if \<not> uuid_ok sv caseUID then (Inl ''support case purge payload has an invalid case_uid'', d)
          else if ca_flt c ''begin support case purge'' then (Inl ''begin support case purge'', d)
          else if ca_flt c ''lock support case for purge'' then (Inl ''lock support case for purge'', d)
          else (case sql_row (\<lambda>k. sk_uid k = caseUID) (db_support_cases d) of
            None \<Rightarrow> if ca_flt c ''commit missing support case purge'' then (Inl ''commit missing support case purge'', d)
                    else (Inr None, d)
          | Some k \<Rightarrow>
              (case (if sk_status k \<noteq> ''closed'' then None else sk_retention_until k) of
                 None \<Rightarrow> if ca_flt c ''commit cancelled support case purge''
                         then (Inl ''commit cancelled support case purge'', d) else (Inr None, d)
               | Some retention \<Rightarrow>
                   if retention > ca_now c then
                     (if ca_flt c ''commit deferred support case purge''
                      then (Inl ''commit deferred support case purge'', d) else (Inr (Some retention), d))
                   else if ca_flt c ''purge support case'' then (Inl ''purge support case'', d)
                   else if ca_flt c ''commit support case purge'' then (Inl ''commit support case purge'', d)
                   else (Inr None, (add_audit (purge_audit c k) d)\<lparr>db_support_cases :=
                           sql_delete (\<lambda>k. sk_uid k = caseUID) (db_support_cases d),
                         db_support_messages := sql_delete (\<lambda>x. mg_case_uid x = caseUID) (db_support_messages d),
                         db_support_events := sql_delete (\<lambda>x. se_case_uid x = caseUID) (db_support_events d)\<rparr>))))"

definition handleBackgroundJob :: "server \<Rightarrow> call \<Rightarrow> BackgroundJob \<Rightarrow> db \<Rightarrow> backgroundJobResult \<times> db" where
  "handleBackgroundJob sv c job d =
     (if bj_type job = ''support_case.purge'' then purgeSupportCase sv c job d
      else if bj_type job = ''email.delivery'' then
        (case json_string_field ''delivery_uid'' (bj_payload job) of
           None \<Rightarrow> (Inl ''decode email delivery payload'', d)
         | Some deliveryUID \<Rightarrow>
             if \<not> uuid_ok sv deliveryUID then (Inl ''email delivery payload has an invalid delivery_uid'', d)
             else (case deliverEmail sv c deliveryUID d of
                     ((Some e, _), d') \<Rightarrow> (Inl e, d')
                   | ((None, _), d') \<Rightarrow> (Inr None, d')))
      else if bj_type job = ''maintenance.cleanup'' then runMaintenanceCleanup c d
      else (Inl (''unsupported background job type '' @ bj_type job), d))"

section \<open>One iteration of a worker\<close>

definition worker_queues :: "string list" where
  "worker_queues = [''retention'', ''email'', ''maintenance'']"

fun scan_queues ::
  "call \<Rightarrow> (uid \<Rightarrow> bool) \<Rightarrow> duration \<Rightarrow> nat \<Rightarrow> nat list \<Rightarrow> job_db \<Rightarrow> (BackgroundJob \<times> nat) option \<times> job_db" where
  "scan_queues c locked lease nextQueue [] d = (None, d)"
| "scan_queues c locked lease nextQueue (offset # offsets) d =
     (let queue = worker_queues ! ((nextQueue + offset) mod length worker_queues) in
      case Claim True (ca_flt c) locked (ca_now c) (ca_uid c (''lease '' @ queue)) queue lease d of
        (Inl e, d') \<Rightarrow> scan_queues c locked lease nextQueue offsets d'
      | (Inr None, d') \<Rightarrow> scan_queues c locked lease nextQueue offsets d'
      | (Inr (Some job), d') \<Rightarrow> (Some (job, (nextQueue + offset + 1) mod length worker_queues), d'))"

definition release_job :: "call \<Rightarrow> BackgroundJob \<Rightarrow> backgroundJobResult \<Rightarrow> job_db \<Rightarrow> job_db" where
  "release_job c job result d =
     (case result of
        Inl handleErr \<Rightarrow>
          snd (Retry (ca_flt c) (ca_now c) job
            (ca_now c + backgroundJobRetryDelay (ca_rand c ''retry'') (bj_attempt job)) (Some handleErr) d)
      | Inr (Some rescheduleAt) \<Rightarrow> snd (Reschedule (ca_flt c) (ca_now c) job rescheduleAt d)
      | Inr None \<Rightarrow> snd (Complete (ca_flt c) (ca_now c) job d))"

definition worker_iteration ::
  "server \<Rightarrow> call \<Rightarrow> (uid \<Rightarrow> bool) \<Rightarrow> duration \<Rightarrow> nat \<Rightarrow> db \<Rightarrow> (BackgroundJob option \<times> nat) \<times> db" where
  "worker_iteration sv c locked lease nextQueue d =
     (case scan_queues c locked lease nextQueue [0, 1, 2] (db_jobs d) of
        (None, jobs) \<Rightarrow> ((None, nextQueue), d\<lparr>db_jobs := jobs\<rparr>)
      | (Some (job, nextQueue'), jobs) \<Rightarrow>
          (case handleBackgroundJob sv c job (d\<lparr>db_jobs := jobs\<rparr>) of
             (result, d') \<Rightarrow> ((Some job, nextQueue'), d'\<lparr>db_jobs := release_job c job result (db_jobs d')\<rparr>)))"

text \<open>\<open>RunBackgroundJobs\<close>'s defaults.\<close>

definition worker_lease :: "duration \<Rightarrow> duration" where
  "worker_lease configured = (if configured \<le> 0 then 30 * Second else configured)"

section \<open>Retry delays are bounded\<close>

text \<open>Lemma (retry_delay_bounds): the delay before attempt \<open>n\<close>'s successor is at least \<open>2^(n-1)\<close> seconds and at most a
  quarter more, for \<open>n\<close> clamped to 1..9; it therefore lies between one second and 320 seconds, so the
  five-minute cap on the base never takes effect and the jitter can pass five minutes.\<close>

theorem retry_delay_bounds:
  "let base = Second * 2 ^ nat (max 1 (min 9 attempt) - 1); delay = backgroundJobRetryDelay rnd attempt in
    base \<le> delay \<and> 4 * delay \<le> 5 * base \<and> Second \<le> delay \<and> delay \<le> 320 * Second \<and>
    backgroundJobRetryDelay (Some (\<lambda>_. 255)) 9 = 320 * Second \<and> 5 * Minute < 320 * Second"
proof -
  define n where "n = max 1 (min 9 attempt)"
  define delay where "delay = backgroundJobRetryDelay rnd attempt"
  define base where "base = Second * 2 ^ nat (n - 1)"
  have n: "1 \<le> n" "n \<le> 9" by (simp_all add: n_def)
  have "(2 :: int) ^ nat (n - 1) \<le> 2 ^ 8" using n by (intro power_increasing) auto
  moreover have "(1 :: int) \<le> 2 ^ nat (n - 1)" by simp
  ultimately have base: "Second \<le> base" "base \<le> 256 * Second" by (simp_all add: base_def Second_def)
  have clamp: "(let a = (if attempt < 1 then 1 else attempt) in if a > 9 then 9 else a) = n"
    by (auto simp: n_def Let_def)
  have capped: "(if base > 5 * Minute then 5 * Minute else base) = base"
    using base(2) by (simp add: Minute_def Second_def)
  have eq: "delay = (case rand_Read rnd 1 of None \<Rightarrow> base
      | Some random \<Rightarrow> base + (base div 4 * int (unat (random ! 0))) div 255)"
    unfolding delay_def
    by (simp only: backgroundJobRetryDelay_def Let_def clamp [unfolded Let_def] base_def [symmetric] capped)
  have jitter: "0 \<le> (base div 4 * int (unat b)) div 255 \<and> 4 * ((base div 4 * int (unat b)) div 255) \<le> base" for b :: byte
  proof -
    have b: "0 \<le> int (unat b)" "int (unat b) \<le> 255" using unat_byte_less [of b] by linarith+
    have "0 \<le> base div 4" using base(1) by (simp add: Second_def)
    with b have "0 \<le> base div 4 * int (unat b)" "base div 4 * int (unat b) \<le> base div 4 * 255"
      by (simp_all add: mult_left_mono)
    then have "0 \<le> (base div 4 * int (unat b)) div 255" "(base div 4 * int (unat b)) div 255 \<le> base div 4"
      by (simp, metis nonzero_mult_div_cancel_right zdiv_mono1 zero_less_numeral zero_neq_numeral)
    then show ?thesis by linarith
  qed
  have "base \<le> delay \<and> 4 * delay \<le> 5 * base"
  proof (cases "rand_Read rnd 1")
    case None
    then have "delay = base" using eq by (simp only: option.case)
    then show ?thesis using base by (simp add: Second_def)
  next
    case (Some random)
    then have "delay = base + (base div 4 * int (unat (random ! 0))) div 255" using eq by (simp only: option.case)
    then show ?thesis using jitter [of "random ! 0"] by linarith
  qed
  moreover have "Second \<le> delay" "delay \<le> 320 * Second" using calculation base by linarith+
  moreover have "backgroundJobRetryDelay (Some (\<lambda>_. 255)) 9 = 320 * Second" "5 * Minute < 320 * Second"
    by (simp_all add: backgroundJobRetryDelay_def rand_Read_def Minute_def Second_def)
  ultimately show ?thesis unfolding Let_def n_def [symmetric] base_def [symmetric] delay_def [symmetric] by blast
qed

section \<open>Handlers keep the job table\<close>

text \<open>A handler may remove finished jobs, but neither touches the leases nor breaks the table.\<close>

definition jobs_safe :: "job_db \<Rightarrow> job_db \<Rightarrow> bool" where
  "jobs_safe d d' \<longleftrightarrow> job_invar d' \<and> (\<forall>u. job_holder d' u = job_holder d u)"

lemma jobs_safe_refl: "job_invar d \<Longrightarrow> jobs_safe d d"
  by (simp add: jobs_safe_def)

lemma jobs_safe_trans: "jobs_safe d d' \<Longrightarrow> jobs_safe d' d'' \<Longrightarrow> jobs_safe d d''"
  by (simp add: jobs_safe_def)

lemma dedup_keys_delete: "distinct (dedup_keys t) \<Longrightarrow> distinct (dedup_keys (sql_delete p t))"
proof -
  have "dedup_keys (sql_delete p t) =
      map (\<lambda>j. (jr_queue j, jr_dedup j)) (filter (\<lambda>j. \<not> p j) (filter (\<lambda>j. jr_dedup j \<noteq> None) t))"
    by (simp add: dedup_keys_def sql_delete_def conj_commute)
  then show "distinct (dedup_keys t) \<Longrightarrow> distinct (dedup_keys (sql_delete p t))"
    by (simp only: dedup_keys_def distinct_map_filterI)
qed

lemma jobs_safe_clean:
  assumes "job_invar d"
  shows "jobs_safe d (d\<lparr>background_jobs := snd (sql_delete_batch jr_uid (job_gone now) k n (background_jobs d))\<rparr>)"
proof -
  let ?t = "background_jobs d"
  let ?t' = "snd (sql_delete_batch jr_uid (job_gone now) k n ?t)"
  have dist: "distinct (map jr_uid ?t)" using assms by (simp add: job_invar_def)
  have inv: "job_invar (d\<lparr>background_jobs := ?t'\<rparr>)"
    using assms dedup_keys_delete
    by (simp add: job_invar_def distinct_map_sql_delete list_all_sql_delete sql_delete_batch_def Let_def)
  have "job_holder (d\<lparr>background_jobs := ?t'\<rparr>) u = job_holder d u" for u
  proof (cases "sql_row (\<lambda>j. jr_uid j = u) ?t")
    case None
    then have "sql_row (\<lambda>j. jr_uid j = u) ?t' = None"
      using batch_subset [of jr_uid "job_gone now" k n ?t] by (auto simp: sql_row_None_iff)
    with None show ?thesis by (simp add: job_holder_def)
  next
    case (Some j)
    show ?thesis
    proof (cases "job_gone now j")
      case False
      then show ?thesis using Some batch_keeps_row [where key = jr_uid and p = "job_gone now" and k = k and n = n, OF dist Some False] by (simp add: job_holder_def)
    next
      case True
      have "j' = j" if "sql_row (\<lambda>j. jr_uid j = u) ?t' = Some j'" for j'
      proof -
        have "j' \<in> set ?t" "jr_uid j' = u"
          using sql_row_SomeD [OF that] batch_subset [of jr_uid "job_gone now" k n ?t] by auto
        then show ?thesis using sql_row_key_eq [OF dist, of j' u] Some by simp
      qed
      then show ?thesis
        using True Some by (auto simp: job_holder_def job_gone_def split: option.splits)
    qed
  qed
  with inv show ?thesis by (simp add: jobs_safe_def)
qed

lemma cleanups_jobs_safe:
  "\<forall>(name, q) \<in> set cleanups. \<forall>now d. job_invar (db_jobs d) \<longrightarrow> jobs_safe (db_jobs d) (db_jobs (snd (q now d)))"
  by (simp add: cleanups_def clean_defs split_beta jobs_safe_refl put_jobs_def jobs_safe_clean)

lemma cleanup_loop_jobs_safe:
  assumes "\<forall>(name, q) \<in> set cs. \<forall>now d. job_invar (db_jobs d) \<longrightarrow> jobs_safe (db_jobs d) (db_jobs (snd (q now d)))"
    and "job_invar (db_jobs d)"
  shows "jobs_safe (db_jobs d) (db_jobs (snd (cleanup_loop flt now cs full d)))"
  using assms
proof (induction cs arbitrary: d full)
  case (Cons e cs)
  obtain name q where e: "e = (name, q)" by fastforce
  have step: "jobs_safe (db_jobs d) (db_jobs (snd (q now d)))" using Cons.prems by (auto simp: e)
  then have "jobs_safe (db_jobs (snd (q now d))) (db_jobs (snd (cleanup_loop flt now cs full' (snd (q now d)))))" for full'
    using Cons.prems by (intro Cons.IH) (auto simp: jobs_safe_def)
  then show ?case using jobs_safe_trans [OF step] Cons.prems(2) by (simp add: e split_beta jobs_safe_refl)
qed (simp add: jobs_safe_refl)

lemma runMaintenanceCleanup_jobs_safe:
  assumes "job_invar (db_jobs d)"
  shows "jobs_safe (db_jobs d) (db_jobs (snd (runMaintenanceCleanup c d)))"
proof -
  have "jobs_safe (db_jobs d) (db_jobs (snd (cleanup_loop flt now cleanups full (d\<lparr>db_idempotency := t\<rparr>))))" for flt now full t
    using cleanup_loop_jobs_safe [OF cleanups_jobs_safe, of "d\<lparr>db_idempotency := t\<rparr>"] assms by simp
  then show ?thesis
    using assms by (auto simp: runMaintenanceCleanup_def split_beta jobs_safe_refl split: sum.splits)
qed

lemma deliverEmail_jobs: "db_jobs (snd (deliverEmail sv c u d)) = db_jobs d"
  by (simp add: deliverEmail_def Let_def split: option.splits sum.splits)

lemma purgeSupportCase_jobs: "db_jobs (snd (purgeSupportCase sv c job d)) = db_jobs d"
  by (simp add: purgeSupportCase_def add_audit_def split: option.splits)

lemma handleBackgroundJob_jobs_safe:
  assumes "job_invar (db_jobs d)"
  shows "jobs_safe (db_jobs d) (db_jobs (snd (handleBackgroundJob sv c job d)))"
proof -
  show ?thesis
    using assms jobs_safe_refl [OF assms] runMaintenanceCleanup_jobs_safe [OF assms] purgeSupportCase_jobs [of sv c job d]
    by (auto simp: handleBackgroundJob_def split_beta deliverEmail_jobs split: option.splits)
qed

section \<open>One iteration keeps the table and always gives its lease back\<close>

lemma release_job_ok:
  assumes "job_invar d"
  shows "job_invar (release_job c job result d)"
    and "ca_flt c = no_faults \<Longrightarrow> job_holder d (bj_uid job) = Some (bj_lease_uid job) \<Longrightarrow>
      job_holder (release_job c job result d) (bj_uid job) = None"
proof -
  show "job_invar (release_job c job result d)"
    using Retry_invar [OF assms] Reschedule_invar [OF assms] Complete_invar [OF assms]
    by (simp add: release_job_def split: sum.splits option.splits)
  show "job_holder (release_job c job result d) (bj_uid job) = None"
    if "ca_flt c = no_faults" and "job_holder d (bj_uid job) = Some (bj_lease_uid job)"
    using that completion.release_holder retrial.release_holder rescheduling.release_holder
    by (simp add: release_job_def Complete_release Retry_release Reschedule_release Let_def split_beta
        split: sum.splits option.splits)
qed

definition no_work :: "time \<Rightarrow> (uid \<Rightarrow> bool) \<Rightarrow> string \<Rightarrow> job_db \<Rightarrow> bool" where
  "no_work now locked queue d \<longleftrightarrow>
     (\<forall>j \<in> set (background_jobs d). \<not> (claimable now queue j \<and> \<not> locked (jr_uid j)))"

lemma no_work_after_abandon: "no_work now locked queue (after_abandon now' queue' d) = no_work now locked queue d"
  unfolding no_work_def using claimable_after_abandon by blast

text \<open>A faultless claim on a valid queue either finds work or leaves only abandoned leases behind.\<close>

lemma Claim_faultless:
  assumes "backgroundJobQueue queue" and "0 < dur"
  obtains (empty) "Claim True no_faults locked now lease queue dur d = (Inr None, after_abandon now queue d)"
      "no_work now locked queue d"
  | (claimed) job d' where "Claim True no_faults locked now lease queue dur d = (Inr (Some job), d')"
proof (cases rule: Claim_cases [of True no_faults locked now lease queue dur d])
  case (error e)
  then have False using assms by (auto simp: Claim_def Let_def split: list.splits)
  then show thesis ..
next
  case empty
  then show thesis using that(1) no_work_after_abandon unfolding no_work_def by blast
next
  case (claimed c)
  then show thesis using that(2) by blast
qed

lemma worker_queue_names: "list_all backgroundJobQueue worker_queues"
  by (simp add: worker_queues_def backgroundJobQueue_def head_tail_match_def char_class_defs less_eq_char_def)

lemma scan_queues_ok:
  assumes "job_invar d" and "scan_queues c locked lease nq offsets d = (r, d')"
  shows "job_invar d' \<and>
    (case r of None \<Rightarrow> True
     | Some (job, nq') \<Rightarrow> nq' < 3 \<and> job_holder d' (bj_uid job) = Some (bj_lease_uid job))"
  using assms
proof (induction offsets arbitrary: d)
  case (Cons offset offsets)
  let ?queue = "worker_queues ! ((nq + offset) mod length worker_queues)"
  obtain x d1 where cl: "Claim True (ca_flt c) locked (ca_now c) (ca_uid c (''lease '' @ ?queue)) ?queue lease d = (x, d1)"
    by fastforce
  have inv: "job_invar d1" using Claim_invar [OF Cons.prems(1)] cl by (metis snd_conv)
  show ?case
  proof (cases "\<exists>job. x = Inr (Some job)")
    case True
    then obtain job where x: "x = Inr (Some job)" by blast
    have "r = Some (job, (nq + offset + 1) mod length worker_queues)" "d' = d1"
      using Cons.prems(2) cl unfolding x by (simp_all add: Let_def)
    moreover have "(nq + offset + 1) mod length worker_queues < 3" by (simp add: worker_queues_def)
    ultimately show ?thesis
      using inv Claim_holder(1,2) [OF Cons.prems(1) cl [unfolded x]] by simp
  next
    case False
    then have "scan_queues c locked lease nq offsets d1 = (r, d')"
      using Cons.prems(2) cl by (auto simp: Let_def split: sum.splits option.splits)
    then show ?thesis by (rule Cons.IH [OF inv])
  qed
qed auto

lemma scan_queues_none:
  assumes "ca_flt c = no_faults" and "0 < lease" and "scan_queues c locked lease nq offsets d = (None, d')"
    and "offset \<in> set offsets"
  shows "no_work (ca_now c) locked (worker_queues ! ((nq + offset) mod length worker_queues)) d"
  using assms(3,4)
proof (induction offsets arbitrary: d)
  case (Cons o1 offsets)
  let ?queue = "worker_queues ! ((nq + o1) mod length worker_queues)"
  have "backgroundJobQueue ?queue"
    using worker_queue_names unfolding list_all_iff
    by (rule bspec) (rule nth_mem, simp add: worker_queues_def)
  then show ?case
  proof (cases rule: Claim_faultless [OF _ assms(2), of ?queue locked "ca_now c" "ca_uid c (''lease '' @ ?queue)" d,
      consumes 1, case_names empty claimed])
    case empty
    have "scan_queues c locked lease nq offsets (after_abandon (ca_now c) ?queue d) = (None, d')"
      using Cons.prems(1) empty(1) assms(1) by (simp add: Let_def)
    note ih = Cons.IH [OF this]
    show ?thesis
    proof (cases "offset = o1")
      case True
      with empty(2) show ?thesis by simp
    next
      case False
      then have "offset \<in> set offsets" using Cons.prems(2) by simp
      from ih [OF this] show ?thesis by (simp add: no_work_after_abandon)
    qed
  next
    case (claimed job d1)
    then have False using Cons.prems(1) assms(1) by (simp add: Let_def)
    then show ?thesis ..
  qed
qed simp

text \<open>Lemma (worker_iteration_safe): an iteration of a worker, whatever fails in it, leaves a job table that satisfies
  its constraints. When the database works, the iteration ends with no lease on the job it took -- the
  job is completed, rescheduled, retried or dead-lettered, whatever its handler did -- and it takes no job
  only if none of the three queues has an eligible unlocked job.\<close>

theorem worker_iteration_safe:
  assumes "job_invar (db_jobs d)" and "worker_iteration sv c locked (worker_lease l) nq d = ((taken, nq'), d')"
  shows "job_invar (db_jobs d') \<and>
    (ca_flt c = no_faults \<longrightarrow>
       (case taken of
          Some job \<Rightarrow> job_holder (db_jobs d') (bj_uid job) = None \<and> nq' < 3
        | None \<Rightarrow> \<forall>queue \<in> {''retention'', ''email'', ''maintenance''}. no_work (ca_now c) locked queue (db_jobs d)))"
proof -
  obtain r jobs where scan: "scan_queues c locked (worker_lease l) nq [0, 1, 2] (db_jobs d) = (r, jobs)" by fastforce
  note ok = scan_queues_ok [OF assms(1) scan]
  have lease: "0 < worker_lease l" by (simp add: worker_lease_def)
  show ?thesis
  proof (cases r)
    case None
    then have eq: "taken = None" "d' = d\<lparr>db_jobs := jobs\<rparr>"
      using assms(2) scan by (simp_all add: worker_iteration_def)
    have "no_work (ca_now c) locked (worker_queues ! ((nq + offset) mod 3)) (db_jobs d)"
      if "ca_flt c = no_faults" "offset \<in> {0, 1, 2}" for offset
      using scan_queues_none [OF that(1) lease scan [unfolded None], of offset] that(2) by (simp add: worker_queues_def)
    moreover have "\<exists>offset \<in> {0, 1, 2}. (nq + offset) mod 3 = i" if "i < 3" for i :: nat
    proof
      show "(nq + (i + 2 * nq) mod 3) mod 3 = i" using that by (simp add: mod_add_right_eq)
      have "(i + 2 * nq) mod 3 < 3" by simp
      then show "(i + 2 * nq) mod 3 \<in> {0, 1, 2}" by auto
    qed
    ultimately have "no_work (ca_now c) locked (worker_queues ! i) (db_jobs d)" if "ca_flt c = no_faults" "i < 3" for i
      using that by metis
    from this [of 0] this [of 1] this [of 2] show ?thesis using eq ok by (simp add: worker_queues_def)
  next
    case (Some jn)
    obtain job q where jn: "jn = (job, q)" by fastforce
    obtain result d1 where h: "handleBackgroundJob sv c job (d\<lparr>db_jobs := jobs\<rparr>) = (result, d1)" by fastforce
    have eq: "taken = Some job" "nq' = q" "d' = d1\<lparr>db_jobs := release_job c job result (db_jobs d1)\<rparr>"
      using assms(2) scan h by (simp_all add: worker_iteration_def Some jn)
    have "jobs_safe jobs (db_jobs d1)"
      using handleBackgroundJob_jobs_safe [of "d\<lparr>db_jobs := jobs\<rparr>" sv c job] h ok by simp
    then have inv: "job_invar (db_jobs d1)" and holder: "job_holder (db_jobs d1) (bj_uid job) = Some (bj_lease_uid job)"
      using ok by (simp_all add: jobs_safe_def Some jn)
    show ?thesis using release_job_ok [OF inv] holder ok by (simp add: eq Some jn)
  qed
qed

text \<open>Lemma (purge_all_or_nothing): purging a support case either leaves the database as it was, or removes exactly that
  case with its messages and events -- which was closed and past its retention date -- and records exactly one audit event for it;
  a closed case still under retention is deferred to its retention date.\<close>

theorem purge_all_or_nothing:
  assumes "purgeSupportCase sv c job d = (result, d')"
  shows "(d' = d \<or> (\<exists>k t. k \<in> set (db_support_cases d) \<and> sk_status k = ''closed'' \<and> sk_retention_until k = Some t \<and>
      t \<le> ca_now c \<and> result = Inr None \<and>
      d' = d\<lparr>db_audit := db_audit d @ [purge_audit c k],
             db_support_cases := filter (\<lambda>x. sk_uid x \<noteq> sk_uid k) (db_support_cases d),
             db_support_messages := filter (\<lambda>x. mg_case_uid x \<noteq> sk_uid k) (db_support_messages d),
             db_support_events := filter (\<lambda>x. se_case_uid x \<noteq> sk_uid k) (db_support_events d)\<rparr>)) \<and>
    (\<forall>t. result = Inr (Some t) \<longrightarrow> ca_now c < t \<and> d' = d)"
proof (cases "json_string_field ''case_uid'' (bj_payload job)")
  case None
  then show ?thesis using assms by (auto simp: purgeSupportCase_def)
next
  case (Some caseUID)
  show ?thesis
  proof (cases "sql_row (\<lambda>k. sk_uid k = caseUID) (db_support_cases d)")
    case None
    then show ?thesis using assms Some by (auto simp: purgeSupportCase_def split: if_splits)
  next
    case row: (Some k)
    have k: "k \<in> set (db_support_cases d)" "sk_uid k = caseUID" using sql_row_SomeD [OF row] by simp_all
    show ?thesis
    proof (cases "sk_status k = ''closed'' \<and> sk_retention_until k \<noteq> None")
      case True
      then obtain t where t: "sk_retention_until k = Some t" by blast
      let ?d = "d\<lparr>db_audit := db_audit d @ [purge_audit c k],
        db_support_cases := filter (\<lambda>x. sk_uid x \<noteq> sk_uid k) (db_support_cases d),
        db_support_messages := filter (\<lambda>x. mg_case_uid x \<noteq> sk_uid k) (db_support_messages d),
        db_support_events := filter (\<lambda>x. se_case_uid x \<noteq> sk_uid k) (db_support_events d)\<rparr>"
      have "(if sk_status k \<noteq> ''closed'' then None else sk_retention_until k) = Some t" using True t by simp
      then have "(d' = d \<and> (\<forall>t. result = Inr (Some t) \<longrightarrow> ca_now c < t)) \<or> (t \<le> ca_now c \<and> result = Inr None \<and> d' = ?d)"
        using assms k(2) unfolding purgeSupportCase_def Some option.case row add_audit_def sql_delete_def
        by (simp only: option.case split: if_split_asm) auto
      then show ?thesis using True t k(1) by blast
    next
      case False
      then show ?thesis
        using assms Some row by (auto simp: purgeSupportCase_def split: if_splits option.splits)
    qed
  qed
qed

definition demo_case :: support_case_row where
  "demo_case = \<lparr>sk_uid = ''c'', sk_tenant_uid = ''t'', sk_project_uid = None, sk_case_reference = ''SC-000000000001'',
     sk_category = ''bug'', sk_status = ''closed'', sk_priority = ''normal'', sk_reporter_type = ''tenant_member'', sk_reporter_uid = ''m'',
     sk_assignee_member_uid = None, sk_subject = \<lparr>ev_KeyVersion = ''v'', ev_Nonce = [], ev_Ciphertext = []\<rparr>, sk_diagnostic_consent = False,
     sk_diagnostics = None, sk_version = 1, sk_message_count = 1, sk_attachment_count = 0, sk_attachment_bytes = 0, sk_created_at = 0,
     sk_updated_at = 0, sk_last_message_at = 0, sk_resolved_at = None, sk_closed_at = Some 0, sk_retention_until = Some 5\<rparr>"

definition demo_purge :: job_row where
  "demo_purge = new_job 0 ''j'' ''retention'' ''support_case.purge'' (Some ''k'') (JObj [(''case_uid'', JStr ''c'')]) 8 0"

definition demo_worker_db :: db where
  "demo_worker_db = empty_db\<lparr>db_support_cases := [demo_case],
     db_jobs := \<lparr>background_jobs = [demo_purge], platform_operator_actions = []\<rparr>\<rparr>"

definition demo_purge_job :: BackgroundJob where
  "demo_purge_job = job_handle ''l'' 9 demo_purge"

lemma demo_purge_run:
  "purgeSupportCase demo_server demo_call demo_purge_job demo_worker_db =
     (Inr None, demo_worker_db\<lparr>db_audit := [purge_audit demo_call demo_case], db_support_cases := []\<rparr>)"
  by (simp add: purgeSupportCase_def demo_purge_job_def job_handle_def demo_purge_def new_job_def json_string_field_def
      demo_server_def demo_call_def demo_worker_db_def empty_db_def demo_case_def add_audit_def sql_row_def
      sql_delete_def Second_def)

theorem purge_all_or_nothing_witness:
  "\<exists>k t. k \<in> set (db_support_cases demo_worker_db) \<and> sk_status k = ''closed'' \<and> sk_retention_until k = Some t \<and>
     t \<le> ca_now demo_call"
proof -
  have "db_support_cases (demo_worker_db\<lparr>db_audit := [purge_audit demo_call demo_case], db_support_cases := []\<rparr>) \<noteq>
      db_support_cases demo_worker_db"
    by (simp add: demo_worker_db_def empty_db_def)
  then show ?thesis using purge_all_or_nothing [OF demo_purge_run] by metis
qed

theorem worker_iteration_safe_witness:
  "\<exists>taken nq' d'. job_invar (db_jobs demo_worker_db) \<and>
     worker_iteration demo_server demo_call (\<lambda>_. False) (worker_lease 0) 0 demo_worker_db = ((taken, nq'), d') \<and>
     job_invar (db_jobs d') \<and>
     (case taken of
        Some job \<Rightarrow> job_holder (db_jobs d') (bj_uid job) = None \<and> nq' < 3
      | None \<Rightarrow> no_work (ca_now demo_call) (\<lambda>_. False) ''retention'' (db_jobs demo_worker_db) \<and>
          no_work (ca_now demo_call) (\<lambda>_. False) ''email'' (db_jobs demo_worker_db) \<and>
          no_work (ca_now demo_call) (\<lambda>_. False) ''maintenance'' (db_jobs demo_worker_db))"
proof -
  have inv: "job_invar (db_jobs demo_worker_db)"
    by (simp add: demo_worker_db_def demo_purge_def job_invar_def new_job_ok dedup_keys_def)
  have flt: "ca_flt demo_call = no_faults" by (simp add: demo_call_def)
  obtain taken nq' d' where run:
    "worker_iteration demo_server demo_call (\<lambda>_. False) (worker_lease 0) 0 demo_worker_db = ((taken, nq'), d')"
    by (metis prod.exhaust)
  note safe = worker_iteration_safe [OF inv run]
  from mp [OF safe [THEN conjunct2] flt]
  have "case taken of
        Some job \<Rightarrow> job_holder (db_jobs d') (bj_uid job) = None \<and> nq' < 3
      | None \<Rightarrow> no_work (ca_now demo_call) (\<lambda>_. False) ''retention'' (db_jobs demo_worker_db) \<and>
          no_work (ca_now demo_call) (\<lambda>_. False) ''email'' (db_jobs demo_worker_db) \<and>
          no_work (ca_now demo_call) (\<lambda>_. False) ''maintenance'' (db_jobs demo_worker_db)"
    by (cases taken) simp_all
  then show ?thesis
    by (intro exI [of _ taken] exI [of _ nq'] exI [of _ d'] conjI inv run safe [THEN conjunct1])
qed

end
