(* ===== verification/Console_Guards.thy ===== *)
theory Console_Guards
  imports Api_Base
begin

text \<open>
  Who may call what: the permission table (\<^verbatim>\<open>internal/api/permissions.go\<close>), the middleware of
  \<^verbatim>\<open>internal/api/server.go\<close> and of \<^verbatim>\<open>authorization_decisions.go\<close> that guards the handlers, and the route table.
\<close>

section \<open>Permissions\<close>

definition permissionRead :: string where "permissionRead = ''read''"
definition permissionManageTenant :: string where "permissionManageTenant = ''tenant.manage''"
definition permissionManageProjects :: string where "permissionManageProjects = ''projects.manage''"
definition permissionManageCredentials :: string where "permissionManageCredentials = ''credentials.manage''"
definition permissionManageUsers :: string where "permissionManageUsers = ''project_users.manage''"
definition permissionSupportUsers :: string where "permissionSupportUsers = ''project_users.support''"
definition permissionManageOAuth :: string where "permissionManageOAuth = ''oauth.manage''"
definition permissionManageAuthorization :: string where "permissionManageAuthorization = ''authorization.manage''"
definition permissionManageSupport :: string where "permissionManageSupport = ''support_cases.manage''"
definition serviceScopeProjectUsersRead :: string where "serviceScopeProjectUsersRead = ''project_users.read''"
definition serviceScopeProjectUsersWrite :: string where "serviceScopeProjectUsersWrite = ''project_users.write''"
definition serviceScopeAuthentication :: string where "serviceScopeAuthentication = ''authentication.perform''"
definition serviceScopeSessionsManage :: string where "serviceScopeSessionsManage = ''sessions.manage''"
definition serviceScopeSupportCasesRead :: string where "serviceScopeSupportCasesRead = ''support_cases.read''"
definition serviceScopeSupportCasesWrite :: string where "serviceScopeSupportCasesWrite = ''support_cases.write''"
definition serviceScopeExternalCredentialsManage :: string where "serviceScopeExternalCredentialsManage = ''external_credentials.manage''"

lemmas permission_defs = permissionRead_def permissionManageTenant_def permissionManageProjects_def
  permissionManageCredentials_def permissionManageUsers_def permissionSupportUsers_def permissionManageOAuth_def
  permissionManageAuthorization_def permissionManageSupport_def

definition permissionsByRole :: "(string \<times> string list) list" where
  "permissionsByRole =
     [(''owner'', [permissionRead, permissionManageTenant, permissionManageProjects, permissionManageCredentials,
                   permissionManageUsers, permissionSupportUsers, permissionManageOAuth,
                   permissionManageAuthorization, permissionManageSupport]),
      (''admin'', [permissionRead, permissionManageTenant, permissionManageProjects, permissionManageCredentials,
                   permissionManageUsers, permissionSupportUsers, permissionManageOAuth,
                   permissionManageAuthorization, permissionManageSupport]),
      (''developer'', [permissionRead, permissionManageProjects, permissionManageCredentials, permissionManageUsers,
                       permissionSupportUsers, permissionManageOAuth, permissionManageAuthorization]),
      (''support'', [permissionRead, permissionSupportUsers, permissionManageSupport]),
      (''viewer'', [permissionRead])]"

definition roleAllows :: "string \<Rightarrow> string \<Rightarrow> bool" where
  "roleAllows role permission =
     (case map_of permissionsByRole role of None \<Rightarrow> False | Some ps \<Rightarrow> permission \<in> set ps)"

section \<open>Middleware\<close>

definition csrf_candidate :: "server \<Rightarrow> http_request \<Rightarrow> string" where
  "csrf_candidate sv r =
     (let origin = hq_header r ''Origin''; ref = hq_header r ''Referer'' in
      if origin \<noteq> [] then origin
      else if ref \<noteq> [] then (case url_Parse sv ref of
                               Some parsed \<Rightarrow> up_Scheme parsed @ ''://'' @ up_Host parsed | None \<Rightarrow> [])
      else [])"

definition csrf :: "server \<Rightarrow> handler \<Rightarrow> handler" where
  "csrf sv next r d =
     (if hq_method r \<in> {''GET'', ''HEAD'', ''OPTIONS''} then next r d
      else if ConstantTimeCompare (bytes_of (csrf_candidate sv r)) (bytes_of (ConsoleOrigin sv)) \<noteq> 1
      then (fail r 403 ''csrf_rejected'' ''request origin is not allowed'', d)
      else next r d)"

definition active_member :: "db \<Rightarrow> uid \<Rightarrow> member_row option" where
  "active_member d u = sql_row (\<lambda>m. tm_uid m = u \<and> tm_status m = ''active'') (db_members d)"

text \<open>The session of a cookie, joined with its active member.\<close>

definition session_row :: "server \<Rightarrow> string \<Rightarrow> db \<Rightarrow> (member_session_row \<times> member_row) option" where
  "session_row sv cookie d =
     (case sql_row (\<lambda>s. ms_session_secret_hash s = SessionHash_of sv cookie \<and> ms_revoked_at s = None \<and>
                        active_member d (ms_tenant_member_uid s) \<noteq> None) (db_member_sessions d) of
        None \<Rightarrow> None
      | Some s \<Rightarrow> map_option (Pair s) (active_member d (ms_tenant_member_uid s)))"

definition touch_session :: "time \<Rightarrow> member_session_row \<Rightarrow> member_session_row" where
  "touch_session now s = s\<lparr>ms_last_seen_at := now, ms_idle_expires_at := min (ms_expires_at s) (now + 24 * Hour)\<rparr>"

definition unauthenticated :: "http_request \<Rightarrow> http_response" where
  "unauthenticated r = fail r 401 ''unauthenticated'' ''authentication required''"

definition session_principal :: "member_session_row \<Rightarrow> member_row \<Rightarrow> principal" where
  "session_principal s m = \<lparr>p_TenantUID = ms_tenant_uid s, p_MemberUID = ms_tenant_member_uid s, p_SessionUID = ms_uid s,
     p_Role = tm_role m, p_AuthenticationAssurance = ms_authentication_assurance s\<rparr>"

definition touched :: "call \<Rightarrow> member_session_row \<Rightarrow> db \<Rightarrow> db" where
  "touched c s d = (if ca_flt c ''touch session'' then d
     else d\<lparr>db_member_sessions := sql_update (\<lambda>x. ms_uid x = ms_uid s) (touch_session (ca_now c)) (db_member_sessions d)\<rparr>)"

definition consoleSession :: "server \<Rightarrow> call \<Rightarrow> handler \<Rightarrow> handler" where
  "consoleSession sv c next = csrf sv (\<lambda>r d.
     case hq_cookie r ''complicatedauth_session'' of
       None \<Rightarrow> (unauthenticated r, d)
     | Some cookie \<Rightarrow>
         if ca_flt c ''load session'' then (unauthenticated r, d)
         else (case session_row sv cookie d of
                 None \<Rightarrow> (unauthenticated r, d)
               | Some (s, m) \<Rightarrow>
                   if ca_now c > ms_expires_at s \<or> ca_now c > ms_idle_expires_at s then (unauthenticated r, d)
                   else next (r\<lparr>hq_principal := Some (session_principal s m)\<rparr>) (touched c s d)))"

definition consoleAuthorized :: "server \<Rightarrow> call \<Rightarrow> string \<Rightarrow> handler \<Rightarrow> handler" where
  "consoleAuthorized sv c permission next = consoleSession sv c (\<lambda>r d.
     if p_AuthenticationAssurance (mustPrincipal r) \<noteq> ''strong''
     then (fail r 403 ''strong_authentication_required'' ''complete passkey setup before using the management API'', d)
     else if \<not> roleAllows (p_Role (mustPrincipal r)) permission
     then (fail r 403 ''forbidden'' ''the Tenant Member role does not permit this operation'', d)
     else next r d)"

text \<open>\<open>strings.EqualFold(scheme, "Bearer")\<close>: none of these letters has a fold outside ASCII.\<close>

definition is_bearer :: "string \<Rightarrow> bool" where
  "is_bearer scheme \<longleftrightarrow> map lower_c scheme = ''bearer''"

text \<open>\<open>strings.LastIndex\<close>: the part before the last separator.\<close>

definition before_last :: "char \<Rightarrow> string \<Rightarrow> string option" where
  "before_last sep s = (if sep \<in> set s then Some (rev (tl (dropWhile (\<lambda>c. c \<noteq> sep) (rev s)))) else None)"

definition service_credential_row ::
  "time \<Rightarrow> string \<Rightarrow> db \<Rightarrow> (service_credential_row \<times> service_account_row \<times> project_row) option" where
  "service_credential_row now pfx d =
     (let account = (\<lambda>c. sql_row (\<lambda>a. sa_uid a = cr_service_account_uid c \<and> sa_status a = ''active'' \<and> sa_deleted_at a = None)
                          (db_service_accounts d));
          project = (\<lambda>a. sql_row (\<lambda>p. pj_uid p = sa_project_uid a \<and> pj_status p = ''active'') (db_projects d)) in
      case sql_row (\<lambda>c. cr_prefix c = pfx \<and> cr_status c = ''active'' \<and> cr_expires_at c > now \<and>
                        (case account c of None \<Rightarrow> False | Some a \<Rightarrow> project a \<noteq> None)) (db_service_credentials d) of
        None \<Rightarrow> None
      | Some c \<Rightarrow> (case account c of None \<Rightarrow> None | Some a \<Rightarrow> map_option (\<lambda>p. (c, a, p)) (project a)))"

definition invalid_service_credential :: "http_request \<Rightarrow> string \<Rightarrow> http_response" where
  "invalid_service_credential r challenge =
     with_header ''WWW-Authenticate'' challenge
       (fail r 401 ''invalid_service_credential'' ''valid Project service credential required'')"

definition use_credential :: "call \<Rightarrow> service_credential_row \<Rightarrow> db \<Rightarrow> db" where
  "use_credential c k d = (if ca_flt c ''touch service credential'' then d
     else d\<lparr>db_service_credentials := sql_update
       (\<lambda>x. cr_uid x = cr_uid k \<and> (case cr_last_used_at x of None \<Rightarrow> True | Some t \<Rightarrow> t < ca_now c - Minute))
       (\<lambda>x. x\<lparr>cr_last_used_at := Some (ca_now c)\<rparr>) (db_service_credentials d)\<rparr>)"

definition effective_scopes :: "service_credential_row \<Rightarrow> service_account_row \<Rightarrow> string list" where
  "effective_scopes c a = (case cr_effective_scopes c of None \<Rightarrow> sa_scopes a | Some s \<Rightarrow> s)"

definition serviceCredential :: "server \<Rightarrow> call \<Rightarrow> string \<Rightarrow> handler \<Rightarrow> handler" where
  "serviceCredential sv c requiredScope next r d =
     (case Cut (CHR '' '') (hq_header r ''Authorization'') of
        None \<Rightarrow> (invalid_service_credential r ''Bearer realm=\"complicatedauth\"'', d)
      | Some (scheme, value) \<Rightarrow>
          if \<not> is_bearer scheme then (invalid_service_credential r ''Bearer realm=\"complicatedauth\"'', d)
          else (case before_last (CHR ''.'') value of
            None \<Rightarrow> (invalid_service_credential r ''Bearer error=\"invalid_token\"'', d)
          | Some pfx \<Rightarrow>
              if pfx = [] then (invalid_service_credential r ''Bearer error=\"invalid_token\"'', d)
              else if ca_flt c ''load service credential'' then (invalid_service_credential r ''Bearer error=\"invalid_token\"'', d)
              else (case service_credential_row (ca_now c) pfx d of
                None \<Rightarrow> (invalid_service_credential r ''Bearer error=\"invalid_token\"'', d)
              | Some (k, a, p) \<Rightarrow>
                  if ConstantTimeCompare (cr_secret_hash k) (SecretHash_of sv value) \<noteq> 1 \<or>
                     (hq_path r ''project_uid'' \<noteq> [] \<and> sa_project_uid a \<noteq> hq_path r ''project_uid'')
                  then (invalid_service_credential r ''Bearer error=\"invalid_token\"'', d)
                  else if requiredScope \<notin> set (effective_scopes k a)
                  then (with_header ''WWW-Authenticate'' (''Bearer error=\"insufficient_scope\", scope=\"'' @ requiredScope @ ''\"'')
                          (fail r 403 ''insufficient_scope'' ''service account does not grant the required scope''), d)
                  else next (r\<lparr>hq_service := Some \<lparr>serviceCredentialUID = cr_uid k, serviceAccountUID = sa_uid a,
                              serviceTenantUID = pj_tenant_uid p, serviceProjectUID = sa_project_uid a\<rparr>\<rparr>)
                         (use_credential c k d))))"

definition consoleOrServiceCredential :: "server \<Rightarrow> call \<Rightarrow> string \<Rightarrow> string \<Rightarrow> handler \<Rightarrow> handler" where
  "consoleOrServiceCredential sv c permission requiredScope next r d =
     (case Cut (CHR '' '') (hq_header r ''Authorization'') of
        Some (scheme, _) \<Rightarrow>
          if is_bearer scheme then serviceCredential sv c requiredScope next r d
          else consoleAuthorized sv c permission next r d
      | None \<Rightarrow> consoleAuthorized sv c permission next r d)"

definition writeOAuthError :: "nat \<Rightarrow> string \<Rightarrow> string \<Rightarrow> http_response" where
  "writeOAuthError status code description =
     with_header ''Cache-Control'' ''no-store'' (with_header ''Pragma'' ''no-cache''
       (writeJSON status (JObj [(''error'', JStr code), (''error_description'', JStr description)])))"

definition writeInvalidBearer :: http_response where
  "writeInvalidBearer = with_header ''WWW-Authenticate'' ''Bearer error=\"invalid_token\"''
     (writeOAuthError 401 ''invalid_token'' ''The access token is invalid, expired, or revoked.'')"

definition active_application :: "db \<Rightarrow> uid \<Rightarrow> application_row option" where
  "active_application d u =
     sql_row (\<lambda>a. ap_uid a = u \<and> ap_status a = ''active'' \<and> ap_deleted_at a = None) (db_applications d)"

definition active_resource_server :: "db \<Rightarrow> uid \<Rightarrow> resource_server_row option" where
  "active_resource_server d u =
     sql_row (\<lambda>v. rv_uid v = u \<and> rv_status v = ''active'' \<and> rv_deleted_at v = None) (db_resource_servers d)"

definition active_grant :: "db \<Rightarrow> uid \<Rightarrow> uid \<Rightarrow> grant_row option" where
  "active_grant d app rsrc =
     sql_row (\<lambda>g. gr_application_uid g = app \<and> gr_resource_server_uid g = rsrc \<and> gr_status g = ''active'' \<and>
                  gr_deleted_at g = None) (db_grants d)"

definition resource_principal :: "access_token_row \<Rightarrow> resource_server_row \<Rightarrow> oauthResourcePrincipal" where
  "resource_principal t v = \<lparr>op_TenantUID = tk_tenant_uid t, op_MemberUID = tk_tenant_member_uid t, op_Subject = tk_subject t,
     op_ApplicationUID = tk_application_uid t, op_ResourceServerUID = rv_uid v, op_ResourceServerIdentifier = rv_identifier v,
     op_Scopes = tk_scopes t, op_PolicyVersion = rv_policy_version v, op_ExpiresAt = tk_expires_at t\<rparr>"

text \<open>The joined row of the bearer token's query.\<close>

definition resource_token :: "server \<Rightarrow> time \<Rightarrow> string \<Rightarrow> db \<Rightarrow> oauthResourcePrincipal option" where
  "resource_token sv now value d =
     (case sql_row (\<lambda>t. tk_token_hash t = SessionHash_of sv value \<and> tk_revoked_at t = None \<and> tk_expires_at t > now \<and>
                        active_member d (tk_tenant_member_uid t) \<noteq> None \<and>
                        active_application d (tk_application_uid t) \<noteq> None \<and>
                        (case tk_resource_server_uid t of None \<Rightarrow> False
                         | Some u \<Rightarrow> active_resource_server d u \<noteq> None \<and> active_grant d (tk_application_uid t) u \<noteq> None))
            (db_access_tokens d) of
        None \<Rightarrow> None
      | Some t \<Rightarrow> Option.bind (tk_resource_server_uid t)
                    (\<lambda>u. map_option (resource_principal t) (active_resource_server d u)))"

definition oauthResourceAuthorized :: "server \<Rightarrow> call \<Rightarrow> handler \<Rightarrow> handler" where
  "oauthResourceAuthorized sv c next r d =
     (let value = TrimPrefix (hq_header r ''Authorization'') ''Bearer '' in
      if value = [] \<or> length value > 8192 then (writeInvalidBearer, d)
      else if ca_flt c ''load access token'' then (writeInvalidBearer, d)
      else (case resource_token sv (ca_now c) value d of
              None \<Rightarrow> (writeInvalidBearer, d)
            | Some p \<Rightarrow> next (r\<lparr>hq_resource_principal := Some p\<rparr>) d))"

section \<open>Routes\<close>

datatype guard =
    Unguarded
  | Csrf
  | ConsoleSession
  | ConsoleAuthorized string
  | ServiceCredential string
  | ConsoleOrServiceCredential string string
  | OAuthResourceAuthorized

fun guarded :: "server \<Rightarrow> call \<Rightarrow> guard \<Rightarrow> handler \<Rightarrow> handler" where
  "guarded sv c Unguarded next = next"
| "guarded sv c Csrf next = csrf sv next"
| "guarded sv c ConsoleSession next = consoleSession sv c next"
| "guarded sv c (ConsoleAuthorized permission) next = consoleAuthorized sv c permission next"
| "guarded sv c (ServiceCredential requiredScope) next = serviceCredential sv c requiredScope next"
| "guarded sv c (ConsoleOrServiceCredential permission requiredScope) next =
     consoleOrServiceCredential sv c permission requiredScope next"
| "guarded sv c OAuthResourceAuthorized next = oauthResourceAuthorized sv c next"

definition routes :: "(string \<times> string \<times> guard \<times> string) list" where
  "routes = [
     (''GET'', ''/health/live'', Unguarded, ''live''),
     (''GET'', ''/health/ready'', Unguarded, ''ready''),
     (''GET'', ''/.well-known/openid-configuration'', Unguarded, ''oidcDiscovery''),
     (''GET'', ''/oauth/jwks'', Unguarded, ''oauthJWKS''),
     (''GET'', ''/oauth/authorize'', Unguarded, ''oauthAuthorize''),
     (''POST'', ''/oauth/token'', Unguarded, ''oauthToken''),
     (''GET'', ''/oauth/userinfo'', Unguarded, ''oauthUserInfo''),
     (''POST'', ''/oauth/revoke'', Unguarded, ''oauthRevoke''),
     (''POST'', ''/v1/console/auth/signup'', Csrf, ''signup''),
     (''POST'', ''/v1/console/login-attempts'', Csrf, ''createTenantMemberLoginAttempt''),
     (''POST'', ''/v1/console/login-attempts/{login_attempt_uid}/password-verifications'', Csrf, ''verifyTenantMemberLoginPassword''),
     (''POST'', ''/v1/console/login-attempts/{login_attempt_uid}/webauthn-authentication-ceremonies'', Csrf, ''beginTenantMemberWebAuthnLogin''),
     (''POST'', ''/v1/console/login-attempts/{login_attempt_uid}/webauthn-authentication-verifications'', Csrf, ''finishTenantMemberWebAuthnLogin''),
     (''POST'', ''/v1/console/login-attempts/{login_attempt_uid}/webauthn-registration-ceremonies'', Csrf, ''beginInitialTenantMemberWebAuthnEnrollment''),
     (''POST'', ''/v1/console/login-attempts/{login_attempt_uid}/webauthn-registration-verifications'', Csrf, ''finishInitialTenantMemberWebAuthnEnrollment''),
     (''POST'', ''/v1/console/email-verification-requests'', Csrf, ''createTenantEmailVerificationRequest''),
     (''POST'', ''/v1/console/email-verifications'', Csrf, ''verifyTenantEmail''),
     (''POST'', ''/v1/console/password-reset-requests'', Csrf, ''createTenantPasswordResetRequest''),
     (''POST'', ''/v1/console/password-resets'', Csrf, ''resetTenantMemberPassword''),
     (''POST'', ''/v1/console/auth/logout'', ConsoleSession, ''logout''),
     (''GET'', ''/v1/console/auth/session'', ConsoleSession, ''session''),
     (''GET'', ''/v1/console/auth/sessions'', ConsoleAuthorized permissionRead, ''listMemberSessions''),
     (''DELETE'', ''/v1/console/auth/sessions/{session_uid}'', ConsoleAuthorized permissionRead, ''revokeMemberSession''),
     (''GET'', ''/v1/console/webauthn-credentials'', ConsoleAuthorized permissionRead, ''listTenantMemberWebAuthnCredentials''),
     (''POST'', ''/v1/console/webauthn-registration-ceremonies'', ConsoleSession, ''beginSessionTenantMemberWebAuthnEnrollment''),
     (''POST'', ''/v1/console/webauthn-registration-verifications'', ConsoleSession, ''finishSessionTenantMemberWebAuthnEnrollment''),
     (''PATCH'', ''/v1/console/webauthn-credentials/{credential_uid}'', ConsoleAuthorized permissionRead, ''updateTenantMemberWebAuthnCredential''),
     (''DELETE'', ''/v1/console/webauthn-credentials/{credential_uid}'', ConsoleAuthorized permissionRead, ''deleteTenantMemberWebAuthnCredential''),
     (''GET'', ''/v1/tenant/members'', ConsoleAuthorized permissionRead, ''listTenantMembers''),
     (''GET'', ''/v1/tenant/members/{member_uid}'', ConsoleAuthorized permissionRead, ''getTenantMember''),
     (''PATCH'', ''/v1/tenant/members/{member_uid}'', ConsoleAuthorized permissionManageTenant, ''updateTenantMember''),
     (''DELETE'', ''/v1/tenant/members/{member_uid}'', ConsoleAuthorized permissionManageTenant, ''removeTenantMember''),
     (''GET'', ''/v1/tenant/invitations'', ConsoleAuthorized permissionManageTenant, ''listTenantInvitations''),
     (''POST'', ''/v1/tenant/invitations'', ConsoleAuthorized permissionManageTenant, ''createTenantInvitation''),
     (''DELETE'', ''/v1/tenant/invitations/{invitation_uid}'', ConsoleAuthorized permissionManageTenant, ''revokeTenantInvitation''),
     (''POST'', ''/v1/tenant/invitations/{invitation_uid}/accept'', Csrf, ''acceptTenantInvitation''),
     (''GET'', ''/v1/oauth/applications'', ConsoleAuthorized permissionRead, ''listOAuthApplications''),
     (''POST'', ''/v1/oauth/applications'', ConsoleAuthorized permissionManageOAuth, ''createOAuthApplication''),
     (''GET'', ''/v1/oauth/applications/{application_uid}'', ConsoleAuthorized permissionRead, ''getOAuthApplication''),
     (''PATCH'', ''/v1/oauth/applications/{application_uid}'', ConsoleAuthorized permissionManageOAuth, ''updateOAuthApplication''),
     (''DELETE'', ''/v1/oauth/applications/{application_uid}'', ConsoleAuthorized permissionManageOAuth, ''deleteOAuthApplication''),
     (''GET'', ''/v1/oauth/applications/{application_uid}/client-secrets'', ConsoleAuthorized permissionManageOAuth, ''listOAuthClientSecrets''),
     (''POST'', ''/v1/oauth/applications/{application_uid}/client-secrets'', ConsoleAuthorized permissionManageOAuth, ''createOAuthClientSecret''),
     (''DELETE'', ''/v1/oauth/applications/{application_uid}/client-secrets/{secret_uid}'', ConsoleAuthorized permissionManageOAuth, ''revokeOAuthClientSecret''),
     (''POST'', ''/v1/oauth/authorization-requests/inspect'', ConsoleAuthorized permissionRead, ''inspectOAuthAuthorizationRequest''),
     (''POST'', ''/v1/oauth/authorization-requests/decision'', ConsoleAuthorized permissionRead, ''decideOAuthAuthorizationRequest''),
     (''GET'', ''/v1/oauth/consents'', ConsoleAuthorized permissionRead, ''listOAuthConsents''),
     (''DELETE'', ''/v1/oauth/consents/{consent_uid}'', ConsoleAuthorized permissionRead, ''revokeOAuthConsent''),
     (''GET'', ''/v1/resource-servers'', ConsoleAuthorized permissionRead, ''listResourceServers''),
     (''POST'', ''/v1/resource-servers'', ConsoleAuthorized permissionManageAuthorization, ''createResourceServer''),
     (''GET'', ''/v1/resource-servers/{resource_server_uid}'', ConsoleAuthorized permissionRead, ''getResourceServer''),
     (''PATCH'', ''/v1/resource-servers/{resource_server_uid}'', ConsoleAuthorized permissionManageAuthorization, ''updateResourceServer''),
     (''DELETE'', ''/v1/resource-servers/{resource_server_uid}'', ConsoleAuthorized permissionManageAuthorization, ''deleteResourceServer''),
     (''GET'', ''/v1/resource-servers/{resource_server_uid}/scopes'', ConsoleAuthorized permissionRead, ''listResourceServerScopes''),
     (''POST'', ''/v1/resource-servers/{resource_server_uid}/scopes'', ConsoleAuthorized permissionManageAuthorization, ''createResourceServerScope''),
     (''GET'', ''/v1/resource-servers/{resource_server_uid}/scopes/{scope_uid}'', ConsoleAuthorized permissionRead, ''getResourceServerScope''),
     (''PATCH'', ''/v1/resource-servers/{resource_server_uid}/scopes/{scope_uid}'', ConsoleAuthorized permissionManageAuthorization, ''updateResourceServerScope''),
     (''DELETE'', ''/v1/resource-servers/{resource_server_uid}/scopes/{scope_uid}'', ConsoleAuthorized permissionManageAuthorization, ''deleteResourceServerScope''),
     (''GET'', ''/v1/oauth/applications/{application_uid}/grants'', ConsoleAuthorized permissionRead, ''listOAuthApplicationGrants''),
     (''POST'', ''/v1/oauth/applications/{application_uid}/grants'', ConsoleAuthorized permissionManageAuthorization, ''createOAuthApplicationGrant''),
     (''GET'', ''/v1/oauth/applications/{application_uid}/grants/{grant_uid}'', ConsoleAuthorized permissionRead, ''getOAuthApplicationGrant''),
     (''PATCH'', ''/v1/oauth/applications/{application_uid}/grants/{grant_uid}'', ConsoleAuthorized permissionManageAuthorization, ''updateOAuthApplicationGrant''),
     (''DELETE'', ''/v1/oauth/applications/{application_uid}/grants/{grant_uid}'', ConsoleAuthorized permissionManageAuthorization, ''deleteOAuthApplicationGrant''),
     (''POST'', ''/v1/authorization/decisions'', OAuthResourceAuthorized, ''createAuthorizationDecision''),
     (''POST'', ''/v1/access/evaluations'', OAuthResourceAuthorized, ''createAccessEvaluation''),
     (''POST'', ''/v1/external-platform/credentials/authorize'', ServiceCredential serviceScopeExternalCredentialsManage, ''authorizeExternalCredentialOperation''),
     (''POST'', ''/v1/external-platform/credentials'', ServiceCredential serviceScopeExternalCredentialsManage, ''issueExternalCredential''),
     (''POST'', ''/v1/external-platform/credentials/{credential_uid}/revoke'', ServiceCredential serviceScopeExternalCredentialsManage, ''revokeExternalCredential''),
     (''GET'', ''/v1/projects'', ConsoleAuthorized permissionRead, ''listProjects''),
     (''POST'', ''/v1/projects'', ConsoleAuthorized permissionManageProjects, ''createProject''),
     (''GET'', ''/v1/projects/{project_uid}'', ConsoleAuthorized permissionRead, ''getProjectHandler''),
     (''PATCH'', ''/v1/projects/{project_uid}'', ConsoleAuthorized permissionManageProjects, ''updateProject''),
     (''GET'', ''/v1/projects/{project_uid}/origins'', ConsoleAuthorized permissionRead, ''listOrigins''),
     (''POST'', ''/v1/projects/{project_uid}/origins'', ConsoleAuthorized permissionManageProjects, ''createOrigin''),
     (''DELETE'', ''/v1/projects/{project_uid}/origins/{origin_uid}'', ConsoleAuthorized permissionManageProjects, ''deleteOrigin''),
     (''GET'', ''/v1/projects/{project_uid}/service-accounts'', ConsoleAuthorized permissionManageCredentials, ''listServiceAccounts''),
     (''POST'', ''/v1/projects/{project_uid}/service-accounts'', ConsoleAuthorized permissionManageCredentials, ''createServiceAccount''),
     (''GET'', ''/v1/projects/{project_uid}/service-accounts/{service_account_uid}'', ConsoleAuthorized permissionManageCredentials, ''getServiceAccount''),
     (''PATCH'', ''/v1/projects/{project_uid}/service-accounts/{service_account_uid}'', ConsoleAuthorized permissionManageCredentials, ''updateServiceAccount''),
     (''DELETE'', ''/v1/projects/{project_uid}/service-accounts/{service_account_uid}'', ConsoleAuthorized permissionManageCredentials, ''deleteServiceAccount''),
     (''GET'', ''/v1/projects/{project_uid}/service-accounts/{service_account_uid}/credentials'', ConsoleAuthorized permissionManageCredentials, ''listServiceCredentials''),
     (''POST'', ''/v1/projects/{project_uid}/service-accounts/{service_account_uid}/credentials'', ConsoleAuthorized permissionManageCredentials, ''createServiceCredential''),
     (''GET'', ''/v1/projects/{project_uid}/service-accounts/{service_account_uid}/credentials/{credential_uid}'', ConsoleAuthorized permissionManageCredentials, ''getServiceCredential''),
     (''DELETE'', ''/v1/projects/{project_uid}/service-accounts/{service_account_uid}/credentials/{credential_uid}'', ConsoleAuthorized permissionManageCredentials, ''revokeServiceCredential''),
     (''GET'', ''/v1/projects/{project_uid}/users'', ConsoleOrServiceCredential permissionRead serviceScopeProjectUsersRead, ''listProjectUsers''),
     (''POST'', ''/v1/projects/{project_uid}/users'', ConsoleOrServiceCredential permissionManageUsers serviceScopeProjectUsersWrite, ''createProjectUser''),
     (''GET'', ''/v1/projects/{project_uid}/users/{user_uid}'', ConsoleOrServiceCredential permissionRead serviceScopeProjectUsersRead, ''getProjectUserHandler''),
     (''PATCH'', ''/v1/projects/{project_uid}/users/{user_uid}'', ConsoleOrServiceCredential permissionManageUsers serviceScopeProjectUsersWrite, ''updateProjectUser''),
     (''PUT'', ''/v1/projects/{project_uid}/users/{user_uid}/password'', ConsoleOrServiceCredential permissionManageUsers serviceScopeProjectUsersWrite, ''replaceProjectUserPassword''),
     (''POST'', ''/v1/projects/{project_uid}/users/{user_uid}/sessions/revoke'', ConsoleOrServiceCredential permissionSupportUsers serviceScopeSessionsManage, ''revokeProjectUserSessions''),
     (''DELETE'', ''/v1/projects/{project_uid}/users/{user_uid}/passkeys/{credential_uid}'', ConsoleOrServiceCredential permissionManageUsers serviceScopeProjectUsersWrite, ''deletePasskey''),
     (''GET'', ''/v1/support/cases'', ConsoleOrServiceCredential permissionManageSupport serviceScopeSupportCasesRead, ''listSupportCases''),
     (''POST'', ''/v1/support-submissions'', ServiceCredential serviceScopeSupportCasesWrite, ''createSupportSubmission''),
     (''POST'', ''/v1/support/cases'', ConsoleOrServiceCredential permissionManageSupport serviceScopeSupportCasesWrite, ''createSupportCase''),
     (''GET'', ''/v1/support/cases/{case_uid}'', ConsoleOrServiceCredential permissionManageSupport serviceScopeSupportCasesRead, ''getSupportCase''),
     (''PATCH'', ''/v1/support/cases/{case_uid}'', ConsoleOrServiceCredential permissionManageSupport serviceScopeSupportCasesWrite, ''updateSupportCase''),
     (''GET'', ''/v1/support/cases/{case_uid}/messages'', ConsoleOrServiceCredential permissionManageSupport serviceScopeSupportCasesRead, ''listSupportCaseMessages''),
     (''POST'', ''/v1/support/cases/{case_uid}/messages'', ConsoleOrServiceCredential permissionManageSupport serviceScopeSupportCasesWrite, ''createSupportCaseMessage''),
     (''GET'', ''/v1/support/cases/{case_uid}/attachments'', ConsoleOrServiceCredential permissionManageSupport serviceScopeSupportCasesRead, ''listSupportCaseAttachments''),
     (''POST'', ''/v1/support/cases/{case_uid}/attachments'', ConsoleOrServiceCredential permissionManageSupport serviceScopeSupportCasesWrite, ''createSupportCaseAttachment''),
     (''GET'', ''/v1/support/cases/{case_uid}/attachments/{attachment_uid}'', ConsoleOrServiceCredential permissionManageSupport serviceScopeSupportCasesRead, ''getSupportCaseAttachment''),
     (''GET'', ''/v1/support/cases/{case_uid}/attachments/{attachment_uid}/content'', ConsoleOrServiceCredential permissionManageSupport serviceScopeSupportCasesRead, ''downloadSupportCaseAttachment''),
     (''GET'', ''/v1/support/cases/{case_uid}/events'', ConsoleOrServiceCredential permissionManageSupport serviceScopeSupportCasesRead, ''listSupportCaseEvents''),
     (''GET'', ''/v1/support/cases/{case_uid}/external-references'', ConsoleAuthorized permissionManageSupport, ''listSupportCaseExternalReferences''),
     (''POST'', ''/v1/support/cases/{case_uid}/external-references'', ConsoleAuthorized permissionManageSupport, ''createSupportCaseExternalReference''),
     (''DELETE'', ''/v1/support/cases/{case_uid}/external-references/{external_reference_uid}'', ConsoleAuthorized permissionManageSupport, ''deleteSupportCaseExternalReference''),
     (''GET'', ''/v1/projects/{project_uid}/activity'', ConsoleAuthorized permissionRead, ''listActivity''),
     (''GET'', ''/v1/activity'', ConsoleAuthorized permissionRead, ''listActivity''),
     (''POST'', ''/v1/projects/{project_uid}/runtime/login/start'', ServiceCredential serviceScopeAuthentication, ''startProjectUserLogin''),
     (''POST'', ''/v1/projects/{project_uid}/runtime/login/password'', ServiceCredential serviceScopeAuthentication, ''verifyProjectUserLoginPassword''),
     (''POST'', ''/v1/projects/{project_uid}/runtime/login/fido/options'', ServiceCredential serviceScopeAuthentication, ''beginFidoLogin''),
     (''POST'', ''/v1/projects/{project_uid}/runtime/login/fido/verify'', ServiceCredential serviceScopeAuthentication, ''finishFidoLogin''),
     (''POST'', ''/v1/projects/{project_uid}/runtime/login/fido/enrollment/options'', ServiceCredential serviceScopeAuthentication, ''beginFirstFidoEnrollment''),
     (''POST'', ''/v1/projects/{project_uid}/runtime/login/fido/enrollment/verify'', ServiceCredential serviceScopeAuthentication, ''finishFirstFidoEnrollment''),
     (''POST'', ''/v1/projects/{project_uid}/runtime/login/biometric'', ServiceCredential serviceScopeAuthentication, ''verifyBiometricLogin''),
     (''POST'', ''/v1/projects/{project_uid}/runtime/fido/registration/options'', ServiceCredential serviceScopeAuthentication, ''beginFidoEnrollment''),
     (''POST'', ''/v1/projects/{project_uid}/runtime/fido/registration/verify'', ServiceCredential serviceScopeAuthentication, ''finishFidoEnrollment''),
     (''POST'', ''/v1/projects/{project_uid}/runtime/biometric/enrollment'', ServiceCredential serviceScopeAuthentication, ''enrollBiometric''),
     (''DELETE'', ''/v1/projects/{project_uid}/runtime/biometric/enrollment'', ServiceCredential serviceScopeAuthentication, ''deleteBiometricEnrollment''),
     (''POST'', ''/v1/projects/{project_uid}/runtime/sessions/introspect'', ServiceCredential serviceScopeSessionsManage, ''runtimeIntrospect''),
     (''POST'', ''/v1/projects/{project_uid}/runtime/sessions/revoke'', ServiceCredential serviceScopeSessionsManage, ''runtimeRevoke'')]"

section \<open>What the guards let through\<close>

lemma active_memberD: "active_member d u = Some m \<Longrightarrow> m \<in> set (db_members d) \<and> tm_uid m = u \<and> tm_status m = ''active''"
  unfolding active_member_def by (drule sql_row_SomeD) simp

lemma session_rowD:
  assumes "session_row sv cookie d = Some (s, m)"
  shows "s \<in> set (db_member_sessions d) \<and> ms_session_secret_hash s = SessionHash_of sv cookie \<and> ms_revoked_at s = None \<and>
    m \<in> set (db_members d) \<and> tm_uid m = ms_tenant_member_uid s \<and> tm_status m = ''active''"
proof -
  obtain q where q: "sql_row (\<lambda>s. ms_session_secret_hash s = SessionHash_of sv cookie \<and> ms_revoked_at s = None \<and>
      active_member d (ms_tenant_member_uid s) \<noteq> None) (db_member_sessions d) = Some q"
    "map_option (Pair q) (active_member d (ms_tenant_member_uid q)) = Some (s, m)"
    using assms unfolding session_row_def by (metis (no_types, lifting) option.case_eq_if option.collapse option.distinct(1))
  then have "q = s" "active_member d (ms_tenant_member_uid s) = Some m" by auto
  then show ?thesis using sql_row_SomeD [OF q(1)] active_memberD by auto
qed

definition csrf_ok :: "server \<Rightarrow> http_request \<Rightarrow> bool" where
  "csrf_ok sv r \<longleftrightarrow> hq_method r \<in> {''GET'', ''HEAD'', ''OPTIONS''} \<or> csrf_candidate sv r = ConsoleOrigin sv"

lemma csrf_alt:
  "csrf sv next r d = (if csrf_ok sv r then next r d else (fail r 403 ''csrf_rejected'' ''request origin is not allowed'', d))"
  by (auto simp: csrf_def csrf_ok_def)

text \<open>The session a request authenticates with, if it does.\<close>

definition live_session :: "server \<Rightarrow> call \<Rightarrow> http_request \<Rightarrow> db \<Rightarrow> (member_session_row \<times> member_row) option" where
  "live_session sv c r d =
     (if csrf_ok sv r \<and> \<not> ca_flt c ''load session''
      then (case Option.bind (hq_cookie r ''complicatedauth_session'') (\<lambda>k. session_row sv k d) of
              None \<Rightarrow> None
            | Some (s, m) \<Rightarrow> if ca_now c \<le> ms_expires_at s \<and> ca_now c \<le> ms_idle_expires_at s then Some (s, m) else None)
      else None)"

lemma consoleSession_alt:
  "consoleSession sv c next r d =
     (case live_session sv c r d of
        Some (s, m) \<Rightarrow> next (r\<lparr>hq_principal := Some (session_principal s m)\<rparr>) (touched c s d)
      | None \<Rightarrow> (if csrf_ok sv r then unauthenticated r
                 else fail r 403 ''csrf_rejected'' ''request origin is not allowed'', d))"
proof (cases "csrf_ok sv r")
  case True
  then show ?thesis
    by (cases "hq_cookie r ''complicatedauth_session''")
      (auto simp: consoleSession_def csrf_alt live_session_def not_le split: option.splits)
next
  case False
  then show ?thesis by (simp add: consoleSession_def csrf_alt live_session_def)
qed

text \<open>Being strongly authenticated with a role that has the permission.\<close>

definition admitted :: "server \<Rightarrow> call \<Rightarrow> string \<Rightarrow> http_request \<Rightarrow> db \<Rightarrow> member_session_row \<Rightarrow> member_row \<Rightarrow> bool" where
  "admitted sv c permission r d s m \<longleftrightarrow> live_session sv c r d = Some (s, m) \<and>
     ms_authentication_assurance s = ''strong'' \<and> roleAllows (tm_role m) permission"

lemma consoleAuthorized_alt:
  "consoleAuthorized sv c permission next r d =
     (case live_session sv c r d of
        Some (s, m) \<Rightarrow>
          if admitted sv c permission r d s m
          then next (r\<lparr>hq_principal := Some (session_principal s m)\<rparr>) (touched c s d)
          else (fail r 403 (if ms_authentication_assurance s \<noteq> ''strong'' then ''strong_authentication_required'' else ''forbidden'')
                  (if ms_authentication_assurance s \<noteq> ''strong'' then ''complete passkey setup before using the management API''
                   else ''the Tenant Member role does not permit this operation''), touched c s d)
      | None \<Rightarrow> (if csrf_ok sv r then unauthenticated r
                 else fail r 403 ''csrf_rejected'' ''request origin is not allowed'', d))"
proof (cases "live_session sv c r d")
  case None
  then show ?thesis by (simp add: consoleAuthorized_def consoleSession_alt)
next
  case (Some sm)
  obtain s m where sm: "sm = (s, m)" by fastforce
  show ?thesis
    by (simp add: consoleAuthorized_def consoleSession_alt Some sm mustPrincipal_def session_principal_def admitted_def
        fail_def problem_def)
qed

text \<open>C28 (console_guard_exact): a handler behind \<open>consoleAuthorized\<close> runs exactly when the request is free of
  cross-site forgery, its cookie hashes to an unrevoked session that has neither expired nor idled out,
  the session's member is active, the session is strongly authenticated and the member's role has the
  permission; it then runs as that member. Otherwise the answer is 401 or 403, the handler has no
  influence on it, and only the session's own activity columns may have changed.\<close>

theorem console_guard_exact:
  "(\<exists>s m. admitted sv c permission r d s m \<and>
      s \<in> set (db_member_sessions d) \<and> ms_revoked_at s = None \<and> ca_now c \<le> ms_expires_at s \<and> ca_now c \<le> ms_idle_expires_at s \<and>
      (\<exists>cookie. hq_cookie r ''complicatedauth_session'' = Some cookie \<and> ms_session_secret_hash s = SessionHash_of sv cookie) \<and>
      m \<in> set (db_members d) \<and> tm_uid m = ms_tenant_member_uid s \<and> tm_status m = ''active'' \<and>
      ms_authentication_assurance s = ''strong'' \<and> roleAllows (tm_role m) permission \<and>
      (hq_method r \<in> {''GET'', ''HEAD'', ''OPTIONS''} \<or> csrf_candidate sv r = ConsoleOrigin sv) \<and>
      consoleAuthorized sv c permission next r d =
        next (r\<lparr>hq_principal := Some (session_principal s m)\<rparr>) (touched c s d)) \<or>
   (\<nexists>s m. admitted sv c permission r d s m) \<and>
   hs_status (fst (consoleAuthorized sv c permission next r d)) \<in> {401, 403} \<and>
   consoleAuthorized sv c permission next r d = consoleAuthorized sv c permission next' r d \<and>
   (\<exists>s. snd (consoleAuthorized sv c permission next r d) \<in> {d, touched c s d})"
proof (cases "live_session sv c r d")
  case None
  then show ?thesis by (auto simp: consoleAuthorized_alt admitted_def unauthenticated_def)
next
  case (Some sm)
  obtain s m where sm: "sm = (s, m)" by fastforce
  then obtain cookie where "hq_cookie r ''complicatedauth_session'' = Some cookie" "session_row sv cookie d = Some (s, m)"
    and ok: "csrf_ok sv r" "ca_now c \<le> ms_expires_at s" "ca_now c \<le> ms_idle_expires_at s"
    using Some by (auto simp: live_session_def bind_eq_Some_conv split: if_splits option.splits)
  with session_rowD have facts: "\<exists>cookie. hq_cookie r ''complicatedauth_session'' = Some cookie \<and> ms_session_secret_hash s = SessionHash_of sv cookie"
    "s \<in> set (db_member_sessions d)" "ms_revoked_at s = None" "m \<in> set (db_members d)" "tm_uid m = ms_tenant_member_uid s"
    "tm_status m = ''active''" by blast+
  show ?thesis
  proof (cases "admitted sv c permission r d s m")
    case True
    then have "consoleAuthorized sv c permission next r d =
        next (r\<lparr>hq_principal := Some (session_principal s m)\<rparr>) (touched c s d)"
      by (simp add: consoleAuthorized_alt Some sm)
    with True facts ok show ?thesis unfolding admitted_def csrf_ok_def by blast
  next
    case False
    then have "\<nexists>s m. admitted sv c permission r d s m" by (auto simp: admitted_def Some sm)
    moreover have "hs_status (fst (consoleAuthorized sv c permission next r d)) \<in> {401, 403}"
      "consoleAuthorized sv c permission next r d = consoleAuthorized sv c permission next' r d"
      "snd (consoleAuthorized sv c permission next r d) = touched c s d"
      using False by (simp_all add: consoleAuthorized_alt Some sm)
    ultimately show ?thesis by blast
  qed
qed

lemma service_credential_rowD:
  assumes "service_credential_row now pfx d = Some (k, a, p)"
  shows "k \<in> set (db_service_credentials d) \<and> cr_prefix k = pfx \<and> cr_status k = ''active'' \<and> now < cr_expires_at k \<and>
    a \<in> set (db_service_accounts d) \<and> sa_uid a = cr_service_account_uid k \<and> sa_status a = ''active'' \<and> sa_deleted_at a = None \<and>
    p \<in> set (db_projects d) \<and> pj_uid p = sa_project_uid a \<and> pj_status p = ''active''"
proof -
  let ?account = "\<lambda>c. sql_row (\<lambda>a. sa_uid a = cr_service_account_uid c \<and> sa_status a = ''active'' \<and> sa_deleted_at a = None)
    (db_service_accounts d)"
  let ?project = "\<lambda>a. sql_row (\<lambda>p. pj_uid p = sa_project_uid a \<and> pj_status p = ''active'') (db_projects d)"
  let ?P = "\<lambda>c. cr_prefix c = pfx \<and> cr_status c = ''active'' \<and> now < cr_expires_at c \<and>
    (case ?account c of None \<Rightarrow> False | Some a \<Rightarrow> ?project a \<noteq> None)"
  have eq: "service_credential_row now pfx d =
      (case sql_row ?P (db_service_credentials d) of None \<Rightarrow> None
       | Some c \<Rightarrow> (case ?account c of None \<Rightarrow> None | Some a \<Rightarrow> map_option (\<lambda>p. (c, a, p)) (?project a)))"
    unfolding service_credential_row_def Let_def by (rule refl)
  obtain q where q: "sql_row ?P (db_service_credentials d) = Some q"
    using assms unfolding eq by (cases "sql_row ?P (db_service_credentials d)") auto
  obtain b where b: "?account q = Some b" using assms unfolding eq q by (cases "?account q") auto
  have res: "map_option (\<lambda>p. (q, b, p)) (?project b) = Some (k, a, p)" using assms unfolding eq q by (simp only: b option.case)
  then obtain x where proj: "?project b = Some x" by (cases "?project b") auto
  have ids: "q = k" "b = a" "x = p" using res unfolding proj by simp_all
  show ?thesis
    using sql_row_SomeD [OF q] sql_row_SomeD [OF b] sql_row_SomeD [OF proj] ids by simp
qed

text \<open>The credential a request presents, if it is valid for the scope.\<close>

definition presented :: "server \<Rightarrow> call \<Rightarrow> http_request \<Rightarrow> db \<Rightarrow> (service_credential_row \<times> service_account_row \<times> project_row) option" where
  "presented sv c r d =
     (case Cut (CHR '' '') (hq_header r ''Authorization'') of
        None \<Rightarrow> None
      | Some (scheme, value) \<Rightarrow>
          if \<not> is_bearer scheme \<or> ca_flt c ''load service credential'' then None
          else (case before_last (CHR ''.'') value of
            None \<Rightarrow> None
          | Some pfx \<Rightarrow>
              if pfx = [] then None
              else (case service_credential_row (ca_now c) pfx d of
                None \<Rightarrow> None
              | Some (k, a, p) \<Rightarrow>
                  if cr_secret_hash k = SecretHash_of sv value \<and>
                     (hq_path r ''project_uid'' = [] \<or> sa_project_uid a = hq_path r ''project_uid'')
                  then Some (k, a, p) else None)))"

lemma serviceCredential_cases:
  "(\<exists>k a p. presented sv c r d = Some (k, a, p) \<and>
     serviceCredential sv c scope next r d =
       (if scope \<in> set (effective_scopes k a)
        then next (r\<lparr>hq_service := Some \<lparr>serviceCredentialUID = cr_uid k, serviceAccountUID = sa_uid a,
               serviceTenantUID = pj_tenant_uid p, serviceProjectUID = sa_project_uid a\<rparr>\<rparr>) (use_credential c k d)
        else (with_header ''WWW-Authenticate'' (''Bearer error=\"insufficient_scope\", scope=\"'' @ scope @ ''\"'')
                (fail r 403 ''insufficient_scope'' ''service account does not grant the required scope''), d))) \<or>
   presented sv c r d = None \<and>
   (\<exists>challenge. serviceCredential sv c scope next r d = (invalid_service_credential r challenge, d) \<and>
     serviceCredential sv c scope next' r d = (invalid_service_credential r challenge, d))"
proof (cases "Cut (CHR '' '') (hq_header r ''Authorization'')")
  case None
  then show ?thesis by (auto simp: presented_def serviceCredential_def)
next
  case (Some sval)
  obtain scheme val where sval: "sval = (scheme, val)" by fastforce
  show ?thesis
  proof (cases "before_last (CHR ''.'') val")
    case None
    then show ?thesis by (auto simp: presented_def serviceCredential_def Some sval)
  next
    case pfx: (Some pfx)
    show ?thesis
    proof (cases "\<not> is_bearer scheme \<or> ca_flt c ''load service credential'' \<or> pfx = [] \<or> service_credential_row (ca_now c) pfx d = None")
      case True
      then show ?thesis by (auto simp: presented_def serviceCredential_def Some sval pfx)
    next
      case False
      then obtain k a p where "service_credential_row (ca_now c) pfx d = Some (k, a, p)" by auto
      then show ?thesis using False by (auto simp: presented_def serviceCredential_def Some sval pfx)
    qed
  qed
qed

text \<open>C29 (service_guard_exact): a handler behind \<open>serviceCredential\<close> runs exactly when the bearer secret's hash is that
  of an active, unexpired credential of an active account in an active project -- the project of the
  path, when the route names one -- whose effective scopes contain the required one; it runs for that
  credential's project and tenant. Otherwise the answer is 401 or 403 and nothing changes.\<close>

theorem service_guard_exact:
  "(\<exists>k a p. presented sv c r d = Some (k, a, p) \<and>
     k \<in> set (db_service_credentials d) \<and> a \<in> set (db_service_accounts d) \<and> p \<in> set (db_projects d) \<and>
     cr_status k = ''active'' \<and> ca_now c < cr_expires_at k \<and> sa_uid a = cr_service_account_uid k \<and>
     sa_status a = ''active'' \<and> sa_deleted_at a = None \<and> pj_uid p = sa_project_uid a \<and> pj_status p = ''active'' \<and>
     (\<exists>secret. cr_secret_hash k = SecretHash_of sv secret \<and>
        (\<exists>scheme. is_bearer scheme \<and> hq_header r ''Authorization'' = scheme @ '' '' @ secret)) \<and>
     (hq_path r ''project_uid'' = [] \<or> pj_uid p = hq_path r ''project_uid'') \<and> scope \<in> set (effective_scopes k a) \<and>
     serviceCredential sv c scope next r d =
       next (r\<lparr>hq_service := Some \<lparr>serviceCredentialUID = cr_uid k, serviceAccountUID = sa_uid a,
               serviceTenantUID = pj_tenant_uid p, serviceProjectUID = pj_uid p\<rparr>\<rparr>) (use_credential c k d)) \<or>
   (\<nexists>k a p. presented sv c r d = Some (k, a, p) \<and> scope \<in> set (effective_scopes k a)) \<and>
   hs_status (fst (serviceCredential sv c scope next r d)) \<in> {401, 403} \<and>
   serviceCredential sv c scope next r d = serviceCredential sv c scope next' r d \<and>
   snd (serviceCredential sv c scope next r d) = d"
proof (cases "presented sv c r d")
  case None
  then obtain challenge where "serviceCredential sv c scope next r d = (invalid_service_credential r challenge, d)"
    "serviceCredential sv c scope next' r d = (invalid_service_credential r challenge, d)"
    using serviceCredential_cases [of sv c r d scope "next" "next'"] by auto
  then show ?thesis by (simp add: invalid_service_credential_def None)
next
  case (Some kap)
  obtain k a p where kap: "kap = (k, a, p)" by (metis prod_cases3)
  have run: "serviceCredential sv c scope f r d =
       (if scope \<in> set (effective_scopes k a)
        then f (r\<lparr>hq_service := Some \<lparr>serviceCredentialUID = cr_uid k, serviceAccountUID = sa_uid a,
               serviceTenantUID = pj_tenant_uid p, serviceProjectUID = sa_project_uid a\<rparr>\<rparr>) (use_credential c k d)
        else (with_header ''WWW-Authenticate'' (''Bearer error=\"insufficient_scope\", scope=\"'' @ scope @ ''\"'')
                (fail r 403 ''insufficient_scope'' ''service account does not grant the required scope''), d))" for f
    using serviceCredential_cases [of sv c r d scope f f] by (auto simp: Some kap)
  from Some obtain scheme val pfx where
    h: "Cut (CHR '' '') (hq_header r ''Authorization'') = Some (scheme, val)" "is_bearer scheme"
    and row: "service_credential_row (ca_now c) pfx d = Some (k, a, p)"
    and ok: "cr_secret_hash k = SecretHash_of sv val" "hq_path r ''project_uid'' = [] \<or> sa_project_uid a = hq_path r ''project_uid''"
    unfolding presented_def kap by (auto split: option.splits prod.splits if_splits)
  note facts = service_credential_rowD [OF row]
  have auth: "hq_header r ''Authorization'' = scheme @ '' '' @ val" using Cut_SomeD [OF h(1)] by simp
  show ?thesis
  proof (cases "scope \<in> set (effective_scopes k a)")
    case True
    have "serviceCredential sv c scope next r d =
        next (r\<lparr>hq_service := Some \<lparr>serviceCredentialUID = cr_uid k, serviceAccountUID = sa_uid a,
               serviceTenantUID = pj_tenant_uid p, serviceProjectUID = pj_uid p\<rparr>\<rparr>) (use_credential c k d)"
      using run [of "next"] True facts by simp
    then show ?thesis using facts ok h(2) auth True Some kap by metis
  next
    case False
    then show ?thesis using run by (simp add: Some kap)
  qed
qed

section \<open>Roles and routes\<close>

text \<open>Lemma (role_permissions): owners and administrators have the same permissions, every role may read, every
  other role's permissions are among the administrator's, only owners and administrators manage the
  tenant, only they and support staff manage support cases, and an unknown role has no permission.\<close>

theorem role_permissions:
  "roleAllows ''admin'' p = roleAllows ''owner'' p \<and>
   (roleAllows role p \<longrightarrow> roleAllows role permissionRead \<and> roleAllows ''owner'' p) \<and>
   (roleAllows role permissionManageTenant \<longleftrightarrow> role \<in> {''owner'', ''admin''}) \<and>
   (roleAllows role permissionManageSupport \<longleftrightarrow> role \<in> {''owner'', ''admin'', ''support''}) \<and>
   (roleAllows ''viewer'' p \<longleftrightarrow> p = permissionRead) \<and>
   (role \<notin> {''owner'', ''admin'', ''developer'', ''support'', ''viewer''} \<longrightarrow> \<not> roleAllows role p)"
  by (auto simp: roleAllows_def permissionsByRole_def permission_defs split: if_splits)

theorem role_permissions_witness:
  "roleAllows ''support'' permissionManageSupport \<and> roleAllows ''support'' permissionRead"
  using role_permissions [of permissionManageSupport "''support''"] by simp

definition public_handlers :: "string list" where
  "public_handlers =
     [''live'', ''ready'', ''oidcDiscovery'', ''oauthJWKS'', ''oauthAuthorize'', ''oauthToken'', ''oauthUserInfo'', ''oauthRevoke'',
      ''signup'', ''createTenantMemberLoginAttempt'', ''verifyTenantMemberLoginPassword'', ''beginTenantMemberWebAuthnLogin'',
      ''finishTenantMemberWebAuthnLogin'', ''beginInitialTenantMemberWebAuthnEnrollment'',
      ''finishInitialTenantMemberWebAuthnEnrollment'', ''createTenantEmailVerificationRequest'', ''verifyTenantEmail'',
      ''createTenantPasswordResetRequest'', ''resetTenantMemberPassword'', ''acceptTenantInvitation'']"

fun public_guard :: "guard \<Rightarrow> bool" where
  "public_guard Unguarded = True"
| "public_guard Csrf = True"
| "public_guard _ = False"

lemma public_routes:
  "map (\<lambda>(_, _, _, h). h) (filter (\<lambda>(_, _, g, _). public_guard g) routes) = public_handlers"
  by code_simp

lemma anonymous_rejected:
  assumes "\<not> public_guard g" and "hq_cookie r ''complicatedauth_session'' = None" and "hq_header r ''Authorization'' = []"
  shows "hs_status (fst (guarded sv c g next r d)) \<in> {401, 403} \<and> snd (guarded sv c g next r d) = d"
proof -
  have none: "live_session sv c r d = None" using assms(2) by (simp add: live_session_def)
  show ?thesis
    using assms none
    by (cases g) (auto simp: consoleSession_alt consoleAuthorized_alt serviceCredential_def consoleOrServiceCredential_def
        oauthResourceAuthorized_def unauthenticated_def invalid_service_credential_def writeInvalidBearer_def
        writeOAuthError_def TrimPrefix_def)
qed

text \<open>Lemma (routes_are_closed): the route table has exactly twenty handlers that can be reached without credentials
  (health, the OAuth protocol endpoints, and the sign-up, sign-in, recovery and invitation flows, all of
  the latter behind the forgery check when they change state); on every other route a request with
  neither session cookie nor authorization header is answered 401 or 403 and changes nothing.\<close>

theorem routes_are_closed:
  "map (\<lambda>(_, _, _, h). h) (filter (\<lambda>(_, _, g, _). public_guard g) routes) = public_handlers \<and>
   (\<forall>(m, path, g, h) \<in> set routes. h \<notin> set public_handlers \<longrightarrow>
      hq_cookie r ''complicatedauth_session'' = None \<longrightarrow> hq_header r ''Authorization'' = [] \<longrightarrow>
      hs_status (fst (guarded sv c g next r d)) \<in> {401, 403} \<and> snd (guarded sv c g next r d) = d)"
proof (intro conjI public_routes ballI, clarify)
  fix m path g h
  assume "(m, path, g, h) \<in> set routes" and "h \<notin> set public_handlers"
    and anon: "hq_cookie r ''complicatedauth_session'' = None" "hq_header r ''Authorization'' = []"
  then have "h \<notin> set (map (\<lambda>(_, _, _, h). h) (filter (\<lambda>(_, _, g, _). public_guard g) routes))"
    by (simp only: public_routes not_False_eq_True)
  with \<open>(m, path, g, h) \<in> set routes\<close> have "\<not> public_guard g" by force
  from anonymous_rejected [OF this anon]
  show "hs_status (fst (guarded sv c g next r d)) \<in> {401, 403} \<and> snd (guarded sv c g next r d) = d" .
qed

theorem routes_are_closed_witness:
  "(''POST'', ''/v1/projects'', ConsoleAuthorized permissionManageProjects, ''createProject'') \<in> set routes \<and>
   hs_status (fst (guarded demo_server demo_call (ConsoleAuthorized permissionManageProjects)
     (\<lambda>r d. (no_content 204, d)) demo_request empty_db)) \<in> {401, 403}"
proof -
  have mem: "(''POST'', ''/v1/projects'', ConsoleAuthorized permissionManageProjects, ''createProject'') \<in> set routes"
    unfolding routes_def by (simp only: list.set insert_iff simp_thms)
  have "\<forall>(m, path, g, h) \<in> set routes. h \<notin> set public_handlers \<longrightarrow>
      hq_cookie demo_request ''complicatedauth_session'' = None \<longrightarrow> hq_header demo_request ''Authorization'' = [] \<longrightarrow>
      hs_status (fst (guarded demo_server demo_call g (\<lambda>r d. (no_content 204, d)) demo_request empty_db)) \<in> {401, 403} \<and>
      snd (guarded demo_server demo_call g (\<lambda>r d. (no_content 204, d)) demo_request empty_db) = empty_db"
    using routes_are_closed [of demo_request demo_server demo_call "\<lambda>r d. (no_content 204, d)" empty_db] by blast
  from bspec [OF this mem] show ?thesis
    using mem by (simp add: demo_request_def public_handlers_def)
qed

end
