(* ===== verification/OAuth_Scopes.thy ===== *)
theory OAuth_Scopes
  imports Console_Guards
begin

text \<open>
  Scopes of the OAuth server: the normalisation of the requested scope string, its resolution against
  the application's grants (\<open>internal/api/oauth_authorization.go\<close>), the canonical form of a resource
  server's identifier (\<open>internal/api/authorization_resources.go\<close>, \<open>internal/api/config.go\<close>) and the
  authorization decisions a resource server asks for (\<open>internal/api/authorization_decisions.go\<close>).
\<close>

section \<open>Requested scopes\<close>

definition oidcScopes :: "string \<Rightarrow> bool" where
  "oidcScopes name \<longleftrightarrow> name = ''openid'' \<or> name = ''profile'' \<or> name = ''email''"

text \<open>\<^verbatim>\<open>^[a-z][a-z0-9._:-]{0,119}$\<close>\<close>

definition delegatedScopePattern :: "string \<Rightarrow> bool" where
  "delegatedScopePattern s =
     head_tail_match is_lower_c (\<lambda>ch. is_lower_c ch \<or> is_digit_c ch \<or> ch \<in> set ''._:-'') 119 s"

datatype scope_error =
    ScopeMissingOpenid
  | ScopeDuplicated string
  | ScopeUnsupported string
  | ResourceRequired
  | ResourceNotExact
  | DelegatedScopeRequired
  | ResourceNotGranted
  | ScopesNotValidated
  | ScopeNotGranted string

definition scope_error_text :: "server \<Rightarrow> scope_error \<Rightarrow> string" where
  "scope_error_text sv e =
     (case e of
        ScopeMissingOpenid \<Rightarrow> ''scope must include openid''
      | ScopeDuplicated v \<Rightarrow> ''scope '' @ go_Quote sv v @ '' is duplicated''
      | ScopeUnsupported v \<Rightarrow> ''scope '' @ go_Quote sv v @ '' is not supported''
      | ResourceRequired \<Rightarrow> ''resource is required for delegated scopes''
      | ResourceNotExact \<Rightarrow> ''resource must be an exact registered Resource Server identifier''
      | DelegatedScopeRequired \<Rightarrow> ''at least one delegated scope is required when resource is supplied''
      | ResourceNotGranted \<Rightarrow> ''resource is not granted to this OAuth Application''
      | ScopesNotValidated \<Rightarrow> ''delegated scopes could not be validated''
      | ScopeNotGranted v \<Rightarrow> ''scope '' @ go_Quote sv v @ '' is not granted to this OAuth Application'')"

text \<open>The loop over the requested names: those seen and the delegated ones, both in the order of the request.\<close>

fun scope_loop :: "string list \<Rightarrow> string list \<Rightarrow> string list \<Rightarrow> scope_error + string list \<times> string list" where
  "scope_loop seen custom [] = Inr (seen, custom)"
| "scope_loop seen custom (v # vs) =
     (if v \<in> set seen then Inl (ScopeDuplicated v)
      else if \<not> oidcScopes v then
        if \<not> delegatedScopePattern v \<or> v = ''offline_access'' then Inl (ScopeUnsupported v)
        else scope_loop (seen @ [v]) (custom @ [v]) vs
      else scope_loop (seen @ [v]) custom vs)"

definition normalizeRequestedScopes :: "string \<Rightarrow> scope_error + string list \<times> string list" where
  "normalizeRequestedScopes raw =
     (let values = Fields raw in
      if values = [] then Inl ScopeMissingOpenid
      else (case scope_loop [] [] values of
              Inl e \<Rightarrow> Inl e
            | Inr (seen, custom) \<Rightarrow>
                if ''openid'' \<notin> set seen then Inl ScopeMissingOpenid
                else Inr (sort values, sort custom)))"

definition scopeContains :: "string list \<Rightarrow> string \<Rightarrow> bool" where
  "scopeContains scopes wanted = list_ex (\<lambda>scope. scope = wanted) scopes"

lemma scopeContains_iff [simp]: "scopeContains scopes wanted \<longleftrightarrow> wanted \<in> set scopes"
  by (auto simp: scopeContains_def list_ex_iff)

section \<open>Resource identifiers\<close>

definition TrimSuffix_c :: "char \<Rightarrow> string \<Rightarrow> string" where
  "TrimSuffix_c ch s = (if s \<noteq> [] \<and> last s = ch then butlast s else s)"

definition isLocalDevelopmentHostname :: "server \<Rightarrow> string \<Rightarrow> bool" where
  "isLocalDevelopmentHostname sv hostname =
     (let h = ToLower (lower_unicode sv) (TrimSuffix_c (CHR ''.'') hostname) in
      if h = ''localhost'' \<or> suffix ''.localhost'' h then True
      else (case parse_ip sv h of None \<Rightarrow> False | Some ip \<Rightarrow> is_loopback sv ip))"

definition normalizeResourceIdentifier :: "server \<Rightarrow> string \<Rightarrow> string + string" where
  "normalizeResourceIdentifier sv value =
     (let invalid = Inl ''identifier must be an absolute URI without credentials, query, or fragment'' in
      case url_Parse sv (TrimSpace value) of
        None \<Rightarrow> invalid
      | Some parsed \<Rightarrow>
          if up_Scheme parsed = [] \<or> up_Host parsed = [] \<or> up_has_User parsed \<or> up_Fragment parsed \<noteq> [] \<or>
             up_RawQuery parsed \<noteq> [] then invalid
          else if up_Scheme parsed \<noteq> ''https'' \<and>
             \<not> (up_Scheme parsed = ''http'' \<and> isLocalDevelopmentHostname sv (up_Hostname parsed)) then
            Inl ''identifier must use HTTPS except for localhost or literal-IP development''
          else if length (up_String parsed) > 2048 then Inl ''identifier must not exceed 2048 characters''
          else Inr (up_String parsed))"

section \<open>Resolution against the grants\<close>

definition granted_resource :: "db \<Rightarrow> uid \<Rightarrow> uid \<Rightarrow> string \<Rightarrow> resource_server_row option" where
  "granted_resource d tenantUID applicationUID canonical =
     sql_row (\<lambda>v. rv_tenant_uid v = tenantUID \<and> rv_identifier v = canonical \<and> rv_status v = ''active'' \<and>
                  rv_deleted_at v = None \<and> active_grant d applicationUID (rv_uid v) \<noteq> None)
       (db_resource_servers d)"

text \<open>The scopes assigned to the active grants of an application for a resource server.\<close>

definition assigned_scope :: "db \<Rightarrow> uid \<Rightarrow> uid \<Rightarrow> scope_row \<Rightarrow> bool" where
  "assigned_scope d applicationUID resourceUID s =
     list_ex (\<lambda>gs. gs_scope_uid gs = sp_uid s \<and>
        list_ex (\<lambda>g. gr_uid g = gs_grant_uid gs \<and> gr_application_uid g = applicationUID \<and>
           gr_resource_server_uid g = resourceUID \<and> gr_status g = ''active'' \<and> gr_deleted_at g = None) (db_grants d))
       (db_grant_scopes d)"

definition granted_names :: "db \<Rightarrow> uid \<Rightarrow> uid \<Rightarrow> string list \<Rightarrow> string list" where
  "granted_names d applicationUID resourceUID custom =
     map sp_name (filter (\<lambda>s. sp_status s = ''active'' \<and> sp_deleted_at s = None \<and> sp_name s \<in> set custom \<and>
                              assigned_scope d applicationUID resourceUID s) (db_scopes d))"

definition resolveAuthorizationScopes ::
  "server \<Rightarrow> call \<Rightarrow> uid \<Rightarrow> uid \<Rightarrow> string \<Rightarrow> string \<Rightarrow> db \<Rightarrow> scope_error + string list \<times> resource_server_row option" where
  "resolveAuthorizationScopes sv c tenantUID applicationUID raw resourceIndicator d =
     (case normalizeRequestedScopes raw of
        Inl e \<Rightarrow> Inl e
      | Inr (values, custom) \<Rightarrow>
          if resourceIndicator = [] then
            if custom \<noteq> [] then Inl ResourceRequired else Inr (values, None)
          else (case normalizeResourceIdentifier sv resourceIndicator of
            Inl _ \<Rightarrow> Inl ResourceNotExact
          | Inr canonical \<Rightarrow>
              if custom = [] then Inl DelegatedScopeRequired
              else if ca_flt c ''load resource grant'' then Inl ResourceNotGranted
              else (case granted_resource d tenantUID applicationUID canonical of
                None \<Rightarrow> Inl ResourceNotGranted
              | Some resource \<Rightarrow>
                  if ca_flt c ''load delegated scopes'' then Inl ScopesNotValidated
                  else (case find (\<lambda>name. name \<notin> set (granted_names d applicationUID (rv_uid resource) custom)) custom of
                    Some name \<Rightarrow> Inl (ScopeNotGranted name)
                  | None \<Rightarrow> Inr (values, Some resource)))))"

definition resourceServerUID :: "resource_server_row option \<Rightarrow> uid option" where
  "resourceServerUID value = map_option rv_uid value"

section \<open>Authorization decisions\<close>

definition mustOAuthResourcePrincipal :: "http_request \<Rightarrow> oauthResourcePrincipal" where
  "mustOAuthResourcePrincipal r = the (hq_resource_principal r)"

definition currentOAuthCapabilities :: "call \<Rightarrow> oauthResourcePrincipal \<Rightarrow> db \<Rightarrow> string list option" where
  "currentOAuthCapabilities c p d =
     (if ca_flt c ''load capabilities'' then None
      else Some (sort (map sp_name (filter (\<lambda>s.
        sp_resource_server_uid s = op_ResourceServerUID p \<and> sp_status s = ''active'' \<and> sp_deleted_at s = None \<and>
        sp_name s \<in> set (op_Scopes p) \<and> active_resource_server d (sp_resource_server_uid s) \<noteq> None \<and>
        assigned_scope d (op_ApplicationUID p) (op_ResourceServerUID p) s \<and>
        active_application d (op_ApplicationUID p) \<noteq> None \<and> active_member d (op_MemberUID p) \<noteq> None) (db_scopes d)))))"

record decision_input =
  di_ResourceType :: string
  di_ResourceID :: string
  di_Operation :: string
  di_Context :: json

definition operation_exists :: "db \<Rightarrow> uid \<Rightarrow> string \<Rightarrow> bool" where
  "operation_exists d resourceUID operation =
     list_ex (\<lambda>s. sp_resource_server_uid s = resourceUID \<and> sp_name s = operation \<and> sp_status s = ''active'' \<and>
                  sp_deleted_at s = None) (db_scopes d)"

record AuthorizationDecision =
  ad_Allowed :: bool
  ad_Subject :: string
  ad_TenantUID :: uid
  ad_ResourceServerUID :: uid
  ad_ResourceServerIdentifier :: string
  ad_ResourceType :: string
  ad_ResourceID :: string
  ad_Operation :: string
  ad_Capabilities :: "string list"
  ad_PolicyVersion :: string
  ad_ValidUntil :: time
  ad_DenialReason :: "string option"

definition decision_json :: "AuthorizationDecision \<Rightarrow> json" where
  "decision_json a = JObj ([
     (''allowed'', JBool (ad_Allowed a)),
     (''principal'', JObj [(''type'', JStr ''tenant_member''), (''subject'', JStr (ad_Subject a))]),
     (''tenant_uid'', JStr (ad_TenantUID a)), (''resource_server_uid'', JStr (ad_ResourceServerUID a)),
     (''resource_server_identifier'', JStr (ad_ResourceServerIdentifier a)),
     (''resource'', JObj [(''type'', JStr (ad_ResourceType a)), (''id'', JStr (ad_ResourceID a))]),
     (''operation'', JStr (ad_Operation a)), (''capabilities'', JArr (map JStr (ad_Capabilities a))),
     (''policy_version'', JStr (ad_PolicyVersion a)), (''valid_until'', JNum (ad_ValidUntil a)),
     (''denial_reason'', case ad_DenialReason a of None \<Rightarrow> JNull | Some reason \<Rightarrow> JStr reason)])"

definition int_text :: "int \<Rightarrow> string" where
  "int_text n = (if n < 0 then CHR ''-'' # decimal (nat (- n)) else decimal (nat n))"

definition createAuthorizationDecision :: "server \<Rightarrow> call \<Rightarrow> decision_input option \<Rightarrow> handler" where
  "createAuthorizationDecision sv c body r d =
     (case body of
        None \<Rightarrow> (invalid_json r, d)
      | Some input \<Rightarrow>
          let resourceType = TrimSpace (di_ResourceType input);
              resourceID = TrimSpace (di_ResourceID input);
              operation = TrimSpace (di_Operation input) in
          if resourceType = [] \<or> length resourceType > 120 \<or> resourceID = [] \<or> length resourceID > 500 \<or>
             \<not> delegatedScopePattern operation then
            (fail r 422 ''validation_failed'' ''resource.type, resource.id, and a valid lowercase operation are required'', d)
          else if length (json_text sv (di_Context input)) > 8192 then
            (fail r 422 ''validation_failed'' ''context must be a JSON object no larger than 8 KiB'', d)
          else let p = mustOAuthResourcePrincipal r in
            (case currentOAuthCapabilities c p d of
               None \<Rightarrow> (fail r 503 ''authorization_unavailable'' ''authorization decision is temporarily unavailable'', d)
             | Some capabilities \<Rightarrow>
                 if ca_flt c ''load operation'' then
                   (fail r 503 ''authorization_unavailable'' ''authorization decision is temporarily unavailable'', d)
                 else let operationExists = operation_exists d (op_ResourceServerUID p) operation;
                          allowed = (operationExists \<and> scopeContains capabilities operation) in
                   (with_header ''Cache-Control'' ''private, no-store'' (writeJSON 200 (decision_json
                      \<lparr>ad_Allowed = allowed, ad_Subject = op_Subject p, ad_TenantUID = op_TenantUID p,
                       ad_ResourceServerUID = op_ResourceServerUID p,
                       ad_ResourceServerIdentifier = op_ResourceServerIdentifier p,
                       ad_ResourceType = resourceType, ad_ResourceID = resourceID, ad_Operation = operation,
                       ad_Capabilities = capabilities, ad_PolicyVersion = ''scope-v1:'' @ int_text (op_PolicyVersion p),
                       ad_ValidUntil = op_ExpiresAt p,
                       ad_DenialReason = (if allowed then None
                         else Some (if operationExists then ''missing_capability'' else ''unknown_operation''))\<rparr>)), d)))"


section \<open>What normalisation guarantees\<close>

definition scope_ok :: "string \<Rightarrow> bool" where
  "scope_ok v \<longleftrightarrow> oidcScopes v \<or> delegatedScopePattern v \<and> v \<noteq> ''offline_access''"

lemma scope_loop_iff:
  "scope_loop seen custom vs = Inr (seen', custom') \<longleftrightarrow>
     distinct vs \<and> set vs \<inter> set seen = {} \<and> list_all scope_ok vs \<and> seen' = seen @ vs \<and>
     custom' = custom @ filter (\<lambda>v. \<not> oidcScopes v) vs"
  by (induction vs arbitrary: seen custom) (auto simp: scope_ok_def)

lemma scope_loop_Inl:
  "distinct vs \<Longrightarrow> set vs \<inter> set seen = {} \<Longrightarrow> list_all scope_ok vs \<Longrightarrow> scope_loop seen custom vs \<noteq> Inl e"
  using scope_loop_iff [of seen custom vs "seen @ vs" "custom @ filter (\<lambda>v. \<not> oidcScopes v) vs"] by simp

lemma normalize_iff:
  "normalizeRequestedScopes raw = Inr (values, custom) \<longleftrightarrow>
     distinct (Fields raw) \<and> ''openid'' \<in> set (Fields raw) \<and> list_all scope_ok (Fields raw) \<and>
     values = sort (Fields raw) \<and> custom = filter (\<lambda>v. \<not> oidcScopes v) values"
proof (cases "scope_loop [] [] (Fields raw)")
  case (Inl e)
  then have "\<not> (distinct (Fields raw) \<and> list_all scope_ok (Fields raw))" using scope_loop_Inl [of "Fields raw" "[]" "[]" e] by auto
  with Inl show ?thesis by (auto simp: normalizeRequestedScopes_def Let_def)
next
  case (Inr sc)
  obtain seen cust where sc: "sc = (seen, cust)" by fastforce
  with Inr have "scope_loop [] [] (Fields raw) = Inr (seen, cust)" by simp
  note loop = this [unfolded scope_loop_iff]
  with Inr sc show ?thesis
    by (auto simp: normalizeRequestedScopes_def Let_def filter_sort)
qed

lemma lower_visible: "is_lower_c ch \<Longrightarrow> visible_c ch"
  and digit_visible: "is_digit_c ch \<Longrightarrow> visible_c ch"
  by (auto simp: is_lower_c_def is_digit_c_def visible_c_def less_eq_char_def)

lemma scope_ok_visible: "scope_ok v \<Longrightarrow> v \<noteq> [] \<and> list_all visible_c v"
proof -
  assume "scope_ok v"
  then consider "oidcScopes v" | "delegatedScopePattern v" by (auto simp: scope_ok_def)
  then show ?thesis
  proof cases
    case 1
    then show ?thesis by (auto simp: oidcScopes_def visible_c_def)
  next
    case 2
    have "visible_c ch" if "ch \<in> set ''._:-''" for ch using that by (auto simp: visible_c_def)
    moreover from 2 obtain first rest where v: "v = first # rest" "is_lower_c first"
        "list_all (\<lambda>ch. is_lower_c ch \<or> is_digit_c ch \<or> ch \<in> set ''._:-'') rest"
      unfolding delegatedScopePattern_def head_tail_match_def by (auto split: list.splits)
    ultimately have "list_all visible_c rest" unfolding list_all_iff by (blast intro: lower_visible digit_visible)
    with v lower_visible show ?thesis by simp
  qed
qed

text \<open>Scopes that came out of normalisation go through it unchanged: the approval and the token exchange
  resolve the stored scopes again and see the same names.\<close>

lemma normalize_stable:
  assumes "normalizeRequestedScopes raw = Inr (values, custom)"
  shows "normalizeRequestedScopes (Join '' '' values) = Inr (values, custom)"
proof -
  from assms have ok: "distinct values" "''openid'' \<in> set values" "list_all scope_ok values" "sorted values"
      "custom = filter (\<lambda>v. \<not> oidcScopes v) values"
    by (auto simp: normalize_iff list_all_iff)
  then have "Fields (Join '' '' values) = values"
    using scope_ok_visible by (intro Fields_Join) (auto simp: list_all_iff)
  with ok show ?thesis by (simp add: normalize_iff sorted_sort_id)
qed

text \<open>Lemma (normalize_scopes_exact): a scope string is accepted exactly when its words are pairwise different, include openid, and
  each is an OpenID scope or a well-formed delegated scope other than offline_access. The result is the
  words in ascending order together with exactly the delegated ones among them, and normalising the
  stored words again, joined by blanks, gives the same result.\<close>

theorem normalize_scopes_exact:
  "case normalizeRequestedScopes raw of
     Inr (values, custom) \<Rightarrow>
       distinct (Fields raw) \<and> ''openid'' \<in> set (Fields raw) \<and> list_all scope_ok (Fields raw) \<and>
       values = sort (Fields raw) \<and> custom = filter (\<lambda>v. \<not> oidcScopes v) values \<and>
       normalizeRequestedScopes (Join '' '' values) = Inr (values, custom)
   | Inl e \<Rightarrow> \<not> (distinct (Fields raw) \<and> ''openid'' \<in> set (Fields raw) \<and> list_all scope_ok (Fields raw))"
proof (cases "normalizeRequestedScopes raw")
  case (Inl e)
  then have "normalizeRequestedScopes raw \<noteq> Inr (vs, cs)" for vs cs by simp
  with Inl show ?thesis unfolding normalize_iff by auto
next
  case (Inr vc)
  obtain vs cs where vc: "vc = (vs, cs)" by fastforce
  with Inr have n: "normalizeRequestedScopes raw = Inr (vs, cs)" by simp
  show ?thesis unfolding n using n [unfolded normalize_iff] normalize_stable [OF n] by simp
qed

lemma resolve_resourceD:
  assumes "resolveAuthorizationScopes sv c t app raw ri d = Inr (values, Some v)"
  obtains custom canonical where
    "normalizeRequestedScopes raw = Inr (values, custom)" "custom \<noteq> []"
    "normalizeResourceIdentifier sv ri = Inr canonical" "granted_resource d t app canonical = Some v"
    "set custom \<subseteq> set (granted_names d app (rv_uid v) custom)"
  using assms
  by (auto simp: resolveAuthorizationScopes_def find_None_iff subset_iff split: sum.splits option.splits if_splits)

lemma granted_namesD:
  assumes "name \<in> set (granted_names d app rsrc custom)"
  obtains s gs g where "s \<in> set (db_scopes d)" "sp_name s = name" "sp_status s = ''active''" "sp_deleted_at s = None"
    "gs \<in> set (db_grant_scopes d)" "gs_scope_uid gs = sp_uid s"
    "g \<in> set (db_grants d)" "gr_uid g = gs_grant_uid gs" "gr_application_uid g = app" "gr_resource_server_uid g = rsrc"
    "gr_status g = ''active''" "gr_deleted_at g = None"
  using assms by (auto simp: granted_names_def assigned_scope_def list_ex_iff)


section \<open>What a decision says\<close>

definition decision_input_ok :: "server \<Rightarrow> decision_input \<Rightarrow> bool" where
  "decision_input_ok sv input \<longleftrightarrow>
     1 \<le> length (TrimSpace (di_ResourceType input)) \<and> length (TrimSpace (di_ResourceType input)) \<le> 120 \<and>
     1 \<le> length (TrimSpace (di_ResourceID input)) \<and> length (TrimSpace (di_ResourceID input)) \<le> 500 \<and>
     delegatedScopePattern (TrimSpace (di_Operation input)) \<and> length (json_text sv (di_Context input)) \<le> 8192"

text \<open>The scope rows that entitle a live token to an operation.\<close>

definition entitles :: "db \<Rightarrow> oauthResourcePrincipal \<Rightarrow> string \<Rightarrow> scope_row \<Rightarrow> bool" where
  "entitles d p operation s \<longleftrightarrow>
     s \<in> set (db_scopes d) \<and> sp_name s = operation \<and> sp_resource_server_uid s = op_ResourceServerUID p \<and>
     sp_status s = ''active'' \<and> sp_deleted_at s = None \<and> operation \<in> set (op_Scopes p) \<and>
     (\<exists>gs \<in> set (db_grant_scopes d). gs_scope_uid gs = sp_uid s \<and>
       (\<exists>g \<in> set (db_grants d). gr_uid g = gs_grant_uid gs \<and> gr_application_uid g = op_ApplicationUID p \<and>
          gr_resource_server_uid g = op_ResourceServerUID p \<and> gr_status g = ''active'' \<and> gr_deleted_at g = None))"

lemma resource_tokenD:
  assumes "resource_token sv now value d = Some p"
  obtains t where "t \<in> set (db_access_tokens d)" "tk_token_hash t = SessionHash_of sv value" "tk_revoked_at t = None"
    "now < tk_expires_at t" "active_member d (op_MemberUID p) \<noteq> None" "active_application d (op_ApplicationUID p) \<noteq> None"
    "active_resource_server d (op_ResourceServerUID p) \<noteq> None" "op_Scopes p = tk_scopes t" "op_Subject p = tk_subject t"
    "op_TenantUID p = tk_tenant_uid t" "op_ExpiresAt p = tk_expires_at t"
proof -
  from assms obtain t u v where row: "sql_row (\<lambda>t. tk_token_hash t = SessionHash_of sv value \<and> tk_revoked_at t = None \<and> tk_expires_at t > now \<and>
                        active_member d (tk_tenant_member_uid t) \<noteq> None \<and>
                        active_application d (tk_application_uid t) \<noteq> None \<and>
                        (case tk_resource_server_uid t of None \<Rightarrow> False
                         | Some u \<Rightarrow> active_resource_server d u \<noteq> None \<and> active_grant d (tk_application_uid t) u \<noteq> None))
            (db_access_tokens d) = Some t"
    and u: "tk_resource_server_uid t = Some u" "active_resource_server d u = Some v" "p = resource_principal t v"
    unfolding resource_token_def by (auto split: option.splits simp: bind_eq_Some_conv)
  have "rv_uid v = u" using u(2) sql_row_SomeD unfolding active_resource_server_def by fast
  with sql_row_SomeD [OF row] u show ?thesis
    by (intro that [of t]) (simp_all add: resource_principal_def)
qed

lemma capabilities_entitle:
  assumes "resource_token sv now value d = Some p" and "currentOAuthCapabilities c p d = Some capabilities"
  shows "operation \<in> set capabilities \<longleftrightarrow> (\<exists>s. entitles d p operation s)"
proof -
  from assms(1) obtain t where "active_member d (op_MemberUID p) \<noteq> None"
    "active_application d (op_ApplicationUID p) \<noteq> None" "active_resource_server d (op_ResourceServerUID p) \<noteq> None"
    by (rule resource_tokenD)
  then have iff: "s \<in> set (db_scopes d) \<and> sp_resource_server_uid s = op_ResourceServerUID p \<and> sp_status s = ''active'' \<and>
        sp_deleted_at s = None \<and> sp_name s \<in> set (op_Scopes p) \<and>
        active_resource_server d (sp_resource_server_uid s) \<noteq> None \<and>
        assigned_scope d (op_ApplicationUID p) (op_ResourceServerUID p) s \<and>
        active_application d (op_ApplicationUID p) \<noteq> None \<and> active_member d (op_MemberUID p) \<noteq> None \<longleftrightarrow>
      entitles d p (sp_name s) s" for s
    by (auto simp: entitles_def assigned_scope_def list_ex_iff)
  have "set capabilities = sp_name ` {s. entitles d p (sp_name s) s}"
    using assms(2) unfolding currentOAuthCapabilities_def iff [symmetric] by (auto split: if_splits)
  then have "operation \<in> set capabilities \<longleftrightarrow> (\<exists>s. sp_name s = operation \<and> entitles d p operation s)" by auto
  moreover have "sp_name s = operation \<and> entitles d p operation s \<longleftrightarrow> entitles d p operation s" for s
    by (auto simp: entitles_def)
  ultimately show ?thesis by simp
qed

lemma entitles_exists: "entitles d p operation s \<Longrightarrow> operation_exists d (op_ResourceServerUID p) operation"
  by (auto simp: entitles_def operation_exists_def list_ex_iff)

lemma decision_rejected:
  "\<not> decision_input_ok sv input \<Longrightarrow>
     \<exists>m. createAuthorizationDecision sv c (Some input) r d = (fail r 422 ''validation_failed'' m, d)"
  by (auto simp: createAuthorizationDecision_def decision_input_ok_def Let_def not_le Suc_le_eq)

lemma decision_unavailable:
  "decision_input_ok sv input \<Longrightarrow> ca_flt c ''load capabilities'' \<or> ca_flt c ''load operation'' \<Longrightarrow>
     createAuthorizationDecision sv c (Some input) r d =
       (fail r 503 ''authorization_unavailable'' ''authorization decision is temporarily unavailable'', d)"
  by (auto simp: createAuthorizationDecision_def decision_input_ok_def currentOAuthCapabilities_def Let_def)

text \<open>C27 (decision_exact): a resource server that asks for a decision with a bearer token gets one exactly when the token is
  live, the question is well-formed and the database answers; asking changes nothing. The decision is positive
  exactly when some active scope of the token's own resource server has the operation's name, is among
  the token's scopes and is still assigned to an active grant of the token's application; a negative one
  says whether the operation is unknown or the capability missing.\<close>

theorem decision_exact:
  "let bearer = TrimPrefix (hq_header r ''Authorization'') ''Bearer '';
       operation = TrimSpace (di_Operation input);
       answer = oauthResourceAuthorized sv c (createAuthorizationDecision sv c (Some input)) r d in
   snd answer = d \<and>
   ((\<exists>p a. resource_token sv (ca_now c) bearer d = Some p \<and> decision_input_ok sv input \<and>
       fst answer = with_header ''Cache-Control'' ''private, no-store'' (writeJSON 200 (decision_json a)) \<and>
       (ad_Allowed a \<longleftrightarrow> (\<exists>s. entitles d p operation s)) \<and>
       ad_DenialReason a =
         (if ad_Allowed a then None
          else if operation_exists d (op_ResourceServerUID p) operation then Some ''missing_capability''
          else Some ''unknown_operation'') \<and>
       ad_Subject a = op_Subject p \<and> ad_TenantUID a = op_TenantUID p \<and> ad_Operation a = operation \<and>
       ad_ResourceServerUID a = op_ResourceServerUID p \<and> ad_ValidUntil a = op_ExpiresAt p) \<or>
    hs_status (fst answer) \<in> {401, 422, 503} \<and>
    (bearer = [] \<or> 8192 < length bearer \<or> resource_token sv (ca_now c) bearer d = None \<or>
     \<not> decision_input_ok sv input \<or>
     list_ex (ca_flt c) [''load access token'', ''load capabilities'', ''load operation'']))"
proof -
  let ?bearer = "TrimPrefix (hq_header r ''Authorization'') ''Bearer ''"
  let ?next = "createAuthorizationDecision sv c (Some input)"
  show ?thesis
  proof (cases "?bearer = [] \<or> 8192 < length ?bearer \<or> ca_flt c ''load access token'' \<or> resource_token sv (ca_now c) ?bearer d = None")
    case True
    then have "oauthResourceAuthorized sv c ?next r d = (writeInvalidBearer, d)"
      by (auto simp: oauthResourceAuthorized_def Let_def)
    with True show ?thesis by (auto simp: writeInvalidBearer_def writeOAuthError_def Let_def)
  next
    case False
    then obtain p where p: "resource_token sv (ca_now c) ?bearer d = Some p" by blast
    define r' where "r' = r\<lparr>hq_resource_principal := Some p\<rparr>"
    have run: "oauthResourceAuthorized sv c ?next r d = ?next r' d"
      using False p by (simp add: oauthResourceAuthorized_def Let_def r'_def)
    have must: "mustOAuthResourcePrincipal r' = p" by (simp add: mustOAuthResourcePrincipal_def r'_def)
    show ?thesis
    proof (cases "decision_input_ok sv input \<and> \<not> ca_flt c ''load capabilities'' \<and> \<not> ca_flt c ''load operation''")
      case False
      then show ?thesis using decision_rejected [of sv input c r' d] decision_unavailable [of sv input c r' d]
        by (cases "decision_input_ok sv input") (auto simp: run Let_def)
    next
      case True
      then obtain caps where caps: "currentOAuthCapabilities c p d = Some caps"
        by (simp add: currentOAuthCapabilities_def)
      note entitled = capabilities_entitle [OF p caps, of "TrimSpace (di_Operation input)"]
      have allowed: "operation_exists d (op_ResourceServerUID p) (TrimSpace (di_Operation input)) \<and>
          TrimSpace (di_Operation input) \<in> set caps \<longleftrightarrow> (\<exists>s. entitles d p (TrimSpace (di_Operation input)) s)"
        using entitled entitles_exists by blast
      from True caps show ?thesis
        unfolding Let_def run createAuthorizationDecision_def option.case must
        by (auto simp: decision_input_ok_def Let_def allowed p intro!: exI)
    qed
  qed
qed


section \<open>A tenant with one application and one resource server\<close>

definition demo_member :: member_row where
  "demo_member = \<lparr>tm_uid = ''m'', tm_tenant_uid = ''t'', tm_email = ''a@b.c'', tm_email_normalized = ''a@b.c'',
     tm_display_name = ''Ann'', tm_role = ''owner'', tm_password_hash = [], tm_status = ''active'',
     tm_email_verified_at = None, tm_created_at = 0\<rparr>"

definition demo_session :: member_session_row where
  "demo_session = \<lparr>ms_uid = ''s'', ms_tenant_member_uid = ''m'', ms_tenant_uid = ''t'', ms_session_secret_hash = [],
     ms_authentication_assurance = ''strong'', ms_created_at = 0, ms_expires_at = 5000 * Second,
     ms_idle_expires_at = 5000 * Second, ms_last_seen_at = 0, ms_revoked_at = None\<rparr>"

definition demo_application :: application_row where
  "demo_application = \<lparr>ap_uid = ''a'', ap_tenant_uid = ''t'', ap_name = ''App'', ap_client_id = ''client'',
     ap_application_type = ''public'', ap_status = ''active'', ap_version = 1, ap_created_at = 0, ap_updated_at = 0,
     ap_deleted_at = None\<rparr>"

definition demo_resource :: resource_server_row where
  "demo_resource = \<lparr>rv_uid = ''v'', rv_tenant_uid = ''t'', rv_name = ''Api'', rv_identifier = ''https://api'',
     rv_status = ''active'', rv_version = 1, rv_policy_version = 3, rv_created_at = 0, rv_updated_at = 0, rv_deleted_at = None\<rparr>"

definition demo_scope :: scope_row where
  "demo_scope = \<lparr>sp_uid = ''sc'', sp_resource_server_uid = ''v'', sp_name = ''read'', sp_display_name = ''Read'',
     sp_description = [], sp_status = ''active'', sp_version = 1, sp_created_at = 0, sp_updated_at = 0, sp_deleted_at = None\<rparr>"

definition demo_grant :: grant_row where
  "demo_grant = \<lparr>gr_uid = ''g'', gr_tenant_uid = ''t'', gr_application_uid = ''a'', gr_resource_server_uid = ''v'',
     gr_status = ''active'', gr_version = 1, gr_created_at = 0, gr_updated_at = 0, gr_deleted_at = None\<rparr>"

definition demo_oauth_db :: db where
  "demo_oauth_db = empty_db\<lparr>db_members := [demo_member], db_member_sessions := [demo_session],
     db_applications := [demo_application],
     db_redirect_uris := [\<lparr>ru_application_uid = ''a'', ru_redirect_uri = ''https://app/cb''\<rparr>],
     db_resource_servers := [demo_resource], db_scopes := [demo_scope], db_grants := [demo_grant],
     db_grant_scopes := [\<lparr>gs_grant_uid = ''g'', gs_scope_uid = ''sc''\<rparr>]\<rparr>"

lemmas demo_oauth_defs = demo_oauth_db_def demo_member_def demo_session_def demo_application_def demo_resource_def
  demo_scope_def demo_grant_def empty_db_def

definition demo_token_row :: access_token_row where
  "demo_token_row = \<lparr>tk_uid = ''k'', tk_token_hash = SessionHash_of demo_server ''tok'', tk_jti = ''j'', tk_application_uid = ''a'',
     tk_tenant_uid = ''t'', tk_tenant_member_uid = ''m'', tk_subject = ''sub'', tk_scopes = [''openid'', ''read''],
     tk_created_at = 0, tk_expires_at = 2000 * Second, tk_revoked_at = None, tk_resource_server_uid = Some ''v''\<rparr>"

definition demo_question :: decision_input where
  "demo_question = \<lparr>di_ResourceType = ''doc'', di_ResourceID = ''7'', di_Operation = ''read'', di_Context = JObj []\<rparr>"

theorem decision_exact_witness:
  "\<exists>a. fst (oauthResourceAuthorized demo_server demo_call (createAuthorizationDecision demo_server demo_call (Some demo_question))
             (demo_request\<lparr>hq_header := (\<lambda>_. ''Bearer tok'')\<rparr>) (demo_oauth_db\<lparr>db_access_tokens := [demo_token_row]\<rparr>)) =
           with_header ''Cache-Control'' ''private, no-store'' (writeJSON 200 (decision_json a)) \<and> ad_Allowed a"
proof -
  let ?r = "demo_request\<lparr>hq_header := (\<lambda>_. ''Bearer tok'')\<rparr>" and ?d = "demo_oauth_db\<lparr>db_access_tokens := [demo_token_row]\<rparr>"
  have bearer: "TrimPrefix (hq_header ?r ''Authorization'') ''Bearer '' = ''tok''" by code_simp
  have op: "TrimSpace (di_Operation demo_question) = ''read''" by code_simp
  have "TrimSpace ''doc'' = ''doc''" "TrimSpace ''7'' = ''7''" "delegatedScopePattern ''read''" by code_simp+
  then have ok: "decision_input_ok demo_server demo_question"
    using op by (simp add: decision_input_ok_def demo_question_def demo_server_def)
  have flt: "\<not> list_ex (ca_flt demo_call) [''load access token'', ''load capabilities'', ''load operation'']" by (simp add: demo_call_def)
  have live: "resource_token demo_server (ca_now demo_call) ''tok'' ?d = Some (resource_principal demo_token_row demo_resource)"
    by (simp add: demo_call_def resource_token_def demo_oauth_defs demo_token_row_def active_member_def active_application_def
        active_resource_server_def active_grant_def time_defs)
  have "entitles ?d (resource_principal demo_token_row demo_resource) ''read'' demo_scope"
    by (simp add: entitles_def demo_oauth_defs demo_token_row_def resource_principal_def)
  with decision_exact [where sv = demo_server and c = demo_call and r = ?r and input = demo_question and d = ?d,
      unfolded Let_def bearer op] ok flt live
  show ?thesis by auto
qed

end
