(* ===== verification/OAuth_Authorize.thy ===== *)
theory OAuth_Authorize
  imports OAuth_Scopes
begin

text \<open>
  The front half of the authorization-code flow (\<open>internal/api/oauth_authorization.go\<close>): the authorization
  endpoint, the inspection of a pending request in the console, and the member's decision, which resolves
  the request and, when it approves, issues the authorization code. Statements of one transaction are
  composed in the option monad; \<open>None\<close> is a failed statement, after which nothing of the transaction remains.
\<close>

section \<open>Transactions\<close>

definition stmt :: "call \<Rightarrow> string \<Rightarrow> (db \<Rightarrow> db option) \<Rightarrow> db \<Rightarrow> db option" where
  "stmt c site f d = (if ca_flt c site then None else f d)"

text \<open>\<open>CompleteTx\<close> followed by the commit.\<close>

definition finish_tx :: "server \<Rightarrow> call \<Rightarrow> IdempotencyRequest \<Rightarrow> uid \<Rightarrow> StoredHTTPResponse \<Rightarrow> db \<Rightarrow> db option" where
  "finish_tx sv c request lease response tx =
     (case CompleteTx (Codec sv) (ca_flt c) (ca_now c) request lease response (db_idempotency tx) of
        (Inl _, _) \<Rightarrow> None
      | (Inr _, t) \<Rightarrow> if ca_flt c ''commit'' then None else Some (tx\<lparr>db_idempotency := t\<rparr>))"

text \<open>Store the response with the writes of the transaction \<open>tx\<close>, or fail and keep the database \<open>d\<close>.\<close>

definition respond_stored ::
  "server \<Rightarrow> call \<Rightarrow> http_request \<Rightarrow> IdempotencyRequest \<Rightarrow> uid \<Rightarrow> StoredHTTPResponse \<Rightarrow> db option \<Rightarrow> string \<Rightarrow> db \<Rightarrow>
   http_response \<times> db" where
  "respond_stored sv c r request lease response tx message d =
     (case Option.bind tx (finish_tx sv c request lease response) of
        None \<Rightarrow> (fail r 500 ''internal_error'' message, d)
      | Some d' \<Rightarrow> (writeStoredResponse response, d'))"

text \<open>A nil dereference: the connection is aborted without a response.\<close>

definition aborted :: http_response where
  "aborted = no_content 0"

definition HashIdempotencyRequest :: "server \<Rightarrow> string \<Rightarrow> byte list" where
  "HashIdempotencyRequest sv canonicalRequest = Sum256 sv (bytes_of canonicalRequest)"

section \<open>The authorization endpoint\<close>

definition pkce_c :: "char \<Rightarrow> bool" where
  "pkce_c ch \<longleftrightarrow> is_alnum_c ch \<or> ch = CHR ''_'' \<or> ch = CHR ''-''"

text \<open>\<^verbatim>\<open>^[A-Za-z0-9_-]{43}$\<close> and \<^verbatim>\<open>^[A-Za-z0-9._~-]{43,128}$\<close>\<close>

definition pkceChallengePattern :: "string \<Rightarrow> bool" where
  "pkceChallengePattern s \<longleftrightarrow> length s = 43 \<and> list_all pkce_c s"

definition pkceVerifierPattern :: "string \<Rightarrow> bool" where
  "pkceVerifierPattern s \<longleftrightarrow> 43 \<le> length s \<and> length s \<le> 128 \<and> list_all (\<lambda>ch. pkce_c ch \<or> ch = CHR ''.'' \<or> ch = CHR ''~'') s"

definition oauthAuthorizationPageError :: "server \<Rightarrow> nat \<Rightarrow> string \<Rightarrow> string \<Rightarrow> http_response" where
  "oauthAuthorizationPageError sv status code description =
     \<lparr>hs_status = status, hs_headers = [(''Content-Type'', ''text/html; charset=utf-8'')],
      hs_body = TextBody (''<!doctype html><html lang=\"en\"><meta charset=\"utf-8\"><title>Authorization request rejected</title><main><h1>Authorization request rejected</h1><p>'' @
        html_Escape sv description @ ''</p><p><code>'' @ html_Escape sv code @ ''</code></p></main></html>'')\<rparr>"

definition see_other :: "string \<Rightarrow> http_response" where
  "see_other location = with_header ''Location'' location (no_content 303)"

definition oauthAuthorizationRedirectError :: "server \<Rightarrow> string \<Rightarrow> string \<Rightarrow> string \<Rightarrow> string \<Rightarrow> http_response" where
  "oauthAuthorizationRedirectError sv redirectURI state code description =
     (case url_WithQuery sv redirectURI ([(''error'', code), (''error_description'', description)] @
             (if state \<noteq> [] then [(''state'', state)] else []) @ [(''iss'', OAuthIssuer sv)]) of
        None \<Rightarrow> oauthAuthorizationPageError sv 400 code description
      | Some destination \<Rightarrow> see_other destination)"

definition authorize_client :: "db \<Rightarrow> string \<Rightarrow> string \<Rightarrow> application_row option" where
  "authorize_client d clientID redirectURI =
     sql_row (\<lambda>a. ap_client_id a = clientID \<and> ap_status a = ''active'' \<and> ap_deleted_at a = None \<and>
                  list_ex (\<lambda>u. ru_application_uid u = ap_uid a \<and> ru_redirect_uri u = redirectURI) (db_redirect_uris d))
       (db_applications d)"

definition auth_request_conflict :: "auth_request_row \<Rightarrow> auth_request_row list \<Rightarrow> bool" where
  "auth_request_conflict row qs =
     list_ex (\<lambda>q. ar_uid q = ar_uid row \<or> ar_request_secret_hash q = ar_request_secret_hash row) qs"

text \<open>The request that is stored when every parameter was accepted.\<close>

definition new_auth_request ::
  "server \<Rightarrow> call \<Rightarrow> http_request \<Rightarrow> application_row \<Rightarrow> string list \<Rightarrow> resource_server_row option \<Rightarrow> string \<Rightarrow> auth_request_row" where
  "new_auth_request sv c r a scopes resource requestToken =
     \<lparr>ar_uid = ca_uid c ''authorization request'', ar_request_secret_hash = SessionHash_of sv requestToken,
      ar_application_uid = ap_uid a, ar_tenant_uid = ap_tenant_uid a, ar_redirect_uri = hq_query r ''redirect_uri'',
      ar_scopes = scopes, ar_state = hq_query r ''state'', ar_nonce = hq_query r ''nonce'',
      ar_code_challenge = hq_query r ''code_challenge'', ar_status = ''pending'', ar_tenant_member_uid = None,
      ar_created_at = ca_now c, ar_expires_at = ca_now c + durationOr (OAuthAuthorizationTTL sv) (10 * Minute),
      ar_resolved_at = None, ar_resource_server_uid = resourceServerUID resource\<rparr>"

text \<open>The part of the handler after the rate limit.\<close>

definition authorize_checked :: "server \<Rightarrow> call \<Rightarrow> application_row \<Rightarrow> handler" where
  "authorize_checked sv c a r d =
     (let redirectURI = hq_query r ''redirect_uri''; state = hq_query r ''state'';
          refuse = (\<lambda>st code description. (oauthAuthorizationRedirectError sv redirectURI st code description, d)) in
      if hq_query r ''response_type'' \<noteq> ''code'' then
        refuse state ''unsupported_response_type'' ''Only the authorization code response type is supported.''
      else if state = [] \<or> length state > 1024 then
        refuse [] ''invalid_request'' ''state is required and must not exceed 1024 characters.''
      else if hq_query r ''response_mode'' \<noteq> [] \<and> hq_query r ''response_mode'' \<noteq> ''query'' then
        refuse state ''invalid_request'' ''Only query response mode is supported.''
      else (case resolveAuthorizationScopes sv c (ap_tenant_uid a) (ap_uid a) (hq_query r ''scope'') (hq_query r ''resource'') d of
        Inl e \<Rightarrow> refuse state ''invalid_scope'' (scope_error_text sv e)
      | Inr (scopes, resource) \<Rightarrow>
          if hq_query r ''nonce'' = [] \<or> length (hq_query r ''nonce'') > 255 then
            refuse state ''invalid_request'' ''nonce is required and must not exceed 255 characters.''
          else if hq_query r ''code_challenge_method'' \<noteq> ''S256'' \<or> \<not> pkceChallengePattern (hq_query r ''code_challenge'') then
            refuse state ''invalid_request'' ''S256 PKCE with a valid code_challenge is required.''
          else (case RandomToken (ca_rand c ''authorization request'') of
            None \<Rightarrow> (oauthAuthorizationPageError sv 503 ''temporarily_unavailable'' ''Authorization is temporarily unavailable.'', d)
          | Some secret \<Rightarrow>
              let requestToken = ca_uid c ''authorization request'' @ ''.'' @ secret;
                  row = new_auth_request sv c r a scopes resource requestToken in
              if ca_flt c ''insert authorization request'' \<or> auth_request_conflict row (db_auth_requests d) then
                (oauthAuthorizationPageError sv 503 ''temporarily_unavailable'' ''Authorization is temporarily unavailable.'', d)
              else (see_other (url_WithFragment sv (ConsoleOrigin sv @ ''/oauth/authorize'')
                                 (''request='' @ QueryEscape sv requestToken)),
                    d\<lparr>db_auth_requests := db_auth_requests d @ [row]\<rparr>))))"

definition oauthAuthorize :: "server \<Rightarrow> call \<Rightarrow> handler" where
  "oauthAuthorize sv c r d =
     (let clientID = hq_query r ''client_id''; redirectURI = hq_query r ''redirect_uri''; state = hq_query r ''state'';
          client = (if ca_flt c ''load oauth client'' then None else authorize_client d clientID redirectURI) in
      case client of
        None \<Rightarrow> (oauthAuthorizationPageError sv 400 ''invalid_request'' ''The client or exact redirect URI is invalid.'', d)
      | Some a \<Rightarrow>
          (case Take (ca_flt c) (ca_now c) ''oauth_authorize''
                  (SecretHash_of sv (''oauth_authorize'' @ [char_of (0 :: nat)] @ clientID @ [char_of (0 :: nat)] @ clientIP sv r))
                  100 (15 * Minute) (db_buckets d) of
             (Inl _, t) \<Rightarrow>
               (oauthAuthorizationRedirectError sv redirectURI state ''temporarily_unavailable'' ''Authorization is temporarily unavailable.'',
                d\<lparr>db_buckets := t\<rparr>)
           | (Inr limit, t) \<Rightarrow>
               if \<not> rl_Allowed limit then
                 (with_header ''Retry-After'' (decimal (nat (retry_after_seconds (rl_RetryAfter limit))))
                    (oauthAuthorizationRedirectError sv redirectURI state ''temporarily_unavailable''
                       ''Too many authorization attempts; retry later.''),
                  d\<lparr>db_buckets := t\<rparr>)
               else authorize_checked sv c a r (d\<lparr>db_buckets := t\<rparr>)))"

section \<open>Inspection\<close>

text \<open>Name, display name and description of each scope, in the order of the request.\<close>

definition core_scope_details :: "(string \<times> string \<times> string) list" where
  "core_scope_details =
     [(''openid'', ''Identify you'', ''Confirm your stable, pairwise identity for this application.''),
      (''profile'', ''View your profile'', ''Share your display name.''),
      (''email'', ''View your email'', ''Share your email address and verification status.'')]"

definition oauthAuthorizationScopeDetails ::
  "call \<Rightarrow> string list \<Rightarrow> uid option \<Rightarrow> db \<Rightarrow> (string \<times> string \<times> string) list option" where
  "oauthAuthorizationScopeDetails c scopes resourceUID d =
     (if resourceUID \<noteq> None \<and> ca_flt c ''load scope details'' then None
      else let rows = (case resourceUID of None \<Rightarrow> []
                       | Some u \<Rightarrow> map (\<lambda>s. (sp_name s, sp_display_name s, sp_description s))
                           (filter (\<lambda>s. sp_resource_server_uid s = u \<and> sp_name s \<in> set scopes \<and> sp_status s = ''active'' \<and>
                                        sp_deleted_at s = None) (db_scopes d)));
               details = map_of (rev (core_scope_details @ rows)) in
      if list_ex (\<lambda>name. details name = None) scopes then None
      else Some (map (\<lambda>name. (name, the (details name))) scopes))"

definition inspect_row :: "server \<Rightarrow> principal \<Rightarrow> string \<Rightarrow> db \<Rightarrow> (auth_request_row \<times> application_row) option" where
  "inspect_row sv p token d =
     (case sql_row (\<lambda>q. ar_request_secret_hash q = SessionHash_of sv token \<and> ar_tenant_uid q = p_TenantUID p \<and>
                        active_application d (ar_application_uid q) \<noteq> None) (db_auth_requests d) of
        None \<Rightarrow> None
      | Some q \<Rightarrow> map_option (Pair q) (active_application d (ar_application_uid q)))"

text \<open>The resource server's columns of the left join; absent fields are omitted from the response.\<close>

definition joined_resource :: "db \<Rightarrow> uid option \<Rightarrow> resource_server_row option" where
  "joined_resource d resourceUID = Option.bind resourceUID (\<lambda>u. sql_row (\<lambda>v. rv_uid v = u) (db_resource_servers d))"

definition resource_fields :: "resource_server_row option \<Rightarrow> (string \<times> json) list" where
  "resource_fields resource =
     (case resource of
        None \<Rightarrow> []
      | Some v \<Rightarrow> [(''resource_server_uid'', JStr (rv_uid v)), (''resource_server_name'', JStr (rv_name v)),
                  (''resource_server_identifier'', JStr (rv_identifier v))])"

definition inspectOAuthAuthorizationRequest :: "server \<Rightarrow> call \<Rightarrow> string option \<Rightarrow> handler" where
  "inspectOAuthAuthorizationRequest sv c body r d =
     (let invalid = (fail r 401 ''invalid_authorization_request'' ''authorization request is invalid or expired'', d) in
      case body of
        None \<Rightarrow> (invalid_json r, d)
      | Some token \<Rightarrow>
          if length token < 40 \<or> length token > 256 then invalid
          else if ca_flt c ''load authorization request'' then invalid
          else (case inspect_row sv (mustPrincipal r) token d of
            None \<Rightarrow> invalid
          | Some (q, a) \<Rightarrow>
              if ar_status q \<noteq> ''pending'' \<or> \<not> ar_expires_at q > ca_now c then invalid
              else let resource = joined_resource d (ar_resource_server_uid q) in
                (case oauthAuthorizationScopeDetails c (ar_scopes q) (map_option rv_uid resource) d of
                None \<Rightarrow> (fail r 500 ''internal_error'' ''could not load authorization scope details'', d)
              | Some details \<Rightarrow>
                  (writeJSON 200 (JObj ([(''application_uid'', JStr (ap_uid a)), (''application_name'', JStr (ap_name a)),
                     (''client_id'', JStr (ap_client_id a)), (''redirect_uri'', JStr (ar_redirect_uri q)),
                     (''scopes'', JArr (map JStr (ar_scopes q))),
                     (''scope_details'', JArr (map (\<lambda>(name, display, description).
                        JObj [(''name'', JStr name), (''display_name'', JStr display), (''description'', JStr description)]) details))] @
                     resource_fields resource @
                     [(''expires_at'', JNum (ar_expires_at q))])), d))))"


section \<open>The decision\<close>

record oauthAuthorizationDecisionInput =
  dc_RequestToken :: string
  dc_Decision :: string

definition decide_canonical :: "server \<Rightarrow> oauthAuthorizationDecisionInput \<Rightarrow> string" where
  "decide_canonical sv input = json_text sv (JObj [
     (''request_token_hash'', JStr (RawURLEncode (SessionHash_of sv (dc_RequestToken input)))),
     (''decision'', JStr (dc_Decision input))])"

definition decide_request :: "server \<Rightarrow> principal \<Rightarrow> string \<Rightarrow> oauthAuthorizationDecisionInput \<Rightarrow> IdempotencyRequest" where
  "decide_request sv p key input =
     \<lparr>rq_PrincipalType = ''tenant_member'', rq_PrincipalUID = p_MemberUID p,
      rq_Operation = ''oauth_authorization_requests.decide'', rq_Key = key,
      rq_RequestHash = HashIdempotencyRequest sv (decide_canonical sv input),
      rq_LeaseDuration = 30 * Second, rq_Retention = 24 * Hour\<rparr>"

definition decide_row :: "server \<Rightarrow> principal \<Rightarrow> string \<Rightarrow> db \<Rightarrow> (auth_request_row \<times> member_session_row) option" where
  "decide_row sv p token d =
     (case sql_row (\<lambda>q. ar_request_secret_hash q = SessionHash_of sv token \<and> ar_tenant_uid q = p_TenantUID p \<and>
                        active_application d (ar_application_uid q) \<noteq> None) (db_auth_requests d) of
        None \<Rightarrow> None
      | Some q \<Rightarrow> map_option (Pair q)
          (sql_row (\<lambda>s. ms_uid s = p_SessionUID p \<and> ms_tenant_member_uid s = p_MemberUID p \<and> ms_revoked_at s = None)
             (db_member_sessions d)))"

definition resolve_request :: "call \<Rightarrow> string \<Rightarrow> auth_request_row \<Rightarrow> principal \<Rightarrow> db \<Rightarrow> db option" where
  "resolve_request c status q p =
     stmt c ''resolve authorization request'' (\<lambda>d. Some (d\<lparr>db_auth_requests :=
       sql_update (\<lambda>x. ar_uid x = ar_uid q)
         (\<lambda>x. x\<lparr>ar_status := status, ar_tenant_member_uid := Some (p_MemberUID p), ar_resolved_at := Some (ca_now c)\<rparr>)
         (db_auth_requests d)\<rparr>))"

definition decision_audit :: "call \<Rightarrow> string \<Rightarrow> auth_request_row \<Rightarrow> principal \<Rightarrow> json \<Rightarrow> db \<Rightarrow> db option" where
  "decision_audit c action q p metadata =
     stmt c ''insert audit event'' (\<lambda>d. Some (add_audit
       \<lparr>au_uid = ca_uid c ''audit'', au_tenant_uid = ar_tenant_uid q, au_project_uid = None, au_actor_type = ''tenant_member'',
        au_actor_uid = Some (p_MemberUID p), au_action = action, au_target_type = ''oauth_application'',
        au_target_uid = ar_application_uid q, au_metadata = metadata\<rparr> d))"

definition new_code_row :: "server \<Rightarrow> call \<Rightarrow> auth_request_row \<Rightarrow> member_session_row \<Rightarrow> principal \<Rightarrow> string \<Rightarrow> auth_code_row" where
  "new_code_row sv c q s p code =
     \<lparr>ac_uid = ca_uid c ''code'', ac_code_hash = SessionHash_of sv code, ac_application_uid = ar_application_uid q,
      ac_tenant_uid = ar_tenant_uid q, ac_tenant_member_uid = p_MemberUID p, ac_redirect_uri = ar_redirect_uri q,
      ac_scopes = ar_scopes q, ac_nonce = ar_nonce q, ac_code_challenge = ar_code_challenge q,
      ac_auth_time = ms_created_at s, ac_created_at = ca_now c,
      ac_expires_at = ca_now c + durationOr (OAuthCodeTTL sv) (5 * Minute), ac_consumed_at = None,
      ac_resource_server_uid = ar_resource_server_uid q\<rparr>"

definition insert_code :: "call \<Rightarrow> auth_code_row \<Rightarrow> db \<Rightarrow> db option" where
  "insert_code c row = stmt c ''insert authorization code'' (\<lambda>d.
     if list_ex (\<lambda>x. ac_uid x = ac_uid row \<or> ac_code_hash x = ac_code_hash row) (db_auth_codes d) then None
     else Some (d\<lparr>db_auth_codes := db_auth_codes d @ [row]\<rparr>))"

definition new_consent :: "call \<Rightarrow> auth_request_row \<Rightarrow> principal \<Rightarrow> consent_row" where
  "new_consent c q p =
     \<lparr>co_uid = ca_uid c ''consent'', co_tenant_uid = ar_tenant_uid q,
      co_tenant_member_uid = p_MemberUID p, co_application_uid = ar_application_uid q, co_scopes = ar_scopes q,
      co_status = ''active'', co_created_at = ca_now c, co_updated_at = ca_now c, co_revoked_at = None,
      co_resource_server_uid = ar_resource_server_uid q\<rparr>"

text \<open>The unique key of consents treats null resource servers as equal.\<close>

definition upsert_consent :: "call \<Rightarrow> auth_request_row \<Rightarrow> principal \<Rightarrow> db \<Rightarrow> db option" where
  "upsert_consent c q p = stmt c ''upsert consent'' (\<lambda>d.
     let same = (\<lambda>x. co_tenant_member_uid x = p_MemberUID p \<and> co_application_uid x = ar_application_uid q \<and>
                     co_resource_server_uid x = ar_resource_server_uid q) in
     if list_ex same (db_consents d) then
       Some (d\<lparr>db_consents := sql_update same (\<lambda>x. x\<lparr>co_scopes := ar_scopes q, co_status := ''active'',
                co_updated_at := ca_now c, co_revoked_at := None\<rparr>) (db_consents d)\<rparr>)
     else if list_ex (\<lambda>x. co_uid x = ca_uid c ''consent'') (db_consents d) then None
     else Some (d\<lparr>db_consents := db_consents d @ [new_consent c q p]\<rparr>))"

definition insert_subject :: "call \<Rightarrow> auth_request_row \<Rightarrow> principal \<Rightarrow> string \<Rightarrow> db \<Rightarrow> db option" where
  "insert_subject c q p subjectSecret = stmt c ''insert subject'' (\<lambda>d.
     if list_ex (\<lambda>x. su_application_uid x = ar_application_uid q \<and> su_tenant_member_uid x = p_MemberUID p) (db_subjects d) then Some d
     else if list_ex (\<lambda>x. su_uid x = ca_uid c ''subject'' \<or> su_subject x = ''ca_sub_'' @ subjectSecret) (db_subjects d) then None
     else Some (d\<lparr>db_subjects := db_subjects d @ [\<lparr>su_uid = ca_uid c ''subject'', su_application_uid = ar_application_uid q,
            su_tenant_member_uid = p_MemberUID p, su_subject = ''ca_sub_'' @ subjectSecret\<rparr>]\<rparr>))"

definition deny_tx :: "call \<Rightarrow> auth_request_row \<Rightarrow> principal \<Rightarrow> db \<Rightarrow> db option" where
  "deny_tx c q p d =
     Option.bind (resolve_request c ''denied'' q p d) (decision_audit c ''oauth_authorization.denied'' q p (JObj []))"

definition optional_text :: "string option \<Rightarrow> json" where
  "optional_text v = (case v of None \<Rightarrow> JNull | Some s \<Rightarrow> JStr s)"

definition approve_tx ::
  "server \<Rightarrow> call \<Rightarrow> auth_request_row \<Rightarrow> member_session_row \<Rightarrow> principal \<Rightarrow> string \<Rightarrow> string \<Rightarrow> db \<Rightarrow> db option" where
  "approve_tx sv c q s p code subjectSecret d =
     Option.bind (resolve_request c ''approved'' q p d) (\<lambda>d.
     Option.bind (insert_code c (new_code_row sv c q s p code) d) (\<lambda>d.
     Option.bind (upsert_consent c q p d) (\<lambda>d.
     Option.bind (insert_subject c q p subjectSecret d)
       (decision_audit c ''oauth_authorization.approved'' q p
          (JObj [(''scopes'', JArr (map JStr (ar_scopes q))), (''resource_server_uid'', optional_text (ar_resource_server_uid q))])))))"

text \<open>The values with a non-empty text are set on the callback.\<close>

definition oauthCallbackURL :: "server \<Rightarrow> string \<Rightarrow> (string \<times> string) list \<Rightarrow> string option" where
  "oauthCallbackURL sv raw vals = url_WithQuery sv raw (filter (\<lambda>(k, v). v \<noteq> []) vals)"

definition redirect_response :: "server \<Rightarrow> string \<Rightarrow> StoredHTTPResponse" where
  "redirect_response sv destination = storedJSONResponse sv 200 (JObj [(''redirect_to'', JStr destination)])"

text \<open>
  The resource server of a request is checked again before approval. \<open>Some True\<close>: unchanged; \<open>Some False\<close>:
  changed; \<open>None\<close>: a query failed, after which the transaction accepts no further statement.
\<close>

definition recheck_grant :: "server \<Rightarrow> call \<Rightarrow> uid \<Rightarrow> uid \<Rightarrow> string list \<Rightarrow> uid option \<Rightarrow> db \<Rightarrow> bool option" where
  "recheck_grant sv c tenantUID applicationUID scopes resourceUID d =
     (case resourceUID of
        None \<Rightarrow> Some True
      | Some u \<Rightarrow>
          if ca_flt c ''load resource server'' then None
          else (case sql_row (\<lambda>v. rv_uid v = u \<and> rv_tenant_uid v = tenantUID \<and> rv_status v = ''active'' \<and> rv_deleted_at v = None)
                       (db_resource_servers d) of
            None \<Rightarrow> Some False
          | Some v \<Rightarrow>
              (case resolveAuthorizationScopes sv c tenantUID applicationUID (Join '' '' scopes) (rv_identifier v) d of
                 Inr _ \<Rightarrow> Some True
               | Inl e \<Rightarrow> if e = ScopesNotValidated \<or> e = ResourceNotGranted \<and> ca_flt c ''load resource grant'' then None
                          else Some False)))"

definition decide_tx ::
  "server \<Rightarrow> call \<Rightarrow> principal \<Rightarrow> oauthAuthorizationDecisionInput \<Rightarrow> IdempotencyRequest \<Rightarrow> uid \<Rightarrow> handler" where
  "decide_tx sv c p input request lease r d =
     (let unresolved = ''could not resolve authorization request''; unapproved = ''could not approve authorization request'';
          resolved = problemResponse sv r 409 ''authorization_request_resolved''
            ''authorization request is invalid, expired, or already resolved'' in
      if ca_flt c ''begin transaction'' \<or> ca_flt c ''load authorization request'' then (fail r 500 ''internal_error'' unresolved, d)
      else (case decide_row sv p (dc_RequestToken input) d of
        None \<Rightarrow> respond_stored sv c r request lease resolved (Some d) unresolved d
      | Some (q, s) \<Rightarrow>
          if ar_status q \<noteq> ''pending'' \<or> \<not> ar_expires_at q > ca_now c then
            respond_stored sv c r request lease resolved (Some d) unresolved d
          else if dc_Decision input = ''deny'' then
            (case oauthCallbackURL sv (ar_redirect_uri q) [(''error'', ''access_denied''),
                    (''error_description'', ''The Tenant Member denied the authorization request.''),
                    (''state'', ar_state q), (''iss'', OAuthIssuer sv)] of
               None \<Rightarrow> (aborted, d)
             | Some destination \<Rightarrow>
                 respond_stored sv c r request lease (redirect_response sv destination) (deny_tx c q p d) unresolved d)
          else (case recheck_grant sv c (ar_tenant_uid q) (ar_application_uid q) (ar_scopes q) (ar_resource_server_uid q) d of
            None \<Rightarrow> (fail r 500 ''internal_error'' unresolved, d)
          | Some False \<Rightarrow>
              respond_stored sv c r request lease (problemResponse sv r 409 ''authorization_grant_changed''
                ''the Resource Server grant or delegated scopes changed; begin a new authorization request'') (Some d) unresolved d
          | Some True \<Rightarrow>
              (case (RandomToken (ca_rand c ''code''), RandomToken (ca_rand c ''subject'')) of
                 (Some codeSecret, Some subjectSecret) \<Rightarrow>
                   (case oauthCallbackURL sv (ar_redirect_uri q) [(''code'', ''ca_code_'' @ codeSecret), (''state'', ar_state q),
                           (''iss'', OAuthIssuer sv)] of
                      None \<Rightarrow> (aborted, d)
                    | Some destination \<Rightarrow>
                        respond_stored sv c r request lease (redirect_response sv destination)
                          (approve_tx sv c q s p (''ca_code_'' @ codeSecret) subjectSecret d) unapproved d)
               | _ \<Rightarrow> (fail r 500 ''internal_error'' unapproved, d)))))"

definition decideOAuthAuthorizationRequest :: "server \<Rightarrow> call \<Rightarrow> oauthAuthorizationDecisionInput option \<Rightarrow> handler" where
  "decideOAuthAuthorizationRequest sv c body r d =
     (case body of
        None \<Rightarrow> (invalid_json r, d)
      | Some input \<Rightarrow>
          if dc_Decision input \<noteq> ''approve'' \<and> dc_Decision input \<noteq> ''deny'' \<or> length (dc_RequestToken input) < 40 \<or>
             length (dc_RequestToken input) > 256 then
            (fail r 422 ''validation_failed'' ''a valid request_token and approve or deny decision are required'', d)
          else if hq_header r ''Idempotency-Key'' = [] then
            (fail r 400 ''idempotency_key_required'' ''Idempotency-Key is required'', d)
          else let p = mustPrincipal r; request = decide_request sv p (hq_header r ''Idempotency-Key'') input in
            (case beginIdempotentRequest sv c r request d of
               (Inl response, d') \<Rightarrow> (response, d')
             | (Inr claim, d') \<Rightarrow> decide_tx sv c p input request (cl_LeaseUID claim) r d'))"


section \<open>What the authorization endpoint accepts\<close>

text \<open>The tables the resolution of scopes reads.\<close>

lemma resolve_frame:
  assumes "db_resource_servers d' = db_resource_servers d" "db_grants d' = db_grants d" "db_grant_scopes d' = db_grant_scopes d"
    "db_scopes d' = db_scopes d"
  shows "resolveAuthorizationScopes sv c t app raw ri d' = resolveAuthorizationScopes sv c t app raw ri d"
proof -
  have grants: "active_grant d' = active_grant d" "assigned_scope d' = assigned_scope d"
    by (intro ext; simp add: active_grant_def assigned_scope_def assms)+
  have granted: "granted_resource d' = granted_resource d" "granted_names d' = granted_names d"
    by (intro ext; simp add: granted_resource_def granted_names_def grants assms)+
  show ?thesis unfolding resolveAuthorizationScopes_def granted ..
qed

text \<open>A response that sends the browser nowhere but to the given redirect URI, with parameters added.\<close>

definition stays_with :: "server \<Rightarrow> string \<Rightarrow> http_response \<Rightarrow> bool" where
  "stays_with sv uri w \<longleftrightarrow>
     (\<exists>q loc. url_WithQuery sv uri q = Some loc \<and> hs_status w = 303 \<and> filter (\<lambda>(n, v). n = ''Location'') (hs_headers w) = [(''Location'', loc)])"

lemma redirect_error_stays:
  "hs_status (oauthAuthorizationRedirectError sv uri state code description) \<in> {400, 503} \<or>
     stays_with sv uri (oauthAuthorizationRedirectError sv uri state code description)"
proof -
  let ?q = "[(''error'', code), (''error_description'', description)] @
      (if state \<noteq> [] then [(''state'', state)] else []) @ [(''iss'', OAuthIssuer sv)]"
  show ?thesis
  proof (cases "url_WithQuery sv uri ?q")
    case None
    then show ?thesis unfolding oauthAuthorizationRedirectError_def by (simp add: oauthAuthorizationPageError_def)
  next
    case (Some loc)
    then have "oauthAuthorizationRedirectError sv uri state code description = see_other loc"
      unfolding oauthAuthorizationRedirectError_def by simp
    with Some show ?thesis by (auto simp: stays_with_def see_other_def with_header_def no_content_def)
  qed
qed

lemma retry_after_stays:
  "hs_status (with_header ''Retry-After'' v (oauthAuthorizationRedirectError sv uri state code description)) \<in> {400, 503} \<or>
     stays_with sv uri (with_header ''Retry-After'' v (oauthAuthorizationRedirectError sv uri state code description))"
  using redirect_error_stays [of sv uri state code description] by (auto simp: stays_with_def with_header_def)

definition authorize_params_ok :: "http_request \<Rightarrow> bool" where
  "authorize_params_ok r \<longleftrightarrow>
     hq_query r ''response_type'' = ''code'' \<and> hq_query r ''response_mode'' \<in> {[], ''query''} \<and>
     1 \<le> length (hq_query r ''state'') \<and> length (hq_query r ''state'') \<le> 1024 \<and>
     1 \<le> length (hq_query r ''nonce'') \<and> length (hq_query r ''nonce'') \<le> 255 \<and>
     hq_query r ''code_challenge_method'' = ''S256'' \<and> pkceChallengePattern (hq_query r ''code_challenge'')"

definition request_token_of :: "call \<Rightarrow> string \<Rightarrow> string" where
  "request_token_of c secret = ca_uid c ''authorization request'' @ ''.'' @ secret"

lemma authorize_checked_cases:
  assumes "authorize_checked sv c a r d = (w, d')"
  obtains (refused) "d' = d" "hs_status w \<in> {400, 503} \<or> stays_with sv (hq_query r ''redirect_uri'') w"
  | (stored) scopes resource secret where "authorize_params_ok r"
      "resolveAuthorizationScopes sv c (ap_tenant_uid a) (ap_uid a) (hq_query r ''scope'') (hq_query r ''resource'') d = Inr (scopes, resource)"
      "RandomToken (ca_rand c ''authorization request'') = Some secret"
      "d' = d\<lparr>db_auth_requests := db_auth_requests d @ [new_auth_request sv c r a scopes resource (request_token_of c secret)]\<rparr>"
      "w = see_other (url_WithFragment sv (ConsoleOrigin sv @ ''/oauth/authorize'') (''request='' @ QueryEscape sv (request_token_of c secret)))"
proof -
  let ?res = "resolveAuthorizationScopes sv c (ap_tenant_uid a) (ap_uid a) (hq_query r ''scope'') (hq_query r ''resource'') d"
  let ?uri = "hq_query r ''redirect_uri''"
  note stays = redirect_error_stays [of sv ?uri]
  show thesis
  proof (cases ?res)
    case (Inl e)
    have "d' = d \<and> (\<exists>state code description. w = oauthAuthorizationRedirectError sv ?uri state code description)"
      using assms unfolding authorize_checked_def Let_def Inl sum.case by (auto split: if_splits)
    then show ?thesis using refused stays by blast
  next
    case (Inr sr)
    obtain scopes resource where sr: "sr = (scopes, resource)" by fastforce
    show ?thesis
    proof (cases "authorize_params_ok r")
      case False
      have "d' = d \<and> (\<exists>state code description. w = oauthAuthorizationRedirectError sv ?uri state code description)"
        using assms False unfolding authorize_checked_def Let_def Inr sr sum.case prod.case
        by (auto simp: authorize_params_ok_def Suc_le_eq not_le split: if_splits)
      then show ?thesis using refused stays by blast
    next
      case True
      then have checks: "(hq_query r ''response_type'' \<noteq> ''code'') = False"
          "(hq_query r ''state'' = [] \<or> length (hq_query r ''state'') > 1024) = False"
          "(hq_query r ''response_mode'' \<noteq> [] \<and> hq_query r ''response_mode'' \<noteq> ''query'') = False"
          "(hq_query r ''nonce'' = [] \<or> length (hq_query r ''nonce'') > 255) = False"
          "(hq_query r ''code_challenge_method'' \<noteq> ''S256'' \<or> \<not> pkceChallengePattern (hq_query r ''code_challenge'')) = False"
        unfolding authorize_params_ok_def by auto
      have run: "(case RandomToken (ca_rand c ''authorization request'') of
            None \<Rightarrow> (oauthAuthorizationPageError sv 503 ''temporarily_unavailable'' ''Authorization is temporarily unavailable.'', d)
          | Some secret \<Rightarrow>
              if ca_flt c ''insert authorization request'' \<or>
                 auth_request_conflict (new_auth_request sv c r a scopes resource (request_token_of c secret)) (db_auth_requests d) then
                (oauthAuthorizationPageError sv 503 ''temporarily_unavailable'' ''Authorization is temporarily unavailable.'', d)
              else (see_other (url_WithFragment sv (ConsoleOrigin sv @ ''/oauth/authorize'')
                                 (''request='' @ QueryEscape sv (request_token_of c secret))),
                    d\<lparr>db_auth_requests := db_auth_requests d @ [new_auth_request sv c r a scopes resource (request_token_of c secret)]\<rparr>)) = (w, d')"
        using assms unfolding authorize_checked_def Let_def Inr sr sum.case prod.case request_token_of_def checks if_False .
      show ?thesis
      proof (cases "RandomToken (ca_rand c ''authorization request'')")
        case None
        then show ?thesis using run refused by (auto simp: oauthAuthorizationPageError_def)
      next
        case (Some secret)
        then show ?thesis using run refused stored [OF True Inr [unfolded sr] Some]
          by (auto simp: oauthAuthorizationPageError_def split: if_splits)
      qed
    qed
  qed
qed



section \<open>What a decision changes\<close>

definition resolved_requests :: "call \<Rightarrow> string \<Rightarrow> auth_request_row \<Rightarrow> principal \<Rightarrow> auth_request_row list \<Rightarrow> auth_request_row list" where
  "resolved_requests c status q p qs =
     sql_update (\<lambda>x. ar_uid x = ar_uid q)
       (\<lambda>x. x\<lparr>ar_status := status, ar_tenant_member_uid := Some (p_MemberUID p), ar_resolved_at := Some (ca_now c)\<rparr>) qs"

text \<open>An active consent of the member for the client and the resource server, with exactly the request's scopes.\<close>

definition consented :: "auth_request_row \<Rightarrow> principal \<Rightarrow> consent_row \<Rightarrow> bool" where
  "consented q p x \<longleftrightarrow> co_tenant_member_uid x = p_MemberUID p \<and> co_application_uid x = ar_application_uid q \<and>
     co_resource_server_uid x = ar_resource_server_uid q \<and> co_status x = ''active'' \<and> co_revoked_at x = None \<and> co_scopes x = ar_scopes q"

lemma finish_tx_shape: "finish_tx sv c request lease response tx = Some d' \<Longrightarrow> \<exists>t. d' = tx\<lparr>db_idempotency := t\<rparr>"
  by (auto simp: finish_tx_def split: prod.splits sum.splits if_splits)

lemma respond_stored_cases:
  assumes "respond_stored sv c r request lease response tx message d = (w, d')"
  obtains (failed) "d' = d" | (stored) d1 t where "tx = Some d1" "d' = d1\<lparr>db_idempotency := t\<rparr>" "w = writeStoredResponse response"
  using assms by (auto simp: respond_stored_def bind_eq_Some_conv bind_eq_None_conv split: option.splits dest: finish_tx_shape)

lemma begin_shape:
  assumes "beginIdempotentRequest sv c r request d = (res, d1)"
  obtains t where "d1 = d\<lparr>db_idempotency := t\<rparr>"
  using assms by (auto simp: beginIdempotentRequest_def split: prod.splits sum.splits)

lemma deny_tx_shape:
  assumes "deny_tx c q p d = Some d'"
  obtains au where "d' = d\<lparr>db_auth_requests := resolved_requests c ''denied'' q p (db_auth_requests d), db_audit := au\<rparr>"
  using assms by (auto simp: deny_tx_def resolve_request_def decision_audit_def stmt_def add_audit_def resolved_requests_def split: if_splits)

lemma insert_code_shape:
  "insert_code c row d = Some d' \<Longrightarrow>
     d' = d\<lparr>db_auth_codes := db_auth_codes d @ [row]\<rparr> \<and> ac_code_hash row \<notin> ac_code_hash ` set (db_auth_codes d)"
  by (auto simp: insert_code_def stmt_def list_ex_iff split: if_splits)

lemma upsert_consent_shape:
  assumes "upsert_consent c q p d = Some d'"
  shows "\<exists>cs. d' = d\<lparr>db_consents := cs\<rparr> \<and> (\<exists>x. x \<in> set cs \<and> consented q p x)"
proof -
  let ?same = "\<lambda>x. co_tenant_member_uid x = p_MemberUID p \<and> co_application_uid x = ar_application_uid q \<and>
      co_resource_server_uid x = ar_resource_server_uid q"
  let ?renew = "\<lambda>x. x\<lparr>co_scopes := ar_scopes q, co_status := ''active'', co_updated_at := ca_now c, co_revoked_at := None\<rparr>"
  show ?thesis
  proof (cases "list_ex ?same (db_consents d)")
    case True
    then obtain x where x: "x \<in> set (db_consents d)" "?same x" by (auto simp: list_ex_iff)
    then have "?renew x \<in> set (sql_update ?same ?renew (db_consents d))" unfolding sql_update_def by force
    moreover have "consented q p (?renew x)" using x by (simp add: consented_def)
    moreover have "d' = d\<lparr>db_consents := sql_update ?same ?renew (db_consents d)\<rparr>"
      using assms True by (simp add: upsert_consent_def stmt_def Let_def split: if_splits)
    ultimately show ?thesis by blast
  next
    case False
    then have "d' = d\<lparr>db_consents := db_consents d @ [new_consent c q p]\<rparr>"
      using assms by (auto simp: upsert_consent_def stmt_def Let_def split: if_splits)
    moreover have "consented q p (new_consent c q p)" by (simp add: consented_def new_consent_def)
    ultimately show ?thesis by (metis in_set_conv_decomp)
  qed
qed

lemma insert_subject_shape:
  "insert_subject c q p secret d = Some d' \<Longrightarrow>
     \<exists>su. d' = d\<lparr>db_subjects := su\<rparr> \<and>
       (\<exists>x. x \<in> set su \<and> su_application_uid x = ar_application_uid q \<and> su_tenant_member_uid x = p_MemberUID p)"
  by (force simp: insert_subject_def stmt_def list_ex_iff split: if_splits)

lemma approve_tx_shape:
  assumes "approve_tx sv c q s p code secret d = Some d'"
  obtains cs su au where
    "d' = d\<lparr>db_auth_requests := resolved_requests c ''approved'' q p (db_auth_requests d),
            db_auth_codes := db_auth_codes d @ [new_code_row sv c q s p code], db_consents := cs, db_subjects := su, db_audit := au\<rparr>"
    "SessionHash_of sv code \<notin> ac_code_hash ` set (db_auth_codes d)" "\<exists>x. x \<in> set cs \<and> consented q p x"
    "\<exists>x. x \<in> set su \<and> su_application_uid x = ar_application_uid q \<and> su_tenant_member_uid x = p_MemberUID p"
proof -
  from assms obtain d1 d2 d3 d4 where steps: "resolve_request c ''approved'' q p d = Some d1"
      "insert_code c (new_code_row sv c q s p code) d1 = Some d2" "upsert_consent c q p d2 = Some d3"
      "insert_subject c q p secret d3 = Some d4"
    and last: "decision_audit c ''oauth_authorization.approved'' q p (JObj [(''scopes'', JArr (map JStr (ar_scopes q))),
        (''resource_server_uid'', optional_text (ar_resource_server_uid q))]) d4 = Some d'"
    unfolding approve_tx_def bind_eq_Some_conv by blast
  from last have audit: "\<exists>au. d' = d4\<lparr>db_audit := au\<rparr>"
    by (auto simp: decision_audit_def stmt_def add_audit_def split: if_splits)
  have d1: "d1 = d\<lparr>db_auth_requests := resolved_requests c ''approved'' q p (db_auth_requests d)\<rparr>"
    using steps(1) by (auto simp: resolve_request_def stmt_def resolved_requests_def split: if_splits)
  from audit insert_code_shape [OF steps(2)] upsert_consent_shape [OF steps(3)] insert_subject_shape [OF steps(4)]
  show thesis using that by (auto simp: d1 new_code_row_def)
qed

lemma decide_row_frame: "decide_row sv p token (d\<lparr>db_idempotency := t\<rparr>) = decide_row sv p token d"
  by (simp add: decide_row_def active_application_def cong: option.case_cong)

lemma recheck_frame: "recheck_grant sv c t app scopes u (d\<lparr>db_idempotency := i\<rparr>) = recheck_grant sv c t app scopes u d"
proof -
  have "resolveAuthorizationScopes sv c t app raw ri (d\<lparr>db_idempotency := i\<rparr>) = resolveAuthorizationScopes sv c t app raw ri d" for raw ri
    by (rule resolve_frame) simp_all
  then show ?thesis unfolding recheck_grant_def by (simp cong: option.case_cong if_cong)
qed

lemma decide_tx_cases:
  assumes "decide_tx sv c p input request lease r d = (w, d')"
  obtains (kept) t where "d' = d\<lparr>db_idempotency := t\<rparr>"
  | (resolved) q s tx t destination where "decide_row sv p (dc_RequestToken input) d = Some (q, s)" "ar_status q = ''pending''" "ca_now c < ar_expires_at q"
      "dc_Decision input = ''deny'' \<and> deny_tx c q p d = Some tx \<or>
       dc_Decision input \<noteq> ''deny'' \<and> recheck_grant sv c (ar_tenant_uid q) (ar_application_uid q) (ar_scopes q) (ar_resource_server_uid q) d = Some True \<and>
       (\<exists>code secret. RandomToken (ca_rand c ''code'') = Some code \<and> approve_tx sv c q s p (''ca_code_'' @ code) secret d = Some tx \<and>
          oauthCallbackURL sv (ar_redirect_uri q) [(''code'', ''ca_code_'' @ code), (''state'', ar_state q), (''iss'', OAuthIssuer sv)] = Some destination)"
      "d' = tx\<lparr>db_idempotency := t\<rparr>" "w = writeStoredResponse (redirect_response sv destination)"
proof -
  have id: "d = d\<lparr>db_idempotency := db_idempotency d\<rparr>" by simp
  let ?row = "decide_row sv p (dc_RequestToken input) d"
  show thesis
  proof (cases "ca_flt c ''begin transaction'' \<or> ca_flt c ''load authorization request'' \<or> ?row = None \<or>
      (\<exists>q s. ?row = Some (q, s) \<and> (ar_status q \<noteq> ''pending'' \<or> \<not> ca_now c < ar_expires_at q))")
    case True
    then have "d' = d \<or> (\<exists>response message. respond_stored sv c r request lease response (Some d) message d = (w, d'))"
      using assms by (auto simp: decide_tx_def Let_def split: if_splits)
    then have "\<exists>t. d' = d\<lparr>db_idempotency := t\<rparr>" using id by (metis option.inject respond_stored_cases)
    then show ?thesis using kept by blast
  next
    case False
    then obtain q s where row: "?row = Some (q, s)" and live: "ar_status q = ''pending''" "ca_now c < ar_expires_at q"
      and flt: "\<not> (ca_flt c ''begin transaction'' \<or> ca_flt c ''load authorization request'')" by auto
    have conds: "(ar_status q \<noteq> ''pending'' \<or> \<not> ca_now c < ar_expires_at q) = False" using live by simp
    note run = assms [unfolded decide_tx_def Let_def row option.case prod.case if_not_P [OF flt] conds if_False]
    note case_resolved = resolved [OF row live]
    have same: thesis if "d' = d" using that kept [of "db_idempotency d"] by simp
    show ?thesis
    proof (cases "dc_Decision input = ''deny''")
      case True
      note run = run [unfolded if_P [OF True]]
      show ?thesis
      proof (cases "oauthCallbackURL sv (ar_redirect_uri q) [(''error'', ''access_denied''),
          (''error_description'', ''The Tenant Member denied the authorization request.''), (''state'', ar_state q), (''iss'', OAuthIssuer sv)]")
        case None
        then show ?thesis using run same by simp
      next
        case (Some destination)
        from run [unfolded Some option.case] show ?thesis
        proof (cases rule: respond_stored_cases)
          case failed
          then show ?thesis by (rule same)
        next
          case (stored d1 t)
          then show ?thesis using case_resolved [of d1] True by blast
        qed
      qed
    next
      case False
      let ?check = "recheck_grant sv c (ar_tenant_uid q) (ar_application_uid q) (ar_scopes q) (ar_resource_server_uid q) d"
      note run = run [unfolded if_not_P [OF False]]
      consider (failed) "?check = None" | (changed) "?check = Some False" | (ok) "?check = Some True" by (cases ?check) auto
      then show ?thesis
      proof cases
        case failed
        then show ?thesis using run same by simp
      next
        case changed
        from run [unfolded changed option.case bool.case] show ?thesis
          by (cases rule: respond_stored_cases) (auto intro: same kept)
      next
        case ok
        show ?thesis
        proof (cases "\<exists>code secret destination. RandomToken (ca_rand c ''code'') = Some code \<and> RandomToken (ca_rand c ''subject'') = Some secret \<and>
            oauthCallbackURL sv (ar_redirect_uri q) [(''code'', ''ca_code_'' @ code), (''state'', ar_state q), (''iss'', OAuthIssuer sv)] = Some destination")
          case True
          then obtain code secret destination where rand: "RandomToken (ca_rand c ''code'') = Some code" "RandomToken (ca_rand c ''subject'') = Some secret"
            and url: "oauthCallbackURL sv (ar_redirect_uri q) [(''code'', ''ca_code_'' @ code), (''state'', ar_state q), (''iss'', OAuthIssuer sv)] = Some destination"
            by blast
          from run [unfolded ok rand option.case bool.case prod.case url] show ?thesis
          proof (cases rule: respond_stored_cases)
            case failed
            then show ?thesis by (rule same)
          next
            case (stored d1 t)
            then show ?thesis using case_resolved [of d1 destination t] False ok rand url by blast
          qed
        next
          case none: False
          have "d' = d" using run [unfolded ok option.case bool.case] none by (auto split: option.splits)
          then show ?thesis by (rule same)
        qed
      qed
    qed
  qed
qed

lemma decide_cases:
  assumes "decideOAuthAuthorizationRequest sv c body r d = (w, d')"
  obtains (kept) t where "d' = d\<lparr>db_idempotency := t\<rparr>"
  | (denied) input q s t au where "body = Some input" "dc_Decision input = ''deny''"
      "decide_row sv (mustPrincipal r) (dc_RequestToken input) d = Some (q, s)" "ar_status q = ''pending''" "ca_now c < ar_expires_at q"
      "d' = d\<lparr>db_auth_requests := resolved_requests c ''denied'' q (mustPrincipal r) (db_auth_requests d), db_audit := au, db_idempotency := t\<rparr>"
  | (approved) input q s code destination cs su au t where "body = Some input" "dc_Decision input = ''approve''"
      "decide_row sv (mustPrincipal r) (dc_RequestToken input) d = Some (q, s)" "ar_status q = ''pending''" "ca_now c < ar_expires_at q"
      "recheck_grant sv c (ar_tenant_uid q) (ar_application_uid q) (ar_scopes q) (ar_resource_server_uid q) d = Some True"
      "RandomToken (ca_rand c ''code'') = Some code" "SessionHash_of sv (''ca_code_'' @ code) \<notin> ac_code_hash ` set (db_auth_codes d)"
      "d' = d\<lparr>db_auth_requests := resolved_requests c ''approved'' q (mustPrincipal r) (db_auth_requests d),
             db_auth_codes := db_auth_codes d @ [new_code_row sv c q s (mustPrincipal r) (''ca_code_'' @ code)],
             db_consents := cs, db_subjects := su, db_audit := au, db_idempotency := t\<rparr>"
      "\<exists>x. x \<in> set cs \<and> consented q (mustPrincipal r) x"
      "\<exists>x. x \<in> set su \<and> su_application_uid x = ar_application_uid q \<and> su_tenant_member_uid x = p_MemberUID (mustPrincipal r)"
      "oauthCallbackURL sv (ar_redirect_uri q) [(''code'', ''ca_code_'' @ code), (''state'', ar_state q), (''iss'', OAuthIssuer sv)] = Some destination"
      "w = writeStoredResponse (redirect_response sv destination)"
proof -
  let ?p = "mustPrincipal r"
  have same: thesis if "d' = d" using that kept [of "db_idempotency d"] by simp
  show thesis
  proof (cases "\<exists>input. body = Some input \<and> dc_Decision input \<in> {''approve'', ''deny''} \<and>
      40 \<le> length (dc_RequestToken input) \<and> length (dc_RequestToken input) \<le> 256 \<and> hq_header r ''Idempotency-Key'' \<noteq> []")
    case False
    then have "d' = d" using assms by (cases body) (auto simp: decideOAuthAuthorizationRequest_def not_less split: if_splits)
    then show ?thesis by (rule same)
  next
    case True
    then obtain input where body: "body = Some input" and choice: "dc_Decision input \<in> {''approve'', ''deny''}"
      and conds: "(dc_Decision input \<noteq> ''approve'' \<and> dc_Decision input \<noteq> ''deny'' \<or> length (dc_RequestToken input) < 40 \<or>
        length (dc_RequestToken input) > 256) = False" "(hq_header r ''Idempotency-Key'' = []) = False" by auto
    let ?request = "decide_request sv ?p (hq_header r ''Idempotency-Key'') input"
    obtain res d1 where begun: "beginIdempotentRequest sv c r ?request d = (res, d1)" by fastforce
    then obtain i where d1: "d1 = d\<lparr>db_idempotency := i\<rparr>" by (rule begin_shape)
    note run = assms [unfolded decideOAuthAuthorizationRequest_def body option.case conds if_False Let_def begun prod.case]
    show ?thesis
    proof (cases res)
      case (Inl response)
      then have "d' = d\<lparr>db_idempotency := i\<rparr>" using run d1 by simp
      then show ?thesis by (rule kept)
    next
      case (Inr claim)
      from run [unfolded Inr sum.case] show ?thesis
      proof (cases rule: decide_tx_cases)
        case unchanged: (kept t)
        then show ?thesis using d1 kept [of t] by simp
      next
        case (resolved q s tx t destination)
        note row = resolved(1) [unfolded d1 decide_row_frame]
        show ?thesis
        proof (cases "dc_Decision input = ''deny''")
          case True
          with resolved(4) obtain au where "tx = d1\<lparr>db_auth_requests := resolved_requests c ''denied'' q ?p (db_auth_requests d1), db_audit := au\<rparr>"
            by (auto elim: deny_tx_shape)
          then have "d' = d\<lparr>db_auth_requests := resolved_requests c ''denied'' q ?p (db_auth_requests d), db_audit := au, db_idempotency := t\<rparr>"
            using resolved(5) d1 by simp
          then show ?thesis by (rule denied [OF body True row resolved(2,3)])
        next
          case False
          with resolved(4) obtain code secret where issued: "approve_tx sv c q s ?p (''ca_code_'' @ code) secret d1 = Some tx"
            and rest: "recheck_grant sv c (ar_tenant_uid q) (ar_application_uid q) (ar_scopes q) (ar_resource_server_uid q) d1 = Some True"
              "RandomToken (ca_rand c ''code'') = Some code"
              "oauthCallbackURL sv (ar_redirect_uri q) [(''code'', ''ca_code_'' @ code), (''state'', ar_state q), (''iss'', OAuthIssuer sv)] = Some destination"
            by auto
          from issued obtain cs su au where tx: "tx = d1\<lparr>db_auth_requests := resolved_requests c ''approved'' q ?p (db_auth_requests d1),
              db_auth_codes := db_auth_codes d1 @ [new_code_row sv c q s ?p (''ca_code_'' @ code)], db_consents := cs, db_subjects := su, db_audit := au\<rparr>"
            and facts: "SessionHash_of sv (''ca_code_'' @ code) \<notin> ac_code_hash ` set (db_auth_codes d1)" "\<exists>x. x \<in> set cs \<and> consented q ?p x"
              "\<exists>x. x \<in> set su \<and> su_application_uid x = ar_application_uid q \<and> su_tenant_member_uid x = p_MemberUID ?p"
            by (rule approve_tx_shape)
          have d': "d' = d\<lparr>db_auth_requests := resolved_requests c ''approved'' q ?p (db_auth_requests d),
              db_auth_codes := db_auth_codes d @ [new_code_row sv c q s ?p (''ca_code_'' @ code)], db_consents := cs, db_subjects := su, db_audit := au,
              db_idempotency := t\<rparr>" using resolved(5) tx d1 by simp
          have hash: "SessionHash_of sv (''ca_code_'' @ code) \<notin> ac_code_hash ` set (db_auth_codes d)" using facts(1) d1 by simp
          have approve: "dc_Decision input = ''approve''" using choice False by simp
          have still: "recheck_grant sv c (ar_tenant_uid q) (ar_application_uid q) (ar_scopes q) (ar_resource_server_uid q) d = Some True"
            using rest(1) d1 recheck_frame by simp
          show ?thesis by (rule approved [OF body approve row resolved(2,3) still rest(2) hash d' facts(2,3) rest(3) resolved(6)])
        qed
      qed
    qed
  qed
qed


definition demo_deny :: oauthAuthorizationDecisionInput where
  "demo_deny = \<lparr>dc_RequestToken = replicate 40 CHR ''x'', dc_Decision = ''deny''\<rparr>"


end
