(* ===== verification/OAuth_Signing.thy ===== *)
theory OAuth_Signing
  imports Maintenance
begin

text \<open>
  The signing keys of the OAuth server (\<open>internal/api/oauth_signing.go\<close>): creation, rotation and
  publication of keys, and the signing of tokens. RSA is a parameter of the model: \<open>rsa_Generate\<close> draws the
  PKCS8 bytes of a key, \<open>rsa_IsKey\<close> says whether bytes parse as an RSA key, \<open>rsa_Public\<close> gives the modulus
  (big-endian bytes) and exponent, \<open>rsa_Sign\<close> signs a digest.
\<close>

section \<open>Public keys\<close>

record oauthJWK =
  KTY :: string
  Use :: string
  Alg :: string
  KID :: string
  jwk_N :: string
  jwk_E :: string

definition PutUint32 :: "nat \<Rightarrow> byte list" where
  "PutUint32 n = [of_nat (n div 2 ^ 24), of_nat (n div 2 ^ 16), of_nat (n div 2 ^ 8), of_nat n]"

definition BigEndian :: "byte list \<Rightarrow> nat" where
  "BigEndian bs = foldl (\<lambda>acc b. acc * 256 + unat b) 0 bs"

definition firstNonZero :: "byte list \<Rightarrow> nat" where
  "firstNonZero bs =
     (let zeros = takeWhile (\<lambda>b. b = 0) bs in if length zeros = length bs then length bs - 1 else length zeros)"

definition publicJWK :: "string \<Rightarrow> byte list \<times> nat \<Rightarrow> oauthJWK" where
  "publicJWK kid key =
     (let exponent = PutUint32 (snd key) in
      \<lparr>KTY = ''RSA'', Use = ''sig'', Alg = ''RS256'', KID = kid, jwk_N = RawURLEncode (fst key),
       jwk_E = RawURLEncode (drop (firstNonZero exponent) exponent)\<rparr>)"

definition jwk_json :: "oauthJWK \<Rightarrow> json" where
  "jwk_json k = JObj [(''kty'', JStr (KTY k)), (''use'', JStr (Use k)), (''alg'', JStr (Alg k)), (''kid'', JStr (KID k)),
     (''n'', JStr (jwk_N k)), (''e'', JStr (jwk_E k))]"

definition decodeRSAJWK :: "oauthJWK \<Rightarrow> (nat \<times> nat) option" where
  "decodeRSAJWK jwk =
     (case RawURLDecode (jwk_N jwk) of
        None \<Rightarrow> None
      | Some nBytes \<Rightarrow>
          (case RawURLDecode (jwk_E jwk) of
             None \<Rightarrow> None
           | Some eBytes \<Rightarrow>
               if eBytes = [] \<or> length eBytes > 4 then None
               else Some (BigEndian nBytes, BigEndian (replicate (4 - length eBytes) 0 @ eBytes))))"

section \<open>Keys in the database\<close>

definition oauthSigningKeyContext :: "uid \<Rightarrow> byte list" where
  "oauthSigningKeyContext uid = bytes_of (''oauth_signing_keys'' @ [char_of (0 :: nat)] @ uid)"

text \<open>The table's primary key, its unique key identifier and the partial unique index on the active key.\<close>

definition signing_conflict :: "signing_key_row \<Rightarrow> signing_key_row list \<Rightarrow> bool" where
  "signing_conflict row ks =
     list_ex (\<lambda>k. sg_uid k = sg_uid row \<or> sg_kid k = sg_kid row \<or>
                  (sg_status k = ''active'' \<and> sg_status row = ''active'')) ks"

definition insertOAuthSigningKey :: "server \<Rightarrow> call \<Rightarrow> signing_key_row list \<Rightarrow> string + signing_key_row list" where
  "insertOAuthSigningKey sv c ks =
     (case rsa_Generate sv (ca_rand c ''signing key'') of
        None \<Rightarrow> Inl ''generate OAuth signing key''
      | Some privateDER \<Rightarrow>
          let uid = ca_uid c ''signing key''; kid = ''ca_sig_'' @ ca_uid c ''kid'' in
          (case Seal (AEAD_Seal sv) (DataEncryptionKeys sv) (ca_rand c ''signing key nonce'') privateDER
                  (oauthSigningKeyContext uid) of
             Inl _ \<Rightarrow> Inl ''encrypt OAuth signing key''
           | Inr encrypted \<Rightarrow>
               let row = \<lparr>sg_uid = uid, sg_kid = kid, sg_status = ''active'',
                          sg_public_jwk = jwk_json (publicJWK kid (rsa_Public sv privateDER)),
                          sg_private_key = encrypted, sg_created_at = ca_now c, sg_publish_until = None,
                          sg_retired_at = None\<rparr> in
               if ca_flt c ''persist OAuth signing key'' \<or> signing_conflict row ks then Inl ''persist OAuth signing key''
               else Inr (ks @ [row])))"

definition signing_max_age :: "server \<Rightarrow> duration" where
  "signing_max_age sv = (if OAuthSigningKeyMaxAge sv \<le> 0 then 30 * 24 * Hour else OAuthSigningKeyMaxAge sv)"

definition publication_window :: "server \<Rightarrow> duration" where
  "publication_window sv = max (OAuthAccessTokenTTL sv + 5 * Minute) (15 * Minute)"

definition retire_key :: "time \<Rightarrow> signing_key_row \<Rightarrow> signing_key_row" where
  "retire_key until k = k\<lparr>sg_status := ''retiring'', sg_publish_until := Some until\<rparr>"

definition expire_keys :: "time \<Rightarrow> signing_key_row list \<Rightarrow> signing_key_row list" where
  "expire_keys now ks =
     sql_update (\<lambda>k. sg_status k = ''retiring'' \<and> sql_le (sg_publish_until k) now)
       (\<lambda>k. k\<lparr>sg_status := ''retired'', sg_retired_at := Some now\<rparr>) ks"

definition retire_active :: "server \<Rightarrow> time \<Rightarrow> signing_key_row option \<Rightarrow> signing_key_row list \<Rightarrow> signing_key_row list" where
  "retire_active sv now active ks =
     (case active of
        None \<Rightarrow> ks
      | Some a \<Rightarrow> sql_update (\<lambda>k. sg_uid k = sg_uid a \<and> sg_status k = ''active'') (retire_key (now + publication_window sv)) ks)"

definition commit_keys :: "call \<Rightarrow> signing_key_row list \<Rightarrow> db \<Rightarrow> (string + unit) \<times> db" where
  "commit_keys c ks d =
     (if ca_flt c ''commit OAuth signing key'' then (Inl ''commit'', d) else (Inr (), d\<lparr>db_signing_keys := ks\<rparr>))"

definition ensureOAuthSigningKey :: "server \<Rightarrow> call \<Rightarrow> db \<Rightarrow> (string + unit) \<times> db" where
  "ensureOAuthSigningKey sv c d =
     (let ks = db_signing_keys d; active = sql_row (\<lambda>k. sg_status k = ''active'') ks in
      if ca_flt c ''begin OAuth signing-key initialization'' then (Inl ''begin OAuth signing-key initialization'', d)
      else if ca_flt c ''lock OAuth signing-key initialization'' then (Inl ''lock OAuth signing-key initialization'', d)
      else if ca_flt c ''load active OAuth signing key'' then (Inl ''load active OAuth signing key'', d)
      else if (case active of None \<Rightarrow> False | Some k \<Rightarrow> sg_created_at k + signing_max_age sv > ca_now c) then commit_keys c ks d
      else if active \<noteq> None \<and> ca_flt c ''retire OAuth signing key'' then (Inl ''retire OAuth signing key'', d)
      else (case insertOAuthSigningKey sv c (retire_active sv (ca_now c) active ks) of
         Inl e \<Rightarrow> (Inl e, d)
       | Inr ks2 \<Rightarrow>
           if ca_flt c ''expire OAuth signing keys'' then (Inl ''expire OAuth signing keys'', d)
           else commit_keys c (expire_keys (ca_now c) ks2) d))"

definition Initialize :: "server \<Rightarrow> call \<Rightarrow> db option \<Rightarrow> (string + unit) \<times> db option" where
  "Initialize sv c pool =
     (case pool of
        None \<Rightarrow> (Inl ''database is required'', None)
      | Some d \<Rightarrow>
          if DataEncryptionKeys sv = None then (Inl ''data encryption keyring is required'', pool)
          else if OAuthIssuer sv = [] then (Inl ''OAuth issuer is required'', pool)
          else (case ensureOAuthSigningKey sv c d of
                  (Inl e, d') \<Rightarrow> (Inl e, Some d')
                | (Inr _, d') \<Rightarrow> (case ensureMaintenanceJob c d' of (res, d'') \<Rightarrow> (res, Some d''))))"

section \<open>Signing\<close>

definition activeOAuthSigningKey :: "server \<Rightarrow> call \<Rightarrow> db \<Rightarrow> string + string \<times> byte list" where
  "activeOAuthSigningKey sv c d =
     (if ca_flt c ''load OAuth signing key'' then Inl ''load OAuth signing key''
      else case sql_row (\<lambda>k. sg_status k = ''active'') (db_signing_keys d) of
        None \<Rightarrow> Inl ''load OAuth signing key''
      | Some k \<Rightarrow>
          (case Open (AEAD_Open sv) (DataEncryptionKeys sv) (sg_private_key k) (oauthSigningKeyContext (sg_uid k)) of
             Inl _ \<Rightarrow> Inl ''decrypt OAuth signing key''
           | Inr plaintext \<Rightarrow>
               if \<not> rsa_IsKey sv plaintext then Inl ''parse OAuth signing key''
               else Inr (sg_kid k, plaintext)))"

definition jwt_header :: "string \<Rightarrow> json" where
  "jwt_header kid = JObj [(''alg'', JStr ''RS256''), (''kid'', JStr kid), (''typ'', JStr ''JWT'')]"

definition signOAuthJWT :: "server \<Rightarrow> call \<Rightarrow> json \<Rightarrow> db \<Rightarrow> string + string" where
  "signOAuthJWT sv c claims d =
     (case activeOAuthSigningKey sv c d of
        Inl e \<Rightarrow> Inl e
      | Inr (kid, privateKey) \<Rightarrow>
          let encodedHeader = RawURLEncode (bytes_of (json_text sv (jwt_header kid)));
              encodedPayload = RawURLEncode (bytes_of (json_text sv claims));
              signingInput = encodedHeader @ ''.'' @ encodedPayload in
          (case rsa_Sign sv privateKey (Sum256 sv (bytes_of signingInput)) of
             None \<Rightarrow> Inl ''sign OAuth token''
           | Some signature \<Rightarrow> Inr (signingInput @ ''.'' @ RawURLEncode signature)))"

section \<open>Publication\<close>

definition published :: "time \<Rightarrow> signing_key_row \<Rightarrow> bool" where
  "published now k \<longleftrightarrow> sg_status k = ''active'' \<or>
     sg_status k = ''retiring'' \<and> (case sg_publish_until k of None \<Rightarrow> False | Some t \<Rightarrow> now < t)"

definition oauthJWKS :: "server \<Rightarrow> call \<Rightarrow> handler" where
  "oauthJWKS sv c r d =
     (if ca_flt c ''load signing keys'' then
        (fail r 503 ''signing_keys_unavailable'' ''signing keys are temporarily unavailable'', d)
      else (with_header ''Cache-Control'' ''public, max-age=300'' (writeJSON 200 (JObj [(''keys'',
              JArr (map sg_public_jwk (sort_key (\<lambda>k. - sg_created_at k) (filter (published (ca_now c)) (db_signing_keys d)))))])), d))"

definition oidcDiscovery :: "server \<Rightarrow> handler" where
  "oidcDiscovery sv r d =
     (let issuer = OAuthIssuer sv; strings = (\<lambda>xs. JArr (map JStr xs)) in
      (with_header ''Cache-Control'' ''public, max-age=300'' (writeJSON 200 (JObj [
        (''issuer'', JStr issuer),
        (''authorization_endpoint'', JStr (issuer @ ''/oauth/authorize'')),
        (''token_endpoint'', JStr (issuer @ ''/oauth/token'')),
        (''userinfo_endpoint'', JStr (issuer @ ''/oauth/userinfo'')),
        (''jwks_uri'', JStr (issuer @ ''/oauth/jwks'')),
        (''revocation_endpoint'', JStr (issuer @ ''/oauth/revoke'')),
        (''response_types_supported'', strings [''code'']),
        (''grant_types_supported'', strings [''authorization_code'']),
        (''subject_types_supported'', strings [''pairwise'']),
        (''id_token_signing_alg_values_supported'', strings [''RS256'']),
        (''scopes_supported'', strings [''openid'', ''profile'', ''email'']),
        (''code_challenge_methods_supported'', strings [''S256'']),
        (''token_endpoint_auth_methods_supported'', strings [''none'', ''client_secret_basic'']),
        (''claims_supported'', strings [''iss'', ''sub'', ''aud'', ''exp'', ''iat'', ''auth_time'', ''nonce'', ''name'', ''email'',
           ''email_verified'', ''tenant_uid'']),
        (''request_parameter_supported'', JBool False),
        (''request_uri_parameter_supported'', JBool False),
        (''require_request_uri_registration'', JBool False),
        (''authorization_response_iss_parameter_supported'', JBool True)])), d))"


section \<open>Round trip of public keys\<close>

lemma BigEndian_zeros: "BigEndian (replicate k 0 @ bs) = BigEndian bs"
proof -
  have "foldl (\<lambda>acc b. acc * 256 + unat b) 0 (replicate k (0 :: byte)) = 0" by (induction k) simp_all
  then show ?thesis by (simp add: BigEndian_def)
qed

lemma split4: "(((n div 2 ^ 24 mod 256 * 256 + n div 2 ^ 16 mod 256) * 256 + n div 2 ^ 8 mod 256) * 256 + n mod 256) = n"
  if "n < 2 ^ 32" for n :: nat
proof -
  have eqs: "n div 2 ^ 16 = n div 2 ^ 8 div 256" "n div 2 ^ 24 = n div 2 ^ 16 div 256" "n div 2 ^ 8 = n div 256"
    by (simp_all add: div_mult2_eq [symmetric])
  have "n div 2 ^ 24 < 256" using that by (simp add: less_mult_imp_div_less)
  then have "n div 2 ^ 24 mod 256 = n div 2 ^ 16 div 256" using eqs(2) by simp
  then have "n div 2 ^ 24 mod 256 * 256 + n div 2 ^ 16 mod 256 = n div 2 ^ 8 div 256"
    using eqs(1) by (simp only: div_mult_mod_eq)
  then have "(n div 2 ^ 24 mod 256 * 256 + n div 2 ^ 16 mod 256) * 256 + n div 2 ^ 8 mod 256 = n div 256"
    using eqs(3) by (simp only: div_mult_mod_eq)
  then show ?thesis by (simp only: div_mult_mod_eq)
qed

lemma BigEndian_PutUint32: "n < 2 ^ 32 \<Longrightarrow> BigEndian (PutUint32 n) = n"
  using split4 [of n] by (simp add: BigEndian_def PutUint32_def unat_of_nat)

lemma takeWhile_zeros: "takeWhile (\<lambda>b. b = 0) bs = replicate (length (takeWhile (\<lambda>b. b = (0 :: byte)) bs)) 0"
  by (induction bs) simp_all

lemma firstNonZero_prefix: "bs \<noteq> [] \<Longrightarrow> firstNonZero bs < length bs \<and> take (firstNonZero bs) bs = replicate (firstNonZero bs) 0"
proof -
  assume "bs \<noteq> []"
  let ?z = "takeWhile (\<lambda>b. b = (0 :: byte)) bs"
  have z: "take n bs = replicate n 0" if "n \<le> length ?z" for n
  proof -
    have "take n bs = take n ?z" using that by (metis min.absorb1 take_take takeWhile_eq_take)
    then show ?thesis using that by (subst (asm) takeWhile_zeros) simp
  qed
  have "length ?z \<le> length bs" by (rule length_takeWhile_le)
  with \<open>bs \<noteq> []\<close> show ?thesis by (auto simp: firstNonZero_def Let_def z intro!: z)
qed

lemma trimmed_exponent:
  assumes "e < 2 ^ 32"
  defines "bs \<equiv> drop (firstNonZero (PutUint32 e)) (PutUint32 e)"
  shows "bs \<noteq> [] \<and> length bs \<le> 4 \<and> BigEndian (replicate (4 - length bs) 0 @ bs) = e"
proof -
  have len: "length (PutUint32 e) = 4" by (simp add: PutUint32_def)
  then have "PutUint32 e \<noteq> []" by auto
  note first = firstNonZero_prefix [OF this]
  have "BigEndian bs = BigEndian (replicate (firstNonZero (PutUint32 e)) 0 @ bs)" by (simp add: BigEndian_zeros)
  also have "\<dots> = BigEndian (PutUint32 e)" using first unfolding bs_def by (metis append_take_drop_id)
  also have "\<dots> = e" using assms(1) by (rule BigEndian_PutUint32)
  finally show ?thesis using first len by (simp add: bs_def BigEndian_zeros)
qed

text \<open>Lemma (jwk_round_trip): the published form of a key decodes to exactly that key: a verifier that reads the JWK recovers the
  modulus and, although leading zero bytes of the exponent are dropped, the exponent.\<close>

theorem jwk_round_trip:
  assumes "e < 2 ^ 32"
  shows "decodeRSAJWK (publicJWK kid (n, e)) = Some (BigEndian n, e) \<and>
    set (jwk_N (publicJWK kid (n, e)) @ jwk_E (publicJWK kid (n, e))) \<subseteq> set url_alphabet"
  using trimmed_exponent [OF assms] RawURLEncode_chars
  by (simp add: decodeRSAJWK_def publicJWK_def Let_def RawURLDecode_Encode BigEndian_zeros)

theorem jwk_round_trip_witness:
  "(65537 :: nat) < 2 ^ 32 \<and> decodeRSAJWK (publicJWK ''k'' ([1, 2, 3], 65537)) = Some (BigEndian [1, 2, 3], 65537)"
  using jwk_round_trip [of 65537 "''k''" "[1, 2, 3]"] by simp

section \<open>Rotation\<close>

lemma publication_window_ge:
  "15 * Minute \<le> publication_window sv" "durationOr (OAuthAccessTokenTTL sv) (10 * Minute) < publication_window sv"
  by (auto simp: publication_window_def durationOr_def time_defs)

lemma insert_shape:
  assumes "insertOAuthSigningKey sv c ks = Inr ks'"
  obtains row der enc where "ks' = ks @ [row]" "\<not> signing_conflict row ks" "sg_status row = ''active''" "sg_created_at row = ca_now c"
    "rsa_Generate sv (ca_rand c ''signing key'') = Some der"
    "Seal (AEAD_Seal sv) (DataEncryptionKeys sv) (ca_rand c ''signing key nonce'') der (oauthSigningKeyContext (sg_uid row)) = Inr enc"
    "sg_private_key row = enc" "sg_public_jwk row = jwk_json (publicJWK (sg_kid row) (rsa_Public sv der))"
  using assms unfolding insertOAuthSigningKey_def Let_def
  by (auto split: option.splits sum.splits if_splits)

text \<open>What a run of \<open>ensureOAuthSigningKey\<close> does to the table: nothing, or the retirement of the active key, the
  insertion of a new one and the expiry of unpublished ones.\<close>

lemma ensure_cases:
  assumes "ensureOAuthSigningKey sv c d = (res, d')"
  obtains (kept) "d' = d" "res = Inr () \<Longrightarrow> \<exists>k. sql_row (\<lambda>k. sg_status k = ''active'') (db_signing_keys d) = Some k \<and>
      ca_now c < sg_created_at k + signing_max_age sv"
  | (rotated) active ks2 where "res = Inr ()" "active = sql_row (\<lambda>k. sg_status k = ''active'') (db_signing_keys d)"
      "insertOAuthSigningKey sv c (retire_active sv (ca_now c) active (db_signing_keys d)) = Inr ks2"
      "d' = d\<lparr>db_signing_keys := expire_keys (ca_now c) ks2\<rparr>"
proof -
  define active where "active = sql_row (\<lambda>k. sg_status k = ''active'') (db_signing_keys d)"
  let ?young = "case active of None \<Rightarrow> False | Some k \<Rightarrow> sg_created_at k + signing_max_age sv > ca_now c"
  note run = assms [unfolded ensureOAuthSigningKey_def Let_def, folded active_def]
  show thesis
  proof (cases "ca_flt c ''begin OAuth signing-key initialization'' \<or> ca_flt c ''lock OAuth signing-key initialization'' \<or>
      ca_flt c ''load active OAuth signing key''")
    case True
    then have "d' = d \<and> res \<noteq> Inr ()" using run by (elim disjE) (auto split: if_splits)
    then show ?thesis using kept by blast
  next
    case False
    note run = run [simplified False [simplified] if_False]
    show ?thesis
    proof (cases ?young)
      case True
      then have "d' = d" using run by (auto simp: commit_keys_def split: if_splits)
      moreover from True have "\<exists>k. active = Some k \<and> ca_now c < sg_created_at k + signing_max_age sv" by (cases active) auto
      ultimately show ?thesis using kept unfolding active_def by blast
    next
      case False
      note run = run [unfolded if_not_P [OF False]]
      show ?thesis
      proof (cases "insertOAuthSigningKey sv c (retire_active sv (ca_now c) active (db_signing_keys d))")
        case (Inl e)
        then have "d' = d \<and> res \<noteq> Inr ()" using run by (auto split: if_splits)
        then show ?thesis using kept by blast
      next
        case (Inr ks2)
        then consider "d' = d \<and> res \<noteq> Inr ()" | "res = Inr ()" "d' = d\<lparr>db_signing_keys := expire_keys (ca_now c) ks2\<rparr>"
          using run by (auto simp: commit_keys_def split: if_splits)
        then show ?thesis using kept rotated [OF _ active_def Inr] by cases blast+
      qed
    qed
  qed
qed


definition active_keys :: "signing_key_row list \<Rightarrow> signing_key_row list" where
  "active_keys ks = filter (\<lambda>k. sg_status k = ''active'') ks"

text \<open>The table's constraints: unique identifiers, at most one active key, a publication limit on every key that is
  being retired.\<close>

definition signing_ok :: "signing_key_row list \<Rightarrow> bool" where
  "signing_ok ks \<longleftrightarrow> distinct (map sg_uid ks) \<and> distinct (map sg_kid ks) \<and> length (active_keys ks) \<le> 1 \<and>
     list_all (\<lambda>k. sg_status k = ''retiring'' \<longrightarrow> sg_publish_until k \<noteq> None) ks"

lemma update_keeps_ids:
  "map sg_uid (retire_active sv now a ks) = map sg_uid ks" "map sg_kid (retire_active sv now a ks) = map sg_kid ks"
  "map sg_uid (expire_keys now ks) = map sg_uid ks" "map sg_kid (expire_keys now ks) = map sg_kid ks"
  by (simp_all add: retire_active_def expire_keys_def retire_key_def split: option.splits)

lemma active_expire: "active_keys (expire_keys now ks) = active_keys ks"
  by (induction ks) (simp_all add: active_keys_def expire_keys_def)

lemma retire_none_active:
  assumes "signing_ok ks" and "a = sql_row (\<lambda>k. sg_status k = ''active'') ks"
  shows "active_keys (retire_active sv now a ks) = []"
proof (cases a)
  case None
  with assms(2) have "\<forall>k \<in> set ks. sg_status k \<noteq> ''active''" by (simp add: sql_row_None_iff [symmetric])
  with None show ?thesis by (simp add: retire_active_def active_keys_def filter_empty_conv)
next
  case (Some k)
  with assms(2) have k: "k \<in> set (active_keys ks)" using sql_row_SomeD [of _ ks k] by (auto simp: active_keys_def)
  have uids: "sg_uid k' = sg_uid k" if "k' \<in> set ks" "sg_status k' = ''active''" for k'
  proof -
    have "k' \<in> set (active_keys ks)" using that by (simp add: active_keys_def)
    moreover have "length (active_keys ks) \<le> 1" using assms(1) by (simp add: signing_ok_def)
    ultimately show ?thesis using k by (cases "active_keys ks") auto
  qed
  have "sg_status k' \<noteq> ''active''" if "k' \<in> set (retire_active sv now a ks)" for k'
    using that uids by (auto simp: retire_active_def Some set_sql_update retire_key_def split: if_splits)
  then show ?thesis by (simp add: active_keys_def filter_empty_conv)
qed

text \<open>Lemma (one_active_signing_key): whatever fails, an initialisation leaves a table with at most one active key and unique
  identifiers, and a failed one leaves it as it was. When it succeeds there is exactly one active key, younger than
  the configured maximum age (30 days by default), and every key that was there before is still there.\<close>

theorem one_active_signing_key:
  assumes "signing_ok (db_signing_keys d)" and "ensureOAuthSigningKey sv c d = (res, d')"
  shows "signing_ok (db_signing_keys d') \<and>
    (case res of
       Inl e \<Rightarrow> d' = d
     | Inr _ \<Rightarrow> (\<exists>k. active_keys (db_signing_keys d') = [k] \<and> ca_now c < sg_created_at k + signing_max_age sv) \<and>
         set (map sg_kid (db_signing_keys d)) \<subseteq> set (map sg_kid (db_signing_keys d')))"
  using assms(2)
proof (cases rule: ensure_cases)
  case kept
  have "\<exists>k. active_keys (db_signing_keys d) = [k] \<and> ca_now c < sg_created_at k + signing_max_age sv" if "res = Inr ()"
  proof -
    from kept(2) [OF that] obtain k where k: "sql_row (\<lambda>k. sg_status k = ''active'') (db_signing_keys d) = Some k"
      "ca_now c < sg_created_at k + signing_max_age sv" by blast
    then have "k \<in> set (active_keys (db_signing_keys d))" using sql_row_SomeD [OF k(1)] by (simp add: active_keys_def)
    moreover have "length (active_keys (db_signing_keys d)) \<le> 1" using assms(1) by (simp add: signing_ok_def)
    ultimately have "active_keys (db_signing_keys d) = [k]" by (cases "active_keys (db_signing_keys d)") auto
    with k(2) show ?thesis by blast
  qed
  with kept(1) assms(1) show ?thesis by (cases res) auto
next
  case (rotated active ks2)
  let ?ks1 = "retire_active sv (ca_now c) active (db_signing_keys d)"
  from rotated(3) obtain row where row: "ks2 = ?ks1 @ [row]" "\<not> signing_conflict row ?ks1" "sg_status row = ''active''"
    "sg_created_at row = ca_now c" by (rule insert_shape)
  have none: "active_keys ?ks1 = []" using assms(1) rotated(2) by (rule retire_none_active)
  have fresh: "sg_uid row \<notin> set (map sg_uid (db_signing_keys d))" "sg_kid row \<notin> set (map sg_kid (db_signing_keys d))"
    using row(2) unfolding update_keeps_ids(1,2) [of sv "ca_now c" active "db_signing_keys d", symmetric]
    by (auto simp: signing_conflict_def list_ex_iff)
  have keep: "list_all (\<lambda>k. sg_status k = ''retiring'' \<longrightarrow> sg_publish_until k \<noteq> None) (expire_keys (ca_now c) ks2)"
    using assms(1) unfolding expire_keys_def row(1)
    by (auto simp: signing_ok_def list_all_iff retire_active_def retire_key_def set_sql_update row(3)
        split: option.splits if_splits)
  have act: "active_keys (expire_keys (ca_now c) ks2) = [row]"
    unfolding active_expire using none row(1,3) by (simp add: active_keys_def)
  have "0 < signing_max_age sv" by (simp add: signing_max_age_def time_defs)
  then show ?thesis
    using assms(1) fresh act keep rotated(1,4) row(4) unfolding signing_ok_def
    by (simp add: update_keeps_ids row(1) subset_insertI)
qed

text \<open>Runs: initialisations by any replica, at the current time, and the passing of time.\<close>

inductive key_step :: "server \<Rightarrow> time \<times> db \<Rightarrow> time \<times> db \<Rightarrow> bool" for sv where
  tick: "t \<le> t' \<Longrightarrow> key_step sv (t, d) (t', d)"
| ensure: "ca_now c = t \<Longrightarrow> ensureOAuthSigningKey sv c d = (res, d') \<Longrightarrow> key_step sv (t, d) (t, d')"

inductive_cases key_stepE: "key_step sv s s'"

text \<open>The published part of a key that was active at a given time, later on.\<close>

definition still_published :: "server \<Rightarrow> time \<Rightarrow> signing_key_row \<Rightarrow> time \<times> db \<Rightarrow> bool" where
  "still_published sv t k s \<longleftrightarrow>
     t + publication_window sv \<le> fst s \<or>
     (\<exists>k' \<in> set (db_signing_keys (snd s)). sg_kid k' = sg_kid k \<and> sg_public_jwk k' = sg_public_jwk k \<and>
        (sg_status k' = ''active'' \<or>
         sg_status k' = ''retiring'' \<and> (\<exists>u. sg_publish_until k' = Some u \<and> t + publication_window sv \<le> u)))"

lemma ensure_still_published:
  assumes "ensureOAuthSigningKey sv c d = (res, d')" and "t \<le> ca_now c" and "still_published sv t k (ca_now c, d)"
  shows "still_published sv t k (ca_now c, d')"
  using assms(1)
proof (cases rule: ensure_cases)
  case (rotated active ks2)
  show ?thesis
  proof (cases "t + publication_window sv \<le> ca_now c")
    case False
    with assms(3) obtain k' where k': "k' \<in> set (db_signing_keys d)" "sg_kid k' = sg_kid k" "sg_public_jwk k' = sg_public_jwk k"
      and st: "sg_status k' = ''active'' \<or> sg_status k' = ''retiring'' \<and> (\<exists>u. sg_publish_until k' = Some u \<and> t + publication_window sv \<le> u)"
      by (auto simp: still_published_def)
    let ?r = "\<lambda>k. case active of None \<Rightarrow> k
        | Some a \<Rightarrow> if sg_uid k = sg_uid a \<and> sg_status k = ''active'' then retire_key (ca_now c + publication_window sv) k else k"
    have in1: "?r k' \<in> set (retire_active sv (ca_now c) active (db_signing_keys d))"
      using k'(1) by (auto simp: retire_active_def set_sql_update split: option.splits)
    have st1: "sg_kid (?r k') = sg_kid k" "sg_public_jwk (?r k') = sg_public_jwk k"
      "sg_status (?r k') = ''active'' \<or> sg_status (?r k') = ''retiring'' \<and> (\<exists>u. sg_publish_until (?r k') = Some u \<and> t + publication_window sv \<le> u)"
      using k' st assms(2) by (auto simp: retire_key_def split: option.splits)
    from rotated(3) obtain row where row: "ks2 = retire_active sv (ca_now c) active (db_signing_keys d) @ [row]" by (rule insert_shape)
    have not_expired: "\<not> (sg_status (?r k') = ''retiring'' \<and> sql_le (sg_publish_until (?r k')) (ca_now c))"
      using st1(3) False by auto
    have "?r k' \<in> set (expire_keys (ca_now c) ks2)"
      unfolding expire_keys_def set_sql_update row using in1 not_expired by (intro image_eqI [of _ _ "?r k'"]) auto
    then show ?thesis using st1 rotated(4) by (auto simp: still_published_def)
  qed (simp add: still_published_def)
qed (use assms(3) in simp)

lemma run_still_published:
  assumes "(key_step sv)\<^sup>*\<^sup>* s s'" and "t \<le> fst s" and "still_published sv t k s"
  shows "t \<le> fst s' \<and> still_published sv t k s'"
  using assms
proof (induction rule: rtranclp_induct)
  case (step s' s'')
  then have IH: "t \<le> fst s'" "still_published sv t k s'" by auto
  from step.hyps(2) show ?case
  proof (cases rule: key_step.cases)
    case (tick t1 t2 d)
    with IH show ?thesis by (auto simp: still_published_def)
  next
    case (ensure c t1 d res d')
    with IH show ?thesis using ensure_still_published [of sv c d res d' t k] by auto
  qed
qed simp


section \<open>Signing with the published key\<close>

text \<open>What the code relies on of the RSA package: generated keys are keys.\<close>

definition rsa_sound :: "server \<Rightarrow> bool" where
  "rsa_sound sv \<longleftrightarrow> (\<forall>rnd der. rsa_Generate sv rnd = Some der \<longrightarrow> rsa_IsKey sv der)"

text \<open>A row whose private key can be read and belongs to its public key.\<close>

definition key_usable :: "server \<Rightarrow> signing_key_row \<Rightarrow> bool" where
  "key_usable sv k \<longleftrightarrow>
     (\<exists>der. Open (AEAD_Open sv) (DataEncryptionKeys sv) (sg_private_key k) (oauthSigningKeyContext (sg_uid k)) = Inr der \<and>
        rsa_IsKey sv der \<and> sg_public_jwk k = jwk_json (publicJWK (sg_kid k) (rsa_Public sv der)))"

lemma sealed_key_usable:
  assumes "aead_correct (AEAD_Seal sv) (AEAD_Open sv)" and "rsa_sound sv"
    and "DataEncryptionKeys sv = Some ring" and "keyring_ok ring"
    and "insertOAuthSigningKey sv c ks = Inr ks'" and "list_all (key_usable sv) ks"
  shows "list_all (key_usable sv) ks'"
proof -
  from assms(5) obtain row der enc where row: "ks' = ks @ [row]" "rsa_Generate sv (ca_rand c ''signing key'') = Some der"
    "Seal (AEAD_Seal sv) (DataEncryptionKeys sv) (ca_rand c ''signing key nonce'') der (oauthSigningKeyContext (sg_uid row)) = Inr enc"
    "sg_private_key row = enc" "sg_public_jwk row = jwk_json (publicJWK (sg_kid row) (rsa_Public sv der))"
    by (rule insert_shape)
  obtain q where q: "ca_rand c ''signing key nonce'' = Some q"
    using row(3) assms(3) by (auto simp: Seal_def rand_Read_def split: option.splits if_splits sum.splits)
  obtain key where key: "keys ring (activeVersion ring) = Some key" using assms(4) by (auto simp: keyring_ok_def)
  have "Open (AEAD_Open sv) (DataEncryptionKeys sv) enc (oauthSigningKeyContext (sg_uid row)) = Inr der"
    using row(3) Open_sealed [OF assms(1,4) key, of q der "oauthSigningKeyContext (sg_uid row)"] key
    by (auto simp: assms(3) q Seal_ok [OF assms(4)] simp del: upt_Suc)
  then have "key_usable sv row" using row assms(2) by (auto simp: key_usable_def rsa_sound_def)
  with row(1) assms(6) show ?thesis by simp
qed

lemma usable_update:
  "list_all (key_usable sv) ks \<Longrightarrow> list_all (key_usable sv) (retire_active sv now a ks)"
  "list_all (key_usable sv) ks \<Longrightarrow> list_all (key_usable sv) (expire_keys now ks)"
  by (auto simp: list_all_iff retire_active_def expire_keys_def set_sql_update key_usable_def retire_key_def
      split: option.splits)

text \<open>Lemma (signed_with_published_key): starting from a table whose keys can be read, every run of the initialisation keeps that so,
  and a token signed afterwards has three base64url parts: the header naming the active key, the claims, and
  the signature of exactly the first two under the private key whose public half is the one stored, and
  published, under that key identifier. (AES-GCM opens what it sealed; generated RSA keys parse.)\<close>

theorem signed_with_published_key:
  assumes "aead_correct (AEAD_Seal sv) (AEAD_Open sv)" and "rsa_sound sv"
    and "DataEncryptionKeys sv = Some ring" and "keyring_ok ring"
    and "list_all (key_usable sv) (db_signing_keys d)"
    and "ensureOAuthSigningKey sv c d = (res, d')"
    and "signOAuthJWT sv c' claims d' = Inr token"
  shows "list_all (key_usable sv) (db_signing_keys d') \<and>
    (\<exists>k der h p s. k \<in> set (db_signing_keys d') \<and> published (ca_now c') k \<and>
       sg_public_jwk k = jwk_json (publicJWK (sg_kid k) (rsa_Public sv der)) \<and>
       token = h @ ''.'' @ p @ ''.'' @ RawURLEncode s \<and>
       RawURLDecode h = Some (bytes_of (json_text sv (jwt_header (sg_kid k)))) \<and>
       RawURLDecode p = Some (bytes_of (json_text sv claims)) \<and>
       rsa_Sign sv der (Sum256 sv (bytes_of (h @ ''.'' @ p))) = Some s)"
proof -
  have usable: "list_all (key_usable sv) (db_signing_keys d')"
    using assms(6)
  proof (cases rule: ensure_cases)
    case (rotated active ks2)
    then show ?thesis
      using sealed_key_usable [OF assms(1-4) rotated(3)] usable_update assms(5) by simp
  qed (use assms(5) in simp)
  from assms(7) obtain kid der s where act: "activeOAuthSigningKey sv c' d' = Inr (kid, der)"
    and s: "rsa_Sign sv der (Sum256 sv (bytes_of (RawURLEncode (bytes_of (json_text sv (jwt_header kid))) @ ''.'' @
        RawURLEncode (bytes_of (json_text sv claims))))) = Some s"
    and tok: "token = (RawURLEncode (bytes_of (json_text sv (jwt_header kid))) @ ''.'' @
        RawURLEncode (bytes_of (json_text sv claims))) @ ''.'' @ RawURLEncode s"
    unfolding signOAuthJWT_def Let_def by (auto split: sum.splits option.splits)
  from act obtain k where k: "sql_row (\<lambda>k. sg_status k = ''active'') (db_signing_keys d') = Some k" "sg_kid k = kid"
    "Open (AEAD_Open sv) (DataEncryptionKeys sv) (sg_private_key k) (oauthSigningKeyContext (sg_uid k)) = Inr der"
    unfolding activeOAuthSigningKey_def by (auto split: if_splits option.splits sum.splits)
  note row = sql_row_SomeD [OF k(1)]
  have "sg_public_jwk k = jwk_json (publicJWK (sg_kid k) (rsa_Public sv der))"
    using usable row k(3) by (auto simp: list_all_iff key_usable_def)
  then show ?thesis using usable row k(2) s tok
    by (intro conjI exI [of _ k] exI [of _ der]) (auto simp: published_def RawURLDecode_Encode intro!: exI)
qed

section \<open>Examples\<close>

lemma demo_rsa_sound: "rsa_sound demo_server"
  by (simp add: rsa_sound_def demo_server_def)

lemma demo_aead: "aead_correct (AEAD_Seal demo_server) (AEAD_Open demo_server)"
  by (simp add: demo_server_def demo_aead_correct)

lemma demo_ring: "DataEncryptionKeys demo_server = Some \<lparr>activeVersion = fst (hd demo_keys), keys = map_of demo_keys\<rparr>"
  by (simp add: demo_server_def)

lemma demo_insert: "\<exists>row. insertOAuthSigningKey demo_server demo_call [] = Inr [row]"
proof -
  have gen: "rsa_Generate demo_server x = Some [1, 2, 3]" for x by (simp add: demo_server_def)
  have flt: "ca_flt demo_call = no_faults" by (simp add: demo_call_def)
  obtain q where q: "ca_rand demo_call ''signing key nonce'' = Some q" by (simp add: demo_call_def)
  show ?thesis
    by (simp add: insertOAuthSigningKey_def Let_def gen flt q demo_ring Seal_ok [OF demo_keyring_ok] signing_conflict_def
        del: upt_Suc)
qed

text \<open>The first initialisation creates a key, and the key signs.\<close>

lemma demo_first_key:
  obtains d' row where "ensureOAuthSigningKey demo_server demo_call empty_db = (Inr (), d')"
    "db_signing_keys d' = [row]" "sg_status row = ''active''" "key_usable demo_server row"
proof -
  from demo_insert obtain row where row: "insertOAuthSigningKey demo_server demo_call [] = Inr [row]" by blast
  then have act: "sg_status row = ''active''" by (rule insert_shape) simp
  have use: "key_usable demo_server row"
    using sealed_key_usable [OF demo_aead demo_rsa_sound demo_ring demo_keyring_ok row] by simp
  have flt: "ca_flt demo_call = no_faults" and none: "db_signing_keys empty_db = []" by (simp_all add: demo_call_def empty_db_def)
  have "ensureOAuthSigningKey demo_server demo_call empty_db =
      (Inr (), empty_db\<lparr>db_signing_keys := expire_keys (ca_now demo_call) [row]\<rparr>)"
    by (simp add: ensureOAuthSigningKey_def none flt retire_active_def row commit_keys_def)
  moreover have "expire_keys (ca_now demo_call) [row] = [row]" by (simp add: expire_keys_def act)
  ultimately have "ensureOAuthSigningKey demo_server demo_call empty_db = (Inr (), empty_db\<lparr>db_signing_keys := [row]\<rparr>)" by simp
  then show ?thesis by (rule that [of _ row]) (simp_all add: act use)
qed

theorem one_active_signing_key_witness:
  "\<exists>d' k. signing_ok (db_signing_keys empty_db) \<and> ensureOAuthSigningKey demo_server demo_call empty_db = (Inr (), d') \<and>
     signing_ok (db_signing_keys d') \<and> active_keys (db_signing_keys d') = [k]"
proof -
  obtain d' row where run: "ensureOAuthSigningKey demo_server demo_call empty_db = (Inr (), d')" by (rule demo_first_key)
  have "signing_ok (db_signing_keys empty_db)" by (simp add: signing_ok_def empty_db_def active_keys_def)
  from one_active_signing_key [OF this run] this run show ?thesis by auto
qed


theorem signed_with_published_key_witness:
  "\<exists>d' token h p s. ensureOAuthSigningKey demo_server demo_call empty_db = (Inr (), d') \<and>
     signOAuthJWT demo_server demo_call (JObj []) d' = Inr token \<and> token = h @ ''.'' @ p @ ''.'' @ RawURLEncode s"
proof -
  obtain d' row where run: "ensureOAuthSigningKey demo_server demo_call empty_db = (Inr (), d')"
    and row: "db_signing_keys d' = [row]" "sg_status row = ''active''" "key_usable demo_server row" by (rule demo_first_key)
  have "ca_flt demo_call = no_faults" by (simp add: demo_call_def)
  with row obtain der where "activeOAuthSigningKey demo_server demo_call d' = Inr (sg_kid row, der)"
    by (auto simp: activeOAuthSigningKey_def key_usable_def)
  moreover have "rsa_Sign demo_server der x = Some [9]" for der x by (simp add: demo_server_def)
  ultimately obtain token where tok: "signOAuthJWT demo_server demo_call (JObj []) d' = Inr token"
    by (simp add: signOAuthJWT_def Let_def)
  from signed_with_published_key [OF demo_aead demo_rsa_sound demo_ring demo_keyring_ok _ run tok] run tok
  show ?thesis by (auto simp: empty_db_def)
qed

end
