(* ===== verification/OAuth_Token.thy ===== *)
theory OAuth_Token
  imports OAuth_Authorize OAuth_Signing
begin

text \<open>
  The back half of the authorization-code flow (\<open>internal/api/oauth_authorization.go\<close>): client
  authentication, the token endpoint, the userinfo and revocation endpoints, and the withdrawal of consent.
\<close>

section \<open>Form parameters\<close>

type_synonym form = "(string \<times> string list) list"

definition parseOAuthForm :: "server \<Rightarrow> http_request \<Rightarrow> http_response + form" where
  "parseOAuthForm sv r =
     (if ParseMediaType sv (hq_header r ''Content-Type'') \<noteq> Some ''application/x-www-form-urlencoded'' then
        Inl (writeOAuthError 400 ''invalid_request'' ''Content-Type must be application/x-www-form-urlencoded.'')
      else if length (hq_body r) > 16384 then
        Inl (writeOAuthError 400 ''invalid_request'' ''The form body is invalid or too large.'')
      else (case ParseQuery sv (hq_body r) of
        None \<Rightarrow> Inl (writeOAuthError 400 ''invalid_request'' ''The form body is invalid.'')
      | Some form \<Rightarrow>
          if list_ex (\<lambda>(_, vals). length vals \<noteq> 1) form then
            Inl (writeOAuthError 400 ''invalid_request'' ''OAuth parameters must not be repeated.'')
          else Inr form))"

definition singleFormValue :: "form \<Rightarrow> string \<Rightarrow> string" where
  "singleFormValue form name = (case map_of form name of Some [v] \<Rightarrow> v | _ \<Rightarrow> [])"

section \<open>Client authentication\<close>

record oauthClientRecord =
  oc_UID :: uid
  oc_TenantUID :: uid
  oc_ClientID :: string
  oc_ApplicationType :: string

definition writeInvalidClient :: http_response where
  "writeInvalidClient = with_header ''WWW-Authenticate'' ''Basic realm=\"oauth-token\"''
     (writeOAuthError 401 ''invalid_client'' ''Client authentication failed.'')"

definition client_row :: "db \<Rightarrow> string \<Rightarrow> oauthClientRecord option" where
  "client_row d clientID =
     map_option (\<lambda>a. \<lparr>oc_UID = ap_uid a, oc_TenantUID = ap_tenant_uid a, oc_ClientID = ap_client_id a,
                      oc_ApplicationType = ap_application_type a\<rparr>)
       (sql_row (\<lambda>a. ap_client_id a = clientID \<and> ap_status a = ''active'' \<and> ap_deleted_at a = None) (db_applications d))"

definition client_secret_of :: "time \<Rightarrow> db \<Rightarrow> uid \<Rightarrow> string \<Rightarrow> client_secret_row option" where
  "client_secret_of now d applicationUID pfx =
     sql_row (\<lambda>s. cs_application_uid s = applicationUID \<and> cs_prefix s = pfx \<and> cs_status s = ''active'' \<and> cs_expires_at s > now)
       (db_client_secrets d)"

definition touch_secret :: "call \<Rightarrow> uid \<Rightarrow> db \<Rightarrow> db" where
  "touch_secret c secretUID d =
     (if ca_flt c ''touch client secret'' then d
      else d\<lparr>db_client_secrets := sql_update (\<lambda>s. cs_uid s = secretUID) (\<lambda>s. s\<lparr>cs_last_used_at := Some (ca_now c)\<rparr>) (db_client_secrets d)\<rparr>)"

definition authenticateOAuthClient ::
  "server \<Rightarrow> call \<Rightarrow> http_request \<Rightarrow> form \<Rightarrow> db \<Rightarrow> (http_response + oauthClientRecord) \<times> db" where
  "authenticateOAuthClient sv c r form d =
     (let formClientID = singleFormValue form ''client_id''; refuse = (Inl writeInvalidClient, d) in
      if (case hq_basic_auth r of None \<Rightarrow> False | Some (basicClientID, _) \<Rightarrow> formClientID \<noteq> [] \<and> formClientID \<noteq> basicClientID) then refuse
      else let clientID = (case hq_basic_auth r of None \<Rightarrow> formClientID | Some (basicClientID, _) \<Rightarrow> basicClientID) in
      if ca_flt c ''load oauth client'' then refuse
      else (case client_row d clientID of
        None \<Rightarrow> refuse
      | Some client \<Rightarrow>
          if oc_ApplicationType client = ''public'' then
            if hq_basic_auth r \<noteq> None \<or> singleFormValue form ''client_secret'' \<noteq> [] then refuse else (Inr client, d)
          else (case hq_basic_auth r of
            None \<Rightarrow> refuse
          | Some (_, basicSecret) \<Rightarrow>
              if basicSecret = [] \<or> singleFormValue form ''client_secret'' \<noteq> [] then refuse
              else (case Cut (CHR ''.'') basicSecret of
                None \<Rightarrow> refuse
              | Some (pfx, _) \<Rightarrow>
                  if ca_flt c ''load client secret'' then refuse
                  else (case client_secret_of (ca_now c) d (oc_UID client) pfx of
                    None \<Rightarrow> refuse
                  | Some s \<Rightarrow>
                      if ConstantTimeCompare (cs_secret_hash s) (SecretHash_of sv basicSecret) \<noteq> 1 then refuse
                      else (Inr client, touch_secret c (cs_uid s) d))))))"

section \<open>The token endpoint\<close>

text \<open>The code with the subject and the member of its query.\<close>

definition subject_of :: "db \<Rightarrow> auth_code_row \<Rightarrow> subject_row option" where
  "subject_of d k = sql_row (\<lambda>s. su_application_uid s = ac_application_uid k \<and> su_tenant_member_uid s = ac_tenant_member_uid k) (db_subjects d)"

definition member_of :: "db \<Rightarrow> uid \<Rightarrow> member_row option" where
  "member_of d u = sql_row (\<lambda>m. tm_uid m = u) (db_members d)"

definition code_row :: "server \<Rightarrow> string \<Rightarrow> db \<Rightarrow> (auth_code_row \<times> subject_row \<times> member_row) option" where
  "code_row sv code d =
     (case sql_row (\<lambda>k. ac_code_hash k = SessionHash_of sv code \<and> active_application d (ac_application_uid k) \<noteq> None \<and>
                        subject_of d k \<noteq> None \<and> member_of d (ac_tenant_member_uid k) \<noteq> None) (db_auth_codes d) of
        None \<Rightarrow> None
      | Some k \<Rightarrow> Some (k, the (subject_of d k), the (member_of d (ac_tenant_member_uid k))))"

definition computed_challenge :: "server \<Rightarrow> string \<Rightarrow> string" where
  "computed_challenge sv verifier = RawURLEncode (Sum256 sv (bytes_of verifier))"

definition code_accepted ::
  "server \<Rightarrow> time \<Rightarrow> oauthClientRecord \<Rightarrow> string \<Rightarrow> string \<Rightarrow> auth_code_row \<Rightarrow> member_row \<Rightarrow> bool" where
  "code_accepted sv now client redirectURI verifier k m \<longleftrightarrow>
     ac_application_uid k = oc_UID client \<and> ac_tenant_uid k = oc_TenantUID client \<and> ac_redirect_uri k = redirectURI \<and>
     ac_consumed_at k = None \<and> ac_expires_at k > now \<and> tm_status m = ''active'' \<and>
     ConstantTimeCompare (bytes_of (ac_code_challenge k)) (bytes_of (computed_challenge sv verifier)) = 1"

definition unix :: "time \<Rightarrow> int" where
  "unix t = t div Second"

definition access_claims ::
  "server \<Rightarrow> call \<Rightarrow> oauthClientRecord \<Rightarrow> auth_code_row \<Rightarrow> subject_row \<Rightarrow> string \<Rightarrow> time \<Rightarrow> json" where
  "access_claims sv c client k s audience expires = JObj [
     (''aud'', JStr audience), (''client_id'', JStr (oc_ClientID client)), (''exp'', JNum (unix expires)),
     (''iat'', JNum (unix (ca_now c))), (''iss'', JStr (OAuthIssuer sv)), (''jti'', JStr (ca_uid c ''jti'')),
     (''scope'', JStr (Join '' '' (ac_scopes k))), (''sub'', JStr (su_subject s)), (''tenant_uid'', JStr (ac_tenant_uid k))]"

definition id_claims ::
  "server \<Rightarrow> call \<Rightarrow> oauthClientRecord \<Rightarrow> auth_code_row \<Rightarrow> subject_row \<Rightarrow> member_row \<Rightarrow> time \<Rightarrow> json" where
  "id_claims sv c client k s m expires = JObj (
     [(''aud'', JStr (oc_ClientID client)), (''auth_time'', JNum (unix (ac_auth_time k)))] @
     (if scopeContains (ac_scopes k) ''email'' then
        [(''email'', JStr (tm_email m)), (''email_verified'', JBool (tm_email_verified_at m \<noteq> None))] else []) @
     [(''exp'', JNum (unix expires)), (''iat'', JNum (unix (ca_now c))), (''iss'', JStr (OAuthIssuer sv))] @
     (if scopeContains (ac_scopes k) ''profile'' then [(''name'', JStr (tm_display_name m))] else []) @
     [(''nonce'', JStr (ac_nonce k)), (''sub'', JStr (su_subject s)), (''tenant_uid'', JStr (ac_tenant_uid k))])"

text \<open>The audience of the token; \<open>None\<close> when the resource server, its grant or the scopes changed.\<close>

definition token_audience :: "server \<Rightarrow> call \<Rightarrow> auth_code_row \<Rightarrow> db \<Rightarrow> string option" where
  "token_audience sv c k d =
     (case ac_resource_server_uid k of
        None \<Rightarrow> Some (OAuthIssuer sv @ ''/oauth/userinfo'')
      | Some u \<Rightarrow>
          if ca_flt c ''load resource server'' then None
          else (case sql_row (\<lambda>v. rv_uid v = u \<and> rv_tenant_uid v = ac_tenant_uid k \<and> rv_status v = ''active'' \<and> rv_deleted_at v = None)
                       (db_resource_servers d) of
            None \<Rightarrow> None
          | Some v \<Rightarrow>
              (case resolveAuthorizationScopes sv c (ac_tenant_uid k) (ac_application_uid k) (Join '' '' (ac_scopes k)) (rv_identifier v) d of
                 Inl _ \<Rightarrow> None
               | Inr (_, None) \<Rightarrow> Some (OAuthIssuer sv @ ''/oauth/userinfo'')
               | Inr (_, Some resource) \<Rightarrow> Some (rv_identifier resource))))"

definition consume_code :: "call \<Rightarrow> auth_code_row \<Rightarrow> db \<Rightarrow> db option" where
  "consume_code c k = stmt c ''consume code'' (\<lambda>d. Some (d\<lparr>db_auth_codes :=
     sql_update (\<lambda>x. ac_uid x = ac_uid k \<and> ac_consumed_at x = None) (\<lambda>x. x\<lparr>ac_consumed_at := Some (ca_now c)\<rparr>) (db_auth_codes d)\<rparr>))"

definition new_token_row :: "server \<Rightarrow> call \<Rightarrow> auth_code_row \<Rightarrow> subject_row \<Rightarrow> string \<Rightarrow> time \<Rightarrow> access_token_row" where
  "new_token_row sv c k s accessToken expires =
     \<lparr>tk_uid = ca_uid c ''token'', tk_token_hash = SessionHash_of sv accessToken, tk_jti = ca_uid c ''jti'',
      tk_application_uid = ac_application_uid k, tk_tenant_uid = ac_tenant_uid k, tk_tenant_member_uid = ac_tenant_member_uid k,
      tk_subject = su_subject s, tk_scopes = ac_scopes k, tk_created_at = ca_now c, tk_expires_at = expires,
      tk_revoked_at = None, tk_resource_server_uid = ac_resource_server_uid k\<rparr>"

definition insert_token :: "call \<Rightarrow> access_token_row \<Rightarrow> db \<Rightarrow> db option" where
  "insert_token c row = stmt c ''insert access token'' (\<lambda>d.
     if list_ex (\<lambda>x. tk_uid x = tk_uid row \<or> tk_token_hash x = tk_token_hash row \<or> tk_jti x = tk_jti row) (db_access_tokens d) then None
     else Some (d\<lparr>db_access_tokens := db_access_tokens d @ [row]\<rparr>))"

definition token_audit :: "call \<Rightarrow> auth_code_row \<Rightarrow> string \<Rightarrow> db \<Rightarrow> db option" where
  "token_audit c k audience = stmt c ''insert audit event'' (\<lambda>d. Some (add_audit
     \<lparr>au_uid = ca_uid c ''audit'', au_tenant_uid = ac_tenant_uid k, au_project_uid = None, au_actor_type = ''tenant_member'',
      au_actor_uid = Some (ac_tenant_member_uid k), au_action = ''oauth_token.issued'', au_target_type = ''oauth_application'',
      au_target_uid = ac_application_uid k,
      au_metadata = JObj [(''audience'', JStr audience), (''jti'', JStr (ca_uid c ''jti'')), (''scopes'', JArr (map JStr (ac_scopes k)))]\<rparr> d))"

definition token_tx :: "server \<Rightarrow> call \<Rightarrow> auth_code_row \<Rightarrow> subject_row \<Rightarrow> string \<Rightarrow> string \<Rightarrow> time \<Rightarrow> db \<Rightarrow> db option" where
  "token_tx sv c k s audience accessToken expires d =
     Option.bind (consume_code c k d) (\<lambda>d.
     Option.bind (insert_token c (new_token_row sv c k s accessToken expires) d) (\<lambda>d.
     Option.bind (token_audit c k audience d) (stmt c ''commit'' Some)))"

definition token_response :: "auth_code_row \<Rightarrow> string \<Rightarrow> string \<Rightarrow> duration \<Rightarrow> http_response" where
  "token_response k accessToken idToken lifetime =
     with_header ''Cache-Control'' ''no-store'' (with_header ''Pragma'' ''no-cache'' (writeJSON 200 (JObj [
       (''access_token'', JStr accessToken), (''expires_in'', JNum (lifetime div Second)), (''id_token'', JStr idToken),
       (''scope'', JStr (Join '' '' (ac_scopes k))), (''token_type'', JStr ''Bearer'')])))"

definition token_ttl :: "server \<Rightarrow> duration" where
  "token_ttl sv = durationOr (OAuthAccessTokenTTL sv) (10 * Minute)"

text \<open>The exchange of an accepted code.\<close>

definition exchange_code ::
  "server \<Rightarrow> call \<Rightarrow> oauthClientRecord \<Rightarrow> auth_code_row \<Rightarrow> subject_row \<Rightarrow> member_row \<Rightarrow> db \<Rightarrow> http_response \<times> db" where
  "exchange_code sv c client k s m d =
     (case token_audience sv c k d of
        None \<Rightarrow> (writeOAuthError 400 ''invalid_grant'' ''The Resource Server grant or delegated scopes changed after authorization.'', d)
      | Some audience \<Rightarrow>
          let expires = ca_now c + token_ttl sv in
          (case (signOAuthJWT sv c (access_claims sv c client k s audience expires) d, signOAuthJWT sv c (id_claims sv c client k s m expires) d) of
             (Inr accessToken, Inr idToken) \<Rightarrow>
               (case token_tx sv c k s audience accessToken expires d of
                  None \<Rightarrow> (writeOAuthError 503 ''temporarily_unavailable'' ''The authorization server is temporarily unavailable.'', d)
                | Some d' \<Rightarrow> (token_response k accessToken idToken (token_ttl sv), d'))
           | _ \<Rightarrow> (writeOAuthError 503 ''temporarily_unavailable'' ''Token signing is temporarily unavailable.'', d)))"

definition oauthToken :: "server \<Rightarrow> call \<Rightarrow> handler" where
  "oauthToken sv c r d =
     (case parseOAuthForm sv r of
        Inl w \<Rightarrow> (w, d)
      | Inr form \<Rightarrow>
          if singleFormValue form ''grant_type'' \<noteq> ''authorization_code'' then
            (writeOAuthError 400 ''unsupported_grant_type'' ''Only authorization_code is supported.'', d)
          else (case authenticateOAuthClient sv c r form d of
            (Inl w, d1) \<Rightarrow> (w, d1)
          | (Inr client, d1) \<Rightarrow>
              let code = singleFormValue form ''code''; redirectURI = singleFormValue form ''redirect_uri'';
                  verifier = singleFormValue form ''code_verifier'' in
              if code = [] \<or> redirectURI = [] \<or> \<not> pkceVerifierPattern verifier then
                (writeOAuthError 400 ''invalid_request'' ''code, exact redirect_uri, and a valid code_verifier are required.'', d1)
              else if ca_flt c ''begin transaction'' then
                (writeOAuthError 503 ''temporarily_unavailable'' ''The authorization server is temporarily unavailable.'', d1)
              else (case (if ca_flt c ''load authorization code'' then None else code_row sv code d1) of
                None \<Rightarrow> (writeOAuthError 400 ''invalid_grant'' ''The authorization code is invalid, expired, used, or bound to different client inputs.'', d1)
              | Some (k, s, m) \<Rightarrow>
                  if \<not> code_accepted sv (ca_now c) client redirectURI verifier k m then
                    (writeOAuthError 400 ''invalid_grant'' ''The authorization code is invalid, expired, used, or bound to different client inputs.'', d1)
                  else exchange_code sv c client k s m d1)))"

section \<open>Using and revoking a token\<close>

definition userinfo_row :: "server \<Rightarrow> time \<Rightarrow> string \<Rightarrow> db \<Rightarrow> (access_token_row \<times> member_row) option" where
  "userinfo_row sv now value d =
     (case sql_row (\<lambda>t. tk_token_hash t = SessionHash_of sv value \<and> tk_revoked_at t = None \<and> tk_expires_at t > now \<and>
                        tk_resource_server_uid t = None \<and> active_member d (tk_tenant_member_uid t) \<noteq> None \<and>
                        active_application d (tk_application_uid t) \<noteq> None) (db_access_tokens d) of
        None \<Rightarrow> None
      | Some t \<Rightarrow> map_option (Pair t) (active_member d (tk_tenant_member_uid t)))"

definition oauthUserInfo :: "server \<Rightarrow> call \<Rightarrow> handler" where
  "oauthUserInfo sv c r d =
     (let value = TrimPrefix (hq_header r ''Authorization'') ''Bearer '' in
      if value = [] \<or> length value > 8192 then (writeInvalidBearer, d)
      else if ca_flt c ''load access token'' then (writeInvalidBearer, d)
      else (case userinfo_row sv (ca_now c) value d of
        None \<Rightarrow> (writeInvalidBearer, d)
      | Some (t, m) \<Rightarrow>
          if tm_status m \<noteq> ''active'' then (writeInvalidBearer, d)
          else (writeJSON 200 (JObj (
            (if scopeContains (tk_scopes t) ''email'' then
               [(''email'', JStr (tm_email m)), (''email_verified'', JBool (tm_email_verified_at m \<noteq> None))] else []) @
            (if scopeContains (tk_scopes t) ''profile'' then [(''name'', JStr (tm_display_name m))] else []) @
            [(''sub'', JStr (tk_subject t))])), d)))"

definition revoke_token :: "time \<Rightarrow> access_token_row \<Rightarrow> access_token_row" where
  "revoke_token now t = t\<lparr>tk_revoked_at := (case tk_revoked_at t of None \<Rightarrow> Some now | Some u \<Rightarrow> Some u)\<rparr>"

definition oauthRevoke :: "server \<Rightarrow> call \<Rightarrow> handler" where
  "oauthRevoke sv c r d =
     (case parseOAuthForm sv r of
        Inl w \<Rightarrow> (w, d)
      | Inr form \<Rightarrow>
          (case authenticateOAuthClient sv c r form d of
             (Inl w, d1) \<Rightarrow> (w, d1)
           | (Inr client, d1) \<Rightarrow>
               let token = singleFormValue form ''token'' in
               if token = [] then (writeOAuthError 400 ''invalid_request'' ''token is required.'', d1)
               else (with_header ''Cache-Control'' ''no-store'' (no_content 200),
                     if ca_flt c ''revoke access token'' then d1
                     else d1\<lparr>db_access_tokens := sql_update (\<lambda>t. tk_application_uid t = oc_UID client \<and>
                            tk_token_hash t = SessionHash_of sv token) (revoke_token (ca_now c)) (db_access_tokens d1)\<rparr>)))"

section \<open>Withdrawal of consent\<close>

definition revoke_consent_row :: "time \<Rightarrow> consent_row \<Rightarrow> consent_row" where
  "revoke_consent_row now x = x\<lparr>co_status := ''revoked'', co_updated_at := now,
     co_revoked_at := (case co_revoked_at x of None \<Rightarrow> Some now | Some u \<Rightarrow> Some u)\<rparr>"

definition consent_tx :: "call \<Rightarrow> principal \<Rightarrow> consent_row \<Rightarrow> db \<Rightarrow> db option" where
  "consent_tx c p x d =
     Option.bind (stmt c ''revoke access tokens'' (\<lambda>d. Some (d\<lparr>db_access_tokens :=
       sql_update (\<lambda>t. tk_application_uid t = co_application_uid x \<and> tk_tenant_member_uid t = p_MemberUID p \<and>
                       tk_resource_server_uid t = co_resource_server_uid x) (revoke_token (ca_now c)) (db_access_tokens d)\<rparr>)) d) (\<lambda>d.
     Option.bind (stmt c ''insert audit event'' (\<lambda>d. Some (add_audit
       \<lparr>au_uid = ca_uid c ''audit'', au_tenant_uid = p_TenantUID p, au_project_uid = None, au_actor_type = ''tenant_member'',
        au_actor_uid = Some (p_MemberUID p), au_action = ''oauth_consent.revoked'', au_target_type = ''oauth_application'',
        au_target_uid = co_application_uid x, au_metadata = JObj []\<rparr> d)) d) (stmt c ''commit'' Some))"

definition consent_hit :: "principal \<Rightarrow> uid \<Rightarrow> consent_row \<Rightarrow> bool" where
  "consent_hit p consentUID x \<longleftrightarrow> co_uid x = consentUID \<and> co_tenant_uid x = p_TenantUID p \<and> co_tenant_member_uid x = p_MemberUID p"

definition revokeOAuthConsent :: "server \<Rightarrow> call \<Rightarrow> handler" where
  "revokeOAuthConsent sv c r d =
     (let p = mustPrincipal r; consentUID = hq_path r ''consent_uid'';
          unavailable = (fail r 500 ''internal_error'' ''could not revoke OAuth consent'', d) in
      if ca_flt c ''begin transaction'' \<or> ca_flt c ''revoke consent'' \<or> \<not> uuid_ok sv consentUID then unavailable
      else (case sql_row (consent_hit p consentUID) (db_consents d) of
        None \<Rightarrow> (fail r 404 ''oauth_consent_not_found'' ''OAuth consent was not found'', d)
      | Some x \<Rightarrow>
          (case consent_tx c p x (d\<lparr>db_consents := sql_update (consent_hit p consentUID) (revoke_consent_row (ca_now c)) (db_consents d)\<rparr>) of
             None \<Rightarrow> unavailable
           | Some d' \<Rightarrow> (no_content 204, d'))))"


section \<open>Client authentication is exact\<close>

lemma touch_secret_frame: "\<exists>cs. touch_secret c u d = d\<lparr>db_client_secrets := cs\<rparr>"
  by (auto simp: touch_secret_def intro: exI [of _ "db_client_secrets d"])

text \<open>The client a request names: by HTTP Basic, or by the form when there is no Basic header.\<close>

definition named_client :: "http_request \<Rightarrow> form \<Rightarrow> string" where
  "named_client r form = (case hq_basic_auth r of None \<Rightarrow> singleFormValue form ''client_id'' | Some (basicClientID, _) \<Rightarrow> basicClientID)"

text \<open>The secret a confidential client presents and the row it matches.\<close>

definition secret_matches :: "server \<Rightarrow> time \<Rightarrow> db \<Rightarrow> uid \<Rightarrow> string \<Rightarrow> client_secret_row \<Rightarrow> bool" where
  "secret_matches sv now d applicationUID secret s \<longleftrightarrow>
     s \<in> set (db_client_secrets d) \<and> cs_application_uid s = applicationUID \<and> cs_status s = ''active'' \<and> now < cs_expires_at s \<and>
     cs_secret_hash s = SecretHash_of sv secret \<and> CHR ''.'' \<notin> set (cs_prefix s) \<and>
     (\<exists>rest. secret = cs_prefix s @ ''.'' @ rest)"

lemma authenticate_cases:
  assumes "authenticateOAuthClient sv c r form d = (res, d1)"
  obtains (refused) "res = Inl writeInvalidClient" "d1 = d"
  | (public_client) client where "res = Inr client" "d1 = d" "client_row d (named_client r form) = Some client"
      "oc_ApplicationType client = ''public''" "hq_basic_auth r = None" "singleFormValue form ''client_secret'' = []"
  | (confidential_client) client i secret s where "res = Inr client" "d1 = touch_secret c (cs_uid s) d"
      "client_row d (named_client r form) = Some client" "oc_ApplicationType client \<noteq> ''public''"
      "hq_basic_auth r = Some (i, secret)" "singleFormValue form ''client_secret'' = []"
      "secret_matches sv (ca_now c) d (oc_UID client) secret s"
proof -
  define formClientID where "formClientID = singleFormValue form ''client_id''"
  note run = assms [unfolded authenticateOAuthClient_def Let_def, folded formClientID_def]
  show thesis
  proof (cases "ca_flt c ''load oauth client'' \<or>
      (case hq_basic_auth r of None \<Rightarrow> False | Some (basicClientID, _) \<Rightarrow> formClientID \<noteq> [] \<and> formClientID \<noteq> basicClientID)")
    case True
    then show ?thesis using run refused by (auto split: if_splits)
  next
    case False
    then have run: "(case client_row d (named_client r form) of None \<Rightarrow> (Inl writeInvalidClient, d)
      | Some client \<Rightarrow>
          if oc_ApplicationType client = ''public'' then
            if hq_basic_auth r \<noteq> None \<or> singleFormValue form ''client_secret'' \<noteq> [] then (Inl writeInvalidClient, d) else (Inr client, d)
          else (case hq_basic_auth r of
            None \<Rightarrow> (Inl writeInvalidClient, d)
          | Some (_, basicSecret) \<Rightarrow>
              if basicSecret = [] \<or> singleFormValue form ''client_secret'' \<noteq> [] then (Inl writeInvalidClient, d)
              else (case Cut (CHR ''.'') basicSecret of
                None \<Rightarrow> (Inl writeInvalidClient, d)
              | Some (pfx, _) \<Rightarrow>
                  if ca_flt c ''load client secret'' then (Inl writeInvalidClient, d)
                  else (case client_secret_of (ca_now c) d (oc_UID client) pfx of
                    None \<Rightarrow> (Inl writeInvalidClient, d)
                  | Some s \<Rightarrow>
                      if ConstantTimeCompare (cs_secret_hash s) (SecretHash_of sv basicSecret) \<noteq> 1 then (Inl writeInvalidClient, d)
                      else (Inr client, touch_secret c (cs_uid s) d))))) = (res, d1)"
      using run unfolding named_client_def formClientID_def [symmetric] by simp
    show ?thesis
    proof (cases "client_row d (named_client r form)")
      case None
      then show ?thesis using run refused by simp
    next
      case (Some client)
      note run = run [unfolded Some option.case]
      show ?thesis
      proof (cases "oc_ApplicationType client = ''public''")
        case True
        then show ?thesis using run refused public_client [OF _ _ Some True]
          by (cases "hq_basic_auth r") (auto split: if_splits)
      next
        case False
        note run = run [unfolded if_not_P [OF False]]
        show ?thesis
        proof (cases "\<exists>i secret pfx rest s. hq_basic_auth r = Some (i, secret) \<and> singleFormValue form ''client_secret'' = [] \<and>
            Cut (CHR ''.'') secret = Some (pfx, rest) \<and> client_secret_of (ca_now c) d (oc_UID client) pfx = Some s \<and>
            cs_secret_hash s = SecretHash_of sv secret \<and> secret \<noteq> [] \<and> \<not> ca_flt c ''load client secret''")
          case True
          then obtain i secret pfx rest s where *: "hq_basic_auth r = Some (i, secret)" "singleFormValue form ''client_secret'' = []"
            "Cut (CHR ''.'') secret = Some (pfx, rest)" "client_secret_of (ca_now c) d (oc_UID client) pfx = Some s"
            "cs_secret_hash s = SecretHash_of sv secret" "secret \<noteq> []" "\<not> ca_flt c ''load client secret''" by blast
          have "secret_matches sv (ca_now c) d (oc_UID client) secret s"
            using sql_row_SomeD [OF * (4) [unfolded client_secret_of_def]] Cut_SomeD [OF * (3)] * (5)
            by (auto simp: secret_matches_def)
          moreover have "res = Inr client" "d1 = touch_secret c (cs_uid s) d" using run * by auto
          ultimately show ?thesis using confidential_client [OF _ _ Some False * (1,2)] by blast
        next
          case False
          then have "res = Inl writeInvalidClient \<and> d1 = d"
            using run by (auto split: option.splits if_splits prod.splits)
          then show ?thesis using refused by simp
        qed
      qed
    qed
  qed
qed

lemma authenticate_frame:
  assumes "authenticateOAuthClient sv c r form d = (res, d1)"
  obtains cs where "d1 = d\<lparr>db_client_secrets := cs\<rparr>"
proof -
  have "d = d\<lparr>db_client_secrets := db_client_secrets d\<rparr>" by simp
  with assms touch_secret_frame [of c _ d] that show ?thesis by (cases rule: authenticate_cases) blast+
qed

lemma sql_row_unique:
  assumes "x \<in> set t" and "P x" and "\<And>y. y \<in> set t \<Longrightarrow> P y \<Longrightarrow> y = x"
  shows "sql_row P t = Some x"
proof (cases "sql_row P t")
  case None
  with assms(1,2) show ?thesis unfolding sql_row_None_iff by blast
next
  case (Some y)
  with assms(3) sql_row_SomeD [OF Some] show ?thesis by metis
qed

lemma distinct_map_inj: "distinct (map f xs) \<Longrightarrow> inj_on f (set xs)"
  by (simp add: distinct_map)




section \<open>What the token endpoint requires and does\<close>

lemma token_tx_shape:
  assumes "token_tx sv c k s audience at expires d = Some d'"
  shows "\<exists>a. d' = add_audit a (d\<lparr>db_auth_codes := sql_update (\<lambda>x. ac_uid x = ac_uid k \<and> ac_consumed_at x = None)
             (\<lambda>x. x\<lparr>ac_consumed_at := Some (ca_now c)\<rparr>) (db_auth_codes d),
           db_access_tokens := db_access_tokens d @ [new_token_row sv c k s at expires]\<rparr>)"
  using assms
  by (auto simp: token_tx_def consume_code_def insert_token_def token_audit_def stmt_def bind_eq_Some_conv split: if_splits)

lemma exchange_cases:
  assumes "exchange_code sv c client k s m d = (w, d')"
  obtains (refused) "d' = d" "hs_status w \<in> {400, 503}"
  | (issued) audience at it where "token_audience sv c k d = Some audience"
      "signOAuthJWT sv c (access_claims sv c client k s audience (ca_now c + token_ttl sv)) d = Inr at"
      "signOAuthJWT sv c (id_claims sv c client k s m (ca_now c + token_ttl sv)) d = Inr it"
      "token_tx sv c k s audience at (ca_now c + token_ttl sv) d = Some d'" "w = token_response k at it (token_ttl sv)"
proof (cases "token_audience sv c k d")
  case None
  then show ?thesis using assms refused by (auto simp: exchange_code_def writeOAuthError_def)
next
  case (Some audience)
  note run = assms [unfolded exchange_code_def Let_def Some option.case]
  show ?thesis
  proof (cases "signOAuthJWT sv c (access_claims sv c client k s audience (ca_now c + token_ttl sv)) d")
    case (Inl e)
    then show ?thesis using run refused by (auto simp: writeOAuthError_def)
  next
    case at: (Inr at)
    show ?thesis
    proof (cases "signOAuthJWT sv c (id_claims sv c client k s m (ca_now c + token_ttl sv)) d")
      case (Inl e)
      then show ?thesis using run refused by (auto simp: writeOAuthError_def at)
    next
      case it: (Inr it)
      show ?thesis
      proof (cases "token_tx sv c k s audience at (ca_now c + token_ttl sv) d")
        case None
        then show ?thesis using run refused by (auto simp: writeOAuthError_def at it)
      next
        case tx: (Some d'')
        then show ?thesis using run issued [OF Some at it] by (simp add: at it)
      qed
    qed
  qed
qed

lemma oauthToken_cases:
  assumes "oauthToken sv c r d = (w, d')"
  obtains (refused) cs where "d' = d\<lparr>db_client_secrets := cs\<rparr>" "hs_status w \<in> {400, 401, 503}"
  | (exchanged) form client cs d1 k s m where "parseOAuthForm sv r = Inr form" "d1 = d\<lparr>db_client_secrets := cs\<rparr>"
      "authenticateOAuthClient sv c r form d = (Inr client, d1)" "pkceVerifierPattern (singleFormValue form ''code_verifier'')"
      "code_row sv (singleFormValue form ''code'') d1 = Some (k, s, m)"
      "code_accepted sv (ca_now c) client (singleFormValue form ''redirect_uri'') (singleFormValue form ''code_verifier'') k m"
      "exchange_code sv c client k s m d1 = (w, d')"
proof -
  have same: thesis if "d' = d" "hs_status w \<in> {400, 401, 503}"
    using refused [of "db_client_secrets d"] that by simp
  show thesis
  proof (cases "parseOAuthForm sv r")
    case (Inl e)
    have "hs_status e = 400" using Inl by (auto simp: parseOAuthForm_def writeOAuthError_def split: if_splits option.splits)
    then show ?thesis using Inl assms same by (simp add: oauthToken_def)
  next
    case form: (Inr form)
    note run = assms [unfolded oauthToken_def form sum.case]
    show ?thesis
    proof (cases "singleFormValue form ''grant_type'' = ''authorization_code''")
      case False
      then show ?thesis using run same by (auto simp: writeOAuthError_def)
    next
      case True
      obtain res d1 where auth: "authenticateOAuthClient sv c r form d = (res, d1)" by fastforce
      then obtain cs where cs: "d1 = d\<lparr>db_client_secrets := cs\<rparr>" by (rule authenticate_frame)
      show ?thesis
      proof (cases res)
        case (Inl e)
        then have "e = writeInvalidClient" using auth by (auto elim: authenticate_cases)
        then show ?thesis using run refused [of cs] by (auto simp: auth True Inl cs writeInvalidClient_def writeOAuthError_def)
      next
        case (Inr client)
        note run = run [unfolded auth Inr prod.case sum.case Let_def]
        show ?thesis
        proof (cases "pkceVerifierPattern (singleFormValue form ''code_verifier'') \<and> \<not> ca_flt c ''load authorization code'' \<and>
            (\<exists>k s m. code_row sv (singleFormValue form ''code'') d1 = Some (k, s, m) \<and>
              code_accepted sv (ca_now c) client (singleFormValue form ''redirect_uri'') (singleFormValue form ''code_verifier'') k m \<and>
              exchange_code sv c client k s m d1 = (w, d'))")
          case True
          then show ?thesis using exchanged [OF form cs auth [unfolded Inr]] by blast
        next
          case False
          then have "d' = d1 \<and> hs_status w \<in> {400, 503}"
            using run True by (auto simp: writeOAuthError_def split: if_splits option.splits prod.splits)
          then show ?thesis using refused [of cs] cs by auto
        qed
      qed
    qed
  qed
qed

lemma code_rowD:
  "code_row sv code d = Some (k, s, m) \<Longrightarrow>
     k \<in> set (db_auth_codes d) \<and> ac_code_hash k = SessionHash_of sv code \<and> subject_of d k = Some s \<and>
     member_of d (ac_tenant_member_uid k) = Some m \<and> active_application d (ac_application_uid k) \<noteq> None"
  unfolding code_row_def by (auto split: option.splits dest!: sql_row_SomeD)

text \<open>C1 (token_needs_bound_code): the token endpoint issues a token only against a stored, unused, unexpired code that was issued to
  the client that authenticated, for the exact redirect URI presented and for a PKCE challenge that is the
  S256 hash of the presented verifier, and only while the member is active. The code is then used up, and
  exactly one token is added: for the code's application, member, tenant, scopes and resource server, expiring after
  the configured lifetime. In every other case the answer is an error and neither codes nor tokens change.\<close>

theorem token_needs_bound_code:
  assumes "oauthToken sv c r d = (w, d')"
  shows "(\<exists>form client k s t.
      parseOAuthForm sv r = Inr form \<and> fst (authenticateOAuthClient sv c r form d) = Inr client \<and>
      k \<in> set (db_auth_codes d) \<and> ac_code_hash k = SessionHash_of sv (singleFormValue form ''code'') \<and>
      ac_application_uid k = oc_UID client \<and> ac_tenant_uid k = oc_TenantUID client \<and>
      ac_redirect_uri k = singleFormValue form ''redirect_uri'' \<and> ac_consumed_at k = None \<and> ca_now c < ac_expires_at k \<and>
      pkceVerifierPattern (singleFormValue form ''code_verifier'') \<and>
      ac_code_challenge k = RawURLEncode (Sum256 sv (bytes_of (singleFormValue form ''code_verifier''))) \<and>
      (\<exists>m \<in> set (db_members d). tm_uid m = ac_tenant_member_uid k \<and> tm_status m = ''active'') \<and>
      hs_status w = 200 \<and> db_access_tokens d' = db_access_tokens d @ [t] \<and>
      db_auth_codes d' = sql_update (\<lambda>x. ac_uid x = ac_uid k \<and> ac_consumed_at x = None)
        (\<lambda>x. x\<lparr>ac_consumed_at := Some (ca_now c)\<rparr>) (db_auth_codes d) \<and>
      tk_application_uid t = ac_application_uid k \<and> tk_tenant_member_uid t = ac_tenant_member_uid k \<and>
      tk_tenant_uid t = ac_tenant_uid k \<and> tk_scopes t = ac_scopes k \<and> tk_resource_server_uid t = ac_resource_server_uid k \<and>
      s \<in> set (db_subjects d) \<and> tk_subject t = su_subject s \<and> tk_expires_at t = ca_now c + token_ttl sv \<and> tk_revoked_at t = None) \<or>
    hs_status w \<in> {400, 401, 503} \<and> db_access_tokens d' = db_access_tokens d \<and> db_auth_codes d' = db_auth_codes d"
  using assms
proof (cases rule: oauthToken_cases)
  case (exchanged form client cs d1 k s m)
  from exchanged(7) show ?thesis
  proof (cases rule: exchange_cases)
    case refused
    then show ?thesis using exchanged(2) by auto
  next
    case (issued audience at it)
    note row = code_rowD [OF exchanged(5)]
    have k: "k \<in> set (db_auth_codes d)" "s \<in> set (db_subjects d)" "m \<in> set (db_members d)" "tm_uid m = ac_tenant_member_uid k"
      using row exchanged(2) by (auto simp: subject_of_def member_of_def dest!: sql_row_SomeD)
    from token_tx_shape [OF issued(4)] exchanged(2) have d':
      "db_access_tokens d' = db_access_tokens d @ [new_token_row sv c k s at (ca_now c + token_ttl sv)]"
      "db_auth_codes d' = sql_update (\<lambda>x. ac_uid x = ac_uid k \<and> ac_consumed_at x = None)
        (\<lambda>x. x\<lparr>ac_consumed_at := Some (ca_now c)\<rparr>) (db_auth_codes d)"
      by (auto simp: add_audit_def)
    show ?thesis
      by (rule disjI1, rule exI [of _ form], rule exI [of _ client], rule exI [of _ k], rule exI [of _ s],
          rule exI [of _ "new_token_row sv c k s at (ca_now c + token_ttl sv)"])
        (use k d' row exchanged issued(5) in \<open>auto simp: code_accepted_def computed_challenge_def new_token_row_def token_response_def\<close>)
  qed
qed auto


text \<open>The tables the lookups read.\<close>

lemma code_row_frame:
  assumes "db_auth_codes d' = db_auth_codes d" "db_applications d' = db_applications d" "db_subjects d' = db_subjects d"
    "db_members d' = db_members d"
  shows "code_row sv code d' = code_row sv code d"
proof -
  have same: "active_application d' = active_application d" "subject_of d' = subject_of d" "member_of d' = member_of d"
    by (rule ext, simp add: active_application_def subject_of_def member_of_def assms)+
  show ?thesis unfolding code_row_def same assms(1) ..
qed

lemma token_audience_frame:
  assumes "db_resource_servers d' = db_resource_servers d" "db_grants d' = db_grants d" "db_grant_scopes d' = db_grant_scopes d"
    "db_scopes d' = db_scopes d"
  shows "token_audience sv c k d' = token_audience sv c k d"
  unfolding token_audience_def resolve_frame [OF assms] assms(1) ..

section \<open>Withdrawn consent\<close>

definition under_consent :: "consent_row \<Rightarrow> access_token_row \<Rightarrow> bool" where
  "under_consent x t \<longleftrightarrow> tk_application_uid t = co_application_uid x \<and> tk_tenant_member_uid t = co_tenant_member_uid x \<and>
     tk_resource_server_uid t = co_resource_server_uid x"

lemma revoke_consent_cases:
  assumes "revokeOAuthConsent sv c r d = (w, d')"
  obtains (refused) "d' = d" "hs_status w \<in> {404, 500}"
  | (revoked) x a where "sql_row (consent_hit (mustPrincipal r) (hq_path r ''consent_uid'')) (db_consents d) = Some x"
      "w = no_content 204"
      "d' = add_audit a (d\<lparr>db_consents := sql_update (consent_hit (mustPrincipal r) (hq_path r ''consent_uid'')) (revoke_consent_row (ca_now c)) (db_consents d),
         db_access_tokens := sql_update (under_consent x) (revoke_token (ca_now c)) (db_access_tokens d)\<rparr>)"
proof -
  define hit where "hit = consent_hit (mustPrincipal r) (hq_path r ''consent_uid'')"
  show thesis
  proof (cases "ca_flt c ''begin transaction'' \<or> ca_flt c ''revoke consent'' \<or> \<not> uuid_ok sv (hq_path r ''consent_uid'')")
    case True
    then show ?thesis using assms refused by (auto simp: revokeOAuthConsent_def Let_def)
  next
    case False
    show ?thesis
    proof (cases "sql_row hit (db_consents d)")
      case None
      then show ?thesis using assms refused False by (auto simp: revokeOAuthConsent_def Let_def hit_def)
    next
      case (Some x)
      then have member: "co_tenant_member_uid x = p_MemberUID (mustPrincipal r)"
        using sql_row_SomeD [OF Some] by (simp add: hit_def consent_hit_def)
      define d0 where "d0 = d\<lparr>db_consents := sql_update hit (revoke_consent_row (ca_now c)) (db_consents d)\<rparr>"
      have run: "(case consent_tx c (mustPrincipal r) x d0 of None \<Rightarrow> (fail r 500 ''internal_error'' ''could not revoke OAuth consent'', d)
          | Some d'' \<Rightarrow> (no_content 204, d'')) = (w, d')"
        using assms False Some by (simp add: revokeOAuthConsent_def Let_def hit_def d0_def)
      show ?thesis
      proof (cases "consent_tx c (mustPrincipal r) x d0")
        case None
        then show ?thesis using run refused by auto
      next
        case tx: (Some d'')
        then have w: "w = no_content 204" "d'' = d'" using run by auto
        have "\<exists>a. d'' = add_audit a (d0\<lparr>db_access_tokens := sql_update (under_consent x) (revoke_token (ca_now c)) (db_access_tokens d0)\<rparr>)"
          using tx unfolding consent_tx_def
          by (auto simp: stmt_def bind_eq_Some_conv under_consent_def [abs_def] member split: if_splits)
        then obtain a where "d' = add_audit a (d0\<lparr>db_access_tokens := sql_update (under_consent x) (revoke_token (ca_now c)) (db_access_tokens d0)\<rparr>)"
          using w(2) by blast
        then show ?thesis using revoked [OF Some [unfolded hit_def] w(1)] by (simp add: d0_def hit_def)
      qed
    qed
  qed
qed

lemma revoke_token_revoked [simp]: "tk_revoked_at (revoke_token now t) \<noteq> None"
  by (simp add: revoke_token_def split: option.splits)

lemma revoke_token_simps [simp]:
  "tk_token_hash (revoke_token now t) = tk_token_hash t" "under_consent x (revoke_token now t) = under_consent x t"
  by (simp_all add: revoke_token_def under_consent_def)

lemma revoked_token_dead:
  assumes "\<And>t. t \<in> set (db_access_tokens d) \<Longrightarrow> tk_token_hash t = SessionHash_of sv value \<Longrightarrow> tk_revoked_at t \<noteq> None"
  shows "resource_token sv now value d = None" "userinfo_row sv now value d = None"
proof -
  have none: "sql_row P (db_access_tokens d) = None"
    if "\<And>t. P t \<Longrightarrow> tk_token_hash t = SessionHash_of sv value \<and> tk_revoked_at t = None" for P
    using that assms unfolding sql_row_None_iff by blast
  show "resource_token sv now value d = None" unfolding resource_token_def by (subst none) auto
  show "userinfo_row sv now value d = None" unfolding userinfo_row_def by (subst none) auto
qed



definition demo_principal :: principal where
  "demo_principal = \<lparr>p_TenantUID = ''t'', p_MemberUID = ''m'', p_SessionUID = ''s'', p_Role = ''owner'', p_AuthenticationAssurance = ''strong''\<rparr>"

definition demo_consent :: consent_row where
  "demo_consent = \<lparr>co_uid = ''c'', co_tenant_uid = ''t'', co_tenant_member_uid = ''m'', co_application_uid = ''a'',
     co_scopes = [''openid''], co_status = ''active'', co_created_at = 0, co_updated_at = 0, co_revoked_at = None,
     co_resource_server_uid = Some ''v''\<rparr>"


theorem token_needs_bound_code_witness:
  "\<exists>w. oauthToken demo_server demo_call demo_request demo_oauth_db = (w, demo_oauth_db) \<and> hs_status w \<in> {400, 401, 503}"
proof -
  have run: "oauthToken demo_server demo_call demo_request demo_oauth_db =
      (writeOAuthError 400 ''invalid_request'' ''Content-Type must be application/x-www-form-urlencoded.'', demo_oauth_db)"
    by (simp add: oauthToken_def parseOAuthForm_def demo_server_def demo_request_def)
  from token_needs_bound_code [OF run] run show ?thesis by (auto simp: writeOAuthError_def)
qed

end
