(* ===== verification/OAuth_Flow.thy ===== *)
theory OAuth_Flow
  imports OAuth_Token
begin

text \<open>
  The authorization-code flow as a whole: runs of the endpoints and of the cleanup job against one database, in
  any order and with any faults, with the codes they issue and redeem as observable events; and the
  way of one approved request through the token and the userinfo endpoint.
\<close>

section \<open>Runs\<close>

datatype flow_event = Issued "byte list" | Exchanged "byte list"

definition live_codes :: "db \<Rightarrow> auth_code_row set" where
  "live_codes d = {k \<in> set (db_auth_codes d). ac_consumed_at k = None}"

text \<open>The codes a decision has added.\<close>

definition issued_events :: "db \<Rightarrow> db \<Rightarrow> flow_event list" where
  "issued_events d d' = map (\<lambda>k. Issued (ac_code_hash k)) (drop (length (db_auth_codes d)) (db_auth_codes d'))"

text \<open>A token response redeems the code that was presented.\<close>

definition exchange_events :: "server \<Rightarrow> http_request \<Rightarrow> http_response \<Rightarrow> flow_event list" where
  "exchange_events sv r w =
     (case parseOAuthForm sv r of
        Inr form \<Rightarrow> if hs_status w = 200 then [Exchanged (SessionHash_of sv (singleFormValue form ''code''))] else []
      | Inl _ \<Rightarrow> [])"

text \<open>
  The last rule stands for every other operation of the service: none adds or revives a code, and the
  recovery of a member's account consumes all of theirs.
\<close>

inductive flow :: "server \<Rightarrow> db \<Rightarrow> flow_event list \<Rightarrow> db \<Rightarrow> bool" for sv d0 where
  start: "flow sv d0 [] d0"
| authorize: "flow sv d0 es d \<Longrightarrow> oauthAuthorize sv c r d = (w, d') \<Longrightarrow> flow sv d0 es d'"
| decide: "flow sv d0 es d \<Longrightarrow> decideOAuthAuthorizationRequest sv c body r d = (w, d') \<Longrightarrow> flow sv d0 (es @ issued_events d d') d'"
| token: "flow sv d0 es d \<Longrightarrow> oauthToken sv c r d = (w, d') \<Longrightarrow> flow sv d0 (es @ exchange_events sv r w) d'"
| revoke: "flow sv d0 es d \<Longrightarrow> oauthRevoke sv c r d = (w, d') \<Longrightarrow> flow sv d0 es d'"
| withdraw: "flow sv d0 es d \<Longrightarrow> revokeOAuthConsent sv c r d = (w, d') \<Longrightarrow> flow sv d0 es d'"
| cleanup: "flow sv d0 es d \<Longrightarrow> flow sv d0 es (snd (runMaintenanceCleanup c d))"
| elsewhere: "flow sv d0 es d \<Longrightarrow> live_codes d' \<subseteq> live_codes d \<Longrightarrow> flow sv d0 es d'"

section \<open>What each step does to the codes\<close>

lemma authorize_codes: "oauthAuthorize sv c r d = (w, d') \<Longrightarrow> db_auth_codes d' = db_auth_codes d"
  unfolding oauthAuthorize_def Let_def
  by (auto simp: authorize_checked_def Let_def split: option.splits prod.splits sum.splits if_splits)

lemma decide_codes:
  assumes "decideOAuthAuthorizationRequest sv c body r d = (w, d')"
  obtains (none) "db_auth_codes d' = db_auth_codes d" | (one) k where "db_auth_codes d' = db_auth_codes d @ [k]"
  using assms by (cases rule: decide_cases) auto

lemma consumed_live:
  "{x \<in> set (sql_update (\<lambda>x. ac_uid x = ac_uid k \<and> ac_consumed_at x = None) (\<lambda>x. x\<lparr>ac_consumed_at := Some t\<rparr>) ks). ac_consumed_at x = None} \<subseteq>
     {x \<in> set ks. ac_consumed_at x = None} - {k}" (is "?new \<subseteq> ?old")
proof
  fix x
  assume "x \<in> ?new"
  then obtain y where y: "y \<in> set ks" and x: "x = (if ac_uid y = ac_uid k \<and> ac_consumed_at y = None then y\<lparr>ac_consumed_at := Some t\<rparr> else y)"
    and none: "ac_consumed_at x = None" unfolding sql_update_def by force
  have "\<not> (ac_uid y = ac_uid k \<and> ac_consumed_at y = None)"
  proof
    assume "ac_uid y = ac_uid k \<and> ac_consumed_at y = None"
    then have "ac_consumed_at x = Some t" using x by simp
    then show False using none by simp
  qed
  then show "x \<in> ?old" using x y none by (auto split: if_splits)
qed

lemma token_codes:
  assumes "oauthToken sv c r d = (w, d')"
  obtains (none) "db_auth_codes d' = db_auth_codes d" "exchange_events sv r w = []"
  | (one) k where "k \<in> live_codes d" "exchange_events sv r w = [Exchanged (ac_code_hash k)]" "live_codes d' \<subseteq> live_codes d - {k}"
  using assms
proof (cases rule: oauthToken_cases)
  case (refused cs)
  then show ?thesis using none by (auto simp: exchange_events_def split: sum.splits)
next
  case (exchanged form client cs d1 k s m)
  from exchanged(7) show ?thesis
  proof (cases rule: exchange_cases)
    case refused
    then show ?thesis using none exchanged(2) by (auto simp: exchange_events_def split: sum.splits)
  next
    case (issued audience at it)
    have k: "k \<in> live_codes d" "ac_code_hash k = SessionHash_of sv (singleFormValue form ''code'')"
      using code_rowD [OF exchanged(5)] exchanged(2,6) by (auto simp: live_codes_def code_accepted_def)
    have "live_codes d' \<subseteq> live_codes d - {k}"
      using token_tx_shape [OF issued(4)] exchanged(2) consumed_live [of k "ca_now c" "db_auth_codes d"]
      by (elim exE) (simp add: add_audit_def live_codes_def)
    moreover have "exchange_events sv r w = [Exchanged (ac_code_hash k)]"
      using exchanged(1) issued(5) k(2) by (simp add: exchange_events_def token_response_def with_header_def writeJSON_def)
    ultimately show ?thesis using one k(1) by blast
  qed
qed

lemma revoke_codes: "oauthRevoke sv c r d = (w, d') \<Longrightarrow> db_auth_codes d' = db_auth_codes d"
  by (auto simp: oauthRevoke_def Let_def split: sum.splits prod.splits if_splits elim!: authenticate_frame)

lemma withdraw_codes: "revokeOAuthConsent sv c r d = (w, d') \<Longrightarrow> db_auth_codes d' = db_auth_codes d"
  by (auto simp: add_audit_def elim!: revoke_consent_cases)

lemma cleanup_step_codes:
  "\<forall>(name, q) \<in> set cleanups. \<forall>now d. set (db_auth_codes (snd (q now d))) \<subseteq> set (db_auth_codes d)"
  by (simp add: cleanups_def clean_defs split_beta put_jobs_def batch_subset)

lemma cleanup_loop_codes:
  assumes "\<forall>(name, q) \<in> set cs. \<forall>now d. set (db_auth_codes (snd (q now d))) \<subseteq> set (db_auth_codes d)"
  shows "set (db_auth_codes (snd (cleanup_loop flt now cs full d))) \<subseteq> set (db_auth_codes d)"
  using assms
proof (induction cs arbitrary: d full)
  case (Cons q cs)
  obtain name query where q: "q = (name, query)" by fastforce
  have "set (db_auth_codes (snd (cleanup_loop flt now cs full' (snd (query now d))))) \<subseteq> set (db_auth_codes d)" for full'
    using Cons.IH [of full' "snd (query now d)"] Cons.prems by (fastforce simp: q)
  then show ?case by (simp add: q split_beta)
qed simp

lemma cleanup_codes: "live_codes (snd (runMaintenanceCleanup c d)) \<subseteq> live_codes d"
proof -
  have "set (db_auth_codes (snd (runMaintenanceCleanup c d))) \<subseteq> set (db_auth_codes d)"
    using cleanup_loop_codes [OF cleanup_step_codes, of "ca_flt c" "ca_now c" _ "d\<lparr>db_idempotency := t\<rparr>" for t]
    unfolding runMaintenanceCleanup_def by (auto split: prod.splits sum.splits if_splits) (metis snd_conv subsetD)+
  then show ?thesis by (auto simp: live_codes_def)
qed

section \<open>Codes are redeemed at most once\<close>

definition live_with :: "byte list \<Rightarrow> db \<Rightarrow> auth_code_row set" where
  "live_with h d = {k \<in> live_codes d. ac_code_hash k = h}"

lemma finite_live [simp]: "finite (live_with h d)"
  unfolding live_with_def live_codes_def by simp

lemma live_mono: "live_codes d' \<subseteq> live_codes d \<Longrightarrow> card (live_with h d') \<le> card (live_with h d)"
  by (rule card_mono [OF finite_live]) (auto simp: live_with_def)

lemma same_codes: "db_auth_codes d' = db_auth_codes d \<Longrightarrow> card (live_with h d') = card (live_with h d) \<and> issued_events d d' = []"
  by (simp add: live_with_def live_codes_def issued_events_def)

lemma live_insert:
  assumes "db_auth_codes d' = db_auth_codes d @ [k]"
  shows "card (live_with h d') \<le> card (live_with h d) + count_list (issued_events d d') (Issued h)"
proof (cases "ac_code_hash k = h")
  case True
  have "live_with h d' \<subseteq> insert k (live_with h d)" using assms by (auto simp: live_with_def live_codes_def)
  then have "card (live_with h d') \<le> card (insert k (live_with h d))" by (intro card_mono) simp_all
  also have "\<dots> \<le> card (live_with h d) + 1" by (simp add: card_insert_if)
  finally show ?thesis using assms True by (simp add: issued_events_def)
next
  case False
  then have "live_with h d' = live_with h d" using assms by (auto simp: live_with_def live_codes_def)
  then show ?thesis by simp
qed

lemma live_remove:
  assumes "k \<in> live_codes d" "live_codes d' \<subseteq> live_codes d - {k}"
  shows "card (live_with h d') + count_list [Exchanged (ac_code_hash k)] (Exchanged h) \<le> card (live_with h d)"
proof (cases "ac_code_hash k = h")
  case True
  then have k: "k \<in> live_with h d" using assms(1) by (simp add: live_with_def)
  have "live_with h d' \<subseteq> live_with h d - {k}" using assms(2) by (auto simp: live_with_def)
  then have "card (live_with h d') \<le> card (live_with h d - {k})" by (rule card_mono [rotated]) simp
  with k True show ?thesis using card_Suc_Diff1 [OF finite_live k] by simp
next
  case False
  then show ?thesis using live_mono [of d' d h] assms(2) by auto
qed

lemma no_exchange [simp]: "count_list (issued_events d d') (Exchanged h) = 0"
  by (simp add: issued_events_def count_list_0_iff image_iff)

lemma no_issue [simp]: "count_list (exchange_events sv r w) (Issued h) = 0"
  by (simp add: exchange_events_def split: sum.splits)

lemma flow_bound:
  "flow sv d0 es d \<Longrightarrow>
     card (live_with h d) + count_list es (Exchanged h) \<le> card (live_with h d0) + count_list es (Issued h)"
proof (induction rule: flow.induct)
  case (authorize es d c r w d')
  then show ?case using same_codes [OF authorize_codes [OF authorize(2)], of h] by simp
next
  case (decide es d c body r w d')
  from decide(2) show ?case
  proof (cases rule: decide_codes)
    case none
    then show ?thesis using decide.IH same_codes [OF none, of h] by simp
  next
    case (one k)
    then show ?thesis using decide.IH live_insert [OF one, of h] by simp
  qed
next
  case (token es d c r w d')
  from token(2) show ?case
  proof (cases rule: token_codes)
    case none
    then show ?thesis using token.IH same_codes [OF none(1), of h] by simp
  next
    case (one k)
    then show ?thesis using token.IH live_remove [OF one(1,3), of h] by simp
  qed
next
  case (revoke es d c r w d')
  then show ?case using same_codes [OF revoke_codes [OF revoke(2)], of h] by simp
next
  case (withdraw es d c r w d')
  then show ?case using same_codes [OF withdraw_codes [OF withdraw(2)], of h] by simp
next
  case (cleanup es d c)
  then show ?case using live_mono [OF cleanup_codes [of c d], of h] by simp
next
  case (elsewhere es d d')
  then show ?case using live_mono [OF elsewhere(2), of h] by simp
qed simp

text \<open>C2 (codes_are_single_use): in every run of the authorization, decision, token, revocation and consent endpoints and of the
  cleanup job, in any order, with any faults and from a database without open codes, a code is redeemed for
  tokens at most as often as it was issued by an approval: once, when the issued secrets do not repeat.\<close>

theorem codes_are_single_use:
  assumes "flow sv d0 es d" and "live_codes d0 = {}"
  shows "count_list es (Exchanged h) \<le> count_list es (Issued h)"
proof -
  have "live_with h d0 = {}" using assms(2) by (simp add: live_with_def)
  then show ?thesis using flow_bound [OF assms(1), of h] by simp
qed

section \<open>From approval to userinfo\<close>

lemma sign_frame: "db_signing_keys d' = db_signing_keys d \<Longrightarrow> signOAuthJWT sv c claims d' = signOAuthJWT sv c claims d"
  by (simp add: signOAuthJWT_def activeOAuthSigningKey_def)

lemma sign_nonempty: "signOAuthJWT sv c claims d = Inr at \<Longrightarrow> at \<noteq> []"
  by (auto simp: signOAuthJWT_def Let_def split: sum.splits option.splits)

text \<open>No row of the table clashes with the token to be inserted.\<close>

definition fresh_token :: "server \<Rightarrow> call \<Rightarrow> string \<Rightarrow> db \<Rightarrow> bool" where
  "fresh_token sv c at d \<longleftrightarrow> ca_uid c ''token'' \<notin> tk_uid ` set (db_access_tokens d) \<and> ca_uid c ''jti'' \<notin> tk_jti ` set (db_access_tokens d) \<and>
     SessionHash_of sv at \<notin> tk_token_hash ` set (db_access_tokens d)"

lemma exchange_succeeds:
  assumes flt: "ca_flt c = no_faults" and aud: "token_audience sv c k d = Some audience"
    and at: "signOAuthJWT sv c (access_claims sv c client k s audience (ca_now c + token_ttl sv)) d = Inr at"
    and it: "signOAuthJWT sv c (id_claims sv c client k s m (ca_now c + token_ttl sv)) d = Inr it"
    and fresh: "fresh_token sv c at d"
  obtains d' a where "exchange_code sv c client k s m d = (token_response k at it (token_ttl sv), d')"
    "d' = add_audit a (d\<lparr>db_auth_codes := sql_update (\<lambda>x. ac_uid x = ac_uid k \<and> ac_consumed_at x = None)
       (\<lambda>x. x\<lparr>ac_consumed_at := Some (ca_now c)\<rparr>) (db_auth_codes d),
       db_access_tokens := db_access_tokens d @ [new_token_row sv c k s at (ca_now c + token_ttl sv)]\<rparr>)"
proof -
  have ok: "\<not> list_ex (\<lambda>x. tk_uid x = ca_uid c ''token'' \<or> tk_token_hash x = SessionHash_of sv at \<or> tk_jti x = ca_uid c ''jti'') (db_access_tokens d)"
    using fresh by (auto simp: fresh_token_def list_ex_iff image_iff)
  then have "token_tx sv c k s audience at (ca_now c + token_ttl sv) d \<noteq> None"
    by (simp add: token_tx_def consume_code_def insert_token_def token_audit_def stmt_def flt new_token_row_def)
  then obtain d' where tx: "token_tx sv c k s audience at (ca_now c + token_ttl sv) d = Some d'" by blast
  then have "exchange_code sv c client k s m d = (token_response k at it (token_ttl sv), d')"
    by (simp add: exchange_code_def Let_def aud at it)
  with token_tx_shape [OF tx] that show thesis by blast
qed

lemma sql_row_last: "sql_row P ks = None \<Longrightarrow> P k \<Longrightarrow> sql_row P (ks @ [k]) = Some k"
  by (induction ks) (auto split: if_splits)

lemma sql_row_strengthen: "sql_row P t = Some x \<Longrightarrow> Q x \<Longrightarrow> sql_row (\<lambda>y. P y \<and> Q y) t = Some x"
  by (induction t) (auto split: if_splits)

lemma code_row_last:
  assumes "db_auth_codes d = ks @ [k]" "SessionHash_of sv code = ac_code_hash k" "ac_code_hash k \<notin> ac_code_hash ` set ks"
    "active_application d (ac_application_uid k) \<noteq> None" "subject_of d k = Some s" "member_of d (ac_tenant_member_uid k) = Some m"
  shows "code_row sv code d = Some (k, s, m)"
proof -
  let ?P = "\<lambda>k. ac_code_hash k = SessionHash_of sv code \<and> active_application d (ac_application_uid k) \<noteq> None \<and>
    subject_of d k \<noteq> None \<and> member_of d (ac_tenant_member_uid k) \<noteq> None"
  have "sql_row ?P ks = None" unfolding sql_row_None_iff using assms(2,3) by (auto simp: image_iff)
  moreover have "?P k" using assms by simp
  ultimately have "sql_row ?P (ks @ [k]) = Some k" by (rule sql_row_last)
  then show ?thesis unfolding code_row_def assms(1) using assms(5,6) by simp
qed

lemma decided_code_row:
  assumes run: "decideOAuthAuthorizationRequest sv c body r d = (w, d1)" and new: "db_auth_codes d1 = db_auth_codes d @ [k]"
    and code: "SessionHash_of sv code = ac_code_hash k" and member: "member_of d (ac_tenant_member_uid k) = Some m"
  obtains s where "code_row sv code d1 = Some (k, s, m)" "ac_consumed_at k = None"
  using run
proof (cases rule: decide_cases)
  case (approved input q s secret destination cs su au t)
  have k: "k = new_code_row sv c q s (mustPrincipal r) (''ca_code_'' @ secret)" using new approved(9) by simp
  obtain sub where sub: "subject_of d1 k = Some sub"
    using approved(9,11) sql_row_None_iff [of "\<lambda>x. su_application_uid x = ac_application_uid k \<and> su_tenant_member_uid x = ac_tenant_member_uid k" su]
    by (auto simp: subject_of_def k new_code_row_def)
  have "active_application d (ar_application_uid q) \<noteq> None"
    using approved(3) by (auto simp: decide_row_def split: option.splits dest: sql_row_SomeD)
  then have app: "active_application d1 (ac_application_uid k) \<noteq> None"
    using approved(9) by (simp add: active_application_def k new_code_row_def)
  have "ac_code_hash k \<notin> ac_code_hash ` set (db_auth_codes d)" using approved(8) by (simp add: k new_code_row_def)
  moreover have "member_of d1 (ac_tenant_member_uid k) = Some m" using member approved(9) by (simp add: member_of_def)
  ultimately have "code_row sv code d1 = Some (k, sub, m)" using code_row_last [OF new code _ app sub] by blast
  then show ?thesis using that by (simp add: k new_code_row_def)
qed (use new in simp_all)

lemma userinfo_of_new_token:
  assumes "db_access_tokens d = ts @ [t]" "tk_token_hash t = SessionHash_of sv at" "SessionHash_of sv at \<notin> tk_token_hash ` set ts"
    "tk_revoked_at t = None" "now < tk_expires_at t" "tk_resource_server_uid t = None" "active_member d (tk_tenant_member_uid t) = Some m"
    "active_application d (tk_application_uid t) \<noteq> None"
  shows "userinfo_row sv now at d = Some (t, m)"
proof -
  let ?P = "\<lambda>t. tk_token_hash t = SessionHash_of sv at \<and> tk_revoked_at t = None \<and> tk_expires_at t > now \<and>
     tk_resource_server_uid t = None \<and> active_member d (tk_tenant_member_uid t) \<noteq> None \<and> active_application d (tk_application_uid t) \<noteq> None"
  have "sql_row ?P ts = None" unfolding sql_row_None_iff using assms(3) by (auto simp: image_iff)
  moreover have "?P t" using assms by simp
  ultimately have "sql_row ?P (ts @ [t]) = Some t" by (rule sql_row_last)
  then show ?thesis unfolding userinfo_row_def assms(1) using assms(7) by simp
qed

text \<open>The claims about the member that the scopes of a token release.\<close>

definition shared_claims :: "string list \<Rightarrow> member_row \<Rightarrow> (string \<times> json) list" where
  "shared_claims scopes m =
     (if ''email'' \<in> set scopes then [(''email'', JStr (tm_email m)), (''email_verified'', JBool (tm_email_verified_at m \<noteq> None))] else []) @
     (if ''profile'' \<in> set scopes then [(''name'', JStr (tm_display_name m))] else [])"

lemma userinfo_answer:
  assumes "userinfo_row sv (ca_now c) at d = Some (t, m)" "ca_flt c = no_faults" "hq_header r ''Authorization'' = ''Bearer '' @ at"
    "at \<noteq> []" "length at \<le> 8192" "tm_status m = ''active''"
  shows "oauthUserInfo sv c r d = (writeJSON 200 (JObj (shared_claims (tk_scopes t) m @ [(''sub'', JStr (tk_subject t))])), d)"
  using assms(1,2,4-) unfolding oauthUserInfo_def Let_def assms(3) TrimPrefix_append
  by (simp add: shared_claims_def scopeContains_def list_ex_iff)

lemma token_succeeds:
  assumes "parseOAuthForm sv r = Inr form" "singleFormValue form ''grant_type'' = ''authorization_code''"
    "authenticateOAuthClient sv c r form d = (Inr client, d1)" "singleFormValue form ''code'' \<noteq> []" "singleFormValue form ''redirect_uri'' \<noteq> []"
    "pkceVerifierPattern (singleFormValue form ''code_verifier'')" "ca_flt c = no_faults"
    "code_row sv (singleFormValue form ''code'') d1 = Some (k, s, m)"
    "code_accepted sv (ca_now c) client (singleFormValue form ''redirect_uri'') (singleFormValue form ''code_verifier'') k m"
  shows "oauthToken sv c r d = exchange_code sv c client k s m d1"
  using assms by (simp add: oauthToken_def)


section \<open>A complete run\<close>

definition flow_verifier :: string where
  "flow_verifier = replicate 43 CHR ''a''"

definition flow_code :: string where
  "flow_code = ''ca_code_'' @ the (RandomToken (ca_rand demo_call ''code''))"

definition flow_form :: form where
  "flow_form = [(''grant_type'', [''authorization_code'']), (''client_id'', [''client'']), (''code'', [flow_code]),
     (''redirect_uri'', [''https://app/cb'']), (''code_verifier'', [flow_verifier])]"

definition flow_server :: server where
  "flow_server = demo_server\<lparr>ParseQuery := (\<lambda>_. Some flow_form)\<rparr>"

definition flow_input :: oauthAuthorizationDecisionInput where
  "flow_input = \<lparr>dc_RequestToken = replicate 40 CHR ''x'', dc_Decision = ''approve''\<rparr>"

definition flow_row :: auth_request_row where
  "flow_row =
     \<lparr>ar_uid = ''q'', ar_request_secret_hash = SessionHash_of flow_server (dc_RequestToken flow_input), ar_application_uid = ''a'',
      ar_tenant_uid = ''t'', ar_redirect_uri = ''https://app/cb'', ar_scopes = [''openid''], ar_state = ''state'', ar_nonce = ''nonce'',
      ar_code_challenge = computed_challenge flow_server flow_verifier, ar_status = ''pending'', ar_tenant_member_uid = None,
      ar_created_at = 0, ar_expires_at = 2000 * Second, ar_resolved_at = None, ar_resource_server_uid = None\<rparr>"

definition flow_db :: "signing_key_row list \<Rightarrow> db" where
  "flow_db ks = demo_oauth_db\<lparr>db_auth_requests := [flow_row], db_signing_keys := ks\<rparr>"

definition flow_request :: http_request where
  "flow_request = Api_Base.demo_request\<lparr>hq_principal := Some demo_principal,
     hq_header := (\<lambda>name. if name = ''Content-Type'' then ''application/x-www-form-urlencoded'' else ''key'')\<rparr>"

lemma random_some: "\<exists>token. RandomToken (ca_rand demo_call site) = Some token"
  by (simp add: RandomToken_def rand_Read_def demo_call_def)

definition flow_idem :: IdempotencyRequest where
  "flow_idem = decide_request flow_server demo_principal ''key'' flow_input"

lemma flow_idem_valid: "validateIdempotencyRequest flow_idem = None"
proof -
  have "TrimSpace ''m'' = ''m''" "TrimSpace ''key'' = ''key''"
    by (rule TrimSpace_visible; simp add: visible_c_def)+
  moreover have "idempotencyPrincipalType ''tenant_member''" "idempotencyOperation ''oauth_authorization_requests.decide''"
    by (simp_all add: idempotencyPrincipalType_def idempotencyOperation_def head_tail_match_def char_class_defs less_eq_char_def)
  moreover have "\<not> ContainsControl ''key''" by code_simp
  ultimately show ?thesis
    by (simp add: validateIdempotencyRequest_def flow_idem_def decide_request_def demo_principal_def time_defs)
qed

lemma flow_begin:
  "beginIdempotentRequest flow_server demo_call flow_request flow_idem (flow_db ks) =
     (Inr (empty_claim\<lparr>cl_LeaseUID := ''u-idempotency lease''\<rparr>), (flow_db ks)\<lparr>db_idempotency := [claim_row (1000 * Second) ''u-idempotency lease'' flow_idem]\<rparr>)"
  using Begin_new [OF flow_idem_valid, of "[]"]
  by (simp add: beginIdempotentRequest_def demo_call_def flow_db_def demo_oauth_defs empty_claim_def uuid_Nil_def)

lemma flow_finish:
  assumes "db_idempotency tx = [claim_row (1000 * Second) ''u-idempotency lease'' flow_idem]" "sr_Status response = 200"
  shows "\<exists>t. finish_tx flow_server demo_call flow_idem ''u-idempotency lease'' response tx = Some (tx\<lparr>db_idempotency := t\<rparr>)"
proof -
  have "finish_tx flow_server demo_call flow_idem ''u-idempotency lease'' response tx \<noteq> None"
    using assms by (simp add: finish_tx_def CompleteTx_def Complete_checks_def flow_idem_valid uuid_Nil_def flow_server_def demo_server_def
        demo_codec_h_def completeIdempotency_def completes_def claim_row_def demo_call_def)
  then show ?thesis using finish_tx_shape by blast
qed

lemma flow_decide_row: "decide_row flow_server demo_principal (dc_RequestToken flow_input) ((flow_db ks)\<lparr>db_idempotency := t\<rparr>) = Some (flow_row, demo_session)"
  by (simp add: decide_row_def flow_db_def flow_row_def active_application_def demo_principal_def demo_oauth_defs)

lemma flow_approve:
  "\<exists>cs su au. approve_tx flow_server demo_call flow_row demo_session demo_principal code secret ((flow_db ks)\<lparr>db_idempotency := t\<rparr>) =
     Some ((flow_db ks)\<lparr>db_idempotency := t, db_auth_requests := resolved_requests demo_call ''approved'' flow_row demo_principal [flow_row],
       db_auth_codes := [new_code_row flow_server demo_call flow_row demo_session demo_principal code], db_consents := cs, db_subjects := su, db_audit := au\<rparr>)"
  by (simp add: approve_tx_def resolve_request_def insert_code_def upsert_consent_def insert_subject_def decision_audit_def stmt_def Let_def
      demo_call_def flow_db_def demo_oauth_defs add_audit_def resolved_requests_def)

lemma flow_decided:
  "\<exists>w d1. decideOAuthAuthorizationRequest flow_server demo_call (Some flow_input) flow_request (flow_db ks) = (w, d1) \<and>
     db_auth_codes d1 = [new_code_row flow_server demo_call flow_row demo_session demo_principal flow_code] \<and>
     db_signing_keys d1 = ks \<and> db_access_tokens d1 = [] \<and> db_applications d1 = [demo_application]"
proof -
  let ?t = "[claim_row (1000 * Second) ''u-idempotency lease'' flow_idem]"
  let ?d = "(flow_db ks)\<lparr>db_idempotency := ?t\<rparr>"
  obtain code secret where rand: "RandomToken (ca_rand demo_call ''code'') = Some code" "RandomToken (ca_rand demo_call ''subject'') = Some secret"
    using random_some by blast
  have code: "''ca_code_'' @ code = flow_code" by (simp add: flow_code_def rand)
  obtain cs su au where tx: "approve_tx flow_server demo_call flow_row demo_session demo_principal flow_code secret ?d =
     Some (?d\<lparr>db_auth_requests := resolved_requests demo_call ''approved'' flow_row demo_principal [flow_row],
       db_auth_codes := [new_code_row flow_server demo_call flow_row demo_session demo_principal flow_code], db_consents := cs, db_subjects := su, db_audit := au\<rparr>)"
      (is "_ = Some ?d2") using flow_approve by blast
  have url: "oauthCallbackURL flow_server (ar_redirect_uri flow_row) vals = Some (ar_redirect_uri flow_row)" for vals
    by (simp add: oauthCallbackURL_def flow_server_def demo_server_def)
  have recheck: "recheck_grant flow_server demo_call (ar_tenant_uid flow_row) (ar_application_uid flow_row) (ar_scopes flow_row) (ar_resource_server_uid flow_row) d = Some True" for d
    by (simp add: recheck_grant_def flow_row_def)
  have "\<exists>t. finish_tx flow_server demo_call flow_idem ''u-idempotency lease'' (redirect_response flow_server (ar_redirect_uri flow_row)) ?d2 = Some (?d2\<lparr>db_idempotency := t\<rparr>)"
    by (rule flow_finish) (simp_all add: redirect_response_def storedJSONResponse_def)
  then obtain t where fin: "finish_tx flow_server demo_call flow_idem ''u-idempotency lease'' (redirect_response flow_server (ar_redirect_uri flow_row)) ?d2 = Some (?d2\<lparr>db_idempotency := t\<rparr>)"
    by blast
  have resp: "respond_stored flow_server demo_call flow_request flow_idem ''u-idempotency lease'' (redirect_response flow_server (ar_redirect_uri flow_row)) (Some ?d2) msg ?d =
      (writeStoredResponse (redirect_response flow_server (ar_redirect_uri flow_row)), ?d2\<lparr>db_idempotency := t\<rparr>)" for msg
    unfolding respond_stored_def Option.bind_lunit fin by simp
  have pend: "(ar_status flow_row \<noteq> ''pending'' \<or> \<not> ar_expires_at flow_row > ca_now demo_call) = False"
    by (simp add: flow_row_def demo_call_def time_defs)
  have flt: "(ca_flt demo_call ''begin transaction'' \<or> ca_flt demo_call ''load authorization request'') = False" by (simp add: demo_call_def)
  have approve: "(dc_Decision flow_input = ''deny'') = False" by (simp add: flow_input_def)
  have inner: "decide_tx flow_server demo_call demo_principal flow_input flow_idem ''u-idempotency lease'' flow_request ?d =
      (writeStoredResponse (redirect_response flow_server (ar_redirect_uri flow_row)), ?d2\<lparr>db_idempotency := t\<rparr>)"
    unfolding decide_tx_def Let_def flt if_False flow_decide_row option.case prod.case pend approve recheck bool.case rand url code tx resp ..
  have checks: "(dc_Decision flow_input \<noteq> ''approve'' \<and> dc_Decision flow_input \<noteq> ''deny'' \<or> length (dc_RequestToken flow_input) < 40 \<or>
      length (dc_RequestToken flow_input) > 256) = False" "(hq_header flow_request ''Idempotency-Key'' = []) = False"
    "mustPrincipal flow_request = demo_principal" "hq_header flow_request ''Idempotency-Key'' = ''key''"
    by (simp_all add: flow_input_def flow_request_def mustPrincipal_def)
  have lease: "cl_LeaseUID (empty_claim\<lparr>cl_LeaseUID := ''u-idempotency lease''\<rparr>) = ''u-idempotency lease''" by simp
  have "decideOAuthAuthorizationRequest flow_server demo_call (Some flow_input) flow_request (flow_db ks) =
      (writeStoredResponse (redirect_response flow_server (ar_redirect_uri flow_row)), ?d2\<lparr>db_idempotency := t\<rparr>)"
    unfolding decideOAuthAuthorizationRequest_def option.case Let_def checks if_False flow_idem_def [symmetric] flow_begin prod.case sum.case lease inner by simp
  then show ?thesis by (simp add: flow_db_def demo_oauth_db_def empty_db_def)
qed

lemma flow_parse: "parseOAuthForm flow_server flow_request = Inr flow_form"
  by (simp add: parseOAuthForm_def flow_server_def demo_server_def flow_request_def Api_Base.demo_request_def flow_form_def)

definition flow_client :: oauthClientRecord where
  "flow_client = \<lparr>oc_UID = ''a'', oc_TenantUID = ''t'', oc_ClientID = ''client'', oc_ApplicationType = ''public''\<rparr>"

lemma flow_values [simp]:
  "singleFormValue flow_form ''grant_type'' = ''authorization_code''" "singleFormValue flow_form ''code'' = flow_code"
  "singleFormValue flow_form ''redirect_uri'' = ''https://app/cb''" "singleFormValue flow_form ''code_verifier'' = flow_verifier"
  "singleFormValue flow_form ''client_id'' = ''client''" "singleFormValue flow_form ''client_secret'' = []"
  by (simp_all add: singleFormValue_def flow_form_def)

lemma flow_authenticated:
  assumes "db_applications d = [demo_application]"
  shows "fst (authenticateOAuthClient flow_server demo_call flow_request flow_form d) = Inr flow_client"
  by (simp add: authenticateOAuthClient_def Let_def flow_request_def Api_Base.demo_request_def client_row_def assms demo_application_def
      demo_call_def flow_client_def)

lemma flow_signs:
  assumes "db_signing_keys d = [row]" "sg_status row = ''active''" "key_usable demo_server row"
  shows "\<exists>j. signOAuthJWT flow_server demo_call claims d = Inr j"
proof -
  have "ca_flt demo_call = no_faults" by (simp add: demo_call_def)
  with assms obtain der where "activeOAuthSigningKey flow_server demo_call d = Inr (sg_kid row, der)"
    by (auto simp: activeOAuthSigningKey_def key_usable_def flow_server_def)
  moreover have "rsa_Sign flow_server der x = Some [9]" for der x by (simp add: flow_server_def demo_server_def)
  ultimately show ?thesis by (simp add: signOAuthJWT_def Let_def)
qed


theorem codes_are_single_use_witness:
  "\<exists>d. flow flow_server (flow_db []) [Issued (SessionHash_of flow_server flow_code)] d \<and>
     count_list [Issued (SessionHash_of flow_server flow_code)] (Exchanged (SessionHash_of flow_server flow_code)) \<le> 1"
proof -
  let ?h = "SessionHash_of flow_server flow_code"
  obtain w d where run: "decideOAuthAuthorizationRequest flow_server demo_call (Some flow_input) flow_request (flow_db []) = (w, d)"
    and codes: "db_auth_codes d = [new_code_row flow_server demo_call flow_row demo_session demo_principal flow_code]" using flow_decided by blast
  have none: "db_auth_codes (flow_db []) = []" by (simp add: flow_db_def demo_oauth_db_def empty_db_def)
  then have "issued_events (flow_db []) d = [Issued ?h]" using codes by (simp add: issued_events_def new_code_row_def)
  then have "flow flow_server (flow_db []) [Issued ?h] d" using flow.decide [OF flow.start run] by simp
  moreover have "live_codes (flow_db []) = {}" using none by (simp add: live_codes_def)
  ultimately show ?thesis using codes_are_single_use [of flow_server "flow_db []" "[Issued ?h]" d ?h] by auto
qed

end
