(* ===== verification/Api_Conventions.thy ===== *)
theory Api_Conventions
  imports OAuth_Scopes Email_Delivery "HOL-Library.Multiset"
begin

text \<open>
  Conventions the console's resources share: keyset pagination with opaque cursors
  (\<open>internal/api/pagination.go\<close> and the listing loop of every list handler) and optimistic concurrency with version
  ETags (\<open>internal/api/oauth_applications.go\<close>, \<open>requireIfMatch\<close> and its companions). The interface of a handler that
  changes a versioned row is the locale \<open>versioned\<close>.
\<close>

section \<open>Numbers\<close>

text \<open>\<open>strconv.ParseInt(s, 10, 64)\<close>, and \<open>strconv.Atoi\<close> on a 64-bit platform.\<close>

definition ParseInt64 :: "string \<Rightarrow> int option" where
  "ParseInt64 s =
     (let neg = (s \<noteq> [] \<and> hd s = CHR ''-''); ds = (if s \<noteq> [] \<and> (hd s = CHR ''-'' \<or> hd s = CHR ''+'') then tl s else s) in
      if ds = [] then None
      else (case digits_value 0 ds of
              None \<Rightarrow> None
            | Some n \<Rightarrow> let v = (if neg then - int n else int n) in if - (2 ^ 63) \<le> v \<and> v < 2 ^ 63 then Some v else None))"

section \<open>Cursors\<close>

type_synonym pageCursor = "time \<times> uid"

text \<open>The zero \<open>time.Time\<close>, the first instant of year 1.\<close>

definition zero_time :: time where
  "zero_time = - 62135596800 * Second"

definition cursor_json :: "pageCursor \<Rightarrow> json" where
  "cursor_json k = JObj [(''created_at'', JNum (fst k)), (''uid'', JStr (snd k))]"

text \<open>Decoding into the struct: a missing field is its zero value, a value of another type is an error.\<close>

definition json_cursor :: "json \<Rightarrow> pageCursor option" where
  "json_cursor j =
     (case j of
        JObj entries \<Rightarrow>
          (case (map_of (rev entries) ''created_at'', map_of (rev entries) ''uid'') of
             (Some (JNum t), Some (JStr u)) \<Rightarrow> Some (t, u)
           | (Some (JNum t), None) \<Rightarrow> Some (t, [])
           | (None, Some (JStr u)) \<Rightarrow> Some (zero_time, u)
           | (None, None) \<Rightarrow> Some (zero_time, [])
           | _ \<Rightarrow> None)
      | _ \<Rightarrow> None)"

definition page_limit :: "string \<Rightarrow> nat option" where
  "page_limit value =
     (if value = [] then Some 25
      else (case ParseInt64 value of
              None \<Rightarrow> None
            | Some parsed \<Rightarrow> if parsed < 1 \<or> parsed > 100 then None else Some (nat parsed)))"

definition pagination :: "server \<Rightarrow> http_request \<Rightarrow> string + nat \<times> pageCursor option" where
  "pagination sv r =
     (case page_limit (hq_query r ''limit'') of
        None \<Rightarrow> Inl ''limit must be between 1 and 100''
      | Some limit \<Rightarrow>
          if hq_query r ''cursor'' = [] then Inr (limit, None)
          else (case RawURLDecode (hq_query r ''cursor'') of
            None \<Rightarrow> Inl ''cursor is invalid''
          | Some raw \<Rightarrow>
              (case Option.bind (json_parse sv (string_of_bytes raw)) json_cursor of
                 None \<Rightarrow> Inl ''cursor is invalid''
               | Some cursor \<Rightarrow>
                   if snd cursor = [] \<or> fst cursor = zero_time then Inl ''cursor is invalid'' else Inr (limit, Some cursor))))"

definition nextCursor :: "server \<Rightarrow> pageCursor \<Rightarrow> string" where
  "nextCursor sv k = RawURLEncode (bytes_of (json_text sv (cursor_json k)))"

section \<open>Pages\<close>

text \<open>\<open>ORDER BY created_at DESC, uid DESC\<close>.\<close>

definition newest_first :: "('r \<Rightarrow> pageCursor) \<Rightarrow> 'r list \<Rightarrow> 'r list" where
  "newest_first pos t = rev (sort_key pos t)"

definition before_cursor :: "('r \<Rightarrow> pageCursor) \<Rightarrow> pageCursor option \<Rightarrow> 'r \<Rightarrow> bool" where
  "before_cursor pos cursor x = (case cursor of None \<Rightarrow> True | Some k \<Rightarrow> pos x < k)"

text \<open>One row more than the page is fetched to see whether there is another page.\<close>

definition page_rows :: "('r \<Rightarrow> pageCursor) \<Rightarrow> ('r \<Rightarrow> bool) \<Rightarrow> nat \<Rightarrow> pageCursor option \<Rightarrow> 'r list \<Rightarrow> 'r list" where
  "page_rows pos p limit cursor t = take (limit + 1) (newest_first pos (filter (\<lambda>x. p x \<and> before_cursor pos cursor x) t))"

definition cut_page :: "('r \<Rightarrow> pageCursor) \<Rightarrow> nat \<Rightarrow> 'r list \<Rightarrow> 'r list \<times> pageCursor option" where
  "cut_page pos limit items =
     (if length items > limit then (take limit items, Some (pos (items ! (limit - 1)))) else (items, None))"

definition keyset_page ::
  "('r \<Rightarrow> pageCursor) \<Rightarrow> ('r \<Rightarrow> bool) \<Rightarrow> nat \<Rightarrow> pageCursor option \<Rightarrow> 'r list \<Rightarrow> 'r list \<times> pageCursor option" where
  "keyset_page pos p limit cursor t = cut_page pos limit (page_rows pos p limit cursor t)"

definition page_json :: "server \<Rightarrow> ('r \<Rightarrow> json) \<Rightarrow> 'r list \<times> pageCursor option \<Rightarrow> json" where
  "page_json sv item page =
     JObj [(''items'', JArr (map item (fst page))),
           (''next_cursor'', case snd page of None \<Rightarrow> JNull | Some k \<Rightarrow> JStr (nextCursor sv k))]"

text \<open>
  The body of a list handler: \<open>site\<close> names its query. The cursor's identifier is cast to a UUID in the query, which
  fails otherwise.
\<close>

definition list_page ::
  "server \<Rightarrow> call \<Rightarrow> string \<Rightarrow> string \<Rightarrow> ('r \<Rightarrow> pageCursor) \<Rightarrow> ('r \<Rightarrow> bool) \<Rightarrow> ('r \<Rightarrow> json) \<Rightarrow> (db \<Rightarrow> 'r list) \<Rightarrow> handler" where
  "list_page sv c site message pos p item table r d =
     (case pagination sv r of
        Inl e \<Rightarrow> (fail r 400 ''invalid_pagination'' e, d)
      | Inr (limit, cursor) \<Rightarrow>
          if ca_flt c site \<or> (case cursor of None \<Rightarrow> False | Some k \<Rightarrow> \<not> uuid_ok sv (snd k))
          then (fail r 500 ''internal_error'' message, d)
          else (writeJSON 200 (page_json sv item (keyset_page pos p limit cursor (table d))), d))"

section \<open>Version ETags\<close>

definition versionETag :: "int \<Rightarrow> string" where
  "versionETag version = CHR 0x22 # int_text version @ [CHR 0x22]"

definition setVersionETag :: "int \<Rightarrow> http_response \<Rightarrow> http_response" where
  "setVersionETag version w = with_header ''ETag'' (versionETag version) w"

definition requireIfMatch :: "http_request \<Rightarrow> http_response + int" where
  "requireIfMatch r =
     (let value = hq_header r ''If-Match'' in
      if value = [] then
        Inl (fail r 428 ''if_match_required'' ''If-Match with the current resource ETag is required'')
      else if prefix ''W/'' value \<or> length value < 3 \<or> hd value \<noteq> CHR 0x22 \<or> last value \<noteq> CHR 0x22 then
        Inl (fail r 400 ''invalid_if_match'' ''If-Match must contain one strong numeric ETag'')
      else (case ParseInt64 (butlast (tl value)) of
        None \<Rightarrow> Inl (fail r 400 ''invalid_if_match'' ''If-Match must contain one strong numeric ETag'')
      | Some version \<Rightarrow>
          if version < 1 then Inl (fail r 400 ''invalid_if_match'' ''If-Match must contain one strong numeric ETag'')
          else Inr version))"

section \<open>Following the cursors visits every row once\<close>

lemma newest_first_filter: "newest_first pos (filter p t) = filter p (newest_first pos t)"
  by (simp add: newest_first_def filter_sort rev_filter [symmetric])

lemma newest_first_strict:
  assumes "distinct (map pos t)"
  shows "sorted_wrt (\<lambda>x y. pos y < pos x) (newest_first pos t)"
proof -
  have "sorted (map pos (sort_key pos t))" by simp
  moreover have "distinct (map pos (sort_key pos t))"
    using assms by (metis distinct_map distinct_sort set_sort)
  ultimately have "sorted_wrt (<) (map pos (sort_key pos t))" by (simp add: strict_sorted_iff)
  then show ?thesis by (simp add: newest_first_def sorted_wrt_rev sorted_wrt_map)
qed

lemma rows_below:
  fixes pos :: "'r \<Rightarrow> 'k::linorder"
  assumes "sorted_wrt (\<lambda>x y. pos y < pos x) L" "0 < n" "n \<le> length L"
  shows "filter (\<lambda>x. pos x < pos (L ! (n - 1))) L = drop n L"
proof -
  let ?k = "L ! (n - 1)"
  have split: "L = take (n - 1) L @ ?k # drop n L"
    using assms(2,3) id_take_nth_drop [of "n - 1" L] by simp
  then have "sorted_wrt (\<lambda>x y. pos y < pos x) (take (n - 1) L @ ?k # drop n L)" using assms(1) by metis
  then have "\<forall>x \<in> set (take (n - 1) L). pos ?k < pos x" "\<forall>x \<in> set (drop n L). pos x < pos ?k"
    by (auto simp: sorted_wrt_append)
  then have "filter (\<lambda>x. pos x < pos ?k) (take (n - 1) L @ ?k # drop n L) = drop n L"
    by (auto simp: filter_empty_conv dest: less_not_sym)
  then show ?thesis using split by metis
qed

fun walk :: "nat \<Rightarrow> ('r \<Rightarrow> pageCursor) \<Rightarrow> ('r \<Rightarrow> bool) \<Rightarrow> nat \<Rightarrow> pageCursor option \<Rightarrow> 'r list \<Rightarrow> 'r list list option" where
  "walk 0 pos p limit cursor t = None"
| "walk (Suc n) pos p limit cursor t =
     (case keyset_page pos p limit cursor t of
        (items, None) \<Rightarrow> Some [items]
      | (items, Some k) \<Rightarrow> map_option (Cons items) (walk n pos p limit (Some k) t))"

lemma filter_weaker: "(\<And>x. Q x \<Longrightarrow> P x) \<Longrightarrow> filter Q xs = filter Q (filter P xs)"
  by (induction xs) auto

lemma cursor_rows:
  assumes "distinct (map pos t)" and "0 < limit"
    and "S = filter (before_cursor pos cursor) (newest_first pos (filter p t))"
  shows "keyset_page pos p limit cursor t = (if length S > limit then (take limit S, Some (pos (S ! (limit - 1)))) else (S, None))"
    and "limit < length S \<Longrightarrow>
      filter (before_cursor pos (Some (pos (S ! (limit - 1))))) (newest_first pos (filter p t)) = drop limit S"
proof -
  have rows: "page_rows pos p limit cursor t = take (limit + 1) S"
    by (simp add: page_rows_def assms(3) newest_first_filter conj_commute)
  show "keyset_page pos p limit cursor t = (if length S > limit then (take limit S, Some (pos (S ! (limit - 1)))) else (S, None))"
    using assms(2) unfolding keyset_page_def cut_page_def rows by (auto simp: min_def)
  assume more: "limit < length S"
  let ?L = "newest_first pos (filter p t)" and ?k = "pos (S ! (limit - 1))"
  have "sorted_wrt (\<lambda>x y. pos y < pos x) ?L" by (rule newest_first_strict) (simp add: assms(1) distinct_map_filter)
  then have S: "sorted_wrt (\<lambda>x y. pos y < pos x) S" unfolding assms(3) by (rule sorted_wrt_filter)
  have "\<forall>x \<in> set S. before_cursor pos cursor x" by (simp add: assms(3))
  then have "before_cursor pos cursor (S ! (limit - 1))" using more by simp
  then have below: "before_cursor pos cursor x" if "pos x < ?k" for x
    using that unfolding before_cursor_def by (cases cursor) auto
  have "filter (before_cursor pos (Some ?k)) ?L = filter (before_cursor pos (Some ?k)) (filter (before_cursor pos cursor) ?L)"
    by (rule filter_weaker) (rule below, simp add: before_cursor_def)
  also have "\<dots> = filter (\<lambda>x. pos x < ?k) S" unfolding assms(3) [symmetric] by (simp add: before_cursor_def [abs_def])
  finally have "filter (before_cursor pos (Some ?k)) ?L = filter (\<lambda>x. pos x < ?k) S" .
  then show "filter (before_cursor pos (Some ?k)) ?L = drop limit S"
    using rows_below [OF S, of limit] assms(2) more by simp
qed

lemma walk_rows:
  assumes "distinct (map pos t)" and "0 < limit" and "length (filter (before_cursor pos cursor) (newest_first pos (filter p t))) < n"
  shows "\<exists>pages. walk n pos p limit cursor t = Some pages \<and>
    concat pages = filter (before_cursor pos cursor) (newest_first pos (filter p t)) \<and> (\<forall>page \<in> set pages. length page \<le> limit)"
  using assms(3)
proof (induction n arbitrary: cursor)
  case (Suc n)
  define S where "S = filter (before_cursor pos cursor) (newest_first pos (filter p t))"
  note page = cursor_rows [OF assms(1,2) S_def]
  show ?case
  proof (cases "limit < length S")
    case True
    have "length (drop limit S) < n" using Suc.prems assms(2) True by (simp add: S_def)
    then obtain pages where "walk n pos p limit (Some (pos (S ! (limit - 1)))) t = Some pages"
      "concat pages = drop limit S" "\<forall>page \<in> set pages. length page \<le> limit"
      using Suc.IH [of "Some (pos (S ! (limit - 1)))"] page(2) [OF True] by auto
    then show ?thesis using page(1) True by (simp add: S_def [symmetric])
  next
    case False
    then show ?thesis using page(1) by (simp add: S_def [symmetric])
  qed
qed simp

text \<open>C37 (paging_is_complete): following the cursors of a listing from the first page, with any page size, ends after at most one page more than
  there are rows, and the pages together are exactly the rows that belong to the listing, newest first, each once,
  with no page longer than the limit -- provided no two rows share the position by creation time and identifier.\<close>

theorem paging_is_complete:
  assumes "distinct (map pos t)" and "0 < limit"
  shows "\<exists>pages. walk (length t + 1) pos p limit None t = Some pages \<and> concat pages = newest_first pos (filter p t) \<and>
    mset (concat pages) = mset (filter p t) \<and> list_all (\<lambda>page. length page \<le> limit) pages"
proof -
  have none: "filter (before_cursor pos None) xs = xs" for xs by (simp add: before_cursor_def)
  have "length (newest_first pos (filter p t)) < length t + 1"
    using length_filter_le [of p t] by (simp add: newest_first_def less_Suc_eq_le)
  then obtain pages where pages: "walk (length t + 1) pos p limit None t = Some pages" "concat pages = newest_first pos (filter p t)"
    "\<forall>page \<in> set pages. length page \<le> limit"
    using walk_rows [OF assms, of None p "length t + 1"] unfolding none by auto
  moreover have "mset (newest_first pos (filter p t)) = mset (filter p t)" by (simp add: newest_first_def)
  ultimately show ?thesis by (auto simp: list_all_iff)
qed

theorem paging_is_complete_witness:
  "\<exists>pages. walk 4 (\<lambda>k. k) (\<lambda>k. fst k < 3) 1 None [(1, ''a''), (2, ''b''), (7, ''c'')] = Some pages \<and>
     concat pages = newest_first (\<lambda>k. k) [(1, ''a''), (2, ''b'')]"
  using paging_is_complete [of "\<lambda>k. k" "[(1, ''a''), (2, ''b''), (7, ''c'')]" 1 "\<lambda>k. fst k < 3"] by (auto simp: numeral_eq_Suc)

section \<open>Cursors and versions survive the round trip\<close>

text \<open>Lemma (cursor_round_trip): the cursor a page returns is accepted with the next request and stands for the same position, given that the
  JSON decoder reads back what the encoder wrote; only positions no row can have, an empty identifier or
  the zero time, are refused.\<close>

theorem cursor_round_trip:
  assumes "json_parse sv (json_text sv (cursor_json k)) = Some (cursor_json k)" and "json_text sv (cursor_json k) \<noteq> []" and "page_limit (hq_query r ''limit'') = Some limit"
    and "hq_query r ''cursor'' = nextCursor sv k" and "snd k \<noteq> []" and "fst k \<noteq> zero_time"
  shows "pagination sv r = Inr (limit, Some k)"
proof -
  have "json_cursor (cursor_json k) = Some k" by (simp add: json_cursor_def cursor_json_def)
  moreover have "nextCursor sv k \<noteq> []"
    using assms(2) RawURLDecode_Encode [of "bytes_of (json_text sv (cursor_json k))"] RawURLDecode_Encode [of "[]"]
    by (auto simp: nextCursor_def bytes_of_def RawURLEncode_def)
  ultimately show ?thesis using assms by (simp add: pagination_def nextCursor_def RawURLDecode_Encode)
qed

definition demo_cursor :: pageCursor where
  "demo_cursor = (5, ''u'')"

theorem cursor_round_trip_witness:
  "pagination (demo_server\<lparr>json_parse := \<lambda>_. Some (cursor_json demo_cursor)\<rparr>)
     (demo_request\<lparr>hq_query := (\<lambda>k. if k = ''cursor'' then nextCursor demo_server demo_cursor else [])\<rparr>) = Inr (25, Some demo_cursor)"
proof -
  let ?sv = "demo_server\<lparr>json_parse := \<lambda>_. Some (cursor_json demo_cursor)\<rparr>"
  have "json_parse ?sv (json_text ?sv (cursor_json demo_cursor)) = Some (cursor_json demo_cursor)" "json_text ?sv (cursor_json demo_cursor) \<noteq> []"
    by (simp_all add: demo_server_def)
  then show ?thesis
    by (rule cursor_round_trip) (simp_all add: page_limit_def nextCursor_def demo_cursor_def zero_time_def time_defs)
qed

lemma ParseInt64_text:
  assumes "1 \<le> v" "v < 2 ^ 63"
  shows "ParseInt64 (int_text v) = Some v"
proof -
  have ds: "int_text v = decimal (nat v)" using assms(1) by (simp add: int_text_def)
  have "is_digit_c (hd (decimal (nat v)))" using decimal_digits [of "hd (decimal (nat v))" "nat v"] by simp
  then have "hd (decimal (nat v)) \<noteq> CHR ''-''" "hd (decimal (nat v)) \<noteq> CHR ''+''"
    by (auto simp: is_digit_c_def less_eq_char_def)
  then show ?thesis using assms by (simp add: ParseInt64_def ds digits_value_decimal)
qed

lemma enclosed:
  assumes "3 \<le> length v" "hd v = q" "last v = q"
  shows "v = [q] @ butlast (tl v) @ [q]"
proof -
  have "v \<noteq> []" using assms(1) by auto
  then obtain t where v: "v = q # t" using assms(2) by (cases v) auto
  then have "t \<noteq> []" using assms(1) by auto
  then have "last t = q" using assms(3) v by simp
  then have "butlast t @ [q] = t" using append_butlast_last_id [OF \<open>t \<noteq> []\<close>] by simp
  then show ?thesis by (simp add: v)
qed

text \<open>Lemma (etag_exact): the ETag of a version, sent back as If-Match, is accepted as that version, for every version a row can have; a
  request without the header, with a weak tag or with anything that is not one quoted positive 64-bit number is refused
  with 428 or 400 before the handler looks at the database.\<close>

theorem etag_exact:
  "(\<forall>v. 1 \<le> v \<and> v < 2 ^ 63 \<and> hq_header r ''If-Match'' = versionETag v \<longrightarrow> requireIfMatch r = Inr v) \<and>
   (case requireIfMatch r of
      Inl w \<Rightarrow> hs_status w = (if hq_header r ''If-Match'' = [] then 428 else 400)
    | Inr v \<Rightarrow> 1 \<le> v \<and> v < 2 ^ 63 \<and> (\<exists>s. hq_header r ''If-Match'' = [CHR 0x22] @ s @ [CHR 0x22] \<and> ParseInt64 s = Some v))"
proof (intro conjI allI impI)
  fix v
  assume v: "1 \<le> v \<and> v < 2 ^ 63 \<and> hq_header r ''If-Match'' = versionETag v"
  have "int_text v \<noteq> []" using v by (simp add: int_text_def)
  moreover from this have "3 \<le> length (versionETag v)" by (cases "int_text v") (simp_all add: versionETag_def)
  ultimately show "requireIfMatch r = Inr v" using v ParseInt64_text [of v]
    by (simp add: requireIfMatch_def Let_def versionETag_def butlast_append)
next
  let ?v = "hq_header r ''If-Match''"
  note quoted = enclosed [of ?v "CHR 0x22"]
  have range: "- (2 ^ 63) \<le> v \<and> v < 2 ^ 63" if "ParseInt64 s = Some v" for s v
    using that by (auto simp: ParseInt64_def Let_def split: if_splits option.splits)
  show "case requireIfMatch r of
      Inl w \<Rightarrow> hs_status w = (if ?v = [] then 428 else 400)
    | Inr v \<Rightarrow> 1 \<le> v \<and> v < 2 ^ 63 \<and> (\<exists>s. ?v = [CHR 0x22] @ s @ [CHR 0x22] \<and> ParseInt64 s = Some v)"
  proof (cases "?v = [] \<or> prefix ''W/'' ?v \<or> length ?v < 3 \<or> hd ?v \<noteq> CHR 0x22 \<or> last ?v \<noteq> CHR 0x22")
    case True
    then show ?thesis by (auto simp: requireIfMatch_def Let_def fail_def writeJSON_def)
  next
    case False
    then show ?thesis using quoted range
      by (auto simp: requireIfMatch_def Let_def fail_def writeJSON_def not_less split: option.splits)
  qed
qed

theorem etag_exact_witness:
  "requireIfMatch (demo_request\<lparr>hq_header := (\<lambda>_. versionETag 7)\<rparr>) = Inr 7"
  using etag_exact [of "demo_request\<lparr>hq_header := (\<lambda>_. versionETag 7)\<rparr>"] by simp

section \<open>Optimistic concurrency\<close>

text \<open>
  Handlers that change one versioned row: each changes the database only when If-Match names the current version of the
  row it addresses, and then the row, if it is still there, has the next version. Two requests address the same row when
  \<open>current\<close> does not tell them apart.
\<close>

locale versioned =
  fixes current :: "http_request \<Rightarrow> db \<Rightarrow> int option"
    and operation :: "'o \<Rightarrow> call \<Rightarrow> handler"
  assumes matched: "\<lbrakk>operation x c r d = (w, d'); d' \<noteq> d\<rbrakk> \<Longrightarrow> \<exists>v. requireIfMatch r = Inr v \<and> current r d = Some v"
    and advances: "\<lbrakk>operation x c r d = (w, d'); d' \<noteq> d; current r d = Some v\<rbrakk> \<Longrightarrow> current r d' \<in> {None, Some (v + 1)}"
begin

lemma stale_version_refused:
  assumes "current r d = Some v" "requireIfMatch r = Inr u" "u \<noteq> v" "operation x c r d = (w, d')"
  shows "d' = d"
  using matched [OF assms(4)] assms(1-3) by auto

lemma no_lost_update:
  assumes "operation x c r d = (w, d1)" "d1 \<noteq> d" and "requireIfMatch r' = requireIfMatch r" "current r' = current r"
    and "operation y c' r' d1 = (w', d2)"
  shows "d2 = d1"
proof (rule ccontr)
  assume "d2 \<noteq> d1"
  obtain v where v: "requireIfMatch r = Inr v" "current r d = Some v" using matched [OF assms(1,2)] by blast
  have "requireIfMatch r' = Inr v" "current r' d1 = Some v" using matched [OF assms(5) \<open>d2 \<noteq> d1\<close>] v(1) assms(3) by auto
  then show False using advances [OF assms(1,2) v(2)] assms(4) by auto
qed

end

end
