(* ===== verification/Resources.thy ===== *)
theory Resources
  imports OAuth_Token Api_Conventions
begin

text \<open>
  Administration of delegated authorization (\<open>internal/api/authorization_resources.go\<close>): resource servers, their scopes,
  and the grants that give an application scopes of a resource server. Every handler is one transaction; rows are
  soft-deleted; updates and deletions need the current version (If-Match); a change raises the policy version of
  the resource server and revokes the tokens it withdraws authority from.
\<close>

section \<open>Queries and statements\<close>

text \<open>\<open>QueryRow(...).Scan\<close>: a database error, \<open>pgx.ErrNoRows\<close>, or a row. A path value that is no UUID is a database error.\<close>

datatype 'r query = QueryError | NoRows | Row 'r

definition query_row :: "server \<Rightarrow> call \<Rightarrow> string \<Rightarrow> uid list \<Rightarrow> ('r \<Rightarrow> bool) \<Rightarrow> 'r list \<Rightarrow> 'r query" where
  "query_row sv c site uids p t =
     (if ca_flt c site \<or> \<not> list_all (uuid_ok sv) uids then QueryError
      else (case sql_row p t of None \<Rightarrow> NoRows | Some x \<Rightarrow> Row x))"

text \<open>The range of a positive \<open>bigint\<close> column.\<close>

definition bigint_ok :: "int \<Rightarrow> bool" where
  "bigint_ok v \<longleftrightarrow> 0 < v \<and> v < 2 ^ 63"

definition bump_policy_row :: "time \<Rightarrow> resource_server_row \<Rightarrow> resource_server_row" where
  "bump_policy_row now v = v\<lparr>rv_policy_version := rv_policy_version v + 1, rv_updated_at := now\<rparr>"

definition bump_policy :: "call \<Rightarrow> uid \<Rightarrow> db \<Rightarrow> db option" where
  "bump_policy c uid = stmt c ''bump policy version'' (\<lambda>d.
     if list_ex (\<lambda>v. rv_uid v = uid \<and> \<not> bigint_ok (rv_policy_version v + 1)) (db_resource_servers d) then None
     else Some (d\<lparr>db_resource_servers := sql_update (\<lambda>v. rv_uid v = uid) (bump_policy_row (ca_now c)) (db_resource_servers d)\<rparr>))"

definition revoke_tokens :: "call \<Rightarrow> (access_token_row \<Rightarrow> bool) \<Rightarrow> db \<Rightarrow> db option" where
  "revoke_tokens c hit = stmt c ''revoke access tokens'' (\<lambda>d.
     Some (d\<lparr>db_access_tokens := sql_update hit (revoke_token (ca_now c)) (db_access_tokens d)\<rparr>))"

definition member_audit :: "call \<Rightarrow> principal \<Rightarrow> string \<Rightarrow> string \<Rightarrow> uid \<Rightarrow> json \<Rightarrow> db \<Rightarrow> db option" where
  "member_audit c p action target_type target metadata = stmt c ''insert audit event'' (\<lambda>d. Some (add_audit
     \<lparr>au_uid = ca_uid c ''audit'', au_tenant_uid = p_TenantUID p, au_project_uid = None, au_actor_type = ''tenant_member'',
      au_actor_uid = Some (p_MemberUID p), au_action = action, au_target_type = target_type, au_target_uid = target,
      au_metadata = metadata\<rparr> d))"

definition commit_tx :: "call \<Rightarrow> db option \<Rightarrow> db option" where
  "commit_tx c tx = Option.bind tx (stmt c ''commit'' Some)"

text \<open>The idempotency request of a creation.\<close>

definition create_request :: "server \<Rightarrow> principal \<Rightarrow> string \<Rightarrow> string \<Rightarrow> json \<Rightarrow> IdempotencyRequest" where
  "create_request sv p operation key canonical =
     \<lparr>rq_PrincipalType = ''tenant_member'', rq_PrincipalUID = p_MemberUID p, rq_Operation = operation, rq_Key = key,
      rq_RequestHash = HashIdempotencyRequest sv (json_text sv canonical), rq_LeaseDuration = 30 * Second, rq_Retention = 24 * Hour\<rparr>"

definition storedResourceResponse :: "server \<Rightarrow> int \<Rightarrow> string \<Rightarrow> int \<Rightarrow> json \<Rightarrow> StoredHTTPResponse" where
  "storedResourceResponse sv status location version value =
     \<lparr>sr_Status = status,
      sr_Headers = Some ([(''Content-Type'', [''application/json'']), (''Cache-Control'', [''no-store'']), (''ETag'', [versionETag version])] @
        (if location \<noteq> [] then [(''Location'', [location])] else [])),
      sr_Body = Some (json_text sv value @ [char_of (10 :: nat)])\<rparr>"

text \<open>The refusal of an outdated version carries the current one.\<close>

definition version_conflict :: "http_request \<Rightarrow> int \<Rightarrow> string \<Rightarrow> http_response" where
  "version_conflict r version message = with_header ''ETag'' (versionETag version) (fail r 412 ''version_conflict'' message)"

section \<open>Resource servers\<close>

definition resource_server_json :: "resource_server_row \<Rightarrow> json" where
  "resource_server_json v = JObj [(''uid'', JStr (rv_uid v)), (''name'', JStr (rv_name v)), (''identifier'', JStr (rv_identifier v)),
     (''status'', JStr (rv_status v)), (''version'', JNum (rv_version v)), (''policy_version'', JNum (rv_policy_version v)),
     (''created_at'', JNum (rv_created_at v)), (''updated_at'', JNum (rv_updated_at v))]"

definition own_server :: "uid \<Rightarrow> uid \<Rightarrow> resource_server_row \<Rightarrow> bool" where
  "own_server tenantUID uid v \<longleftrightarrow> rv_tenant_uid v = tenantUID \<and> rv_uid v = uid \<and> rv_deleted_at v = None"

definition loadResourceServer :: "server \<Rightarrow> call \<Rightarrow> uid \<Rightarrow> uid \<Rightarrow> db \<Rightarrow> resource_server_row query" where
  "loadResourceServer sv c tenantUID uid d =
     query_row sv c ''load resource server'' [uid] (own_server tenantUID uid) (db_resource_servers d)"

definition listResourceServers :: "server \<Rightarrow> call \<Rightarrow> handler" where
  "listResourceServers sv c r d =
     list_page sv c ''list resource servers'' ''could not load Resource Servers'' (\<lambda>v. (rv_created_at v, rv_uid v))
       (\<lambda>v. rv_tenant_uid v = p_TenantUID (mustPrincipal r) \<and> rv_deleted_at v = None) resource_server_json db_resource_servers r d"

definition getResourceServer :: "server \<Rightarrow> call \<Rightarrow> handler" where
  "getResourceServer sv c r d =
     (case loadResourceServer sv c (p_TenantUID (mustPrincipal r)) (hq_path r ''resource_server_uid'') d of
        NoRows \<Rightarrow> (fail r 404 ''resource_server_not_found'' ''Resource Server was not found'', d)
      | QueryError \<Rightarrow> (fail r 500 ''internal_error'' ''could not load Resource Server'', d)
      | Row v \<Rightarrow> (setVersionETag (rv_version v) (writeJSON 200 (resource_server_json v)), d))"

record createResourceServerInput =
  ri_Name :: string
  ri_Identifier :: string

definition normalizeResourceServerInput :: "server \<Rightarrow> createResourceServerInput \<Rightarrow> string + createResourceServerInput" where
  "normalizeResourceServerInput sv input =
     (let name = TrimSpace (ri_Name input) in
      if name = [] \<or> length name > 120 then Inl ''name must contain between 1 and 120 characters''
      else (case normalizeResourceIdentifier sv (ri_Identifier input) of
              Inl e \<Rightarrow> Inl e
            | Inr identifier \<Rightarrow> Inr \<lparr>ri_Name = name, ri_Identifier = identifier\<rparr>))"

definition new_resource_server :: "call \<Rightarrow> principal \<Rightarrow> createResourceServerInput \<Rightarrow> resource_server_row" where
  "new_resource_server c p input =
     \<lparr>rv_uid = ca_uid c ''resource server'', rv_tenant_uid = p_TenantUID p, rv_name = ri_Name input, rv_identifier = ri_Identifier input,
      rv_status = ''active'', rv_version = 1, rv_policy_version = 1, rv_created_at = ca_now c, rv_updated_at = ca_now c, rv_deleted_at = None\<rparr>"

definition create_server_tx :: "server \<Rightarrow> call \<Rightarrow> createResourceServerInput \<Rightarrow> IdempotencyRequest \<Rightarrow> uid \<Rightarrow> handler" where
  "create_server_tx sv c input request lease r d =
     (let p = mustPrincipal r; value = new_resource_server c p input; failed = ''could not create Resource Server'' in
      if ca_flt c ''begin transaction'' \<or> ca_flt c ''insert resource server'' \<or>
         list_ex (\<lambda>v. rv_uid v = rv_uid value) (db_resource_servers d) then (fail r 500 ''internal_error'' failed, d)
      else if list_ex (\<lambda>v. rv_tenant_uid v = p_TenantUID p \<and> rv_identifier v = rv_identifier value) (db_resource_servers d) then
        (fail r 409 ''resource_server_identifier_exists'' ''a Resource Server with this identifier already exists'', d)
      else respond_stored sv c r request lease
        (storedResourceResponse sv 201 (''/v1/resource-servers/'' @ rv_uid value) (rv_version value) (resource_server_json value))
        (member_audit c p ''resource_server.created'' ''resource_server'' (rv_uid value) (JObj [(''identifier'', JStr (rv_identifier value))])
           (d\<lparr>db_resource_servers := db_resource_servers d @ [value]\<rparr>)) failed d)"

definition createResourceServer :: "server \<Rightarrow> call \<Rightarrow> createResourceServerInput option \<Rightarrow> handler" where
  "createResourceServer sv c body r d =
     (case body of
        None \<Rightarrow> (invalid_json r, d)
      | Some raw \<Rightarrow>
          (case normalizeResourceServerInput sv raw of
             Inl e \<Rightarrow> (fail r 422 ''validation_failed'' e, d)
           | Inr input \<Rightarrow>
               if hq_header r ''Idempotency-Key'' = [] then (fail r 400 ''idempotency_key_required'' ''Idempotency-Key is required'', d)
               else let request = create_request sv (mustPrincipal r) ''resource_servers.create'' (hq_header r ''Idempotency-Key'')
                                    (JObj [(''name'', JStr (ri_Name input)), (''identifier'', JStr (ri_Identifier input))]) in
                 (case beginIdempotentRequest sv c r request d of
                    (Inl response, d1) \<Rightarrow> (response, d1)
                  | (Inr claim, d1) \<Rightarrow> create_server_tx sv c input request (cl_LeaseUID claim) r d1)))"

record updateResourceServerInput =
  ru_Name :: "string option"
  ru_Status :: "string option"

definition bad_status :: "string option \<Rightarrow> bool" where
  "bad_status status \<longleftrightarrow> (case status of None \<Rightarrow> False | Some v \<Rightarrow> v \<noteq> ''active'' \<and> v \<noteq> ''disabled'')"

definition bad_name :: "string option \<Rightarrow> bool" where
  "bad_name name \<longleftrightarrow> (case name of None \<Rightarrow> False | Some v \<Rightarrow> TrimSpace v = [] \<or> length (TrimSpace v) > 120)"

definition update_server_row :: "call \<Rightarrow> updateResourceServerInput \<Rightarrow> resource_server_row \<Rightarrow> resource_server_row \<Rightarrow> resource_server_row" where
  "update_server_row c input old v =
     v\<lparr>rv_name := (case ru_Name input of None \<Rightarrow> rv_name old | Some n \<Rightarrow> TrimSpace n),
       rv_status := (case ru_Status input of None \<Rightarrow> rv_status old | Some s \<Rightarrow> s),
       rv_version := rv_version old + 1, rv_policy_version := rv_policy_version v + 1, rv_updated_at := ca_now c\<rparr>"

definition write_servers :: "call \<Rightarrow> (resource_server_row \<Rightarrow> bool) \<Rightarrow> (resource_server_row \<Rightarrow> resource_server_row) \<Rightarrow> db \<Rightarrow> db option" where
  "write_servers c hit f = stmt c ''update resource server'' (\<lambda>d.
     if list_ex (\<lambda>v. hit v \<and> (\<not> bigint_ok (rv_version (f v)) \<or> \<not> bigint_ok (rv_policy_version (f v)))) (db_resource_servers d) then None
     else Some (d\<lparr>db_resource_servers := sql_update hit f (db_resource_servers d)\<rparr>))"

definition new_status :: "string option \<Rightarrow> string \<Rightarrow> string" where
  "new_status status old = (case status of None \<Rightarrow> old | Some s \<Rightarrow> s)"

definition update_server_tx :: "call \<Rightarrow> principal \<Rightarrow> uid \<Rightarrow> updateResourceServerInput \<Rightarrow> resource_server_row \<Rightarrow> db \<Rightarrow> db option" where
  "update_server_tx c p uid input old d =
     (let status = new_status (ru_Status input) (rv_status old) in
      Option.bind (write_servers c (\<lambda>v. rv_tenant_uid v = p_TenantUID p \<and> rv_uid v = uid) (update_server_row c input old) d) (\<lambda>d.
      Option.bind (if status = ''disabled'' then revoke_tokens c (\<lambda>t. tk_resource_server_uid t = Some uid) d else Some d)
        (member_audit c p ''resource_server.updated'' ''resource_server'' uid
           (JObj [(''status'', JStr status), (''version'', JNum (rv_version old + 1))]))))"

definition updateResourceServer :: "server \<Rightarrow> updateResourceServerInput option \<Rightarrow> call \<Rightarrow> handler" where
  "updateResourceServer sv body c r d =
     (let p = mustPrincipal r; uid = hq_path r ''resource_server_uid'';
          failed = (fail r 500 ''internal_error'' ''could not update Resource Server'', d) in
      case body of
        None \<Rightarrow> (invalid_json r, d)
      | Some input \<Rightarrow>
          if ru_Name input = None \<and> ru_Status input = None then (fail r 422 ''validation_failed'' ''at least one field is required'', d)
          else if bad_name (ru_Name input) then
            (fail r 422 ''validation_failed'' ''name must contain between 1 and 120 characters'', d)
          else if bad_status (ru_Status input) then (fail r 422 ''validation_failed'' ''status must be active or disabled'', d)
          else (case requireIfMatch r of
            Inl w \<Rightarrow> (w, d)
          | Inr expected \<Rightarrow>
              if ca_flt c ''begin transaction'' then failed
              else (case query_row sv c ''lock resource server'' [uid] (own_server (p_TenantUID p) uid) (db_resource_servers d) of
                NoRows \<Rightarrow> (fail r 404 ''resource_server_not_found'' ''Resource Server was not found'', d)
              | QueryError \<Rightarrow> failed
              | Row old \<Rightarrow>
                  if rv_version old \<noteq> expected then
                    (version_conflict r (rv_version old) ''Resource Server changed; fetch the latest representation and retry'', d)
                  else (case commit_tx c (update_server_tx c p uid input old d) of
                    None \<Rightarrow> failed
                  | Some d' \<Rightarrow>
                      (case loadResourceServer sv c (p_TenantUID p) uid d' of
                         Row v \<Rightarrow> (setVersionETag (rv_version v) (writeJSON 200 (resource_server_json v)), d')
                       | _ \<Rightarrow> (fail r 500 ''internal_error'' ''could not load Resource Server'', d'))))))"

definition delete_server_row :: "call \<Rightarrow> resource_server_row \<Rightarrow> resource_server_row" where
  "delete_server_row c v =
     v\<lparr>rv_status := ''disabled'', rv_version := rv_version v + 1, rv_policy_version := rv_policy_version v + 1,
       rv_updated_at := ca_now c, rv_deleted_at := Some (ca_now c)\<rparr>"

definition delete_server_tx :: "call \<Rightarrow> principal \<Rightarrow> uid \<Rightarrow> db \<Rightarrow> db option" where
  "delete_server_tx c p uid d =
     Option.bind (write_servers c (\<lambda>v. rv_tenant_uid v = p_TenantUID p \<and> rv_uid v = uid) (delete_server_row c) d) (\<lambda>d.
     Option.bind (revoke_tokens c (\<lambda>t. tk_resource_server_uid t = Some uid) d)
       (member_audit c p ''resource_server.deleted'' ''resource_server'' uid (JObj [])))"

definition deleteResourceServer :: "server \<Rightarrow> call \<Rightarrow> handler" where
  "deleteResourceServer sv c r d =
     (let p = mustPrincipal r; uid = hq_path r ''resource_server_uid'';
          failed = (fail r 500 ''internal_error'' ''could not delete Resource Server'', d) in
      case requireIfMatch r of
        Inl w \<Rightarrow> (w, d)
      | Inr expected \<Rightarrow>
          if ca_flt c ''begin transaction'' then failed
          else (case query_row sv c ''lock resource server'' [uid] (own_server (p_TenantUID p) uid) (db_resource_servers d) of
            NoRows \<Rightarrow> (fail r 404 ''resource_server_not_found'' ''Resource Server was not found'', d)
          | QueryError \<Rightarrow> failed
          | Row old \<Rightarrow>
              if rv_version old \<noteq> expected then
                (version_conflict r (rv_version old) ''Resource Server changed; fetch the latest representation and retry'', d)
              else (case commit_tx c (delete_server_tx c p uid d) of None \<Rightarrow> failed | Some d' \<Rightarrow> (no_content 204, d'))))"

section \<open>Scopes of a resource server\<close>

definition scope_json :: "scope_row \<Rightarrow> json" where
  "scope_json s = JObj [(''uid'', JStr (sp_uid s)), (''name'', JStr (sp_name s)), (''display_name'', JStr (sp_display_name s)),
     (''description'', JStr (sp_description s)), (''status'', JStr (sp_status s)), (''version'', JNum (sp_version s)),
     (''created_at'', JNum (sp_created_at s)), (''updated_at'', JNum (sp_updated_at s))]"

definition listResourceServerScopes :: "server \<Rightarrow> call \<Rightarrow> handler" where
  "listResourceServerScopes sv c r d =
     (let uid = hq_path r ''resource_server_uid'' in
      case loadResourceServer sv c (p_TenantUID (mustPrincipal r)) uid d of
        NoRows \<Rightarrow> (fail r 404 ''resource_server_not_found'' ''Resource Server was not found'', d)
      | QueryError \<Rightarrow> (fail r 500 ''internal_error'' ''could not load Resource Server'', d)
      | Row _ \<Rightarrow>
          if ca_flt c ''list scopes'' then (fail r 500 ''internal_error'' ''could not load Resource Server scopes'', d)
          else (writeJSON 200 (JObj [(''items'', JArr (map scope_json (newest_first (\<lambda>s. (sp_created_at s, sp_uid s))
                  (filter (\<lambda>s. sp_resource_server_uid s = uid \<and> sp_deleted_at s = None) (db_scopes d)))))]), d))"

text \<open>A scope together with its resource server in the member's tenant, neither deleted.\<close>

definition own_scope :: "db \<Rightarrow> uid \<Rightarrow> uid \<Rightarrow> uid \<Rightarrow> scope_row \<Rightarrow> bool" where
  "own_scope d tenantUID serverUID scopeUID s \<longleftrightarrow> sp_uid s = scopeUID \<and> sp_resource_server_uid s = serverUID \<and> sp_deleted_at s = None \<and>
     list_ex (own_server tenantUID serverUID) (db_resource_servers d)"

definition getResourceServerScope :: "server \<Rightarrow> call \<Rightarrow> handler" where
  "getResourceServerScope sv c r d =
     (let serverUID = hq_path r ''resource_server_uid''; scopeUID = hq_path r ''scope_uid'' in
      case query_row sv c ''load scope'' [scopeUID, serverUID] (own_scope d (p_TenantUID (mustPrincipal r)) serverUID scopeUID) (db_scopes d) of
        NoRows \<Rightarrow> (fail r 404 ''resource_server_scope_not_found'' ''Resource Server scope was not found'', d)
      | QueryError \<Rightarrow> (fail r 500 ''internal_error'' ''could not load Resource Server scope'', d)
      | Row s \<Rightarrow> (setVersionETag (sp_version s) (writeJSON 200 (scope_json s)), d))"

record createResourceServerScopeInput =
  si_Name :: string
  si_DisplayName :: string
  si_Description :: string

definition normalizeResourceServerScopeInput :: "createResourceServerScopeInput \<Rightarrow> string + createResourceServerScopeInput" where
  "normalizeResourceServerScopeInput raw =
     (let name = TrimSpace (si_Name raw); displayName = TrimSpace (si_DisplayName raw); description = TrimSpace (si_Description raw) in
      if \<not> delegatedScopePattern name \<or> oidcScopes name \<or> name = ''offline_access'' then
        Inl ''name must be a lowercase delegated scope token and must not reserve an OpenID scope''
      else if displayName = [] \<or> length displayName > 120 then Inl ''display_name must contain between 1 and 120 characters''
      else if length description > 500 then Inl ''description must not exceed 500 characters''
      else Inr \<lparr>si_Name = name, si_DisplayName = displayName, si_Description = description\<rparr>)"

definition new_scope :: "call \<Rightarrow> uid \<Rightarrow> createResourceServerScopeInput \<Rightarrow> scope_row" where
  "new_scope c serverUID input =
     \<lparr>sp_uid = ca_uid c ''scope'', sp_resource_server_uid = serverUID, sp_name = si_Name input, sp_display_name = si_DisplayName input,
      sp_description = si_Description input, sp_status = ''active'', sp_version = 1, sp_created_at = ca_now c, sp_updated_at = ca_now c,
      sp_deleted_at = None\<rparr>"

definition create_scope_tx :: "server \<Rightarrow> call \<Rightarrow> createResourceServerScopeInput \<Rightarrow> IdempotencyRequest \<Rightarrow> uid \<Rightarrow> handler" where
  "create_scope_tx sv c input request lease r d =
     (let p = mustPrincipal r; serverUID = hq_path r ''resource_server_uid''; value = new_scope c serverUID input;
          failed = ''could not create Resource Server scope'';
          inactive = (fail r 409 ''resource_server_inactive'' ''Resource Server must be active'', d) in
      if ca_flt c ''begin transaction'' then (fail r 500 ''internal_error'' failed, d)
      else (case query_row sv c ''lock resource server'' [serverUID] (own_server (p_TenantUID p) serverUID) (db_resource_servers d) of
        NoRows \<Rightarrow> (fail r 404 ''resource_server_not_found'' ''Resource Server was not found'', d)
      | QueryError \<Rightarrow> inactive
      | Row v \<Rightarrow>
          if rv_status v \<noteq> ''active'' then inactive
          else if ca_flt c ''insert scope'' \<or> list_ex (\<lambda>s. sp_uid s = sp_uid value) (db_scopes d) then (fail r 500 ''internal_error'' failed, d)
          else if list_ex (\<lambda>s. sp_resource_server_uid s = serverUID \<and> sp_name s = sp_name value) (db_scopes d) then
            (fail r 409 ''resource_server_scope_exists'' ''this scope name is already reserved for the Resource Server'', d)
          else respond_stored sv c r request lease
            (storedResourceResponse sv 201 (''/v1/resource-servers/'' @ serverUID @ ''/scopes/'' @ sp_uid value) (sp_version value) (scope_json value))
            (Option.bind (bump_policy c serverUID (d\<lparr>db_scopes := db_scopes d @ [value]\<rparr>))
               (member_audit c p ''resource_server_scope.created'' ''resource_server_scope'' (sp_uid value)
                  (JObj [(''name'', JStr (sp_name value)), (''resource_server_uid'', JStr serverUID)]))) failed d))"

definition createResourceServerScope :: "server \<Rightarrow> call \<Rightarrow> createResourceServerScopeInput option \<Rightarrow> handler" where
  "createResourceServerScope sv c body r d =
     (case body of
        None \<Rightarrow> (invalid_json r, d)
      | Some raw \<Rightarrow>
          (case normalizeResourceServerScopeInput raw of
             Inl e \<Rightarrow> (fail r 422 ''validation_failed'' e, d)
           | Inr input \<Rightarrow>
               if hq_header r ''Idempotency-Key'' = [] then (fail r 400 ''idempotency_key_required'' ''Idempotency-Key is required'', d)
               else let request = create_request sv (mustPrincipal r) ''resource_server_scopes.create'' (hq_header r ''Idempotency-Key'')
                      (JObj [(''resource_server_uid'', JStr (hq_path r ''resource_server_uid'')),
                             (''input'', JObj [(''name'', JStr (si_Name input)), (''display_name'', JStr (si_DisplayName input)),
                                               (''description'', JStr (si_Description input))])]) in
                 (case beginIdempotentRequest sv c r request d of
                    (Inl response, d1) \<Rightarrow> (response, d1)
                  | (Inr claim, d1) \<Rightarrow> create_scope_tx sv c input request (cl_LeaseUID claim) r d1)))"

record updateResourceServerScopeInput =
  su_DisplayName :: "string option"
  su_Description :: "string option"
  su_Status :: "string option"

definition write_scopes :: "call \<Rightarrow> (scope_row \<Rightarrow> bool) \<Rightarrow> (scope_row \<Rightarrow> scope_row) \<Rightarrow> db \<Rightarrow> db option" where
  "write_scopes c hit f = stmt c ''update scope'' (\<lambda>d.
     if list_ex (\<lambda>s. hit s \<and> \<not> bigint_ok (sp_version (f s))) (db_scopes d) then None
     else Some (d\<lparr>db_scopes := sql_update hit f (db_scopes d)\<rparr>))"

definition update_scope_row :: "call \<Rightarrow> updateResourceServerScopeInput \<Rightarrow> scope_row \<Rightarrow> scope_row \<Rightarrow> scope_row" where
  "update_scope_row c input old s =
     s\<lparr>sp_display_name := (case su_DisplayName input of None \<Rightarrow> sp_display_name old | Some n \<Rightarrow> TrimSpace n),
       sp_description := (case su_Description input of None \<Rightarrow> sp_description old | Some n \<Rightarrow> TrimSpace n),
       sp_status := new_status (su_Status input) (sp_status old), sp_version := sp_version old + 1, sp_updated_at := ca_now c\<rparr>"

text \<open>The tokens of a resource server that carry a scope: \<^verbatim>\<open>scopes @> ARRAY[name]\<close>.\<close>

definition carries :: "uid \<Rightarrow> string \<Rightarrow> access_token_row \<Rightarrow> bool" where
  "carries serverUID name t \<longleftrightarrow> tk_resource_server_uid t = Some serverUID \<and> name \<in> set (tk_scopes t)"

definition update_scope_tx :: "call \<Rightarrow> uid \<Rightarrow> uid \<Rightarrow> updateResourceServerScopeInput \<Rightarrow> scope_row \<Rightarrow> db \<Rightarrow> db option" where
  "update_scope_tx c serverUID scopeUID input old d =
     Option.bind (write_scopes c (\<lambda>s. sp_uid s = scopeUID \<and> sp_resource_server_uid s = serverUID) (update_scope_row c input old) d) (\<lambda>d.
     Option.bind (bump_policy c serverUID d) (\<lambda>d.
       if new_status (su_Status input) (sp_status old) = ''disabled'' then revoke_tokens c (carries serverUID (sp_name old)) d else Some d))"

definition updateResourceServerScope :: "server \<Rightarrow> updateResourceServerScopeInput option \<Rightarrow> call \<Rightarrow> handler" where
  "updateResourceServerScope sv body c r d =
     (let p = mustPrincipal r; serverUID = hq_path r ''resource_server_uid''; scopeUID = hq_path r ''scope_uid'';
          failed = (fail r 500 ''internal_error'' ''could not update Resource Server scope'', d) in
      case body of
        None \<Rightarrow> (invalid_json r, d)
      | Some input \<Rightarrow>
          if su_DisplayName input = None \<and> su_Description input = None \<and> su_Status input = None then
            (fail r 422 ''validation_failed'' ''at least one field is required'', d)
          else if bad_name (su_DisplayName input) then
            (fail r 422 ''validation_failed'' ''display_name must contain between 1 and 120 characters'', d)
          else if (case su_Description input of None \<Rightarrow> False | Some v \<Rightarrow> length (TrimSpace v) > 500) then
            (fail r 422 ''validation_failed'' ''description must not exceed 500 characters'', d)
          else if bad_status (su_Status input) then (fail r 422 ''validation_failed'' ''status must be active or disabled'', d)
          else (case requireIfMatch r of
            Inl w \<Rightarrow> (w, d)
          | Inr expected \<Rightarrow>
              if ca_flt c ''begin transaction'' then failed
              else (case query_row sv c ''lock scope'' [scopeUID, serverUID] (own_scope d (p_TenantUID p) serverUID scopeUID) (db_scopes d) of
                NoRows \<Rightarrow> (fail r 404 ''resource_server_scope_not_found'' ''Resource Server scope was not found'', d)
              | QueryError \<Rightarrow> failed
              | Row old \<Rightarrow>
                  if sp_version old \<noteq> expected then
                    (version_conflict r (sp_version old) ''Resource Server scope changed; fetch the latest representation and retry'', d)
                  else (case commit_tx c (update_scope_tx c serverUID scopeUID input old d) of
                    None \<Rightarrow> failed
                  | Some d' \<Rightarrow>
                      (case query_row sv c ''load scope'' [scopeUID, serverUID]
                              (\<lambda>s. sp_uid s = scopeUID \<and> sp_resource_server_uid s = serverUID) (db_scopes d') of
                         Row s \<Rightarrow> (setVersionETag (sp_version s) (writeJSON 200 (scope_json s)), d')
                       | _ \<Rightarrow> (fail r 500 ''internal_error'' ''could not load Resource Server scope'', d'))))))"

definition delete_scope_row :: "call \<Rightarrow> scope_row \<Rightarrow> scope_row" where
  "delete_scope_row c s =
     s\<lparr>sp_status := ''disabled'', sp_version := sp_version s + 1, sp_updated_at := ca_now c, sp_deleted_at := Some (ca_now c)\<rparr>"

definition delete_scope_tx :: "call \<Rightarrow> uid \<Rightarrow> uid \<Rightarrow> string \<Rightarrow> db \<Rightarrow> db option" where
  "delete_scope_tx c serverUID scopeUID name d =
     Option.bind (write_scopes c (\<lambda>s. sp_uid s = scopeUID) (delete_scope_row c) d) (\<lambda>d.
     Option.bind (bump_policy c serverUID d) (revoke_tokens c (carries serverUID name)))"

definition deleteResourceServerScope :: "server \<Rightarrow> call \<Rightarrow> handler" where
  "deleteResourceServerScope sv c r d =
     (let p = mustPrincipal r; serverUID = hq_path r ''resource_server_uid''; scopeUID = hq_path r ''scope_uid'';
          failed = (fail r 500 ''internal_error'' ''could not delete Resource Server scope'', d) in
      case requireIfMatch r of
        Inl w \<Rightarrow> (w, d)
      | Inr expected \<Rightarrow>
          if ca_flt c ''begin transaction'' then failed
          else (case query_row sv c ''lock scope'' [scopeUID, serverUID] (own_scope d (p_TenantUID p) serverUID scopeUID) (db_scopes d) of
            NoRows \<Rightarrow> (fail r 404 ''resource_server_scope_not_found'' ''Resource Server scope was not found'', d)
          | QueryError \<Rightarrow> failed
          | Row old \<Rightarrow>
              if sp_version old \<noteq> expected then
                (version_conflict r (sp_version old) ''Resource Server scope changed; fetch the latest representation and retry'', d)
              else (case commit_tx c (delete_scope_tx c serverUID scopeUID (sp_name old) d) of
                None \<Rightarrow> failed | Some d' \<Rightarrow> (no_content 204, d'))))"

section \<open>Grants of an application\<close>

text \<open>A grant joined with its resource server and the names of its scopes, in order.\<close>

record OAuthApplicationGrant =
  gv_UID :: uid
  gv_ApplicationUID :: uid
  gv_ResourceServerUID :: uid
  gv_ResourceServerName :: string
  gv_ResourceServerIdentifier :: string
  gv_Status :: string
  gv_Version :: int
  gv_Scopes :: "string list"
  gv_CreatedAt :: time
  gv_UpdatedAt :: time

definition grant_view :: "db \<Rightarrow> grant_row \<Rightarrow> resource_server_row \<Rightarrow> OAuthApplicationGrant" where
  "grant_view d g v =
     \<lparr>gv_UID = gr_uid g, gv_ApplicationUID = gr_application_uid g, gv_ResourceServerUID = gr_resource_server_uid g,
      gv_ResourceServerName = rv_name v, gv_ResourceServerIdentifier = rv_identifier v, gv_Status = gr_status g, gv_Version = gr_version g,
      gv_Scopes = sort (map sp_name (filter (\<lambda>s. list_ex (\<lambda>gs. gs_grant_uid gs = gr_uid g \<and> gs_scope_uid gs = sp_uid s) (db_grant_scopes d)) (db_scopes d))),
      gv_CreatedAt = gr_created_at g, gv_UpdatedAt = gr_updated_at g\<rparr>"

definition grant_json :: "OAuthApplicationGrant \<Rightarrow> json" where
  "grant_json g = JObj [(''uid'', JStr (gv_UID g)), (''application_uid'', JStr (gv_ApplicationUID g)),
     (''resource_server_uid'', JStr (gv_ResourceServerUID g)), (''resource_server_name'', JStr (gv_ResourceServerName g)),
     (''resource_server_identifier'', JStr (gv_ResourceServerIdentifier g)), (''status'', JStr (gv_Status g)), (''version'', JNum (gv_Version g)),
     (''scopes'', JArr (map JStr (gv_Scopes g))), (''created_at'', JNum (gv_CreatedAt g)), (''updated_at'', JNum (gv_UpdatedAt g))]"

definition server_of_grant :: "db \<Rightarrow> grant_row \<Rightarrow> resource_server_row option" where
  "server_of_grant d g = sql_row (\<lambda>v. rv_uid v = gr_resource_server_uid g) (db_resource_servers d)"

definition own_grant :: "uid \<Rightarrow> uid \<Rightarrow> uid \<Rightarrow> grant_row \<Rightarrow> bool" where
  "own_grant tenantUID applicationUID grantUID g \<longleftrightarrow> gr_uid g = grantUID \<and> gr_application_uid g = applicationUID \<and>
     gr_tenant_uid g = tenantUID \<and> gr_deleted_at g = None"

definition loadOAuthApplicationGrant :: "server \<Rightarrow> call \<Rightarrow> uid \<Rightarrow> uid \<Rightarrow> uid \<Rightarrow> db \<Rightarrow> OAuthApplicationGrant query" where
  "loadOAuthApplicationGrant sv c tenantUID applicationUID grantUID d =
     (case query_row sv c ''load grant'' [grantUID, applicationUID]
             (\<lambda>g. own_grant tenantUID applicationUID grantUID g \<and> server_of_grant d g \<noteq> None) (db_grants d) of
        QueryError \<Rightarrow> QueryError | NoRows \<Rightarrow> NoRows
      | Row g \<Rightarrow> Row (grant_view d g (the (server_of_grant d g))))"

definition listOAuthApplicationGrants :: "server \<Rightarrow> call \<Rightarrow> handler" where
  "listOAuthApplicationGrants sv c r d =
     (let applicationUID = hq_path r ''application_uid'' in
      if ca_flt c ''list grants'' \<or> \<not> uuid_ok sv applicationUID then
        (fail r 500 ''internal_error'' ''could not load OAuth Application grants'', d)
      else (writeJSON 200 (JObj [(''items'', JArr (map (\<lambda>g. grant_json (grant_view d g (the (server_of_grant d g))))
              (newest_first (\<lambda>g. (gr_created_at g, gr_uid g))
                (filter (\<lambda>g. gr_application_uid g = applicationUID \<and> gr_tenant_uid g = p_TenantUID (mustPrincipal r) \<and>
                             gr_deleted_at g = None \<and> server_of_grant d g \<noteq> None) (db_grants d)))))]), d))"

definition getOAuthApplicationGrant :: "server \<Rightarrow> call \<Rightarrow> handler" where
  "getOAuthApplicationGrant sv c r d =
     (case loadOAuthApplicationGrant sv c (p_TenantUID (mustPrincipal r)) (hq_path r ''application_uid'') (hq_path r ''grant_uid'') d of
        NoRows \<Rightarrow> (fail r 404 ''oauth_application_grant_not_found'' ''OAuth Application grant was not found'', d)
      | QueryError \<Rightarrow> (fail r 500 ''internal_error'' ''could not load OAuth Application grant'', d)
      | Row g \<Rightarrow> (setVersionETag (gv_Version g) (writeJSON 200 (grant_json g)), d))"

record createOAuthApplicationGrantInput =
  gi_ResourceServerUID :: uid
  gi_ScopeUIDs :: "uid list"

definition normalizeScopeUIDs :: "server \<Rightarrow> uid list \<Rightarrow> string + uid list" where
  "normalizeScopeUIDs sv uids =
     (if uids = [] \<or> length uids > 100 then Inl ''scope_uids must contain between 1 and 100 values''
      else if \<not> list_all (uuid_ok sv) uids \<or> \<not> distinct uids then Inl ''scope_uids must contain unique UUIDs''
      else Inr (sort uids))"

definition validateGrantResources :: "server \<Rightarrow> call \<Rightarrow> uid \<Rightarrow> uid \<Rightarrow> uid \<Rightarrow> uid list \<Rightarrow> db \<Rightarrow> string option" where
  "validateGrantResources sv c tenantUID applicationUID serverUID scopeUIDs d =
     (let usable = (case (query_row sv c ''load grant resources'' [applicationUID, serverUID]
                            (\<lambda>a. ap_uid a = applicationUID \<and> ap_tenant_uid a = tenantUID \<and> ap_deleted_at a = None) (db_applications d),
                          sql_row (own_server tenantUID serverUID) (db_resource_servers d)) of
                      (Row a, Some v) \<Rightarrow> ap_status a = ''active'' \<and> rv_status v = ''active''
                    | _ \<Rightarrow> False) in
      if \<not> usable then Some ''the OAuth Application and Resource Server must exist and be active''
      else if ca_flt c ''count scopes'' \<or>
              sql_count (\<lambda>s. sp_resource_server_uid s = serverUID \<and> sp_uid s \<in> set scopeUIDs \<and> sp_status s = ''active'' \<and> sp_deleted_at s = None)
                (db_scopes d) \<noteq> length scopeUIDs then
        Some ''every scope_uid must name an active scope on the Resource Server''
      else None)"

fun insert_grant_scopes :: "call \<Rightarrow> uid \<Rightarrow> uid list \<Rightarrow> db \<Rightarrow> db option" where
  "insert_grant_scopes c grantUID [] d = Some d"
| "insert_grant_scopes c grantUID (scopeUID # uids) d =
     Option.bind (stmt c ''insert grant scope'' (\<lambda>d.
       if list_ex (\<lambda>gs. gs_grant_uid gs = grantUID \<and> gs_scope_uid gs = scopeUID) (db_grant_scopes d) then None
       else Some (d\<lparr>db_grant_scopes := db_grant_scopes d @ [\<lparr>gs_grant_uid = grantUID, gs_scope_uid = scopeUID\<rparr>]\<rparr>)) d)
       (insert_grant_scopes c grantUID uids)"

definition new_grant :: "call \<Rightarrow> principal \<Rightarrow> uid \<Rightarrow> uid \<Rightarrow> grant_row" where
  "new_grant c p applicationUID serverUID =
     \<lparr>gr_uid = ca_uid c ''grant'', gr_tenant_uid = p_TenantUID p, gr_application_uid = applicationUID, gr_resource_server_uid = serverUID,
      gr_status = ''active'', gr_version = 1, gr_created_at = ca_now c, gr_updated_at = ca_now c, gr_deleted_at = None\<rparr>"

text \<open>The statements after the insertion of the grant; the last one reads the grant back.\<close>

definition create_grant_rest :: "call \<Rightarrow> principal \<Rightarrow> uid \<Rightarrow> grant_row \<Rightarrow> uid list \<Rightarrow> db \<Rightarrow> db option" where
  "create_grant_rest c p applicationUID g scopeUIDs d =
     Option.bind (insert_grant_scopes c (gr_uid g) scopeUIDs d) (\<lambda>d.
     Option.bind (bump_policy c (gr_resource_server_uid g) d) (\<lambda>d.
     Option.bind (member_audit c p ''oauth_application_grant.created'' ''oauth_application_grant'' (gr_uid g)
       (JObj [(''application_uid'', JStr applicationUID), (''resource_server_uid'', JStr (gr_resource_server_uid g))]) d)
       (stmt c ''load created grant'' (\<lambda>d. if server_of_grant d g = None then None else Some d))))"

definition create_grant_tx :: "server \<Rightarrow> call \<Rightarrow> createOAuthApplicationGrantInput \<Rightarrow> IdempotencyRequest \<Rightarrow> uid \<Rightarrow> handler" where
  "create_grant_tx sv c input request lease r d =
     (let p = mustPrincipal r; applicationUID = hq_path r ''application_uid''; serverUID = gi_ResourceServerUID input;
          g = new_grant c p applicationUID serverUID; failed = ''could not create OAuth Application grant'' in
      if ca_flt c ''begin transaction'' then (fail r 500 ''internal_error'' failed, d)
      else (case validateGrantResources sv c (p_TenantUID p) applicationUID serverUID (gi_ScopeUIDs input) d of
        Some e \<Rightarrow> (fail r 422 ''invalid_grant_resources'' e, d)
      | None \<Rightarrow>
          if ca_flt c ''insert grant'' \<or> list_ex (\<lambda>x. gr_uid x = gr_uid g) (db_grants d) then (fail r 500 ''internal_error'' failed, d)
          else if list_ex (\<lambda>x. gr_application_uid x = applicationUID \<and> gr_resource_server_uid x = serverUID \<and> gr_deleted_at x = None) (db_grants d) then
            (fail r 409 ''oauth_application_grant_exists'' ''this OAuth Application already has a grant for the Resource Server'', d)
          else let tx = create_grant_rest c p applicationUID g (gi_ScopeUIDs input) (d\<lparr>db_grants := db_grants d @ [g]\<rparr>) in
            (case tx of
               None \<Rightarrow> (fail r 500 ''internal_error'' failed, d)
             | Some d' \<Rightarrow> respond_stored sv c r request lease
                 (storedResourceResponse sv 201 (''/v1/oauth/applications/'' @ applicationUID @ ''/grants/'' @ gr_uid g) (gr_version g)
                    (grant_json (grant_view d' g (the (server_of_grant d' g))))) tx failed d)))"

definition createOAuthApplicationGrant :: "server \<Rightarrow> call \<Rightarrow> createOAuthApplicationGrantInput option \<Rightarrow> handler" where
  "createOAuthApplicationGrant sv c body r d =
     (case body of
        None \<Rightarrow> (invalid_json r, d)
      | Some raw \<Rightarrow>
          if \<not> uuid_ok sv (gi_ResourceServerUID raw) then (fail r 422 ''validation_failed'' ''resource_server_uid must be a UUID'', d)
          else (case normalizeScopeUIDs sv (gi_ScopeUIDs raw) of
            Inl e \<Rightarrow> (fail r 422 ''validation_failed'' e, d)
          | Inr uids \<Rightarrow>
              if hq_header r ''Idempotency-Key'' = [] then (fail r 400 ''idempotency_key_required'' ''Idempotency-Key is required'', d)
              else let input = raw\<lparr>gi_ScopeUIDs := uids\<rparr>;
                       request = create_request sv (mustPrincipal r) ''oauth_application_grants.create'' (hq_header r ''Idempotency-Key'')
                         (JObj [(''application_uid'', JStr (hq_path r ''application_uid'')),
                                (''input'', JObj [(''resource_server_uid'', JStr (gi_ResourceServerUID input)), (''scope_uids'', JArr (map JStr uids))])]) in
                (case beginIdempotentRequest sv c r request d of
                   (Inl response, d1) \<Rightarrow> (response, d1)
                 | (Inr claim, d1) \<Rightarrow> create_grant_tx sv c input request (cl_LeaseUID claim) r d1)))"

record updateOAuthApplicationGrantInput =
  gu_Status :: "string option"
  gu_ScopeUIDs :: "uid list option"

definition write_grants :: "call \<Rightarrow> (grant_row \<Rightarrow> bool) \<Rightarrow> (grant_row \<Rightarrow> grant_row) \<Rightarrow> db \<Rightarrow> db option" where
  "write_grants c hit f = stmt c ''update grant'' (\<lambda>d.
     if list_ex (\<lambda>g. hit g \<and> \<not> bigint_ok (gr_version (f g))) (db_grants d) then None
     else Some (d\<lparr>db_grants := sql_update hit f (db_grants d)\<rparr>))"

definition replace_scopes :: "call \<Rightarrow> uid \<Rightarrow> uid list option \<Rightarrow> db \<Rightarrow> db option" where
  "replace_scopes c grantUID uids d =
     (case uids of
        None \<Rightarrow> Some d
      | Some us \<Rightarrow>
          Option.bind (stmt c ''delete grant scopes'' (\<lambda>d. Some (d\<lparr>db_grant_scopes := sql_delete (\<lambda>gs. gs_grant_uid gs = grantUID) (db_grant_scopes d)\<rparr>)) d)
            (insert_grant_scopes c grantUID us))"

text \<open>The tokens an application holds for a resource server.\<close>

definition held_by :: "uid \<Rightarrow> uid \<Rightarrow> access_token_row \<Rightarrow> bool" where
  "held_by applicationUID serverUID t \<longleftrightarrow> tk_application_uid t = applicationUID \<and> tk_resource_server_uid t = Some serverUID"

definition update_grant_tx :: "call \<Rightarrow> uid \<Rightarrow> uid \<Rightarrow> updateOAuthApplicationGrantInput \<Rightarrow> grant_row \<Rightarrow> db \<Rightarrow> db option" where
  "update_grant_tx c applicationUID grantUID input old d =
     Option.bind (replace_scopes c grantUID (gu_ScopeUIDs input) d) (\<lambda>d.
     Option.bind (write_grants c (\<lambda>g. gr_uid g = grantUID)
       (\<lambda>g. g\<lparr>gr_status := new_status (gu_Status input) (gr_status old), gr_version := gr_version old + 1, gr_updated_at := ca_now c\<rparr>) d) (\<lambda>d.
     Option.bind (bump_policy c (gr_resource_server_uid old) d)
       (revoke_tokens c (held_by applicationUID (gr_resource_server_uid old)))))"

text \<open>The normalized input, or the validation error.\<close>

definition normalize_grant_update :: "server \<Rightarrow> updateOAuthApplicationGrantInput \<Rightarrow> string + updateOAuthApplicationGrantInput" where
  "normalize_grant_update sv input =
     (if gu_Status input = None \<and> gu_ScopeUIDs input = None then Inl ''at least one field is required''
      else if bad_status (gu_Status input) then Inl ''status must be active or disabled''
      else (case gu_ScopeUIDs input of
              None \<Rightarrow> Inr input
            | Some us \<Rightarrow> (case normalizeScopeUIDs sv us of Inl e \<Rightarrow> Inl e | Inr uids \<Rightarrow> Inr (input\<lparr>gu_ScopeUIDs := Some uids\<rparr>))))"

definition updateOAuthApplicationGrant :: "server \<Rightarrow> updateOAuthApplicationGrantInput option \<Rightarrow> call \<Rightarrow> handler" where
  "updateOAuthApplicationGrant sv body c r d =
     (let p = mustPrincipal r; applicationUID = hq_path r ''application_uid''; grantUID = hq_path r ''grant_uid'';
          failed = (fail r 500 ''internal_error'' ''could not update OAuth Application grant'', d) in
      case body of
        None \<Rightarrow> (invalid_json r, d)
      | Some raw \<Rightarrow>
          (case normalize_grant_update sv raw of
             Inl e \<Rightarrow> (fail r 422 ''validation_failed'' e, d)
           | Inr input \<Rightarrow>
               (case requireIfMatch r of
                  Inl w \<Rightarrow> (w, d)
                | Inr expected \<Rightarrow>
                    if ca_flt c ''begin transaction'' then failed
                    else (case query_row sv c ''lock grant'' [grantUID, applicationUID] (own_grant (p_TenantUID p) applicationUID grantUID) (db_grants d) of
                      NoRows \<Rightarrow> (fail r 404 ''oauth_application_grant_not_found'' ''OAuth Application grant was not found'', d)
                    | QueryError \<Rightarrow> failed
                    | Row old \<Rightarrow>
                        if gr_version old \<noteq> expected then
                          (version_conflict r (gr_version old) ''OAuth Application grant changed; fetch the latest representation and retry'', d)
                        else (case (case gu_ScopeUIDs input of None \<Rightarrow> None
                                    | Some us \<Rightarrow> validateGrantResources sv c (p_TenantUID p) applicationUID (gr_resource_server_uid old) us d) of
                          Some e \<Rightarrow> (fail r 422 ''invalid_grant_resources'' e, d)
                        | None \<Rightarrow>
                            (case commit_tx c (update_grant_tx c applicationUID grantUID input old d) of
                               None \<Rightarrow> failed
                             | Some d' \<Rightarrow>
                                 (case loadOAuthApplicationGrant sv c (p_TenantUID p) applicationUID grantUID d' of
                                    Row g \<Rightarrow> (setVersionETag (gv_Version g) (writeJSON 200 (grant_json g)), d')
                                  | _ \<Rightarrow> (fail r 500 ''internal_error'' ''could not load OAuth Application grant'', d'))))))))"

definition delete_grant_row :: "call \<Rightarrow> grant_row \<Rightarrow> grant_row" where
  "delete_grant_row c g =
     g\<lparr>gr_status := ''disabled'', gr_version := gr_version g + 1, gr_updated_at := ca_now c, gr_deleted_at := Some (ca_now c)\<rparr>"

definition delete_grant_tx :: "call \<Rightarrow> uid \<Rightarrow> uid \<Rightarrow> uid \<Rightarrow> db \<Rightarrow> db option" where
  "delete_grant_tx c applicationUID grantUID serverUID d =
     Option.bind (write_grants c (\<lambda>g. gr_uid g = grantUID) (delete_grant_row c) d) (\<lambda>d.
     Option.bind (bump_policy c serverUID d) (revoke_tokens c (held_by applicationUID serverUID)))"

definition deleteOAuthApplicationGrant :: "server \<Rightarrow> call \<Rightarrow> handler" where
  "deleteOAuthApplicationGrant sv c r d =
     (let p = mustPrincipal r; applicationUID = hq_path r ''application_uid''; grantUID = hq_path r ''grant_uid'';
          failed = (fail r 500 ''internal_error'' ''could not delete OAuth Application grant'', d) in
      case requireIfMatch r of
        Inl w \<Rightarrow> (w, d)
      | Inr expected \<Rightarrow>
          if ca_flt c ''begin transaction'' then failed
          else (case query_row sv c ''lock grant'' [grantUID, applicationUID] (own_grant (p_TenantUID p) applicationUID grantUID) (db_grants d) of
            NoRows \<Rightarrow> (fail r 404 ''oauth_application_grant_not_found'' ''OAuth Application grant was not found'', d)
          | QueryError \<Rightarrow> failed
          | Row old \<Rightarrow>
              if gr_version old \<noteq> expected then
                (version_conflict r (gr_version old) ''OAuth Application grant changed; fetch the latest representation and retry'', d)
              else (case commit_tx c (delete_grant_tx c applicationUID grantUID (gr_resource_server_uid old) d) of
                None \<Rightarrow> failed | Some d' \<Rightarrow> (no_content 204, d'))))"

section \<open>What a write needs and does\<close>

datatype 'i change = Update 'i | Delete

primrec server_write :: "server \<Rightarrow> updateResourceServerInput option change \<Rightarrow> call \<Rightarrow> handler" where
  "server_write sv (Update body) = updateResourceServer sv body"
| "server_write sv Delete = deleteResourceServer sv"

primrec scope_write :: "server \<Rightarrow> updateResourceServerScopeInput option change \<Rightarrow> call \<Rightarrow> handler" where
  "scope_write sv (Update body) = updateResourceServerScope sv body"
| "scope_write sv Delete = deleteResourceServerScope sv"

primrec grant_write :: "server \<Rightarrow> updateOAuthApplicationGrantInput option change \<Rightarrow> call \<Rightarrow> handler" where
  "grant_write sv (Update body) = updateOAuthApplicationGrant sv body"
| "grant_write sv Delete = deleteOAuthApplicationGrant sv"

definition locked_server :: "http_request \<Rightarrow> db \<Rightarrow> resource_server_row option" where
  "locked_server r d = sql_row (own_server (p_TenantUID (mustPrincipal r)) (hq_path r ''resource_server_uid'')) (db_resource_servers d)"

definition locked_scope :: "http_request \<Rightarrow> db \<Rightarrow> scope_row option" where
  "locked_scope r d =
     sql_row (own_scope d (p_TenantUID (mustPrincipal r)) (hq_path r ''resource_server_uid'') (hq_path r ''scope_uid'')) (db_scopes d)"

definition locked_grant :: "http_request \<Rightarrow> db \<Rightarrow> grant_row option" where
  "locked_grant r d = sql_row (own_grant (p_TenantUID (mustPrincipal r)) (hq_path r ''application_uid'') (hq_path r ''grant_uid'')) (db_grants d)"

lemma query_row_RowD: "query_row sv c site uids p t = Row x \<Longrightarrow> sql_row p t = Some x"
  by (auto simp: query_row_def split: if_splits option.splits)

lemma commit_txD: "commit_tx c tx = Some d' \<Longrightarrow> tx = Some d'"
  by (auto simp: commit_tx_def stmt_def bind_eq_Some_conv split: if_splits)

lemma server_write_cases:
  assumes "server_write sv x c r d = (w, d')" "d' \<noteq> d"
  obtains (updated) input old where "locked_server r d = Some old" "requireIfMatch r = Inr (rv_version old)" "x = Update (Some input)"
      "update_server_tx c (mustPrincipal r) (hq_path r ''resource_server_uid'') input old d = Some d'"
  | (deleted) old where "locked_server r d = Some old" "requireIfMatch r = Inr (rv_version old)" "x = Delete"
      "delete_server_tx c (mustPrincipal r) (hq_path r ''resource_server_uid'') d = Some d'"
proof (cases x)
  case (Update body)
  then have "\<exists>input old. body = Some input \<and> locked_server r d = Some old \<and> requireIfMatch r = Inr (rv_version old) \<and>
      update_server_tx c (mustPrincipal r) (hq_path r ''resource_server_uid'') input old d = Some d'"
    using assms unfolding locked_server_def
    by (auto simp: updateResourceServer_def Let_def split: option.splits if_splits sum.splits query.splits dest!: query_row_RowD commit_txD)
  with Update show ?thesis using updated by blast
next
  case Delete
  then have "\<exists>old. locked_server r d = Some old \<and> requireIfMatch r = Inr (rv_version old) \<and>
      delete_server_tx c (mustPrincipal r) (hq_path r ''resource_server_uid'') d = Some d'"
    using assms unfolding locked_server_def
    by (auto simp: deleteResourceServer_def Let_def split: option.splits if_splits sum.splits query.splits dest!: query_row_RowD commit_txD)
  with Delete show ?thesis using deleted by blast
qed

lemma scope_write_cases:
  assumes "scope_write sv x c r d = (w, d')" "d' \<noteq> d"
  obtains (updated) input old where "locked_scope r d = Some old" "requireIfMatch r = Inr (sp_version old)" "x = Update (Some input)"
      "update_scope_tx c (hq_path r ''resource_server_uid'') (hq_path r ''scope_uid'') input old d = Some d'"
  | (deleted) old where "locked_scope r d = Some old" "requireIfMatch r = Inr (sp_version old)" "x = Delete"
      "delete_scope_tx c (hq_path r ''resource_server_uid'') (hq_path r ''scope_uid'') (sp_name old) d = Some d'"
proof (cases x)
  case (Update body)
  then have "\<exists>input old. body = Some input \<and> locked_scope r d = Some old \<and> requireIfMatch r = Inr (sp_version old) \<and>
      update_scope_tx c (hq_path r ''resource_server_uid'') (hq_path r ''scope_uid'') input old d = Some d'"
    using assms unfolding locked_scope_def
    by (auto simp: updateResourceServerScope_def Let_def split: option.splits if_splits sum.splits query.splits dest!: query_row_RowD commit_txD)
  with Update show ?thesis using updated by blast
next
  case Delete
  then have "\<exists>old. locked_scope r d = Some old \<and> requireIfMatch r = Inr (sp_version old) \<and>
      delete_scope_tx c (hq_path r ''resource_server_uid'') (hq_path r ''scope_uid'') (sp_name old) d = Some d'"
    using assms unfolding locked_scope_def
    by (auto simp: deleteResourceServerScope_def Let_def split: option.splits if_splits sum.splits query.splits dest!: query_row_RowD commit_txD)
  with Delete show ?thesis using deleted by blast
qed

lemma grant_write_cases:
  assumes "grant_write sv x c r d = (w, d')" "d' \<noteq> d"
  obtains (updated) input old where "locked_grant r d = Some old" "requireIfMatch r = Inr (gr_version old)"
      "update_grant_tx c (hq_path r ''application_uid'') (hq_path r ''grant_uid'') input old d = Some d'"
  | (deleted) old where "locked_grant r d = Some old" "requireIfMatch r = Inr (gr_version old)" "x = Delete"
      "delete_grant_tx c (hq_path r ''application_uid'') (hq_path r ''grant_uid'') (gr_resource_server_uid old) d = Some d'"
proof (cases x)
  case (Update body)
  then have "\<exists>input old. locked_grant r d = Some old \<and> requireIfMatch r = Inr (gr_version old) \<and>
      update_grant_tx c (hq_path r ''application_uid'') (hq_path r ''grant_uid'') input old d = Some d'"
    using assms unfolding locked_grant_def
    by (auto simp: updateOAuthApplicationGrant_def Let_def split: option.splits if_splits sum.splits query.splits dest!: query_row_RowD commit_txD)
  with Update show ?thesis using updated by blast
next
  case Delete
  then have "\<exists>old. locked_grant r d = Some old \<and> requireIfMatch r = Inr (gr_version old) \<and>
      delete_grant_tx c (hq_path r ''application_uid'') (hq_path r ''grant_uid'') (gr_resource_server_uid old) d = Some d'"
    using assms unfolding locked_grant_def
    by (auto simp: deleteOAuthApplicationGrant_def Let_def split: option.splits if_splits sum.splits query.splits dest!: query_row_RowD commit_txD)
  with Delete show ?thesis using deleted by blast
qed

lemma sql_row_update:
  assumes "\<And>x. P (if hit x then f x else x) = P x"
  shows "sql_row P (sql_update hit f t) = map_option (\<lambda>x. if hit x then f x else x) (sql_row P t)"
proof (induction t)
  case (Cons x t)
  then show ?case using assms [of x] by simp
qed simp

lemma list_ex_update: "(\<And>x. P (if hit x then f x else x) = P x) \<Longrightarrow> list_ex P (sql_update hit f t) = list_ex P t"
  by (induction t) auto

lemma sql_row_update_gone: "(\<And>x. \<not> P (if hit x then f x else x)) \<Longrightarrow> sql_row P (sql_update hit f t) = None"
  by (induction t) auto

lemma own_server_simps [simp]:
  "own_server t u (bump_policy_row now v) = own_server t u v" "rv_version (bump_policy_row now v) = rv_version v"
  "rv_uid (bump_policy_row now v) = rv_uid v" "rv_policy_version (bump_policy_row now v) = rv_policy_version v + 1"
  by (simp_all add: own_server_def bump_policy_row_def)

text \<open>The tables a successful statement sequence leaves behind.\<close>

lemma update_server_shape:
  assumes "update_server_tx c p uid input old d = Some d'"
  shows "db_resource_servers d' = sql_update (\<lambda>v. rv_tenant_uid v = p_TenantUID p \<and> rv_uid v = uid) (update_server_row c input old) (db_resource_servers d) \<and>
    db_access_tokens d' = (if new_status (ru_Status input) (rv_status old) = ''disabled''
      then sql_update (\<lambda>t. tk_resource_server_uid t = Some uid) (revoke_token (ca_now c)) (db_access_tokens d) else db_access_tokens d)"
  using assms by (auto simp: update_server_tx_def Let_def write_servers_def revoke_tokens_def member_audit_def stmt_def add_audit_def bind_eq_Some_conv
      split: if_splits)

lemma delete_server_shape:
  assumes "delete_server_tx c p uid d = Some d'"
  shows "db_resource_servers d' = sql_update (\<lambda>v. rv_tenant_uid v = p_TenantUID p \<and> rv_uid v = uid) (delete_server_row c) (db_resource_servers d) \<and>
    db_access_tokens d' = sql_update (\<lambda>t. tk_resource_server_uid t = Some uid) (revoke_token (ca_now c)) (db_access_tokens d)"
  using assms by (auto simp: delete_server_tx_def write_servers_def revoke_tokens_def member_audit_def stmt_def add_audit_def bind_eq_Some_conv
      split: if_splits)

lemma update_scope_shape:
  assumes "update_scope_tx c serverUID scopeUID input old d = Some d'"
  shows "db_scopes d' = sql_update (\<lambda>s. sp_uid s = scopeUID \<and> sp_resource_server_uid s = serverUID) (update_scope_row c input old) (db_scopes d) \<and>
    db_resource_servers d' = sql_update (\<lambda>v. rv_uid v = serverUID) (bump_policy_row (ca_now c)) (db_resource_servers d) \<and>
    db_access_tokens d' = (if new_status (su_Status input) (sp_status old) = ''disabled''
      then sql_update (carries serverUID (sp_name old)) (revoke_token (ca_now c)) (db_access_tokens d) else db_access_tokens d)"
  using assms by (auto simp: update_scope_tx_def write_scopes_def bump_policy_def revoke_tokens_def stmt_def bind_eq_Some_conv split: if_splits)

lemma delete_scope_shape:
  assumes "delete_scope_tx c serverUID scopeUID name d = Some d'"
  shows "db_scopes d' = sql_update (\<lambda>s. sp_uid s = scopeUID) (delete_scope_row c) (db_scopes d) \<and>
    db_resource_servers d' = sql_update (\<lambda>v. rv_uid v = serverUID) (bump_policy_row (ca_now c)) (db_resource_servers d) \<and>
    db_access_tokens d' = sql_update (carries serverUID name) (revoke_token (ca_now c)) (db_access_tokens d)"
  using assms by (auto simp: delete_scope_tx_def write_scopes_def bump_policy_def revoke_tokens_def stmt_def bind_eq_Some_conv split: if_splits)

lemma insert_grant_scopes_frame:
  "insert_grant_scopes c g us d = Some d' \<Longrightarrow>
     \<exists>gs. d' = d\<lparr>db_grant_scopes := db_grant_scopes d @ gs\<rparr> \<and> gs = map (\<lambda>u. \<lparr>gs_grant_uid = g, gs_scope_uid = u\<rparr>) us"
proof (induction us arbitrary: d)
  case (Cons u us)
  then obtain d1 where d1: "d1 = d\<lparr>db_grant_scopes := db_grant_scopes d @ [\<lparr>gs_grant_uid = g, gs_scope_uid = u\<rparr>]\<rparr>"
    and rest: "insert_grant_scopes c g us d1 = Some d'"
    by (auto simp: stmt_def bind_eq_Some_conv split: if_splits)
  from Cons.IH [OF rest] show ?case by (simp add: d1)
qed simp

lemma replace_scopes_frame:
  assumes "replace_scopes c g us d = Some d'"
  shows "\<exists>gs. d' = d\<lparr>db_grant_scopes := gs\<rparr>"
proof (cases us)
  case None
  then show ?thesis using assms by (intro exI [of _ "db_grant_scopes d"]) (simp add: replace_scopes_def)
next
  case (Some u)
  then show ?thesis using assms
    by (auto simp: replace_scopes_def stmt_def bind_eq_Some_conv split: if_splits dest!: insert_grant_scopes_frame)
qed

lemma update_grant_shape:
  assumes "update_grant_tx c app grantUID input old d = Some d'"
  shows "db_grants d' = sql_update (\<lambda>g. gr_uid g = grantUID)
      (\<lambda>g. g\<lparr>gr_status := new_status (gu_Status input) (gr_status old), gr_version := gr_version old + 1, gr_updated_at := ca_now c\<rparr>) (db_grants d) \<and>
    db_resource_servers d' = sql_update (\<lambda>v. rv_uid v = gr_resource_server_uid old) (bump_policy_row (ca_now c)) (db_resource_servers d) \<and>
    db_access_tokens d' = sql_update (held_by app (gr_resource_server_uid old)) (revoke_token (ca_now c)) (db_access_tokens d)"
  using assms by (auto simp: update_grant_tx_def write_grants_def bump_policy_def revoke_tokens_def stmt_def bind_eq_Some_conv split: if_splits
      dest!: replace_scopes_frame)

lemma delete_grant_shape:
  assumes "delete_grant_tx c app grantUID serverUID d = Some d'"
  shows "db_grants d' = sql_update (\<lambda>g. gr_uid g = grantUID) (delete_grant_row c) (db_grants d) \<and>
    db_resource_servers d' = sql_update (\<lambda>v. rv_uid v = serverUID) (bump_policy_row (ca_now c)) (db_resource_servers d) \<and>
    db_access_tokens d' = sql_update (held_by app serverUID) (revoke_token (ca_now c)) (db_access_tokens d)"
  using assms by (auto simp: delete_grant_tx_def write_grants_def bump_policy_def revoke_tokens_def stmt_def bind_eq_Some_conv split: if_splits)

section \<open>Concurrent writes\<close>

definition server_version :: "http_request \<Rightarrow> db \<Rightarrow> int option" where
  "server_version r d = map_option rv_version (locked_server r d)"

definition scope_version :: "http_request \<Rightarrow> db \<Rightarrow> int option" where
  "scope_version r d = map_option sp_version (locked_scope r d)"

definition grant_version :: "http_request \<Rightarrow> db \<Rightarrow> int option" where
  "grant_version r d = map_option gr_version (locked_grant r d)"

lemma server_advances:
  assumes "server_write sv x c r d = (w, d')" "d' \<noteq> d" "server_version r d = Some v"
  shows "server_version r d' \<in> {None, Some (v + 1)}"
  using assms(1,2)
proof (cases rule: server_write_cases)
  case (updated input old)
  have "locked_server r d' = map_option (\<lambda>x. if rv_tenant_uid x = p_TenantUID (mustPrincipal r) \<and> rv_uid x = hq_path r ''resource_server_uid''
      then update_server_row c input old x else x) (locked_server r d)"
    using update_server_shape [OF updated(4)] unfolding locked_server_def
    by (elim conjE, simp only:, intro sql_row_update) (simp add: own_server_def update_server_row_def)
  then show ?thesis using updated(1) assms(3) sql_row_SomeD [OF updated(1) [unfolded locked_server_def]]
    by (auto simp: server_version_def update_server_row_def own_server_def)
next
  case (deleted old)
  have "locked_server r d' = None"
    using delete_server_shape [OF deleted(4)] unfolding locked_server_def
    by (elim conjE, simp only:, intro sql_row_update_gone) (auto simp: own_server_def delete_server_row_def)
  then show ?thesis by (simp add: server_version_def)
qed

lemma own_scope_bump:
  assumes "db_resource_servers d' = sql_update (\<lambda>v. rv_uid v = u) (bump_policy_row now) (db_resource_servers d)"
  shows "own_scope d' t server scope = own_scope d t server scope"
  by (rule ext) (simp add: own_scope_def assms list_ex_update)

lemma scope_advances:
  assumes "scope_write sv x c r d = (w, d')" "d' \<noteq> d" "scope_version r d = Some v"
  shows "scope_version r d' \<in> {None, Some (v + 1)}"
  using assms(1,2)
proof (cases rule: scope_write_cases)
  case (updated input old)
  note shape = update_scope_shape [OF updated(4)]
  have "locked_scope r d' = map_option (\<lambda>x. if sp_uid x = hq_path r ''scope_uid'' \<and> sp_resource_server_uid x = hq_path r ''resource_server_uid''
      then update_scope_row c input old x else x) (locked_scope r d)"
    using shape unfolding locked_scope_def own_scope_bump [OF conjunct1 [OF conjunct2 [OF shape]]]
    by (elim conjE, simp only:, intro sql_row_update) (simp add: own_scope_def update_scope_row_def)
  then show ?thesis using updated(1) assms(3) sql_row_SomeD [OF updated(1) [unfolded locked_scope_def]]
    by (auto simp: scope_version_def update_scope_row_def own_scope_def)
next
  case (deleted old)
  have "locked_scope r d' = None"
    using delete_scope_shape [OF deleted(4)] unfolding locked_scope_def
    by (elim conjE, simp only:, intro sql_row_update_gone) (auto simp: own_scope_def delete_scope_row_def)
  then show ?thesis by (simp add: scope_version_def)
qed

lemma grant_advances:
  assumes "grant_write sv x c r d = (w, d')" "d' \<noteq> d" "grant_version r d = Some v"
  shows "grant_version r d' \<in> {None, Some (v + 1)}"
  using assms(1,2)
proof (cases rule: grant_write_cases)
  case (updated input old)
  have "locked_grant r d' = map_option (\<lambda>x. if gr_uid x = hq_path r ''grant_uid''
      then x\<lparr>gr_status := new_status (gu_Status input) (gr_status old), gr_version := gr_version old + 1, gr_updated_at := ca_now c\<rparr> else x) (locked_grant r d)"
    using update_grant_shape [OF updated(3)] unfolding locked_grant_def
    by (elim conjE, simp only:, intro sql_row_update) (simp add: own_grant_def)
  then show ?thesis using updated(1) assms(3) sql_row_SomeD [OF updated(1) [unfolded locked_grant_def]]
    by (auto simp: grant_version_def own_grant_def)
next
  case (deleted old)
  have "locked_grant r d' = None"
    using delete_grant_shape [OF deleted(4)] unfolding locked_grant_def
    by (elim conjE, simp only:, intro sql_row_update_gone) (auto simp: own_grant_def delete_grant_row_def)
  then show ?thesis by (simp add: grant_version_def)
qed

interpretation server_rows: versioned server_version "server_write sv" for sv
proof unfold_locales
  fix x c r d w d'
  assume "server_write sv x c r d = (w, d')" "d' \<noteq> d"
  then show "\<exists>v. requireIfMatch r = Inr v \<and> server_version r d = Some v"
    by (cases rule: server_write_cases) (simp_all add: server_version_def)
qed (rule server_advances)

interpretation scope_rows: versioned scope_version "scope_write sv" for sv
proof unfold_locales
  fix x c r d w d'
  assume "scope_write sv x c r d = (w, d')" "d' \<noteq> d"
  then show "\<exists>v. requireIfMatch r = Inr v \<and> scope_version r d = Some v"
    by (cases rule: scope_write_cases) (simp_all add: scope_version_def)
qed (rule scope_advances)

interpretation grant_rows: versioned grant_version "grant_write sv" for sv
proof unfold_locales
  fix x c r d w d'
  assume "grant_write sv x c r d = (w, d')" "d' \<noteq> d"
  then show "\<exists>v. requireIfMatch r = Inr v \<and> grant_version r d = Some v"
    by (cases rule: grant_write_cases) (simp_all add: grant_version_def)
qed (rule grant_advances)

text \<open>C17 (no_lost_updates): of two updates or deletions of the same resource server, scope or grant that carry the same If-Match,
  in either order, at most one takes effect: once the first has changed anything, the second changes nothing.\<close>

theorem no_lost_updates:
  assumes "requireIfMatch r' = requireIfMatch r" "mustPrincipal r' = mustPrincipal r" "hq_path r' = hq_path r" "d1 \<noteq> d"
  shows "(server_write sv x c r d = (w, d1) \<and> server_write sv y c' r' d1 = (w', d2) \<longrightarrow> d2 = d1) \<and>
    (scope_write sv x2 c r d = (w, d1) \<and> scope_write sv y2 c' r' d1 = (w', d2) \<longrightarrow> d2 = d1) \<and>
    (grant_write sv x3 c r d = (w, d1) \<and> grant_write sv y3 c' r' d1 = (w', d2) \<longrightarrow> d2 = d1)"
proof -
  have same: "server_version r' = server_version r" "scope_version r' = scope_version r" "grant_version r' = grant_version r"
    by (intro ext; simp add: server_version_def locked_server_def scope_version_def locked_scope_def grant_version_def locked_grant_def assms)+
  show ?thesis
  proof (intro conjI impI; elim conjE)
    show "d2 = d1" if "server_write sv x c r d = (w, d1)" "server_write sv y c' r' d1 = (w', d2)"
      using that by (rule server_rows.no_lost_update [OF _ assms(4,1) same(1)])
    show "d2 = d1" if "scope_write sv x2 c r d = (w, d1)" "scope_write sv y2 c' r' d1 = (w', d2)"
      using that by (rule scope_rows.no_lost_update [OF _ assms(4,1) same(2)])
    show "d2 = d1" if "grant_write sv x3 c r d = (w, d1)" "grant_write sv y3 c' r' d1 = (w', d2)"
      using that by (rule grant_rows.no_lost_update [OF _ assms(4,1) same(3)])
  qed
qed

definition demo_if_match :: http_request where
  "demo_if_match = demo_request\<lparr>hq_header := (\<lambda>_. versionETag 1), hq_principal := Some demo_principal,
     hq_path := (\<lambda>name. if name = ''resource_server_uid'' then ''v'' else if name = ''scope_uid'' then ''sc'' else
                        if name = ''application_uid'' then ''a'' else ''g'')\<rparr>"

lemma demo_match: "requireIfMatch demo_if_match = Inr 1"
proof -
  have "int_text 1 = ''1''" by code_simp
  then show ?thesis by (simp add: requireIfMatch_def Let_def demo_if_match_def versionETag_def ParseInt64_def is_digit_c_def less_eq_char_def)
qed

lemma demo_deleted:
  "\<exists>d'. server_write demo_server Delete demo_call demo_if_match (demo_oauth_db\<lparr>db_access_tokens := ts\<rparr>) = (no_content 204, d') \<and>
     d' \<noteq> demo_oauth_db\<lparr>db_access_tokens := ts\<rparr> \<and> db_resource_servers d' = [delete_server_row demo_call demo_resource] \<and>
     db_access_tokens d' = sql_update (\<lambda>t. tk_resource_server_uid t = Some ''v'') (revoke_token (1000 * Second)) ts"
proof -
  let ?d = "demo_oauth_db\<lparr>db_access_tokens := ts\<rparr>"
  let ?p = "mustPrincipal demo_if_match"
  have p: "p_TenantUID ?p = ''t''" by (simp add: demo_if_match_def mustPrincipal_def demo_principal_def)
  have uid: "hq_path demo_if_match ''resource_server_uid'' = ''v''" by (simp add: demo_if_match_def)
  have row: "query_row demo_server demo_call ''lock resource server'' [''v''] (own_server ''t'' ''v'') (db_resource_servers ?d) = Row demo_resource"
    by (simp add: query_row_def demo_call_def demo_server_def own_server_def demo_oauth_defs)
  have v: "rv_version demo_resource = 1" "\<not> ca_flt demo_call ''begin transaction''" by (simp_all add: demo_resource_def demo_call_def)
  obtain d' where tx: "delete_server_tx demo_call ?p ''v'' ?d = Some d'"
    by (simp add: delete_server_tx_def write_servers_def revoke_tokens_def member_audit_def stmt_def demo_call_def bigint_ok_def
        delete_server_row_def demo_oauth_defs)
  then have "commit_tx demo_call (delete_server_tx demo_call ?p ''v'' ?d) = Some d'"
    by (simp add: commit_tx_def stmt_def demo_call_def)
  then have "server_write demo_server Delete demo_call demo_if_match ?d = (no_content 204, d')"
    unfolding server_write.simps deleteResourceServer_def Let_def demo_match sum.case p uid row query.case using v by simp
  moreover have rows: "db_resource_servers d' = [delete_server_row demo_call demo_resource] \<and>
      db_access_tokens d' = sql_update (\<lambda>t. tk_resource_server_uid t = Some ''v'') (revoke_token (1000 * Second)) ts"
    using delete_server_shape [OF tx] p by (simp add: demo_oauth_db_def demo_resource_def demo_call_def)
  moreover have "d' \<noteq> ?d" using conjunct1 [OF rows] by (auto simp: demo_oauth_db_def demo_resource_def delete_server_row_def)
  ultimately show ?thesis by blast
qed

theorem no_lost_updates_witness:
  "\<exists>d1. server_write demo_server Delete demo_call demo_if_match (demo_oauth_db\<lparr>db_access_tokens := []\<rparr>) = (no_content 204, d1) \<and>
     snd (server_write demo_server Delete demo_call demo_if_match d1) = d1"
proof -
  obtain d1 where d1: "server_write demo_server Delete demo_call demo_if_match (demo_oauth_db\<lparr>db_access_tokens := []\<rparr>) = (no_content 204, d1)" "d1 \<noteq> demo_oauth_db\<lparr>db_access_tokens := []\<rparr>"
    using demo_deleted by blast
  obtain w d2 where d2: "server_write demo_server Delete demo_call demo_if_match d1 = (w, d2)" by fastforce
  have "d2 = d1" using no_lost_updates [OF refl refl refl d1(2)] d1(1) d2 by blast
  with d1(1) d2 show ?thesis by auto
qed

section \<open>Withdrawn authority\<close>

lemma all_revoked:
  assumes "db_access_tokens d' = sql_update hit (revoke_token now) (db_access_tokens d)"
    and "\<And>t. hit (revoke_token now t) = hit t" and "t \<in> set (db_access_tokens d')" "hit t"
  shows "tk_revoked_at t \<noteq> None"
  using assms by (auto simp: sql_update_def revoke_token_def split: if_splits option.splits)

lemma hit_revoked [simp]:
  "carries u n (revoke_token now t) = carries u n t" "held_by a u (revoke_token now t) = held_by a u t"
  "tk_resource_server_uid (revoke_token now t) = tk_resource_server_uid t"
  by (simp_all add: carries_def held_by_def revoke_token_def)

text \<open>C16 (withdrawal_revokes): when a resource server is disabled or deleted, a scope disabled or deleted, or a grant changed
  in any way, every access token that rests on it -- all tokens of the resource server, those that carry the scope, those the
  application holds for the resource server -- is refused from then on by the authorization of the resource server.\<close>

theorem withdrawal_revokes:
  assumes "d' \<noteq> d"
    and "server_write sv x c r d = (w, d') \<and> list_ex (\<lambda>v. rv_tenant_uid v = p_TenantUID (mustPrincipal r) \<and>
            rv_uid v = hq_path r ''resource_server_uid'' \<and> rv_status v = ''disabled'') (db_resource_servers d') \<and>
          hit = (\<lambda>t. tk_resource_server_uid t = Some (hq_path r ''resource_server_uid'')) \<or>
        scope_write sv y c r d = (w, d') \<and> locked_scope r d = Some s \<and>
          list_ex (\<lambda>s. sp_uid s = hq_path r ''scope_uid'' \<and> sp_resource_server_uid s = hq_path r ''resource_server_uid'' \<and> sp_status s = ''disabled'') (db_scopes d') \<and>
          hit = carries (hq_path r ''resource_server_uid'') (sp_name s) \<or>
        grant_write sv z c r d = (w, d') \<and> locked_grant r d = Some g \<and> hit = held_by (hq_path r ''application_uid'') (gr_resource_server_uid g)"
    and "\<And>t. t \<in> set (db_access_tokens d') \<Longrightarrow> tk_token_hash t = SessionHash_of sv value \<Longrightarrow> hit t"
  shows "resource_token sv now value d' = None"
proof -
  have "tk_revoked_at t \<noteq> None" if t: "t \<in> set (db_access_tokens d')" "hit t" for t
    using assms(2)
  proof (elim disjE conjE)
    assume run: "server_write sv x c r d = (w, d')" and hit: "hit = (\<lambda>t. tk_resource_server_uid t = Some (hq_path r ''resource_server_uid''))"
      and off: "list_ex (\<lambda>v. rv_tenant_uid v = p_TenantUID (mustPrincipal r) \<and> rv_uid v = hq_path r ''resource_server_uid'' \<and> rv_status v = ''disabled'') (db_resource_servers d')"
    from run assms(1) show ?thesis
    proof (cases rule: server_write_cases)
      case (updated input old)
      note shape = update_server_shape [OF updated(4)]
      have "new_status (ru_Status input) (rv_status old) = ''disabled''"
        using off shape by (auto simp: list_ex_iff sql_update_def update_server_row_def new_status_def split: if_splits option.splits)
      then show ?thesis using all_revoked [of d' hit "ca_now c" d t] shape t by (simp add: hit)
    next
      case (deleted old)
      then show ?thesis using all_revoked [of d' hit "ca_now c" d t] delete_server_shape [OF deleted(4)] t by (simp add: hit)
    qed
  next
    assume run: "scope_write sv y c r d = (w, d')" and s: "locked_scope r d = Some s" and hit: "hit = carries (hq_path r ''resource_server_uid'') (sp_name s)"
      and off: "list_ex (\<lambda>s. sp_uid s = hq_path r ''scope_uid'' \<and> sp_resource_server_uid s = hq_path r ''resource_server_uid'' \<and> sp_status s = ''disabled'') (db_scopes d')"
    from run assms(1) show ?thesis
    proof (cases rule: scope_write_cases)
      case (updated input old)
      note shape = update_scope_shape [OF updated(4)]
      have "new_status (su_Status input) (sp_status old) = ''disabled''"
        using off shape by (auto simp: list_ex_iff sql_update_def update_scope_row_def split: if_splits)
      then show ?thesis using all_revoked [of d' hit "ca_now c" d t] shape t updated(1) s by (simp add: hit)
    next
      case (deleted old)
      then show ?thesis using all_revoked [of d' hit "ca_now c" d t] delete_scope_shape [OF deleted(4)] t s by (simp add: hit)
    qed
  next
    assume run: "grant_write sv z c r d = (w, d')" and g: "locked_grant r d = Some g" and hit: "hit = held_by (hq_path r ''application_uid'') (gr_resource_server_uid g)"
    from run assms(1) show ?thesis
    proof (cases rule: grant_write_cases)
      case (updated input old)
      then show ?thesis using all_revoked [of d' hit "ca_now c" d t] update_grant_shape [OF updated(3)] t g by (simp add: hit)
    next
      case (deleted old)
      then show ?thesis using all_revoked [of d' hit "ca_now c" d t] delete_grant_shape [OF deleted(4)] t g by (simp add: hit)
    qed
  qed
  then show ?thesis using assms(3) by (intro revoked_token_dead(1)) blast
qed

theorem withdrawal_revokes_witness:
  "\<exists>d'. server_write demo_server Delete demo_call demo_if_match (demo_oauth_db\<lparr>db_access_tokens := [demo_token_row]\<rparr>) = (no_content 204, d') \<and>
     resource_token demo_server 0 ''tok'' d' = None"
proof -
  obtain d' where run: "server_write demo_server Delete demo_call demo_if_match (demo_oauth_db\<lparr>db_access_tokens := [demo_token_row]\<rparr>) = (no_content 204, d')"
    and changed: "d' \<noteq> demo_oauth_db\<lparr>db_access_tokens := [demo_token_row]\<rparr>"
    and rows: "db_resource_servers d' = [delete_server_row demo_call demo_resource]"
      "db_access_tokens d' = sql_update (\<lambda>t. tk_resource_server_uid t = Some ''v'') (revoke_token (1000 * Second)) [demo_token_row]"
    using demo_deleted by blast
  have off: "list_ex (\<lambda>v. rv_tenant_uid v = p_TenantUID (mustPrincipal demo_if_match) \<and> rv_uid v = hq_path demo_if_match ''resource_server_uid'' \<and>
      rv_status v = ''disabled'') (db_resource_servers d')"
    by (simp add: rows delete_server_row_def demo_resource_def demo_if_match_def mustPrincipal_def demo_principal_def)
  have "tk_resource_server_uid t = Some (hq_path demo_if_match ''resource_server_uid'')" if "t \<in> set (db_access_tokens d')" for t
    using that by (simp add: rows demo_token_row_def demo_if_match_def)
  then have "resource_token demo_server 0 ''tok'' d' = None"
    by (intro withdrawal_revokes [OF changed disjI1 [OF conjI [OF run conjI [OF off refl]]]])
  with run show ?thesis by blast
qed

section \<open>The policy version\<close>

definition policy_of :: "uid \<Rightarrow> db \<Rightarrow> int option" where
  "policy_of u d = map_option rv_policy_version (sql_row (\<lambda>v. rv_uid v = u) (db_resource_servers d))"

lemma policy_bump:
  assumes "db_resource_servers d' = sql_update (\<lambda>v. rv_uid v = u) (bump_policy_row now) (db_resource_servers d)"
  shows "policy_of u d' = map_option (\<lambda>n. n + 1) (policy_of u d)"
proof -
  have "sql_row (\<lambda>v. rv_uid v = u) (db_resource_servers d') =
      map_option (\<lambda>v. if rv_uid v = u then bump_policy_row now v else v) (sql_row (\<lambda>v. rv_uid v = u) (db_resource_servers d))"
    unfolding assms by (rule sql_row_update) simp
  then show ?thesis by (cases "sql_row (\<lambda>v. rv_uid v = u) (db_resource_servers d)") (auto simp: policy_of_def dest: sql_row_SomeD)
qed

lemma policy_server:
  assumes "distinct (map rv_uid (db_resource_servers d))" "old \<in> set (db_resource_servers d)" "rv_uid old = u" "rv_tenant_uid old = t"
    and "db_resource_servers d' = sql_update (\<lambda>v. rv_tenant_uid v = t \<and> rv_uid v = u) f (db_resource_servers d)"
    and "\<And>v. rv_uid (f v) = rv_uid v" "\<And>v. rv_policy_version (f v) = rv_policy_version v + 1"
  shows "policy_of u d' = map_option (\<lambda>n. n + 1) (policy_of u d)"
proof -
  have old: "sql_row (\<lambda>v. rv_uid v = u) (db_resource_servers d) = Some old"
    using assms(1-3) by (intro sql_row_unique) (auto simp: inj_on_def distinct_map dest: distinct_map_inj)
  have "sql_row (\<lambda>v. rv_uid v = u) (db_resource_servers d') =
      map_option (\<lambda>v. if rv_tenant_uid v = t \<and> rv_uid v = u then f v else v) (sql_row (\<lambda>v. rv_uid v = u) (db_resource_servers d))"
    unfolding assms(5) by (rule sql_row_update) (simp add: assms(6))
  then show ?thesis by (simp add: policy_of_def old assms(3,4,7))
qed

text \<open>Lemma (policy_version_advances): every update or deletion of a resource server, of one of its scopes or of a grant for it that takes effect
  raises the policy version of that resource server by exactly one, so the version an authorization decision reports
  tells apart the policies before and after.\<close>

theorem policy_version_advances:
  assumes "distinct (map rv_uid (db_resource_servers d))" and "d' \<noteq> d"
    and "server_write sv x c r d = (w, d') \<and> u = hq_path r ''resource_server_uid'' \<or>
      scope_write sv y c r d = (w, d') \<and> u = hq_path r ''resource_server_uid'' \<or>
      grant_write sv z c r d = (w, d') \<and> map_option gr_resource_server_uid (locked_grant r d) = Some u"
  shows "policy_of u d' = map_option (\<lambda>n. n + 1) (policy_of u d)"
  using assms(3)
proof (elim disjE conjE)
  assume run: "server_write sv x c r d = (w, d')" and u: "u = hq_path r ''resource_server_uid''"
  from run assms(2) show ?thesis
  proof (cases rule: server_write_cases)
    case (updated input old)
    have "old \<in> set (db_resource_servers d)" "rv_uid old = u" "rv_tenant_uid old = p_TenantUID (mustPrincipal r)"
      using sql_row_SomeD [OF updated(1) [unfolded locked_server_def]] by (simp_all add: own_server_def u)
    then show ?thesis using update_server_shape [OF updated(4)] unfolding u [symmetric]
      by (intro policy_server [OF assms(1), where f = "update_server_row c input old"]) (auto simp: update_server_row_def)
  next
    case (deleted old)
    have "old \<in> set (db_resource_servers d)" "rv_uid old = u" "rv_tenant_uid old = p_TenantUID (mustPrincipal r)"
      using sql_row_SomeD [OF deleted(1) [unfolded locked_server_def]] by (simp_all add: own_server_def u)
    then show ?thesis using delete_server_shape [OF deleted(4)] unfolding u [symmetric]
      by (intro policy_server [OF assms(1), where f = "delete_server_row c"]) (auto simp: delete_server_row_def)
  qed
next
  assume run: "scope_write sv y c r d = (w, d')" and u: "u = hq_path r ''resource_server_uid''"
  from run assms(2) show ?thesis
    by (cases rule: scope_write_cases) (use u update_scope_shape delete_scope_shape policy_bump in blast)+
next
  assume run: "grant_write sv z c r d = (w, d')" and u: "map_option gr_resource_server_uid (locked_grant r d) = Some u"
  from run assms(2) show ?thesis
  proof (cases rule: grant_write_cases)
    case (updated input old)
    then show ?thesis using u update_grant_shape [OF updated(3)] by (auto intro: policy_bump)
  next
    case (deleted old)
    then show ?thesis using u delete_grant_shape [OF deleted(4)] by (auto intro: policy_bump)
  qed
qed

theorem policy_version_advances_witness:
  "\<exists>d'. server_write demo_server Delete demo_call demo_if_match (demo_oauth_db\<lparr>db_access_tokens := []\<rparr>) = (no_content 204, d') \<and> policy_of ''v'' d' = Some 4"
proof -
  let ?d = "demo_oauth_db\<lparr>db_access_tokens := []\<rparr>"
  obtain d' where run: "server_write demo_server Delete demo_call demo_if_match ?d = (no_content 204, d')" and changed: "d' \<noteq> ?d" using demo_deleted by blast
  have dist: "distinct (map rv_uid (db_resource_servers ?d))" and uid: "''v'' = hq_path demo_if_match ''resource_server_uid''"
    by (simp_all add: demo_oauth_db_def demo_if_match_def)
  have "policy_of ''v'' ?d = Some 3" by (simp add: policy_of_def demo_oauth_db_def demo_resource_def)
  with policy_version_advances [OF dist changed disjI1 [OF conjI [OF run uid]]] run show ?thesis by auto
qed

section \<open>What a new grant gives\<close>

definition usable_scope :: "uid \<Rightarrow> scope_row \<Rightarrow> bool" where
  "usable_scope serverUID s \<longleftrightarrow> sp_resource_server_uid s = serverUID \<and> sp_status s = ''active'' \<and> sp_deleted_at s = None"

lemma counted_scopes:
  assumes "distinct (map sp_uid t)" "distinct uids"
    and "sql_count (\<lambda>s. sp_resource_server_uid s = serverUID \<and> sp_uid s \<in> set uids \<and> sp_status s = ''active'' \<and> sp_deleted_at s = None) t = length uids"
    and "u \<in> set uids"
  shows "\<exists>s. s \<in> set t \<and> sp_uid s = u \<and> usable_scope serverUID s"
proof -
  let ?F = "filter (\<lambda>s. sp_resource_server_uid s = serverUID \<and> sp_uid s \<in> set uids \<and> sp_status s = ''active'' \<and> sp_deleted_at s = None) t"
  have "distinct (map sp_uid ?F)" using assms(1) by (rule distinct_map_filter)
  then have "card (set (map sp_uid ?F)) = length (map sp_uid ?F)" by (rule distinct_card)
  also have "\<dots> = length uids" using assms(3) by (simp add: sql_count_def)
  also have "\<dots> = card (set uids)" using assms(2) by (rule distinct_card [symmetric])
  finally have "card (set (map sp_uid ?F)) = card (set uids)" .
  moreover have "set (map sp_uid ?F) \<subseteq> set uids" by auto
  ultimately have "set (map sp_uid ?F) = set uids" by (simp add: card_subset_eq)
  with assms(4) have "u \<in> set (map sp_uid ?F)" by simp
  then show ?thesis by (auto simp: usable_scope_def)
qed

lemma validate_okD:
  assumes "validateGrantResources sv c tenantUID applicationUID serverUID uids d = None"
  shows "(\<exists>a. a \<in> set (db_applications d) \<and> ap_uid a = applicationUID \<and> ap_tenant_uid a = tenantUID \<and> ap_status a = ''active'' \<and> ap_deleted_at a = None) \<and>
    (\<exists>v. v \<in> set (db_resource_servers d) \<and> own_server tenantUID serverUID v \<and> rv_status v = ''active'') \<and>
    sql_count (\<lambda>s. sp_resource_server_uid s = serverUID \<and> sp_uid s \<in> set uids \<and> sp_status s = ''active'' \<and> sp_deleted_at s = None) (db_scopes d) = length uids"
proof -
  obtain a v where a: "query_row sv c ''load grant resources'' [applicationUID, serverUID]
        (\<lambda>a. ap_uid a = applicationUID \<and> ap_tenant_uid a = tenantUID \<and> ap_deleted_at a = None) (db_applications d) = Row a"
    and v: "sql_row (own_server tenantUID serverUID) (db_resource_servers d) = Some v" and active: "ap_status a = ''active''" "rv_status v = ''active''"
    using assms by (auto simp: validateGrantResources_def Let_def split: if_splits query.splits option.splits)
  have "sql_count (\<lambda>s. sp_resource_server_uid s = serverUID \<and> sp_uid s \<in> set uids \<and> sp_status s = ''active'' \<and> sp_deleted_at s = None) (db_scopes d) = length uids"
    using assms unfolding validateGrantResources_def Let_def by (simp split: if_splits)
  then show ?thesis using sql_row_SomeD [OF query_row_RowD [OF a]] sql_row_SomeD [OF v] active by blast
qed

lemma create_grant_rest_shape:
  assumes "create_grant_rest c p app g uids d = Some d'"
  shows "db_grants d' = db_grants d \<and> db_access_tokens d' = db_access_tokens d \<and>
    db_grant_scopes d' = db_grant_scopes d @ map (\<lambda>u. \<lparr>gs_grant_uid = gr_uid g, gs_scope_uid = u\<rparr>) uids"
  using assms by (auto simp: create_grant_rest_def bump_policy_def member_audit_def stmt_def add_audit_def bind_eq_Some_conv split: if_splits
      dest!: insert_grant_scopes_frame)

lemma create_grant_cases:
  assumes "create_grant_tx sv c input request lease r d = (w, d')"
  obtains (refused) "d' = d"
  | (created) d1 t where "validateGrantResources sv c (p_TenantUID (mustPrincipal r)) (hq_path r ''application_uid'') (gi_ResourceServerUID input) (gi_ScopeUIDs input) d = None"
      "\<not> list_ex (\<lambda>x. gr_application_uid x = hq_path r ''application_uid'' \<and> gr_resource_server_uid x = gi_ResourceServerUID input \<and> gr_deleted_at x = None) (db_grants d)"
      "create_grant_rest c (mustPrincipal r) (hq_path r ''application_uid'') (new_grant c (mustPrincipal r) (hq_path r ''application_uid'') (gi_ResourceServerUID input))
         (gi_ScopeUIDs input) (d\<lparr>db_grants := db_grants d @ [new_grant c (mustPrincipal r) (hq_path r ''application_uid'') (gi_ResourceServerUID input)]\<rparr>) = Some d1"
      "d' = d1\<lparr>db_idempotency := t\<rparr>"
proof -
  define g where "g = new_grant c (mustPrincipal r) (hq_path r ''application_uid'') (gi_ResourceServerUID input)"
  show thesis
  proof (cases "d' = d")
    case False
    then obtain d1 response where val: "validateGrantResources sv c (p_TenantUID (mustPrincipal r)) (hq_path r ''application_uid'') (gi_ResourceServerUID input) (gi_ScopeUIDs input) d = None"
      and uniq: "\<not> list_ex (\<lambda>x. gr_application_uid x = hq_path r ''application_uid'' \<and> gr_resource_server_uid x = gi_ResourceServerUID input \<and> gr_deleted_at x = None) (db_grants d)"
      and rest: "create_grant_rest c (mustPrincipal r) (hq_path r ''application_uid'') g (gi_ScopeUIDs input) (d\<lparr>db_grants := db_grants d @ [g]\<rparr>) = Some d1"
      and resp: "respond_stored sv c r request lease response (Some d1) ''could not create OAuth Application grant'' d = (w, d')"
      using assms unfolding create_grant_tx_def Let_def g_def [symmetric] by (auto split: if_splits option.splits)
    from resp show ?thesis
    proof (cases rule: respond_stored_cases)
      case failed
      then show ?thesis using False by simp
    next
      case (stored d2 t)
      then show ?thesis using created [OF val uniq rest [unfolded g_def]] by simp
    qed
  qed (rule refused)
qed

text \<open>Lemma (created_grant_exact): a grant is created only for an active application and an active resource server of the member's tenant, when
  the pair has no other live grant, and with scopes that are all active scopes of that resource server; it then
  assigns exactly the requested scopes, once each. In every other case only the idempotency record may change.\<close>

theorem created_grant_exact:
  assumes "createOAuthApplicationGrant sv c body r d = (w, d')" and "distinct (map sp_uid (db_scopes d))"
  shows "(\<exists>t. d' = d\<lparr>db_idempotency := t\<rparr>) \<or>
    (\<exists>raw g. body = Some raw \<and> g = new_grant c (mustPrincipal r) (hq_path r ''application_uid'') (gi_ResourceServerUID raw) \<and>
       db_grants d' = db_grants d @ [g] \<and> db_access_tokens d' = db_access_tokens d \<and> distinct (gi_ScopeUIDs raw) \<and>
       db_grant_scopes d' = db_grant_scopes d @ map (\<lambda>u. \<lparr>gs_grant_uid = gr_uid g, gs_scope_uid = u\<rparr>) (sort (gi_ScopeUIDs raw)) \<and>
       (\<exists>a. a \<in> set (db_applications d) \<and> ap_uid a = hq_path r ''application_uid'' \<and> ap_tenant_uid a = p_TenantUID (mustPrincipal r) \<and>
            ap_status a = ''active'' \<and> ap_deleted_at a = None) \<and>
       (\<exists>v. v \<in> set (db_resource_servers d) \<and> own_server (p_TenantUID (mustPrincipal r)) (gi_ResourceServerUID raw) v \<and> rv_status v = ''active'') \<and>
       (\<forall>u \<in> set (gi_ScopeUIDs raw). \<exists>s. s \<in> set (db_scopes d) \<and> sp_uid s = u \<and> usable_scope (gi_ResourceServerUID raw) s) \<and>
       \<not> list_ex (\<lambda>x. gr_application_uid x = hq_path r ''application_uid'' \<and> gr_resource_server_uid x = gi_ResourceServerUID raw \<and>
            gr_deleted_at x = None) (db_grants d))"
proof (cases "d' = d")
  case True
  then show ?thesis by (intro disjI1 exI [of _ "db_idempotency d"]) simp
next
  case False
  then obtain raw uids request claim d1 where body: "body = Some raw" and norm: "normalizeScopeUIDs sv (gi_ScopeUIDs raw) = Inr uids"
    and begun: "beginIdempotentRequest sv c r request d = (claim, d1)"
    and step: "d' = d1 \<or> (\<exists>lease. create_grant_tx sv c (raw\<lparr>gi_ScopeUIDs := uids\<rparr>) request lease r d1 = (w, d'))"
    using assms(1) by (auto simp: createOAuthApplicationGrant_def Let_def split: option.splits if_splits sum.splits prod.splits) blast+
  have uids: "uids = sort (gi_ScopeUIDs raw)" "distinct (gi_ScopeUIDs raw)"
    using norm by (auto simp: normalizeScopeUIDs_def split: if_splits)
  from begun obtain i where d1: "d1 = d\<lparr>db_idempotency := i\<rparr>" by (rule begin_shape)
  from step show ?thesis
  proof (elim disjE exE)
    assume "d' = d1"
    then show ?thesis using d1 by blast
  next
    fix lease
    assume "create_grant_tx sv c (raw\<lparr>gi_ScopeUIDs := uids\<rparr>) request lease r d1 = (w, d')"
    then show ?thesis
    proof (cases rule: create_grant_cases)
      case refused
      then show ?thesis using d1 by blast
    next
      case (created d2 t)
      note ok = validate_okD [OF created(1)] and shape = create_grant_rest_shape [OF created(3)]
      have scopes: "\<forall>u \<in> set (gi_ScopeUIDs raw). \<exists>s. s \<in> set (db_scopes d) \<and> sp_uid s = u \<and> usable_scope (gi_ResourceServerUID raw) s"
        using counted_scopes [OF assms(2), of uids "gi_ResourceServerUID raw"] ok uids d1 by auto
      show ?thesis
        by (intro disjI2 exI [of _ raw] exI [of _ "new_grant c (mustPrincipal r) (hq_path r ''application_uid'') (gi_ResourceServerUID raw)"] conjI)
          (use body shape created(2,4) ok scopes uids d1 in \<open>simp_all\<close>)
    qed
  qed
qed

definition demo_grant_input :: createOAuthApplicationGrantInput where
  "demo_grant_input = \<lparr>gi_ResourceServerUID = ''v'', gi_ScopeUIDs = [''sc'']\<rparr>"

definition ungranted_db :: db where
  "ungranted_db = demo_oauth_db\<lparr>db_grants := [], db_grant_scopes := []\<rparr>"

definition demo_create :: http_request where
  "demo_create = demo_if_match\<lparr>hq_header := (\<lambda>_. ''key'')\<rparr>"

definition demo_create_request :: IdempotencyRequest where
  "demo_create_request = create_request demo_server demo_principal ''oauth_application_grants.create'' ''key''
     (JObj [(''application_uid'', JStr ''a''), (''input'', JObj [(''resource_server_uid'', JStr ''v''), (''scope_uids'', JArr [JStr ''sc''])])])"

lemma demo_valid:
  assumes "idempotencyOperation operation"
  shows "validateIdempotencyRequest (create_request demo_server demo_principal operation ''key'' canonical) = None"
proof -
  have "TrimSpace ''m'' = ''m''" "TrimSpace ''key'' = ''key''" by (rule TrimSpace_visible; simp add: visible_c_def)+
  moreover have "idempotencyPrincipalType ''tenant_member''"
    by (simp add: idempotencyPrincipalType_def head_tail_match_def char_class_defs less_eq_char_def)
  moreover have "\<not> ContainsControl ''key''" by code_simp
  ultimately show ?thesis using assms by (simp add: validateIdempotencyRequest_def create_request_def demo_principal_def time_defs)
qed

lemma demo_begun:
  assumes "validateIdempotencyRequest request = None" "db_idempotency d = []"
  shows "beginIdempotentRequest demo_server demo_call r request d =
     (Inr (empty_claim\<lparr>cl_LeaseUID := ''u-idempotency lease''\<rparr>), d\<lparr>db_idempotency := [claim_row (1000 * Second) ''u-idempotency lease'' request]\<rparr>)"
  using Begin_new [OF assms(1), of "[]"] assms(2) by (simp add: beginIdempotentRequest_def demo_call_def empty_claim_def uuid_Nil_def)

lemma demo_responded:
  assumes "validateIdempotencyRequest request = None" "db_idempotency d1 = [claim_row (1000 * Second) ''u-idempotency lease'' request]"
    and "sr_Status response = 201"
  shows "\<exists>t. respond_stored demo_server demo_call r request ''u-idempotency lease'' response (Some d1) msg d =
     (writeStoredResponse response, d1\<lparr>db_idempotency := t\<rparr>)"
proof -
  have "finish_tx demo_server demo_call request ''u-idempotency lease'' response d1 \<noteq> None"
    using assms by (simp add: finish_tx_def CompleteTx_def Complete_checks_def uuid_Nil_def demo_server_def
        demo_codec_h_def completeIdempotency_def completes_def claim_row_def demo_call_def)
  then obtain t where "finish_tx demo_server demo_call request ''u-idempotency lease'' response d1 = Some (d1\<lparr>db_idempotency := t\<rparr>)"
    using finish_tx_shape by blast
  then show ?thesis unfolding respond_stored_def Option.bind_lunit by auto
qed

lemma demo_created:
  "\<exists>w d'. createOAuthApplicationGrant demo_server demo_call (Some demo_grant_input) demo_create ungranted_db = (w, d') \<and> db_grants d' \<noteq> []"
proof -
  let ?d = "ungranted_db\<lparr>db_idempotency := [claim_row (1000 * Second) ''u-idempotency lease'' demo_create_request]\<rparr>"
  let ?g = "new_grant demo_call demo_principal ''a'' ''v''"
  have fields: "mustPrincipal demo_create = demo_principal" "hq_path demo_create ''application_uid'' = ''a''" "hq_header demo_create ''Idempotency-Key'' = ''key''"
    by (simp_all add: demo_create_def demo_if_match_def mustPrincipal_def)
  have input: "gi_ResourceServerUID demo_grant_input = ''v''" "normalizeScopeUIDs demo_server [''sc''] = Inr [''sc'']"
      "uuid_ok demo_server ''v''" "demo_grant_input\<lparr>gi_ScopeUIDs := [''sc'']\<rparr> = demo_grant_input" "gi_ScopeUIDs demo_grant_input = [''sc'']"
    by (simp_all add: demo_grant_input_def normalizeScopeUIDs_def demo_server_def)
  have valid: "validateGrantResources demo_server demo_call (p_TenantUID demo_principal) ''a'' ''v'' [''sc''] ?d = None"
    by (simp add: validateGrantResources_def query_row_def demo_call_def demo_server_def demo_principal_def ungranted_db_def own_server_def sql_count_def demo_oauth_defs)
  have flt: "\<not> ca_flt demo_call site" for site by (simp add: demo_call_def)
  obtain d2 where rest: "create_grant_rest demo_call demo_principal ''a'' ?g [''sc''] (?d\<lparr>db_grants := db_grants ?d @ [?g]\<rparr>) = Some d2"
      "db_idempotency d2 = db_idempotency ?d" "db_grants d2 = [?g]"
    by (simp add: create_grant_rest_def bump_policy_def member_audit_def add_audit_def stmt_def flt server_of_grant_def bigint_ok_def
        ungranted_db_def new_grant_def demo_oauth_defs demo_principal_def bump_policy_row_def)
  let ?resp = "storedResourceResponse demo_server 201 (''/v1/oauth/applications/'' @ ''a'' @ ''/grants/'' @ gr_uid ?g) (gr_version ?g)
      (grant_json (grant_view d2 ?g (the (server_of_grant d2 ?g))))"
  have op: "idempotencyOperation ''oauth_application_grants.create''"
    by (simp add: idempotencyOperation_def head_tail_match_def char_class_defs less_eq_char_def)
  have ok: "validateIdempotencyRequest demo_create_request = None" unfolding demo_create_request_def by (rule demo_valid [OF op])
  have idem: "db_idempotency ?d = [claim_row (1000 * Second) ''u-idempotency lease'' demo_create_request]" "db_idempotency ungranted_db = []"
    by (simp_all add: ungranted_db_def demo_oauth_defs)
  have "\<exists>t. respond_stored demo_server demo_call demo_create demo_create_request ''u-idempotency lease'' ?resp (Some d2)
      ''could not create OAuth Application grant'' ?d = (writeStoredResponse ?resp, d2\<lparr>db_idempotency := t\<rparr>)"
    by (rule demo_responded [OF ok]) (simp_all add: rest(2) storedResourceResponse_def)
  then obtain t where resp: "respond_stored demo_server demo_call demo_create demo_create_request ''u-idempotency lease'' ?resp (Some d2)
      ''could not create OAuth Application grant'' ?d = (writeStoredResponse ?resp, d2\<lparr>db_idempotency := t\<rparr>)" ..
  have none: "db_grants ?d = []" by (simp add: ungranted_db_def)
  have tx: "create_grant_tx demo_server demo_call demo_grant_input demo_create_request ''u-idempotency lease'' demo_create ?d =
      (writeStoredResponse ?resp, d2\<lparr>db_idempotency := t\<rparr>)"
    unfolding create_grant_tx_def Let_def fields input valid option.case if_not_P [OF flt] rest(1) resp using flt none by simp
  have "createOAuthApplicationGrant demo_server demo_call (Some demo_grant_input) demo_create ungranted_db = (writeStoredResponse ?resp, d2\<lparr>db_idempotency := t\<rparr>)"
    unfolding createOAuthApplicationGrant_def option.case fields input sum.case Let_def list.map
      demo_create_request_def [symmetric] demo_begun [OF ok idem(2)] prod.case using input(3) tx by simp
  then show ?thesis using rest(3) by simp
qed

theorem created_grant_exact_witness:
  "\<exists>w d' g. createOAuthApplicationGrant demo_server demo_call (Some demo_grant_input) demo_create ungranted_db = (w, d') \<and>
     db_grants d' = [g] \<and> gr_application_uid g = ''a'' \<and> db_grant_scopes d' = [\<lparr>gs_grant_uid = gr_uid g, gs_scope_uid = ''sc''\<rparr>]"
proof -
  obtain w d' where run: "createOAuthApplicationGrant demo_server demo_call (Some demo_grant_input) demo_create ungranted_db = (w, d')"
    and some: "db_grants d' \<noteq> []" using demo_created by blast
  have dist: "distinct (map sp_uid (db_scopes ungranted_db))" by (simp add: ungranted_db_def demo_oauth_db_def)
  have "db_grants ungranted_db = []" "db_grant_scopes ungranted_db = []" "hq_path demo_create ''application_uid'' = ''a''"
    by (simp_all add: ungranted_db_def demo_create_def demo_if_match_def)
  with created_grant_exact [OF run dist] some run show ?thesis by (auto simp: demo_grant_input_def new_grant_def)
qed

end
