(* ===== verification/Applications.thy ===== *)
theory Applications
  imports Resources
begin

text \<open>
  OAuth applications and their client secrets: \<^verbatim>\<open>internal/api/oauth_applications.go\<close>. The handlers use the statements and the
  entity tags of \<open>Resources\<close> and \<open>Api_Conventions\<close>; the secrets they create are those \<open>OAuth_Token\<close> authenticates with.
\<close>

section \<open>Reading applications\<close>

definition own_application :: "uid \<Rightarrow> uid \<Rightarrow> application_row \<Rightarrow> bool" where
  "own_application tenantUID uid a \<longleftrightarrow> ap_tenant_uid a = tenantUID \<and> ap_uid a = uid \<and> ap_deleted_at a = None"

text \<open>\<open>array_agg(redirect_uri ORDER BY redirect_uri)\<close>.\<close>

definition redirects_of :: "db \<Rightarrow> uid \<Rightarrow> string list" where
  "redirects_of d uid = sort (map ru_redirect_uri (filter (\<lambda>x. ru_application_uid x = uid) (db_redirect_uris d)))"

definition application_json :: "string list \<Rightarrow> application_row \<Rightarrow> json" where
  "application_json uris a = JObj [(''uid'', JStr (ap_uid a)), (''name'', JStr (ap_name a)), (''client_id'', JStr (ap_client_id a)),
     (''application_type'', JStr (ap_application_type a)), (''status'', JStr (ap_status a)), (''version'', JNum (ap_version a)),
     (''redirect_uris'', JArr (map JStr uris)), (''created_at'', JNum (ap_created_at a)), (''updated_at'', JNum (ap_updated_at a))]"

definition loadOAuthApplication :: "server \<Rightarrow> call \<Rightarrow> uid \<Rightarrow> uid \<Rightarrow> db \<Rightarrow> application_row query" where
  "loadOAuthApplication sv c tenantUID uid d = query_row sv c ''load application'' [uid] (own_application tenantUID uid) (db_applications d)"

definition listOAuthApplications :: "server \<Rightarrow> call \<Rightarrow> handler" where
  "listOAuthApplications sv c r d =
     list_page sv c ''list applications'' ''could not load OAuth Applications'' (\<lambda>a. (ap_created_at a, ap_uid a))
       (\<lambda>a. ap_tenant_uid a = p_TenantUID (mustPrincipal r) \<and> ap_deleted_at a = None)
       (\<lambda>a. application_json (redirects_of d (ap_uid a)) a) db_applications r d"

definition getOAuthApplication :: "server \<Rightarrow> call \<Rightarrow> handler" where
  "getOAuthApplication sv c r d =
     (case loadOAuthApplication sv c (p_TenantUID (mustPrincipal r)) (hq_path r ''application_uid'') d of
        NoRows \<Rightarrow> (fail r 404 ''oauth_application_not_found'' ''OAuth Application was not found'', d)
      | QueryError \<Rightarrow> (fail r 500 ''internal_error'' ''could not load OAuth Application'', d)
      | Row a \<Rightarrow> (setVersionETag (ap_version a) (writeJSON 200 (application_json (redirects_of d (ap_uid a)) a)), d))"

section \<open>Creating an application\<close>

record createOAuthApplicationInput =
  ai_Name :: string
  ai_ApplicationType :: string
  ai_RedirectURIs :: "string list"

definition maxOAuthRedirectURIs :: nat where
  "maxOAuthRedirectURIs = 20"

text \<open>The loop of \<open>normalizeRedirectURIs\<close>; the result so far is also the set of the seen URIs.\<close>

fun redirect_loop :: "server \<Rightarrow> string list \<Rightarrow> string list \<Rightarrow> string + string list" where
  "redirect_loop sv [] result = Inr result"
| "redirect_loop sv (v # vs) result =
     (let value = TrimSpace v;
          invalid = Inl (''redirect URI '' @ go_Quote sv value @ '' must be absolute and must not contain credentials or a fragment'') in
      case url_Parse sv value of
        None \<Rightarrow> invalid
      | Some parsed \<Rightarrow>
          if up_Scheme parsed = [] \<or> up_Host parsed = [] \<or> up_has_User parsed \<or> up_Fragment parsed \<noteq> [] then invalid
          else if up_Scheme parsed \<noteq> ''https'' \<and> \<not> (up_Scheme parsed = ''http'' \<and> isLocalDevelopmentHostname sv (up_Hostname parsed)) then
            Inl (''redirect URI '' @ go_Quote sv value @ '' must use HTTPS except for localhost or literal-IP development'')
          else if up_String parsed \<in> set result then Inl (''redirect URI '' @ go_Quote sv (up_String parsed) @ '' is duplicated'')
          else redirect_loop sv vs (result @ [up_String parsed]))"

definition normalizeRedirectURIs :: "server \<Rightarrow> string list \<Rightarrow> string + string list" where
  "normalizeRedirectURIs sv vals =
     (if vals = [] \<or> length vals > maxOAuthRedirectURIs then Inl ''redirect_uris must contain between 1 and 20 exact URIs''
      else (case redirect_loop sv vals [] of Inl e \<Rightarrow> Inl e | Inr result \<Rightarrow> Inr (sort result)))"

definition normalizeOAuthApplicationInput :: "server \<Rightarrow> createOAuthApplicationInput \<Rightarrow> string + createOAuthApplicationInput" where
  "normalizeOAuthApplicationInput sv input =
     (let name = TrimSpace (ai_Name input) in
      if name = [] \<or> length name > 120 then Inl ''name must contain between 1 and 120 characters''
      else if ai_ApplicationType input \<noteq> ''public'' \<and> ai_ApplicationType input \<noteq> ''confidential'' then
        Inl ''application_type must be public or confidential''
      else (case normalizeRedirectURIs sv (ai_RedirectURIs input) of
              Inl e \<Rightarrow> Inl e
            | Inr uris \<Rightarrow> Inr (input\<lparr>ai_Name := name, ai_RedirectURIs := uris\<rparr>)))"

text \<open>One \<open>INSERT INTO oauth_application_redirect_uris\<close> per URI; the column is limited to 2048 characters.\<close>

fun insert_redirects :: "call \<Rightarrow> uid \<Rightarrow> string list \<Rightarrow> db \<Rightarrow> db option" where
  "insert_redirects c uid [] d = Some d"
| "insert_redirects c uid (u # us) d =
     Option.bind (stmt c ''insert redirect URI'' (\<lambda>d.
       if rune_count u < 1 \<or> rune_count u > 2048 \<or>
          list_ex (\<lambda>x. ru_application_uid x = uid \<and> ru_redirect_uri x = u) (db_redirect_uris d) then None
       else Some (d\<lparr>db_redirect_uris := db_redirect_uris d @ [\<lparr>ru_application_uid = uid, ru_redirect_uri = u\<rparr>]\<rparr>)) d)
       (insert_redirects c uid us)"

definition new_application :: "call \<Rightarrow> principal \<Rightarrow> string \<Rightarrow> createOAuthApplicationInput \<Rightarrow> application_row" where
  "new_application c p clientToken input =
     \<lparr>ap_uid = ca_uid c ''application'', ap_tenant_uid = p_TenantUID p, ap_name = ai_Name input, ap_client_id = ''ca_client_'' @ clientToken,
      ap_application_type = ai_ApplicationType input, ap_status = ''active'', ap_version = 1, ap_created_at = ca_now c,
      ap_updated_at = ca_now c, ap_deleted_at = None\<rparr>"

definition create_application_tx :: "call \<Rightarrow> principal \<Rightarrow> string list \<Rightarrow> application_row \<Rightarrow> db \<Rightarrow> db option" where
  "create_application_tx c p uris a d =
     Option.bind (stmt c ''insert application'' (\<lambda>d.
       if list_ex (\<lambda>x. ap_uid x = ap_uid a \<or> ap_client_id x = ap_client_id a) (db_applications d) then None
       else Some (d\<lparr>db_applications := db_applications d @ [a]\<rparr>)) d) (\<lambda>d.
     Option.bind (insert_redirects c (ap_uid a) uris d)
       (member_audit c p ''oauth_application.created'' ''oauth_application'' (ap_uid a)
          (JObj [(''application_type'', JStr (ap_application_type a))])))"

definition createOAuthApplication :: "server \<Rightarrow> call \<Rightarrow> createOAuthApplicationInput option \<Rightarrow> handler" where
  "createOAuthApplication sv c body r d =
     (case body of
        None \<Rightarrow> (invalid_json r, d)
      | Some raw \<Rightarrow>
          (case normalizeOAuthApplicationInput sv raw of
             Inl e \<Rightarrow> (fail r 422 ''validation_failed'' e, d)
           | Inr input \<Rightarrow>
               if hq_header r ''Idempotency-Key'' = [] then (fail r 400 ''idempotency_key_required'' ''Idempotency-Key is required'', d)
               else let p = mustPrincipal r; failed = ''could not create OAuth Application'';
                        request = create_request sv p ''oauth_applications.create'' (hq_header r ''Idempotency-Key'')
                          (JObj [(''name'', JStr (ai_Name input)), (''application_type'', JStr (ai_ApplicationType input)),
                                 (''redirect_uris'', JArr (map JStr (ai_RedirectURIs input)))]) in
                 (case beginIdempotentRequest sv c r request d of
                    (Inl response, d1) \<Rightarrow> (response, d1)
                  | (Inr claim, d1) \<Rightarrow>
                      (case RandomToken (ca_rand c ''client id'') of
                         None \<Rightarrow> (fail r 500 ''internal_error'' failed, d1)
                       | Some clientToken \<Rightarrow>
                           let a = new_application c p clientToken input in
                           if ca_flt c ''begin transaction'' then (fail r 500 ''internal_error'' failed, d1)
                           else respond_stored sv c r request (cl_LeaseUID claim)
                                  (storedResourceResponse sv 201 (''/v1/oauth/applications/'' @ ap_uid a) (ap_version a)
                                     (application_json (ai_RedirectURIs input) a))
                                  (create_application_tx c p (ai_RedirectURIs input) a d1) failed d1))))"

section \<open>Changing an application\<close>

record updateOAuthApplicationInput =
  uo_Name :: "string option"
  uo_Status :: "string option"
  uo_RedirectURIs :: "string list option"

definition write_applications :: "call \<Rightarrow> (application_row \<Rightarrow> bool) \<Rightarrow> (application_row \<Rightarrow> application_row) \<Rightarrow> db \<Rightarrow> db option" where
  "write_applications c hit f = stmt c ''update application'' (\<lambda>d.
     if list_ex (\<lambda>a. hit a \<and> \<not> bigint_ok (ap_version (f a))) (db_applications d) then None
     else Some (d\<lparr>db_applications := sql_update hit f (db_applications d)\<rparr>))"

definition update_application_row :: "call \<Rightarrow> updateOAuthApplicationInput \<Rightarrow> application_row \<Rightarrow> application_row \<Rightarrow> application_row" where
  "update_application_row c input old a =
     a\<lparr>ap_name := (case uo_Name input of None \<Rightarrow> ap_name old | Some n \<Rightarrow> n), ap_status := new_status (uo_Status input) (ap_status old),
       ap_version := ap_version old + 1, ap_updated_at := ca_now c\<rparr>"

definition replace_redirects :: "call \<Rightarrow> uid \<Rightarrow> string list option \<Rightarrow> db \<Rightarrow> db option" where
  "replace_redirects c uid uris d =
     (case uris of
        None \<Rightarrow> Some d
      | Some us \<Rightarrow>
          Option.bind (stmt c ''delete redirect URIs'' (\<lambda>d. Some (d\<lparr>db_redirect_uris := sql_delete (\<lambda>x. ru_application_uid x = uid) (db_redirect_uris d)\<rparr>)) d)
            (insert_redirects c uid us))"

definition update_application_tx :: "call \<Rightarrow> principal \<Rightarrow> uid \<Rightarrow> updateOAuthApplicationInput \<Rightarrow> application_row \<Rightarrow> db \<Rightarrow> db option" where
  "update_application_tx c p uid input old d =
     (let status = new_status (uo_Status input) (ap_status old) in
      Option.bind (write_applications c (\<lambda>a. ap_tenant_uid a = p_TenantUID p \<and> ap_uid a = uid) (update_application_row c input old) d) (\<lambda>d.
      Option.bind (replace_redirects c uid (uo_RedirectURIs input) d) (\<lambda>d.
      Option.bind (if status = ''disabled'' then revoke_tokens c (\<lambda>t. tk_application_uid t = uid) d else Some d)
        (member_audit c p ''oauth_application.updated'' ''oauth_application'' uid
           (JObj [(''version'', JNum (ap_version old + 1)), (''status'', JStr status)])))))"

definition updateOAuthApplication :: "server \<Rightarrow> updateOAuthApplicationInput option \<Rightarrow> call \<Rightarrow> handler" where
  "updateOAuthApplication sv body c r d =
     (case body of
        None \<Rightarrow> (invalid_json r, d)
      | Some raw \<Rightarrow>
          if uo_Name raw = None \<and> uo_Status raw = None \<and> uo_RedirectURIs raw = None then
            (fail r 422 ''validation_failed'' ''at least one field is required'', d)
          else if bad_name (uo_Name raw) then
            (fail r 422 ''validation_failed'' ''name must contain between 1 and 120 characters'', d)
          else if bad_status (uo_Status raw) then (fail r 422 ''validation_failed'' ''status must be active or disabled'', d)
          else (case (case uo_RedirectURIs raw of None \<Rightarrow> Inr None | Some us \<Rightarrow> map_sum id Some (normalizeRedirectURIs sv us)) of
            Inl e \<Rightarrow> (fail r 422 ''validation_failed'' e, d)
          | Inr uris \<Rightarrow>
              (case requireIfMatch r of
                 Inl response \<Rightarrow> (response, d)
               | Inr expected \<Rightarrow>
                   let p = mustPrincipal r; uid = hq_path r ''application_uid''; failed = ''could not update OAuth Application'';
                       input = raw\<lparr>uo_Name := map_option TrimSpace (uo_Name raw), uo_RedirectURIs := uris\<rparr> in
                   if ca_flt c ''begin transaction'' then (fail r 500 ''internal_error'' failed, d)
                   else (case query_row sv c ''lock application'' [uid] (own_application (p_TenantUID p) uid) (db_applications d) of
                     NoRows \<Rightarrow> (fail r 404 ''oauth_application_not_found'' ''OAuth Application was not found'', d)
                   | QueryError \<Rightarrow> (fail r 500 ''internal_error'' failed, d)
                   | Row old \<Rightarrow>
                       if ap_version old \<noteq> expected then
                         (version_conflict r (ap_version old) ''OAuth Application changed; fetch the latest representation and retry'', d)
                       else (case commit_tx c (update_application_tx c p uid input old d) of
                         None \<Rightarrow> (fail r 500 ''internal_error'' failed, d)
                       | Some d' \<Rightarrow>
                           (case loadOAuthApplication sv c (p_TenantUID p) uid d' of
                              Row a \<Rightarrow> (setVersionETag (ap_version a) (writeJSON 200 (application_json (redirects_of d' (ap_uid a)) a)), d')
                            | _ \<Rightarrow> (fail r 500 ''internal_error'' ''could not load OAuth Application'', d')))))))"

definition delete_application_row :: "call \<Rightarrow> application_row \<Rightarrow> application_row" where
  "delete_application_row c a =
     a\<lparr>ap_status := ''disabled'', ap_version := ap_version a + 1, ap_updated_at := ca_now c, ap_deleted_at := Some (ca_now c)\<rparr>"

definition revoke_secret_row :: "time \<Rightarrow> client_secret_row \<Rightarrow> client_secret_row" where
  "revoke_secret_row now s =
     s\<lparr>cs_status := ''revoked'', cs_revoked_at := (case cs_revoked_at s of None \<Rightarrow> Some now | Some t \<Rightarrow> Some t)\<rparr>"

definition delete_application_tx :: "call \<Rightarrow> principal \<Rightarrow> uid \<Rightarrow> db \<Rightarrow> db option" where
  "delete_application_tx c p uid d =
     Option.bind (write_applications c (\<lambda>a. ap_uid a = uid) (delete_application_row c) d) (\<lambda>d.
     Option.bind (stmt c ''revoke client secrets'' (\<lambda>d. Some (d\<lparr>db_client_secrets :=
       sql_update (\<lambda>s. cs_application_uid s = uid) (revoke_secret_row (ca_now c)) (db_client_secrets d)\<rparr>)) d) (\<lambda>d.
     Option.bind (revoke_tokens c (\<lambda>t. tk_application_uid t = uid) d)
       (member_audit c p ''oauth_application.deleted'' ''oauth_application'' uid (JObj []))))"

definition deleteOAuthApplication :: "server \<Rightarrow> call \<Rightarrow> handler" where
  "deleteOAuthApplication sv c r d =
     (case requireIfMatch r of
        Inl response \<Rightarrow> (response, d)
      | Inr expected \<Rightarrow>
          let p = mustPrincipal r; uid = hq_path r ''application_uid''; failed = ''could not delete OAuth Application'' in
          if ca_flt c ''begin transaction'' then (fail r 500 ''internal_error'' failed, d)
          else (case query_row sv c ''lock application'' [uid] (own_application (p_TenantUID p) uid) (db_applications d) of
            NoRows \<Rightarrow> (fail r 404 ''oauth_application_not_found'' ''OAuth Application was not found'', d)
          | QueryError \<Rightarrow> (fail r 500 ''internal_error'' failed, d)
          | Row old \<Rightarrow>
              if ap_version old \<noteq> expected then
                (version_conflict r (ap_version old) ''OAuth Application changed; fetch the latest representation and retry'', d)
              else (case commit_tx c (delete_application_tx c p uid d) of
                None \<Rightarrow> (fail r 500 ''internal_error'' failed, d)
              | Some d' \<Rightarrow> (no_content 204, d'))))"

section \<open>Client secrets\<close>

definition oauthClientSecretDefaultTTL :: duration where
  "oauthClientSecretDefaultTTL = 90 * 24 * Hour"

definition oauthClientSecretMaximumTTL :: duration where
  "oauthClientSecretMaximumTTL = 365 * 24 * Hour"

text \<open>The JSON of a secret; only the response of its creation carries the value.\<close>

definition secret_json :: "string \<Rightarrow> string \<Rightarrow> client_secret_row \<Rightarrow> json" where
  "secret_json status value s =
     JObj ([(''uid'', JStr (cs_uid s)), (''name'', JStr (cs_name s)), (''prefix'', JStr (cs_prefix s)), (''status'', JStr status),
            (''created_at'', JNum (cs_created_at s)), (''expires_at'', JNum (cs_expires_at s))] @
           (case cs_last_used_at s of None \<Rightarrow> [] | Some t \<Rightarrow> [(''last_used_at'', JNum t)]) @
           (case cs_revoked_at s of None \<Rightarrow> [] | Some t \<Rightarrow> [(''revoked_at'', JNum t)]) @
           (if value = [] then [] else [(''secret'', JStr value)]))"

definition shown_status :: "time \<Rightarrow> client_secret_row \<Rightarrow> string" where
  "shown_status now s = (if cs_status s = ''active'' \<and> cs_expires_at s \<le> now then ''expired'' else cs_status s)"

definition listOAuthClientSecrets :: "server \<Rightarrow> call \<Rightarrow> handler" where
  "listOAuthClientSecrets sv c r d =
     (let uid = hq_path r ''application_uid''; failed = (fail r 500 ''internal_error'' ''could not load client secrets'', d) in
      if ca_flt c ''load application'' \<or> \<not> uuid_ok sv uid then failed
      else if \<not> list_ex (own_application (p_TenantUID (mustPrincipal r)) uid) (db_applications d) then
        (fail r 404 ''oauth_application_not_found'' ''OAuth Application was not found'', d)
      else if ca_flt c ''list client secrets'' then failed
      else (writeJSON 200 (JObj [(''items'', JArr (map (\<lambda>s. secret_json (shown_status (ca_now c) s) [] s)
             (newest_first (\<lambda>s. (cs_created_at s, cs_uid s)) (filter (\<lambda>s. cs_application_uid s = uid) (db_client_secrets d)))))]), d))"

record createOAuthClientSecretInput =
  ns_Name :: string
  ns_ExpiresAt :: "time option"

definition secret_expiry :: "time \<Rightarrow> createOAuthClientSecretInput \<Rightarrow> time" where
  "secret_expiry now input = (case ns_ExpiresAt input of None \<Rightarrow> now + oauthClientSecretDefaultTTL | Some t \<Rightarrow> t)"

definition bad_secret_input :: "time \<Rightarrow> createOAuthClientSecretInput \<Rightarrow> bool" where
  "bad_secret_input now input \<longleftrightarrow> ns_Name input = [] \<or> length (ns_Name input) > 100 \<or>
     \<not> secret_expiry now input > now + 5 * Minute \<or> secret_expiry now input > now + oauthClientSecretMaximumTTL"

text \<open>\<open>ca_cs_\<close> and the first sixteen digits of a UUID without its dashes.\<close>

definition secret_prefix :: "call \<Rightarrow> string" where
  "secret_prefix c = ''ca_cs_'' @ take 16 (filter (\<lambda>x. x \<noteq> CHR ''-'') (ca_uid c ''secret prefix''))"

definition new_secret :: "server \<Rightarrow> call \<Rightarrow> uid \<Rightarrow> createOAuthClientSecretInput \<Rightarrow> string \<Rightarrow> client_secret_row" where
  "new_secret sv c uid input value =
     \<lparr>cs_uid = ca_uid c ''client secret'', cs_application_uid = uid, cs_name = ns_Name input, cs_prefix = secret_prefix c,
      cs_secret_hash = SecretHash_of sv value, cs_status = ''active'', cs_created_at = ca_now c,
      cs_expires_at = secret_expiry (ca_now c) input, cs_last_used_at = None, cs_revoked_at = None\<rparr>"

definition usable_secret :: "time \<Rightarrow> uid \<Rightarrow> client_secret_row \<Rightarrow> bool" where
  "usable_secret now uid s \<longleftrightarrow> cs_application_uid s = uid \<and> cs_status s = ''active'' \<and> cs_expires_at s > now"

definition insert_secret :: "call \<Rightarrow> principal \<Rightarrow> client_secret_row \<Rightarrow> db \<Rightarrow> db option" where
  "insert_secret c p s d =
     Option.bind (stmt c ''insert client secret'' (\<lambda>d.
       if list_ex (\<lambda>x. cs_uid x = cs_uid s \<or> cs_prefix x = cs_prefix s) (db_client_secrets d) then None
       else Some (d\<lparr>db_client_secrets := db_client_secrets d @ [s]\<rparr>)) d)
       (member_audit c p ''oauth_client_secret.created'' ''oauth_client_secret'' (cs_uid s) (JObj []))"

definition secret_created :: "server \<Rightarrow> uid \<Rightarrow> string \<Rightarrow> client_secret_row \<Rightarrow> StoredHTTPResponse" where
  "secret_created sv uid value s =
     \<lparr>sr_Status = 201,
      sr_Headers = Some [(''Content-Type'', [''application/json'']), (''Cache-Control'', [''no-store'']),
        (''Location'', [''/v1/oauth/applications/'' @ uid @ ''/client-secrets/'' @ cs_uid s])],
      sr_Body = Some (json_text sv (secret_json ''active'' value s) @ [char_of (10 :: nat)])\<rparr>"

text \<open>The transaction; a refusal is stored as the answer of the idempotent request too.\<close>

definition create_secret_tx :: "server \<Rightarrow> call \<Rightarrow> createOAuthClientSecretInput \<Rightarrow> IdempotencyRequest \<Rightarrow> uid \<Rightarrow> string \<Rightarrow> handler" where
  "create_secret_tx sv c input request lease randomSecret r d =
     (let p = mustPrincipal r; uid = hq_path r ''application_uid''; failed = ''could not create client secret'';
          value = secret_prefix c @ ''.'' @ randomSecret; s = new_secret sv c uid input value;
          refuse = (\<lambda>status code message. respond_stored sv c r request lease (problemResponse sv r status code message) (Some d) failed d) in
      if ca_flt c ''begin transaction'' then (fail r 500 ''internal_error'' failed, d)
      else (case query_row sv c ''lock application'' [uid] (\<lambda>a. own_application (p_TenantUID p) uid a \<and> ap_status a = ''active'') (db_applications d) of
        NoRows \<Rightarrow> refuse 404 ''oauth_application_not_found'' ''active OAuth Application was not found''
      | QueryError \<Rightarrow> (fail r 500 ''internal_error'' failed, d)
      | Row a \<Rightarrow>
          if ap_application_type a \<noteq> ''confidential'' then refuse 409 ''public_client'' ''public OAuth Applications cannot have client secrets''
          else if ca_flt c ''count client secrets'' then (fail r 500 ''internal_error'' failed, d)
          else if sql_count (usable_secret (ca_now c) uid) (db_client_secrets d) \<ge> 2 then
            refuse 409 ''client_secret_limit'' ''revoke an active client secret before creating another''
          else respond_stored sv c r request lease (secret_created sv uid value s) (insert_secret c p s d) failed d))"

definition createOAuthClientSecret :: "server \<Rightarrow> createOAuthClientSecretInput option \<Rightarrow> call \<Rightarrow> handler" where
  "createOAuthClientSecret sv body c r d =
     (case body of
        None \<Rightarrow> (invalid_json r, d)
      | Some raw \<Rightarrow>
          let input = raw\<lparr>ns_Name := TrimSpace (ns_Name raw)\<rparr> in
          if bad_secret_input (ca_now c) input then
            (fail r 422 ''validation_failed'' ''name is required and expires_at must be between 5 minutes and 365 days from now'', d)
          else if hq_header r ''Idempotency-Key'' = [] then (fail r 400 ''idempotency_key_required'' ''Idempotency-Key is required'', d)
          else let request = create_request sv (mustPrincipal r) ''oauth_client_secrets.create'' (hq_header r ''Idempotency-Key'')
                     (JObj [(''application_uid'', JStr (hq_path r ''application_uid'')),
                            (''input'', JObj ((''name'', JStr (ns_Name input)) #
                               (case ns_ExpiresAt input of None \<Rightarrow> [] | Some t \<Rightarrow> [(''expires_at'', JNum t)])))]) in
            (case beginIdempotentRequest sv c r request d of
               (Inl response, d1) \<Rightarrow> (response, d1)
             | (Inr claim, d1) \<Rightarrow>
                 (case RandomToken (ca_rand c ''client secret'') of
                    None \<Rightarrow> (fail r 500 ''internal_error'' ''could not create client secret'', d1)
                  | Some randomSecret \<Rightarrow> create_secret_tx sv c input request (cl_LeaseUID claim) randomSecret r d1)))"

text \<open>\<open>Server.audit\<close>: the event is written outside a transaction and its failure is ignored.\<close>

definition audit_event :: "call \<Rightarrow> uid \<Rightarrow> string \<Rightarrow> string \<Rightarrow> uid \<Rightarrow> string \<Rightarrow> string \<Rightarrow> uid \<Rightarrow> json \<Rightarrow> db \<Rightarrow> db" where
  "audit_event c tenantUID projectUID actorType actorUID action targetType targetUID metadata d =
     (if ca_flt c ''audit'' then d
      else add_audit \<lparr>au_uid = ca_uid c ''audit'', au_tenant_uid = tenantUID, au_project_uid = (if projectUID = [] then None else Some projectUID),
             au_actor_type = actorType, au_actor_uid = (if actorUID = [] then None else Some actorUID), au_action = action,
             au_target_type = targetType, au_target_uid = targetUID, au_metadata = metadata\<rparr> d)"

definition secret_hit :: "db \<Rightarrow> uid \<Rightarrow> uid \<Rightarrow> uid \<Rightarrow> client_secret_row \<Rightarrow> bool" where
  "secret_hit d tenantUID uid secretUID s \<longleftrightarrow> cs_uid s = secretUID \<and> cs_application_uid s = uid \<and>
     list_ex (own_application tenantUID uid) (db_applications d)"

definition revokeOAuthClientSecret :: "server \<Rightarrow> call \<Rightarrow> handler" where
  "revokeOAuthClientSecret sv c r d =
     (let p = mustPrincipal r; uid = hq_path r ''application_uid''; secretUID = hq_path r ''secret_uid'';
          hit = secret_hit d (p_TenantUID p) uid secretUID in
      if ca_flt c ''revoke client secret'' \<or> \<not> uuid_ok sv secretUID \<or> \<not> uuid_ok sv uid then
        (fail r 500 ''internal_error'' ''could not revoke client secret'', d)
      else if \<not> list_ex hit (db_client_secrets d) then
        (fail r 404 ''oauth_client_secret_not_found'' ''OAuth client secret was not found'', d)
      else (no_content 204,
            audit_event c (p_TenantUID p) [] ''tenant_member'' (p_MemberUID p) ''oauth_client_secret.revoked'' ''oauth_client_secret'' secretUID (JObj [])
              (d\<lparr>db_client_secrets := sql_update hit (revoke_secret_row (ca_now c)) (db_client_secrets d)\<rparr>)))"

section \<open>What a write does\<close>

primrec application_write :: "server \<Rightarrow> updateOAuthApplicationInput option change \<Rightarrow> call \<Rightarrow> handler" where
  "application_write sv (Update body) = updateOAuthApplication sv body"
| "application_write sv Delete = deleteOAuthApplication sv"

definition locked_application :: "http_request \<Rightarrow> db \<Rightarrow> application_row option" where
  "locked_application r d = sql_row (own_application (p_TenantUID (mustPrincipal r)) (hq_path r ''application_uid'')) (db_applications d)"

lemma application_write_cases:
  assumes "application_write sv x c r d = (w, d')" "d' \<noteq> d"
  obtains (updated) input old where "locked_application r d = Some old" "requireIfMatch r = Inr (ap_version old)"
      "update_application_tx c (mustPrincipal r) (hq_path r ''application_uid'') input old d = Some d'"
  | (deleted) old where "locked_application r d = Some old" "requireIfMatch r = Inr (ap_version old)"
      "delete_application_tx c (mustPrincipal r) (hq_path r ''application_uid'') d = Some d'"
proof (cases x)
  case (Update body)
  then have "\<exists>input old. locked_application r d = Some old \<and> requireIfMatch r = Inr (ap_version old) \<and>
      update_application_tx c (mustPrincipal r) (hq_path r ''application_uid'') input old d = Some d'"
    using assms unfolding locked_application_def
    by (auto simp: updateOAuthApplication_def Let_def split: option.splits if_splits sum.splits query.splits dest!: query_row_RowD commit_txD)
  then show ?thesis using updated by blast
next
  case Delete
  then have "\<exists>old. locked_application r d = Some old \<and> requireIfMatch r = Inr (ap_version old) \<and>
      delete_application_tx c (mustPrincipal r) (hq_path r ''application_uid'') d = Some d'"
    using assms unfolding locked_application_def
    by (auto simp: deleteOAuthApplication_def Let_def split: option.splits if_splits sum.splits query.splits dest!: query_row_RowD commit_txD)
  then show ?thesis using deleted by blast
qed

lemma insert_redirects_frame:
  "insert_redirects c u us d = Some d' \<Longrightarrow>
     d' = d\<lparr>db_redirect_uris := db_redirect_uris d @ map (\<lambda>x. \<lparr>ru_application_uid = u, ru_redirect_uri = x\<rparr>) us\<rparr>"
proof (induction us arbitrary: d)
  case (Cons x us)
  then obtain d1 where d1: "d1 = d\<lparr>db_redirect_uris := db_redirect_uris d @ [\<lparr>ru_application_uid = u, ru_redirect_uri = x\<rparr>]\<rparr>"
    and rest: "insert_redirects c u us d1 = Some d'"
    by (auto simp: stmt_def bind_eq_Some_conv split: if_splits)
  from Cons.IH [OF rest] show ?case by (simp add: d1)
qed simp

lemma replace_redirects_frame:
  assumes "replace_redirects c u us d = Some d'"
  shows "\<exists>vs. d' = d\<lparr>db_redirect_uris := vs\<rparr>"
proof (cases us)
  case None
  then show ?thesis using assms by (intro exI [of _ "db_redirect_uris d"]) (simp add: replace_redirects_def)
next
  case (Some vs)
  then show ?thesis using assms
    by (auto simp: replace_redirects_def stmt_def bind_eq_Some_conv split: if_splits dest!: insert_redirects_frame)
qed

lemma update_application_shape:
  assumes "update_application_tx c p uid input old d = Some d'"
  shows "db_applications d' = sql_update (\<lambda>a. ap_tenant_uid a = p_TenantUID p \<and> ap_uid a = uid) (update_application_row c input old) (db_applications d) \<and>
    db_client_secrets d' = db_client_secrets d \<and>
    db_access_tokens d' = (if new_status (uo_Status input) (ap_status old) = ''disabled''
      then sql_update (\<lambda>t. tk_application_uid t = uid) (revoke_token (ca_now c)) (db_access_tokens d) else db_access_tokens d)"
  using assms by (cases "new_status (uo_Status input) (ap_status old) = ''disabled''")
    (auto simp: update_application_tx_def Let_def write_applications_def revoke_tokens_def member_audit_def stmt_def add_audit_def
      bind_eq_Some_conv dest!: replace_redirects_frame split: if_split_asm)

lemma delete_application_shape:
  assumes "delete_application_tx c p uid d = Some d'"
  shows "db_applications d' = sql_update (\<lambda>a. ap_uid a = uid) (delete_application_row c) (db_applications d) \<and>
    db_client_secrets d' = sql_update (\<lambda>s. cs_application_uid s = uid) (revoke_secret_row (ca_now c)) (db_client_secrets d) \<and>
    db_access_tokens d' = sql_update (\<lambda>t. tk_application_uid t = uid) (revoke_token (ca_now c)) (db_access_tokens d)"
  using assms by (auto simp: delete_application_tx_def write_applications_def revoke_tokens_def member_audit_def stmt_def add_audit_def
      bind_eq_Some_conv split: if_splits)

lemma application_row_simps [simp]:
  "ap_uid (update_application_row c input old a) = ap_uid a" "ap_uid (delete_application_row c a) = ap_uid a"
  "ap_client_id (update_application_row c input old a) = ap_client_id a" "ap_client_id (delete_application_row c a) = ap_client_id a"
  "ap_application_type (update_application_row c input old a) = ap_application_type a"
  "ap_application_type (delete_application_row c a) = ap_application_type a"
  by (simp_all add: update_application_row_def delete_application_row_def)

definition application_version :: "http_request \<Rightarrow> db \<Rightarrow> int option" where
  "application_version r d = map_option ap_version (locked_application r d)"

lemma application_advances:
  assumes "application_write sv x c r d = (w, d')" "d' \<noteq> d" "application_version r d = Some v"
  shows "application_version r d' \<in> {None, Some (v + 1)}"
  using assms(1,2)
proof (cases rule: application_write_cases)
  case (updated input old)
  have "locked_application r d' = map_option (\<lambda>a. if ap_tenant_uid a = p_TenantUID (mustPrincipal r) \<and> ap_uid a = hq_path r ''application_uid''
      then update_application_row c input old a else a) (locked_application r d)"
    using update_application_shape [OF updated(3)] unfolding locked_application_def
    by (elim conjE, simp only:, intro sql_row_update) (simp add: own_application_def update_application_row_def)
  then show ?thesis using updated(1) assms(3) sql_row_SomeD [OF updated(1) [unfolded locked_application_def]]
    by (auto simp: application_version_def update_application_row_def own_application_def)
next
  case (deleted old)
  have "locked_application r d' = None"
    using delete_application_shape [OF deleted(3)] unfolding locked_application_def
    by (elim conjE, simp only:, intro sql_row_update_gone) (auto simp: own_application_def delete_application_row_def)
  then show ?thesis by (simp add: application_version_def)
qed

interpretation application_rows: versioned application_version "application_write sv" for sv
proof unfold_locales
  fix x c r d w d'
  assume "application_write sv x c r d = (w, d')" "d' \<noteq> d"
  then show "\<exists>v. requireIfMatch r = Inr v \<and> application_version r d = Some v"
    by (cases rule: application_write_cases) (simp_all add: application_version_def)
qed (rule application_advances)

section \<open>A withdrawn application\<close>

lemma revoked_application [simp]: "tk_application_uid (revoke_token now t) = tk_application_uid t"
  by (simp add: revoke_token_def)

lemma application_ids_kept:
  assumes "application_write sv x c r d = (w, d')"
  shows "map ap_uid (db_applications d') = map ap_uid (db_applications d) \<and> map ap_client_id (db_applications d') = map ap_client_id (db_applications d) \<and>
    map ap_application_type (db_applications d') = map ap_application_type (db_applications d)"
proof (cases "d' = d")
  case False
  with assms show ?thesis
    by (cases rule: application_write_cases) (auto dest!: update_application_shape delete_application_shape simp: sql_update_def)
qed simp

lemma disabled_application:
  assumes "distinct (map ap_uid (db_applications d))" and "list_ex (\<lambda>a. ap_uid a = u \<and> ap_status a = ''disabled'') (db_applications d)"
    and "a \<in> set (db_applications d)" "ap_uid a = u"
  shows "ap_status a = ''disabled''"
proof -
  obtain b where b: "b \<in> set (db_applications d)" "ap_uid b = u" "ap_status b = ''disabled''" using assms(2) by (auto simp: list_ex_iff)
  then have "b = a" using inj_onD [OF distinct_map_inj [OF assms(1)], of b a] assms(3,4) by simp
  with b(3) show ?thesis by simp
qed

text \<open>C18 (application_withdrawn): once an application has been deleted, or disabled by an update, no client authenticates as
  this application, none of its authorization codes can be exchanged, and all its access tokens
  are revoked, so both userinfo and the resource servers refuse them.\<close>

theorem application_withdrawn:
  assumes "application_write sv x c r d = (w, d')" "d' \<noteq> d" and "distinct (map ap_uid (db_applications d))" and "u = hq_path r ''application_uid''"
    and "list_ex (\<lambda>a. ap_uid a = u \<and> ap_status a = ''disabled'') (db_applications d')"
  shows "(case authenticateOAuthClient sv c2 r2 form d' of (Inr client, _) \<Rightarrow> oc_UID client \<noteq> u | _ \<Rightarrow> True) \<and>
    (case code_row sv code d' of Some (k, _, _) \<Rightarrow> ac_application_uid k \<noteq> u | None \<Rightarrow> True) \<and>
    list_all (\<lambda>t. tk_application_uid t = u \<longrightarrow> tk_revoked_at t \<noteq> None) (db_access_tokens d') \<and>
    (list_all (\<lambda>t. tk_token_hash t = SessionHash_of sv value \<longrightarrow> tk_application_uid t = u) (db_access_tokens d') \<longrightarrow>
       resource_token sv now value d' = None \<and> userinfo_row sv now value d' = None)"
proof -
  have dist: "distinct (map ap_uid (db_applications d'))" using application_ids_kept [OF assms(1)] assms(3) by simp
  have off: "ap_status a = ''disabled''" if "a \<in> set (db_applications d')" "ap_uid a = u" for a
    using that by (rule disabled_application [OF dist assms(5)])
  have client: "oc_UID client \<noteq> u" if "client_row d' i = Some client" for i client
    using that off by (auto simp: client_row_def dest!: sql_row_SomeD)
  have auth: "case authenticateOAuthClient sv c2 r2 form d' of (Inr client, _) \<Rightarrow> oc_UID client \<noteq> u | _ \<Rightarrow> True"
  proof -
    obtain res d2 where run: "authenticateOAuthClient sv c2 r2 form d' = (res, d2)" by fastforce
    then show ?thesis by (cases rule: authenticate_cases) (use client run in auto)
  qed
  have none: "active_application d' u = None" using off by (auto simp: active_application_def sql_row_None_iff)
  have codes: "case code_row sv code d' of Some (k, _, _) \<Rightarrow> ac_application_uid k \<noteq> u | None \<Rightarrow> True"
    using none by (auto simp: code_row_def split: option.splits dest!: sql_row_SomeD)
  have tokens: "tk_revoked_at t \<noteq> None" if t: "t \<in> set (db_access_tokens d')" "tk_application_uid t = u" for t
    using assms(1,2)
  proof (cases rule: application_write_cases)
    case (updated input old)
    note shape = update_application_shape [OF updated(3)]
    have "ap_uid old = u" "ap_tenant_uid old = p_TenantUID (mustPrincipal r)" "old \<in> set (db_applications d)"
      using sql_row_SomeD [OF updated(1) [unfolded locked_application_def]] by (simp_all add: own_application_def assms(4))
    then have "update_application_row c input old old \<in> set (db_applications d')" using shape by (force simp: sql_update_def assms(4))
    moreover have "ap_status (update_application_row c input old old) = new_status (uo_Status input) (ap_status old)" by (simp add: update_application_row_def)
    ultimately have "new_status (uo_Status input) (ap_status old) = ''disabled''"
      using off [of "update_application_row c input old old"] \<open>ap_uid old = u\<close> by simp
    then show ?thesis using shape t all_revoked [of d' "\<lambda>t. tk_application_uid t = u" "ca_now c" d t] by (simp add: assms(4))
  next
    case (deleted old)
    then show ?thesis using delete_application_shape [OF deleted(3)] t all_revoked [of d' "\<lambda>t. tk_application_uid t = u" "ca_now c" d t]
      by (simp add: assms(4))
  qed
  have dead: "resource_token sv now value d' = None \<and> userinfo_row sv now value d' = None"
    if "list_all (\<lambda>t. tk_token_hash t = SessionHash_of sv value \<longrightarrow> tk_application_uid t = u) (db_access_tokens d')"
    using that tokens by (auto simp: list_all_iff intro!: revoked_token_dead)
  show ?thesis using auth codes tokens dead by (simp add: list_all_iff)
qed

definition demo_disable :: updateOAuthApplicationInput where
  "demo_disable = \<lparr>uo_Name = None, uo_Status = Some ''disabled'', uo_RedirectURIs = None\<rparr>"

lemma demo_disabled:
  "\<exists>w d'. application_write demo_server (Update (Some demo_disable)) demo_call demo_if_match demo_oauth_db = (w, d') \<and>
     db_applications d' = [demo_application\<lparr>ap_status := ''disabled'', ap_version := 2, ap_updated_at := 1000 * Second\<rparr>]"
proof -
  let ?p = "mustPrincipal demo_if_match"
  have p: "p_TenantUID ?p = ''t''" by (simp add: demo_if_match_def mustPrincipal_def demo_principal_def)
  have uid: "hq_path demo_if_match ''application_uid'' = ''a''" by (simp add: demo_if_match_def)
  have row: "query_row demo_server demo_call ''lock application'' [''a''] (own_application ''t'' ''a'') (db_applications demo_oauth_db) = Row demo_application"
    by (simp add: query_row_def demo_call_def demo_server_def own_application_def demo_oauth_defs)
  have input: "uo_Name demo_disable = None" "uo_Status demo_disable = Some ''disabled''" "uo_RedirectURIs demo_disable = None"
      "demo_disable\<lparr>uo_Name := None, uo_RedirectURIs := None\<rparr> = demo_disable"
    by (simp_all add: demo_disable_def)
  have v: "ap_version demo_application = 1" "\<not> ca_flt demo_call site" for site by (simp_all add: demo_application_def demo_call_def)
  have "\<exists>d'. update_application_tx demo_call ?p ''a'' demo_disable demo_application demo_oauth_db = Some d'"
    by (simp add: update_application_tx_def Let_def new_status_def input write_applications_def replace_redirects_def revoke_tokens_def member_audit_def
        stmt_def v(2) bigint_ok_def update_application_row_def demo_oauth_defs)
  then obtain d' where tx: "update_application_tx demo_call ?p ''a'' demo_disable demo_application demo_oauth_db = Some d'" ..
  have commit: "commit_tx demo_call (Some d') = Some d'" by (simp add: commit_tx_def stmt_def v(2))
  have "bad_name None = False" "bad_status (Some ''disabled'') = False" by (simp_all add: bad_name_def bad_status_def)
  then have "snd (application_write demo_server (Update (Some demo_disable)) demo_call demo_if_match demo_oauth_db) = d'"
    unfolding application_write.simps updateOAuthApplication_def Let_def demo_match option.case sum.case p uid input option.map row query.case tx commit
    using v by (simp split: query.splits)
  moreover have "db_applications d' = [demo_application\<lparr>ap_status := ''disabled'', ap_version := 2, ap_updated_at := 1000 * Second\<rparr>]"
    using update_application_shape [OF tx] p
    by (simp add: demo_oauth_db_def update_application_row_def demo_application_def demo_call_def input new_status_def)
  ultimately show ?thesis by (metis prod.collapse)
qed

theorem application_withdrawn_witness:
  "\<exists>w d'. application_write demo_server (Update (Some demo_disable)) demo_call demo_if_match demo_oauth_db = (w, d') \<and>
     fst (authenticateOAuthClient demo_server demo_call demo_request [(''client_id'', [''client''])] d') = Inl writeInvalidClient"
proof -
  let ?auth = "authenticateOAuthClient demo_server demo_call demo_request [(''client_id'', [''client''])]"
  obtain w d' where run: "application_write demo_server (Update (Some demo_disable)) demo_call demo_if_match demo_oauth_db = (w, d')"
    and rows: "db_applications d' = [demo_application\<lparr>ap_status := ''disabled'', ap_version := 2, ap_updated_at := 1000 * Second\<rparr>]"
    using demo_disabled by blast
  have changed: "d' \<noteq> demo_oauth_db" using rows by (auto simp: demo_oauth_db_def demo_application_def)
  have dist: "distinct (map ap_uid (db_applications demo_oauth_db))" and uid: "''a'' = hq_path demo_if_match ''application_uid''"
      and off: "list_ex (\<lambda>a. ap_uid a = ''a'' \<and> ap_status a = ''disabled'') (db_applications d')"
    by (simp_all add: rows demo_application_def demo_oauth_db_def demo_if_match_def)
  have no: "case ?auth d' of (Inr client, _) \<Rightarrow> oc_UID client \<noteq> ''a'' | _ \<Rightarrow> True"
    by (rule conjunct1 [OF application_withdrawn [OF run changed dist uid off]])
  obtain res d2 where auth: "?auth d' = (res, d2)" by fastforce
  from auth have "res = Inl writeInvalidClient"
  proof (cases rule: authenticate_cases)
    case (public_client client)
    then show ?thesis using no auth rows by (auto simp: client_row_def demo_application_def)
  next
    case (confidential_client client i secret s)
    then show ?thesis by (simp add: demo_request_def)
  qed
  with run auth show ?thesis by auto
qed

section \<open>A new secret\<close>

lemma insert_secret_shape:
  assumes "insert_secret c p s d = Some d'"
  shows "\<exists>a. d' = d\<lparr>db_client_secrets := db_client_secrets d @ [s], db_audit := db_audit d @ [a]\<rparr> \<and>
    \<not> list_ex (\<lambda>x. cs_uid x = cs_uid s \<or> cs_prefix x = cs_prefix s) (db_client_secrets d)"
  using assms by (auto simp: insert_secret_def member_audit_def add_audit_def stmt_def bind_eq_Some_conv split: if_splits)

lemma create_secret_tx_cases:
  assumes "create_secret_tx sv c input request lease rnd r d = (w, d')"
  obtains (refused) t where "d' = d\<lparr>db_idempotency := t\<rparr>"
  | (created) a e t s where "a \<in> set (db_applications d)" "own_application (p_TenantUID (mustPrincipal r)) (hq_path r ''application_uid'') a"
      "ap_status a = ''active''" "ap_application_type a = ''confidential''"
      "sql_count (usable_secret (ca_now c) (hq_path r ''application_uid'')) (db_client_secrets d) < 2"
      "s = new_secret sv c (hq_path r ''application_uid'') input (secret_prefix c @ ''.'' @ rnd)"
      "\<not> list_ex (\<lambda>x. cs_uid x = cs_uid s \<or> cs_prefix x = cs_prefix s) (db_client_secrets d)"
      "d' = d\<lparr>db_client_secrets := db_client_secrets d @ [s], db_audit := db_audit d @ [e], db_idempotency := t\<rparr>"
      "w = writeStoredResponse (secret_created sv (hq_path r ''application_uid'') (secret_prefix c @ ''.'' @ rnd) s)"
proof (cases "\<exists>t. d' = d\<lparr>db_idempotency := t\<rparr>")
  case True
  then show ?thesis using refused by blast
next
  case False
  let ?u = "hq_path r ''application_uid''"
  define s where "s = new_secret sv c ?u input (secret_prefix c @ ''.'' @ rnd)"
  define failed where "failed = ''could not create client secret''"
  have kept: "d' \<noteq> d" using False by (metis db.surjective db.update_convs(32))
  have no_refusal: "respond_stored sv c r request lease resp (Some d) failed d \<noteq> (w, d')" for resp
  proof
    assume "respond_stored sv c r request lease resp (Some d) failed d = (w, d')"
    then show False using False kept by (cases rule: respond_stored_cases) auto
  qed
  obtain a where row: "sql_row (\<lambda>a. own_application (p_TenantUID (mustPrincipal r)) ?u a \<and> ap_status a = ''active'') (db_applications d) = Some a"
    and type: "ap_application_type a = ''confidential''" and few: "sql_count (usable_secret (ca_now c) ?u) (db_client_secrets d) < 2"
    and resp: "respond_stored sv c r request lease (secret_created sv ?u (secret_prefix c @ ''.'' @ rnd) s) (insert_secret c (mustPrincipal r) s d) failed d = (w, d')"
    using assms no_refusal kept unfolding create_secret_tx_def Let_def s_def [symmetric] failed_def [symmetric]
    by (auto split: if_splits query.splits dest!: query_row_RowD)
  from resp show ?thesis
  proof (cases rule: respond_stored_cases)
    case failed
    then show ?thesis using kept by simp
  next
    case (stored d2 t)
    then obtain e where "d2 = d\<lparr>db_client_secrets := db_client_secrets d @ [s], db_audit := db_audit d @ [e]\<rparr>"
      "\<not> list_ex (\<lambda>x. cs_uid x = cs_uid s \<or> cs_prefix x = cs_prefix s) (db_client_secrets d)" using insert_secret_shape by blast
    then show ?thesis using created [where a = a and s = s and e = e and t = t] sql_row_SomeD [OF row] type few s_def stored by simp
  qed
qed

lemma create_secret_cases:
  assumes "createOAuthClientSecret sv body c r d = (w, d')"
  obtains (refused) t where "d' = d\<lparr>db_idempotency := t\<rparr>"
  | (created) a raw rnd e t s where "body = Some raw" "RandomToken (ca_rand c ''client secret'') = Some rnd"
      "\<not> bad_secret_input (ca_now c) (raw\<lparr>ns_Name := TrimSpace (ns_Name raw)\<rparr>)"
      "a \<in> set (db_applications d)" "own_application (p_TenantUID (mustPrincipal r)) (hq_path r ''application_uid'') a"
      "ap_status a = ''active''" "ap_application_type a = ''confidential''"
      "sql_count (usable_secret (ca_now c) (hq_path r ''application_uid'')) (db_client_secrets d) < 2"
      "s = new_secret sv c (hq_path r ''application_uid'') (raw\<lparr>ns_Name := TrimSpace (ns_Name raw)\<rparr>) (secret_prefix c @ ''.'' @ rnd)"
      "\<not> list_ex (\<lambda>x. cs_uid x = cs_uid s \<or> cs_prefix x = cs_prefix s) (db_client_secrets d)"
      "d' = d\<lparr>db_client_secrets := db_client_secrets d @ [s], db_audit := db_audit d @ [e], db_idempotency := t\<rparr>"
      "w = writeStoredResponse (secret_created sv (hq_path r ''application_uid'') (secret_prefix c @ ''.'' @ rnd) s)"
proof (cases "\<exists>t. d' = d\<lparr>db_idempotency := t\<rparr>")
  case True
  then show ?thesis using refused by blast
next
  case False
  have kept: "d' \<noteq> d" using False by (metis db.surjective db.update_convs(32))
  obtain raw request res d1 where body: "body = Some raw" and ok: "\<not> bad_secret_input (ca_now c) (raw\<lparr>ns_Name := TrimSpace (ns_Name raw)\<rparr>)"
    and begun: "beginIdempotentRequest sv c r request d = (res, d1)"
    and step: "d' = d1 \<or> (\<exists>rnd lease. RandomToken (ca_rand c ''client secret'') = Some rnd \<and>
        create_secret_tx sv c (raw\<lparr>ns_Name := TrimSpace (ns_Name raw)\<rparr>) request lease rnd r d1 = (w, d'))"
    using assms kept by (auto simp: createOAuthClientSecret_def Let_def split: option.splits if_splits sum.splits prod.splits) blast+
  from begun obtain i where d1: "d1 = d\<lparr>db_idempotency := i\<rparr>" by (rule begin_shape)
  with step False obtain rnd lease where rnd: "RandomToken (ca_rand c ''client secret'') = Some rnd"
    and tx: "create_secret_tx sv c (raw\<lparr>ns_Name := TrimSpace (ns_Name raw)\<rparr>) request lease rnd r d1 = (w, d')" by blast
  from tx show ?thesis
  proof (cases rule: create_secret_tx_cases)
    case (refused t)
    then have "d' = d\<lparr>db_idempotency := t\<rparr>" using d1 by simp
    with False show ?thesis by blast
  next
    case (created a e t s)
    note new = that(2) [OF body rnd ok, where a = a and s = s and e = e and t = t]
    show ?thesis by (rule new) (use created d1 in simp_all)
  qed
qed

lemma cut_prefixed: "CHR ''.'' \<notin> set p \<Longrightarrow> Cut (CHR ''.'') (p @ ''.'' @ rest) = Some (p, rest)"
  using Cut_append [of "CHR ''.''" p rest] by simp


definition demo_secret_input :: createOAuthClientSecretInput where
  "demo_secret_input = \<lparr>ns_Name = ''ci'', ns_ExpiresAt = None\<rparr>"

definition confidential_db :: db where
  "confidential_db = demo_oauth_db\<lparr>db_applications := [demo_application\<lparr>ap_application_type := ''confidential''\<rparr>]\<rparr>"

lemma demo_secret_created:
  "\<exists>w d'. createOAuthClientSecret demo_server (Some demo_secret_input) demo_call demo_create confidential_db = (w, d') \<and> db_client_secrets d' \<noteq> []"
proof -
  define request where "request = create_request demo_server demo_principal ''oauth_client_secrets.create'' ''key''
    (JObj [(''application_uid'', JStr ''a''), (''input'', JObj [(''name'', JStr ''ci'')])])"
  let ?d = "confidential_db\<lparr>db_idempotency := [claim_row (1000 * Second) ''u-idempotency lease'' request]\<rparr>"
  obtain rnd where rnd: "RandomToken (ca_rand demo_call ''client secret'') = Some rnd"
    by (auto simp: RandomToken_def rand_Read_def demo_call_def)
  let ?plain = "secret_prefix demo_call @ ''.'' @ rnd"
  let ?s = "new_secret demo_server demo_call ''a'' demo_secret_input ?plain"
  have op: "idempotencyOperation ''oauth_client_secrets.create''"
    by (simp add: idempotencyOperation_def head_tail_match_def char_class_defs less_eq_char_def)
  have ok: "validateIdempotencyRequest request = None" unfolding request_def by (rule demo_valid [OF op])
  have idem: "db_idempotency confidential_db = []" by (simp add: confidential_db_def demo_oauth_defs)
  have fields: "mustPrincipal demo_create = demo_principal" "hq_path demo_create ''application_uid'' = ''a''" "hq_header demo_create ''Idempotency-Key'' = ''key''"
    by (simp_all add: demo_create_def demo_if_match_def mustPrincipal_def)
  have "TrimSpace ''ci'' = ''ci''" by (rule TrimSpace_visible; simp add: visible_c_def)
  then have input: "demo_secret_input\<lparr>ns_Name := TrimSpace ''ci''\<rparr> = demo_secret_input"
      "ns_Name demo_secret_input = ''ci''" "ns_ExpiresAt demo_secret_input = None" "\<not> bad_secret_input (ca_now demo_call) demo_secret_input"
    by (simp_all add: demo_secret_input_def bad_secret_input_def secret_expiry_def oauthClientSecretDefaultTTL_def oauthClientSecretMaximumTTL_def time_defs)
  have flt: "\<not> ca_flt demo_call site" for site by (simp add: demo_call_def)
  have row: "query_row demo_server demo_call ''lock application'' [''a''] (\<lambda>a. own_application (p_TenantUID demo_principal) ''a'' a \<and> ap_status a = ''active'')
      (db_applications ?d) = Row (demo_application\<lparr>ap_application_type := ''confidential''\<rparr>)"
    by (simp add: query_row_def demo_call_def demo_server_def demo_principal_def confidential_db_def own_application_def demo_application_def)
  have none: "db_client_secrets ?d = []" by (simp add: confidential_db_def demo_oauth_defs)
  have "\<exists>d2. insert_secret demo_call demo_principal ?s ?d = Some d2 \<and> db_idempotency d2 = db_idempotency ?d \<and> db_client_secrets d2 = [?s]"
    by (simp add: insert_secret_def member_audit_def add_audit_def stmt_def flt none)
  then obtain d2 where ins: "insert_secret demo_call demo_principal ?s ?d = Some d2" "db_idempotency d2 = db_idempotency ?d" "db_client_secrets d2 = [?s]" by blast
  have "\<exists>t. respond_stored demo_server demo_call demo_create request ''u-idempotency lease'' (secret_created demo_server ''a'' ?plain ?s) (Some d2)
      ''could not create client secret'' ?d = (writeStoredResponse (secret_created demo_server ''a'' ?plain ?s), d2\<lparr>db_idempotency := t\<rparr>)"
    by (rule demo_responded [OF ok]) (simp_all add: ins(2) secret_created_def)
  then obtain t where resp: "respond_stored demo_server demo_call demo_create request ''u-idempotency lease'' (secret_created demo_server ''a'' ?plain ?s) (Some d2)
      ''could not create client secret'' ?d = (writeStoredResponse (secret_created demo_server ''a'' ?plain ?s), d2\<lparr>db_idempotency := t\<rparr>)" ..
  have tx: "create_secret_tx demo_server demo_call demo_secret_input request ''u-idempotency lease'' rnd demo_create ?d =
      (writeStoredResponse (secret_created demo_server ''a'' ?plain ?s), d2\<lparr>db_idempotency := t\<rparr>)"
    unfolding create_secret_tx_def Let_def fields row query.case ins(1) resp none using flt by (simp add: sql_count_def)
  have "createOAuthClientSecret demo_server (Some demo_secret_input) demo_call demo_create confidential_db =
      (writeStoredResponse (secret_created demo_server ''a'' ?plain ?s), d2\<lparr>db_idempotency := t\<rparr>)"
    unfolding createOAuthClientSecret_def option.case Let_def fields input if_not_P [OF input(4)] request_def [symmetric]
      demo_begun [OF ok idem] prod.case sum.case rnd using tx by simp
  then show ?thesis using ins(3) by simp
qed


section \<open>Secrets over time\<close>

lemma create_application_tx_shape:
  assumes "create_application_tx c p uris a d = Some d'"
  shows "db_applications d' = db_applications d @ [a] \<and> db_client_secrets d' = db_client_secrets d \<and>
    \<not> list_ex (\<lambda>x. ap_uid x = ap_uid a \<or> ap_client_id x = ap_client_id a) (db_applications d)"
  using assms by (auto simp: create_application_tx_def member_audit_def add_audit_def stmt_def bind_eq_Some_conv split: if_splits dest!: insert_redirects_frame)

lemma create_application_cases:
  assumes "createOAuthApplication sv c body r d = (w, d')"
  obtains (refused) "db_applications d' = db_applications d" "db_client_secrets d' = db_client_secrets d"
  | (created) a where "db_applications d' = db_applications d @ [a]" "db_client_secrets d' = db_client_secrets d"
      "\<not> list_ex (\<lambda>x. ap_uid x = ap_uid a \<or> ap_client_id x = ap_client_id a) (db_applications d)"
proof (cases "d' = d")
  case True
  then show ?thesis using refused by simp
next
  case False
  obtain request res d1 where begun: "beginIdempotentRequest sv c r request d = (res, d1)"
    and step: "d' = d1 \<or> (\<exists>lease resp msg p uris a. respond_stored sv c r request lease resp (create_application_tx c p uris a d1) msg d1 = (w, d'))"
    using assms False by (auto simp: createOAuthApplication_def Let_def split: option.splits if_splits sum.splits prod.splits) blast+
  from begun obtain i where d1: "d1 = d\<lparr>db_idempotency := i\<rparr>" by (rule begin_shape)
  from step show ?thesis
  proof (elim disjE exE)
    assume "d' = d1"
    then show ?thesis using refused d1 by simp
  next
    fix lease resp msg p uris a
    assume "respond_stored sv c r request lease resp (create_application_tx c p uris a d1) msg d1 = (w, d')"
    then show ?thesis
    proof (cases rule: respond_stored_cases)
      case failed
      then show ?thesis using refused d1 by simp
    next
      case (stored d2 t)
      then show ?thesis using create_application_tx_shape [OF stored(1)] created [of a] d1 by simp
    qed
  qed
qed

lemma audit_event_frame:
  obtains au where "audit_event c t p at a action tt tu m d = d\<lparr>db_audit := au\<rparr>"
proof (cases "ca_flt c ''audit''")
  case True
  then have "audit_event c t p at a action tt tu m d = d\<lparr>db_audit := db_audit d\<rparr>" by (simp add: audit_event_def)
  then show ?thesis by (rule that)
next
  case False
  then show ?thesis using that unfolding audit_event_def add_audit_def by simp
qed

lemma revoke_secret_cases:
  assumes "revokeOAuthClientSecret sv c r d = (w, d')"
  obtains (refused) "d' = d"
  | (revoked) "list_ex (secret_hit d (p_TenantUID (mustPrincipal r)) (hq_path r ''application_uid'') (hq_path r ''secret_uid'')) (db_client_secrets d)"
      "db_applications d' = db_applications d"
      "db_client_secrets d' = sql_update (secret_hit d (p_TenantUID (mustPrincipal r)) (hq_path r ''application_uid'') (hq_path r ''secret_uid''))
         (revoke_secret_row (ca_now c)) (db_client_secrets d)"
proof (cases "d' = d")
  case True
  then show ?thesis by (rule refused)
next
  case False
  define hit where "hit = secret_hit d (p_TenantUID (mustPrincipal r)) (hq_path r ''application_uid'') (hq_path r ''secret_uid'')"
  have run: "list_ex hit (db_client_secrets d) \<and>
      d' = audit_event c (p_TenantUID (mustPrincipal r)) [] ''tenant_member'' (p_MemberUID (mustPrincipal r)) ''oauth_client_secret.revoked'' ''oauth_client_secret''
        (hq_path r ''secret_uid'') (JObj []) (d\<lparr>db_client_secrets := sql_update hit (revoke_secret_row (ca_now c)) (db_client_secrets d)\<rparr>)"
    using assms False unfolding revokeOAuthClientSecret_def Let_def hit_def [symmetric] by (simp split: if_splits)
  obtain au where "d' = d\<lparr>db_client_secrets := sql_update hit (revoke_secret_row (ca_now c)) (db_client_secrets d), db_audit := au\<rparr>"
    using conjunct2 [OF run] audit_event_frame by metis
  then show ?thesis using revoked run by (simp add: hit_def)
qed

lemma sql_count_mono: "(\<And>x. P x \<Longrightarrow> Q x) \<Longrightarrow> sql_count P t \<le> sql_count Q t"
  by (induction t) auto

lemma sql_count_update: "(\<And>x. P (f x) \<Longrightarrow> P x) \<Longrightarrow> sql_count P (sql_update hit f t) \<le> sql_count P t"
  by (induction t) (auto simp: le_SucI)

definition secrets_invar :: "time \<Rightarrow> db \<Rightarrow> bool" where
  "secrets_invar t d \<longleftrightarrow> distinct (map ap_uid (db_applications d)) \<and>
     (\<forall>s \<in> set (db_client_secrets d). \<exists>a \<in> set (db_applications d). ap_uid a = cs_application_uid s \<and> ap_application_type a = ''confidential'') \<and>
     (\<forall>u now. t \<le> now \<longrightarrow> sql_count (usable_secret now u) (db_client_secrets d) \<le> 2)"

text \<open>
  The histories of applications and secrets, with the clock: the handlers of this theory, client authentication, and any other
  change that leaves both tables alone.
\<close>

inductive secrets_run :: "server \<Rightarrow> time \<Rightarrow> db \<Rightarrow> bool" for sv where
  start: "distinct (map ap_uid (db_applications d)) \<Longrightarrow> db_client_secrets d = [] \<Longrightarrow> secrets_run sv t d"
| register: "secrets_run sv t d \<Longrightarrow> t \<le> ca_now c \<Longrightarrow> createOAuthApplication sv c body r d = (w, d') \<Longrightarrow> secrets_run sv (ca_now c) d'"
| change: "secrets_run sv t d \<Longrightarrow> t \<le> ca_now c \<Longrightarrow> application_write sv x c r d = (w, d') \<Longrightarrow> secrets_run sv (ca_now c) d'"
| issue: "secrets_run sv t d \<Longrightarrow> t \<le> ca_now c \<Longrightarrow> createOAuthClientSecret sv secret c r d = (w, d') \<Longrightarrow> secrets_run sv (ca_now c) d'"
| revoke: "secrets_run sv t d \<Longrightarrow> t \<le> ca_now c \<Longrightarrow> revokeOAuthClientSecret sv c r d = (w, d') \<Longrightarrow> secrets_run sv (ca_now c) d'"
| authenticate: "secrets_run sv t d \<Longrightarrow> t \<le> ca_now c \<Longrightarrow> authenticateOAuthClient sv c r form d = (res, d') \<Longrightarrow> secrets_run sv (ca_now c) d'"
| other: "secrets_run sv t d \<Longrightarrow> t \<le> t' \<Longrightarrow> db_applications d' = db_applications d \<Longrightarrow> db_client_secrets d' = db_client_secrets d \<Longrightarrow> secrets_run sv t' d'"

lemma secrets_invar_update:
  assumes "secrets_invar t d" "t \<le> t'" and "map ap_uid (db_applications d') = map ap_uid (db_applications d)"
    and "map ap_application_type (db_applications d') = map ap_application_type (db_applications d)"
    and "db_client_secrets d' = sql_update hit f (db_client_secrets d)"
    and "\<And>now u s. usable_secret now u (f s) \<Longrightarrow> usable_secret now u s" "\<And>s. cs_application_uid (f s) = cs_application_uid s"
  shows "secrets_invar t' d'"
proof -
  have apps: "\<exists>a \<in> set (db_applications d'). ap_uid a = u \<and> ap_application_type a = k"
    if some: "\<exists>a \<in> set (db_applications d). ap_uid a = u \<and> ap_application_type a = k" for u k
  proof -
    obtain i where i: "i < length (db_applications d)" "ap_uid (db_applications d ! i) = u" "ap_application_type (db_applications d ! i) = k"
      using some by (auto simp: in_set_conv_nth)
    have "length (db_applications d') = length (db_applications d)" using assms(3) by (metis length_map)
    moreover from this i have "ap_uid (db_applications d' ! i) = u" "ap_application_type (db_applications d' ! i) = k"
      using assms(3,4) by (metis nth_map)+
    ultimately show ?thesis using i(1) nth_mem [of i "db_applications d'"] by auto
  qed
  have count: "sql_count (usable_secret now u) (db_client_secrets d') \<le> sql_count (usable_secret now u) (db_client_secrets d)" for now u
    unfolding assms(5) by (rule sql_count_update) (rule assms(6))
  have uids: "cs_application_uid ` set (db_client_secrets d') \<subseteq> cs_application_uid ` set (db_client_secrets d)"
    by (auto simp: assms(5,7) sql_update_def)
  show ?thesis unfolding secrets_invar_def
  proof (intro conjI ballI allI impI)
    show "distinct (map ap_uid (db_applications d'))" using assms(1,3) by (simp add: secrets_invar_def)
    show "\<exists>a \<in> set (db_applications d'). ap_uid a = cs_application_uid s \<and> ap_application_type a = ''confidential''"
      if s: "s \<in> set (db_client_secrets d')" for s
    proof -
      obtain s0 where "s0 \<in> set (db_client_secrets d)" "cs_application_uid s = cs_application_uid s0" using s uids by blast
      then show ?thesis using assms(1) by (intro apps) (auto simp: secrets_invar_def)
    qed
    show "sql_count (usable_secret now u) (db_client_secrets d') \<le> 2" if "t' \<le> now" for u now
      using count [of now u] assms(1,2) that unfolding secrets_invar_def by (meson order_trans)
  qed
qed

lemma secrets_invar_keep:
  assumes "secrets_invar t d" "t \<le> t'" and "map ap_uid (db_applications d') = map ap_uid (db_applications d)"
    and "map ap_application_type (db_applications d') = map ap_application_type (db_applications d)"
    and "db_client_secrets d' = db_client_secrets d"
  shows "secrets_invar t' d'"
  using assms(1-4) by (rule secrets_invar_update [where hit = "\<lambda>_. False" and f = id]) (simp_all add: assms(5) sql_update_def)

lemma secret_row_shrinks:
  "usable_secret now u (revoke_secret_row t s) \<Longrightarrow> usable_secret now u s" "cs_application_uid (revoke_secret_row t s) = cs_application_uid s"
  "usable_secret now u (s\<lparr>cs_last_used_at := x\<rparr>) = usable_secret now u s"
  by (simp_all add: usable_secret_def revoke_secret_row_def)

lemma secrets_run_invar: "secrets_run sv t d \<Longrightarrow> secrets_invar t d"
proof (induction rule: secrets_run.induct)
  case (start d t)
  then show ?case by (simp add: secrets_invar_def)
next
  case (register t d c body r w d')
  from register.hyps(3) show ?case
  proof (cases rule: create_application_cases)
    case refused
    then show ?thesis using register by (intro secrets_invar_keep [OF register.IH]) auto
  next
    case (created a)
    then show ?thesis using register by (force simp: secrets_invar_def list_ex_iff)
  qed
next
  case (change t d c x r w d')
  note ids = application_ids_kept [OF change.hyps(3)]
  show ?case
  proof (cases "d' = d")
    case True
    then show ?thesis using change by (intro secrets_invar_keep [OF change.IH]) auto
  next
    case False
    from change.hyps(3) False show ?thesis
    proof (cases rule: application_write_cases)
      case (updated input old)
      then show ?thesis using change ids update_application_shape [OF updated(3)] by (intro secrets_invar_keep [OF change.IH]) auto
    next
      case (deleted old)
      note shape = delete_application_shape [OF deleted(3)]
      show ?thesis using change.IH change.hyps(2) conjunct1 [OF ids] conjunct2 [OF conjunct2 [OF ids]] conjunct1 [OF conjunct2 [OF shape]]
        by (rule secrets_invar_update) (rule secret_row_shrinks, assumption | rule secret_row_shrinks)+
    qed
  qed
next
  case (issue t d c secret r w d')
  from issue.hyps(3) show ?case
  proof (cases rule: create_secret_cases)
    case (refused i)
    then show ?thesis using issue by (intro secrets_invar_keep [OF issue.IH]) auto
  next
    case (created a raw rnd e i s)
    let ?u = "hq_path r ''application_uid''"
    have s: "cs_application_uid s = ?u" "ap_uid a = ?u" using created(5) by (simp_all add: created(9) new_secret_def own_application_def)
    have "sql_count (usable_secret now v) (db_client_secrets d') \<le> 2" if "ca_now c \<le> now" for v now
    proof (cases "v = ?u")
      case True
      have "sql_count (usable_secret now v) (db_client_secrets d) \<le> sql_count (usable_secret (ca_now c) v) (db_client_secrets d)"
        using that by (intro sql_count_mono) (auto simp: usable_secret_def)
      then show ?thesis using created(8) True by (simp add: created(11) sql_count_def)
    next
      case False
      then have "sql_count (usable_secret now v) (db_client_secrets d') = sql_count (usable_secret now v) (db_client_secrets d)"
        using s(1) by (simp add: created(11) sql_count_def usable_secret_def)
      then show ?thesis using issue.IH issue.hyps(2) that unfolding secrets_invar_def by (metis order_trans)
    qed
    then show ?thesis using issue.IH created(4,7,11) s by (auto simp: secrets_invar_def)
  qed
next
  case (revoke t d c r w d')
  from revoke.hyps(3) show ?case
  proof (cases rule: revoke_secret_cases)
    case refused
    then show ?thesis using revoke by (intro secrets_invar_keep [OF revoke.IH]) auto
  next
    case revoked
    have ids: "map ap_uid (db_applications d') = map ap_uid (db_applications d)" "map ap_application_type (db_applications d') = map ap_application_type (db_applications d)"
      using revoked by simp_all
    show ?thesis using revoke.IH revoke.hyps(2) ids revoked(3)
      by (rule secrets_invar_update) (rule secret_row_shrinks, assumption | rule secret_row_shrinks)+
  qed
next
  case (authenticate t d c r form res d')
  have "d' = d \<or> (\<exists>u. d' = touch_secret c u d)" using authenticate.hyps(3) by (cases rule: authenticate_cases) auto
  then show ?case
  proof (elim disjE exE)
    fix u
    assume d': "d' = touch_secret c u d"
    show ?thesis
    proof (cases "ca_flt c ''touch client secret''")
      case True
      then show ?thesis using authenticate d' by (intro secrets_invar_keep [OF authenticate.IH]) (simp_all add: touch_secret_def)
    next
      case False
      then have "db_client_secrets d' = sql_update (\<lambda>s. cs_uid s = u) (\<lambda>s. s\<lparr>cs_last_used_at := Some (ca_now c)\<rparr>) (db_client_secrets d)"
        by (simp add: d' touch_secret_def)
      then show ?thesis using authenticate.hyps(2) False d'
        by (intro secrets_invar_update [OF authenticate.IH, where hit = "\<lambda>s. cs_uid s = u" and f = "\<lambda>s. s\<lparr>cs_last_used_at := Some (ca_now c)\<rparr>"])
          (simp_all add: touch_secret_def secret_row_shrinks(3))
    qed
  qed (use authenticate in \<open>intro secrets_invar_keep [OF authenticate.IH]; simp\<close>)
next
  case (other t d t' d')
  then show ?case by (intro secrets_invar_keep [OF other.IH]) auto
qed

text \<open>C20 (two_secrets_at_most): in every history of registering, changing and deleting applications, issuing and revoking secrets and
  authenticating clients, no application ever has more than two usable secrets, now or at any later time, and
  every secret belongs to a registered confidential application -- a public client never gets one.\<close>

theorem two_secrets_at_most:
  assumes "secrets_run sv t d" and "t \<le> now"
  shows "sql_count (usable_secret now uid) (db_client_secrets d) \<le> 2 \<and>
    list_all (\<lambda>s. list_ex (\<lambda>a. ap_uid a = cs_application_uid s \<and> ap_application_type a = ''confidential'') (db_applications d)) (db_client_secrets d)"
  using secrets_run_invar [OF assms(1)] assms(2) by (auto simp: secrets_invar_def list_all_iff list_ex_iff)

theorem two_secrets_at_most_witness:
  "\<exists>w d'. createOAuthClientSecret demo_server (Some demo_secret_input) demo_call demo_create confidential_db = (w, d') \<and>
     db_client_secrets d' \<noteq> [] \<and> sql_count (usable_secret (2000 * Second) ''a'') (db_client_secrets d') \<le> 2"
proof -
  obtain w d' where run: "createOAuthClientSecret demo_server (Some demo_secret_input) demo_call demo_create confidential_db = (w, d')"
    and some: "db_client_secrets d' \<noteq> []" using demo_secret_created by blast
  have start: "secrets_run demo_server 0 confidential_db" by (rule secrets_run.start) (simp_all add: confidential_db_def demo_oauth_defs)
  have now: "0 \<le> ca_now demo_call" "ca_now demo_call \<le> 2000 * Second" by (simp_all add: demo_call_def time_defs)
  have "secrets_run demo_server (ca_now demo_call) d'" using start now(1) run by (rule secrets_run.issue)
  from two_secrets_at_most [OF this now(2), of "''a''"] run some show ?thesis by blast
qed

end
