(* ===== verification/Service_Accounts.thy ===== *)
theory Service_Accounts
  imports Applications Migrations
begin

text \<open>
  Service accounts of projects and their credentials: \<^verbatim>\<open>internal/api/service_accounts.go\<close>. The credentials created here are those
  the guard \<open>serviceCredential\<close> of \<open>Console_Guards\<close> admits.
\<close>

section \<open>Scopes and limits\<close>

definition serviceAccountLimit :: nat where "serviceAccountLimit = 20"
definition serviceCredentialActiveLimit :: nat where "serviceCredentialActiveLimit = 2"
definition serviceCredentialDefaultTTL :: duration where "serviceCredentialDefaultTTL = 90 * 24 * Hour"
definition serviceCredentialMaximumTTL :: duration where "serviceCredentialMaximumTTL = 365 * 24 * Hour"
definition serviceCredentialMinimumTTL :: duration where "serviceCredentialMinimumTTL = 5 * Minute"

definition validServiceAccountScopes :: "string list" where
  "validServiceAccountScopes = [serviceScopeProjectUsersRead, serviceScopeProjectUsersWrite, serviceScopeAuthentication, serviceScopeSessionsManage,
     serviceScopeSupportCasesRead, serviceScopeSupportCasesWrite, serviceScopeExternalCredentialsManage]"

definition normalizeServiceAccountScopes :: "server \<Rightarrow> string list \<Rightarrow> string + string list" where
  "normalizeServiceAccountScopes sv vals =
     (let trimmed = map TrimSpace vals in
      case find (\<lambda>v. v \<notin> set validServiceAccountScopes) trimmed of
        Some v \<Rightarrow> Inl (''unsupported scope '' @ go_Quote sv v)
      | None \<Rightarrow> if trimmed = [] then Inl ''at least one scope is required'' else Inr (sort (remdups trimmed)))"

section \<open>Reading accounts\<close>

definition own_project :: "uid \<Rightarrow> uid \<Rightarrow> project_row \<Rightarrow> bool" where
  "own_project tenantUID projectUID p \<longleftrightarrow> pj_uid p = projectUID \<and> pj_tenant_uid p = tenantUID"

text \<open>A failing query counts as no.\<close>

definition ownsProject :: "server \<Rightarrow> call \<Rightarrow> uid \<Rightarrow> uid \<Rightarrow> db \<Rightarrow> bool" where
  "ownsProject sv c tenantUID projectUID d \<longleftrightarrow>
     \<not> ca_flt c ''owns project'' \<and> uuid_ok sv projectUID \<and> list_ex (own_project tenantUID projectUID) (db_projects d)"

definition own_account :: "db \<Rightarrow> uid \<Rightarrow> uid \<Rightarrow> uid \<Rightarrow> service_account_row \<Rightarrow> bool" where
  "own_account d tenantUID projectUID accountUID a \<longleftrightarrow> sa_uid a = accountUID \<and> sa_project_uid a = projectUID \<and> sa_deleted_at a = None \<and>
     list_ex (own_project tenantUID projectUID) (db_projects d)"

definition project_of :: "db \<Rightarrow> uid \<Rightarrow> project_row" where
  "project_of d projectUID = the (sql_row (\<lambda>p. pj_uid p = projectUID) (db_projects d))"

definition json_option :: "('a \<Rightarrow> json) \<Rightarrow> 'a option \<Rightarrow> json" where
  "json_option f x = (case x of None \<Rightarrow> JNull | Some v \<Rightarrow> f v)"

definition account_json :: "string \<Rightarrow> service_account_row \<Rightarrow> json" where
  "account_json environment a = JObj [(''uid'', JStr (sa_uid a)), (''name'', JStr (sa_name a)), (''description'', JStr (sa_description a)),
     (''status'', JStr (sa_status a)), (''scopes'', JArr (map JStr (sa_scopes a))), (''environment'', JStr environment),
     (''version'', JNum (sa_version a)), (''created_by_member_uid'', json_option JStr (sa_created_by_member_uid a)),
     (''created_at'', JNum (sa_created_at a)), (''updated_at'', JNum (sa_updated_at a)), (''disabled_at'', json_option JNum (sa_disabled_at a))]"

definition shown_account :: "db \<Rightarrow> service_account_row \<Rightarrow> json" where
  "shown_account d a = account_json (pj_environment (project_of d (sa_project_uid a))) a"

definition listServiceAccounts :: "server \<Rightarrow> call \<Rightarrow> handler" where
  "listServiceAccounts sv c r d =
     (let projectUID = hq_path r ''project_uid'' in
      if \<not> ownsProject sv c (p_TenantUID (mustPrincipal r)) projectUID d then (fail r 404 ''project_not_found'' ''Project was not found'', d)
      else list_page sv c ''list service accounts'' ''could not load service accounts'' (\<lambda>a. (sa_created_at a, sa_uid a))
        (\<lambda>a. sa_project_uid a = projectUID \<and> sa_deleted_at a = None) (shown_account d) db_service_accounts r d)"

definition loadServiceAccount :: "server \<Rightarrow> call \<Rightarrow> uid \<Rightarrow> uid \<Rightarrow> uid \<Rightarrow> db \<Rightarrow> service_account_row query" where
  "loadServiceAccount sv c tenantUID projectUID accountUID d =
     query_row sv c ''load service account'' [projectUID, accountUID] (own_account d tenantUID projectUID accountUID) (db_service_accounts d)"

definition getServiceAccount :: "server \<Rightarrow> call \<Rightarrow> handler" where
  "getServiceAccount sv c r d =
     (case loadServiceAccount sv c (p_TenantUID (mustPrincipal r)) (hq_path r ''project_uid'') (hq_path r ''service_account_uid'') d of
        NoRows \<Rightarrow> (fail r 404 ''service_account_not_found'' ''Service account was not found'', d)
      | QueryError \<Rightarrow> (fail r 500 ''internal_error'' ''could not load service account'', d)
      | Row a \<Rightarrow> (setVersionETag (sa_version a) (writeJSON 200 (shown_account d a)), d))"

section \<open>Creating an account\<close>

record createServiceAccountInput =
  ci_Name :: string
  ci_Description :: string
  ci_Scopes :: "string list"

definition normalizeServiceAccountInput :: "server \<Rightarrow> createServiceAccountInput \<Rightarrow> string + createServiceAccountInput" where
  "normalizeServiceAccountInput sv raw =
     (let name = TrimSpace (ci_Name raw); description = TrimSpace (ci_Description raw) in
      if name = [] \<or> length name > 100 then Inl ''name must contain between 1 and 100 characters''
      else if length description > 500 then Inl ''description must not exceed 500 characters''
      else map_sum id (\<lambda>scopes. \<lparr>ci_Name = name, ci_Description = description, ci_Scopes = scopes\<rparr>)
             (normalizeServiceAccountScopes sv (ci_Scopes raw)))"

definition project_audit :: "call \<Rightarrow> uid \<Rightarrow> uid \<Rightarrow> string \<Rightarrow> uid \<Rightarrow> string \<Rightarrow> string \<Rightarrow> uid \<Rightarrow> json \<Rightarrow> db \<Rightarrow> db option" where
  "project_audit c tenantUID projectUID actorType actorUID action target_type target metadata =
     stmt c ''insert audit event'' (\<lambda>d. Some (add_audit
       \<lparr>au_uid = ca_uid c ''audit'', au_tenant_uid = tenantUID, au_project_uid = Some projectUID, au_actor_type = actorType,
        au_actor_uid = Some actorUID, au_action = action, au_target_type = target_type, au_target_uid = target, au_metadata = metadata\<rparr> d))"

text \<open>\<open>completeServiceAccountProblem\<close>: the refusal is stored as the answer of the idempotent request.\<close>

definition completeServiceAccountProblem ::
  "server \<Rightarrow> call \<Rightarrow> http_request \<Rightarrow> IdempotencyRequest \<Rightarrow> uid \<Rightarrow> int \<Rightarrow> string \<Rightarrow> string \<Rightarrow> db \<Rightarrow> http_response \<times> db" where
  "completeServiceAccountProblem sv c r request lease status code detail d =
     respond_stored sv c r request lease (problemResponse sv r status code detail) (Some d) ''could not persist service-account result'' d"

definition new_account :: "call \<Rightarrow> principal \<Rightarrow> uid \<Rightarrow> createServiceAccountInput \<Rightarrow> service_account_row" where
  "new_account c p projectUID input =
     \<lparr>sa_uid = ca_uid c ''service account'', sa_project_uid = projectUID, sa_name = ci_Name input, sa_description = ci_Description input,
      sa_status = ''active'', sa_scopes = ci_Scopes input, sa_version = 1, sa_created_by_member_uid = Some (p_MemberUID p),
      sa_created_at = ca_now c, sa_updated_at = ca_now c, sa_disabled_at = None, sa_deleted_at = None\<rparr>"

definition insert_account :: "call \<Rightarrow> principal \<Rightarrow> uid \<Rightarrow> service_account_row \<Rightarrow> db \<Rightarrow> db option" where
  "insert_account c p projectUID a d =
     Option.bind (stmt c ''insert service account'' (\<lambda>d.
       if list_ex (\<lambda>x. sa_uid x = sa_uid a) (db_service_accounts d) then None
       else Some (d\<lparr>db_service_accounts := db_service_accounts d @ [a]\<rparr>)) d)
       (project_audit c (p_TenantUID p) projectUID ''tenant_member'' (p_MemberUID p) ''service_account.created'' ''service_account'' (sa_uid a)
          (JObj [(''scopes'', JArr (map JStr (sa_scopes a)))]))"

definition create_account_tx :: "server \<Rightarrow> call \<Rightarrow> createServiceAccountInput \<Rightarrow> IdempotencyRequest \<Rightarrow> uid \<Rightarrow> handler" where
  "create_account_tx sv c input request lease r d =
     (let p = mustPrincipal r; projectUID = hq_path r ''project_uid''; failed = ''could not create service account'';
          refuse = completeServiceAccountProblem sv c r request lease; a = new_account c p projectUID input in
      if ca_flt c ''begin transaction'' then (fail r 500 ''internal_error'' failed, d)
      else (case query_row sv c ''lock project'' [projectUID] (own_project (p_TenantUID p) projectUID) (db_projects d) of
        NoRows \<Rightarrow> refuse 404 ''project_not_found'' ''Project was not found'' d
      | QueryError \<Rightarrow> (fail r 500 ''internal_error'' failed, d)
      | Row project \<Rightarrow>
          if pj_status project \<noteq> ''active'' then refuse 409 ''project_disabled'' ''enable the Project before creating a service account'' d
          else if ca_flt c ''count service accounts'' then (fail r 500 ''internal_error'' failed, d)
          else if sql_count (\<lambda>x. sa_project_uid x = projectUID \<and> sa_deleted_at x = None) (db_service_accounts d) \<ge> serviceAccountLimit then
            refuse 409 ''service_account_limit'' ''a Project may have at most 20 service accounts'' d
          else respond_stored sv c r request lease
                 (storedResourceResponse sv 201 (''/v1/projects/'' @ projectUID @ ''/service-accounts/'' @ sa_uid a) (sa_version a)
                    (account_json (pj_environment project) a))
                 (insert_account c p projectUID a d) failed d))"

definition createServiceAccount :: "server \<Rightarrow> createServiceAccountInput option \<Rightarrow> call \<Rightarrow> handler" where
  "createServiceAccount sv body c r d =
     (case body of
        None \<Rightarrow> (invalid_json r, d)
      | Some raw \<Rightarrow>
          (case normalizeServiceAccountInput sv raw of
             Inl e \<Rightarrow> (fail r 422 ''validation_failed'' e, d)
           | Inr input \<Rightarrow>
               if hq_header r ''Idempotency-Key'' = [] then (fail r 400 ''idempotency_key_required'' ''Idempotency-Key is required'', d)
               else let request = create_request sv (mustPrincipal r) ''service_accounts.create'' (hq_header r ''Idempotency-Key'')
                          (JObj [(''project_uid'', JStr (hq_path r ''project_uid'')),
                                 (''input'', JObj ((''name'', JStr (ci_Name input)) #
                                    (if ci_Description input = [] then [] else [(''description'', JStr (ci_Description input))]) @
                                    [(''scopes'', JArr (map JStr (ci_Scopes input)))]))]) in
                 (case beginIdempotentRequest sv c r request d of
                    (Inl response, d1) \<Rightarrow> (response, d1)
                  | (Inr claim, d1) \<Rightarrow> create_account_tx sv c input request (cl_LeaseUID claim) r d1)))"

section \<open>Changing an account\<close>

record updateServiceAccountInput =
  ua_Name :: "string option"
  ua_Description :: "string option"
  ua_Status :: "string option"
  ua_Scopes :: "string list option"

definition bad_account_update :: "updateServiceAccountInput \<Rightarrow> string option" where
  "bad_account_update raw =
     (if ua_Name raw = None \<and> ua_Description raw = None \<and> ua_Status raw = None \<and> ua_Scopes raw = None then Some ''at least one field is required''
      else if (case ua_Name raw of None \<Rightarrow> False | Some v \<Rightarrow> TrimSpace v = [] \<or> length (TrimSpace v) > 100) then
        Some ''name must contain between 1 and 100 characters''
      else if (case ua_Description raw of None \<Rightarrow> False | Some v \<Rightarrow> length (TrimSpace v) > 500) then Some ''description must not exceed 500 characters''
      else if bad_status (ua_Status raw) then Some ''status must be active or disabled''
      else None)"

definition update_account_row :: "call \<Rightarrow> updateServiceAccountInput \<Rightarrow> service_account_row \<Rightarrow> service_account_row \<Rightarrow> service_account_row" where
  "update_account_row c input old a =
     a\<lparr>sa_name := (case ua_Name input of None \<Rightarrow> sa_name old | Some v \<Rightarrow> v),
       sa_description := (case ua_Description input of None \<Rightarrow> sa_description old | Some v \<Rightarrow> v),
       sa_status := new_status (ua_Status input) (sa_status old),
       sa_scopes := (case ua_Scopes input of None \<Rightarrow> sa_scopes old | Some v \<Rightarrow> v),
       sa_version := sa_version a + 1, sa_updated_at := ca_now c,
       sa_disabled_at := (if new_status (ua_Status input) (sa_status old) = ''disabled''
                          then (case sa_disabled_at a of None \<Rightarrow> Some (ca_now c) | Some t \<Rightarrow> Some t) else None)\<rparr>"

definition write_accounts :: "call \<Rightarrow> (service_account_row \<Rightarrow> bool) \<Rightarrow> (service_account_row \<Rightarrow> service_account_row) \<Rightarrow> db \<Rightarrow> db option" where
  "write_accounts c hit f = stmt c ''update service account'' (\<lambda>d.
     if list_ex (\<lambda>a. hit a \<and> \<not> bigint_ok (sa_version (f a))) (db_service_accounts d) then None
     else Some (d\<lparr>db_service_accounts := sql_update hit f (db_service_accounts d)\<rparr>))"

text \<open>The revocation that follows the withdrawal of an account; \<open>COALESCE\<close> keeps an earlier time and reason.\<close>

definition coalesce :: "'a option \<Rightarrow> 'a \<Rightarrow> 'a option" where
  "coalesce x y = (case x of None \<Rightarrow> Some y | Some v \<Rightarrow> Some v)"

definition withdraw_credential :: "call \<Rightarrow> principal \<Rightarrow> string \<Rightarrow> service_credential_row \<Rightarrow> service_credential_row" where
  "withdraw_credential c p reason k =
     k\<lparr>cr_status := ''revoked'', cr_revoked_at := coalesce (cr_revoked_at k) (ca_now c), cr_revoked_by_member_uid := Some (p_MemberUID p),
       cr_revocation_reason := coalesce (cr_revocation_reason k) reason\<rparr>"

definition withdraw_credentials :: "call \<Rightarrow> principal \<Rightarrow> uid \<Rightarrow> string \<Rightarrow> db \<Rightarrow> db option" where
  "withdraw_credentials c p accountUID reason = stmt c ''revoke service credentials'' (\<lambda>d. Some (d\<lparr>db_service_credentials :=
     sql_update (\<lambda>k. cr_service_account_uid k = accountUID \<and> cr_status k = ''active'') (withdraw_credential c p reason) (db_service_credentials d)\<rparr>))"

definition update_account_tx :: "call \<Rightarrow> principal \<Rightarrow> uid \<Rightarrow> uid \<Rightarrow> updateServiceAccountInput \<Rightarrow> service_account_row \<Rightarrow> db \<Rightarrow> db option" where
  "update_account_tx c p projectUID accountUID input old d =
     (let status = new_status (ua_Status input) (sa_status old); scopes = (case ua_Scopes input of None \<Rightarrow> sa_scopes old | Some v \<Rightarrow> v) in
      Option.bind (write_accounts c (\<lambda>a. sa_uid a = accountUID \<and> sa_project_uid a = projectUID) (update_account_row c input old) d) (\<lambda>d.
      Option.bind (if status = ''disabled'' then withdraw_credentials c p accountUID ''service_account_disabled'' d else Some d)
        (project_audit c (p_TenantUID p) projectUID ''tenant_member'' (p_MemberUID p) ''service_account.updated'' ''service_account'' accountUID
           (JObj [(''status'', JStr status), (''scopes'', JArr (map JStr scopes))]))))"

definition updateServiceAccount :: "server \<Rightarrow> updateServiceAccountInput option \<Rightarrow> call \<Rightarrow> handler" where
  "updateServiceAccount sv body c r d =
     (case body of
        None \<Rightarrow> (invalid_json r, d)
      | Some raw \<Rightarrow>
          (case bad_account_update raw of
             Some e \<Rightarrow> (fail r 422 ''validation_failed'' e, d)
           | None \<Rightarrow>
               (case (case ua_Scopes raw of None \<Rightarrow> Inr None | Some vs \<Rightarrow> map_sum id Some (normalizeServiceAccountScopes sv vs)) of
                  Inl e \<Rightarrow> (fail r 422 ''validation_failed'' e, d)
                | Inr scopes \<Rightarrow>
                    (case requireIfMatch r of
                       Inl response \<Rightarrow> (response, d)
                     | Inr expected \<Rightarrow>
                         let p = mustPrincipal r; projectUID = hq_path r ''project_uid''; accountUID = hq_path r ''service_account_uid'';
                             failed = ''could not update service account'';
                             input = raw\<lparr>ua_Name := map_option TrimSpace (ua_Name raw), ua_Description := map_option TrimSpace (ua_Description raw),
                                         ua_Scopes := scopes\<rparr> in
                         if ca_flt c ''begin transaction'' then (fail r 500 ''internal_error'' failed, d)
                         else (case query_row sv c ''lock service account'' [accountUID, projectUID]
                                      (own_account d (p_TenantUID p) projectUID accountUID) (db_service_accounts d) of
                           NoRows \<Rightarrow> (fail r 404 ''service_account_not_found'' ''Service account was not found'', d)
                         | QueryError \<Rightarrow> (fail r 500 ''internal_error'' failed, d)
                         | Row old \<Rightarrow>
                             if sa_version old \<noteq> expected then
                               (version_conflict r (sa_version old) ''service account changed; fetch the latest representation and retry'', d)
                             else (case commit_tx c (update_account_tx c p projectUID accountUID input old d) of
                               None \<Rightarrow> (fail r 500 ''internal_error'' failed, d)
                             | Some d' \<Rightarrow>
                                 (case loadServiceAccount sv c (p_TenantUID p) projectUID accountUID d' of
                                    Row a \<Rightarrow> (setVersionETag (sa_version a) (writeJSON 200 (shown_account d' a)), d')
                                  | _ \<Rightarrow> (fail r 500 ''internal_error'' ''could not load updated service account'', d')))))))) "

definition delete_account_row :: "call \<Rightarrow> service_account_row \<Rightarrow> service_account_row" where
  "delete_account_row c a =
     a\<lparr>sa_status := ''disabled'', sa_version := sa_version a + 1, sa_updated_at := ca_now c,
       sa_disabled_at := coalesce (sa_disabled_at a) (ca_now c), sa_deleted_at := Some (ca_now c)\<rparr>"

definition delete_account_tx :: "call \<Rightarrow> principal \<Rightarrow> uid \<Rightarrow> uid \<Rightarrow> db \<Rightarrow> db option" where
  "delete_account_tx c p projectUID accountUID d =
     Option.bind (write_accounts c (\<lambda>a. sa_uid a = accountUID) (delete_account_row c) d) (\<lambda>d.
     Option.bind (withdraw_credentials c p accountUID ''service_account_deleted'' d)
       (project_audit c (p_TenantUID p) projectUID ''tenant_member'' (p_MemberUID p) ''service_account.deleted'' ''service_account'' accountUID (JObj [])))"

definition deleteServiceAccount :: "server \<Rightarrow> call \<Rightarrow> handler" where
  "deleteServiceAccount sv c r d =
     (case requireIfMatch r of
        Inl response \<Rightarrow> (response, d)
      | Inr expected \<Rightarrow>
          let p = mustPrincipal r; projectUID = hq_path r ''project_uid''; accountUID = hq_path r ''service_account_uid'';
              failed = ''could not delete service account'' in
          if ca_flt c ''begin transaction'' then (fail r 500 ''internal_error'' failed, d)
          else (case query_row sv c ''lock service account'' [accountUID, projectUID]
                       (own_account d (p_TenantUID p) projectUID accountUID) (db_service_accounts d) of
            NoRows \<Rightarrow> (fail r 404 ''service_account_not_found'' ''Service account was not found'', d)
          | QueryError \<Rightarrow> (fail r 500 ''internal_error'' failed, d)
          | Row old \<Rightarrow>
              if sa_version old \<noteq> expected then
                (version_conflict r (sa_version old) ''service account changed; fetch the latest representation and retry'', d)
              else (case commit_tx c (delete_account_tx c p projectUID accountUID d) of
                None \<Rightarrow> (fail r 500 ''internal_error'' failed, d)
              | Some d' \<Rightarrow> (no_content 204, d'))))"

section \<open>Credentials\<close>

definition credential_json :: "string \<Rightarrow> string \<Rightarrow> service_credential_row \<Rightarrow> json" where
  "credential_json status plain k =
     JObj ([(''uid'', JStr (cr_uid k)), (''service_account_uid'', JStr (cr_service_account_uid k)),
            (''kind'', JStr (if cr_external_subject k = None then ''standard'' else ''external_platform'')), (''name'', JStr (cr_name k)),
            (''prefix'', JStr (cr_prefix k)), (''fingerprint'', JStr (cr_fingerprint k)), (''status'', JStr status),
            (''created_by_member_uid'', json_option JStr (cr_created_by_member_uid k)), (''created_at'', JNum (cr_created_at k)),
            (''expires_at'', JNum (cr_expires_at k)), (''last_used_at'', json_option JNum (cr_last_used_at k)),
            (''revoked_at'', json_option JNum (cr_revoked_at k)), (''revoked_by_member_uid'', json_option JStr (cr_revoked_by_member_uid k)),
            (''revocation_reason'', json_option JStr (cr_revocation_reason k))] @
           (if plain = [] then [] else [(''secret'', JStr plain)]))"

definition shown_credential :: "time \<Rightarrow> service_credential_row \<Rightarrow> json" where
  "shown_credential now k =
     credential_json (if cr_status k = ''active'' \<and> cr_expires_at k \<le> now then ''expired'' else cr_status k) [] k"

definition serviceAccountExists :: "server \<Rightarrow> call \<Rightarrow> uid \<Rightarrow> uid \<Rightarrow> uid \<Rightarrow> db \<Rightarrow> bool" where
  "serviceAccountExists sv c tenantUID projectUID accountUID d \<longleftrightarrow>
     \<not> ca_flt c ''service account exists'' \<and> uuid_ok sv accountUID \<and> uuid_ok sv projectUID \<and>
     list_ex (own_account d tenantUID projectUID accountUID) (db_service_accounts d)"

definition listServiceCredentials :: "server \<Rightarrow> call \<Rightarrow> handler" where
  "listServiceCredentials sv c r d =
     (let accountUID = hq_path r ''service_account_uid'' in
      if \<not> serviceAccountExists sv c (p_TenantUID (mustPrincipal r)) (hq_path r ''project_uid'') accountUID d then
        (fail r 404 ''service_account_not_found'' ''Service account was not found'', d)
      else list_page sv c ''list service credentials'' ''could not load service credentials'' (\<lambda>k. (cr_created_at k, cr_uid k))
        (\<lambda>k. cr_service_account_uid k = accountUID) (shown_credential (ca_now c)) db_service_credentials r d)"

definition getServiceCredential :: "server \<Rightarrow> call \<Rightarrow> handler" where
  "getServiceCredential sv c r d =
     (let projectUID = hq_path r ''project_uid''; accountUID = hq_path r ''service_account_uid''; credentialUID = hq_path r ''credential_uid'' in
      case query_row sv c ''load service credential'' [credentialUID, accountUID, projectUID]
             (\<lambda>k. cr_uid k = credentialUID \<and> cr_service_account_uid k = accountUID \<and>
                  list_ex (own_account d (p_TenantUID (mustPrincipal r)) projectUID accountUID) (db_service_accounts d)) (db_service_credentials d) of
        NoRows \<Rightarrow> (fail r 404 ''service_credential_not_found'' ''Service credential was not found'', d)
      | QueryError \<Rightarrow> (fail r 500 ''internal_error'' ''could not load service credential'', d)
      | Row k \<Rightarrow> (writeJSON 200 (shown_credential (ca_now c) k), d))"

record createServiceCredentialInput =
  ki_Name :: string
  ki_ExpiresAt :: "time option"

definition credential_expiry :: "time \<Rightarrow> createServiceCredentialInput \<Rightarrow> time" where
  "credential_expiry now input = (case ki_ExpiresAt input of None \<Rightarrow> now + serviceCredentialDefaultTTL | Some t \<Rightarrow> t)"

definition bad_credential_input :: "time \<Rightarrow> createServiceCredentialInput \<Rightarrow> bool" where
  "bad_credential_input now input \<longleftrightarrow> ki_Name input = [] \<or> length (ki_Name input) > 100 \<or>
     \<not> credential_expiry now input > now + serviceCredentialMinimumTTL \<or> credential_expiry now input > now + serviceCredentialMaximumTTL"

text \<open>The public part of a key: its kind, the environment and sixteen digits of a UUID.\<close>

definition key_prefix :: "call \<Rightarrow> string \<Rightarrow> string \<Rightarrow> string" where
  "key_prefix c kind environment =
     kind @ (if environment = ''production'' then ''live'' else ''test'') @ ''_'' @ take 16 (filter (\<lambda>x. x \<noteq> CHR ''-'') (ca_uid c ''key prefix''))"

definition key_fingerprint :: "server \<Rightarrow> string \<Rightarrow> string" where
  "key_fingerprint sv plain = ''sha256:'' @ take 24 (hex_EncodeToString (Sum256 sv (bytes_of plain)))"

definition new_credential :: "server \<Rightarrow> call \<Rightarrow> principal \<Rightarrow> uid \<Rightarrow> string \<Rightarrow> createServiceCredentialInput \<Rightarrow> string \<Rightarrow> service_credential_row" where
  "new_credential sv c p accountUID pfx input plain =
     \<lparr>cr_uid = ca_uid c ''service credential'', cr_service_account_uid = accountUID, cr_name = ki_Name input, cr_prefix = pfx,
      cr_fingerprint = key_fingerprint sv plain, cr_secret_hash = SecretHash_of sv plain, cr_effective_scopes = None, cr_external_subject = None,
      cr_external_integration_id = None, cr_status = ''active'', cr_created_by_member_uid = Some (p_MemberUID p), cr_created_at = ca_now c,
      cr_expires_at = credential_expiry (ca_now c) input, cr_last_used_at = None, cr_revoked_at = None, cr_revoked_by_member_uid = None,
      cr_revocation_reason = None\<rparr>"

definition insert_credential :: "call \<Rightarrow> service_credential_row \<Rightarrow> db \<Rightarrow> db option" where
  "insert_credential c k = stmt c ''insert service credential'' (\<lambda>d.
     if list_ex (\<lambda>x. cr_uid x = cr_uid k \<or> cr_prefix x = cr_prefix k \<or> cr_fingerprint x = cr_fingerprint k) (db_service_credentials d) \<or>
        \<not> cr_expires_at k > cr_created_at k then None
     else Some (d\<lparr>db_service_credentials := db_service_credentials d @ [k]\<rparr>))"

definition standard_usable :: "time \<Rightarrow> uid \<Rightarrow> service_credential_row \<Rightarrow> bool" where
  "standard_usable now accountUID k \<longleftrightarrow> cr_service_account_uid k = accountUID \<and> cr_external_subject k = None \<and>
     cr_status k = ''active'' \<and> cr_expires_at k > now"

definition credential_created :: "server \<Rightarrow> uid \<Rightarrow> string \<Rightarrow> service_credential_row \<Rightarrow> StoredHTTPResponse" where
  "credential_created sv projectUID plain k =
     \<lparr>sr_Status = 201,
      sr_Headers = Some [(''Content-Type'', [''application/json'']), (''Cache-Control'', [''no-store'']),
        (''Location'', [''/v1/projects/'' @ projectUID @ ''/service-accounts/'' @ cr_service_account_uid k @ ''/credentials/'' @ cr_uid k])],
      sr_Body = Some (json_text sv (credential_json ''active'' plain k) @ [char_of (10 :: nat)])\<rparr>"

definition create_credential_tx ::
  "server \<Rightarrow> call \<Rightarrow> createServiceCredentialInput \<Rightarrow> IdempotencyRequest \<Rightarrow> uid \<Rightarrow> string \<Rightarrow> handler" where
  "create_credential_tx sv c input request lease randomSecret r d =
     (let p = mustPrincipal r; projectUID = hq_path r ''project_uid''; accountUID = hq_path r ''service_account_uid'';
          failed = ''could not create service credential''; refuse = completeServiceAccountProblem sv c r request lease in
      if ca_flt c ''begin transaction'' then (fail r 500 ''internal_error'' failed, d)
      else (case query_row sv c ''lock service account'' [accountUID, projectUID]
                   (own_account d (p_TenantUID p) projectUID accountUID) (db_service_accounts d) of
        NoRows \<Rightarrow> refuse 404 ''service_account_not_found'' ''Service account was not found'' d
      | QueryError \<Rightarrow> (fail r 500 ''internal_error'' failed, d)
      | Row a \<Rightarrow>
          let project = project_of d projectUID; pfx = key_prefix c ''ca_sk_'' (pj_environment project); plain = pfx @ ''.'' @ randomSecret;
              k = new_credential sv c p accountUID pfx input plain in
          if sa_status a \<noteq> ''active'' then refuse 409 ''service_account_disabled'' ''enable the service account before issuing a credential'' d
          else if pj_status project \<noteq> ''active'' then refuse 409 ''project_disabled'' ''enable the Project before issuing a credential'' d
          else if ca_flt c ''count service credentials'' then (fail r 500 ''internal_error'' failed, d)
          else if sql_count (standard_usable (ca_now c) accountUID) (db_service_credentials d) \<ge> serviceCredentialActiveLimit then
            refuse 409 ''service_credential_limit'' ''revoke an active credential before issuing another'' d
          else respond_stored sv c r request lease (credential_created sv projectUID plain k)
                 (Option.bind (insert_credential c k d)
                    (project_audit c (p_TenantUID p) projectUID ''tenant_member'' (p_MemberUID p) ''service_credential.created'' ''service_credential'' (cr_uid k)
                       (JObj [(''service_account_uid'', JStr accountUID), (''expires_at'', JNum (cr_expires_at k)), (''fingerprint'', JStr (cr_fingerprint k))])))
                 failed d))"

definition createServiceCredential :: "server \<Rightarrow> createServiceCredentialInput option \<Rightarrow> call \<Rightarrow> handler" where
  "createServiceCredential sv body c r d =
     (case body of
        None \<Rightarrow> (invalid_json r, d)
      | Some raw \<Rightarrow>
          let input = raw\<lparr>ki_Name := TrimSpace (ki_Name raw)\<rparr> in
          if bad_credential_input (ca_now c) input then
            (fail r 422 ''validation_failed'' ''name is required and expires_at must be between 5 minutes and 365 days from now'', d)
          else if hq_header r ''Idempotency-Key'' = [] then (fail r 400 ''idempotency_key_required'' ''Idempotency-Key is required'', d)
          else let request = create_request sv (mustPrincipal r) ''service_credentials.create'' (hq_header r ''Idempotency-Key'')
                     (JObj [(''project_uid'', JStr (hq_path r ''project_uid'')), (''service_account_uid'', JStr (hq_path r ''service_account_uid'')),
                            (''input'', JObj ((''name'', JStr (ki_Name input)) #
                               (case ki_ExpiresAt input of None \<Rightarrow> [] | Some t \<Rightarrow> [(''expires_at'', JNum t)])))]) in
            (case beginIdempotentRequest sv c r request d of
               (Inl response, d1) \<Rightarrow> (response, d1)
             | (Inr claim, d1) \<Rightarrow>
                 (case RandomToken (ca_rand c ''service credential'') of
                    None \<Rightarrow> (fail r 500 ''internal_error'' ''could not create service credential'', d1)
                  | Some randomSecret \<Rightarrow> create_credential_tx sv c input request (cl_LeaseUID claim) randomSecret r d1)))"

text \<open>The target of a revocation; a deleted account's credentials can be revoked too.\<close>

definition credential_hit :: "db \<Rightarrow> uid \<Rightarrow> uid \<Rightarrow> uid \<Rightarrow> uid \<Rightarrow> service_credential_row \<Rightarrow> bool" where
  "credential_hit d tenantUID projectUID accountUID credentialUID k \<longleftrightarrow> cr_uid k = credentialUID \<and> cr_service_account_uid k = accountUID \<and>
     list_ex (\<lambda>a. sa_uid a = accountUID \<and> sa_project_uid a = projectUID) (db_service_accounts d) \<and>
     list_ex (own_project tenantUID projectUID) (db_projects d)"

definition revoke_credential_row :: "call \<Rightarrow> principal \<Rightarrow> service_credential_row \<Rightarrow> service_credential_row" where
  "revoke_credential_row c p k =
     k\<lparr>cr_status := ''revoked'', cr_revoked_at := coalesce (cr_revoked_at k) (ca_now c),
       cr_revoked_by_member_uid := coalesce (cr_revoked_by_member_uid k) (p_MemberUID p),
       cr_revocation_reason := coalesce (cr_revocation_reason k) ''revoked_by_member''\<rparr>"

definition revokeServiceCredential :: "server \<Rightarrow> call \<Rightarrow> handler" where
  "revokeServiceCredential sv c r d =
     (let p = mustPrincipal r; projectUID = hq_path r ''project_uid''; accountUID = hq_path r ''service_account_uid''; credentialUID = hq_path r ''credential_uid'';
          hit = credential_hit d (p_TenantUID p) projectUID accountUID credentialUID in
      case query_row sv c ''revoke service credential'' [credentialUID, accountUID, projectUID] hit (db_service_credentials d) of
        NoRows \<Rightarrow> (fail r 404 ''service_credential_not_found'' ''Service credential was not found'', d)
      | QueryError \<Rightarrow> (fail r 500 ''internal_error'' ''could not revoke service credential'', d)
      | Row old \<Rightarrow>
          let d' = d\<lparr>db_service_credentials := sql_update hit (revoke_credential_row c p) (db_service_credentials d)\<rparr> in
          (no_content 204,
           if cr_status old = ''active'' then
             audit_event c (p_TenantUID p) projectUID ''tenant_member'' (p_MemberUID p) ''service_credential.revoked'' ''service_credential'' credentialUID
               (JObj [(''service_account_uid'', JStr accountUID)]) d'
           else d'))"

section \<open>What the handlers do\<close>

primrec account_write :: "server \<Rightarrow> updateServiceAccountInput option change \<Rightarrow> call \<Rightarrow> handler" where
  "account_write sv (Update body) = updateServiceAccount sv body"
| "account_write sv Delete = deleteServiceAccount sv"

definition locked_account :: "http_request \<Rightarrow> db \<Rightarrow> service_account_row option" where
  "locked_account r d =
     sql_row (own_account d (p_TenantUID (mustPrincipal r)) (hq_path r ''project_uid'') (hq_path r ''service_account_uid'')) (db_service_accounts d)"

lemma account_write_cases:
  assumes "account_write sv x c r d = (w, d')" "d' \<noteq> d"
  obtains (updated) input old where "locked_account r d = Some old" "requireIfMatch r = Inr (sa_version old)"
      "update_account_tx c (mustPrincipal r) (hq_path r ''project_uid'') (hq_path r ''service_account_uid'') input old d = Some d'"
  | (deleted) old where "locked_account r d = Some old" "requireIfMatch r = Inr (sa_version old)"
      "delete_account_tx c (mustPrincipal r) (hq_path r ''project_uid'') (hq_path r ''service_account_uid'') d = Some d'"
proof (cases x)
  case (Update body)
  then have "\<exists>input old. locked_account r d = Some old \<and> requireIfMatch r = Inr (sa_version old) \<and>
      update_account_tx c (mustPrincipal r) (hq_path r ''project_uid'') (hq_path r ''service_account_uid'') input old d = Some d'"
    using assms unfolding locked_account_def
    by (auto simp: updateServiceAccount_def Let_def split: option.splits if_splits sum.splits query.splits dest!: query_row_RowD commit_txD)
  then show ?thesis using updated by blast
next
  case Delete
  then have "\<exists>old. locked_account r d = Some old \<and> requireIfMatch r = Inr (sa_version old) \<and>
      delete_account_tx c (mustPrincipal r) (hq_path r ''project_uid'') (hq_path r ''service_account_uid'') d = Some d'"
    using assms unfolding locked_account_def
    by (auto simp: deleteServiceAccount_def Let_def split: option.splits if_splits sum.splits query.splits dest!: query_row_RowD commit_txD)
  then show ?thesis using deleted by blast
qed

lemma update_account_shape:
  assumes "update_account_tx c p projectUID accountUID input old d = Some d'"
  shows "db_service_accounts d' = sql_update (\<lambda>a. sa_uid a = accountUID \<and> sa_project_uid a = projectUID) (update_account_row c input old) (db_service_accounts d) \<and>
    db_projects d' = db_projects d \<and>
    db_service_credentials d' = (if new_status (ua_Status input) (sa_status old) = ''disabled''
      then sql_update (\<lambda>k. cr_service_account_uid k = accountUID \<and> cr_status k = ''active'') (withdraw_credential c p ''service_account_disabled'') (db_service_credentials d)
      else db_service_credentials d)"
  using assms by (cases "new_status (ua_Status input) (sa_status old) = ''disabled''")
    (auto simp: update_account_tx_def Let_def write_accounts_def withdraw_credentials_def project_audit_def stmt_def add_audit_def
      bind_eq_Some_conv split: if_split_asm)

lemma delete_account_shape:
  assumes "delete_account_tx c p projectUID accountUID d = Some d'"
  shows "db_service_accounts d' = sql_update (\<lambda>a. sa_uid a = accountUID) (delete_account_row c) (db_service_accounts d) \<and> db_projects d' = db_projects d \<and>
    db_service_credentials d' = sql_update (\<lambda>k. cr_service_account_uid k = accountUID \<and> cr_status k = ''active'') (withdraw_credential c p ''service_account_deleted'') (db_service_credentials d)"
  using assms by (auto simp: delete_account_tx_def write_accounts_def withdraw_credentials_def project_audit_def stmt_def add_audit_def
      bind_eq_Some_conv split: if_splits)

lemma account_row_simps [simp]:
  "sa_uid (update_account_row c input old a) = sa_uid a" "sa_uid (delete_account_row c a) = sa_uid a"
  "sa_project_uid (update_account_row c input old a) = sa_project_uid a" "sa_project_uid (delete_account_row c a) = sa_project_uid a"
  "sa_deleted_at (update_account_row c input old a) = sa_deleted_at a" "sa_version (update_account_row c input old a) = sa_version a + 1"
  by (simp_all add: update_account_row_def delete_account_row_def)

definition account_version :: "http_request \<Rightarrow> db \<Rightarrow> int option" where
  "account_version r d = map_option sa_version (locked_account r d)"

lemma own_account_projects: "db_projects d' = db_projects d \<Longrightarrow> own_account d' t p u = own_account d t p u"
  by (rule ext) (simp add: own_account_def)

lemma account_advances:
  assumes "account_write sv x c r d = (w, d')" "d' \<noteq> d" "account_version r d = Some v"
  shows "account_version r d' \<in> {None, Some (v + 1)}"
  using assms(1,2)
proof (cases rule: account_write_cases)
  case (updated input old)
  note shape = update_account_shape [OF updated(3)]
  have "locked_account r d' = map_option (\<lambda>a. if sa_uid a = hq_path r ''service_account_uid'' \<and> sa_project_uid a = hq_path r ''project_uid''
      then update_account_row c input old a else a) (locked_account r d)"
    using shape unfolding locked_account_def own_account_projects [OF conjunct1 [OF conjunct2 [OF shape]]]
    by (elim conjE, simp only:, intro sql_row_update) (simp add: own_account_def)
  then show ?thesis using updated(1) assms(3) sql_row_SomeD [OF updated(1) [unfolded locked_account_def]]
    by (auto simp: account_version_def own_account_def)
next
  case (deleted old)
  have "locked_account r d' = None"
    using delete_account_shape [OF deleted(3)] unfolding locked_account_def
    by (elim conjE, simp only:, intro sql_row_update_gone) (auto simp: own_account_def delete_account_row_def)
  then show ?thesis by (simp add: account_version_def)
qed

interpretation account_rows: versioned account_version "account_write sv" for sv
proof unfold_locales
  fix x c r d w d'
  assume "account_write sv x c r d = (w, d')" "d' \<noteq> d"
  then show "\<exists>v. requireIfMatch r = Inr v \<and> account_version r d = Some v"
    by (cases rule: account_write_cases) (simp_all add: account_version_def)
qed (rule account_advances)

section \<open>A new credential\<close>

lemma refusal_keeps:
  assumes "completeServiceAccountProblem sv c r request lease status code detail d = (w, d')"
  shows "\<exists>t. d' = d\<lparr>db_idempotency := t\<rparr>"
proof (cases "d' = d")
  case True
  then show ?thesis by (intro exI [of _ "db_idempotency d"]) simp
next
  case False
  with assms show ?thesis unfolding completeServiceAccountProblem_def by (cases rule: respond_stored_cases) auto
qed

lemma insert_credential_shape:
  assumes "Option.bind (insert_credential c k d) (project_audit c t p at au action tt tu m) = Some d'"
  shows "\<exists>a. d' = d\<lparr>db_service_credentials := db_service_credentials d @ [k], db_audit := a\<rparr> \<and>
    \<not> list_ex (\<lambda>x. cr_uid x = cr_uid k \<or> cr_prefix x = cr_prefix k \<or> cr_fingerprint x = cr_fingerprint k) (db_service_credentials d)"
  using assms by (auto simp: insert_credential_def project_audit_def add_audit_def stmt_def bind_eq_Some_conv split: if_splits)

lemma create_credential_tx_cases:
  assumes "create_credential_tx sv c input request lease rnd r d = (w, d')"
  obtains (refused) t where "d' = d\<lparr>db_idempotency := t\<rparr>"
  | (created) a e t k plain where "a \<in> set (db_service_accounts d)"
      "own_account d (p_TenantUID (mustPrincipal r)) (hq_path r ''project_uid'') (hq_path r ''service_account_uid'') a"
      "sa_status a = ''active''" "pj_status (project_of d (hq_path r ''project_uid'')) = ''active''"
      "sql_count (standard_usable (ca_now c) (hq_path r ''service_account_uid'')) (db_service_credentials d) < 2"
      "plain = key_prefix c ''ca_sk_'' (pj_environment (project_of d (hq_path r ''project_uid''))) @ ''.'' @ rnd"
      "k = new_credential sv c (mustPrincipal r) (hq_path r ''service_account_uid'')
             (key_prefix c ''ca_sk_'' (pj_environment (project_of d (hq_path r ''project_uid'')))) input plain"
      "\<not> list_ex (\<lambda>x. cr_uid x = cr_uid k \<or> cr_prefix x = cr_prefix k \<or> cr_fingerprint x = cr_fingerprint k) (db_service_credentials d)"
      "d' = d\<lparr>db_service_credentials := db_service_credentials d @ [k], db_audit := e, db_idempotency := t\<rparr>"
      "w = writeStoredResponse (credential_created sv (hq_path r ''project_uid'') plain k)"
proof (cases "\<exists>t. d' = d\<lparr>db_idempotency := t\<rparr>")
  case True
  then show ?thesis using refused by blast
next
  case False
  let ?u = "hq_path r ''service_account_uid''" and ?j = "hq_path r ''project_uid''"
  define plain where "plain = key_prefix c ''ca_sk_'' (pj_environment (project_of d ?j)) @ ''.'' @ rnd"
  define k where "k = new_credential sv c (mustPrincipal r) ?u (key_prefix c ''ca_sk_'' (pj_environment (project_of d ?j))) input plain"
  have kept: "d' \<noteq> d" using False by (metis db.surjective db.update_convs(32))
  have no: "completeServiceAccountProblem sv c r request lease status code detail d \<noteq> (w, d')" for status code detail
    using False refusal_keeps by blast
  obtain a m msg where row: "sql_row (own_account d (p_TenantUID (mustPrincipal r)) ?j ?u) (db_service_accounts d) = Some a"
    and ok: "sa_status a = ''active''" "pj_status (project_of d ?j) = ''active''"
    and few: "sql_count (standard_usable (ca_now c) ?u) (db_service_credentials d) < 2"
    and resp: "respond_stored sv c r request lease (credential_created sv ?j plain k)
      (Option.bind (insert_credential c k d) (project_audit c (p_TenantUID (mustPrincipal r)) ?j ''tenant_member'' (p_MemberUID (mustPrincipal r))
         ''service_credential.created'' ''service_credential'' (cr_uid k) m)) msg d = (w, d')"
    using assms no kept unfolding create_credential_tx_def Let_def plain_def [symmetric] k_def [symmetric]
    by (auto simp: serviceCredentialActiveLimit_def split: if_splits query.splits dest!: query_row_RowD)
  from resp show ?thesis
  proof (cases rule: respond_stored_cases)
    case failed
    then show ?thesis using kept by simp
  next
    case (stored d2 t)
    then obtain e where d2: "d2 = d\<lparr>db_service_credentials := db_service_credentials d @ [k], db_audit := e\<rparr>"
      "\<not> list_ex (\<lambda>x. cr_uid x = cr_uid k \<or> cr_prefix x = cr_prefix k \<or> cr_fingerprint x = cr_fingerprint k) (db_service_credentials d)"
      using insert_credential_shape by blast
    note new = created [where a = a and k = k and e = e and t = t and plain = plain]
    show ?thesis by (rule new) (use sql_row_SomeD [OF row] ok few plain_def k_def d2 stored in simp_all)
  qed
qed

lemma create_credential_cases:
  assumes "createServiceCredential sv body c r d = (w, d')"
  obtains (refused) t where "d' = d\<lparr>db_idempotency := t\<rparr>"
  | (created) a raw rnd e t k plain where "body = Some raw" "RandomToken (ca_rand c ''service credential'') = Some rnd"
      "\<not> bad_credential_input (ca_now c) (raw\<lparr>ki_Name := TrimSpace (ki_Name raw)\<rparr>)"
      "a \<in> set (db_service_accounts d)"
      "own_account d (p_TenantUID (mustPrincipal r)) (hq_path r ''project_uid'') (hq_path r ''service_account_uid'') a"
      "sa_status a = ''active''" "pj_status (project_of d (hq_path r ''project_uid'')) = ''active''"
      "sql_count (standard_usable (ca_now c) (hq_path r ''service_account_uid'')) (db_service_credentials d) < 2"
      "plain = key_prefix c ''ca_sk_'' (pj_environment (project_of d (hq_path r ''project_uid''))) @ ''.'' @ rnd"
      "k = new_credential sv c (mustPrincipal r) (hq_path r ''service_account_uid'')
             (key_prefix c ''ca_sk_'' (pj_environment (project_of d (hq_path r ''project_uid'')))) (raw\<lparr>ki_Name := TrimSpace (ki_Name raw)\<rparr>) plain"
      "\<not> list_ex (\<lambda>x. cr_uid x = cr_uid k \<or> cr_prefix x = cr_prefix k \<or> cr_fingerprint x = cr_fingerprint k) (db_service_credentials d)"
      "d' = d\<lparr>db_service_credentials := db_service_credentials d @ [k], db_audit := e, db_idempotency := t\<rparr>"
      "w = writeStoredResponse (credential_created sv (hq_path r ''project_uid'') plain k)"
proof (cases "\<exists>t. d' = d\<lparr>db_idempotency := t\<rparr>")
  case True
  then show ?thesis using refused by blast
next
  case False
  let ?input = "\<lambda>raw. raw\<lparr>ki_Name := TrimSpace (ki_Name raw)\<rparr>"
  have kept: "d' \<noteq> d" using False by (metis db.surjective db.update_convs(32))
  obtain raw request res d1 where body: "body = Some raw" and ok: "\<not> bad_credential_input (ca_now c) (?input raw)"
    and begun: "beginIdempotentRequest sv c r request d = (res, d1)"
    and step: "d' = d1 \<or> (\<exists>rnd lease. RandomToken (ca_rand c ''service credential'') = Some rnd \<and>
        create_credential_tx sv c (?input raw) request lease rnd r d1 = (w, d'))"
    using assms kept by (auto simp: createServiceCredential_def Let_def split: option.splits if_splits sum.splits prod.splits) blast+
  from begun obtain i where d1: "d1 = d\<lparr>db_idempotency := i\<rparr>" by (rule begin_shape)
  with step False obtain rnd lease where rnd: "RandomToken (ca_rand c ''service credential'') = Some rnd"
    and tx: "create_credential_tx sv c (?input raw) request lease rnd r d1 = (w, d')" by blast
  have own: "own_account d1 = own_account d" "project_of d1 = project_of d"
    by (intro ext; simp add: d1 own_account_def project_of_def)+
  from tx show ?thesis
  proof (cases rule: create_credential_tx_cases)
    case (refused t)
    then have "d' = d\<lparr>db_idempotency := t\<rparr>" using d1 by simp
    with False show ?thesis by blast
  next
    case (created a e t k plain)
    note new = that(2) [OF body rnd ok, where a = a and k = k and e = e and t = t and plain = plain]
    show ?thesis by (rule new) (use created d1 own in simp_all)
  qed
qed

lemma before_last_append: "x \<notin> set rest \<Longrightarrow> before_last x (p @ x # rest) = Some p"
proof -
  assume x: "x \<notin> set rest"
  have "dropWhile (\<lambda>c. c \<noteq> x) (rev rest @ x # rev p) = x # rev p"
    using x by (subst dropWhile_append2) auto
  then show ?thesis by (simp add: before_last_def)
qed

lemma token_undotted: "RandomToken rnd = Some t \<Longrightarrow> CHR ''.'' \<notin> set t"
  using RawURLEncode_chars by (auto simp: RandomToken_def url_alphabet_def split: option.splits)

text \<open>A key that is on record for an active account of an active project passes the guard.\<close>

lemma own_account_project:
  assumes "own_account d tenantUID projectUID accountUID a" "distinct (map pj_uid (db_projects d))"
  obtains p where "p \<in> set (db_projects d)" "own_project tenantUID projectUID p" "project_of d projectUID = p" "pj_uid p = projectUID" "pj_tenant_uid p = tenantUID"
proof -
  obtain p where p: "p \<in> set (db_projects d)" "own_project tenantUID projectUID p" using assms(1) by (auto simp: own_account_def list_ex_iff)
  have "sql_row (\<lambda>x. pj_uid x = projectUID) (db_projects d) = Some p"
    using p inj_onD [OF distinct_map_inj [OF assms(2)]] by (intro sql_row_unique) (auto simp: own_project_def)
  then show ?thesis using that p by (simp add: project_of_def own_project_def)
qed

lemma credential_answers:
  assumes "k \<in> set (db_service_credentials d)" "distinct (map cr_prefix (db_service_credentials d))" "cr_status k = ''active''" "ca_now c < cr_expires_at k"
    and "a \<in> set (db_service_accounts d)" "distinct (map sa_uid (db_service_accounts d))" "sa_uid a = cr_service_account_uid k"
    and "sa_status a = ''active''" "sa_deleted_at a = None"
    and "p \<in> set (db_projects d)" "distinct (map pj_uid (db_projects d))" "pj_uid p = sa_project_uid a" "pj_status p = ''active''"
    and "cr_secret_hash k = SecretHash_of sv plain" "plain = cr_prefix k @ ''.'' @ rest" "CHR ''.'' \<notin> set rest" "cr_prefix k \<noteq> []"
    and "hq_header r ''Authorization'' = ''Bearer '' @ plain" "hq_path r ''project_uid'' \<in> {[], pj_uid p}" "ca_flt c = no_faults"
  shows "serviceCredential sv c scope next r d =
    (if scope \<in> set (effective_scopes k a)
     then next (r\<lparr>hq_service := Some \<lparr>serviceCredentialUID = cr_uid k, serviceAccountUID = sa_uid a, serviceTenantUID = pj_tenant_uid p,
            serviceProjectUID = pj_uid p\<rparr>\<rparr>) (use_credential c k d)
     else (with_header ''WWW-Authenticate'' (''Bearer error=\"insufficient_scope\", scope=\"'' @ scope @ ''\"'')
             (fail r 403 ''insufficient_scope'' ''service account does not grant the required scope''), d))"
proof -
  have account: "sql_row (\<lambda>x. sa_uid x = cr_service_account_uid k \<and> sa_status x = ''active'' \<and> sa_deleted_at x = None) (db_service_accounts d) = Some a"
    using assms(5-9) inj_onD [OF distinct_map_inj [OF assms(6)]] by (intro sql_row_unique) auto
  have project: "sql_row (\<lambda>x. pj_uid x = sa_project_uid a \<and> pj_status x = ''active'') (db_projects d) = Some p"
    using assms(10-13) inj_onD [OF distinct_map_inj [OF assms(11)]] by (intro sql_row_unique) auto
  have key: "sql_row (\<lambda>x. cr_prefix x = cr_prefix k \<and> cr_status x = ''active'' \<and> cr_expires_at x > ca_now c \<and>
      (case sql_row (\<lambda>a. sa_uid a = cr_service_account_uid x \<and> sa_status a = ''active'' \<and> sa_deleted_at a = None) (db_service_accounts d) of
         None \<Rightarrow> False | Some a \<Rightarrow> sql_row (\<lambda>p. pj_uid p = sa_project_uid a \<and> pj_status p = ''active'') (db_projects d) \<noteq> None))
      (db_service_credentials d) = Some k"
    using assms(1-4) account project inj_onD [OF distinct_map_inj [OF assms(2)]] by (intro sql_row_unique) auto
  have row: "service_credential_row (ca_now c) (cr_prefix k) d = Some (k, a, p)"
    unfolding service_credential_row_def Let_def key option.case account project by simp
  have cut: "Cut (CHR '' '') (hq_header r ''Authorization'') = Some (''Bearer'', plain)"
    using Cut_append [of "CHR '' ''" "''Bearer''" plain] by (simp add: assms(18))
  have pfx: "before_last (CHR ''.'') plain = Some (cr_prefix k)" using before_last_append [OF assms(16), of "cr_prefix k"] by (simp add: assms(15))
  have bearer: "is_bearer ''Bearer''" by code_simp
  have "cr_secret_hash k = SecretHash_of sv plain \<and> (hq_path r ''project_uid'' = [] \<or> sa_project_uid a = hq_path r ''project_uid'')"
    using assms(12,14,19) by auto
  then have "presented sv c r d = Some (k, a, p)"
    unfolding presented_def cut option.case prod.case pfx row using bearer assms(17,20) by simp
  then show ?thesis using serviceCredential_cases [of sv c r d scope "next"] assms(12) by auto
qed

text \<open>Lemma (issued_credential_admits): a service credential is created only for an active account of an active project of the member's tenant,
  with a bounded name and lifetime, while the account has at most one other usable standard credential. The
  response carries the key, of which only the keyed hash and a fingerprint are stored; until the key expires, a
  request that presents it as bearer token passes the service guard of that project for every scope of the account, and
  runs for the account, project and tenant it was issued for.\<close>

theorem issued_credential_admits:
  assumes "createServiceCredential sv body c r d = (w, d')" and "db_service_credentials d' \<noteq> db_service_credentials d"
    and "distinct (map cr_prefix (db_service_credentials d))" "distinct (map sa_uid (db_service_accounts d))" "distinct (map pj_uid (db_projects d))"
  shows "\<exists>a p k plain. db_service_credentials d' = db_service_credentials d @ [k] \<and> a \<in> set (db_service_accounts d) \<and> p \<in> set (db_projects d) \<and>
    own_account d (p_TenantUID (mustPrincipal r)) (hq_path r ''project_uid'') (hq_path r ''service_account_uid'') a \<and> sa_status a = ''active'' \<and>
    own_project (p_TenantUID (mustPrincipal r)) (sa_project_uid a) p \<and> pj_status p = ''active'' \<and>
    cr_service_account_uid k = sa_uid a \<and> cr_secret_hash k = SecretHash_of sv plain \<and> cr_effective_scopes k = None \<and>
    cr_name k \<noteq> [] \<and> length (cr_name k) \<le> 100 \<and> 5 * Minute < cr_expires_at k - ca_now c \<and> cr_expires_at k - ca_now c \<le> 365 * 24 * Hour \<and>
    sql_count (standard_usable (ca_now c) (sa_uid a)) (db_service_credentials d') \<le> 2 \<and>
    w = writeStoredResponse (credential_created sv (pj_uid p) plain k) \<and>
    (\<forall>c2 r2 scope next. ca_flt c2 = no_faults \<and> ca_now c2 < cr_expires_at k \<and> hq_header r2 ''Authorization'' = ''Bearer '' @ plain \<and>
       hq_path r2 ''project_uid'' \<in> {[], pj_uid p} \<and> scope \<in> set (sa_scopes a) \<longrightarrow>
       serviceCredential sv c2 scope next r2 d' =
         next (r2\<lparr>hq_service := Some \<lparr>serviceCredentialUID = cr_uid k, serviceAccountUID = sa_uid a, serviceTenantUID = p_TenantUID (mustPrincipal r),
                 serviceProjectUID = pj_uid p\<rparr>\<rparr>) (use_credential c2 k d'))"
  using assms(1)
proof (cases rule: create_credential_cases)
  case (refused t)
  then show ?thesis using assms(2) by simp
next
  case (created a raw rnd e t k plain)
  let ?j = "hq_path r ''project_uid''"
  have a: "sa_uid a = hq_path r ''service_account_uid''" "sa_project_uid a = ?j" "sa_deleted_at a = None" using created(5) by (simp_all add: own_account_def)
  obtain p where p: "p \<in> set (db_projects d)" "own_project (p_TenantUID (mustPrincipal r)) ?j p"
    and p2: "project_of d ?j = p" "pj_uid p = ?j" "pj_tenant_uid p = p_TenantUID (mustPrincipal r)" by (rule own_account_project [OF created(5) assms(5)])
  define pfx where "pfx = key_prefix c ''ca_sk_'' (pj_environment p)"
  have k: "cr_prefix k = pfx" "plain = pfx @ ''.'' @ rnd" "cr_service_account_uid k = sa_uid a" "cr_status k = ''active''" "cr_secret_hash k = SecretHash_of sv plain"
      "cr_effective_scopes k = None" "cr_external_subject k = None" "cr_name k = TrimSpace (ki_Name raw)"
      "cr_expires_at k = credential_expiry (ca_now c) (raw\<lparr>ki_Name := TrimSpace (ki_Name raw)\<rparr>)"
    by (simp_all add: created(9,10) new_credential_def a p2 pfx_def)
  have admit: "serviceCredential sv c2 scope next r2 d' =
      next (r2\<lparr>hq_service := Some \<lparr>serviceCredentialUID = cr_uid k, serviceAccountUID = sa_uid a, serviceTenantUID = p_TenantUID (mustPrincipal r),
              serviceProjectUID = pj_uid p\<rparr>\<rparr>) (use_credential c2 k d')"
    if "ca_flt c2 = no_faults" "ca_now c2 < cr_expires_at k" "hq_header r2 ''Authorization'' = ''Bearer '' @ plain"
      "hq_path r2 ''project_uid'' \<in> {[], pj_uid p}" "scope \<in> set (sa_scopes a)" for c2 r2 scope "next"
    unfolding p2(3) [symmetric]
  proof (subst credential_answers [where rest = rnd and k = k and a = a and p = p])
    show "distinct (map cr_prefix (db_service_credentials d'))" using created(11,12) assms(3) by (auto simp: list_ex_iff)
    show "CHR ''.'' \<notin> set rnd" using created(2) by (rule token_undotted)
    show "cr_prefix k \<noteq> []" by (simp add: k(1) pfx_def key_prefix_def)
  qed (use that created(4,6,7,12) assms(4,5) a p p2 k in \<open>simp_all add: effective_scopes_def\<close>)
  have bounds: "5 * Minute < cr_expires_at k - ca_now c" "cr_expires_at k - ca_now c \<le> 365 * 24 * Hour" "cr_name k \<noteq> []" "length (cr_name k) \<le> 100"
    using created(3) k(8,9) by (auto simp: bad_credential_input_def serviceCredentialMaximumTTL_def serviceCredentialMinimumTTL_def)
  have count: "sql_count (standard_usable (ca_now c) (sa_uid a)) (db_service_credentials d') \<le> 2"
    using created(8) by (simp add: created(12) a sql_count_def)
  show ?thesis
    by (intro exI [of _ a] exI [of _ p] exI [of _ k] exI [of _ plain] conjI allI impI)
      (use created p p2 a k bounds count admit in \<open>simp_all\<close>)
qed

section \<open>A withdrawn account\<close>

lemma withdrawn_simps [simp]:
  "cr_status (withdraw_credential c p reason k) = ''revoked''" "cr_service_account_uid (withdraw_credential c p reason k) = cr_service_account_uid k"
  "cr_uid (withdraw_credential c p reason k) = cr_uid k" "cr_prefix (withdraw_credential c p reason k) = cr_prefix k"
  by (simp_all add: withdraw_credential_def)

lemma presentedD:
  assumes "presented sv c r d = Some (k, a, p)"
  shows "k \<in> set (db_service_credentials d) \<and> cr_status k = ''active'' \<and> a \<in> set (db_service_accounts d) \<and> sa_uid a = cr_service_account_uid k \<and>
    ca_now c < cr_expires_at k"
proof -
  obtain pfx where "service_credential_row (ca_now c) pfx d = Some (k, a, p)"
    using assms unfolding presented_def by (auto split: option.splits prod.splits if_splits)
  from service_credential_rowD [OF this] show ?thesis by blast
qed

text \<open>C21 (account_withdrawn): once a service account has been deleted, or disabled by an update, every one of its credentials is revoked,
  including those issued to external platforms, and the service guard admits no request with any of them; the
  credentials of other accounts are untouched.\<close>

theorem account_withdrawn:
  assumes "account_write sv x c r d = (w, d')" "d' \<noteq> d" and "u = hq_path r ''service_account_uid''" and "distinct (map sa_uid (db_service_accounts d))"
    and "list_ex (\<lambda>a. sa_uid a = u \<and> sa_status a = ''disabled'') (db_service_accounts d')"
  shows "list_all (\<lambda>k. cr_service_account_uid k = u \<longrightarrow> cr_status k \<noteq> ''active'') (db_service_credentials d') \<and>
    (case presented sv c2 r2 d' of Some (k, _, _) \<Rightarrow> cr_service_account_uid k \<noteq> u | None \<Rightarrow> True) \<and>
    filter (\<lambda>k. cr_service_account_uid k \<noteq> u) (db_service_credentials d') = filter (\<lambda>k. cr_service_account_uid k \<noteq> u) (db_service_credentials d)"
proof -
  obtain reason where creds: "db_service_credentials d' = sql_update (\<lambda>k. cr_service_account_uid k = u \<and> cr_status k = ''active'')
      (withdraw_credential c (mustPrincipal r) reason) (db_service_credentials d)"
    using assms(1,2)
  proof (cases rule: account_write_cases)
    case (updated input old)
    note shape = update_account_shape [OF updated(3)]
    have old: "old \<in> set (db_service_accounts d)" "sa_uid old = u" "sa_project_uid old = hq_path r ''project_uid''"
      using sql_row_SomeD [OF updated(1) [unfolded locked_account_def]] by (simp_all add: own_account_def assms(3))
    then have new: "update_account_row c input old old \<in> set (db_service_accounts d')" using shape by (force simp: sql_update_def assms(3))
    have "map sa_uid (db_service_accounts d') = map sa_uid (db_service_accounts d)" using shape by (simp add: sql_update_def)
    then have inj: "inj_on sa_uid (set (db_service_accounts d'))" using assms(4) by (metis distinct_map_inj)
    obtain b where b: "b \<in> set (db_service_accounts d')" "sa_uid b = u" "sa_status b = ''disabled''" using assms(5) by (auto simp: list_ex_iff)
    have "b = update_account_row c input old old" using inj_onD [OF inj _ b(1) new] b(2) old(2) by simp
    then have "new_status (ua_Status input) (sa_status old) = ''disabled''" using b(3) by (simp add: update_account_row_def)
    then show ?thesis using that [of "''service_account_disabled''"] shape by (simp add: assms(3))
  next
    case (deleted old)
    then show ?thesis using that [of "''service_account_deleted''"] delete_account_shape [OF deleted(3)] by (simp add: assms(3))
  qed
  have dead: "cr_status k \<noteq> ''active''" if k: "k \<in> set (db_service_credentials d')" "cr_service_account_uid k = u" for k
  proof -
    obtain k0 where "k = (if cr_service_account_uid k0 = u \<and> cr_status k0 = ''active'' then withdraw_credential c (mustPrincipal r) reason k0 else k0)"
      using k(1) unfolding creds set_sql_update by (rule imageE)
    then show ?thesis using k(2) by (cases "cr_service_account_uid k0 = u \<and> cr_status k0 = ''active''") simp_all
  qed
  have guard: "case presented sv c2 r2 d' of Some (k, _, _) \<Rightarrow> cr_service_account_uid k \<noteq> u | None \<Rightarrow> True"
    using dead by (auto split: option.splits dest!: presentedD)
  have others: "filter (\<lambda>k. cr_service_account_uid k \<noteq> u) (sql_update (\<lambda>k. cr_service_account_uid k = u \<and> cr_status k = ''active'') (withdraw_credential c (mustPrincipal r) reason) ks) =
      filter (\<lambda>k. cr_service_account_uid k \<noteq> u) ks" for ks
    by (induction ks) simp_all
  show ?thesis using dead guard others creds by (simp add: list_all_iff)
qed

section \<open>A project with one account\<close>

definition demo_project :: project_row where
  "demo_project = \<lparr>pj_uid = ''p'', pj_tenant_uid = ''t'', pj_name = ''Shop'', pj_environment = ''production'', pj_status = ''active'', pj_rp_id = ''shop.example'',
     pj_rp_name = ''Shop'', pj_rp_id_locked_at = None, pj_created_at = 0, pj_updated_at = 0\<rparr>"

definition demo_account :: service_account_row where
  "demo_account = \<lparr>sa_uid = ''acc'', sa_project_uid = ''p'', sa_name = ''ci'', sa_description = [], sa_status = ''active'',
     sa_scopes = [''external_credentials.manage'', ''project_users.read''],
     sa_version = 1, sa_created_by_member_uid = None, sa_created_at = 0, sa_updated_at = 0, sa_disabled_at = None, sa_deleted_at = None\<rparr>"

definition service_db :: db where
  "service_db = demo_oauth_db\<lparr>db_projects := [demo_project], db_service_accounts := [demo_account]\<rparr>"

definition at_account :: "http_request \<Rightarrow> http_request" where
  "at_account r = r\<lparr>hq_path := (\<lambda>name. if name = ''project_uid'' then ''p'' else ''acc'')\<rparr>"

definition demo_key_input :: createServiceCredentialInput where
  "demo_key_input = \<lparr>ki_Name = ''ci'', ki_ExpiresAt = None\<rparr>"

lemma at_account_simps [simp]:
  "mustPrincipal (at_account r) = mustPrincipal r" "hq_header (at_account r) = hq_header r"
  "hq_path (at_account r) ''project_uid'' = ''p''" "hq_path (at_account r) ''service_account_uid'' = ''acc''"
  "requireIfMatch (at_account r) = requireIfMatch r"
  by (simp_all add: at_account_def mustPrincipal_def requireIfMatch_def Let_def fail_def problem_def split: option.split)

lemma demo_account_own: "own_account (service_db\<lparr>db_idempotency := i, db_service_credentials := ks\<rparr>) (p_TenantUID demo_principal) ''p'' ''acc'' demo_account"
  by (simp add: own_account_def own_project_def service_db_def demo_account_def demo_project_def demo_principal_def)

lemma demo_credential_created:
  "\<exists>w d'. createServiceCredential demo_server (Some demo_key_input) demo_call (at_account demo_create) service_db = (w, d') \<and> db_service_credentials d' \<noteq> []"
proof -
  define request where "request = create_request demo_server demo_principal ''service_credentials.create'' ''key''
    (JObj [(''project_uid'', JStr ''p''), (''service_account_uid'', JStr ''acc''), (''input'', JObj [(''name'', JStr ''ci'')])])"
  let ?d = "service_db\<lparr>db_idempotency := [claim_row (1000 * Second) ''u-idempotency lease'' request]\<rparr>"
  obtain rnd where rnd: "RandomToken (ca_rand demo_call ''service credential'') = Some rnd"
    by (auto simp: RandomToken_def rand_Read_def demo_call_def)
  have op: "idempotencyOperation ''service_credentials.create''"
    by (simp add: idempotencyOperation_def head_tail_match_def char_class_defs less_eq_char_def)
  have ok: "validateIdempotencyRequest request = None" unfolding request_def by (rule demo_valid [OF op])
  have idem: "db_idempotency service_db = []" by (simp add: service_db_def demo_oauth_defs)
  have fields: "mustPrincipal demo_create = demo_principal" "hq_header demo_create ''Idempotency-Key'' = ''key''"
    by (simp_all add: demo_create_def demo_if_match_def mustPrincipal_def)
  have "TrimSpace ''ci'' = ''ci''" by (rule TrimSpace_visible; simp add: visible_c_def)
  then have input: "demo_key_input\<lparr>ki_Name := TrimSpace ''ci''\<rparr> = demo_key_input"
      "ki_Name demo_key_input = ''ci''" "ki_ExpiresAt demo_key_input = None" "\<not> bad_credential_input (ca_now demo_call) demo_key_input"
    by (simp_all add: demo_key_input_def bad_credential_input_def credential_expiry_def serviceCredentialDefaultTTL_def serviceCredentialMaximumTTL_def
        serviceCredentialMinimumTTL_def time_defs)
  have flt: "\<not> ca_flt demo_call site" for site by (simp add: demo_call_def)
  have row: "query_row demo_server demo_call ''lock service account'' [''acc'', ''p''] (own_account ?d (p_TenantUID demo_principal) ''p'' ''acc'') (db_service_accounts ?d) = Row demo_account"
    by (simp add: query_row_def demo_call_def demo_server_def service_db_def own_account_def own_project_def demo_account_def demo_project_def demo_principal_def)
  have status: "sa_status demo_account = ''active''" "project_of ?d ''p'' = demo_project" "pj_status demo_project = ''active''"
    by (simp_all add: demo_account_def project_of_def service_db_def demo_project_def)
  have none: "db_service_credentials ?d = []" by (simp add: service_db_def demo_oauth_defs)
  let ?pfx = "key_prefix demo_call ''ca_sk_'' (pj_environment demo_project)"
  let ?k = "new_credential demo_server demo_call demo_principal ''acc'' ?pfx demo_key_input (?pfx @ ''.'' @ rnd)"
  have later: "cr_created_at ?k < cr_expires_at ?k"
    by (simp add: new_credential_def credential_expiry_def demo_key_input_def serviceCredentialDefaultTTL_def time_defs)
  have "\<exists>d2. Option.bind (insert_credential demo_call ?k ?d) (project_audit demo_call t p at au action tt tu m) = Some d2 \<and>
      db_idempotency d2 = db_idempotency ?d \<and> db_service_credentials d2 = [?k]" for t p at au action tt tu m
    using later by (simp add: insert_credential_def project_audit_def add_audit_def stmt_def flt none)
  then obtain d2 where ins: "Option.bind (insert_credential demo_call ?k ?d) (project_audit demo_call (p_TenantUID demo_principal) ''p'' ''tenant_member'' (p_MemberUID demo_principal)
       ''service_credential.created'' ''service_credential'' (cr_uid ?k)
       (JObj [(''service_account_uid'', JStr ''acc''), (''expires_at'', JNum (cr_expires_at ?k)), (''fingerprint'', JStr (cr_fingerprint ?k))])) = Some d2"
      "db_idempotency d2 = db_idempotency ?d" "db_service_credentials d2 = [?k]" by blast
  let ?resp = "credential_created demo_server ''p'' (?pfx @ ''.'' @ rnd) ?k"
  have "\<exists>t. respond_stored demo_server demo_call (at_account demo_create) request ''u-idempotency lease'' ?resp (Some d2)
      ''could not create service credential'' ?d = (writeStoredResponse ?resp, d2\<lparr>db_idempotency := t\<rparr>)"
    by (rule demo_responded [OF ok]) (simp_all add: ins(2) credential_created_def)
  then obtain t where resp: "respond_stored demo_server demo_call (at_account demo_create) request ''u-idempotency lease'' ?resp (Some d2)
      ''could not create service credential'' ?d = (writeStoredResponse ?resp, d2\<lparr>db_idempotency := t\<rparr>)" ..
  have tx: "create_credential_tx demo_server demo_call demo_key_input request ''u-idempotency lease'' rnd (at_account demo_create) ?d =
      (writeStoredResponse ?resp, d2\<lparr>db_idempotency := t\<rparr>)"
    unfolding create_credential_tx_def Let_def at_account_simps fields row query.case status(2) ins(1) resp none
    using flt status by (simp add: sql_count_def serviceCredentialActiveLimit_def)
  have "createServiceCredential demo_server (Some demo_key_input) demo_call (at_account demo_create) service_db =
      (writeStoredResponse ?resp, d2\<lparr>db_idempotency := t\<rparr>)"
    unfolding createServiceCredential_def option.case Let_def at_account_simps fields input if_not_P [OF input(4)] request_def [symmetric]
      demo_begun [OF ok idem] prod.case sum.case rnd using tx by simp
  then show ?thesis using ins(3) by simp
qed

theorem issued_credential_admits_witness:
  "\<exists>w d' k plain. createServiceCredential demo_server (Some demo_key_input) demo_call (at_account demo_create) service_db = (w, d') \<and>
     db_service_credentials d' = [k] \<and>
     fst (serviceCredential demo_server demo_call ''project_users.read'' (\<lambda>r d. (no_content 204, d))
            (demo_request\<lparr>hq_header := (\<lambda>_. ''Bearer '' @ plain)\<rparr>) d') = no_content 204"
proof -
  obtain w d' where run: "createServiceCredential demo_server (Some demo_key_input) demo_call (at_account demo_create) service_db = (w, d')"
    and some: "db_service_credentials d' \<noteq> []" using demo_credential_created by blast
  have none: "db_service_credentials service_db = []" by (simp add: service_db_def demo_oauth_defs)
  have ids: "distinct (map cr_prefix (db_service_credentials service_db))" "distinct (map sa_uid (db_service_accounts service_db))" "distinct (map pj_uid (db_projects service_db))"
    by (simp_all add: service_db_def demo_oauth_defs)
  have new: "db_service_credentials d' \<noteq> db_service_credentials service_db" using some none by simp
  obtain a p k plain where out: "db_service_credentials d' = db_service_credentials service_db @ [k]" "a \<in> set (db_service_accounts service_db)" "5 * Minute < cr_expires_at k - ca_now demo_call"
    and "p \<in> set (db_projects service_db)"
    and admit: "\<forall>c2 r2 scope next. ca_flt c2 = no_faults \<and> ca_now c2 < cr_expires_at k \<and> hq_header r2 ''Authorization'' = ''Bearer '' @ plain \<and>
       hq_path r2 ''project_uid'' \<in> {[], pj_uid p} \<and> scope \<in> set (sa_scopes a) \<longrightarrow>
       serviceCredential demo_server c2 scope next r2 d' =
         next (r2\<lparr>hq_service := Some \<lparr>serviceCredentialUID = cr_uid k, serviceAccountUID = sa_uid a,
                 serviceTenantUID = p_TenantUID (mustPrincipal (at_account demo_create)), serviceProjectUID = pj_uid p\<rparr>\<rparr>) (use_credential c2 k d')"
    using issued_credential_admits [OF run new ids] by (elim exE conjE) (rule that; assumption)
  let ?r = "demo_request\<lparr>hq_header := (\<lambda>_. ''Bearer '' @ plain)\<rparr>"
  have "fst (serviceCredential demo_server demo_call ''project_users.read'' (\<lambda>r d. (no_content 204, d)) ?r d') = no_content 204"
    using out(2,3) by (subst admit [rule_format]) (simp_all add: demo_call_def demo_request_def service_db_def demo_account_def time_defs)
  with run out(1) none show ?thesis by auto
qed

definition demo_key :: service_credential_row where
  "demo_key = new_credential demo_server demo_call demo_principal ''acc'' ''ca_sk_live_demo'' demo_key_input ''ca_sk_live_demo.secret''"

lemma demo_account_deleted:
  "\<exists>d'. account_write demo_server Delete demo_call (at_account demo_if_match) (service_db\<lparr>db_service_credentials := [demo_key]\<rparr>) = (no_content 204, d') \<and>
     db_service_accounts d' = [delete_account_row demo_call demo_account] \<and> db_service_credentials d' \<noteq> []"
proof -
  let ?d = "service_db\<lparr>db_service_credentials := [demo_key]\<rparr>"
  have p: "mustPrincipal demo_if_match = demo_principal" by (simp add: demo_if_match_def mustPrincipal_def)
  have row: "query_row demo_server demo_call ''lock service account'' [''acc'', ''p''] (own_account ?d (p_TenantUID demo_principal) ''p'' ''acc'') (db_service_accounts ?d) = Row demo_account"
    by (simp add: query_row_def demo_call_def demo_server_def service_db_def own_account_def own_project_def demo_account_def demo_project_def demo_principal_def)
  have v: "sa_version demo_account = 1" "\<not> ca_flt demo_call ''begin transaction''" by (simp_all add: demo_account_def demo_call_def)
  obtain d' where tx: "delete_account_tx demo_call demo_principal ''p'' ''acc'' ?d = Some d'"
    by (simp add: delete_account_tx_def write_accounts_def withdraw_credentials_def project_audit_def add_audit_def stmt_def demo_call_def bigint_ok_def
        delete_account_row_def service_db_def demo_account_def)
  then have "commit_tx demo_call (delete_account_tx demo_call demo_principal ''p'' ''acc'' ?d) = Some d'"
    by (simp add: commit_tx_def stmt_def demo_call_def)
  then have "account_write demo_server Delete demo_call (at_account demo_if_match) ?d = (no_content 204, d')"
    unfolding account_write.simps deleteServiceAccount_def Let_def at_account_simps demo_match sum.case p row query.case using v by simp
  moreover have "db_service_accounts d' = [delete_account_row demo_call demo_account] \<and> db_service_credentials d' \<noteq> []"
    using delete_account_shape [OF tx] by (simp add: service_db_def demo_account_def sql_update_def)
  ultimately show ?thesis by blast
qed

theorem account_withdrawn_witness:
  "\<exists>d'. account_write demo_server Delete demo_call (at_account demo_if_match) (service_db\<lparr>db_service_credentials := [demo_key]\<rparr>) = (no_content 204, d') \<and>
     db_service_credentials d' \<noteq> [] \<and> \<not> list_ex (\<lambda>k. cr_service_account_uid k = ''acc'' \<and> cr_status k = ''active'') (db_service_credentials d')"
proof -
  let ?d = "service_db\<lparr>db_service_credentials := [demo_key]\<rparr>"
  obtain d' where run: "account_write demo_server Delete demo_call (at_account demo_if_match) ?d = (no_content 204, d')"
    and rows: "db_service_accounts d' = [delete_account_row demo_call demo_account]" and some: "db_service_credentials d' \<noteq> []"
    using demo_account_deleted by blast
  have row: "sa_uid (delete_account_row demo_call demo_account) = ''acc''" "sa_status (delete_account_row demo_call demo_account) = ''disabled''"
      "sa_status demo_account = ''active''"
    by (simp_all add: delete_account_row_def demo_account_def)
  have changed: "d' \<noteq> ?d"
  proof
    assume "d' = ?d"
    then have "demo_account = delete_account_row demo_call demo_account" using rows by (simp add: service_db_def)
    then show False using row(2,3) by simp
  qed
  have uid: "''acc'' = hq_path (at_account demo_if_match) ''service_account_uid''" by simp
  have dist: "distinct (map sa_uid (db_service_accounts ?d))" by (simp add: service_db_def)
  have off: "list_ex (\<lambda>a. sa_uid a = ''acc'' \<and> sa_status a = ''disabled'') (db_service_accounts d')" by (simp add: rows delete_account_row_def demo_account_def)
  have "list_all (\<lambda>k. cr_service_account_uid k = ''acc'' \<longrightarrow> cr_status k \<noteq> ''active'') (db_service_credentials d')"
    by (rule conjunct1 [OF account_withdrawn [OF run changed uid dist off]])
  with run some show ?thesis by (auto simp: list_all_iff list_ex_iff)
qed

end
