(* ===== verification/Projects.thy ===== *)
theory Projects
  imports Service_Accounts
begin

text \<open>
  Projects and their Origins: \<^verbatim>\<open>internal/api/projects.go\<close>. Handlers that first read the project and later write without a transaction are
  split at that point into a plan, computed from the state read, and its execution on the state written, which
  may be a later one. The handler itself runs both on the same state.
\<close>

section \<open>Relying party identifiers and Origins\<close>

definition validRPID :: "server \<Rightarrow> string \<Rightarrow> bool" where
  "validRPID sv v \<longleftrightarrow>
     (if v = ''localhost'' then True
      else if list_ex (\<lambda>ch. ch \<in> set ''/: '') v \<or> parse_ip sv v \<noteq> None then False
      else CHR ''.'' \<in> set v \<and> \<not> prefix ''.'' v \<and> \<not> suffix ''.'' v)"

definition validateOrigin :: "server \<Rightarrow> string \<Rightarrow> string \<Rightarrow> string + string" where
  "validateOrigin sv raw rpID =
     (let malformed = Inl ''Origin must contain only scheme, host, and optional port'' in
      case url_Parse sv (TrimSpace raw) of
        None \<Rightarrow> malformed
      | Some u \<Rightarrow>
          let host = ToLower (lower_unicode sv) (up_Hostname u) in
          if up_Host u = [] \<or> up_has_User u \<or> up_RawQuery u \<noteq> [] \<or> up_Fragment u \<noteq> [] \<or> (up_Path u \<noteq> [] \<and> up_Path u \<noteq> ''/'') then malformed
          else if up_Scheme u \<noteq> ''https'' \<and> \<not> (up_Scheme u = ''http'' \<and> isLocalDevelopmentHostname sv host) then
            Inl ''Origin must use HTTPS except for localhost or loopback''
          else if host \<noteq> rpID \<and> \<not> suffix (''.'' @ rpID) host then Inl ''Origin host must equal or be a subdomain of the RP ID''
          else Inr (ToLower (lower_unicode sv) (up_Scheme u) @ ''://'' @ ToLower (lower_unicode sv) (up_Host u)))"

section \<open>Reading a project\<close>

record Project =
  pv_UID :: uid
  pv_Name :: string
  pv_Environment :: string
  pv_Status :: string
  pv_RPID :: string
  pv_RPName :: string
  pv_RPIDLocked :: bool
  pv_Origins :: "origin_row list option"
  pv_OriginCount :: nat
  pv_UserCount :: nat
  pv_ServiceAccountCount :: nat
  pv_CreatedAt :: time

definition empty_project :: Project where
  "empty_project = \<lparr>pv_UID = [], pv_Name = [], pv_Environment = [], pv_Status = [], pv_RPID = [], pv_RPName = [], pv_RPIDLocked = False,
     pv_Origins = None, pv_OriginCount = 0, pv_UserCount = 0, pv_ServiceAccountCount = 0, pv_CreatedAt = zero_time\<rparr>"

definition origins_of :: "db \<Rightarrow> uid \<Rightarrow> origin_row list" where
  "origins_of d projectUID = sort_key og_created_at (filter (\<lambda>o1. og_project_uid o1 = projectUID) (db_origins d))"

definition project_view :: "db \<Rightarrow> project_row \<Rightarrow> Project" where
  "project_view d p =
     \<lparr>pv_UID = pj_uid p, pv_Name = pj_name p, pv_Environment = pj_environment p, pv_Status = pj_status p, pv_RPID = pj_rp_id p,
      pv_RPName = pj_rp_name p, pv_RPIDLocked = (pj_rp_id_locked_at p \<noteq> None), pv_Origins = Some (origins_of d (pj_uid p)),
      pv_OriginCount = sql_count (\<lambda>o1. og_project_uid o1 = pj_uid p) (db_origins d),
      pv_UserCount = sql_count (\<lambda>u. pu_project_uid u = pj_uid p) (db_project_users d),
      pv_ServiceAccountCount = sql_count (\<lambda>a. sa_project_uid a = pj_uid p \<and> sa_status a = ''active'' \<and> sa_deleted_at a = None) (db_service_accounts d),
      pv_CreatedAt = pj_created_at p\<rparr>"

text \<open>
  \<open>loadProject\<close> returns what it has read beside the error. Each of its two queries may fail for each project on its own; a failure
  of the second loses the Origins.
\<close>

definition loadProject :: "server \<Rightarrow> call \<Rightarrow> uid \<Rightarrow> uid \<Rightarrow> db \<Rightarrow> Project \<times> unit query" where
  "loadProject sv c tenantUID projectUID d =
     (case query_row sv c (''load project '' @ projectUID) [projectUID] (own_project tenantUID projectUID) (db_projects d) of
        NoRows \<Rightarrow> (empty_project, NoRows)
      | QueryError \<Rightarrow> (empty_project, QueryError)
      | Row p \<Rightarrow>
          if ca_flt c (''load origins '' @ projectUID) then ((project_view d p)\<lparr>pv_Origins := None\<rparr>, QueryError)
          else (project_view d p, Row ()))"

definition origin_json :: "origin_row \<Rightarrow> json" where
  "origin_json o1 = JObj [(''uid'', JStr (og_uid o1)), (''origin'', JStr (og_origin o1)), (''created_at'', JNum (og_created_at o1))]"

definition project_json :: "Project \<Rightarrow> json" where
  "project_json v = JObj [(''uid'', JStr (pv_UID v)), (''name'', JStr (pv_Name v)), (''environment'', JStr (pv_Environment v)),
     (''status'', JStr (pv_Status v)), (''rp_id'', JStr (pv_RPID v)), (''rp_name'', JStr (pv_RPName v)), (''rp_id_locked'', JBool (pv_RPIDLocked v)),
     (''origins'', json_option (\<lambda>os. JArr (map origin_json os)) (pv_Origins v)), (''origin_count'', JNum (int (pv_OriginCount v))),
     (''user_count'', JNum (int (pv_UserCount v))), (''service_account_count'', JNum (int (pv_ServiceAccountCount v))),
     (''created_at'', JNum (pv_CreatedAt v))]"

text \<open>Each row of the page is loaded again; a project that fails to load is left out of the page and of the count that decides on a next page.\<close>

definition loaded_projects :: "server \<Rightarrow> call \<Rightarrow> uid \<Rightarrow> project_row list \<Rightarrow> db \<Rightarrow> (pageCursor \<times> Project) list" where
  "loaded_projects sv c tenantUID rows d =
     concat (map (\<lambda>p. case loadProject sv c tenantUID (pj_uid p) d of (v, Row _) \<Rightarrow> [((pj_created_at p, pj_uid p), v)] | _ \<Rightarrow> []) rows)"

definition listProjects :: "server \<Rightarrow> call \<Rightarrow> handler" where
  "listProjects sv c r d =
     (let tenantUID = p_TenantUID (mustPrincipal r) in
      case pagination sv r of
        Inl e \<Rightarrow> (fail r 400 ''invalid_pagination'' e, d)
      | Inr (limit, cursor) \<Rightarrow>
          if ca_flt c ''list projects'' \<or> (case cursor of None \<Rightarrow> False | Some k \<Rightarrow> \<not> uuid_ok sv (snd k)) then
            (fail r 500 ''internal_error'' ''could not load projects'', d)
          else let rows = page_rows (\<lambda>p. (pj_created_at p, pj_uid p)) (\<lambda>p. pj_tenant_uid p = tenantUID) limit cursor (db_projects d) in
            (writeJSON 200 (page_json sv (project_json \<circ> snd) (cut_page fst limit (loaded_projects sv c tenantUID rows d))), d))"

definition getProjectHandler :: "server \<Rightarrow> call \<Rightarrow> handler" where
  "getProjectHandler sv c r d =
     (case loadProject sv c (p_TenantUID (mustPrincipal r)) (hq_path r ''project_uid'') d of
        (v, Row _) \<Rightarrow> (writeJSON 200 (project_json v), d)
      | (_, NoRows) \<Rightarrow> (fail r 404 ''not_found'' ''project not found'', d)
      | (_, QueryError) \<Rightarrow> (fail r 500 ''internal_error'' ''could not load project'', d))"

section \<open>Creating a project\<close>

record createProjectInput =
  pc_Name :: string
  pc_Environment :: string
  pc_RPID :: string
  pc_RPName :: string
  pc_InitialOrigin :: string

definition trimmed_project :: "server \<Rightarrow> createProjectInput \<Rightarrow> createProjectInput" where
  "trimmed_project sv input = input\<lparr>pc_Name := TrimSpace (pc_Name input), pc_RPID := ToLower (lower_unicode sv) (TrimSpace (pc_RPID input)),
     pc_RPName := TrimSpace (pc_RPName input)\<rparr>"

definition new_project :: "call \<Rightarrow> uid \<Rightarrow> createProjectInput \<Rightarrow> project_row" where
  "new_project c tenantUID input =
     \<lparr>pj_uid = ca_uid c ''project'', pj_tenant_uid = tenantUID, pj_name = pc_Name input, pj_environment = pc_Environment input, pj_status = ''active'',
      pj_rp_id = pc_RPID input, pj_rp_name = pc_RPName input, pj_rp_id_locked_at = None, pj_created_at = ca_now c, pj_updated_at = ca_now c\<rparr>"

text \<open>The table requires one to 120 characters in both names.\<close>

definition project_checks :: "project_row \<Rightarrow> bool" where
  "project_checks p \<longleftrightarrow> rune_count (pj_name p) \<in> {1..120} \<and> rune_count (pj_rp_name p) \<in> {1..120}"

definition insert_project :: "call \<Rightarrow> project_row \<Rightarrow> db \<Rightarrow> db option" where
  "insert_project c p = stmt c ''insert project'' (\<lambda>d.
     if list_ex (\<lambda>x. pj_uid x = pj_uid p) (db_projects d) \<or> \<not> project_checks p then None
     else Some (d\<lparr>db_projects := db_projects d @ [p]\<rparr>))"

definition origin_taken :: "origin_row \<Rightarrow> db \<Rightarrow> bool" where
  "origin_taken o1 d \<longleftrightarrow>
     list_ex (\<lambda>x. og_uid x = og_uid o1 \<or> og_project_uid x = og_project_uid o1 \<and> og_origin x = og_origin o1) (db_origins d)"

definition add_origin :: "call \<Rightarrow> uid \<Rightarrow> string \<Rightarrow> origin_row" where
  "add_origin c projectUID canonical = \<lparr>og_uid = ca_uid c ''origin'', og_project_uid = projectUID, og_origin = canonical, og_created_at = ca_now c\<rparr>"

definition insert_origin :: "call \<Rightarrow> origin_row \<Rightarrow> db \<Rightarrow> db option" where
  "insert_origin c o1 = stmt c ''insert origin'' (\<lambda>d. if origin_taken o1 d then None else Some (d\<lparr>db_origins := db_origins d @ [o1]\<rparr>))"

definition create_project_tx :: "call \<Rightarrow> principal \<Rightarrow> createProjectInput \<Rightarrow> string \<Rightarrow> db \<Rightarrow> db option" where
  "create_project_tx c p input canonical d =
     (let projectUID = ca_uid c ''project'' in
      Option.bind (insert_project c (new_project c (p_TenantUID p) input) d) (\<lambda>d.
      Option.bind (insert_origin c (add_origin c projectUID canonical) d)
        (project_audit c (p_TenantUID p) projectUID ''tenant_member'' (p_MemberUID p) ''project.created'' ''project'' projectUID (JObj []))))"

definition createProject :: "server \<Rightarrow> createProjectInput option \<Rightarrow> call \<Rightarrow> handler" where
  "createProject sv body c r d =
     (case body of
        None \<Rightarrow> (invalid_json r, d)
      | Some raw \<Rightarrow>
          let p = mustPrincipal r; input = trimmed_project sv raw;
              invalid = (fail r 422 ''validation_failed'' ''project values, RP ID, or Origin are invalid'', d) in
          (case validateOrigin sv (pc_InitialOrigin input) (pc_RPID input) of
             Inl _ \<Rightarrow> invalid
           | Inr canonical \<Rightarrow>
               if pc_Name input = [] \<or> pc_RPName input = [] \<or> (pc_Environment input \<noteq> ''sandbox'' \<and> pc_Environment input \<noteq> ''production'') \<or>
                  \<not> validRPID sv (pc_RPID input) then invalid
               else if ca_flt c ''begin transaction'' then (fail r 500 ''internal_error'' ''could not create project'', d)
               else (case commit_tx c (create_project_tx c p input canonical d) of
                 None \<Rightarrow> (fail r 500 ''internal_error'' ''could not create project'', d)
               | Some d' \<Rightarrow>
                   (case loadProject sv c (p_TenantUID p) (ca_uid c ''project'') d' of
                      (v, Row _) \<Rightarrow> (writeJSON 201 (project_json v), d')
                    | _ \<Rightarrow> (fail r 500 ''internal_error'' ''could not load project'', d')))))"

section \<open>Updating a project\<close>

record updateProjectInput =
  pn_Name :: "string option"
  pn_Environment :: "string option"
  pn_Status :: "string option"
  pn_RPID :: "string option"
  pn_RPName :: "string option"

definition given :: "'a option \<Rightarrow> 'a \<Rightarrow> 'a" where
  "given x old = (case x of None \<Rightarrow> old | Some v \<Rightarrow> v)"

definition merged_project :: "server \<Rightarrow> updateProjectInput \<Rightarrow> Project \<Rightarrow> Project" where
  "merged_project sv input v =
     v\<lparr>pv_Name := given (map_option TrimSpace (pn_Name input)) (pv_Name v), pv_Environment := given (pn_Environment input) (pv_Environment v),
       pv_Status := given (pn_Status input) (pv_Status v), pv_RPName := given (map_option TrimSpace (pn_RPName input)) (pv_RPName v),
       pv_RPID := given (map_option (\<lambda>x. ToLower (lower_unicode sv) (TrimSpace x)) (pn_RPID input)) (pv_RPID v)\<rparr>"

text \<open>The checks, all made on the project as it was read.\<close>

definition update_project_plan :: "server \<Rightarrow> updateProjectInput option \<Rightarrow> call \<Rightarrow> http_request \<Rightarrow> db \<Rightarrow> http_response + Project" where
  "update_project_plan sv body c r d =
     (case loadProject sv c (p_TenantUID (mustPrincipal r)) (hq_path r ''project_uid'') d of
        (v, Row _) \<Rightarrow>
          (case body of
             None \<Rightarrow> Inl (invalid_json r)
           | Some input \<Rightarrow>
               let new = merged_project sv input v in
               if pn_RPID input \<noteq> None \<and> pv_RPIDLocked v \<and> pv_RPID new \<noteq> pv_RPID v then
                 Inl (fail r 409 ''rp_id_locked'' ''RP ID is permanently locked after the first passkey registration'')
               else if pv_Name new = [] \<or> pv_RPName new = [] \<or> (pv_Environment new \<noteq> ''sandbox'' \<and> pv_Environment new \<noteq> ''production'') \<or>
                       (pv_Status new \<noteq> ''active'' \<and> pv_Status new \<noteq> ''disabled'') \<or> \<not> validRPID sv (pv_RPID new) then
                 Inl (fail r 422 ''validation_failed'' ''project values are invalid'')
               else if list_ex (\<lambda>o1. isl (validateOrigin sv (og_origin o1) (pv_RPID new))) (given (pv_Origins v) []) then
                 Inl (fail r 422 ''origin_rp_mismatch'' ''existing Origins are incompatible with this RP ID'')
               else Inr new)
      | _ \<Rightarrow> Inl (fail r 404 ''not_found'' ''project not found''))"

definition updatable :: "uid \<Rightarrow> Project \<Rightarrow> project_row \<Rightarrow> bool" where
  "updatable tenantUID v p \<longleftrightarrow> pj_uid p = pv_UID v \<and> pj_tenant_uid p = tenantUID \<and> (pj_rp_id p = pv_RPID v \<or> pj_rp_id_locked_at p = None)"

definition update_project_row :: "call \<Rightarrow> Project \<Rightarrow> project_row \<Rightarrow> project_row" where
  "update_project_row c v p = p\<lparr>pj_name := pv_Name v, pj_environment := pv_Environment v, pj_status := pv_Status v, pj_rp_id := pv_RPID v,
     pj_rp_name := pv_RPName v, pj_updated_at := ca_now c\<rparr>"

definition update_project_exec :: "server \<Rightarrow> Project \<Rightarrow> call \<Rightarrow> handler" where
  "update_project_exec sv v c r d =
     (let p = mustPrincipal r; hit = updatable (p_TenantUID p) v; t = sql_update hit (update_project_row c v) (db_projects d) in
      if ca_flt c ''update project'' \<or> \<not> list_all project_checks (filter hit t) then (fail r 500 ''internal_error'' ''could not update project'', d)
      else if sql_count hit (db_projects d) = 0 then (fail r 409 ''rp_id_locked'' ''RP ID is permanently locked'', d)
      else let d' = audit_event c (p_TenantUID p) (pv_UID v) ''tenant_member'' (p_MemberUID p) ''project.updated'' ''project'' (pv_UID v) (JObj [])
                      (d\<lparr>db_projects := t\<rparr>) in
        (writeJSON 200 (project_json (fst (loadProject sv c (p_TenantUID p) (pv_UID v) d'))), d'))"

definition updateProject :: "server \<Rightarrow> updateProjectInput option \<Rightarrow> call \<Rightarrow> handler" where
  "updateProject sv body c r d =
     (case update_project_plan sv body c r d of Inl w \<Rightarrow> (w, d) | Inr v \<Rightarrow> update_project_exec sv v c r d)"

section \<open>Origins\<close>

definition listOrigins :: "server \<Rightarrow> call \<Rightarrow> handler" where
  "listOrigins sv c r d =
     (case loadProject sv c (p_TenantUID (mustPrincipal r)) (hq_path r ''project_uid'') d of
        (v, Row _) \<Rightarrow> (writeJSON 200 (JObj [(''items'', json_option (\<lambda>os. JArr (map origin_json os)) (pv_Origins v))]), d)
      | _ \<Rightarrow> (fail r 404 ''not_found'' ''project not found'', d))"

definition create_origin_plan :: "server \<Rightarrow> string option \<Rightarrow> call \<Rightarrow> http_request \<Rightarrow> db \<Rightarrow> http_response + uid \<times> string" where
  "create_origin_plan sv body c r d =
     (case loadProject sv c (p_TenantUID (mustPrincipal r)) (hq_path r ''project_uid'') d of
        (v, Row _) \<Rightarrow>
          (case body of
             None \<Rightarrow> Inl (invalid_json r)
           | Some raw \<Rightarrow>
               (case validateOrigin sv raw (pv_RPID v) of
                  Inl e \<Rightarrow> Inl (fail r 422 ''invalid_origin'' e)
                | Inr canonical \<Rightarrow> Inr (pv_UID v, canonical)))
      | _ \<Rightarrow> Inl (fail r 404 ''not_found'' ''project not found''))"

definition create_origin_exec :: "uid \<Rightarrow> string \<Rightarrow> call \<Rightarrow> handler" where
  "create_origin_exec projectUID canonical c r d =
     (let p = mustPrincipal r; o1 = add_origin c projectUID canonical in
      if ca_flt c ''insert origin'' then (fail r 500 ''internal_error'' ''could not add Origin'', d)
      else if origin_taken o1 d then (fail r 409 ''origin_exists'' ''Origin is already configured'', d)
      else (writeJSON 201 (origin_json o1),
            audit_event c (p_TenantUID p) projectUID ''tenant_member'' (p_MemberUID p) ''origin.created'' ''origin'' (og_uid o1)
              (JObj [(''origin'', JStr canonical)]) (d\<lparr>db_origins := db_origins d @ [o1]\<rparr>)))"

definition createOrigin :: "server \<Rightarrow> string option \<Rightarrow> call \<Rightarrow> handler" where
  "createOrigin sv body c r d =
     (case create_origin_plan sv body c r d of Inl w \<Rightarrow> (w, d) | Inr (projectUID, canonical) \<Rightarrow> create_origin_exec projectUID canonical c r d)"

definition delete_origin_plan :: "server \<Rightarrow> call \<Rightarrow> http_request \<Rightarrow> db \<Rightarrow> http_response + uid" where
  "delete_origin_plan sv c r d =
     (case loadProject sv c (p_TenantUID (mustPrincipal r)) (hq_path r ''project_uid'') d of
        (v, Row _) \<Rightarrow>
          if length (given (pv_Origins v) []) \<le> 1 then Inl (fail r 409 ''last_origin'' ''a Project must keep at least one Origin'')
          else Inr (pv_UID v)
      | _ \<Rightarrow> Inl (fail r 404 ''not_found'' ''project not found''))"

definition delete_origin_exec :: "server \<Rightarrow> uid \<Rightarrow> call \<Rightarrow> handler" where
  "delete_origin_exec sv projectUID c r d =
     (let p = mustPrincipal r; originUID = hq_path r ''origin_uid''; hit = (\<lambda>o1. og_uid o1 = originUID \<and> og_project_uid o1 = projectUID) in
      if ca_flt c ''delete origin'' \<or> \<not> uuid_ok sv originUID then (fail r 500 ''internal_error'' ''could not delete Origin'', d)
      else if sql_count hit (db_origins d) = 0 then (fail r 404 ''not_found'' ''Origin not found'', d)
      else (no_content 204,
            audit_event c (p_TenantUID p) projectUID ''tenant_member'' (p_MemberUID p) ''origin.deleted'' ''origin'' originUID (JObj [])
              (d\<lparr>db_origins := sql_delete hit (db_origins d)\<rparr>)))"

definition deleteOrigin :: "server \<Rightarrow> call \<Rightarrow> handler" where
  "deleteOrigin sv c r d = (case delete_origin_plan sv c r d of Inl w \<Rightarrow> (w, d) | Inr projectUID \<Rightarrow> delete_origin_exec sv projectUID c r d)"

text \<open>The statement of every passkey registration that locks the RP ID (\<^verbatim>\<open>webauthn.go\<close> and \<^verbatim>\<open>fido_flow.go\<close>).\<close>

definition lock_rp_id :: "call \<Rightarrow> uid \<Rightarrow> db \<Rightarrow> db option" where
  "lock_rp_id c projectUID = stmt c ''lock rp id'' (\<lambda>d. Some (d\<lparr>db_projects :=
     sql_update (\<lambda>p. pj_uid p = projectUID) (\<lambda>p. p\<lparr>pj_rp_id_locked_at := coalesce (pj_rp_id_locked_at p) (ca_now c)\<rparr>) (db_projects d)\<rparr>))"

section \<open>What the handlers change\<close>

lemma audit_event_simps [simp]:
  "db_projects (audit_event c t p at au action tt tu m d) = db_projects d"
  "db_origins (audit_event c t p at au action tt tu m d) = db_origins d"
  "db_service_accounts (audit_event c t p at au action tt tu m d) = db_service_accounts d"
  "db_service_credentials (audit_event c t p at au action tt tu m d) = db_service_credentials d"
  "db_project_users (audit_event c t p at au action tt tu m d) = db_project_users d"
  "db_user_sessions (audit_event c t p at au action tt tu m d) = db_user_sessions d"
  "db_passkeys (audit_event c t p at au action tt tu m d) = db_passkeys d"
  by (simp_all add: audit_event_def add_audit_def)

lemma loadProject_RowD:
  assumes "loadProject sv c tenantUID projectUID d = (v, Row u)"
  shows "\<exists>p. sql_row (own_project tenantUID projectUID) (db_projects d) = Some p \<and> v = project_view d p"
  using assms by (auto simp: loadProject_def split: query.splits if_splits dest!: query_row_RowD)

lemma project_view_simps [simp]:
  "pv_UID (project_view d p) = pj_uid p" "pv_RPID (project_view d p) = pj_rp_id p" "pv_Origins (project_view d p) = Some (origins_of d (pj_uid p))"
  "pv_RPIDLocked (project_view d p) = (pj_rp_id_locked_at p \<noteq> None)"
  by (simp_all add: project_view_def)

lemma merged_project_simps [simp]: "pv_UID (merged_project sv input v) = pv_UID v"
  by (simp add: merged_project_def)

lemma new_row_simps [simp]:
  "pj_uid (new_project c tenantUID input) = ca_uid c ''project''" "pj_tenant_uid (new_project c tenantUID input) = tenantUID"
  "og_uid (add_origin c projectUID canonical) = ca_uid c ''origin''" "og_project_uid (add_origin c projectUID canonical) = projectUID"
  "og_origin (add_origin c projectUID canonical) = canonical"
  by (simp_all add: new_project_def add_origin_def)

lemma create_project_shape:
  assumes "createProject sv body c r d = (w, d')" "d' \<noteq> d"
  shows "\<exists>input canonical. db_projects d' = db_projects d @ [new_project c (p_TenantUID (mustPrincipal r)) input] \<and>
    db_origins d' = db_origins d @ [add_origin c (ca_uid c ''project'') canonical] \<and>
    validateOrigin sv (pc_InitialOrigin input) (pc_RPID input) = Inr canonical \<and> validRPID sv (pc_RPID input) \<and>
    \<not> list_ex (\<lambda>x. pj_uid x = ca_uid c ''project'') (db_projects d) \<and>
    \<not> origin_taken (add_origin c (ca_uid c ''project'') canonical) d"
proof -
  obtain input canonical where "create_project_tx c (mustPrincipal r) input canonical d = Some d'"
    "validateOrigin sv (pc_InitialOrigin input) (pc_RPID input) = Inr canonical" "validRPID sv (pc_RPID input)"
    using assms unfolding createProject_def Let_def
    by (auto split: option.splits sum.splits if_split_asm prod.splits query.splits dest!: commit_txD)
  then show ?thesis
    by (auto simp: create_project_tx_def Let_def insert_project_def insert_origin_def project_audit_def stmt_def add_audit_def
        bind_eq_Some_conv origin_taken_def new_project_def split: if_splits)
qed

lemma update_plan_shape:
  assumes "update_project_plan sv body c r d = Inr v"
  shows "\<exists>p \<in> set (db_projects d). own_project (p_TenantUID (mustPrincipal r)) (hq_path r ''project_uid'') p \<and> pv_UID v = pj_uid p \<and>
    validRPID sv (pv_RPID v) \<and> list_all (\<lambda>o1. \<not> isl (validateOrigin sv (og_origin o1) (pv_RPID v))) (origins_of d (pj_uid p)) \<and>
    (pj_rp_id_locked_at p \<noteq> None \<longrightarrow> pv_RPID v = pj_rp_id p)"
proof -
  obtain p input where p: "sql_row (own_project (p_TenantUID (mustPrincipal r)) (hq_path r ''project_uid'')) (db_projects d) = Some p"
    and v: "v = merged_project sv input (project_view d p)" "validRPID sv (pv_RPID v)"
      "\<not> list_ex (\<lambda>o1. isl (validateOrigin sv (og_origin o1) (pv_RPID v))) (origins_of d (pj_uid p))"
      "\<not> (pn_RPID input \<noteq> None \<and> pj_rp_id_locked_at p \<noteq> None \<and> pv_RPID v \<noteq> pj_rp_id p)"
    using assms unfolding update_project_plan_def Let_def
    by (auto simp: given_def split: prod.splits query.splits option.splits if_split_asm dest!: loadProject_RowD)
  have "pv_RPID v = pj_rp_id p" if "pn_RPID input = None" using that by (simp add: v(1) merged_project_def given_def)
  then show ?thesis using sql_row_SomeD [OF p] v by (intro bexI [of _ p]) (auto simp: list_ex_iff list_all_iff)
qed

lemma update_exec_shape:
  assumes "update_project_exec sv v c r d = (w, d')"
  shows "db_origins d' = db_origins d \<and>
    (db_projects d' = db_projects d \<or> db_projects d' = sql_update (updatable (p_TenantUID (mustPrincipal r)) v) (update_project_row c v) (db_projects d))"
  using assms by (auto simp: update_project_exec_def Let_def split: if_splits)

lemma create_origin_exec_shape:
  assumes "create_origin_exec projectUID canonical c r d = (w, d')"
  shows "db_projects d' = db_projects d \<and>
    (db_origins d' = db_origins d \<or> db_origins d' = db_origins d @ [add_origin c projectUID canonical] \<and> \<not> origin_taken (add_origin c projectUID canonical) d)"
  using assms by (auto simp: create_origin_exec_def Let_def split: if_splits)

lemma delete_origin_exec_shape:
  assumes "delete_origin_exec sv projectUID c r d = (w, d')"
  shows "db_projects d' = db_projects d \<and> (db_origins d' = db_origins d \<or>
    db_origins d' = sql_delete (\<lambda>o1. og_uid o1 = hq_path r ''origin_uid'' \<and> og_project_uid o1 = projectUID) (db_origins d))"
  using assms by (auto simp: delete_origin_exec_def Let_def split: if_splits)

lemma delete_plan_shape:
  assumes "delete_origin_plan sv c r d = Inr projectUID"
  shows "\<exists>p \<in> set (db_projects d). own_project (p_TenantUID (mustPrincipal r)) (hq_path r ''project_uid'') p \<and> projectUID = pj_uid p \<and>
    sql_count (\<lambda>o1. og_project_uid o1 = projectUID) (db_origins d) \<ge> 2"
  using assms by (auto simp: delete_origin_plan_def given_def origins_of_def sql_count_def own_project_def not_le
      split: prod.splits query.splits if_splits dest!: loadProject_RowD sql_row_SomeD)

lemma create_plan_shape:
  assumes "create_origin_plan sv body c r d = Inr (projectUID, canonical)"
  shows "\<exists>p \<in> set (db_projects d). own_project (p_TenantUID (mustPrincipal r)) (hq_path r ''project_uid'') p \<and> projectUID = pj_uid p \<and>
    (\<exists>raw. validateOrigin sv raw (pj_rp_id p) = Inr canonical)"
  using assms by (fastforce simp: create_origin_plan_def own_project_def
      split: prod.splits query.splits option.splits sum.splits dest!: loadProject_RowD sql_row_SomeD)

section \<open>The RP ID lock\<close>

text \<open>
  Histories in which the writes of any number of requests interleave: each plan was made in some earlier state. The newest state comes
  first. \<open>other\<close> stands for handlers of other parts of the program.
\<close>

inductive project_history :: "server \<Rightarrow> db list \<Rightarrow> bool" for sv where
  start: "project_history sv [d]"
| create: "project_history sv (d # ds) \<Longrightarrow> createProject sv body c r d = (w, d') \<Longrightarrow> project_history sv (d' # d # ds)"
| update: "project_history sv (d # ds) \<Longrightarrow> d0 \<in> set (d # ds) \<Longrightarrow> update_project_plan sv body c0 r d0 = Inr v \<Longrightarrow>
    update_project_exec sv v c r d = (w, d') \<Longrightarrow> project_history sv (d' # d # ds)"
| create_origin: "project_history sv (d # ds) \<Longrightarrow> d0 \<in> set (d # ds) \<Longrightarrow> create_origin_plan sv body2 c0 r d0 = Inr (u, canonical) \<Longrightarrow>
    create_origin_exec u canonical c r d = (w, d') \<Longrightarrow> project_history sv (d' # d # ds)"
| delete_origin: "project_history sv (d # ds) \<Longrightarrow> d0 \<in> set (d # ds) \<Longrightarrow> delete_origin_plan sv c0 r d0 = Inr u \<Longrightarrow>
    delete_origin_exec sv u c r d = (w, d') \<Longrightarrow> project_history sv (d' # d # ds)"
| lock: "project_history sv (d # ds) \<Longrightarrow> lock_rp_id c u d = Some d' \<Longrightarrow> project_history sv (d' # d # ds)"
| other: "project_history sv (d # ds) \<Longrightarrow> db_projects d' = db_projects d \<Longrightarrow> project_history sv (d' # d # ds)"

definition still_locked :: "db \<Rightarrow> project_row \<Rightarrow> bool" where
  "still_locked d p \<longleftrightarrow> list_ex (\<lambda>q. pj_uid q = pj_uid p \<and> pj_tenant_uid q = pj_tenant_uid p \<and> pj_rp_id q = pj_rp_id p \<and>
     pj_rp_id_locked_at q = pj_rp_id_locked_at p) (db_projects d)"

definition keeps_locks :: "db \<Rightarrow> db \<Rightarrow> bool" where
  "keeps_locks d d' \<longleftrightarrow> list_all (\<lambda>p. pj_rp_id_locked_at p \<noteq> None \<longrightarrow> still_locked d' p) (db_projects d)"

lemma keeps_locks_same: "set (db_projects d) \<subseteq> set (db_projects d') \<Longrightarrow> keeps_locks d d'"
  by (auto simp: keeps_locks_def still_locked_def list_all_iff list_ex_iff)

lemma keeps_locks_update:
  assumes "db_projects d' = sql_update hit f (db_projects d)"
    and "\<And>p. hit p \<Longrightarrow> pj_rp_id_locked_at p \<noteq> None \<Longrightarrow> pj_uid (f p) = pj_uid p \<and> pj_tenant_uid (f p) = pj_tenant_uid p \<and> pj_rp_id (f p) = pj_rp_id p \<and>
      pj_rp_id_locked_at (f p) = pj_rp_id_locked_at p"
  shows "keeps_locks d d'"
proof -
  have "still_locked d' p" if p: "p \<in> set (db_projects d)" "pj_rp_id_locked_at p \<noteq> None" for p
  proof -
    have "(if hit p then f p else p) \<in> set (db_projects d')" unfolding assms(1) set_sql_update by (rule image_eqI [OF refl p(1)])
    then show ?thesis using assms(2) [OF _ p(2)] unfolding still_locked_def list_ex_iff by (cases "hit p") auto
  qed
  then show ?thesis by (simp add: keeps_locks_def list_all_iff)
qed

lemma keeps_locks_trans: "keeps_locks d1 d2 \<Longrightarrow> keeps_locks d2 d3 \<Longrightarrow> keeps_locks d1 d3"
  unfolding keeps_locks_def still_locked_def list_all_iff list_ex_iff by (metis (no_types, lifting))

lemma history_keeps_locks: "project_history sv ds \<Longrightarrow> \<forall>d0 \<in> set ds. keeps_locks d0 (hd ds)"
proof (induction rule: project_history.induct)
  case (create d ds body c r w d')
  have "keeps_locks d d'" using create_project_shape [OF create(2)] by (cases "d' = d") (auto intro: keeps_locks_same)
  with create.IH show ?case by (auto intro: keeps_locks_trans keeps_locks_same)
next
  case (update d ds d0 body c0 r v c w d')
  have "keeps_locks d d'"
    using update_exec_shape [OF update(4)]
  proof (elim conjE disjE)
    assume "db_projects d' = sql_update (updatable (p_TenantUID (mustPrincipal r)) v) (update_project_row c v) (db_projects d)"
    then show ?thesis by (rule keeps_locks_update) (auto simp: updatable_def update_project_row_def)
  qed (simp add: keeps_locks_same)
  with update.IH show ?case by (auto intro: keeps_locks_trans keeps_locks_same)
next
  case (lock d ds c u d')
  then have "db_projects d' = sql_update (\<lambda>p. pj_uid p = u) (\<lambda>p. p\<lparr>pj_rp_id_locked_at := coalesce (pj_rp_id_locked_at p) (ca_now c)\<rparr>) (db_projects d)"
    by (auto simp: lock_rp_id_def stmt_def split: if_splits)
  then have "keeps_locks d d'" by (rule keeps_locks_update) (auto simp: coalesce_def)
  with lock.IH show ?case by (auto intro: keeps_locks_trans keeps_locks_same)
next
  case (create_origin d ds d0 body2 c0 r u canonical c w d')
  have "keeps_locks d d'" using create_origin_exec_shape [OF create_origin(4)] by (intro keeps_locks_same) simp
  with create_origin.IH show ?case by (auto intro: keeps_locks_trans keeps_locks_same)
next
  case (delete_origin d ds d0 c0 r u c w d')
  have "keeps_locks d d'" using delete_origin_exec_shape [OF delete_origin(4)] by (intro keeps_locks_same) simp
  with delete_origin.IH show ?case by (auto intro: keeps_locks_trans keeps_locks_same)
next
  case (other d ds d')
  then have "keeps_locks d d'" by (intro keeps_locks_same) simp
  with other.IH show ?case by (auto intro: keeps_locks_trans keeps_locks_same)
qed (simp add: keeps_locks_same)

text \<open>C23 (rp_id_lock_is_final): once the first passkey registration has locked a project's RP ID, it never changes again and the lock stays: in every
  history of creations, updates, Origin changes and registrations whose writes interleave in any order, even when an update was
  checked before the project was locked.\<close>

theorem rp_id_lock_is_final:
  assumes "project_history sv (d # ds)" and "d0 \<in> set (d # ds)" and "p \<in> set (db_projects d0)" and "pj_rp_id_locked_at p \<noteq> None"
  shows "list_ex (\<lambda>q. pj_uid q = pj_uid p \<and> pj_tenant_uid q = pj_tenant_uid p \<and> pj_rp_id q = pj_rp_id p \<and>
    pj_rp_id_locked_at q = pj_rp_id_locked_at p) (db_projects d)"
  using history_keeps_locks [OF assms(1)] assms(2-4) by (auto simp: keeps_locks_def still_locked_def list_all_iff)

text \<open>An update to another RP ID, checked while the project is unlocked and executed after a registration locked it.\<close>

definition demo_rename :: updateProjectInput where
  "demo_rename = \<lparr>pn_Name = None, pn_Environment = None, pn_Status = None, pn_RPID = Some ''localhost'', pn_RPName = None\<rparr>"

definition unlocked_db :: db where
  "unlocked_db = demo_oauth_db\<lparr>db_projects := [demo_project]\<rparr>"

lemma demo_plan:
  "\<exists>v. update_project_plan demo_server (Some demo_rename) demo_call (at_account demo_if_match) unlocked_db = Inr v"
proof -
  have trim: "TrimSpace ''localhost'' = ''localhost''" by (rule TrimSpace_visible; simp add: visible_c_def)
  have "is_ascii ''localhost'' \<and> map lower_c ''localhost'' = ''localhost''" by code_simp
  then have lower: "ToLower (lower_unicode demo_server) ''localhost'' = ''localhost''" by (simp add: ToLower_def)
  have p: "p_TenantUID (mustPrincipal demo_if_match) = ''t''" by (simp add: demo_if_match_def mustPrincipal_def demo_principal_def)
  have row: "loadProject demo_server demo_call ''t'' ''p'' unlocked_db = (project_view unlocked_db demo_project, Row ())"
    by (simp add: loadProject_def query_row_def demo_call_def demo_server_def unlocked_db_def own_project_def demo_project_def)
  have none: "origins_of unlocked_db ''p'' = []" by (simp add: origins_of_def unlocked_db_def demo_oauth_defs)
  have rp: "validRPID demo_server ''localhost''" by (simp add: validRPID_def)
  show ?thesis
    unfolding update_project_plan_def at_account_simps p row prod.case query.case option.case Let_def
    using none rp by (simp add: merged_project_def project_view_def demo_rename_def demo_project_def given_def trim lower)
qed

theorem rp_id_lock_is_final_witness:
  "\<exists>v d1 w d2. update_project_plan demo_server (Some demo_rename) demo_call (at_account demo_if_match) unlocked_db = Inr v \<and>
     lock_rp_id demo_call ''p'' unlocked_db = Some d1 \<and> update_project_exec demo_server v demo_call (at_account demo_if_match) d1 = (w, d2) \<and>
     list_ex (\<lambda>q. pj_uid q = ''p'' \<and> pj_rp_id q = ''shop.example'') (db_projects d2)"
proof -
  obtain v where v: "update_project_plan demo_server (Some demo_rename) demo_call (at_account demo_if_match) unlocked_db = Inr v" using demo_plan ..
  define p where "p = demo_project\<lparr>pj_rp_id_locked_at := Some (1000 * Second)\<rparr>"
  define d1 where "d1 = unlocked_db\<lparr>db_projects := [p]\<rparr>"
  have lock: "lock_rp_id demo_call ''p'' unlocked_db = Some d1"
    by (simp add: lock_rp_id_def stmt_def demo_call_def unlocked_db_def d1_def p_def coalesce_def demo_project_def)
  obtain w d2 where run: "update_project_exec demo_server v demo_call (at_account demo_if_match) d1 = (w, d2)" by fastforce
  have h: "project_history demo_server [d1, unlocked_db]" by (rule project_history.lock [OF project_history.start lock])
  have "project_history demo_server [d2, d1, unlocked_db]" by (rule project_history.update [OF h _ v run]) simp
  moreover have "d1 \<in> set [d2, d1, unlocked_db]" "p \<in> set (db_projects d1)" "pj_rp_id_locked_at p \<noteq> None" by (simp_all add: d1_def p_def)
  ultimately have "list_ex (\<lambda>q. pj_uid q = pj_uid p \<and> pj_tenant_uid q = pj_tenant_uid p \<and> pj_rp_id q = pj_rp_id p \<and>
      pj_rp_id_locked_at q = pj_rp_id_locked_at p) (db_projects d2)" by (rule rp_id_lock_is_final)
  then have "list_ex (\<lambda>q. pj_uid q = ''p'' \<and> pj_rp_id q = ''shop.example'') (db_projects d2)" by (auto simp: list_ex_iff p_def demo_project_def)
  with v lock run show ?thesis by blast
qed

section \<open>The last Origin\<close>

definition origin_invar :: "db \<Rightarrow> bool" where
  "origin_invar d \<longleftrightarrow> distinct (map og_uid (db_origins d)) \<and>
     list_all (\<lambda>p. list_ex (\<lambda>o1. og_project_uid o1 = pj_uid p) (db_origins d)) (db_projects d)"

text \<open>Requests served one after the other.\<close>

inductive serial_history :: "server \<Rightarrow> db \<Rightarrow> bool" for sv where
  start: "origin_invar d \<Longrightarrow> serial_history sv d"
| create: "serial_history sv d \<Longrightarrow> createProject sv body c r d = (w, d') \<Longrightarrow> serial_history sv d'"
| update: "serial_history sv d \<Longrightarrow> updateProject sv body2 c r d = (w, d') \<Longrightarrow> serial_history sv d'"
| create_origin: "serial_history sv d \<Longrightarrow> createOrigin sv body3 c r d = (w, d') \<Longrightarrow> serial_history sv d'"
| delete_origin: "serial_history sv d \<Longrightarrow> deleteOrigin sv c r d = (w, d') \<Longrightarrow> serial_history sv d'"
| other: "serial_history sv d \<Longrightarrow> map pj_uid (db_projects d') = map pj_uid (db_projects d) \<Longrightarrow> db_origins d' = db_origins d \<Longrightarrow> serial_history sv d'"

lemma origin_invar_uids:
  assumes "origin_invar d" "map pj_uid (db_projects d') = map pj_uid (db_projects d)" "db_origins d' = db_origins d"
  shows "origin_invar d'"
proof -
  have "list_all P (map pj_uid (db_projects d')) = list_all P (map pj_uid (db_projects d))" for P by (simp add: assms(2))
  from this [of "\<lambda>u. list_ex (\<lambda>o1. og_project_uid o1 = u) (db_origins d)"] show ?thesis
    using assms(1,3) by (simp add: origin_invar_def list.pred_map comp_def)
qed

lemma origin_invar_more:
  assumes "origin_invar d" "db_origins d' = db_origins d @ [o1]" "\<not> origin_taken o1 d"
    and "db_projects d' = db_projects d \<or> db_projects d' = db_projects d @ [p] \<and> pj_uid p = og_project_uid o1"
  shows "origin_invar d'"
  using assms by (auto simp: origin_invar_def origin_taken_def list_ex_iff list_all_iff)

lemma origin_invar_less:
  assumes "origin_invar d" "db_projects d' = db_projects d" "db_origins d' = sql_delete (\<lambda>o1. og_uid o1 = x \<and> og_project_uid o1 = u) (db_origins d)"
    and "sql_count (\<lambda>o1. og_project_uid o1 = u) (db_origins d) \<ge> 2"
  shows "origin_invar d'"
proof -
  have dist: "distinct (map og_uid (db_origins d'))" using assms(1,3) by (simp add: origin_invar_def sql_delete_def distinct_map_filter)
  have "\<exists>o1 \<in> set (db_origins d). og_project_uid o1 = u \<and> og_uid o1 \<noteq> x"
  proof (rule ccontr)
    assume all: "\<not> ?thesis"
    let ?os = "filter (\<lambda>o1. og_project_uid o1 = u) (db_origins d)"
    have "distinct (map og_uid ?os)" using assms(1) by (simp add: origin_invar_def distinct_map_filter)
    moreover have "set (map og_uid ?os) \<subseteq> {x}" using all by auto
    ultimately have "length (map og_uid ?os) \<le> card {x}" by (metis card_mono distinct_card finite.emptyI finite_insert)
    then show False using assms(4) by (simp add: sql_count_def)
  qed
  then have own: "\<exists>o1 \<in> set (db_origins d'). og_project_uid o1 = u" by (auto simp: assms(3) sql_delete_def)
  have "\<exists>o1 \<in> set (db_origins d'). og_project_uid o1 = pj_uid p" if p: "p \<in> set (db_projects d)" for p
  proof (cases "pj_uid p = u")
    case False
    obtain o1 where "o1 \<in> set (db_origins d)" "og_project_uid o1 = pj_uid p" using assms(1) p by (auto simp: origin_invar_def list_all_iff list_ex_iff)
    then show ?thesis using False by (intro bexI [of _ o1]) (auto simp: assms(3) sql_delete_def)
  qed (use own in simp)
  then show ?thesis using dist assms(2) by (auto simp: origin_invar_def list_all_iff list_ex_iff)
qed

lemma serial_history_invar: "serial_history sv d \<Longrightarrow> origin_invar d"
proof (induction rule: serial_history.induct)
  case (create d body c r w d')
  show ?case
  proof (cases "d' = d")
    case False
    from create_project_shape [OF create(2) this] obtain input canonical where
      "db_projects d' = db_projects d @ [new_project c (p_TenantUID (mustPrincipal r)) input]"
      "db_origins d' = db_origins d @ [add_origin c (ca_uid c ''project'') canonical]" "\<not> origin_taken (add_origin c (ca_uid c ''project'') canonical) d"
      by blast
    then show ?thesis by (intro origin_invar_more [OF create.IH, of d' "add_origin c (ca_uid c ''project'') canonical" "new_project c (p_TenantUID (mustPrincipal r)) input"]) simp_all
  qed (use create.IH in simp)
next
  case (update d body2 c r w d')
  show ?case
  proof (cases "update_project_plan sv body2 c r d")
    case (Inr v)
    then have "update_project_exec sv v c r d = (w, d')" using update(2) by (simp add: updateProject_def)
    from update_exec_shape [OF this] show ?thesis
      by (intro origin_invar_uids [OF update.IH]) (auto simp: sql_update_def update_project_row_def)
  qed (use update in \<open>simp add: updateProject_def\<close>)
next
  case (create_origin d body3 c r w d')
  show ?case
  proof (cases "create_origin_plan sv body3 c r d")
    case (Inr x)
    obtain u canonical where x: "x = (u, canonical)" by fastforce
    then have "create_origin_exec u canonical c r d = (w, d')" using create_origin(2) Inr by (simp add: createOrigin_def)
    from create_origin_exec_shape [OF this] show ?thesis
      using origin_invar_uids [OF create_origin.IH, of d'] origin_invar_more [OF create_origin.IH, of d'] by auto
  qed (use create_origin in \<open>simp add: createOrigin_def\<close>)
next
  case (delete_origin d c r w d')
  show ?case
  proof (cases "delete_origin_plan sv c r d")
    case (Inr u)
    then have "delete_origin_exec sv u c r d = (w, d')" using delete_origin(2) by (simp add: deleteOrigin_def)
    from delete_origin_exec_shape [OF this] delete_plan_shape [OF Inr] show ?thesis
      using origin_invar_uids [OF delete_origin.IH, of d'] origin_invar_less [OF delete_origin.IH, of d'] by auto
  qed (use delete_origin in \<open>simp add: deleteOrigin_def\<close>)
qed (use origin_invar_uids in blast)+

text \<open>Lemma (projects_keep_an_origin): when requests are served one after the other, every project keeps at least one Origin: a new project is created with one,
  and deleting an Origin is refused when it is the last.\<close>

theorem projects_keep_an_origin:
  assumes "serial_history sv d" and "p \<in> set (db_projects d)"
  shows "origins_of d (pj_uid p) \<noteq> []"
proof -
  have "\<exists>o1 \<in> set (db_origins d). og_project_uid o1 = pj_uid p"
    using serial_history_invar [OF assms(1)] assms(2) by (auto simp: origin_invar_def list_all_iff list_ex_iff)
  then have "set (origins_of d (pj_uid p)) \<noteq> {}" by (auto simp: origins_of_def)
  then show ?thesis by (metis list.set(1))
qed

definition demo_origin :: "uid \<Rightarrow> string \<Rightarrow> origin_row" where
  "demo_origin u host = \<lparr>og_uid = u, og_project_uid = ''p'', og_origin = ''https://'' @ host, og_created_at = 0\<rparr>"

definition two_origins_db :: db where
  "two_origins_db = unlocked_db\<lparr>db_origins := [demo_origin ''o1'' ''shop.example'', demo_origin ''o2'' ''www.shop.example'']\<rparr>"

definition at_origin :: "uid \<Rightarrow> http_request" where
  "at_origin u = demo_if_match\<lparr>hq_path := (\<lambda>name. if name = ''project_uid'' then ''p'' else u)\<rparr>"

lemma at_origin_simps [simp]:
  "mustPrincipal (at_origin u) = demo_principal" "hq_path (at_origin u) ''project_uid'' = ''p''" "hq_path (at_origin u) ''origin_uid'' = u"
  by (simp_all add: at_origin_def demo_if_match_def mustPrincipal_def)

lemma demo_delete_plan: "delete_origin_plan demo_server demo_call (at_origin u) two_origins_db = Inr ''p''"
proof -
  have "loadProject demo_server demo_call ''t'' ''p'' two_origins_db = (project_view two_origins_db demo_project, Row ())"
    by (simp add: loadProject_def query_row_def demo_call_def demo_server_def two_origins_db_def unlocked_db_def own_project_def demo_project_def)
  then show ?thesis
    by (simp add: delete_origin_plan_def demo_principal_def given_def origins_of_def two_origins_db_def demo_origin_def demo_project_def)
qed

theorem projects_keep_an_origin_witness:
  "\<exists>w d1 w' d2. deleteOrigin demo_server demo_call (at_origin ''o1'') two_origins_db = (w, d1) \<and>
     deleteOrigin demo_server demo_call (at_origin ''o2'') d1 = (w', d2) \<and> db_origins d1 \<noteq> db_origins two_origins_db \<and> origins_of d2 ''p'' \<noteq> []"
proof -
  obtain w d1 where one: "deleteOrigin demo_server demo_call (at_origin ''o1'') two_origins_db = (w, d1)" by fastforce
  obtain w' d2 where two: "deleteOrigin demo_server demo_call (at_origin ''o2'') d1 = (w', d2)" by fastforce
  have less: "db_origins d1 = [demo_origin ''o2'' ''www.shop.example'']" and d1: "db_projects d1 = [demo_project]"
    using one unfolding deleteOrigin_def demo_delete_plan sum.case
    by (auto simp: delete_origin_exec_def demo_call_def demo_server_def two_origins_db_def unlocked_db_def demo_origin_def sql_count_def sql_delete_def)
  have "origin_invar two_origins_db"
    by (simp add: origin_invar_def two_origins_db_def unlocked_db_def demo_origin_def demo_project_def)
  then have hist: "serial_history demo_server d2"
    using serial_history.start serial_history.delete_origin one two by metis
  have "db_projects d2 = [demo_project]"
    using two d1 unfolding deleteOrigin_def by (auto dest: delete_origin_exec_shape split: sum.splits)
  then have "origins_of d2 (pj_uid demo_project) \<noteq> []" using projects_keep_an_origin [OF hist, of demo_project] by simp
  moreover have "db_origins d1 \<noteq> db_origins two_origins_db" by (simp add: less two_origins_db_def)
  ultimately show ?thesis using one two by (auto simp: demo_project_def)
qed

text \<open>Lemma (last_origins_race): two requests that delete the two Origins of a project at the same time both pass the check, and when both
  deletions run the project has no Origin left: the check and the deletion are separate statements without a lock.\<close>

theorem last_origins_race:
  assumes "delete_origin_plan sv c1 r1 d = Inr u" "delete_origin_plan sv c2 r2 d = Inr u"
    and "map og_uid (origins_of d u) = [hq_path r1 ''origin_uid'', hq_path r2 ''origin_uid'']"
    and "ca_flt c1 = no_faults" "ca_flt c2 = no_faults" "uuid_ok sv (hq_path r1 ''origin_uid'')" "uuid_ok sv (hq_path r2 ''origin_uid'')"
    and "delete_origin_exec sv u c1 r1 d = (w1, d1)" "delete_origin_exec sv u c2 r2 d1 = (w2, d2)"
  shows "origins_of d2 u = []"
proof -
  let ?hit = "\<lambda>r o1. og_uid o1 = hq_path r ''origin_uid'' \<and> og_project_uid o1 = u"
  have gone: "db_origins d' = sql_delete (?hit r) (db_origins d)"
    if "delete_origin_exec sv u c r d = (w, d')" "ca_flt c = no_faults" "uuid_ok sv (hq_path r ''origin_uid'')" for c r d w d'
    using that by (auto simp: delete_origin_exec_def Let_def sql_count_def sql_delete_def filter_empty_conv split: if_splits intro!: filter_True [symmetric])
  have d2: "db_origins d2 = sql_delete (?hit r2) (sql_delete (?hit r1) (db_origins d))"
    using gone [OF assms(8,4,6)] gone [OF assms(9,5,7)] by simp
  have "og_uid ` set (origins_of d u) = {hq_path r1 ''origin_uid'', hq_path r2 ''origin_uid''}" using arg_cong [OF assms(3), of set] by simp
  then have "og_uid o1 \<in> {hq_path r1 ''origin_uid'', hq_path r2 ''origin_uid''}" if "o1 \<in> set (db_origins d)" "og_project_uid o1 = u" for o1
    using that by (auto simp: origins_of_def)
  then have "filter (\<lambda>o1. og_project_uid o1 = u) (db_origins d2) = []" by (auto simp: d2 sql_delete_def filter_empty_conv)
  then show ?thesis by (simp add: origins_of_def)
qed

theorem last_origins_race_witness:
  "\<exists>w1 d1 w2 d2. delete_origin_exec demo_server ''p'' demo_call (at_origin ''o1'') two_origins_db = (w1, d1) \<and>
     delete_origin_exec demo_server ''p'' demo_call (at_origin ''o2'') d1 = (w2, d2) \<and> origins_of d2 ''p'' = []"
proof -
  obtain w1 d1 where one: "delete_origin_exec demo_server ''p'' demo_call (at_origin ''o1'') two_origins_db = (w1, d1)" by fastforce
  obtain w2 d2 where two: "delete_origin_exec demo_server ''p'' demo_call (at_origin ''o2'') d1 = (w2, d2)" by fastforce
  have both: "map og_uid (origins_of two_origins_db ''p'') = [hq_path (at_origin ''o1'') ''origin_uid'', hq_path (at_origin ''o2'') ''origin_uid'']"
    by (simp add: origins_of_def two_origins_db_def demo_origin_def)
  have "origins_of d2 ''p'' = []"
    by (rule last_origins_race [OF demo_delete_plan demo_delete_plan both _ _ _ _ one two]) (simp_all add: demo_call_def demo_server_def)
  with one two show ?thesis by blast
qed

section \<open>Tenants are isolated\<close>

datatype project_write =
  CreateProject "createProjectInput option"
| UpdateProject "updateProjectInput option"
| CreateOrigin "string option"
| DeleteOrigin

primrec write_project :: "server \<Rightarrow> project_write \<Rightarrow> call \<Rightarrow> handler" where
  "write_project sv (CreateProject body) = createProject sv body"
| "write_project sv (UpdateProject body) = updateProject sv body"
| "write_project sv (CreateOrigin body) = createOrigin sv body"
| "write_project sv DeleteOrigin = deleteOrigin sv"

lemma create_effect:
  assumes "createProject sv body c r d = (w, d')"
  shows "db_projects d' = db_projects d \<and> db_origins d' = db_origins d \<or>
    (\<exists>input canonical. db_projects d' = db_projects d @ [new_project c (p_TenantUID (mustPrincipal r)) input] \<and>
      db_origins d' = db_origins d @ [add_origin c (ca_uid c ''project'') canonical] \<and> ca_uid c ''project'' \<notin> pj_uid ` set (db_projects d))"
  using create_project_shape [OF assms] by (cases "d' = d") (auto simp: list_ex_iff)

lemma update_effect:
  assumes "updateProject sv body c r d = (w, d')"
  shows "db_origins d' = db_origins d \<and> (db_projects d' = db_projects d \<or>
    (\<exists>v. db_projects d' = sql_update (updatable (p_TenantUID (mustPrincipal r)) v) (update_project_row c v) (db_projects d)))"
  using assms update_exec_shape by (fastforce simp: updateProject_def split: sum.splits)

lemma create_origin_effect:
  assumes "createOrigin sv body c r d = (w, d')"
  shows "db_projects d' = db_projects d \<and> (db_origins d' = db_origins d \<or>
    (\<exists>p canonical. p \<in> set (db_projects d) \<and> pj_tenant_uid p = p_TenantUID (mustPrincipal r) \<and> db_origins d' = db_origins d @ [add_origin c (pj_uid p) canonical]))"
proof (cases "create_origin_plan sv body c r d")
  case (Inr y)
  obtain u canonical where y: "y = (u, canonical)" by fastforce
  have "create_origin_exec u canonical c r d = (w, d')" using assms Inr by (simp add: createOrigin_def y)
  from create_origin_exec_shape [OF this] create_plan_shape [OF Inr [unfolded y]] show ?thesis by (auto simp: own_project_def)
qed (use assms in \<open>simp add: createOrigin_def\<close>)

lemma delete_origin_effect:
  assumes "deleteOrigin sv c r d = (w, d')"
  shows "db_projects d' = db_projects d \<and> (db_origins d' = db_origins d \<or>
    (\<exists>p x. p \<in> set (db_projects d) \<and> pj_tenant_uid p = p_TenantUID (mustPrincipal r) \<and>
      db_origins d' = sql_delete (\<lambda>o1. og_uid o1 = x \<and> og_project_uid o1 = pj_uid p) (db_origins d)))"
proof (cases "delete_origin_plan sv c r d")
  case (Inr u)
  have "delete_origin_exec sv u c r d = (w, d')" using assms Inr by (simp add: deleteOrigin_def)
  from delete_origin_exec_shape [OF this] delete_plan_shape [OF Inr] show ?thesis by (auto simp: own_project_def)
qed (use assms in \<open>simp add: deleteOrigin_def\<close>)

lemma origins_of_delete:
  assumes "u' \<noteq> u" "db_origins d' = sql_delete (\<lambda>o1. og_uid o1 = x \<and> og_project_uid o1 = u') (db_origins d)"
  shows "origins_of d' u = origins_of d u"
proof -
  have "filter (\<lambda>o1. og_project_uid o1 = u) (db_origins d') = filter (\<lambda>o1. og_project_uid o1 = u) (db_origins d)"
    using assms by (auto simp: sql_delete_def intro!: filter_cong)
  then show ?thesis by (simp add: origins_of_def)
qed

text \<open>C24 (project_writes_isolated): no handler on projects or Origins changes a project of a tenant other than the caller's, nor its Origins, whatever
  identifiers the request names.\<close>

theorem project_writes_isolated:
  assumes "write_project sv x c r d = (w, d')" and "distinct (map pj_uid (db_projects d))"
    and "q \<in> set (db_projects d)" "pj_tenant_uid q \<noteq> p_TenantUID (mustPrincipal r)"
  shows "q \<in> set (db_projects d') \<and> origins_of d' (pj_uid q) = origins_of d (pj_uid q)"
proof -
  have foreign: "pj_uid p \<noteq> pj_uid q" if "p \<in> set (db_projects d)" "pj_tenant_uid p = p_TenantUID (mustPrincipal r)" for p
    using that assms(3,4) inj_onD [OF distinct_map_inj [OF assms(2)]] by auto
  show ?thesis
  proof (cases x)
    case (CreateProject body)
    from create_effect [OF assms(1) [unfolded CreateProject write_project.simps]] assms(3) show ?thesis by (auto simp: origins_of_def)
  next
    case (UpdateProject body)
    have "\<not> updatable (p_TenantUID (mustPrincipal r)) v q" for v using assms(4) by (simp add: updatable_def)
    then show ?thesis using update_effect [OF assms(1) [unfolded UpdateProject write_project.simps]] assms(3)
      by (auto simp: origins_of_def set_sql_update intro: image_eqI [of _ _ q])
  next
    case (CreateOrigin body)
    from create_origin_effect [OF assms(1) [unfolded CreateOrigin write_project.simps]] assms(3) foreign show ?thesis by (auto simp: origins_of_def)
  next
    case DeleteOrigin
    from delete_origin_effect [OF assms(1) [unfolded DeleteOrigin write_project.simps]] assms(3) foreign origins_of_delete show ?thesis
      by (auto simp: origins_of_def)
  qed
qed

theorem project_writes_isolated_witness:
  "\<exists>w d'. write_project demo_server DeleteOrigin demo_call (at_origin ''o1'') (two_origins_db\<lparr>db_projects := [demo_project\<lparr>pj_tenant_uid := ''u''\<rparr>]\<rparr>) = (w, d') \<and>
     length (origins_of d' ''p'') = 2"
proof -
  let ?q = "demo_project\<lparr>pj_tenant_uid := ''u''\<rparr>"
  let ?d = "two_origins_db\<lparr>db_projects := [?q]\<rparr>"
  obtain w d' where run: "write_project demo_server DeleteOrigin demo_call (at_origin ''o1'') ?d = (w, d')" by fastforce
  have "?q \<in> set (db_projects d') \<and> origins_of d' (pj_uid ?q) = origins_of ?d (pj_uid ?q)"
    by (rule project_writes_isolated [OF run]) (simp_all add: demo_principal_def)
  moreover have "length (origins_of ?d (pj_uid ?q)) = 2" by (simp add: origins_of_def two_origins_db_def demo_origin_def demo_project_def)
  moreover have "pj_uid ?q = ''p''" by (simp add: demo_project_def)
  ultimately show ?thesis using run by (auto simp del: write_project.simps)
qed

end
