(* ===== verification/External_Credentials.thy ===== *)
theory External_Credentials
  imports Service_Accounts
begin

text \<open>
  Credentials issued on behalf of an external platform: \<^verbatim>\<open>internal/api/external_credentials.go\<close>. A service account with the scope
  \<open>external_credentials.manage\<close> issues keys for subjects of the tenant; such a key carries a fixed subset of the account's scopes.
  Also \<open>truncateUTF8\<close> of \<^verbatim>\<open>internal/api/external_integrations.go\<close>.
\<close>

section \<open>UTF-8\<close>

text \<open>\<open>utf8.Valid\<close>: a rune of width one is valid when it is ASCII.\<close>

function valid_utf8 :: "nat list \<Rightarrow> bool" where
  "valid_utf8 bs = (if bs = [] then True else (rune_width bs > 1 \<or> hd bs < 0x80) \<and> valid_utf8 (drop (rune_width bs) bs))"
  by pat_completeness auto
termination
  by (relation "measure length") auto

declare valid_utf8.simps [simp del]

definition ValidString :: "string \<Rightarrow> bool" where
  "ValidString s = valid_utf8 (map of_char s)"

lemma ValidString_Nil [simp]: "ValidString []"
  by (simp add: ValidString_def valid_utf8.simps)

function trim_invalid :: "string \<Rightarrow> string" where
  "trim_invalid s = (if ValidString s then s else trim_invalid (butlast s))"
  by pat_completeness auto
termination
proof (relation "measure length")
  fix s :: string
  assume "\<not> ValidString s"
  then have "s \<noteq> []" by auto
  then show "(butlast s, s) \<in> measure length" by simp
qed simp

declare trim_invalid.simps [simp del]

definition truncateUTF8 :: "string \<Rightarrow> nat \<Rightarrow> string" where
  "truncateUTF8 val maximum = (if length val \<le> maximum then val else trim_invalid (take maximum val))"

section \<open>Identifiers and subjects\<close>

definition validExternalCredentialIdentifier :: "string \<Rightarrow> bool" where
  "validExternalCredentialIdentifier val \<longleftrightarrow> val \<noteq> [] \<and> val = TrimSpace val \<and> length val \<le> 200 \<and> ValidString val"

definition externalOAuthSubject :: "server \<Rightarrow> string \<Rightarrow> string option" where
  "externalOAuthSubject sv val =
     (if \<not> validExternalCredentialIdentifier val then None
      else (case Split (CHR ''.'') val of
        [first, second] \<Rightarrow>
          (case (RawURLDecode first, RawURLDecode second) of
             (Some issuer, Some subject) \<Rightarrow>
               if string_of_bytes issuer \<noteq> OAuthIssuer sv \<or> \<not> validExternalCredentialIdentifier (string_of_bytes subject) then None
               else Some (string_of_bytes subject)
           | _ \<Rightarrow> Some val)
      | _ \<Rightarrow> Some val))"

definition subject_active :: "db \<Rightarrow> uid \<Rightarrow> string \<Rightarrow> bool" where
  "subject_active d tenantUID subject \<longleftrightarrow>
     list_ex (\<lambda>o1. su_subject o1 = subject \<and>
        list_ex (\<lambda>m. tm_uid m = su_tenant_member_uid o1 \<and> tm_tenant_uid m = tenantUID \<and> tm_status m = ''active'') (db_members d)) (db_subjects d)"

text \<open>A failing query counts as no.\<close>

definition externalOAuthSubjectActive :: "call \<Rightarrow> uid \<Rightarrow> string \<Rightarrow> db \<Rightarrow> bool" where
  "externalOAuthSubjectActive c tenantUID subject d \<longleftrightarrow> \<not> ca_flt c ''load subject'' \<and> subject_active d tenantUID subject"

text \<open>The values the guard stored in the request; absent ones are empty.\<close>

definition serviceCredentialContext :: "http_request \<Rightarrow> service_context" where
  "serviceCredentialContext r =
     (case hq_service r of
        None \<Rightarrow> \<lparr>serviceCredentialUID = [], serviceAccountUID = [], serviceTenantUID = [], serviceProjectUID = []\<rparr>
      | Some x \<Rightarrow> x)"

text \<open>The fields \<open>installation_id\<close> and \<open>details\<close> of the input are not read.\<close>

record externalCredentialAuthorizationInput =
  xa_Operation :: string
  xa_Subject :: string
  xa_ExternalCustomerID :: string
  xa_DeploymentID :: string

definition authorizeExternalCredentialOperation :: "server \<Rightarrow> externalCredentialAuthorizationInput option \<Rightarrow> call \<Rightarrow> handler" where
  "authorizeExternalCredentialOperation sv body c r d =
     (case body of
        None \<Rightarrow> (invalid_json r, d)
      | Some input \<Rightarrow>
          let tenantUID = serviceTenantUID (serviceCredentialContext r);
              allowed = ((xa_Operation input = ''credentials.create'' \<or> xa_Operation input = ''credentials.revoke'') \<and>
                (case externalOAuthSubject sv (xa_Subject input) of
                   None \<Rightarrow> False
                 | Some subject \<Rightarrow> validExternalCredentialIdentifier (xa_DeploymentID input) \<and> xa_ExternalCustomerID input = tenantUID \<and>
                     externalOAuthSubjectActive c tenantUID subject d)) in
          (with_header ''Cache-Control'' ''private, no-store'' (writeJSON 200 (JObj [(''allowed'', JBool allowed)])), d))"

section \<open>Issuing\<close>

definition externalCredentialActiveLimit :: nat where "externalCredentialActiveLimit = 2"

record externalCredentialIssueInput =
  xi_DeploymentID :: string
  xi_IntegrationID :: string
  xi_EnvironmentID :: string
  xi_AccessInstanceID :: string
  xi_Subject :: string
  xi_Scopes :: "string list option"
  xi_IdempotencyKey :: string
  xi_TTLSeconds :: int
  xi_RotatedFromCredentialID :: string

definition issue_json :: "uid \<Rightarrow> externalCredentialIssueInput \<Rightarrow> json" where
  "issue_json accountUID input =
     JObj [(''service_account_uid'', JStr accountUID),
           (''input'', JObj ([(''deployment_id'', JStr (xi_DeploymentID input)), (''integration_id'', JStr (xi_IntegrationID input)),
              (''environment_id'', JStr (xi_EnvironmentID input)), (''access_instance_id'', JStr (xi_AccessInstanceID input)),
              (''subject'', JStr (xi_Subject input)), (''scopes'', json_option (\<lambda>ss. JArr (map JStr ss)) (xi_Scopes input)),
              (''idempotency_key'', JStr (xi_IdempotencyKey input)), (''ttl_seconds'', JNum (xi_TTLSeconds input))] @
             (if xi_RotatedFromCredentialID input = [] then []
              else [(''rotated_from_credential_id'', JStr (xi_RotatedFromCredentialID input))])))]"

text \<open>An empty request asks for every scope the account can delegate.\<close>

definition requested_scopes :: "string list \<Rightarrow> string list \<Rightarrow> string list" where
  "requested_scopes requested available = (if requested = [] then remdups available else requested)"

definition externalCredentialScopes :: "server \<Rightarrow> string list \<Rightarrow> string list \<Rightarrow> string + string list" where
  "externalCredentialScopes sv requested accountScopes =
     (let available = filter (\<lambda>s. s \<noteq> serviceScopeExternalCredentialsManage) accountScopes in
      if available = [] then Inl ''the management service account has no delegable API scopes''
      else let trimmed = map TrimSpace (requested_scopes requested available) in
        (case find (\<lambda>s. s \<notin> set available) trimmed of
           Some s \<Rightarrow> Inl (''scope '' @ go_Quote sv s @ '' is not delegable by this management connection'')
         | None \<Rightarrow> Inr (sort (remdups trimmed))))"

definition bad_ttl :: "int \<Rightarrow> bool" where
  "bad_ttl ttl \<longleftrightarrow> ttl \<noteq> 0 \<and> (ttl < 300 \<or> ttl > serviceCredentialMaximumTTL div Second)"

definition normalizeExternalCredentialIssue :: "server \<Rightarrow> externalCredentialIssueInput \<Rightarrow> string option" where
  "normalizeExternalCredentialIssue sv input =
     (let key = xi_IdempotencyKey input; rotated = xi_RotatedFromCredentialID input in
      if \<not> validExternalCredentialIdentifier (xi_DeploymentID input) \<or> \<not> validExternalCredentialIdentifier (xi_IntegrationID input) \<or>
         \<not> validExternalCredentialIdentifier (xi_EnvironmentID input) \<or> \<not> validExternalCredentialIdentifier (xi_Subject input) \<or>
         length key < 16 \<or> length key > 200 \<or> key \<noteq> TrimSpace key \<or> xi_AccessInstanceID input \<noteq> [] \<or>
         length (case xi_Scopes input of None \<Rightarrow> [] | Some ss \<Rightarrow> ss) > 20 \<or> bad_ttl (xi_TTLSeconds input)
      then Some ''the external credential request is invalid''
      else if rotated \<noteq> [] \<and> \<not> uuid_ok sv rotated then Some ''rotated_from_credential_id is invalid''
      else None)"

definition external_usable :: "time \<Rightarrow> uid \<Rightarrow> string \<Rightarrow> string \<Rightarrow> service_credential_row \<Rightarrow> bool" where
  "external_usable now accountUID subject integrationID k \<longleftrightarrow> cr_service_account_uid k = accountUID \<and> cr_external_subject k = Some subject \<and>
     cr_external_integration_id k = Some integrationID \<and> cr_status k = ''active'' \<and> cr_expires_at k > now"

definition external_ttl :: "externalCredentialIssueInput \<Rightarrow> duration" where
  "external_ttl input = (if xi_TTLSeconds input > 0 then xi_TTLSeconds input * Second else serviceCredentialDefaultTTL)"

definition external_credential ::
  "server \<Rightarrow> call \<Rightarrow> uid \<Rightarrow> string \<Rightarrow> string list \<Rightarrow> externalCredentialIssueInput \<Rightarrow> string \<Rightarrow> service_credential_row" where
  "external_credential sv c accountUID pfx scopes input plain =
     \<lparr>cr_uid = ca_uid c ''service credential'', cr_service_account_uid = accountUID,
      cr_name = truncateUTF8 (''External platform '' @ xi_IntegrationID input) 100, cr_prefix = pfx,
      cr_fingerprint = key_fingerprint sv plain, cr_secret_hash = SecretHash_of sv plain, cr_effective_scopes = Some scopes,
      cr_external_subject = Some (xi_Subject input), cr_external_integration_id = Some (xi_IntegrationID input), cr_status = ''active'',
      cr_created_by_member_uid = None, cr_created_at = ca_now c, cr_expires_at = ca_now c + external_ttl input, cr_last_used_at = None,
      cr_revoked_at = None, cr_revoked_by_member_uid = None, cr_revocation_reason = None\<rparr>"

definition external_created :: "server \<Rightarrow> string \<Rightarrow> service_credential_row \<Rightarrow> StoredHTTPResponse" where
  "external_created sv plain k =
     \<lparr>sr_Status = 201,
      sr_Headers = Some [(''Content-Type'', [''application/json'']), (''Cache-Control'', [''no-store'']),
        (''Location'', [''/v1/external-platform/credentials/'' @ cr_uid k])],
      sr_Body = Some (json_text sv (JObj [(''credential'', JStr plain), (''credential_id'', JStr (cr_uid k)), (''expires_at'', JNum (cr_expires_at k))]) @
        [char_of (10 :: nat)])\<rparr>"

text \<open>
  The rotation source must be usable by the same subject and integration. A failing query aborts the transaction, so the
  refusal cannot be stored.
\<close>

definition rotation_source :: "server \<Rightarrow> call \<Rightarrow> uid \<Rightarrow> externalCredentialIssueInput \<Rightarrow> db \<Rightarrow> bool query" where
  "rotation_source sv c accountUID input d =
     (case query_row sv c ''load rotation source'' [xi_RotatedFromCredentialID input]
             (\<lambda>k. cr_uid k = xi_RotatedFromCredentialID input \<and> cr_service_account_uid k = accountUID \<and>
                  cr_external_subject k = Some (xi_Subject input) \<and> cr_external_integration_id k = Some (xi_IntegrationID input))
             (db_service_credentials d) of
        NoRows \<Rightarrow> NoRows
      | QueryError \<Rightarrow> QueryError
      | Row k \<Rightarrow> Row (cr_status k = ''active'' \<and> cr_expires_at k > ca_now c))"

definition insert_external ::
  "server \<Rightarrow> call \<Rightarrow> service_context \<Rightarrow> externalCredentialIssueInput \<Rightarrow> string list \<Rightarrow> service_credential_row \<Rightarrow> db \<Rightarrow> db option" where
  "insert_external sv c x input scopes k d =
     Option.bind (insert_credential c k d)
       (project_audit c (serviceTenantUID x) (serviceProjectUID x) ''service_account'' (serviceAccountUID x) ''external_credential.created''
          ''service_credential'' (cr_uid k)
          (JObj [(''external_integration_id'', JStr (xi_IntegrationID input)), (''expires_at'', JNum (cr_expires_at k)),
                 (''scopes'', JArr (map JStr scopes)), (''rotated_from_credential_id'', JStr (xi_RotatedFromCredentialID input))]))"

definition issue_rest ::
  "server \<Rightarrow> call \<Rightarrow> externalCredentialIssueInput \<Rightarrow> IdempotencyRequest \<Rightarrow> uid \<Rightarrow> string list \<Rightarrow> handler" where
  "issue_rest sv c input request lease scopes r d =
     (let x = serviceCredentialContext r; accountUID = serviceAccountUID x; failed = ''could not issue external credential'' in
      if ca_flt c ''count external credentials'' then (fail r 500 ''internal_error'' failed, d)
      else if sql_count (external_usable (ca_now c) accountUID (xi_Subject input) (xi_IntegrationID input)) (db_service_credentials d) \<ge>
              externalCredentialActiveLimit then
        completeServiceAccountProblem sv c r request lease 409 ''external_credential_limit'' ''revoke an active credential before issuing another'' d
      else (case RandomToken (ca_rand c ''service credential'') of
        None \<Rightarrow> (fail r 500 ''internal_error'' failed, d)
      | Some randomSecret \<Rightarrow>
          let pfx = key_prefix c ''ca_xk_'' (pj_environment (project_of d (serviceProjectUID x))); plain = pfx @ ''.'' @ randomSecret;
              k = external_credential sv c accountUID pfx scopes input plain in
          respond_stored sv c r request lease (external_created sv plain k) (insert_external sv c x input scopes k d) failed d))"

definition issue_tx :: "server \<Rightarrow> call \<Rightarrow> externalCredentialIssueInput \<Rightarrow> IdempotencyRequest \<Rightarrow> uid \<Rightarrow> handler" where
  "issue_tx sv c input request lease r d =
     (let x = serviceCredentialContext r; accountUID = serviceAccountUID x; projectUID = serviceProjectUID x; tenantUID = serviceTenantUID x;
          failed = ''could not issue external credential''; refuse = completeServiceAccountProblem sv c r request lease;
          inactive = refuse 403 ''management_connection_disabled'' ''the management service account is not active'' d in
      if ca_flt c ''begin transaction'' then (fail r 500 ''internal_error'' failed, d)
      else (case query_row sv c ''lock service account'' [accountUID, projectUID] (own_account d tenantUID projectUID accountUID) (db_service_accounts d) of
        NoRows \<Rightarrow> inactive
      | QueryError \<Rightarrow> (fail r 500 ''internal_error'' failed, d)
      | Row a \<Rightarrow>
          if sa_status a \<noteq> ''active'' \<or> pj_status (project_of d projectUID) \<noteq> ''active'' \<or>
             serviceScopeExternalCredentialsManage \<notin> set (sa_scopes a) then inactive
          else if ca_flt c ''load subject'' then (fail r 500 ''internal_error'' failed, d)
          else if \<not> subject_active d tenantUID (xi_Subject input) then
            refuse 403 ''subject_not_authorized'' ''the external subject is not an active Tenant Member'' d
          else (case externalCredentialScopes sv (case xi_Scopes input of None \<Rightarrow> [] | Some ss \<Rightarrow> ss) (sa_scopes a) of
            Inl message \<Rightarrow> refuse 422 ''scope_not_delegable'' message d
          | Inr scopes \<Rightarrow>
              if xi_RotatedFromCredentialID input = [] then issue_rest sv c input request lease scopes r d
              else (case rotation_source sv c accountUID input d of
                QueryError \<Rightarrow> (fail r 500 ''internal_error'' ''could not persist service-account result'', d)
              | Row True \<Rightarrow> issue_rest sv c input request lease scopes r d
              | _ \<Rightarrow> refuse 409 ''rotation_source_invalid'' ''the credential selected for rotation is not active for this subject and API'' d))))"

definition issue_request :: "server \<Rightarrow> uid \<Rightarrow> externalCredentialIssueInput \<Rightarrow> IdempotencyRequest" where
  "issue_request sv accountUID input =
     \<lparr>rq_PrincipalType = ''service_account'', rq_PrincipalUID = accountUID, rq_Operation = ''external_credentials.create'',
      rq_Key = xi_IdempotencyKey input, rq_RequestHash = HashIdempotencyRequest sv (json_text sv (issue_json accountUID input)),
      rq_LeaseDuration = 30 * Second, rq_Retention = 24 * Hour\<rparr>"

definition issueExternalCredential :: "server \<Rightarrow> externalCredentialIssueInput option \<Rightarrow> call \<Rightarrow> handler" where
  "issueExternalCredential sv body c r d =
     (case body of
        None \<Rightarrow> (invalid_json r, d)
      | Some raw \<Rightarrow>
          (case externalOAuthSubject sv (xi_Subject raw) of
             None \<Rightarrow> (fail r 422 ''validation_failed'' ''the external credential request is invalid'', d)
           | Some subject \<Rightarrow>
               let input = raw\<lparr>xi_Subject := subject\<rparr>;
                   request = issue_request sv (serviceAccountUID (serviceCredentialContext r)) input in
               (case normalizeExternalCredentialIssue sv input of
                  Some message \<Rightarrow> (fail r 422 ''validation_failed'' message, d)
                | None \<Rightarrow>
                    (case beginIdempotentRequest sv c r request d of
                       (Inl response, d1) \<Rightarrow> (response, d1)
                     | (Inr claim, d1) \<Rightarrow> issue_tx sv c input request (cl_LeaseUID claim) r d1))))"

section \<open>Revoking\<close>

record externalCredentialRevokeInput =
  xr_DeploymentID :: string
  xr_Subject :: string

definition external_hit :: "db \<Rightarrow> service_context \<Rightarrow> uid \<Rightarrow> string \<Rightarrow> service_credential_row \<Rightarrow> bool" where
  "external_hit d x credentialUID subject k \<longleftrightarrow>
     credential_hit d (serviceTenantUID x) (serviceProjectUID x) (serviceAccountUID x) credentialUID k \<and> cr_external_subject k = Some subject"

definition revoke_external_row :: "call \<Rightarrow> service_credential_row \<Rightarrow> service_credential_row" where
  "revoke_external_row c k =
     k\<lparr>cr_status := ''revoked'', cr_revoked_at := coalesce (cr_revoked_at k) (ca_now c),
       cr_revocation_reason := coalesce (cr_revocation_reason k) ''external_platform_revoke''\<rparr>"

definition revokeExternalCredential :: "server \<Rightarrow> externalCredentialRevokeInput option \<Rightarrow> call \<Rightarrow> handler" where
  "revokeExternalCredential sv body c r d =
     (case body of
        None \<Rightarrow> (invalid_json r, d)
      | Some input \<Rightarrow>
          (case externalOAuthSubject sv (xr_Subject input) of
             Some subject \<Rightarrow>
               if \<not> validExternalCredentialIdentifier (xr_DeploymentID input) then
                 (fail r 422 ''validation_failed'' ''the external credential revoke request is invalid'', d)
               else let x = serviceCredentialContext r; credentialUID = hq_path r ''credential_uid''; hit = external_hit d x credentialUID subject;
                        missing = (fail r 404 ''external_credential_not_found'' ''External credential was not found'', d) in
                 if \<not> uuid_ok sv credentialUID then missing
                 else (case query_row sv c ''revoke service credential'' [credentialUID, serviceAccountUID x, serviceProjectUID x, serviceTenantUID x] hit
                              (db_service_credentials d) of
                   NoRows \<Rightarrow> missing
                 | QueryError \<Rightarrow> (fail r 500 ''internal_error'' ''could not revoke external credential'', d)
                 | Row old \<Rightarrow>
                     let d' = d\<lparr>db_service_credentials := sql_update hit (revoke_external_row c) (db_service_credentials d)\<rparr> in
                     (no_content 204,
                      if cr_status old = ''active'' then
                        audit_event c (serviceTenantUID x) (serviceProjectUID x) ''service_account'' (serviceAccountUID x) ''external_credential.revoked''
                          ''service_credential'' credentialUID (JObj []) d'
                      else d'))
           | None \<Rightarrow> (fail r 422 ''validation_failed'' ''the external credential revoke request is invalid'', d)))"

section \<open>Truncation keeps the longest valid prefix\<close>

lemma trim_invalid_longest:
  "prefix (trim_invalid s) s \<and> ValidString (trim_invalid s) \<and> (\<forall>t. prefix t s \<and> ValidString t \<longrightarrow> length t \<le> length (trim_invalid s))"
proof (induction s rule: trim_invalid.induct)
  case (1 s)
  show ?case
  proof (cases "ValidString s")
    case True
    then have "trim_invalid s = s" by (simp add: trim_invalid.simps)
    with True show ?thesis by (auto dest: prefix_length_le)
  next
    case False
    then have step: "trim_invalid s = trim_invalid (butlast s)" by (subst trim_invalid.simps) simp
    have shorter: "prefix t (butlast s)" if "prefix t s" "ValidString t" for t
      using that False by (metis append_butlast_last_id butlast_append prefix_def prefix_order.dual_order.refl prefix_snoc)
    have "prefix (butlast s) s" by (rule prefixeq_butlast)
    with 1 [OF False] step shorter show ?thesis by (metis prefix_order.trans)
  qed
qed

lemma rune_width_le: "rune_width bs \<le> 4"
  by (simp add: rune_width_def split: list.splits)

lemma rune_width_length: "bs \<noteq> [] \<Longrightarrow> rune_width bs \<le> length bs"
  by (auto simp: rune_width_def Suc_le_eq split: list.splits)

lemma rune_width_take:
  assumes "rune_width bs \<le> m" "rune_width bs > 1 \<or> bs \<noteq> [] \<and> hd bs < 0x80"
  shows "rune_width (take m bs) = rune_width bs"
proof (cases bs)
  case (Cons a as)
  show ?thesis
  proof (cases as)
    case (Cons b rest)
    show ?thesis
    proof (cases "m < 2")
      case True
      then have "m = 1" using assms(1) rune_width_pos [of bs] by linarith
      then show ?thesis using assms by (simp add: \<open>bs = a # as\<close> Cons rune_width_def split: if_splits)
    next
      case False
      then obtain k where k: "m = Suc (Suc k)" by (intro that [of "m - 2"]) simp
      have take: "take m bs = a # b # take k rest" and bs: "bs = a # b # rest" by (simp_all add: \<open>bs = a # as\<close> Cons k)
      consider (two) "0xC2 \<le> a \<and> a \<le> 0xDF \<and> utf8_cont b"
        | (three) "0xE0 \<le> a \<and> a \<le> 0xEF \<and> utf8_second a b \<and> rest \<noteq> [] \<and> utf8_cont (rest ! 0)"
        | (four) "0xF0 \<le> a \<and> a \<le> 0xF4 \<and> utf8_second a b \<and> length rest \<ge> 2 \<and> utf8_cont (rest ! 0) \<and> utf8_cont (rest ! 1)"
        | (one) "rune_width bs = 1"
        by (cases "rune_width bs = 1") (auto simp: bs rune_width_def split: if_splits)
      then show ?thesis
      proof cases
        case three
        then have "rune_width bs = 3" by (simp add: bs rune_width_def)
        with three show ?thesis using assms(1) k unfolding take by (simp add: rune_width_def)
      next
        case four
        then have "rune_width bs = 4" by (simp add: bs rune_width_def)
        with four show ?thesis using assms(1) k unfolding take by (simp add: rune_width_def)
      next
        case one
        with assms(2) have "a < 0x80" by (simp add: bs)
        then show ?thesis unfolding take by (simp add: bs rune_width_def)
      qed (unfold take, simp add: bs rune_width_def)
    qed
  qed (use Cons assms rune_width_pos [of bs] in \<open>cases m; simp add: rune_width_def\<close>)
qed (use assms in simp)

lemma valid_utf8_cut:
  assumes "valid_utf8 bs" "n \<le> length bs"
  shows "\<exists>m. m \<le> n \<and> n \<le> m + 3 \<and> valid_utf8 (take m bs)"
  using assms
proof (induction bs arbitrary: n rule: valid_utf8.induct)
  case (1 bs)
  let ?w = "rune_width bs"
  show ?case
  proof (cases "bs = [] \<or> n < ?w")
    case True
    then have "n \<le> 3" using 1(3) rune_width_le [of bs] by auto
    then show ?thesis by (intro exI [of _ 0]) (simp add: valid_utf8.simps)
  next
    case False
    then have ok: "?w > 1 \<or> hd bs < 0x80" "valid_utf8 (drop ?w bs)" using 1(2) by (subst (asm) valid_utf8.simps; simp)+
    have "n - ?w \<le> length (drop ?w bs)" using 1(3) by simp
    then obtain m where m: "m \<le> n - ?w" "n - ?w \<le> m + 3" "valid_utf8 (take m (drop ?w bs))"
      using 1(1) [OF _ ok(2)] False by blast
    have w: "rune_width (take (?w + m) bs) = ?w" using ok(1) False by (intro rune_width_take) auto
    have "hd (take (?w + m) bs) = hd bs" using False by (simp add: hd_take)
    moreover have "drop ?w (take (?w + m) bs) = take m (drop ?w bs)" by (simp add: drop_take)
    ultimately have "valid_utf8 (take (?w + m) bs)" using m(3) ok(1) w by (subst valid_utf8.simps) auto
    then show ?thesis using m(1,2) False by (intro exI [of _ "?w + m"]) auto
  qed
qed

text \<open>Lemma (truncation_exact): \<open>truncateUTF8\<close> returns the longest prefix of at most the maximal number of bytes that is valid UTF-8, and it
  gives up at most three bytes of that maximum; the result never ends in the middle of a character.\<close>

theorem truncation_exact:
  assumes "ValidString val"
  shows "(truncateUTF8 val maximum = t \<longleftrightarrow>
      prefix t val \<and> length t \<le> maximum \<and> ValidString t \<and> (\<forall>u. prefix u val \<and> length u \<le> maximum \<and> ValidString u \<longrightarrow> length u \<le> length t)) \<and>
    min maximum (length val) \<le> length (truncateUTF8 val maximum) + 3"
proof -
  let ?t = "truncateUTF8 val maximum"
  have iff: "prefix u val \<and> length u \<le> maximum \<longleftrightarrow> prefix u (take maximum val)" for u
    using prefix_order.trans [OF _ take_is_prefix, of u maximum val] prefix_length_le [of u "take maximum val"]
    by (auto simp: prefix_def take_append)
  have spec: "prefix ?t val" "length ?t \<le> maximum" "ValidString ?t" "prefix u val \<Longrightarrow> length u \<le> maximum \<Longrightarrow> ValidString u \<Longrightarrow> length u \<le> length ?t" for u
    using assms trim_invalid_longest [of "take maximum val"] iff by (auto simp: truncateUTF8_def dest: prefix_length_le)
  have unique: "t = ?t" if "prefix t val" "length t \<le> maximum" "ValidString t" "\<forall>u. prefix u val \<and> length u \<le> maximum \<and> ValidString u \<longrightarrow> length u \<le> length t"
    using that spec by (metis le_antisym prefix_same_cases prefix_order.eq_iff prefix_length_prefix order_refl)
  have "\<exists>m. m \<le> min maximum (length val) \<and> min maximum (length val) \<le> m + 3 \<and> valid_utf8 (take m (map of_char val))"
    using valid_utf8_cut [of "map of_char val" "min maximum (length val)"] assms by (simp add: ValidString_def)
  then obtain m where m: "m \<le> min maximum (length val)" "min maximum (length val) \<le> m + 3" "ValidString (take m val)"
    by (auto simp: ValidString_def take_map)
  have "m \<le> length ?t" using spec(4) [OF take_is_prefix _ m(3)] m(1) by simp
  then show ?thesis using spec unique m(2) by auto
qed

theorem truncation_exact_witness:
  "ValidString [CHR ''a'', char_of (0xC3 :: nat), char_of (0xA9 :: nat)] \<and>
   truncateUTF8 [CHR ''a'', char_of (0xC3 :: nat), char_of (0xA9 :: nat)] 2 = ''a''"
proof -
  have ok: "ValidString [CHR ''a'', char_of (0xC3 :: nat), char_of (0xA9 :: nat)]" by code_simp
  have no: "\<not> ValidString [CHR ''a'', char_of (0xC3 :: nat)]" by code_simp
  have "ValidString ''a''" by code_simp
  moreover have "length u \<le> 1" if "prefix u [CHR ''a'', char_of (0xC3 :: nat), char_of (0xA9 :: nat)]" "length u \<le> 2" "ValidString u" for u
    using that no by (auto simp: prefix_Cons)
  ultimately have "truncateUTF8 [CHR ''a'', char_of (0xC3 :: nat), char_of (0xA9 :: nat)] 2 = ''a''"
    using truncation_exact [OF ok, of 2 "''a''"] by auto
  with ok show ?thesis by blast
qed

section \<open>What a delegated credential can do\<close>

lemma externalCredentialScopes_InrD:
  assumes "externalCredentialScopes sv requested account = Inr scopes"
  shows "scopes \<noteq> [] \<and> set scopes \<subseteq> set account - {serviceScopeExternalCredentialsManage} \<and>
    (requested \<noteq> [] \<longrightarrow> set scopes = TrimSpace ` set requested) \<and> sorted scopes \<and> distinct scopes"
proof -
  let ?available = "filter (\<lambda>s. s \<noteq> serviceScopeExternalCredentialsManage) account"
  have some: "?available \<noteq> []" and none: "find (\<lambda>s. s \<notin> set ?available) (map TrimSpace (requested_scopes requested ?available)) = None"
    and scopes: "scopes = sort (remdups (map TrimSpace (requested_scopes requested ?available)))"
    using assms by (auto simp: externalCredentialScopes_def Let_def simp del: filter_empty_conv split: if_splits option.splits)
  have "requested_scopes requested ?available \<noteq> []" using some by (auto simp: requested_scopes_def simp del: filter_empty_conv)
  moreover have "set scopes = TrimSpace ` set (requested_scopes requested ?available)" by (simp add: scopes)
  ultimately have "scopes \<noteq> []" by (metis image_is_empty set_empty)
  moreover have "sorted scopes" "distinct scopes" by (simp_all add: scopes)
  ultimately show ?thesis using none by (auto simp: scopes find_None_iff requested_scopes_def)
qed

lemma issue_rest_cases:
  assumes "issue_rest sv c input request lease scopes r d = (w, d')"
  obtains (refused) t where "d' = d\<lparr>db_idempotency := t\<rparr>"
  | (issued) rnd e t k plain where "RandomToken (ca_rand c ''service credential'') = Some rnd"
      "sql_count (external_usable (ca_now c) (serviceAccountUID (serviceCredentialContext r)) (xi_Subject input) (xi_IntegrationID input)) (db_service_credentials d) < 2"
      "plain = key_prefix c ''ca_xk_'' (pj_environment (project_of d (serviceProjectUID (serviceCredentialContext r)))) @ ''.'' @ rnd"
      "k = external_credential sv c (serviceAccountUID (serviceCredentialContext r))
             (key_prefix c ''ca_xk_'' (pj_environment (project_of d (serviceProjectUID (serviceCredentialContext r))))) scopes input plain"
      "\<not> list_ex (\<lambda>x. cr_uid x = cr_uid k \<or> cr_prefix x = cr_prefix k \<or> cr_fingerprint x = cr_fingerprint k) (db_service_credentials d)"
      "d' = d\<lparr>db_service_credentials := db_service_credentials d @ [k], db_audit := e, db_idempotency := t\<rparr>"
      "w = writeStoredResponse (external_created sv plain k)"
proof (cases "\<exists>t. d' = d\<lparr>db_idempotency := t\<rparr>")
  case True
  then show ?thesis using refused by blast
next
  case False
  let ?x = "serviceCredentialContext r"
  let ?pfx = "key_prefix c ''ca_xk_'' (pj_environment (project_of d (serviceProjectUID ?x)))"
  have kept: "d' \<noteq> d" using False by (metis db.surjective db.update_convs(32))
  have no: "completeServiceAccountProblem sv c r request lease status code detail d \<noteq> (w, d')" for status code detail
    using False refusal_keeps by blast
  obtain rnd where few: "sql_count (external_usable (ca_now c) (serviceAccountUID ?x) (xi_Subject input) (xi_IntegrationID input)) (db_service_credentials d) < 2"
    and rnd: "RandomToken (ca_rand c ''service credential'') = Some rnd"
    using assms no kept by (auto simp: issue_rest_def Let_def externalCredentialActiveLimit_def split: if_splits option.splits)
  define plain where "plain = ?pfx @ ''.'' @ rnd"
  define k where "k = external_credential sv c (serviceAccountUID ?x) ?pfx scopes input plain"
  have "respond_stored sv c r request lease (external_created sv plain k) (insert_external sv c ?x input scopes k d) ''could not issue external credential'' d = (w, d')"
    using assms no kept rnd few unfolding issue_rest_def Let_def plain_def k_def
    by (auto simp: externalCredentialActiveLimit_def split: if_splits)
  then show ?thesis
  proof (cases rule: respond_stored_cases)
    case failed
    then show ?thesis using kept by simp
  next
    case (stored d2 t)
    then obtain e where d2: "d2 = d\<lparr>db_service_credentials := db_service_credentials d @ [k], db_audit := e\<rparr>"
      "\<not> list_ex (\<lambda>x. cr_uid x = cr_uid k \<or> cr_prefix x = cr_prefix k \<or> cr_fingerprint x = cr_fingerprint k) (db_service_credentials d)"
      using insert_credential_shape unfolding insert_external_def by blast
    note new = issued [where rnd = rnd and k = k and e = e and t = t and plain = plain]
    show ?thesis by (rule new) (use rnd few plain_def k_def d2 stored in simp_all)
  qed
qed

lemma issue_tx_cases:
  assumes "issue_tx sv c input request lease r d = (w, d')" "\<not> (\<exists>t. d' = d\<lparr>db_idempotency := t\<rparr>)"
  obtains a scopes where "issue_rest sv c input request lease scopes r d = (w, d')"
      "a \<in> set (db_service_accounts d)"
      "own_account d (serviceTenantUID (serviceCredentialContext r)) (serviceProjectUID (serviceCredentialContext r)) (serviceAccountUID (serviceCredentialContext r)) a"
      "sa_status a = ''active''" "pj_status (project_of d (serviceProjectUID (serviceCredentialContext r))) = ''active''"
      "serviceScopeExternalCredentialsManage \<in> set (sa_scopes a)"
      "subject_active d (serviceTenantUID (serviceCredentialContext r)) (xi_Subject input)"
      "externalCredentialScopes sv (case xi_Scopes input of None \<Rightarrow> [] | Some ss \<Rightarrow> ss) (sa_scopes a) = Inr scopes"
      "xi_RotatedFromCredentialID input \<noteq> [] \<Longrightarrow> rotation_source sv c (serviceAccountUID (serviceCredentialContext r)) input d = Row True"
proof -
  let ?x = "serviceCredentialContext r"
  have kept: "d' \<noteq> d" using assms(2) by (metis db.surjective db.update_convs(32))
  have no: "completeServiceAccountProblem sv c r request lease status code detail d \<noteq> (w, d')" for status code detail
    using assms(2) refusal_keeps by blast
  have "\<exists>a. sql_row (own_account d (serviceTenantUID ?x) (serviceProjectUID ?x) (serviceAccountUID ?x)) (db_service_accounts d) = Some a \<and>
      sa_status a = ''active'' \<and> pj_status (project_of d (serviceProjectUID ?x)) = ''active'' \<and> serviceScopeExternalCredentialsManage \<in> set (sa_scopes a) \<and>
      subject_active d (serviceTenantUID ?x) (xi_Subject input) \<and>
      (\<exists>scopes. externalCredentialScopes sv (case xi_Scopes input of None \<Rightarrow> [] | Some ss \<Rightarrow> ss) (sa_scopes a) = Inr scopes \<and>
        issue_rest sv c input request lease scopes r d = (w, d') \<and>
        (xi_RotatedFromCredentialID input \<noteq> [] \<longrightarrow> rotation_source sv c (serviceAccountUID ?x) input d = Row True))"
    using assms(1) no kept unfolding issue_tx_def Let_def
    by (auto split: if_split_asm query.splits sum.splits bool.splits dest!: query_row_RowD)
  then obtain a scopes where row: "sql_row (own_account d (serviceTenantUID ?x) (serviceProjectUID ?x) (serviceAccountUID ?x)) (db_service_accounts d) = Some a"
    and rest: "sa_status a = ''active''" "pj_status (project_of d (serviceProjectUID ?x)) = ''active''" "serviceScopeExternalCredentialsManage \<in> set (sa_scopes a)"
      "subject_active d (serviceTenantUID ?x) (xi_Subject input)"
      "externalCredentialScopes sv (case xi_Scopes input of None \<Rightarrow> [] | Some ss \<Rightarrow> ss) (sa_scopes a) = Inr scopes"
      "issue_rest sv c input request lease scopes r d = (w, d')"
      "xi_RotatedFromCredentialID input \<noteq> [] \<longrightarrow> rotation_source sv c (serviceAccountUID ?x) input d = Row True" by blast
  show ?thesis by (rule that [of scopes a]) (use sql_row_SomeD [OF row] rest in simp_all)
qed

lemma issue_cases:
  assumes "issueExternalCredential sv body c r d = (w, d')"
  obtains (refused) t where "d' = d\<lparr>db_idempotency := t\<rparr>"
  | (issued) raw subject input request lease t where "body = Some raw" "externalOAuthSubject sv (xi_Subject raw) = Some subject"
      "input = raw\<lparr>xi_Subject := subject\<rparr>" "normalizeExternalCredentialIssue sv input = None"
      "issue_tx sv c input request lease r (d\<lparr>db_idempotency := t\<rparr>) = (w, d')"
proof (cases "\<exists>t. d' = d\<lparr>db_idempotency := t\<rparr>")
  case True
  then show ?thesis using refused by blast
next
  case False
  then have kept: "d' \<noteq> d" by (metis db.surjective db.update_convs(32))
  obtain raw subject where raw: "body = Some raw" "externalOAuthSubject sv (xi_Subject raw) = Some subject"
      "normalizeExternalCredentialIssue sv (raw\<lparr>xi_Subject := subject\<rparr>) = None"
    using assms kept by (auto simp: issueExternalCredential_def Let_def split: option.splits)
  define input where "input = raw\<lparr>xi_Subject := subject\<rparr>"
  define request where "request = issue_request sv (serviceAccountUID (serviceCredentialContext r)) input"
  obtain res d1 where begun: "beginIdempotentRequest sv c r request d = (res, d1)" by fastforce
  then obtain t where t: "d1 = d\<lparr>db_idempotency := t\<rparr>" by (rule begin_shape)
  have "(case res of Inl response \<Rightarrow> (response, d1) | Inr claim \<Rightarrow> issue_tx sv c input request (cl_LeaseUID claim) r d1) = (w, d')"
    using assms begun unfolding issueExternalCredential_def raw option.case Let_def input_def [symmetric] request_def [symmetric]
    by (simp add: raw(3) [folded input_def])
  then obtain lease where "issue_tx sv c input request lease r d1 = (w, d')" using False t by (auto split: sum.splits)
  then show ?thesis using issued raw t by (simp add: input_def)
qed

lemma ttl_bounds:
  assumes "\<not> bad_ttl (xi_TTLSeconds input)"
  shows "5 * Minute \<le> external_ttl input \<and> external_ttl input \<le> 365 * 24 * Hour"
  using assms by (auto simp: bad_ttl_def external_ttl_def serviceCredentialMaximumTTL_def serviceCredentialDefaultTTL_def time_defs)

lemma truncated_length: "length (truncateUTF8 val n) \<le> n"
  using trim_invalid_longest [of "take n val"] by (auto simp: truncateUTF8_def dest: prefix_length_le)

lemma issue_outcome:
  assumes "issueExternalCredential sv body c r d = (w, d')" "db_service_credentials d' \<noteq> db_service_credentials d" "x = serviceCredentialContext r"
  obtains a scopes input rnd k plain where "a \<in> set (db_service_accounts d)"
      "own_account d (serviceTenantUID x) (serviceProjectUID x) (serviceAccountUID x) a" "sa_status a = ''active''"
      "pj_status (project_of d (serviceProjectUID x)) = ''active''" "serviceScopeExternalCredentialsManage \<in> set (sa_scopes a)"
      "subject_active d (serviceTenantUID x) (xi_Subject input)" "\<not> bad_ttl (xi_TTLSeconds input)"
      "externalCredentialScopes sv (case xi_Scopes input of None \<Rightarrow> [] | Some ss \<Rightarrow> ss) (sa_scopes a) = Inr scopes"
      "RandomToken (ca_rand c ''service credential'') = Some rnd"
      "sql_count (external_usable (ca_now c) (serviceAccountUID x) (xi_Subject input) (xi_IntegrationID input)) (db_service_credentials d) < 2"
      "plain = cr_prefix k @ ''.'' @ rnd"
      "k = external_credential sv c (serviceAccountUID x) (key_prefix c ''ca_xk_'' (pj_environment (project_of d (serviceProjectUID x)))) scopes input plain"
      "\<not> list_ex (\<lambda>y. cr_prefix y = cr_prefix k) (db_service_credentials d)" "db_service_credentials d' = db_service_credentials d @ [k]"
      "db_service_accounts d' = db_service_accounts d" "db_projects d' = db_projects d" "w = writeStoredResponse (external_created sv plain k)"
  using assms(1)
proof (cases rule: issue_cases)
  case (refused t)
  then show ?thesis using assms(2) by simp
next
  case (issued raw subject input request lease t)
  let ?d = "d\<lparr>db_idempotency := t\<rparr>"
  have changed: "\<not> (\<exists>t'. d' = ?d\<lparr>db_idempotency := t'\<rparr>)" using assms(2) by auto
  have ttl: "\<not> bad_ttl (xi_TTLSeconds input)" using issued(4) by (auto simp: normalizeExternalCredentialIssue_def Let_def split: if_splits)
  have same: "own_account ?d = own_account d" "project_of ?d = project_of d" "subject_active ?d = subject_active d"
    by (simp_all add: fun_eq_iff own_account_def project_of_def subject_active_def)
  from issued(5) changed show ?thesis
  proof (rule issue_tx_cases)
    fix a scopes
    assume rest: "issue_rest sv c input request lease scopes r ?d = (w, d')"
    note a = assms(3) [symmetric] same
    assume facts: "a \<in> set (db_service_accounts ?d)" "own_account ?d (serviceTenantUID (serviceCredentialContext r)) (serviceProjectUID (serviceCredentialContext r)) (serviceAccountUID (serviceCredentialContext r)) a"
      "sa_status a = ''active''" "pj_status (project_of ?d (serviceProjectUID (serviceCredentialContext r))) = ''active''" "serviceScopeExternalCredentialsManage \<in> set (sa_scopes a)"
      "subject_active ?d (serviceTenantUID (serviceCredentialContext r)) (xi_Subject input)"
      "externalCredentialScopes sv (case xi_Scopes input of None \<Rightarrow> [] | Some ss \<Rightarrow> ss) (sa_scopes a) = Inr scopes"
    from rest show ?thesis
    proof (cases rule: issue_rest_cases)
      case (refused t')
      then show ?thesis using changed by blast
    next
      case new: (issued rnd e t' k plain)
      have "plain = cr_prefix k @ ''.'' @ rnd" by (simp add: new(3,4) external_credential_def)
      then show ?thesis using new(5)
        by (intro that [of a input scopes rnd plain k]) (use facts new ttl a in \<open>simp_all add: list_ex_iff\<close>)
    qed
  qed
qed


section \<open>Issuer-qualified subjects\<close>

lemma url_alphabet_visible: "ch \<in> set url_alphabet \<Longrightarrow> ch \<noteq> CHR ''.'' \<and> visible_c ch \<and> of_char ch < (128 :: nat)"
proof -
  have "list_all (\<lambda>ch. ch \<noteq> CHR ''.'' \<and> visible_c ch \<and> of_char ch < (128 :: nat)) url_alphabet" by code_simp
  then show "ch \<in> set url_alphabet \<Longrightarrow> ch \<noteq> CHR ''.'' \<and> visible_c ch \<and> of_char ch < (128 :: nat)" by (auto simp: list_all_iff)
qed

lemma valid_utf8_ascii: "list_all (\<lambda>b. b < 128) bs \<Longrightarrow> valid_utf8 bs"
proof (induction bs)
  case (Cons a bs)
  then have "rune_width (a # bs) = 1" by (simp add: rune_width_def split: list.splits)
  with Cons show ?case by (subst valid_utf8.simps) simp
qed (simp add: valid_utf8.simps)

text \<open>The identifier an external platform forms from an issuer and a subject.\<close>

definition qualified_subject :: "string \<Rightarrow> string \<Rightarrow> string" where
  "qualified_subject issuer subject = RawURLEncode (bytes_of issuer) @ ''.'' @ RawURLEncode (bytes_of subject)"

lemma qualified_valid:
  assumes "length (qualified_subject issuer subject) \<le> 200"
  shows "validExternalCredentialIdentifier (qualified_subject issuer subject)"
proof -
  have chars: "visible_c ch \<and> of_char ch < (128 :: nat)" if "ch \<in> set (qualified_subject issuer subject)" for ch
  proof -
    have "visible_c (CHR ''.'')" by code_simp
    then show ?thesis using that RawURLEncode_chars url_alphabet_visible by (fastforce simp: qualified_subject_def)
  qed
  have "qualified_subject issuer subject \<noteq> []" by (simp add: qualified_subject_def)
  then have "TrimSpace (qualified_subject issuer subject) = qualified_subject issuer subject"
    using chars by (intro TrimSpace_visible) simp_all
  moreover have "ValidString (qualified_subject issuer subject)"
    unfolding ValidString_def using chars by (intro valid_utf8_ascii) (auto simp: list_all_iff)
  ultimately show ?thesis using assms by (simp add: validExternalCredentialIdentifier_def) (simp add: qualified_subject_def)
qed

text \<open>Lemma (qualified_subject_decodes): the issuer-qualified identifier of a subject is accepted exactly when the issuer is this server's and
  the subject a valid identifier, and stands for exactly that subject; a subject qualified with another issuer is refused. An
  unqualified identifier, one that does not contain exactly one dot, stands for itself.\<close>

theorem qualified_subject_decodes:
  assumes "length (qualified_subject issuer subject) \<le> 200"
  shows "externalOAuthSubject sv (qualified_subject issuer subject) =
      (if issuer = OAuthIssuer sv \<and> validExternalCredentialIdentifier subject then Some subject else None) \<and>
    (count_list plain (CHR ''.'') \<noteq> 1 \<longrightarrow>
      externalOAuthSubject sv plain = (if validExternalCredentialIdentifier plain then Some plain else None))"
proof
  have "CHR ''.'' \<notin> set (RawURLEncode bs)" for bs using RawURLEncode_chars [of bs] url_alphabet_visible by blast
  then have "Split (CHR ''.'') (qualified_subject issuer subject) = [RawURLEncode (bytes_of issuer), RawURLEncode (bytes_of subject)]"
    by (simp add: qualified_subject_def Split_append_sep Split_no_sep)
  then show "externalOAuthSubject sv (qualified_subject issuer subject) =
      (if issuer = OAuthIssuer sv \<and> validExternalCredentialIdentifier subject then Some subject else None)"
    using qualified_valid [OF assms] by (auto simp: externalOAuthSubject_def RawURLDecode_Encode)
next
  have "length (Split sep s) = Suc (count_list s sep)" for sep s
    by (induction s) (auto split: list.splits)
  then show "count_list plain (CHR ''.'') \<noteq> 1 \<longrightarrow>
      externalOAuthSubject sv plain = (if validExternalCredentialIdentifier plain then Some plain else None)"
    by (auto simp: externalOAuthSubject_def split: list.splits) (metis One_nat_def length_Cons list.size(3) nat.inject)
qed

theorem qualified_subject_decodes_witness:
  "externalOAuthSubject demo_server (qualified_subject ''https://elsewhere'' ''sub'') = None"
proof -
  have "length (qualified_subject ''https://elsewhere'' ''sub'') \<le> 200" by (simp add: qualified_subject_def length_RawURLEncode)
  moreover have "''https://elsewhere'' \<noteq> OAuthIssuer demo_server" by (simp add: demo_server_def)
  ultimately show ?thesis using qualified_subject_decodes [of "''https://elsewhere''" "''sub''" demo_server] by simp
qed

section \<open>An example\<close>

definition delegation_db :: db where
  "delegation_db = service_db\<lparr>db_subjects := [\<lparr>su_uid = ''s'', su_application_uid = ''a'', su_tenant_member_uid = ''m'', su_subject = ''sub''\<rparr>]\<rparr>"

definition management_request :: http_request where
  "management_request = demo_request\<lparr>hq_service := Some \<lparr>serviceCredentialUID = ''k0'', serviceAccountUID = ''acc'', serviceTenantUID = ''t'',
     serviceProjectUID = ''p''\<rparr>\<rparr>"

definition demo_issue :: externalCredentialIssueInput where
  "demo_issue = \<lparr>xi_DeploymentID = ''dep'', xi_IntegrationID = ''int'', xi_EnvironmentID = ''env'', xi_AccessInstanceID = [], xi_Subject = ''sub'',
     xi_Scopes = None, xi_IdempotencyKey = ''key-0123456789abc'', xi_TTLSeconds = 0, xi_RotatedFromCredentialID = []\<rparr>"

lemma plain_identifier:
  assumes "s \<noteq> []" "length s \<le> 200" "list_all (\<lambda>ch. visible_c ch \<and> of_char ch < (128 :: nat)) s"
  shows "validExternalCredentialIdentifier s"
proof -
  have "TrimSpace s = s" using assms by (intro TrimSpace_visible) (auto simp: list_all_iff)
  moreover have "ValidString s" unfolding ValidString_def using assms(3) by (intro valid_utf8_ascii) (auto simp: list_all_iff)
  ultimately show ?thesis using assms by (simp add: validExternalCredentialIdentifier_def)
qed

lemma demo_issued:
  "\<exists>w d'. issueExternalCredential demo_server (Some demo_issue) demo_call management_request delegation_db = (w, d') \<and> db_service_credentials d' \<noteq> []"
proof -
  define request where "request = issue_request demo_server ''acc'' demo_issue"
  let ?d = "delegation_db\<lparr>db_idempotency := [claim_row (1000 * Second) ''u-idempotency lease'' request]\<rparr>"
  have ids: "validExternalCredentialIdentifier ''dep''" "validExternalCredentialIdentifier ''int''" "validExternalCredentialIdentifier ''env''"
      "validExternalCredentialIdentifier ''sub''"
    by (rule plain_identifier; simp add: visible_c_def)+
  have key: "TrimSpace ''key-0123456789abc'' = ''key-0123456789abc''" "TrimSpace ''acc'' = ''acc''" by (rule TrimSpace_visible; simp add: visible_c_def)+
  have subject: "externalOAuthSubject demo_server (xi_Subject demo_issue) = Some ''sub''" "demo_issue\<lparr>xi_Subject := ''sub''\<rparr> = demo_issue"
    using ids(4) by (simp_all add: demo_issue_def externalOAuthSubject_def)
  have normal: "normalizeExternalCredentialIssue demo_server demo_issue = None"
    using ids key(1) by (simp add: normalizeExternalCredentialIssue_def demo_issue_def bad_ttl_def)
  have types: "idempotencyOperation ''external_credentials.create''" "idempotencyPrincipalType ''service_account''" "\<not> ContainsControl ''key-0123456789abc''"
    by (simp_all add: idempotencyOperation_def idempotencyPrincipalType_def head_tail_match_def char_class_defs less_eq_char_def)
  have ok: "validateIdempotencyRequest request = None"
    using types key by (simp add: validateIdempotencyRequest_def request_def issue_request_def demo_issue_def time_defs)
  have idem: "db_idempotency delegation_db = []" by (simp add: delegation_db_def service_db_def demo_oauth_defs)
  have x: "serviceCredentialContext management_request = \<lparr>serviceCredentialUID = ''k0'', serviceAccountUID = ''acc'', serviceTenantUID = ''t'', serviceProjectUID = ''p''\<rparr>"
    by (simp add: serviceCredentialContext_def management_request_def)
  have flt: "\<not> ca_flt demo_call site" for site by (simp add: demo_call_def)
  have row: "query_row demo_server demo_call ''lock service account'' [''acc'', ''p''] (own_account ?d ''t'' ''p'' ''acc'') (db_service_accounts ?d) = Row demo_account"
    by (simp add: query_row_def demo_call_def demo_server_def delegation_db_def service_db_def own_account_def own_project_def demo_account_def demo_project_def)
  have status: "sa_status demo_account = ''active''" "pj_status (project_of ?d ''p'') = ''active''" "serviceScopeExternalCredentialsManage \<in> set (sa_scopes demo_account)"
    by (simp_all add: demo_account_def project_of_def delegation_db_def service_db_def demo_project_def serviceScopeExternalCredentialsManage_def)
  have active: "subject_active ?d ''t'' (xi_Subject demo_issue)"
    by (simp add: subject_active_def delegation_db_def demo_issue_def service_db_def demo_oauth_defs)
  have "TrimSpace ''project_users.read'' = ''project_users.read''" by (rule TrimSpace_visible; simp add: visible_c_def)
  then have scopes: "externalCredentialScopes demo_server [] (sa_scopes demo_account) = Inr [''project_users.read'']"
    by (simp add: externalCredentialScopes_def requested_scopes_def demo_account_def serviceScopeExternalCredentialsManage_def)
  have none: "db_service_credentials ?d = []" by (simp add: delegation_db_def service_db_def demo_oauth_defs)
  obtain rnd where rnd: "RandomToken (ca_rand demo_call ''service credential'') = Some rnd"
    by (auto simp: RandomToken_def rand_Read_def demo_call_def)
  let ?pfx = "key_prefix demo_call ''ca_xk_'' (pj_environment (project_of ?d ''p''))"
  let ?k = "external_credential demo_server demo_call ''acc'' ?pfx [''project_users.read''] demo_issue (?pfx @ ''.'' @ rnd)"
  let ?x = "serviceCredentialContext management_request"
  have later: "cr_created_at ?k < cr_expires_at ?k"
    by (simp add: external_credential_def external_ttl_def demo_issue_def serviceCredentialDefaultTTL_def time_defs)
  then have "\<exists>d2. insert_external demo_server demo_call ?x demo_issue [''project_users.read''] ?k ?d = Some d2 \<and>
      db_idempotency d2 = db_idempotency ?d \<and> db_service_credentials d2 = [?k]"
    by (simp add: insert_external_def insert_credential_def project_audit_def add_audit_def stmt_def flt none)
  then obtain d2 where ins: "insert_external demo_server demo_call ?x demo_issue [''project_users.read''] ?k ?d = Some d2"
      "db_idempotency d2 = db_idempotency ?d" "db_service_credentials d2 = [?k]" by blast
  let ?resp = "external_created demo_server (?pfx @ ''.'' @ rnd) ?k"
  have "\<exists>t. respond_stored demo_server demo_call management_request request ''u-idempotency lease'' ?resp (Some d2)
      ''could not issue external credential'' ?d = (writeStoredResponse ?resp, d2\<lparr>db_idempotency := t\<rparr>)"
    by (rule demo_responded [OF ok]) (simp_all add: ins(2) external_created_def)
  then obtain t where resp: "respond_stored demo_server demo_call management_request request ''u-idempotency lease'' ?resp (Some d2)
      ''could not issue external credential'' ?d = (writeStoredResponse ?resp, d2\<lparr>db_idempotency := t\<rparr>)" ..
  have rest: "issue_rest demo_server demo_call demo_issue request ''u-idempotency lease'' [''project_users.read''] management_request ?d =
      (writeStoredResponse ?resp, d2\<lparr>db_idempotency := t\<rparr>)"
    using ins(1) resp unfolding issue_rest_def Let_def x service_context.select_convs rnd option.case none
    by (simp add: sql_count_def externalCredentialActiveLimit_def flt)
  have tx: "issue_tx demo_server demo_call demo_issue request ''u-idempotency lease'' management_request ?d = (writeStoredResponse ?resp, d2\<lparr>db_idempotency := t\<rparr>)"
    unfolding issue_tx_def Let_def x service_context.select_convs row query.case
    using status active scopes rest flt by (simp add: demo_issue_def)
  have "issueExternalCredential demo_server (Some demo_issue) demo_call management_request delegation_db = (writeStoredResponse ?resp, d2\<lparr>db_idempotency := t\<rparr>)"
    unfolding issueExternalCredential_def option.case subject Let_def x service_context.select_convs normal request_def [symmetric] demo_begun [OF ok idem] prod.case sum.case
    using tx by simp
  then show ?thesis using ins(3) by simp
qed


end
