(* ===== verification/Project_Users.thy ===== *)
theory Project_Users
  imports Projects External_Credentials
begin

text \<open>
  The users of a project, their sessions and passkeys: \<^verbatim>\<open>internal/api/users.go\<close>. The routes admit members of the tenant and service accounts
  of the project. \<open>listActivity\<close>, which lists audit events, is not modelled: audit rows carry no time here.
\<close>

section \<open>Who may act\<close>

definition projectTenant :: "server \<Rightarrow> call \<Rightarrow> uid \<Rightarrow> db \<Rightarrow> uid query" where
  "projectTenant sv c projectUID d =
     (case query_row sv c ''project tenant'' [projectUID] (\<lambda>p. pj_uid p = projectUID) (db_projects d) of
        QueryError \<Rightarrow> QueryError | NoRows \<Rightarrow> NoRows | Row p \<Rightarrow> Row (pj_tenant_uid p))"

text \<open>\<open>contextString\<close>: the value the service guard stored in the request, or the empty string.\<close>

definition context_project :: "http_request \<Rightarrow> uid" where
  "context_project r = (case hq_service r of None \<Rightarrow> [] | Some x \<Rightarrow> serviceProjectUID x)"

definition context_account :: "http_request \<Rightarrow> uid" where
  "context_account r = (case hq_service r of None \<Rightarrow> [] | Some x \<Rightarrow> serviceAccountUID x)"

definition authorizedProject :: "server \<Rightarrow> call \<Rightarrow> http_request \<Rightarrow> db \<Rightarrow> (uid \<times> uid) option" where
  "authorizedProject sv c r d =
     (let projectUID = hq_path r ''project_uid'' in
      if context_project r \<noteq> [] then
        (case projectTenant sv c projectUID d of
           Row tenant \<Rightarrow> if context_project r = projectUID then Some (projectUID, tenant) else None
         | _ \<Rightarrow> None)
      else (case hq_principal r of
        None \<Rightarrow> None
      | Some p \<Rightarrow> if ownsProject sv c (p_TenantUID p) projectUID d then Some (projectUID, p_TenantUID p) else None))"

definition requestActor :: "http_request \<Rightarrow> string \<times> uid" where
  "requestActor r = (case hq_principal r of Some p \<Rightarrow> (''tenant_member'', p_MemberUID p) | None \<Rightarrow> (''service_account'', context_account r))"

definition user_audit :: "call \<Rightarrow> http_request \<Rightarrow> uid \<Rightarrow> uid \<Rightarrow> string \<Rightarrow> string \<Rightarrow> uid \<Rightarrow> json \<Rightarrow> db \<Rightarrow> db" where
  "user_audit c r tenantUID projectUID action targetType target metadata =
     audit_event c tenantUID projectUID (fst (requestActor r)) (snd (requestActor r)) action targetType target metadata"

section \<open>Reading users\<close>

record ProjectUser =
  vu_UID :: uid
  vu_Email :: string
  vu_EmailVerified :: bool
  vu_Status :: string
  vu_PasskeyCount :: nat
  vu_CreatedAt :: time

definition empty_user :: ProjectUser where
  "empty_user = \<lparr>vu_UID = [], vu_Email = [], vu_EmailVerified = False, vu_Status = [], vu_PasskeyCount = 0, vu_CreatedAt = zero_time\<rparr>"

definition user_view :: "db \<Rightarrow> project_user_row \<Rightarrow> ProjectUser" where
  "user_view d u = \<lparr>vu_UID = pu_uid u, vu_Email = pu_email u, vu_EmailVerified = (pu_email_verified_at u \<noteq> None), vu_Status = pu_status u,
     vu_PasskeyCount = sql_count (\<lambda>k. wk_project_uid k = pu_project_uid u \<and> wk_project_user_uid k = pu_uid u) (db_passkeys d),
     vu_CreatedAt = pu_created_at u\<rparr>"

definition user_fields :: "ProjectUser \<Rightarrow> (string \<times> json) list" where
  "user_fields v = [(''uid'', JStr (vu_UID v)), (''email'', JStr (vu_Email v)), (''email_verified'', JBool (vu_EmailVerified v)), (''status'', JStr (vu_Status v)),
     (''passkey_count'', JNum (int (vu_PasskeyCount v))), (''created_at'', JNum (vu_CreatedAt v))]"

definition own_user :: "uid \<Rightarrow> uid \<Rightarrow> project_user_row \<Rightarrow> bool" where
  "own_user projectUID userUID u \<longleftrightarrow> pu_uid u = userUID \<and> pu_project_uid u = projectUID"

definition loadProjectUser :: "server \<Rightarrow> call \<Rightarrow> string \<Rightarrow> uid \<Rightarrow> uid \<Rightarrow> db \<Rightarrow> ProjectUser query" where
  "loadProjectUser sv c site projectUID userUID d =
     (case query_row sv c site [userUID, projectUID] (own_user projectUID userUID) (db_project_users d) of
        QueryError \<Rightarrow> QueryError | NoRows \<Rightarrow> NoRows | Row u \<Rightarrow> Row (user_view d u))"

definition listProjectUsers :: "server \<Rightarrow> call \<Rightarrow> handler" where
  "listProjectUsers sv c r d =
     (case authorizedProject sv c r d of
        None \<Rightarrow> (fail r 404 ''not_found'' ''project not found'', d)
      | Some (projectUID, _) \<Rightarrow>
          list_page sv c ''list users'' ''could not load users'' (\<lambda>u. (pu_created_at u, pu_uid u)) (\<lambda>u. pu_project_uid u = projectUID)
            (\<lambda>u. JObj (user_fields (user_view d u))) db_project_users r d)"

text \<open>A failure of the second query leaves the list of passkeys empty.\<close>

definition getProjectUserHandler :: "server \<Rightarrow> call \<Rightarrow> handler" where
  "getProjectUserHandler sv c r d =
     (let missing = (fail r 404 ''not_found'' ''user not found'', d) in
      case authorizedProject sv c r d of
        None \<Rightarrow> missing
      | Some (projectUID, _) \<Rightarrow>
          (case loadProjectUser sv c ''load user'' projectUID (hq_path r ''user_uid'') d of
             Row v \<Rightarrow>
               let keys = (if ca_flt c ''list passkeys'' then []
                           else sort_key wk_created_at (filter (\<lambda>k. wk_project_uid k = projectUID \<and> wk_project_user_uid k = vu_UID v) (db_passkeys d))) in
               (writeJSON 200 (JObj (user_fields v @ [(''passkeys'', JArr (map (\<lambda>k. JObj [(''uid'', JStr (wk_uid k)), (''created_at'', JNum (wk_created_at k))]) keys))])), d)
           | _ \<Rightarrow> missing))"

section \<open>Creating and changing users\<close>

record createProjectUserInput =
  uc_Email :: string
  uc_Password :: string
  uc_EmailVerified :: bool

text \<open>
  Only a password of the wrong length is an error the handler answers. With this version of Go a failure of \<open>crypto/rand\<close> ends the
  process, and a panic of \<open>argon2\<close> the connection.
\<close>

definition hash_or_answer :: "server \<Rightarrow> call \<Rightarrow> http_request \<Rightarrow> string \<Rightarrow> http_response + string" where
  "hash_or_answer sv c r password =
     (case HashPassword (Argon2 sv) (ca_rand c ''password salt'') password of
        Inr h \<Rightarrow> Inr h
      | Inl PasswordLength \<Rightarrow> Inl (fail r 422 ''validation_failed'' ''password must contain between 12 and 128 characters'')
      | Inl _ \<Rightarrow> Inl aborted)"

definition new_user :: "call \<Rightarrow> uid \<Rightarrow> string \<Rightarrow> bool \<Rightarrow> string option \<Rightarrow> project_user_row" where
  "new_user c projectUID email verified passwordHash =
     \<lparr>pu_uid = ca_uid c ''project user'', pu_project_uid = projectUID, pu_email = email, pu_email_normalized = email,
      pu_email_verified_at = (if verified then Some (ca_now c) else None), pu_status = ''active'', pu_password_hash = passwordHash,
      pu_created_at = ca_now c, pu_updated_at = ca_now c\<rparr>"

definition email_taken :: "uid \<Rightarrow> uid \<Rightarrow> string \<Rightarrow> db \<Rightarrow> bool" where
  "email_taken projectUID userUID email d \<longleftrightarrow>
     list_ex (\<lambda>u. pu_project_uid u = projectUID \<and> pu_uid u \<noteq> userUID \<and> pu_email_normalized u = email) (db_project_users d)"

definition insert_user :: "call \<Rightarrow> http_request \<Rightarrow> uid \<Rightarrow> project_user_row \<Rightarrow> db \<Rightarrow> http_response \<times> db" where
  "insert_user c r tenantUID u d =
     (if ca_flt c ''insert user'' \<or> list_ex (\<lambda>x. pu_uid x = pu_uid u) (db_project_users d) then (fail r 500 ''internal_error'' ''could not create user'', d)
      else if email_taken (pu_project_uid u) (pu_uid u) (pu_email_normalized u) d then
        (fail r 409 ''email_exists'' ''email already belongs to a user in this Project'', d)
      else (writeJSON 201 (JObj (user_fields ((user_view d u)\<lparr>vu_PasskeyCount := 0\<rparr>))),
            user_audit c r tenantUID (pu_project_uid u) ''project_user.created'' ''project_user'' (pu_uid u) (JObj [])
              (d\<lparr>db_project_users := db_project_users d @ [u]\<rparr>)))"

definition createProjectUser :: "server \<Rightarrow> createProjectUserInput option \<Rightarrow> call \<Rightarrow> handler" where
  "createProjectUser sv body c r d =
     (case authorizedProject sv c r d of
        None \<Rightarrow> (fail r 404 ''not_found'' ''project not found'', d)
      | Some (projectUID, tenantUID) \<Rightarrow>
          (case body of
             None \<Rightarrow> (invalid_json r, d)
           | Some input \<Rightarrow>
               let email = normalizeEmail sv (uc_Email input); insert = (\<lambda>h. insert_user c r tenantUID (new_user c projectUID email (uc_EmailVerified input) h) d) in
               if email = [] \<or> CHR ''@'' \<notin> set email then (fail r 422 ''validation_failed'' ''valid email is required'', d)
               else if uc_Password input = [] then insert None
               else (case hash_or_answer sv c r (uc_Password input) of Inl w \<Rightarrow> (w, d) | Inr h \<Rightarrow> insert (Some h))))"

record updateProjectUserInput =
  uu_Email :: "string option"
  uu_Status :: "string option"
  uu_EmailVerified :: "bool option"

text \<open>The statement that ends the open sessions of a user.\<close>

definition end_sessions :: "time \<Rightarrow> uid \<Rightarrow> uid \<Rightarrow> db \<Rightarrow> db" where
  "end_sessions now projectUID userUID d = d\<lparr>db_user_sessions :=
     sql_update (\<lambda>s. us_project_uid s = projectUID \<and> us_project_user_uid s = userUID \<and> us_revoked_at s = None)
       (\<lambda>s. s\<lparr>us_revoked_at := Some now\<rparr>) (db_user_sessions d)\<rparr>"

definition update_user_row :: "call \<Rightarrow> string \<Rightarrow> string \<Rightarrow> bool \<Rightarrow> project_user_row \<Rightarrow> project_user_row" where
  "update_user_row c email status verified u = u\<lparr>pu_email := email, pu_email_normalized := email, pu_status := status,
     pu_email_verified_at := (if verified then Some (ca_now c) else None), pu_updated_at := ca_now c\<rparr>"

definition write_user :: "server \<Rightarrow> call \<Rightarrow> http_request \<Rightarrow> uid \<Rightarrow> uid \<Rightarrow> string \<Rightarrow> string \<Rightarrow> bool \<Rightarrow> db \<Rightarrow> http_response \<times> db" where
  "write_user sv c r projectUID tenantUID email status verified d =
     (let userUID = hq_path r ''user_uid'' in
      if ca_flt c ''update user'' then (fail r 500 ''internal_error'' ''could not update user'', d)
      else if email_taken projectUID userUID email d then (fail r 409 ''email_exists'' ''email already belongs to a user in this Project'', d)
      else let d1 = d\<lparr>db_project_users := sql_update (own_user projectUID userUID) (update_user_row c email status verified) (db_project_users d)\<rparr>;
               d2 = (if status = ''disabled'' \<and> \<not> ca_flt c ''revoke sessions'' then end_sessions (ca_now c) projectUID userUID d1 else d1);
               d3 = user_audit c r tenantUID projectUID ''project_user.updated'' ''project_user'' userUID (JObj [(''status'', JStr status)]) d2 in
        (writeJSON 200 (JObj (user_fields (case loadProjectUser sv c ''load updated user'' projectUID userUID d3 of Row v \<Rightarrow> v | _ \<Rightarrow> empty_user))), d3))"

definition updateProjectUser :: "server \<Rightarrow> updateProjectUserInput option \<Rightarrow> call \<Rightarrow> handler" where
  "updateProjectUser sv body c r d =
     (let missing = (fail r 404 ''not_found'' ''user not found'', d) in
      case authorizedProject sv c r d of
        None \<Rightarrow> missing
      | Some (projectUID, tenantUID) \<Rightarrow>
          (case loadProjectUser sv c ''load user'' projectUID (hq_path r ''user_uid'') d of
             Row v \<Rightarrow>
               (case body of
                  None \<Rightarrow> (invalid_json r, d)
                | Some input \<Rightarrow>
                    let email = given (map_option (normalizeEmail sv) (uu_Email input)) (vu_Email v); status = given (uu_Status input) (vu_Status v) in
                    if email = [] \<or> CHR ''@'' \<notin> set email \<or> (status \<noteq> ''active'' \<and> status \<noteq> ''disabled'') then
                      (fail r 422 ''validation_failed'' ''email or status is invalid'', d)
                    else write_user sv c r projectUID tenantUID email status (given (uu_EmailVerified input) (vu_EmailVerified v)) d)
           | _ \<Rightarrow> missing))"

definition replace_password_tx :: "server \<Rightarrow> call \<Rightarrow> uid \<Rightarrow> uid \<Rightarrow> string \<Rightarrow> db \<Rightarrow> db option" where
  "replace_password_tx sv c projectUID userUID h d =
     (if \<not> uuid_ok sv userUID then None
      else Option.bind (stmt c ''update password'' (\<lambda>d. Some (d\<lparr>db_project_users :=
               sql_update (own_user projectUID userUID) (\<lambda>u. u\<lparr>pu_password_hash := Some h, pu_updated_at := ca_now c\<rparr>) (db_project_users d)\<rparr>)) d)
             (\<lambda>d1. if sql_count (own_user projectUID userUID) (db_project_users d) = 0 then None
                    else stmt c ''revoke sessions'' (\<lambda>d. Some (end_sessions (ca_now c) projectUID userUID d)) d1))"

definition replaceProjectUserPassword :: "server \<Rightarrow> string option \<Rightarrow> call \<Rightarrow> handler" where
  "replaceProjectUserPassword sv body c r d =
     (let missing = (fail r 404 ''not_found'' ''user not found'', d); userUID = hq_path r ''user_uid'' in
      case authorizedProject sv c r d of
        None \<Rightarrow> missing
      | Some (projectUID, tenantUID) \<Rightarrow>
          (case body of
             None \<Rightarrow> (invalid_json r, d)
           | Some password \<Rightarrow>
               (case hash_or_answer sv c r password of
                  Inl w \<Rightarrow> (w, d)
                | Inr h \<Rightarrow>
                    if ca_flt c ''begin transaction'' then (fail r 500 ''internal_error'' ''could not replace password'', d)
                    else (case commit_tx c (replace_password_tx sv c projectUID userUID h d) of
                      None \<Rightarrow> missing
                    | Some d' \<Rightarrow> (no_content 204, user_audit c r tenantUID projectUID ''project_user.password_replaced'' ''project_user'' userUID (JObj []) d')))))"

definition revokeProjectUserSessions :: "server \<Rightarrow> call \<Rightarrow> handler" where
  "revokeProjectUserSessions sv c r d =
     (case authorizedProject sv c r d of
        None \<Rightarrow> (fail r 404 ''not_found'' ''user not found'', d)
      | Some (projectUID, tenantUID) \<Rightarrow>
          let userUID = hq_path r ''user_uid'' in
          if ca_flt c ''revoke sessions'' \<or> \<not> uuid_ok sv userUID then (fail r 500 ''internal_error'' ''could not revoke sessions'', d)
          else (no_content 204, user_audit c r tenantUID projectUID ''project_user.sessions_revoked'' ''project_user'' userUID (JObj [])
                  (end_sessions (ca_now c) projectUID userUID d)))"

definition deletePasskey :: "server \<Rightarrow> call \<Rightarrow> handler" where
  "deletePasskey sv c r d =
     (let missing = (fail r 404 ''not_found'' ''passkey not found'', d) in
      case authorizedProject sv c r d of
        None \<Rightarrow> missing
      | Some (projectUID, tenantUID) \<Rightarrow>
          let credentialUID = hq_path r ''credential_uid''; userUID = hq_path r ''user_uid'';
              hit = (\<lambda>k. wk_uid k = credentialUID \<and> wk_project_uid k = projectUID \<and> wk_project_user_uid k = userUID) in
          if ca_flt c ''delete passkey'' \<or> \<not> uuid_ok sv credentialUID \<or> \<not> uuid_ok sv userUID \<or> sql_count hit (db_passkeys d) = 0 then missing
          else (no_content 204, user_audit c r tenantUID projectUID ''passkey.deleted'' ''passkey'' credentialUID (JObj [])
                  (d\<lparr>db_passkeys := sql_delete hit (db_passkeys d)\<rparr>)))"

section \<open>Sessions of users\<close>

text \<open>
  \<^verbatim>\<open>internal/api/runtime.go\<close>: the session of a token, its user being active in an active project. A use extends the idle expiry
  by seven days at most, whatever idle time is configured; a failure to store that is ignored.
\<close>

definition open_session :: "server \<Rightarrow> uid \<Rightarrow> string \<Rightarrow> db \<Rightarrow> user_session_row \<Rightarrow> bool" where
  "open_session sv projectUID token d s \<longleftrightarrow> us_project_uid s = projectUID \<and> us_session_secret_hash s = SessionHash_of sv token \<and> us_revoked_at s = None \<and>
     list_ex (\<lambda>u. pu_uid u = us_project_user_uid s \<and> pu_status u = ''active'') (db_project_users d) \<and>
     list_ex (\<lambda>p. pj_uid p = us_project_uid s \<and> pj_status p = ''active'') (db_projects d)"

definition extend_session :: "server \<Rightarrow> call \<Rightarrow> uid \<Rightarrow> string \<Rightarrow> db \<Rightarrow> db" where
  "extend_session sv c projectUID token d =
     (if ca_flt c ''extend session'' then d
      else d\<lparr>db_user_sessions := sql_update (\<lambda>s. us_project_uid s = projectUID \<and> us_session_secret_hash s = SessionHash_of sv token)
             (\<lambda>s. s\<lparr>us_idle_expires_at := min (us_expires_at s) (ca_now c + 7 * 24 * Hour)\<rparr>) (db_user_sessions d)\<rparr>)"

definition resolveUserSession :: "server \<Rightarrow> call \<Rightarrow> http_request \<Rightarrow> string \<Rightarrow> db \<Rightarrow> (ProjectUser \<times> time) option \<times> db" where
  "resolveUserSession sv c r token d =
     (let projectUID = hq_path r ''project_uid'' in
      case query_row sv c ''load user session'' [projectUID] (open_session sv projectUID token d) (db_user_sessions d) of
        Row s \<Rightarrow>
          if ca_now c > us_expires_at s \<or> ca_now c > us_idle_expires_at s then (None, d)
          else let d' = extend_session sv c projectUID token d in
            (case loadProjectUser sv c ''load user'' projectUID (us_project_user_uid s) d' of
               Row v \<Rightarrow> (Some (v, us_expires_at s), d')
             | _ \<Rightarrow> (None, d'))
      | _ \<Rightarrow> (None, d))"

definition runtimeIntrospect :: "server \<Rightarrow> string option \<Rightarrow> call \<Rightarrow> handler" where
  "runtimeIntrospect sv body c r d =
     (case body of
        None \<Rightarrow> (invalid_json r, d)
      | Some token \<Rightarrow>
          (case resolveUserSession sv c r token d of
             (None, d') \<Rightarrow> (fail r 401 ''invalid_session'' ''session is invalid or expired'', d')
           | (Some (v, expires), d') \<Rightarrow>
               (writeJSON 200 (JObj [(''active'', JBool True), (''expires_at'', JNum expires), (''project_user'', JObj (user_fields v))]), d')))"

definition runtimeRevoke :: "server \<Rightarrow> string option \<Rightarrow> call \<Rightarrow> handler" where
  "runtimeRevoke sv body c r d =
     (case body of
        None \<Rightarrow> (invalid_json r, d)
      | Some token \<Rightarrow>
          let projectUID = hq_path r ''project_uid'';
              hit = (\<lambda>s. us_project_uid s = projectUID \<and> us_session_secret_hash s = SessionHash_of sv token \<and> us_revoked_at s = None) in
          if ca_flt c ''revoke session'' \<or> \<not> uuid_ok sv projectUID \<or> sql_count hit (db_user_sessions d) = 0 then
            (fail r 401 ''invalid_session'' ''session is invalid'', d)
          else (no_content 204, d\<lparr>db_user_sessions := sql_update hit (\<lambda>s. s\<lparr>us_revoked_at := Some (ca_now c)\<rparr>) (db_user_sessions d)\<rparr>))"

record runtimePasswordInput =
  rp_Email :: string
  rp_Password :: string

definition new_user_session :: "server \<Rightarrow> duration \<Rightarrow> duration \<Rightarrow> call \<Rightarrow> uid \<Rightarrow> uid \<Rightarrow> string \<Rightarrow> user_session_row" where
  "new_user_session sv absoluteTTL idleTTL c projectUID userUID token =
     \<lparr>us_uid = ca_uid c ''user session'', us_project_uid = projectUID, us_project_user_uid = userUID, us_session_secret_hash = SessionHash_of sv token,
      us_created_at = ca_now c, us_expires_at = ca_now c + absoluteTTL, us_idle_expires_at = ca_now c + idleTTL, us_revoked_at = None\<rparr>"

definition session_taken :: "user_session_row \<Rightarrow> db \<Rightarrow> bool" where
  "session_taken s d \<longleftrightarrow> list_ex (\<lambda>x. us_uid x = us_uid s \<or> us_session_secret_hash x = us_session_secret_hash s) (db_user_sessions d)"

text \<open>
  Sign-in with a password. \<open>absoluteTTL\<close> and \<open>idleTTL\<close> are the configured lifetimes. A user without a password has no hash to
  verify. \<open>None\<close> of \<open>VerifyPassword\<close> is the panic of \<open>argon2\<close> on a corrupt hash.
\<close>

definition runtimePassword :: "server \<Rightarrow> duration \<Rightarrow> duration \<Rightarrow> runtimePasswordInput option \<Rightarrow> call \<Rightarrow> handler" where
  "runtimePassword sv absoluteTTL idleTTL body c r d =
     (case body of
        None \<Rightarrow> (invalid_json r, d)
      | Some input \<Rightarrow>
          let projectUID = hq_path r ''project_uid''; refused = (fail r 401 ''invalid_credentials'' ''email or password is incorrect'', d);
              failed = (fail r 500 ''internal_error'' ''could not create session'', d) in
          (case query_row sv c ''load user by email'' [projectUID]
                  (\<lambda>u. pu_project_uid u = projectUID \<and> pu_email_normalized u = normalizeEmail sv (rp_Email input)) (db_project_users d) of
             Row u \<Rightarrow>
               (case pu_password_hash u of
                  None \<Rightarrow> refused
                | Some h \<Rightarrow>
                    (case VerifyPassword (Argon2 sv) h (rp_Password input) of
                       Inl _ \<Rightarrow> (aborted, d)
                     | Inr (valid, _) \<Rightarrow>
                         if \<not> valid \<or> pu_status u \<noteq> ''active'' then refused
                         else (case RandomToken (ca_rand c ''user session'') of
                           None \<Rightarrow> failed
                         | Some token \<Rightarrow>
                             let s = new_user_session sv absoluteTTL idleTTL c projectUID (pu_uid u) token in
                             if ca_flt c ''insert user session'' \<or> session_taken s d then failed
                             else let d1 = d\<lparr>db_user_sessions := db_user_sessions d @ [s]\<rparr>;
                                      v = (case loadProjectUser sv c ''load user'' projectUID (pu_uid u) d1 of Row v \<Rightarrow> v | _ \<Rightarrow> empty_user);
                                      tenant = (case projectTenant sv c projectUID d1 of Row t \<Rightarrow> t | _ \<Rightarrow> []);
                                      d2 = (if tenant = [] then d1 else audit_event c tenant projectUID ''service_account'' (context_account r) ''project_user.password_authenticated''
                                             ''project_user'' (pu_uid u) (JObj [(''service_credential_uid'', JStr (serviceCredentialUID (serviceCredentialContext r)))]) d1) in
                               (writeJSON 200 (JObj [(''expires_at'', JNum (us_expires_at s)), (''project_user'', JObj (user_fields v)), (''session_reference'', JStr token)]), d2))))
           | _ \<Rightarrow> refused))"

section \<open>What the handlers change\<close>

datatype user_write =
  CreateUser "createProjectUserInput option"
| UpdateUser "updateProjectUserInput option"
| ReplacePassword "string option"
| RevokeSessions
| DeletePasskey

primrec write_users :: "server \<Rightarrow> user_write \<Rightarrow> call \<Rightarrow> handler" where
  "write_users sv (CreateUser body) = createProjectUser sv body"
| "write_users sv (UpdateUser body) = updateProjectUser sv body"
| "write_users sv (ReplacePassword body) = replaceProjectUserPassword sv body"
| "write_users sv RevokeSessions = revokeProjectUserSessions sv"
| "write_users sv DeletePasskey = deletePasskey sv"

lemma refusal_status: "hs_status (invalid_json r) = 400" "hs_status aborted = 0"
  by (simp_all add: invalid_json_def aborted_def no_content_def)

lemma user_audit_simps [simp]:
  "db_projects (user_audit c r t p action tt tu m d) = db_projects d"
  "db_project_users (user_audit c r t p action tt tu m d) = db_project_users d"
  "db_user_sessions (user_audit c r t p action tt tu m d) = db_user_sessions d"
  "db_passkeys (user_audit c r t p action tt tu m d) = db_passkeys d"
  by (simp_all add: user_audit_def)

lemma end_sessions_simps [simp]:
  "db_projects (end_sessions now p u d) = db_projects d" "db_project_users (end_sessions now p u d) = db_project_users d"
  "db_passkeys (end_sessions now p u d) = db_passkeys d"
  "db_user_sessions (end_sessions now p u d) = sql_update (\<lambda>s. us_project_uid s = p \<and> us_project_user_uid s = u \<and> us_revoked_at s = None)
     (\<lambda>s. s\<lparr>us_revoked_at := Some now\<rparr>) (db_user_sessions d)"
  by (simp_all add: end_sessions_def)

lemma authorizedProjectD:
  assumes "authorizedProject sv c r d = Some (projectUID, tenantUID)"
  shows "projectUID = hq_path r ''project_uid'' \<and>
    ((\<exists>x. hq_service r = Some x \<and> serviceProjectUID x = projectUID) \<or>
     (\<exists>p. hq_principal r = Some p \<and> list_ex (own_project (p_TenantUID p) projectUID) (db_projects d)))"
  using assms by (auto simp: authorizedProject_def Let_def context_project_def ownsProject_def split: if_splits option.splits query.splits)

lemma update_user_cases:
  assumes "updateProjectUser sv body c r d = (w, d')"
  obtains (refused) "d' = d" "hs_status w \<noteq> 200"
  | (written) input tenantUID u email status where "body = Some input" "authorizedProject sv c r d = Some (hq_path r ''project_uid'', tenantUID)"
      "u \<in> set (db_project_users d)" "own_user (hq_path r ''project_uid'') (hq_path r ''user_uid'') u"
      "email = given (map_option (normalizeEmail sv) (uu_Email input)) (pu_email u)" "CHR ''@'' \<in> set email"
      "status = given (uu_Status input) (pu_status u)" "\<not> email_taken (hq_path r ''project_uid'') (hq_path r ''user_uid'') email d"
      "db_project_users d' = sql_update (own_user (hq_path r ''project_uid'') (hq_path r ''user_uid''))
         (update_user_row c email status (given (uu_EmailVerified input) (pu_email_verified_at u \<noteq> None))) (db_project_users d)"
      "db_user_sessions d' = db_user_sessions d \<or>
         db_user_sessions d' = db_user_sessions (end_sessions (ca_now c) (hq_path r ''project_uid'') (hq_path r ''user_uid'') d)"
      "db_passkeys d' = db_passkeys d" "db_projects d' = db_projects d"
proof (cases "authorizedProject sv c r d")
  case None
  then show ?thesis using assms refused by (auto simp: updateProjectUser_def refusal_status)
next
  case (Some x)
  then obtain tenantUID where auth: "authorizedProject sv c r d = Some (hq_path r ''project_uid'', tenantUID)"
    using authorizedProjectD by (metis surj_pair)
  let ?j = "hq_path r ''project_uid''" and ?u = "hq_path r ''user_uid''"
  show ?thesis
  proof (cases "loadProjectUser sv c ''load user'' ?j ?u d")
    case (Row v)
    then obtain u where u: "u \<in> set (db_project_users d)" "own_user ?j ?u u" "v = user_view d u"
      by (auto simp: loadProjectUser_def split: query.splits dest!: query_row_RowD sql_row_SomeD)
    show ?thesis
    proof (cases body)
      case None
      then show ?thesis using assms refused auth Row by (auto simp: updateProjectUser_def refusal_status)
    next
      case (Some input)
      define email where "email = given (map_option (normalizeEmail sv) (uu_Email input)) (pu_email u)"
      define status where "status = given (uu_Status input) (pu_status u)"
      define verified where "verified = given (uu_EmailVerified input) (pu_email_verified_at u \<noteq> None)"
      have view: "vu_Email v = pu_email u" "vu_Status v = pu_status u" "vu_EmailVerified v = (pu_email_verified_at u \<noteq> None)" by (simp_all add: u(3) user_view_def)
      note run = assms [unfolded updateProjectUser_def auth option.case prod.case Row query.case Some Let_def view
          email_def [symmetric] status_def [symmetric] verified_def [symmetric]]
      show ?thesis
      proof (cases "email = [] \<or> CHR ''@'' \<notin> set email \<or> (status \<noteq> ''active'' \<and> status \<noteq> ''disabled'') \<or> ca_flt c ''update user'' \<or> email_taken ?j ?u email d")
        case True
        then have "d' = d \<and> hs_status w \<noteq> 200" using run by (auto simp: write_user_def Let_def refusal_status split: if_splits)
        then show ?thesis using refused by blast
      next
        case False
        then have d': "db_project_users d' = sql_update (own_user ?j ?u) (update_user_row c email status verified) (db_project_users d)"
            "db_user_sessions d' = db_user_sessions d \<or> db_user_sessions d' = db_user_sessions (end_sessions (ca_now c) ?j ?u d)"
            "db_passkeys d' = db_passkeys d" "db_projects d' = db_projects d"
          using run by (auto simp: write_user_def Let_def)
        show ?thesis
          by (rule written [where input = input and u = u and email = email and status = status])
            (use Some auth u False d' in \<open>simp_all add: email_def status_def verified_def\<close>)
      qed
    qed
  qed (use assms refused auth in \<open>auto simp: updateProjectUser_def refusal_status\<close>)
qed

lemma replace_password_cases:
  assumes "replaceProjectUserPassword sv body c r d = (w, d')"
  obtains (refused) "d' = d" "hs_status w \<noteq> 204"
  | (replaced) tenantUID h where "authorizedProject sv c r d = Some (hq_path r ''project_uid'', tenantUID)"
      "db_project_users d' = sql_update (own_user (hq_path r ''project_uid'') (hq_path r ''user_uid''))
         (\<lambda>u. u\<lparr>pu_password_hash := Some h, pu_updated_at := ca_now c\<rparr>) (db_project_users d)"
      "db_user_sessions d' = db_user_sessions (end_sessions (ca_now c) (hq_path r ''project_uid'') (hq_path r ''user_uid'') d)"
      "db_passkeys d' = db_passkeys d" "db_projects d' = db_projects d"
proof (cases "d' = d \<and> hs_status w \<noteq> 204")
  case False
  obtain x where auth: "authorizedProject sv c r d = Some x"
    using assms False by (cases "authorizedProject sv c r d") (auto simp: replaceProjectUserPassword_def Let_def refusal_status)
  then obtain tenantUID where x: "x = (hq_path r ''project_uid'', tenantUID)" using authorizedProjectD by (metis surj_pair)
  let ?j = "hq_path r ''project_uid''" and ?u = "hq_path r ''user_uid''"
  have bad: "hs_status v \<noteq> 204" if "hash_or_answer sv c r p = Inl v" for p v
    using that by (auto simp: hash_or_answer_def refusal_status split: sum.splits password_error.splits)
  obtain h d1 where tx: "replace_password_tx sv c ?j ?u h d = Some d1" and d': "d' = user_audit c r tenantUID ?j ''project_user.password_replaced'' ''project_user'' ?u (JObj []) d1"
    using assms False bad unfolding replaceProjectUserPassword_def auth x
    by (auto simp: Let_def refusal_status split: option.splits sum.splits if_split_asm dest!: commit_txD)
  have "db_project_users d1 = sql_update (own_user ?j ?u) (\<lambda>u. u\<lparr>pu_password_hash := Some h, pu_updated_at := ca_now c\<rparr>) (db_project_users d)"
      "db_user_sessions d1 = db_user_sessions (end_sessions (ca_now c) ?j ?u d)" "db_passkeys d1 = db_passkeys d" "db_projects d1 = db_projects d"
    using tx by (auto simp: replace_password_tx_def stmt_def bind_eq_Some_conv split: if_splits)
  then show ?thesis using replaced auth x d' by simp
qed (use refused in simp)

section \<open>Withdrawing a user\<close>

lemma open_session_ended:
  assumes "db_user_sessions d' = db_user_sessions (end_sessions now projectUID userUID d)"
    and "s \<in> set (db_user_sessions d')" "us_project_uid s = projectUID" "us_project_user_uid s = userUID"
  shows "us_revoked_at s \<noteq> None"
proof -
  obtain s0 where "s = (if us_project_uid s0 = projectUID \<and> us_project_user_uid s0 = userUID \<and> us_revoked_at s0 = None
      then s0\<lparr>us_revoked_at := Some now\<rparr> else s0)"
    using assms(2) unfolding assms(1) end_sessions_simps set_sql_update by (rule imageE)
  then show ?thesis using assms(3,4) by (cases "us_project_uid s0 = projectUID \<and> us_project_user_uid s0 = userUID \<and> us_revoked_at s0 = None") auto
qed

lemma resolve_refused:
  assumes "\<And>s. s \<in> set (db_user_sessions d) \<Longrightarrow> \<not> open_session sv (hq_path r ''project_uid'') token d s"
  shows "resolveUserSession sv c r token d = (None, d)"
  using assms by (auto simp: resolveUserSession_def Let_def split: query.splits dest!: query_row_RowD sql_row_SomeD)

text \<open>C26 (user_withdrawal_ends_sessions): once a project user has been disabled, has been given a new password or has had the sessions revoked, no session
  reference issued to that user resolves any more -- for a disabled user even when the statement that revokes the
  sessions failed.\<close>

theorem user_withdrawal_ends_sessions:
  assumes "write_users sv x c r d = (w, d')" and "distinct (map pu_uid (db_project_users d))"
    and "case x of UpdateUser _ \<Rightarrow> list_ex (\<lambda>u. pu_uid u = hq_path r ''user_uid'' \<and> pu_status u = ''disabled'') (db_project_users d')
       | ReplacePassword _ \<Rightarrow> hs_status w = 204 | RevokeSessions \<Rightarrow> hs_status w = 204 | _ \<Rightarrow> False"
    and "\<And>s. s \<in> set (db_user_sessions d') \<Longrightarrow> us_session_secret_hash s = SessionHash_of sv token \<Longrightarrow>
       us_project_uid s = hq_path r ''project_uid'' \<and> us_project_user_uid s = hq_path r ''user_uid''"
  shows "resolveUserSession sv c2 r2 token d' = (None, d')"
proof (rule resolve_refused)
  fix s assume s: "s \<in> set (db_user_sessions d')"
  let ?j = "hq_path r ''project_uid''" and ?u = "hq_path r ''user_uid''"
  have revoked: "us_revoked_at s \<noteq> None" if "db_user_sessions d' = db_user_sessions (end_sessions (ca_now c) ?j ?u d)"
      "us_session_secret_hash s = SessionHash_of sv token"
    using open_session_ended [OF that(1) s] assms(4) [OF s that(2)] by blast
  show "\<not> open_session sv (hq_path r2 ''project_uid'') token d' s"
  proof (cases x)
    case (UpdateUser body)
    have "map pu_uid (db_project_users d') = map pu_uid (db_project_users d)"
      using assms(1) [unfolded UpdateUser write_users.simps] by (cases rule: update_user_cases) (auto simp: sql_update_def update_user_row_def)
    then have inj: "inj_on pu_uid (set (db_project_users d'))" using assms(2) by (metis distinct_map_inj)
    obtain u where u: "u \<in> set (db_project_users d')" "pu_uid u = ?u" "pu_status u = ''disabled''" using assms(3) UpdateUser by (auto simp: list_ex_iff)
    have "pu_status v \<noteq> ''active''" if "v \<in> set (db_project_users d')" "pu_uid v = ?u" for v
      using inj_onD [OF inj _ that(1) u(1)] that(2) u by simp
    then show ?thesis using assms(4) [OF s] by (auto simp: open_session_def list_ex_iff)
  next
    case (ReplacePassword body)
    from assms(1) [unfolded ReplacePassword write_users.simps] show ?thesis
    proof (cases rule: replace_password_cases)
      case refused
      then show ?thesis using assms(3) ReplacePassword by simp
    next
      case (replaced tenantUID h)
      then show ?thesis using revoked by (auto simp: open_session_def)
    qed
  next
    case RevokeSessions
    have "db_user_sessions d' = db_user_sessions (end_sessions (ca_now c) ?j ?u d)"
      using assms(1,3) by (auto simp: RevokeSessions revokeProjectUserSessions_def Let_def split: option.splits prod.splits if_splits dest: authorizedProjectD)
    then show ?thesis using revoked by (auto simp: open_session_def)
  qed (use assms(3) in auto)
qed

section \<open>Changing the address of a verified user\<close>

text \<open>Lemma (changed_email_stays_verified): changing only the e-mail address of a user whose old address was verified stores the new address as verified, at the
  time of the change: the new address is never proven to belong to the user.\<close>

theorem changed_email_stays_verified:
  assumes "updateProjectUser sv (Some input) c r d = (w, d')" and "hs_status w = 200"
    and "uu_Email input = Some email" "uu_EmailVerified input = None"
    and "list_all (\<lambda>u. pu_uid u = hq_path r ''user_uid'' \<longrightarrow> pu_email_verified_at u \<noteq> None) (db_project_users d)"
  shows "list_ex (\<lambda>u. pu_uid u = hq_path r ''user_uid'' \<and> pu_email u = normalizeEmail sv email \<and> pu_email_verified_at u = Some (ca_now c)) (db_project_users d')"
  using assms(1)
proof (cases rule: update_user_cases)
  case refused
  then show ?thesis using assms(2) by simp
next
  case (written input' tenantUID u email' status)
  have "pu_email_verified_at u \<noteq> None" using assms(5) written(3,4) by (auto simp: list_all_iff own_user_def)
  then have given: "given (uu_EmailVerified input') (pu_email_verified_at u \<noteq> None)" "email' = normalizeEmail sv email"
    using written(1,5) assms(3,4) by (auto simp: given_def)
  then have "update_user_row c email' status True u \<in> set (db_project_users d')"
    using written(3,4,9) by (auto simp: set_sql_update intro!: image_eqI [of _ _ u])
  then show ?thesis using given(2) written(4) by (auto simp: list_ex_iff update_user_row_def own_user_def intro!: bexI [of _ "update_user_row c email' status True u"])
qed

section \<open>Projects are isolated\<close>

lemma filter_update_users:
  "(\<And>u. pu_project_uid (f u) = pu_project_uid u) \<Longrightarrow>
   filter (\<lambda>u. pu_project_uid u \<noteq> j) (sql_update (own_user j x) f t) = filter (\<lambda>u. pu_project_uid u \<noteq> j) t"
  by (induction t) (auto simp: own_user_def)

lemma filter_deleted:
  "filter (\<lambda>k. wk_project_uid k \<noteq> j) (sql_delete (\<lambda>k. wk_uid k = a \<and> wk_project_uid k = j \<and> wk_project_user_uid k = b) t) =
   filter (\<lambda>k. wk_project_uid k \<noteq> j) t"
  by (induction t) (auto simp: sql_delete_def)

definition other_users :: "uid \<Rightarrow> db \<Rightarrow> project_user_row list \<times> user_session_row list \<times> passkey_row list" where
  "other_users j d = (filter (\<lambda>u. pu_project_uid u \<noteq> j) (db_project_users d), filter (\<lambda>s. us_project_uid s \<noteq> j) (db_user_sessions d),
     filter (\<lambda>k. wk_project_uid k \<noteq> j) (db_passkeys d))"

lemma filter_ended:
  "filter (\<lambda>s. us_project_uid s \<noteq> j) (sql_update (\<lambda>s. us_project_uid s = j \<and> us_project_user_uid s = u \<and> us_revoked_at s = None)
     (\<lambda>s. s\<lparr>us_revoked_at := Some now\<rparr>) t) = filter (\<lambda>s. us_project_uid s \<noteq> j) t"
  by (induction t) auto

lemma other_users_ended:
  "db_user_sessions d' = db_user_sessions (end_sessions now j u d) \<Longrightarrow>
   filter (\<lambda>s. us_project_uid s \<noteq> j) (db_user_sessions d') = filter (\<lambda>s. us_project_uid s \<noteq> j) (db_user_sessions d)"
  unfolding end_sessions_simps by (simp only: filter_ended)

lemma writes_isolated:
  assumes "write_users sv x c r d = (w, d')"
  shows "other_users (hq_path r ''project_uid'') d' = other_users (hq_path r ''project_uid'') d \<and>
    (d' = d \<or> (\<exists>y. hq_service r = Some y \<and> serviceProjectUID y = hq_path r ''project_uid'') \<or>
     (\<exists>p. hq_principal r = Some p \<and> list_ex (own_project (p_TenantUID p) (hq_path r ''project_uid'')) (db_projects d)))"
proof (cases "authorizedProject sv c r d")
  case None
  then have "d' = d" using assms
    by (cases x) (simp_all add: createProjectUser_def updateProjectUser_def replaceProjectUserPassword_def revokeProjectUserSessions_def deletePasskey_def)
  then show ?thesis by simp
next
  case (Some y)
  let ?j = "hq_path r ''project_uid''"
  obtain tenantUID where y: "y = (?j, tenantUID)" using Some authorizedProjectD by (metis surj_pair)
  have same: "other_users ?j d' = other_users ?j d"
  proof (cases x)
    case (CreateUser body)
    have "db_project_users d' = db_project_users d \<or> (\<exists>u. pu_project_uid u = ?j \<and> db_project_users d' = db_project_users d @ [u])"
        "db_user_sessions d' = db_user_sessions d" "db_passkeys d' = db_passkeys d"
      using assms Some y by (auto simp: CreateUser createProjectUser_def insert_user_def new_user_def Let_def split: option.splits if_splits sum.splits)
    then show ?thesis by (auto simp: other_users_def)
  next
    case (UpdateUser body)
    from assms [unfolded UpdateUser write_users.simps] show ?thesis
    proof (cases rule: update_user_cases)
      case (written input tenantUID u email status)
      from written(10) have "filter (\<lambda>s. us_project_uid s \<noteq> ?j) (db_user_sessions d') = filter (\<lambda>s. us_project_uid s \<noteq> ?j) (db_user_sessions d)"
        by (elim disjE) (simp, rule other_users_ended)
      with written(9,11) show ?thesis by (simp add: other_users_def filter_update_users update_user_row_def)
    qed simp
  next
    case (ReplacePassword body)
    from assms [unfolded ReplacePassword write_users.simps] show ?thesis
    proof (cases rule: replace_password_cases)
      case (replaced tenantUID h)
      with other_users_ended [OF replaced(3)] show ?thesis by (simp add: other_users_def filter_update_users)
    qed simp
  next
    case RevokeSessions
    have "db_project_users d' = db_project_users d" "db_passkeys d' = db_passkeys d"
        "db_user_sessions d' = db_user_sessions d \<or> db_user_sessions d' = db_user_sessions (end_sessions (ca_now c) ?j (hq_path r ''user_uid'') d)"
      using assms Some y by (auto simp: RevokeSessions revokeProjectUserSessions_def Let_def split: if_splits)
    moreover from this(3) have "filter (\<lambda>s. us_project_uid s \<noteq> ?j) (db_user_sessions d') = filter (\<lambda>s. us_project_uid s \<noteq> ?j) (db_user_sessions d)"
      by (elim disjE) (simp, rule other_users_ended)
    ultimately show ?thesis by (simp add: other_users_def)
  next
    case DeletePasskey
    then show ?thesis using assms Some y by (auto simp: deletePasskey_def Let_def other_users_def filter_deleted split: if_splits)
  qed
  then show ?thesis using authorizedProjectD [OF Some [unfolded y]] by blast
qed

text \<open>C25 (user_writes_isolated): a handler on users changes users, sessions and passkeys of the project of its path only, and changes anything only for a
  service account of that very project or a member of the tenant that owns it.\<close>

theorem user_writes_isolated:
  "let d' = snd (write_users sv x c r d); j = hq_path r ''project_uid'' in
    other_users j d' = other_users j d \<and>
    (d' = d \<or> (\<exists>y. hq_service r = Some y \<and> serviceProjectUID y = j) \<or>
     (\<exists>p. hq_principal r = Some p \<and> list_ex (own_project (p_TenantUID p) j) (db_projects d)))"
proof -
  obtain w d' where run: "write_users sv x c r d = (w, d')" by fastforce
  show ?thesis using writes_isolated [OF run] by (simp add: run)
qed

section \<open>Examples\<close>

definition demo_user :: project_user_row where
  "demo_user = \<lparr>pu_uid = ''pu'', pu_project_uid = ''p'', pu_email = ''a@b.c'', pu_email_normalized = ''a@b.c'', pu_email_verified_at = Some 0,
     pu_status = ''active'', pu_password_hash = None, pu_created_at = 0, pu_updated_at = 0\<rparr>"

definition demo_user_session :: user_session_row where
  "demo_user_session = \<lparr>us_uid = ''us'', us_project_uid = ''p'', us_project_user_uid = ''pu'', us_session_secret_hash = SessionHash_of demo_server ''tok'',
     us_created_at = 0, us_expires_at = 2000 * Second, us_idle_expires_at = 2000 * Second, us_revoked_at = None\<rparr>"

definition users_db :: db where
  "users_db = unlocked_db\<lparr>db_project_users := [demo_user], db_user_sessions := [demo_user_session]\<rparr>"

definition at_user :: http_request where
  "at_user = demo_if_match\<lparr>hq_path := (\<lambda>name. if name = ''project_uid'' then ''p'' else ''pu'')\<rparr>"

lemma at_user_simps [simp]: "hq_path at_user ''project_uid'' = ''p''" "hq_path at_user ''user_uid'' = ''pu''"
  by (simp_all add: at_user_def)

lemma demo_authorized: "authorizedProject demo_server demo_call at_user users_db = Some (''p'', ''t'')"
  by (simp add: authorizedProject_def context_project_def at_user_def demo_if_match_def demo_request_def ownsProject_def demo_call_def demo_server_def
      users_db_def unlocked_db_def own_project_def demo_project_def demo_principal_def)

theorem user_withdrawal_ends_sessions_witness:
  "fst (resolveUserSession demo_server demo_call at_user ''tok'' users_db) \<noteq> None \<and>
   (\<exists>d'. write_users demo_server RevokeSessions demo_call at_user users_db = (no_content 204, d') \<and>
     resolveUserSession demo_server demo_call at_user ''tok'' d' = (None, d'))"
proof -
  have flt: "ca_flt demo_call = no_faults" "\<not> ca_flt demo_call site" for site by (simp_all add: demo_call_def)
  have ok: "uuid_ok demo_server ''p''" "uuid_ok demo_server ''pu''" by (simp_all add: demo_server_def)
  have before: "fst (resolveUserSession demo_server demo_call at_user ''tok'' users_db) \<noteq> None"
    by (simp add: resolveUserSession_def Let_def query_row_def flt ok open_session_def users_db_def unlocked_db_def demo_user_def demo_user_session_def demo_project_def
        demo_call_def time_defs loadProjectUser_def extend_session_def own_user_def)
  define d' where "d' = user_audit demo_call at_user ''t'' ''p'' ''project_user.sessions_revoked'' ''project_user'' ''pu'' (JObj [])
    (end_sessions (ca_now demo_call) ''p'' ''pu'' users_db)"
  have run: "write_users demo_server RevokeSessions demo_call at_user users_db = (no_content 204, d')"
    by (simp add: revokeProjectUserSessions_def Let_def demo_authorized flt ok d'_def)
  have sessions: "us_project_uid s = ''p'' \<and> us_project_user_uid s = ''pu''" if "s \<in> set (db_user_sessions d')" for s
    using that by (auto simp: d'_def users_db_def demo_user_session_def)
  have "resolveUserSession demo_server demo_call at_user ''tok'' d' = (None, d')"
    by (rule user_withdrawal_ends_sessions [OF run]) (use sessions in \<open>simp_all add: users_db_def no_content_def\<close>)
  with before run show ?thesis by blast
qed

definition demo_new_email :: updateProjectUserInput where
  "demo_new_email = \<lparr>uu_Email = Some ''x@y.z'', uu_Status = None, uu_EmailVerified = None\<rparr>"

theorem changed_email_stays_verified_witness:
  "\<exists>w d'. updateProjectUser demo_server (Some demo_new_email) demo_call at_user users_db = (w, d') \<and>
     list_ex (\<lambda>u. pu_uid u = ''pu'' \<and> pu_email u = ''x@y.z'' \<and> pu_email_verified_at u = Some (1000 * Second)) (db_project_users d')"
proof -
  have trim: "TrimSpace ''x@y.z'' = ''x@y.z''" by (rule TrimSpace_visible; simp add: visible_c_def)
  have "is_ascii ''x@y.z'' \<and> map lower_c ''x@y.z'' = ''x@y.z''" by code_simp
  then have mail: "normalizeEmail demo_server ''x@y.z'' = ''x@y.z''" by (simp add: normalizeEmail_def trim ToLower_def)
  have flt: "\<not> ca_flt demo_call site" for site by (simp add: demo_call_def)
  have load: "loadProjectUser demo_server demo_call ''load user'' ''p'' ''pu'' users_db = Row (user_view users_db demo_user)"
    by (simp add: loadProjectUser_def query_row_def flt demo_server_def users_db_def own_user_def demo_user_def)
  have free: "\<not> email_taken ''p'' ''pu'' ''x@y.z'' users_db" by (simp add: email_taken_def users_db_def demo_user_def)
  obtain w d' where run: "updateProjectUser demo_server (Some demo_new_email) demo_call at_user users_db = (w, d')" by fastforce
  have ok: "hs_status w = 200"
    using run unfolding updateProjectUser_def demo_authorized option.case prod.case at_user_simps load query.case Let_def
    by (auto simp: demo_new_email_def given_def mail user_view_def demo_user_def write_user_def flt free Let_def split: if_splits)
  have verified: "list_all (\<lambda>u. pu_uid u = hq_path at_user ''user_uid'' \<longrightarrow> pu_email_verified_at u \<noteq> None) (db_project_users users_db)"
    by (simp add: users_db_def demo_user_def)
  have "list_ex (\<lambda>u. pu_uid u = hq_path at_user ''user_uid'' \<and> pu_email u = normalizeEmail demo_server ''x@y.z'' \<and> pu_email_verified_at u = Some (ca_now demo_call))
      (db_project_users d')"
    by (rule changed_email_stays_verified [OF run ok _ _ verified]) (simp_all add: demo_new_email_def)
  with run mail show ?thesis by (auto simp: list_ex_iff demo_call_def)
qed

end
