(* ===== verification/Member_Recovery.thy ===== *)
theory Member_Recovery
  imports Project_Users
begin

text \<open>
  Recovery of a member's account, \<^verbatim>\<open>internal/api/tenant_member_recovery.go\<close>: verification of the email address and reset of the
  password, both by single-use tokens sent by email. The two token tables have the same columns; what their
  handlers have in common is the locale \<open>one_time_tokens\<close>, an instance of \<open>single_use\<close>. The columns \<open>updated_at\<close> of a member and
  \<open>strongly_authenticated_at\<close> of a session are never read and are left out.
\<close>

section \<open>Cookies and accounts\<close>

definition tenantEmailVerificationTTL :: duration where "tenantEmailVerificationTTL = 24 * Hour"
definition tenantPasswordResetTTL :: duration where "tenantPasswordResetTTL = 30 * Minute"

text \<open>The header \<open>http.SetCookie\<close> writes for the session cookie.\<close>

definition member_cookie :: "server \<Rightarrow> string \<Rightarrow> time \<Rightarrow> string \<Rightarrow> string" where
  "member_cookie sv token expires max_age =
     ''complicatedauth_session='' @ token @ ''; Path=/; Expires='' @ http_date sv expires @ max_age @ ''; HttpOnly'' @
     (if CookieSecure sv then ''; Secure'' else []) @ ''; SameSite=Lax''"

definition clear_cookie :: "server \<Rightarrow> http_response \<Rightarrow> http_response" where
  "clear_cookie sv w = with_header ''Set-Cookie'' (member_cookie sv [] 0 ''; Max-Age=0'') w"

definition setMemberCookie :: "server \<Rightarrow> string \<Rightarrow> time \<Rightarrow> http_response \<Rightarrow> http_response" where
  "setMemberCookie sv token expires w = with_header ''Set-Cookie'' (member_cookie sv token expires []) w"

definition tenant_of :: "db \<Rightarrow> member_row \<Rightarrow> tenant_row option" where
  "tenant_of d m = sql_row (\<lambda>t. tn_uid t = tm_tenant_uid m) (db_tenants d)"

text \<open>The active member with an email address, joined with the tenant.\<close>

definition recoverable :: "call \<Rightarrow> string \<Rightarrow> db \<Rightarrow> (member_row \<times> tenant_row) option" where
  "recoverable c email d =
     (if ca_flt c ''find member'' then None
      else (case sql_row (\<lambda>m. tm_email_normalized m = email \<and> tm_status m = ''active'' \<and> tenant_of d m \<noteq> None) (db_members d) of
              None \<Rightarrow> None | Some m \<Rightarrow> map_option (Pair m) (tenant_of d m)))"

definition acceptRecoveryEmail :: "server \<Rightarrow> string option \<Rightarrow> http_request \<Rightarrow> http_response + string" where
  "acceptRecoveryEmail sv body r =
     (case body of
        None \<Rightarrow> Inl (invalid_json r)
      | Some input \<Rightarrow>
          let email = normalizeEmail sv input in
          if email = [] \<or> CHR ''@'' \<notin> set email then Inl (fail r 422 ''validation_failed'' ''a valid email is required'') else Inr email)"

text \<open>The limits of a request endpoint: twenty an hour from an address, three an hour for an email.\<close>

definition request_limits :: "server \<Rightarrow> call \<Rightarrow> http_request \<Rightarrow> string \<Rightarrow> string \<Rightarrow> string \<Rightarrow> db \<Rightarrow> http_response option \<times> db" where
  "request_limits sv c r ip_policy identity_policy email d =
     (case takeRateLimit sv c r ip_policy (clientIP sv r) 20 Hour d of
        (Some w, d1) \<Rightarrow> (Some w, d1)
      | (None, d1) \<Rightarrow> takeRateLimit sv c r identity_policy email 3 Hour d1)"

definition recovery_accepted :: http_response where
  "recovery_accepted = writeJSON 202 (JObj [(''accepted'', JBool True)])"

section \<open>Issuing tokens\<close>

definition open_token :: "verification_row \<Rightarrow> bool" where
  "open_token v \<longleftrightarrow> vf_consumed_at v = None \<and> vf_revoked_at v = None"

definition revoke_open :: "time \<Rightarrow> uid \<Rightarrow> verification_row list \<Rightarrow> verification_row list" where
  "revoke_open now memberUID = sql_update (\<lambda>v. vf_tenant_member_uid v = memberUID \<and> open_token v) (\<lambda>v. v\<lparr>vf_revoked_at := Some now\<rparr>)"

definition new_recovery_token :: "server \<Rightarrow> call \<Rightarrow> string \<Rightarrow> uid \<Rightarrow> uid \<Rightarrow> duration \<Rightarrow> string \<Rightarrow> verification_row" where
  "new_recovery_token sv c site tenantUID memberUID ttl token =
     \<lparr>vf_uid = ca_uid c site, vf_tenant_uid = tenantUID, vf_tenant_member_uid = memberUID, vf_token_hash = SessionHash_of sv token,
      vf_created_at = ca_now c, vf_expires_at = ca_now c + ttl, vf_consumed_at = None, vf_revoked_at = None\<rparr>"

text \<open>The primary key, the unique hash and its length.\<close>

definition insert_recovery_token :: "verification_row \<Rightarrow> verification_row list \<Rightarrow> verification_row list option" where
  "insert_recovery_token v t = (if list_ex (\<lambda>x. vf_uid x = vf_uid v \<or> vf_token_hash x = vf_token_hash v) t \<or> length (vf_token_hash v) \<noteq> 32 then None
     else Some (t @ [v]))"

definition send_token :: "server \<Rightarrow> call \<Rightarrow> uid \<Rightarrow> string \<Rightarrow> string \<Rightarrow> emailDeliveryPayload \<Rightarrow> db \<Rightarrow> db option" where
  "send_token sv c tenantUID template email payload d =
     (case scheduleEmailDelivery sv c tenantUID template email payload d of Inl _ \<Rightarrow> None | Inr d' \<Rightarrow> Some d')"

definition insertTenantEmailVerification :: "server \<Rightarrow> call \<Rightarrow> uid \<Rightarrow> uid \<Rightarrow> string \<Rightarrow> string \<Rightarrow> string \<Rightarrow> db \<Rightarrow> db option" where
  "insertTenantEmailVerification sv c memberUID tenantUID email displayName tenantName d =
     (case RandomToken (ca_rand c ''verification token'') of
        None \<Rightarrow> None
      | Some token \<Rightarrow>
          Option.bind (stmt c ''revoke verifications'' (\<lambda>d. Some (d\<lparr>db_email_verifications := revoke_open (ca_now c) memberUID (db_email_verifications d)\<rparr>)) d) (\<lambda>d.
          Option.bind (stmt c ''insert verification'' (\<lambda>d. map_option (\<lambda>t. d\<lparr>db_email_verifications := t\<rparr>)
              (insert_recovery_token (new_recovery_token sv c ''verification'' tenantUID memberUID tenantEmailVerificationTTL token) (db_email_verifications d))) d)
            (send_token sv c tenantUID ''tenant_email_verification'' email
               \<lparr>dp_DisplayName = displayName, dp_TenantName = tenantName, dp_Link = ConsoleOrigin sv @ ''/verify-email#token='' @ token\<rparr>)))"

text \<open>The member is locked and read again; its tenant must be the one found before.\<close>

definition still_active :: "call \<Rightarrow> uid \<Rightarrow> uid \<Rightarrow> db \<Rightarrow> bool" where
  "still_active c memberUID tenantUID d \<longleftrightarrow>
     (\<not> ca_flt c ''lock member'' \<and> (case active_member d memberUID of None \<Rightarrow> False | Some m \<Rightarrow> tm_tenant_uid m = tenantUID))"

text \<open>Both issuing functions only log an error: the result is the database after them.\<close>

definition issueTenantEmailVerification :: "server \<Rightarrow> call \<Rightarrow> uid \<Rightarrow> uid \<Rightarrow> string \<Rightarrow> string \<Rightarrow> string \<Rightarrow> db \<Rightarrow> db" where
  "issueTenantEmailVerification sv c memberUID tenantUID email displayName tenantName d =
     (if ca_flt c ''begin transaction'' \<or> \<not> still_active c memberUID tenantUID d then d
      else (case commit_tx c (insertTenantEmailVerification sv c memberUID tenantUID email displayName tenantName d) of
              None \<Rightarrow> d | Some d' \<Rightarrow> d'))"

definition createTenantEmailVerificationRequest :: "server \<Rightarrow> string option \<Rightarrow> call \<Rightarrow> handler" where
  "createTenantEmailVerificationRequest sv body c r d =
     (case acceptRecoveryEmail sv body r of
        Inl w \<Rightarrow> (w, d)
      | Inr email \<Rightarrow>
          (case request_limits sv c r ''tenant_email_verification_ip'' ''tenant_email_verification_identity'' email d of
             (Some w, d1) \<Rightarrow> (w, d1)
           | (None, d1) \<Rightarrow>
               (recovery_accepted,
                case recoverable c email d1 of
                  None \<Rightarrow> d1
                | Some (m, t) \<Rightarrow>
                    if tm_email_verified_at m \<noteq> None then d1
                    else issueTenantEmailVerification sv c (tm_uid m) (tm_tenant_uid m) email (tm_display_name m) (tn_name t) d1)))"

definition password_reset_tx :: "server \<Rightarrow> call \<Rightarrow> string \<Rightarrow> uid \<Rightarrow> uid \<Rightarrow> string \<Rightarrow> string \<Rightarrow> string \<Rightarrow> db \<Rightarrow> db option" where
  "password_reset_tx sv c token memberUID tenantUID email displayName tenantName d =
     Option.bind (stmt c ''revoke resets'' (\<lambda>d. Some (d\<lparr>db_password_resets := revoke_open (ca_now c) memberUID (db_password_resets d)\<rparr>)) d) (\<lambda>d.
     Option.bind (stmt c ''insert reset'' (\<lambda>d. map_option (\<lambda>t. d\<lparr>db_password_resets := t\<rparr>)
         (insert_recovery_token (new_recovery_token sv c ''reset'' tenantUID memberUID tenantPasswordResetTTL token) (db_password_resets d))) d)
       (send_token sv c tenantUID ''tenant_password_reset'' email
          \<lparr>dp_DisplayName = displayName, dp_TenantName = tenantName, dp_Link = ConsoleOrigin sv @ ''/reset-password#token='' @ token\<rparr>))"

definition issueTenantPasswordReset :: "server \<Rightarrow> call \<Rightarrow> uid \<Rightarrow> uid \<Rightarrow> string \<Rightarrow> string \<Rightarrow> string \<Rightarrow> db \<Rightarrow> db" where
  "issueTenantPasswordReset sv c memberUID tenantUID email displayName tenantName d =
     (case RandomToken (ca_rand c ''reset token'') of
        None \<Rightarrow> d
      | Some token \<Rightarrow>
          if ca_flt c ''begin transaction'' \<or> \<not> still_active c memberUID tenantUID d then d
          else (case commit_tx c (password_reset_tx sv c token memberUID tenantUID email displayName tenantName d) of
                  None \<Rightarrow> d | Some d' \<Rightarrow> d'))"

definition createTenantPasswordResetRequest :: "server \<Rightarrow> string option \<Rightarrow> call \<Rightarrow> handler" where
  "createTenantPasswordResetRequest sv body c r d =
     (case acceptRecoveryEmail sv body r of
        Inl w \<Rightarrow> (w, d)
      | Inr email \<Rightarrow>
          (case request_limits sv c r ''tenant_password_reset_ip'' ''tenant_password_reset_identity'' email d of
             (Some w, d1) \<Rightarrow> (w, d1)
           | (None, d1) \<Rightarrow>
               (recovery_accepted,
                case recoverable c email d1 of
                  None \<Rightarrow> d1
                | Some (m, t) \<Rightarrow> issueTenantPasswordReset sv c (tm_uid m) (tm_tenant_uid m) email (tm_display_name m) (tn_name t) d1)))"

section \<open>Redeeming tokens\<close>

text \<open>The open token with the hash of the presented one and an existing member, locked; then the checks on it.\<close>

definition redeemable :: "server \<Rightarrow> call \<Rightarrow> string \<Rightarrow> db \<Rightarrow> verification_row list \<Rightarrow> verification_row option" where
  "redeemable sv c token d t =
     (if ca_flt c ''load token'' then None
      else (let member = (\<lambda>v. sql_row (\<lambda>m. tm_uid m = vf_tenant_member_uid v) (db_members d)) in
        case sql_row (\<lambda>v. vf_token_hash v = SessionHash_of sv token \<and> open_token v \<and> member v \<noteq> None) t of
          None \<Rightarrow> None
        | Some v \<Rightarrow>
            if (case member v of None \<Rightarrow> False | Some m \<Rightarrow> tm_status m = ''active'') \<and> vf_expires_at v > ca_now c \<and>
               ConstantTimeCompare (vf_token_hash v) (SessionHash_of sv token) = 1
            then Some v else None))"

definition consume_token :: "time \<Rightarrow> uid \<Rightarrow> verification_row list \<Rightarrow> verification_row list" where
  "consume_token now uid = sql_update (\<lambda>v. vf_uid v = uid) (\<lambda>v. v\<lparr>vf_consumed_at := Some now\<rparr>)"

definition recovery_audit :: "call \<Rightarrow> verification_row \<Rightarrow> string \<Rightarrow> json \<Rightarrow> db \<Rightarrow> db option" where
  "recovery_audit c v action metadata = stmt c ''insert audit event'' (\<lambda>d. Some (add_audit
     \<lparr>au_uid = ca_uid c ''audit'', au_tenant_uid = vf_tenant_uid v, au_project_uid = None, au_actor_type = ''tenant_member'',
      au_actor_uid = Some (vf_tenant_member_uid v), au_action = action, au_target_type = ''tenant_member'',
      au_target_uid = vf_tenant_member_uid v, au_metadata = metadata\<rparr> d))"

definition verify_email_tx :: "call \<Rightarrow> verification_row \<Rightarrow> db \<Rightarrow> db option" where
  "verify_email_tx c v d =
     Option.bind (stmt c ''consume verification'' (\<lambda>d. Some (d\<lparr>db_email_verifications := consume_token (ca_now c) (vf_uid v) (db_email_verifications d)\<rparr>)) d) (\<lambda>d.
     Option.bind (stmt c ''verify member'' (\<lambda>d. Some (d\<lparr>db_members :=
         sql_update (\<lambda>m. tm_uid m = vf_tenant_member_uid v)
           (\<lambda>m. m\<lparr>tm_email_verified_at := coalesce (tm_email_verified_at m) (ca_now c)\<rparr>) (db_members d)\<rparr>)) d)
       (recovery_audit c v ''tenant_member.email_verified'' (JObj [])))"

definition verifyTenantEmail :: "server \<Rightarrow> string option \<Rightarrow> call \<Rightarrow> handler" where
  "verifyTenantEmail sv body c r d =
     (case takeRateLimit sv c r ''tenant_email_verification_consume'' (clientIP sv r) 20 (15 * Minute) d of
        (Some w, d1) \<Rightarrow> (w, d1)
      | (None, d1) \<Rightarrow>
          (case body of
             None \<Rightarrow> (invalid_json r, d1)
           | Some token \<Rightarrow>
               if TrimSpace token = [] then (fail r 422 ''validation_failed'' ''token is required'', d1)
               else if ca_flt c ''begin transaction'' then (fail r 500 ''internal_error'' ''could not verify email'', d1)
               else (case redeemable sv c token d1 (db_email_verifications d1) of
                 None \<Rightarrow> (fail r 400 ''invalid_email_verification'' ''email verification is invalid, expired, or already used'', d1)
               | Some v \<Rightarrow>
                   (case commit_tx c (verify_email_tx c v d1) of
                      None \<Rightarrow> (fail r 500 ''internal_error'' ''could not verify email'', d1)
                    | Some d' \<Rightarrow> (no_content 204, d')))))"

text \<open>The statements of a password reset, in order.\<close>

definition end_member_sessions :: "time \<Rightarrow> uid \<Rightarrow> db \<Rightarrow> db" where
  "end_member_sessions now memberUID d = d\<lparr>db_member_sessions :=
     sql_update (\<lambda>s. ms_tenant_member_uid s = memberUID) (\<lambda>s. s\<lparr>ms_revoked_at := coalesce (ms_revoked_at s) now\<rparr>) (db_member_sessions d)\<rparr>"

definition close_attempts :: "time \<Rightarrow> uid \<Rightarrow> db \<Rightarrow> db" where
  "close_attempts now memberUID d = d\<lparr>db_member_login_attempts :=
     sql_update (\<lambda>a. la_tenant_member_uid a = Some memberUID) (\<lambda>a. a\<lparr>la_consumed_at := coalesce (la_consumed_at a) now\<rparr>) (db_member_login_attempts d)\<rparr>"

definition drop_credentials :: "uid \<Rightarrow> db \<Rightarrow> db" where
  "drop_credentials memberUID d = d\<lparr>db_member_credentials := sql_delete (\<lambda>k. mw_tenant_member_uid k = memberUID) (db_member_credentials d)\<rparr>"

definition end_grants :: "time \<Rightarrow> uid \<Rightarrow> db \<Rightarrow> db" where
  "end_grants now memberUID d = d\<lparr>db_access_tokens :=
     sql_update (\<lambda>k. tk_tenant_member_uid k = memberUID) (\<lambda>k. k\<lparr>tk_revoked_at := coalesce (tk_revoked_at k) now\<rparr>) (db_access_tokens d)\<rparr>"

definition close_codes :: "time \<Rightarrow> uid \<Rightarrow> db \<Rightarrow> db" where
  "close_codes now memberUID d = d\<lparr>db_auth_codes :=
     sql_update (\<lambda>k. ac_tenant_member_uid k = memberUID) (\<lambda>k. k\<lparr>ac_consumed_at := coalesce (ac_consumed_at k) now\<rparr>) (db_auth_codes d)\<rparr>"

definition redeem_reset :: "call \<Rightarrow> verification_row \<Rightarrow> db \<Rightarrow> db option" where
  "redeem_reset c v d =
     Option.bind (stmt c ''consume reset'' (\<lambda>d. Some (d\<lparr>db_password_resets := consume_token (ca_now c) (vf_uid v) (db_password_resets d)\<rparr>)) d)
       (stmt c ''revoke other resets'' (\<lambda>d. Some (d\<lparr>db_password_resets :=
          sql_update (\<lambda>x. vf_tenant_member_uid x = vf_tenant_member_uid v \<and> vf_uid x \<noteq> vf_uid v \<and> open_token x)
            (\<lambda>x. x\<lparr>vf_revoked_at := Some (ca_now c)\<rparr>) (db_password_resets d)\<rparr>)))"

definition set_password :: "uid \<Rightarrow> string \<Rightarrow> db \<Rightarrow> db" where
  "set_password memberUID h d = d\<lparr>db_members := sql_update (\<lambda>m. tm_uid m = memberUID) (\<lambda>m. m\<lparr>tm_password_hash := h\<rparr>) (db_members d)\<rparr>"

definition reset_password_tx :: "call \<Rightarrow> verification_row \<Rightarrow> string \<Rightarrow> db \<Rightarrow> db option" where
  "reset_password_tx c v h d =
     (let memberUID = vf_tenant_member_uid v; now = ca_now c in
      Option.bind (redeem_reset c v d) (\<lambda>d.
      Option.bind (stmt c ''update password'' (\<lambda>d. Some (set_password memberUID h d)) d) (\<lambda>d.
      Option.bind (stmt c ''revoke sessions'' (\<lambda>d. Some (end_member_sessions now memberUID d)) d) (\<lambda>d.
      Option.bind (stmt c ''close attempts'' (\<lambda>d. Some (close_attempts now memberUID d)) d) (\<lambda>d.
      Option.bind (stmt c ''delete credentials'' (\<lambda>d. Some (drop_credentials memberUID d)) d) (\<lambda>d.
      Option.bind (stmt c ''revoke tokens'' (\<lambda>d. Some (end_grants now memberUID d)) d) (\<lambda>d.
      Option.bind (stmt c ''close codes'' (\<lambda>d. Some (close_codes now memberUID d)) d)
        (recovery_audit c v ''tenant_member.authentication_recovered''
           (JObj [(''password_replaced'', JBool True), (''webauthn_credentials_removed'', JBool True)])))))))))"

record passwordResetInput =
  pr_Token :: string
  pr_Password :: string

definition resetTenantMemberPassword :: "server \<Rightarrow> passwordResetInput option \<Rightarrow> call \<Rightarrow> handler" where
  "resetTenantMemberPassword sv body c r d =
     (case takeRateLimit sv c r ''tenant_password_reset_consume'' (clientIP sv r) 20 (15 * Minute) d of
        (Some w, d1) \<Rightarrow> (w, d1)
      | (None, d1) \<Rightarrow>
          (case body of
             None \<Rightarrow> (invalid_json r, d1)
           | Some input \<Rightarrow>
               if TrimSpace (pr_Token input) = [] then (fail r 422 ''validation_failed'' ''token and password are required'', d1)
               else (case hash_or_answer sv c r (pr_Password input) of
                 Inl w \<Rightarrow> (w, d1)
               | Inr h \<Rightarrow>
                   if ca_flt c ''begin transaction'' then (fail r 500 ''internal_error'' ''could not reset password'', d1)
                   else (case redeemable sv c (pr_Token input) d1 (db_password_resets d1) of
                     None \<Rightarrow> (fail r 400 ''invalid_password_reset'' ''password reset is invalid, expired, or already used'', d1)
                   | Some v \<Rightarrow>
                       (case commit_tx c (reset_password_tx c v h d1) of
                          None \<Rightarrow> (fail r 500 ''internal_error'' ''could not reset password'', d1)
                        | Some d' \<Rightarrow> (clear_cookie sv (no_content 204), d'))))))"

section \<open>What the calls change\<close>

text \<open>The limiter writes its own table only, and its answer depends on that table only.\<close>

lemma takeRateLimit_frame: "takeRateLimit sv c r p k l w d = (x, d1) \<Longrightarrow> \<exists>t. d1 = d\<lparr>db_buckets := t\<rparr>"
  by (auto simp: takeRateLimit_def split: prod.splits sum.splits if_splits)

lemma takeRateLimit_cong:
  assumes "db_buckets d = db_buckets d'"
  shows "fst (takeRateLimit sv c r p k l w d) = fst (takeRateLimit sv c r p k l w d')"
    and "db_buckets (snd (takeRateLimit sv c r p k l w d)) = db_buckets (snd (takeRateLimit sv c r p k l w d'))"
  using assms by (auto simp: takeRateLimit_def split: prod.splits sum.splits if_splits)

lemma takeRateLimit_status: "takeRateLimit sv c r p k l w d = (Some v, d1) \<Longrightarrow> hs_status v \<noteq> 204 \<and> hs_status v \<noteq> 202"
  by (auto simp: takeRateLimit_def with_header_def fail_def writeJSON_def split: prod.splits sum.splits if_splits)

text \<open>Two databases that differ in the limiter's table and in the outgoing email at most.\<close>

definition quiet :: "db \<Rightarrow> db \<Rightarrow> bool" where
  "quiet d d' \<longleftrightarrow> d'\<lparr>db_buckets := db_buckets d, db_email_deliveries := db_email_deliveries d, db_jobs := db_jobs d\<rparr> = d"

lemma quiet_refl [simp]: "quiet d d"
  by (simp add: quiet_def)

lemma quiet_write [simp]: "quiet d (d\<lparr>db_buckets := b\<rparr>)" "quiet d (d\<lparr>db_email_deliveries := e, db_jobs := j\<rparr>)"
  by (simp_all add: quiet_def)

lemma quiet_trans: "quiet d1 d2 \<Longrightarrow> quiet d2 d3 \<Longrightarrow> quiet d1 d3"
  by (cases d1, cases d2, cases d3) (simp add: quiet_def)

lemma quiet_tables:
  assumes "quiet d d'"
  shows "db_email_verifications d' = db_email_verifications d" "db_password_resets d' = db_password_resets d" "db_members d' = db_members d"
    "db_member_sessions d' = db_member_sessions d" "db_member_login_attempts d' = db_member_login_attempts d"
    "db_member_credentials d' = db_member_credentials d" "db_access_tokens d' = db_access_tokens d" "db_auth_codes d' = db_auth_codes d"
    "db_audit d' = db_audit d"
  using assms by (cases d, cases d'; simp add: quiet_def)+

lemma takeRateLimit_quiet: "takeRateLimit sv c r p k l w d = (x, d1) \<Longrightarrow> quiet d d1"
  using takeRateLimit_frame by fastforce

lemma request_limits_quiet: "request_limits sv c r p q email d = (x, d1) \<Longrightarrow> quiet d d1"
  by (auto simp: request_limits_def split: prod.splits option.splits dest!: takeRateLimit_quiet intro: quiet_trans)

lemma send_token_quiet: "send_token sv c tenantUID template email payload d = Some d' \<Longrightarrow> quiet d d'"
  by (auto simp: send_token_def scheduleEmailDelivery_def Let_def split: sum.splits if_splits option.splits)

text \<open>A table of tokens after issuing one: all open tokens of the member are revoked and a new one is added.\<close>

definition issued :: "verification_row list \<Rightarrow> verification_row list \<Rightarrow> bool" where
  "issued t t' \<longleftrightarrow> t' = t \<or> (\<exists>now v. open_token v \<and> insert_recovery_token v (revoke_open now (vf_tenant_member_uid v) t) = Some t')"

lemma issued_refl [simp]: "issued t t"
  by (simp add: issued_def)

lemma issued_new:
  "insert_recovery_token (new_recovery_token sv c site u m ttl token) (revoke_open (ca_now c) m t) = Some t' \<Longrightarrow> issued t t'"
  unfolding issued_def
  by (intro disjI2 exI [of _ "ca_now c"] exI [of _ "new_recovery_token sv c site u m ttl token"]) (simp add: open_token_def new_recovery_token_def)

lemma commit_tx_Some [simp]: "commit_tx c x = Some d' \<longleftrightarrow> x = Some d' \<and> \<not> ca_flt c ''commit''"
  by (auto simp: commit_tx_def stmt_def bind_eq_Some_conv)

lemma insert_verification_effect:
  assumes "insertTenantEmailVerification sv c m u email dn tn d = Some d'"
  shows "\<exists>t. issued (db_email_verifications d) t \<and> quiet (d\<lparr>db_email_verifications := t\<rparr>) d'"
  using assms by (auto simp: insertTenantEmailVerification_def stmt_def bind_eq_Some_conv split: option.splits if_splits
      dest!: send_token_quiet issued_new)

lemma password_reset_tx_effect:
  assumes "password_reset_tx sv c token m u email dn tn d = Some d'"
  shows "\<exists>t. issued (db_password_resets d) t \<and> quiet (d\<lparr>db_password_resets := t\<rparr>) d'"
  using assms by (auto simp: password_reset_tx_def stmt_def bind_eq_Some_conv split: option.splits if_splits
      dest!: send_token_quiet issued_new)

lemma quiet_verifications: "quiet d d1 \<Longrightarrow> quiet (d\<lparr>db_email_verifications := t\<rparr>) (d1\<lparr>db_email_verifications := t\<rparr>)"
  and quiet_resets: "quiet d d1 \<Longrightarrow> quiet (d\<lparr>db_password_resets := t\<rparr>) (d1\<lparr>db_password_resets := t\<rparr>)"
  by (cases d, cases d1, simp add: quiet_def)+

lemma issue_verification_effect:
  "\<exists>t. issued (db_email_verifications d) t \<and> quiet (d\<lparr>db_email_verifications := t\<rparr>) (issueTenantEmailVerification sv c m u email dn tn d)"
proof (cases "issueTenantEmailVerification sv c m u email dn tn d = d")
  case True
  then show ?thesis by (intro exI [of _ "db_email_verifications d"]) simp
next
  case False
  then obtain d' where "insertTenantEmailVerification sv c m u email dn tn d = Some d'" "issueTenantEmailVerification sv c m u email dn tn d = d'"
    by (auto simp: issueTenantEmailVerification_def split: option.splits if_splits)
  then show ?thesis using insert_verification_effect by simp
qed

lemma issue_reset_effect:
  "\<exists>t. issued (db_password_resets d) t \<and> quiet (d\<lparr>db_password_resets := t\<rparr>) (issueTenantPasswordReset sv c m u email dn tn d)"
proof (cases "issueTenantPasswordReset sv c m u email dn tn d = d")
  case True
  then show ?thesis by (intro exI [of _ "db_password_resets d"]) simp
next
  case False
  then obtain token d' where "password_reset_tx sv c token m u email dn tn d = Some d'" "issueTenantPasswordReset sv c m u email dn tn d = d'"
    by (auto simp: issueTenantPasswordReset_def split: option.splits if_splits)
  then show ?thesis using password_reset_tx_effect by simp
qed

lemma ask_verification_effect:
  "\<exists>t. issued (db_email_verifications d) t \<and> quiet (d\<lparr>db_email_verifications := t\<rparr>) (snd (createTenantEmailVerificationRequest sv body c r d))"
proof -
  let ?d' = "snd (createTenantEmailVerificationRequest sv body c r d)"
  have "quiet d ?d' \<or> (\<exists>d1 m u email dn tn. quiet d d1 \<and> ?d' = issueTenantEmailVerification sv c m u email dn tn d1)"
    by (auto simp: createTenantEmailVerificationRequest_def split: sum.splits prod.splits option.splits dest!: request_limits_quiet) blast
  then consider "quiet d ?d'" | d1 m u email dn tn where "quiet d d1" "?d' = issueTenantEmailVerification sv c m u email dn tn d1" by blast
  then show ?thesis
  proof cases
    case 1
    then show ?thesis by (intro exI [of _ "db_email_verifications d"]) simp
  next
    case 2
    then obtain t where t: "issued (db_email_verifications d1) t" "quiet (d1\<lparr>db_email_verifications := t\<rparr>) ?d'" using issue_verification_effect by metis
    show ?thesis
      by (rule exI [of _ t]) (use t(1) quiet_tables(1) [OF 2(1)] quiet_trans [OF quiet_verifications [OF 2(1)] t(2)] in simp)
  qed
qed

lemma ask_reset_effect:
  "\<exists>t. issued (db_password_resets d) t \<and> quiet (d\<lparr>db_password_resets := t\<rparr>) (snd (createTenantPasswordResetRequest sv body c r d))"
proof -
  let ?d' = "snd (createTenantPasswordResetRequest sv body c r d)"
  have "quiet d ?d' \<or> (\<exists>d1 m u email dn tn. quiet d d1 \<and> ?d' = issueTenantPasswordReset sv c m u email dn tn d1)"
    by (auto simp: createTenantPasswordResetRequest_def split: sum.splits prod.splits option.splits dest!: request_limits_quiet) blast
  then consider "quiet d ?d'" | d1 m u email dn tn where "quiet d d1" "?d' = issueTenantPasswordReset sv c m u email dn tn d1" by blast
  then show ?thesis
  proof cases
    case 1
    then show ?thesis by (intro exI [of _ "db_password_resets d"]) simp
  next
    case 2
    then obtain t where t: "issued (db_password_resets d1) t" "quiet (d1\<lparr>db_password_resets := t\<rparr>) ?d'" using issue_reset_effect by metis
    show ?thesis
      by (rule exI [of _ t]) (use t(1) quiet_tables(2) [OF 2(1)] quiet_trans [OF quiet_resets [OF 2(1)] t(2)] in simp)
  qed
qed

lemma redeemableD:
  assumes "redeemable sv c token d t = Some v"
  shows "v \<in> set t" "vf_token_hash v = SessionHash_of sv token" "open_token v" "ca_now c < vf_expires_at v"
    "\<exists>m \<in> set (db_members d). tm_uid m = vf_tenant_member_uid v \<and> tm_status m = ''active''"
  using assms by (auto simp: redeemable_def Let_def split: if_splits option.splits dest!: sql_row_SomeD)

lemma verify_email_cases:
  assumes "verifyTenantEmail sv body c r d = (w, d')"
  obtains (refused) "quiet d d'" "hs_status w \<noteq> 204"
  | (verified) token v d1 where "body = Some token" "quiet d d1" "redeemable sv c token d1 (db_email_verifications d1) = Some v"
      "verify_email_tx c v d1 = Some d'" "w = no_content 204"
proof -
  obtain x d1 where lim: "takeRateLimit sv c r ''tenant_email_verification_consume'' (clientIP sv r) 20 (15 * Minute) d = (x, d1)" by fastforce
  note q = takeRateLimit_quiet [OF lim]
  show thesis
  proof (cases x)
    case (Some y)
    then show thesis using assms lim q takeRateLimit_status refused by (fastforce simp: verifyTenantEmail_def)
  next
    case None
    have "quiet d d' \<and> hs_status w \<noteq> 204 \<or> (\<exists>token v. body = Some token \<and> redeemable sv c token d1 (db_email_verifications d1) = Some v \<and>
        verify_email_tx c v d1 = Some d' \<and> w = no_content 204)"
      using assms q by (auto simp: verifyTenantEmail_def lim None invalid_json_def fail_def writeJSON_def split: option.splits if_splits)
    then show thesis using refused verified q by blast
  qed
qed

lemma reset_password_cases:
  assumes "resetTenantMemberPassword sv body c r d = (w, d')"
  obtains (refused) "quiet d d'" "hs_status w \<noteq> 204"
  | (recovered) input v h d1 where "body = Some input" "quiet d d1" "redeemable sv c (pr_Token input) d1 (db_password_resets d1) = Some v"
      "hash_or_answer sv c r (pr_Password input) = Inr h" "reset_password_tx c v h d1 = Some d'" "w = clear_cookie sv (no_content 204)"
proof -
  obtain x d1 where lim: "takeRateLimit sv c r ''tenant_password_reset_consume'' (clientIP sv r) 20 (15 * Minute) d = (x, d1)" by fastforce
  note q = takeRateLimit_quiet [OF lim]
  have bad: "hs_status v \<noteq> 204" if "hash_or_answer sv c r p = Inl v" for p v
    using that by (auto simp: hash_or_answer_def refusal_status split: sum.splits password_error.splits)
  show thesis
  proof (cases x)
    case (Some y)
    then show thesis using assms lim q takeRateLimit_status refused by (fastforce simp: resetTenantMemberPassword_def)
  next
    case None
    have "quiet d d' \<and> hs_status w \<noteq> 204 \<or> (\<exists>input v h. body = Some input \<and> redeemable sv c (pr_Token input) d1 (db_password_resets d1) = Some v \<and>
        hash_or_answer sv c r (pr_Password input) = Inr h \<and> reset_password_tx c v h d1 = Some d' \<and> w = clear_cookie sv (no_content 204))"
      using assms q bad
      by (auto simp: resetTenantMemberPassword_def lim None invalid_json_def fail_def writeJSON_def split: option.splits if_splits sum.splits)
    then show thesis using refused recovered q by blast
  qed
qed

lemma verify_email_tx_effect:
  assumes "verify_email_tx c v d = Some d'"
  shows "db_email_verifications d' = consume_token (ca_now c) (vf_uid v) (db_email_verifications d)" "db_password_resets d' = db_password_resets d"
    "db_members d' = sql_update (\<lambda>m. tm_uid m = vf_tenant_member_uid v)
       (\<lambda>m. m\<lparr>tm_email_verified_at := coalesce (tm_email_verified_at m) (ca_now c)\<rparr>) (db_members d)"
  using assms by (auto simp: verify_email_tx_def recovery_audit_def add_audit_def stmt_def bind_eq_Some_conv split: if_splits)

text \<open>The tokens after a reset: the one presented consumed, the other open ones of the member revoked.\<close>

definition settled :: "time \<Rightarrow> verification_row \<Rightarrow> verification_row list \<Rightarrow> verification_row list" where
  "settled now v t = sql_update (\<lambda>x. vf_tenant_member_uid x = vf_tenant_member_uid v \<and> vf_uid x \<noteq> vf_uid v \<and> open_token x)
     (\<lambda>x. x\<lparr>vf_revoked_at := Some now\<rparr>) (consume_token now (vf_uid v) t)"

lemma reset_password_tx_effect:
  assumes "reset_password_tx c v h d = Some d'"
  shows "db_password_resets d' = settled (ca_now c) v (db_password_resets d)" "db_email_verifications d' = db_email_verifications d"
    "db_members d' = sql_update (\<lambda>m. tm_uid m = vf_tenant_member_uid v) (\<lambda>m. m\<lparr>tm_password_hash := h\<rparr>) (db_members d)"
    "db_member_sessions d' = sql_update (\<lambda>s. ms_tenant_member_uid s = vf_tenant_member_uid v)
       (\<lambda>s. s\<lparr>ms_revoked_at := coalesce (ms_revoked_at s) (ca_now c)\<rparr>) (db_member_sessions d)"
    "db_member_login_attempts d' = sql_update (\<lambda>a. la_tenant_member_uid a = Some (vf_tenant_member_uid v))
       (\<lambda>a. a\<lparr>la_consumed_at := coalesce (la_consumed_at a) (ca_now c)\<rparr>) (db_member_login_attempts d)"
    "db_member_credentials d' = sql_delete (\<lambda>k. mw_tenant_member_uid k = vf_tenant_member_uid v) (db_member_credentials d)"
    "db_access_tokens d' = sql_update (\<lambda>k. tk_tenant_member_uid k = vf_tenant_member_uid v)
       (\<lambda>k. k\<lparr>tk_revoked_at := coalesce (tk_revoked_at k) (ca_now c)\<rparr>) (db_access_tokens d)"
    "db_auth_codes d' = sql_update (\<lambda>k. ac_tenant_member_uid k = vf_tenant_member_uid v)
       (\<lambda>k. k\<lparr>ac_consumed_at := coalesce (ac_consumed_at k) (ca_now c)\<rparr>) (db_auth_codes d)"
proof -
  let ?m = "vf_tenant_member_uid v" and ?now = "ca_now c"
  obtain a where "d' = close_codes ?now ?m (end_grants ?now ?m (drop_credentials ?m (close_attempts ?now ?m (end_member_sessions ?now ?m
      (set_password ?m h (d\<lparr>db_password_resets := settled ?now v (db_password_resets d)\<rparr>))))))\<lparr>db_audit := a\<rparr>"
    using assms by (simp add: reset_password_tx_def redeem_reset_def settled_def recovery_audit_def add_audit_def stmt_def bind_eq_Some_conv Let_def
        split: if_split_asm) blast
  note d' = this [unfolded close_codes_def end_grants_def drop_credentials_def close_attempts_def end_member_sessions_def set_password_def]
  show "db_password_resets d' = settled ?now v (db_password_resets d)" "db_email_verifications d' = db_email_verifications d"
    "db_members d' = sql_update (\<lambda>m. tm_uid m = ?m) (\<lambda>m. m\<lparr>tm_password_hash := h\<rparr>) (db_members d)"
    "db_member_sessions d' = sql_update (\<lambda>s. ms_tenant_member_uid s = ?m) (\<lambda>s. s\<lparr>ms_revoked_at := coalesce (ms_revoked_at s) ?now\<rparr>) (db_member_sessions d)"
    "db_member_login_attempts d' = sql_update (\<lambda>a. la_tenant_member_uid a = Some ?m)
       (\<lambda>a. a\<lparr>la_consumed_at := coalesce (la_consumed_at a) ?now\<rparr>) (db_member_login_attempts d)"
    "db_member_credentials d' = sql_delete (\<lambda>k. mw_tenant_member_uid k = ?m) (db_member_credentials d)"
    "db_access_tokens d' = sql_update (\<lambda>k. tk_tenant_member_uid k = ?m) (\<lambda>k. k\<lparr>tk_revoked_at := coalesce (tk_revoked_at k) ?now\<rparr>) (db_access_tokens d)"
    "db_auth_codes d' = sql_update (\<lambda>k. ac_tenant_member_uid k = ?m) (\<lambda>k. k\<lparr>ac_consumed_at := coalesce (ac_consumed_at k) ?now\<rparr>) (db_auth_codes d)"
    by (simp_all add: d')
qed

section \<open>Tokens are redeemed at most once\<close>

text \<open>A token is spent when it is known and not open; a table is well-formed when no two tokens share a hash and no member has two open ones.\<close>

definition spent :: "byte list \<Rightarrow> verification_row list \<Rightarrow> bool" where
  "spent h t \<longleftrightarrow> (\<exists>v \<in> set t. vf_token_hash v = h) \<and> (\<forall>v \<in> set t. vf_token_hash v = h \<longrightarrow> \<not> open_token v)"

definition tokens_ok :: "verification_row list \<Rightarrow> bool" where
  "tokens_ok t \<longleftrightarrow> distinct (map vf_token_hash t) \<and>
     (\<forall>x \<in> set t. \<forall>y \<in> set t. open_token x \<and> open_token y \<and> vf_tenant_member_uid x = vf_tenant_member_uid y \<longrightarrow> x = y)"

definition closing :: "(verification_row \<Rightarrow> verification_row) \<Rightarrow> bool" where
  "closing f \<longleftrightarrow> (\<forall>v. vf_token_hash (f v) = vf_token_hash v \<and> vf_tenant_member_uid (f v) = vf_tenant_member_uid v \<and>
     (open_token (f v) \<longrightarrow> f v = v))"

lemma closing_map:
  assumes "closing f"
  shows "tokens_ok t \<Longrightarrow> tokens_ok (map f t)" and "spent h t \<Longrightarrow> spent h (map f t)"
proof -
  have keeps: "map vf_token_hash (map f t) = map vf_token_hash t" using assms by (simp add: closing_def)
  show "tokens_ok (map f t)" if "tokens_ok t"
    using that assms keeps unfolding tokens_ok_def closing_def by (auto simp: comp_def) metis
  show "spent h (map f t)" if "spent h t"
    using that assms unfolding spent_def closing_def by auto
qed

lemma closing_steps: "closing (\<lambda>v. if p v then v\<lparr>vf_consumed_at := Some now\<rparr> else v)" "closing (\<lambda>v. if p v then v\<lparr>vf_revoked_at := Some now\<rparr> else v)"
  by (auto simp: closing_def open_token_def)

lemma closed_tables:
  assumes "tokens_ok t"
  shows "tokens_ok (revoke_open now m t)" "tokens_ok (consume_token now u t)" "tokens_ok (settled now v t)"
  using assms by (simp_all add: revoke_open_def consume_token_def settled_def sql_update_def closing_map closing_steps del: map_map)

lemma spent_tables:
  assumes "spent h t"
  shows "spent h (revoke_open now m t)" "spent h (consume_token now u t)" "spent h (settled now v t)"
  using assms by (simp_all add: revoke_open_def consume_token_def settled_def sql_update_def closing_map closing_steps del: map_map)

lemma issued_tokens:
  assumes "issued t t'" and "tokens_ok t"
  shows "tokens_ok t'" and "spent h t \<Longrightarrow> spent h t'"
proof -
  consider "t' = t" | now v where "open_token v" "insert_recovery_token v (revoke_open now (vf_tenant_member_uid v) t) = Some t'"
    using assms(1) by (auto simp: issued_def)
  then have "tokens_ok t' \<and> (spent h t \<longrightarrow> spent h t')"
  proof cases
    case 1
    then show ?thesis using assms(2) by simp
  next
    case 2
    let ?t = "revoke_open now (vf_tenant_member_uid v) t"
    have t': "t' = ?t @ [v]" and fresh: "\<forall>x \<in> set ?t. vf_token_hash x \<noteq> vf_token_hash v"
      using 2(2) by (auto simp: insert_recovery_token_def list_ex_iff split: if_splits)
    have none: "\<forall>x \<in> set ?t. open_token x \<longrightarrow> vf_tenant_member_uid x \<noteq> vf_tenant_member_uid v"
      by (auto simp: revoke_open_def set_sql_update open_token_def)
    have "tokens_ok t'" using closed_tables(1) [OF assms(2), of now "vf_tenant_member_uid v"] fresh none
      unfolding t' tokens_ok_def by (auto simp: image_iff)
    moreover have "spent h t'" if "spent h t"
      using spent_tables(1) [OF that, of now "vf_tenant_member_uid v"] fresh unfolding t' spent_def by auto
    ultimately show ?thesis by blast
  qed
  then show "tokens_ok t'" "spent h t \<Longrightarrow> spent h t'" by blast+
qed

lemma redeemed_spent:
  assumes "tokens_ok t" "v \<in> set t"
  shows "spent (vf_token_hash v) (consume_token now (vf_uid v) t)"
proof -
  have "x = v" if "x \<in> set t" "vf_token_hash x = vf_token_hash v" for x
    using assms that by (auto simp: tokens_ok_def distinct_map inj_on_def)
  moreover have "v\<lparr>vf_consumed_at := Some now\<rparr> \<in> set (consume_token now (vf_uid v) t)"
    using assms(2) by (force simp: consume_token_def set_sql_update)
  moreover have "\<not> open_token x" if "x \<in> set (consume_token now (vf_uid v) t)" "vf_token_hash x = vf_token_hash v" for x
    using that calculation(1) by (auto simp: consume_token_def set_sql_update open_token_def split: if_splits)
  ultimately show ?thesis unfolding spent_def by (intro conjI bexI ballI impI) simp_all
qed

text \<open>How often a key is used successfully in a sequence of calls.\<close>

primrec uses :: "nat \<Rightarrow> ('a \<Rightarrow> db \<Rightarrow> http_response \<times> db) \<Rightarrow> ('a \<Rightarrow> 'k option) \<Rightarrow> 'k \<Rightarrow> 'a list \<Rightarrow> db \<Rightarrow> nat" where
  "uses status step key k [] d = 0"
| "uses status step key k (a # as) d =
     (if key a = Some k \<and> hs_status (fst (step a d)) = status then 1 else 0) + uses status step key k as (snd (step a d))"

text \<open>
  The interface of things that work once: whatever call is made, the tables stay well-formed and a spent key
  stays spent, and a call that succeeds in using a key found it unspent and leaves it spent.
\<close>

locale single_use =
  fixes good :: "db \<Rightarrow> bool" and gone :: "'k \<Rightarrow> db \<Rightarrow> bool" and step :: "'a \<Rightarrow> db \<Rightarrow> http_response \<times> db" and key :: "'a \<Rightarrow> 'k option" and status :: nat
  assumes good_kept: "good d \<Longrightarrow> good (snd (step a d))"
    and gone_kept: "good d \<Longrightarrow> gone k d \<Longrightarrow> gone k (snd (step a d))"
    and used: "good d \<Longrightarrow> key a = Some k \<Longrightarrow> hs_status (fst (step a d)) = status \<Longrightarrow> \<not> gone k d \<and> gone k (snd (step a d))"
begin

lemma gone_not_used:
  assumes "good d" and "gone k d"
  shows "uses status step key k as d = 0"
  using assms
proof (induction as arbitrary: d)
  case (Cons a as)
  have "\<not> (key a = Some k \<and> hs_status (fst (step a d)) = status)" using used [OF Cons.prems(1)] Cons.prems(2) by blast
  then show ?case using Cons.IH [OF good_kept gone_kept] Cons.prems by auto
qed simp

lemma used_once:
  assumes "good d"
  shows "uses status step key k as d \<le> 1"
  using assms
proof (induction as arbitrary: d)
  case (Cons a as)
  show ?case
  proof (cases "key a = Some k \<and> hs_status (fst (step a d)) = status")
    case True
    then have "gone k (snd (step a d))" using used [OF Cons.prems] by blast
    then show ?thesis using gone_not_used [OF good_kept [OF Cons.prems]] True by simp
  next
    case False
    then show ?thesis using Cons.IH [OF good_kept [OF Cons.prems]] by auto
  qed
qed simp

end

text \<open>
  A table of single-use tokens: whatever call is made, the table stays well-formed and a spent token
  stays spent, and a call that succeeds in redeeming a token found it open and leaves it spent.
\<close>

locale one_time_tokens =
  fixes tokens :: "db \<Rightarrow> verification_row list" and step :: "'a \<Rightarrow> db \<Rightarrow> http_response \<times> db" and digest :: "'a \<Rightarrow> byte list option"
  assumes tokens_kept: "tokens_ok (tokens d) \<Longrightarrow> tokens_ok (tokens (snd (step a d)))"
    and spent_kept: "tokens_ok (tokens d) \<Longrightarrow> spent h (tokens d) \<Longrightarrow> spent h (tokens (snd (step a d)))"
    and redeemed: "tokens_ok (tokens d) \<Longrightarrow> digest a = Some h \<Longrightarrow> hs_status (fst (step a d)) = 204 \<Longrightarrow>
      (\<exists>v \<in> set (tokens d). vf_token_hash v = h \<and> open_token v) \<and> spent h (tokens (snd (step a d)))"

sublocale one_time_tokens \<subseteq> once: single_use "\<lambda>d. tokens_ok (tokens d)" "\<lambda>h d. spent h (tokens d)" step digest 204
proof unfold_locales
  fix d a k
  assume "tokens_ok (tokens d)" "digest a = Some k" "hs_status (fst (step a d)) = 204"
  from redeemed [OF this] show "\<not> spent k (tokens d) \<and> spent k (tokens (snd (step a d)))" unfolding spent_def by blast
qed (fact tokens_kept spent_kept)+

datatype recovery_call =
    AskVerification "string option" | VerifyEmail "string option" | AskReset "string option" | ResetPassword "passwordResetInput option"

primrec recovery :: "server \<Rightarrow> recovery_call \<Rightarrow> call \<Rightarrow> handler" where
  "recovery sv (AskVerification body) = createTenantEmailVerificationRequest sv body"
| "recovery sv (VerifyEmail body) = verifyTenantEmail sv body"
| "recovery sv (AskReset body) = createTenantPasswordResetRequest sv body"
| "recovery sv (ResetPassword body) = resetTenantMemberPassword sv body"

definition recovery_step :: "server \<Rightarrow> recovery_call \<times> call \<times> http_request \<Rightarrow> db \<Rightarrow> http_response \<times> db" where
  "recovery_step sv x = recovery sv (fst x) (fst (snd x)) (snd (snd x))"

definition verification_digest :: "server \<Rightarrow> recovery_call \<times> 'b \<Rightarrow> byte list option" where
  "verification_digest sv x = (case fst x of VerifyEmail (Some token) \<Rightarrow> Some (SessionHash_of sv token) | _ \<Rightarrow> None)"

definition reset_digest :: "server \<Rightarrow> recovery_call \<times> 'b \<Rightarrow> byte list option" where
  "reset_digest sv x = (case fst x of ResetPassword (Some input) \<Rightarrow> Some (SessionHash_of sv (pr_Token input)) | _ \<Rightarrow> None)"

text \<open>The two tables after a call: unchanged, with a new token, or with one redeemed.\<close>

definition redeemed_table :: "verification_row list \<Rightarrow> verification_row list \<Rightarrow> bool" where
  "redeemed_table t t' \<longleftrightarrow> (\<exists>now v. t' = consume_token now (vf_uid v) t \<or> t' = settled now v t)"

lemma recovery_tables:
  "(issued (db_email_verifications d) (db_email_verifications (snd (recovery sv a c r d))) \<or>
    redeemed_table (db_email_verifications d) (db_email_verifications (snd (recovery sv a c r d)))) \<and>
   (issued (db_password_resets d) (db_password_resets (snd (recovery sv a c r d))) \<or>
    redeemed_table (db_password_resets d) (db_password_resets (snd (recovery sv a c r d))))"
proof (cases a)
  case (AskVerification body)
  then show ?thesis using ask_verification_effect [of d sv body c r] by (auto dest: quiet_tables(1,2))
next
  case (AskReset body)
  then show ?thesis using ask_reset_effect [of d sv body c r] by (auto dest: quiet_tables(1,2))
next
  case (VerifyEmail body)
  obtain w d' where run: "verifyTenantEmail sv body c r d = (w, d')" by fastforce
  then show ?thesis
  proof (cases rule: verify_email_cases)
    case refused
    then show ?thesis by (auto simp: VerifyEmail run dest: quiet_tables(1,2))
  next
    case (verified token v d1)
    show ?thesis
      using verify_email_tx_effect(1,2) [OF verified(4)] quiet_tables(1,2) [OF verified(2)] by (auto simp: VerifyEmail run redeemed_table_def)
  qed
next
  case (ResetPassword body)
  obtain w d' where run: "resetTenantMemberPassword sv body c r d = (w, d')" by fastforce
  then show ?thesis
  proof (cases rule: reset_password_cases)
    case refused
    then show ?thesis by (auto simp: ResetPassword run dest: quiet_tables(1,2))
  next
    case (recovered input v h d1)
    show ?thesis using reset_password_tx_effect(1,2) [OF recovered(5)] quiet_tables(1,2) [OF recovered(2)] by (auto simp: ResetPassword run redeemed_table_def)
  qed
qed

lemma redeemed_table_ok: "redeemed_table t t' \<Longrightarrow> tokens_ok t \<Longrightarrow> tokens_ok t'"
  and redeemed_table_spent: "redeemed_table t t' \<Longrightarrow> spent h t \<Longrightarrow> spent h t'"
  by (auto simp: redeemed_table_def closed_tables spent_tables)

lemma settled_spent:
  assumes "tokens_ok t" "v \<in> set t"
  shows "spent (vf_token_hash v) (settled now v t)"
proof -
  have "spent (vf_token_hash v) (consume_token now (vf_uid v) t)" by (rule redeemed_spent [OF assms])
  then show ?thesis by (simp add: settled_def sql_update_def closing_map closing_steps del: map_map)
qed

interpretation verification: one_time_tokens db_email_verifications "recovery_step sv" "verification_digest sv" for sv
proof
  fix a :: "recovery_call \<times> call \<times> http_request" and d :: db and h
  assume ok: "tokens_ok (db_email_verifications d)"
  let ?d' = "snd (recovery_step sv a d)"
  have table: "issued (db_email_verifications d) (db_email_verifications ?d') \<or> redeemed_table (db_email_verifications d) (db_email_verifications ?d')"
    using recovery_tables by (simp add: recovery_step_def)
  then show "tokens_ok (db_email_verifications ?d')" using ok issued_tokens(1) redeemed_table_ok by blast
  show "spent h (db_email_verifications ?d')" if "spent h (db_email_verifications d)"
    using that table ok issued_tokens(2) redeemed_table_spent by blast
  assume digest: "verification_digest sv a = Some h" and status: "hs_status (fst (recovery_step sv a d)) = 204"
  obtain token where a: "fst a = VerifyEmail (Some token)" and h: "h = SessionHash_of sv token"
    using digest by (auto simp: verification_digest_def split: recovery_call.splits option.splits)
  have run: "verifyTenantEmail sv (Some token) (fst (snd a)) (snd (snd a)) d = (fst (recovery_step sv a d), ?d')"
    by (simp add: recovery_step_def a)
  then show "(\<exists>v \<in> set (db_email_verifications d). vf_token_hash v = h \<and> open_token v) \<and> spent h (db_email_verifications ?d')"
  proof (cases rule: verify_email_cases)
    case refused
    then show ?thesis using status by simp
  next
    case (verified token' v d1)
    have "v \<in> set (db_email_verifications d)" "vf_token_hash v = h" "open_token v"
      using redeemableD(1-3) [OF verified(3)] quiet_tables(1) [OF verified(2)] verified(1) h by simp_all
    then show ?thesis
      using redeemed_spent [OF ok] verify_email_tx_effect(1) [OF verified(4)] quiet_tables(1) [OF verified(2)] by auto
  qed
qed

interpretation reset: one_time_tokens db_password_resets "recovery_step sv" "reset_digest sv" for sv
proof
  fix a :: "recovery_call \<times> call \<times> http_request" and d :: db and h
  assume ok: "tokens_ok (db_password_resets d)"
  let ?d' = "snd (recovery_step sv a d)"
  have table: "issued (db_password_resets d) (db_password_resets ?d') \<or> redeemed_table (db_password_resets d) (db_password_resets ?d')"
    using recovery_tables by (simp add: recovery_step_def)
  then show "tokens_ok (db_password_resets ?d')" using ok issued_tokens(1) redeemed_table_ok by blast
  show "spent h (db_password_resets ?d')" if "spent h (db_password_resets d)"
    using that table ok issued_tokens(2) redeemed_table_spent by blast
  assume digest: "reset_digest sv a = Some h" and status: "hs_status (fst (recovery_step sv a d)) = 204"
  obtain input where a: "fst a = ResetPassword (Some input)" and h: "h = SessionHash_of sv (pr_Token input)"
    using digest by (auto simp: reset_digest_def split: recovery_call.splits option.splits)
  have run: "resetTenantMemberPassword sv (Some input) (fst (snd a)) (snd (snd a)) d = (fst (recovery_step sv a d), ?d')"
    by (simp add: recovery_step_def a)
  then show "(\<exists>v \<in> set (db_password_resets d). vf_token_hash v = h \<and> open_token v) \<and> spent h (db_password_resets ?d')"
  proof (cases rule: reset_password_cases)
    case refused
    then show ?thesis using status by simp
  next
    case (recovered input' v p d1)
    have v: "v \<in> set (db_password_resets d)" "vf_token_hash v = h" "open_token v"
      using redeemableD(1-3) [OF recovered(3)] quiet_tables(2) [OF recovered(2)] recovered(1) h by simp_all
    have "db_password_resets ?d' = settled (ca_now (fst (snd a))) v (db_password_resets d)"
      using reset_password_tx_effect(1) [OF recovered(5)] quiet_tables(2) [OF recovered(2)] by simp
    then show ?thesis using v settled_spent [OF ok v(1)] by auto
  qed
qed

section \<open>Properties\<close>

primrec after_calls :: "('a \<Rightarrow> db \<Rightarrow> http_response \<times> db) \<Rightarrow> 'a list \<Rightarrow> db \<Rightarrow> db" where
  "after_calls step [] d = d"
| "after_calls step (a # as) d = after_calls step as (snd (step a d))"

lemma recovery_run_ok:
  "tokens_ok (db_email_verifications d) \<Longrightarrow> tokens_ok (db_password_resets d) \<Longrightarrow>
   tokens_ok (db_email_verifications (after_calls (recovery_step sv) as d)) \<and> tokens_ok (db_password_resets (after_calls (recovery_step sv) as d))"
  by (induction as arbitrary: d) (auto intro: verification.tokens_kept reset.tokens_kept)

text \<open>A server, a call and a member with an open reset token, on which the handlers succeed.\<close>

definition demo_reset :: verification_row where
  "demo_reset = \<lparr>vf_uid = ''v'', vf_tenant_uid = ''t'', vf_tenant_member_uid = ''m'', vf_token_hash = SessionHash_of demo_server ''token'',
     vf_created_at = 0, vf_expires_at = 2000 * Second, vf_consumed_at = None, vf_revoked_at = None\<rparr>"

definition recovery_db :: db where
  "recovery_db = empty_db\<lparr>db_members := [demo_member], db_member_sessions := [demo_session], db_password_resets := [demo_reset]\<rparr>"

definition demo_reset_input :: passwordResetInput where
  "demo_reset_input = \<lparr>pr_Token = ''token'', pr_Password = ''correct horse battery''\<rparr>"

lemma demo_allowed:
  assumes "rateLimitPolicyPattern p" "1 \<le> l" "l \<le> 1000000" "Second \<le> w" "w \<le> 7 * 24 * Hour" "db_buckets d = []"
  shows "\<exists>t. takeRateLimit demo_server demo_call r p k l w d = (None, d\<lparr>db_buckets := t\<rparr>)"
proof -
  have "take_args_ok p (SecretHash_of demo_server (p @ [char_of (0 :: nat)] @ k)) l w"
    using assms by (simp add: take_args_ok_def SecretHash_of_def SecretHash_def demo_server_def Api_Base.demo_digest_def)
  then show ?thesis
    using assms(2,6) by (auto simp: takeRateLimit_def Take_ok demo_call_def upsert_bucket_def insert_bucket_def)
qed

lemma demo_password_hashed: "\<exists>h. hash_or_answer demo_server demo_call r ''correct horse battery'' = Inr h"
proof -
  obtain rnd where "ca_rand demo_call ''password salt'' = Some rnd" by (simp add: demo_call_def)
  moreover have "Argon2 demo_server = demo_argon2" by (simp add: demo_server_def)
  ultimately show ?thesis
    using HashPassword_ok [OF demo_argon2_documented, of "''correct horse battery''" rnd] demo_password by (auto simp: hash_or_answer_def)
qed

lemma demo_reset_tx: "\<exists>d'. commit_tx demo_call (reset_password_tx demo_call v h d) = Some d'"
  by (simp add: reset_password_tx_def redeem_reset_def recovery_audit_def stmt_def Let_def demo_call_def del: commit_tx_Some)
    (simp add: commit_tx_def stmt_def)

lemma demo_reset_run:
  "\<exists>w d'. resetTenantMemberPassword demo_server (Some demo_reset_input) demo_call demo_request recovery_db = (w, d') \<and> hs_status w = 204"
proof -
  have pat: "rateLimitPolicyPattern ''tenant_password_reset_consume''"
    by (simp add: rateLimitPolicyPattern_def head_tail_match_def char_class_defs less_eq_char_def)
  obtain t where lim: "takeRateLimit demo_server demo_call demo_request ''tenant_password_reset_consume'' (clientIP demo_server demo_request) 20 (15 * Minute) recovery_db
      = (None, recovery_db\<lparr>db_buckets := t\<rparr>)"
    using demo_allowed [OF pat, of 20 "15 * Minute" recovery_db] by (auto simp: time_defs recovery_db_def empty_db_def)
  obtain h where h: "hash_or_answer demo_server demo_call demo_request ''correct horse battery'' = Inr h" using demo_password_hashed by blast
  have flt: "ca_flt demo_call site = False" for site by (simp add: demo_call_def)
  have row: "redeemable demo_server demo_call ''token'' (recovery_db\<lparr>db_buckets := t\<rparr>) (db_password_resets (recovery_db\<lparr>db_buckets := t\<rparr>)) = Some demo_reset"
    by (simp add: redeemable_def flt Let_def recovery_db_def demo_reset_def open_token_def demo_member_def demo_call_def time_defs)
  have "TrimSpace ''token'' = ''token''" by (rule TrimSpace_visible; simp add: visible_c_def)
  then have "TrimSpace ''token'' \<noteq> []" by simp
  moreover obtain d' where "commit_tx demo_call (reset_password_tx demo_call demo_reset h (recovery_db\<lparr>db_buckets := t\<rparr>)) = Some d'"
    using demo_reset_tx by blast
  ultimately have "resetTenantMemberPassword demo_server (Some demo_reset_input) demo_call demo_request recovery_db = (clear_cookie demo_server (no_content 204), d')"
    unfolding resetTenantMemberPassword_def lim demo_reset_input_def by (simp only: prod.case option.case passwordResetInput.simps h sum.case flt if_False row db.simps)
  then show ?thesis by (simp add: clear_cookie_def no_content_def with_header_def)
qed

text \<open>
  C12 (recovery_tokens_single_use): a token sent by email works once. In every sequence of recovery calls -- requests for tokens and attempts to redeem them, by anybody,
  valid or not, with any failures of the database -- a verification token and a reset token are each redeemed
  successfully at most once, and throughout no member has two open tokens of a kind.
\<close>

theorem recovery_tokens_single_use:
  assumes "tokens_ok (db_email_verifications d)" and "tokens_ok (db_password_resets d)"
  shows "uses 204 (recovery_step sv) (verification_digest sv) h as d \<le> 1 \<and> uses 204 (recovery_step sv) (reset_digest sv) h as d \<le> 1 \<and>
    tokens_ok (db_email_verifications (after_calls (recovery_step sv) as d)) \<and> tokens_ok (db_password_resets (after_calls (recovery_step sv) as d))"
  using verification.once.used_once [OF assms(1)] reset.once.used_once [OF assms(2)] recovery_run_ok [OF assms] by blast

theorem recovery_tokens_single_use_witness:
  "uses 204 (recovery_step demo_server) (reset_digest demo_server) (vf_token_hash demo_reset)
     [(ResetPassword (Some demo_reset_input), demo_call, demo_request), (ResetPassword (Some demo_reset_input), demo_call, demo_request)] recovery_db = 1"
proof -
  let ?a = "(ResetPassword (Some demo_reset_input), demo_call, demo_request)"
  have "tokens_ok (db_email_verifications recovery_db)" "tokens_ok (db_password_resets recovery_db)"
    by (simp_all add: tokens_ok_def recovery_db_def empty_db_def)
  then have "uses 204 (recovery_step demo_server) (reset_digest demo_server) (vf_token_hash demo_reset) [?a, ?a] recovery_db \<le> 1"
    by (rule recovery_tokens_single_use [THEN conjunct2, THEN conjunct1])
  moreover have "reset_digest demo_server ?a = Some (vf_token_hash demo_reset)" by (simp add: reset_digest_def demo_reset_input_def demo_reset_def)
  moreover have "hs_status (fst (recovery_step demo_server ?a recovery_db)) = 204" using demo_reset_run by (auto simp: recovery_step_def)
  ultimately show ?thesis by simp
qed

text \<open>The account after a reset, and what belongs to other members.\<close>

definition recovered_account :: "uid \<Rightarrow> string \<Rightarrow> db \<Rightarrow> bool" where
  "recovered_account m h d \<longleftrightarrow>
     list_all (\<lambda>x. tm_uid x = m \<longrightarrow> tm_password_hash x = h) (db_members d) \<and>
     list_all (\<lambda>s. ms_tenant_member_uid s = m \<longrightarrow> ms_revoked_at s \<noteq> None) (db_member_sessions d) \<and>
     list_all (\<lambda>a. la_tenant_member_uid a = Some m \<longrightarrow> la_consumed_at a \<noteq> None) (db_member_login_attempts d) \<and>
     list_all (\<lambda>k. mw_tenant_member_uid k \<noteq> m) (db_member_credentials d) \<and>
     list_all (\<lambda>k. tk_tenant_member_uid k = m \<longrightarrow> tk_revoked_at k \<noteq> None) (db_access_tokens d) \<and>
     list_all (\<lambda>k. ac_tenant_member_uid k = m \<longrightarrow> ac_consumed_at k \<noteq> None) (db_auth_codes d) \<and>
     list_all (\<lambda>v. vf_tenant_member_uid v = m \<longrightarrow> \<not> open_token v) (db_password_resets d)"

definition others_kept :: "uid \<Rightarrow> db \<Rightarrow> db \<Rightarrow> bool" where
  "others_kept m d d' \<longleftrightarrow>
     filter (\<lambda>x. tm_uid x \<noteq> m) (db_members d') = filter (\<lambda>x. tm_uid x \<noteq> m) (db_members d) \<and>
     filter (\<lambda>s. ms_tenant_member_uid s \<noteq> m) (db_member_sessions d') = filter (\<lambda>s. ms_tenant_member_uid s \<noteq> m) (db_member_sessions d) \<and>
     filter (\<lambda>a. la_tenant_member_uid a \<noteq> Some m) (db_member_login_attempts d') = filter (\<lambda>a. la_tenant_member_uid a \<noteq> Some m) (db_member_login_attempts d) \<and>
     filter (\<lambda>k. mw_tenant_member_uid k \<noteq> m) (db_member_credentials d') = filter (\<lambda>k. mw_tenant_member_uid k \<noteq> m) (db_member_credentials d) \<and>
     filter (\<lambda>k. tk_tenant_member_uid k \<noteq> m) (db_access_tokens d') = filter (\<lambda>k. tk_tenant_member_uid k \<noteq> m) (db_access_tokens d) \<and>
     filter (\<lambda>k. ac_tenant_member_uid k \<noteq> m) (db_auth_codes d') = filter (\<lambda>k. ac_tenant_member_uid k \<noteq> m) (db_auth_codes d)"

lemma filter_other_rows: "(\<And>x. k (f x) = k x) \<Longrightarrow> filter (\<lambda>x. k x \<noteq> m) (sql_update (\<lambda>x. k x = m) f t) = filter (\<lambda>x. k x \<noteq> m) t"
  by (induction t) auto

lemma coalesce_not_None [simp]: "coalesce x y \<noteq> None"
  by (simp add: coalesce_def split: option.splits)

lemma rows_of_updated: "(\<And>x. k (f x) = k x) \<Longrightarrow> (\<And>x. P (f x)) \<Longrightarrow> list_all (\<lambda>x. k x = m \<longrightarrow> P x) (sql_update (\<lambda>x. k x = m) f t)"
  by (auto simp: list_all_iff set_sql_update)

lemma settled_closed: "list_all (\<lambda>x. vf_tenant_member_uid x = vf_tenant_member_uid v \<longrightarrow> \<not> open_token x) (settled now v t)"
  by (auto simp: list_all_iff settled_def consume_token_def set_sql_update open_token_def split: if_splits)

lemma recovered_account_tx:
  assumes "reset_password_tx c v h d = Some d'"
  shows "recovered_account (vf_tenant_member_uid v) h d'" and "others_kept (vf_tenant_member_uid v) d d'"
  unfolding recovered_account_def others_kept_def reset_password_tx_effect [OF assms]
  by (intro conjI settled_closed rows_of_updated; simp add: list_all_iff set_sql_delete)
    (simp add: filter_other_rows sql_delete_def)



lemma request_limits_cong:
  assumes "db_buckets d1 = db_buckets d2"
  shows "fst (request_limits sv c r p q email d1) = fst (request_limits sv c r p q email d2)"
proof -
  obtain x y where one: "takeRateLimit sv c r p (clientIP sv r) 20 Hour d1 = (x, y)" by fastforce
  obtain x' y' where two: "takeRateLimit sv c r p (clientIP sv r) 20 Hour d2 = (x', y')" by fastforce
  have "x' = x" "db_buckets y = db_buckets y'" using takeRateLimit_cong [OF assms, of sv c r p "clientIP sv r" 20 Hour] one two by simp_all
  then show ?thesis using takeRateLimit_cong(1) [of y y'] by (simp add: request_limits_def one two split: option.splits)
qed

lemma ask_answers:
  "fst (createTenantPasswordResetRequest sv body c r d) = (case acceptRecoveryEmail sv body r of Inl w \<Rightarrow> w
     | Inr email \<Rightarrow> given (fst (request_limits sv c r ''tenant_password_reset_ip'' ''tenant_password_reset_identity'' email d)) recovery_accepted)"
  "fst (createTenantEmailVerificationRequest sv body c r d) = (case acceptRecoveryEmail sv body r of Inl w \<Rightarrow> w
     | Inr email \<Rightarrow> given (fst (request_limits sv c r ''tenant_email_verification_ip'' ''tenant_email_verification_identity'' email d)) recovery_accepted)"
  by (auto simp: createTenantPasswordResetRequest_def createTenantEmailVerificationRequest_def given_def split: sum.splits prod.splits option.splits)

text \<open>
  Lemma (recovery_hides_accounts): asking for a recovery email tells nothing about accounts: the answer to a request for a verification or a reset email
  is the same whatever members, tenants and tokens exist -- it depends on the request and the rate limiter only.
\<close>

theorem recovery_hides_accounts:
  assumes "db_buckets d1 = db_buckets d2"
  shows "fst (createTenantPasswordResetRequest sv body c r d1) = fst (createTenantPasswordResetRequest sv body c r d2) \<and>
    fst (createTenantEmailVerificationRequest sv body c r d1) = fst (createTenantEmailVerificationRequest sv body c r d2)"
  unfolding ask_answers by (simp only: request_limits_cong [OF assms])

theorem recovery_hides_accounts_witness:
  "fst (createTenantPasswordResetRequest demo_server (Some ''a@b.c'') demo_call demo_request recovery_db) =
   fst (createTenantPasswordResetRequest demo_server (Some ''a@b.c'') demo_call demo_request empty_db)"
  by (rule recovery_hides_accounts [THEN conjunct1]) (simp add: recovery_db_def empty_db_def)

end
