(* ===== verification/Tenant_Members.thy ===== *)
theory Tenant_Members
  imports Member_Recovery
begin

text \<open>
  The members of a tenant: sign-up and the session of the console (\<^verbatim>\<open>internal/api/server.go\<close>), the management of members, their
  sessions and the invitations that add new ones (\<^verbatim>\<open>internal/api/tenant_members.go\<close>). Deleting a member follows the foreign keys of the schema.
\<close>

section \<open>Members\<close>

definition member_json :: "member_row \<Rightarrow> json" where
  "member_json m = JObj [(''uid'', JStr (tm_uid m)), (''email'', JStr (tm_email m)), (''display_name'', JStr (tm_display_name m)),
     (''role'', JStr (tm_role m)), (''status'', JStr (tm_status m)), (''email_verified'', JBool (tm_email_verified_at m \<noteq> None)),
     (''created_at'', JNum (tm_created_at m))]"

definition own_member :: "uid \<Rightarrow> uid \<Rightarrow> member_row \<Rightarrow> bool" where
  "own_member tenantUID memberUID m \<longleftrightarrow> tm_tenant_uid m = tenantUID \<and> tm_uid m = memberUID"

definition loadTenantMember :: "server \<Rightarrow> call \<Rightarrow> string \<Rightarrow> uid \<Rightarrow> uid \<Rightarrow> db \<Rightarrow> member_row query" where
  "loadTenantMember sv c site tenantUID memberUID d = query_row sv c site [memberUID] (own_member tenantUID memberUID) (db_members d)"

definition listTenantMembers :: "server \<Rightarrow> call \<Rightarrow> handler" where
  "listTenantMembers sv c r d =
     list_page sv c ''list members'' ''could not load Tenant Members'' (\<lambda>m. (tm_created_at m, tm_uid m))
       (\<lambda>m. tm_tenant_uid m = p_TenantUID (mustPrincipal r)) member_json db_members r d"

definition getTenantMember :: "server \<Rightarrow> call \<Rightarrow> handler" where
  "getTenantMember sv c r d =
     (case loadTenantMember sv c ''load member'' (p_TenantUID (mustPrincipal r)) (hq_path r ''member_uid'') d of
        NoRows \<Rightarrow> (fail r 404 ''tenant_member_not_found'' ''Tenant Member was not found'', d)
      | QueryError \<Rightarrow> (fail r 500 ''internal_error'' ''could not load Tenant Member'', d)
      | Row m \<Rightarrow> (writeJSON 200 (member_json m), d))"

definition validMemberRole :: "string \<Rightarrow> bool" where
  "validMemberRole role \<longleftrightarrow> role \<in> set [''owner'', ''admin'', ''developer'', ''support'', ''viewer'']"

definition validInvitationRole :: "string \<Rightarrow> bool" where
  "validInvitationRole role \<longleftrightarrow> role \<in> set [''admin'', ''developer'', ''support'', ''viewer'']"

definition active_owner :: "uid \<Rightarrow> member_row \<Rightarrow> bool" where
  "active_owner tenantUID m \<longleftrightarrow> tm_tenant_uid m = tenantUID \<and> tm_role m = ''owner'' \<and> tm_status m = ''active''"

record updateTenantMemberInput =
  um_Role :: "string option"
  um_Status :: "string option"

definition bad_member_update :: "updateTenantMemberInput \<Rightarrow> string option" where
  "bad_member_update input =
     (if um_Role input = None \<and> um_Status input = None then Some ''at least one field is required''
      else if (case um_Role input of None \<Rightarrow> False | Some role \<Rightarrow> \<not> validMemberRole role) then Some ''role is invalid''
      else if bad_status (um_Status input) then Some ''status must be active or disabled''
      else None)"

definition update_member_tx :: "call \<Rightarrow> principal \<Rightarrow> uid \<Rightarrow> string \<Rightarrow> string \<Rightarrow> db \<Rightarrow> db option" where
  "update_member_tx c p memberUID role status d =
     Option.bind (stmt c ''update member'' (\<lambda>d. Some (d\<lparr>db_members :=
         sql_update (own_member (p_TenantUID p) memberUID) (\<lambda>m. m\<lparr>tm_role := role, tm_status := status\<rparr>) (db_members d)\<rparr>)) d) (\<lambda>d.
     Option.bind (if status = ''disabled'' then stmt c ''revoke sessions'' (\<lambda>d. Some (d\<lparr>db_member_sessions :=
         sql_update (\<lambda>s. ms_tenant_uid s = p_TenantUID p \<and> ms_tenant_member_uid s = memberUID)
           (\<lambda>s. s\<lparr>ms_revoked_at := coalesce (ms_revoked_at s) (ca_now c)\<rparr>) (db_member_sessions d)\<rparr>)) d else Some d)
       (member_audit c p ''tenant_member.updated'' ''tenant_member'' memberUID (JObj [(''role'', JStr role), (''status'', JStr status)])))"

text \<open>All members of the tenant are locked before the target and the other owners are read.\<close>

definition updateTenantMember :: "server \<Rightarrow> updateTenantMemberInput option \<Rightarrow> call \<Rightarrow> handler" where
  "updateTenantMember sv body c r d =
     (case body of
        None \<Rightarrow> (invalid_json r, d)
      | Some input \<Rightarrow>
          (case bad_member_update input of
             Some e \<Rightarrow> (fail r 422 ''validation_failed'' e, d)
           | None \<Rightarrow>
               let p = mustPrincipal r; memberUID = hq_path r ''member_uid''; failed = (fail r 500 ''internal_error'' ''could not update Tenant Member'', d) in
               if ca_flt c ''begin transaction'' \<or> ca_flt c ''lock members'' then failed
               else (case query_row sv c ''load target'' [memberUID] (own_member (p_TenantUID p) memberUID) (db_members d) of
                 NoRows \<Rightarrow> (fail r 404 ''tenant_member_not_found'' ''Tenant Member was not found'', d)
               | QueryError \<Rightarrow> failed
               | Row m \<Rightarrow>
                   let role = given (um_Role input) (tm_role m); status = given (um_Status input) (tm_status m) in
                   if p_Role p = ''admin'' \<and> (tm_role m = ''owner'' \<or> um_Role input = Some ''owner'') then
                     (fail r 403 ''owner_required'' ''only an owner can change owner membership'', d)
                   else if tm_role m = ''owner'' \<and> tm_status m = ''active'' \<and> (role \<noteq> ''owner'' \<or> status \<noteq> ''active'') \<and> ca_flt c ''count owners'' then failed
                   else if tm_role m = ''owner'' \<and> tm_status m = ''active'' \<and> (role \<noteq> ''owner'' \<or> status \<noteq> ''active'') \<and>
                           sql_count (active_owner (p_TenantUID p)) (db_members d) \<le> 1 then
                     (fail r 409 ''last_owner'' ''the final active owner cannot be demoted or disabled'', d)
                   else (case commit_tx c (update_member_tx c p memberUID role status d) of
                     None \<Rightarrow> failed
                   | Some d' \<Rightarrow>
                       (case loadTenantMember sv c ''load updated member'' (p_TenantUID p) memberUID d' of
                          Row m' \<Rightarrow> (writeJSON 200 (member_json m'), d')
                        | _ \<Rightarrow> (fail r 500 ''internal_error'' ''could not load Tenant Member'', d'))))))"

section \<open>Removing a member\<close>

text \<open>\<open>ON DELETE SET NULL\<close> on a column that refers to a member.\<close>

definition unlink :: "uid \<Rightarrow> uid option \<Rightarrow> uid option" where
  "unlink memberUID x = (if x = Some memberUID then None else x)"

definition unlink_invitation :: "uid \<Rightarrow> invitation_row \<Rightarrow> invitation_row" where
  "unlink_invitation memberUID i = i\<lparr>iv_created_by_member_uid := unlink memberUID (iv_created_by_member_uid i),
     iv_accepted_by_member_uid := unlink memberUID (iv_accepted_by_member_uid i),
     iv_revoked_by_member_uid := unlink memberUID (iv_revoked_by_member_uid i)\<rparr>"

text \<open>The \<open>CHECK\<close> of \<open>tenant_invitations\<close>: an accepted invitation names the member who accepted it.\<close>

definition invitation_check :: "invitation_row \<Rightarrow> bool" where
  "invitation_check i \<longleftrightarrow>
     (iv_status i = ''pending'' \<and> iv_accepted_at i = None \<and> iv_revoked_at i = None) \<or>
     (iv_status i = ''accepted'' \<and> iv_accepted_at i \<noteq> None \<and> iv_accepted_by_member_uid i \<noteq> None \<and> iv_revoked_at i = None) \<or>
     (iv_status i = ''revoked'' \<and> iv_revoked_at i \<noteq> None \<and> iv_accepted_at i = None)"

text \<open>The rows a member's deletion reaches by \<open>ON DELETE CASCADE\<close>, directly or through a login attempt or a session.\<close>

definition cascade_member :: "uid \<Rightarrow> db \<Rightarrow> db" where
  "cascade_member m d = d\<lparr>
     db_member_sessions := sql_delete (\<lambda>s. ms_tenant_member_uid s = m) (db_member_sessions d),
     db_auth_requests := sql_delete (\<lambda>x. ar_tenant_member_uid x = Some m) (db_auth_requests d),
     db_auth_codes := sql_delete (\<lambda>k. ac_tenant_member_uid k = m) (db_auth_codes d),
     db_consents := sql_delete (\<lambda>k. co_tenant_member_uid k = m) (db_consents d),
     db_subjects := sql_delete (\<lambda>k. su_tenant_member_uid k = m) (db_subjects d),
     db_access_tokens := sql_delete (\<lambda>k. tk_tenant_member_uid k = m) (db_access_tokens d),
     db_email_verifications := sql_delete (\<lambda>v. vf_tenant_member_uid v = m) (db_email_verifications d),
     db_password_resets := sql_delete (\<lambda>v. vf_tenant_member_uid v = m) (db_password_resets d),
     db_member_login_attempts := sql_delete (\<lambda>a. la_tenant_member_uid a = Some m) (db_member_login_attempts d),
     db_member_credentials := sql_delete (\<lambda>k. mw_tenant_member_uid k = m) (db_member_credentials d),
     db_member_ceremonies := sql_delete (\<lambda>x. mc_tenant_member_uid x = m \<or>
       list_ex (\<lambda>a. la_tenant_member_uid a = Some m \<and> xr_login_attempt_uid x = Some (xr_uid a)) (db_member_login_attempts d) \<or>
       list_ex (\<lambda>s. ms_tenant_member_uid s = m \<and> xr_session_uid x = Some (ms_uid s)) (db_member_sessions d)) (db_member_ceremonies d)\<rparr>"

definition unlink_member :: "uid \<Rightarrow> db \<Rightarrow> db" where
  "unlink_member m d = d\<lparr>
     db_invitations := map (unlink_invitation m) (db_invitations d),
     db_service_accounts := map (\<lambda>a. a\<lparr>sa_created_by_member_uid := unlink m (sa_created_by_member_uid a)\<rparr>) (db_service_accounts d),
     db_service_credentials := map (\<lambda>k. k\<lparr>cr_created_by_member_uid := unlink m (cr_created_by_member_uid k),
       cr_revoked_by_member_uid := unlink m (cr_revoked_by_member_uid k)\<rparr>) (db_service_credentials d),
     db_support_cases := map (\<lambda>k. k\<lparr>sk_assignee_member_uid := unlink m (sk_assignee_member_uid k)\<rparr>) (db_support_cases d)\<rparr>"

text \<open>The statement fails when an invitation it would unlink no longer satisfies its check.\<close>

definition delete_member :: "uid \<Rightarrow> uid \<Rightarrow> db \<Rightarrow> db option" where
  "delete_member tenantUID memberUID d =
     (if list_ex (\<lambda>i. unlink_invitation memberUID i \<noteq> i \<and> \<not> invitation_check (unlink_invitation memberUID i)) (db_invitations d) then None
      else Some ((unlink_member memberUID (cascade_member memberUID d))\<lparr>db_members := sql_delete (own_member tenantUID memberUID) (db_members d)\<rparr>))"

definition remove_member_tx :: "call \<Rightarrow> principal \<Rightarrow> uid \<Rightarrow> db \<Rightarrow> db option" where
  "remove_member_tx c p memberUID d =
     Option.bind (stmt c ''delete member'' (delete_member (p_TenantUID p) memberUID) d)
       (member_audit c p ''tenant_member.removed'' ''tenant_member'' memberUID (JObj []))"

definition removeTenantMember :: "server \<Rightarrow> call \<Rightarrow> handler" where
  "removeTenantMember sv c r d =
     (let p = mustPrincipal r; memberUID = hq_path r ''member_uid''; failed = (fail r 500 ''internal_error'' ''could not remove Tenant Member'', d) in
      if memberUID = p_MemberUID p then (fail r 409 ''self_removal_not_allowed'' ''use a separate membership-leave flow to remove yourself'', d)
      else if ca_flt c ''begin transaction'' \<or> ca_flt c ''lock members'' then failed
      else (case query_row sv c ''load target'' [memberUID] (own_member (p_TenantUID p) memberUID) (db_members d) of
        NoRows \<Rightarrow> (fail r 404 ''tenant_member_not_found'' ''Tenant Member was not found'', d)
      | QueryError \<Rightarrow> failed
      | Row m \<Rightarrow>
          if p_Role p = ''admin'' \<and> tm_role m = ''owner'' then (fail r 403 ''owner_required'' ''only an owner can remove an owner'', d)
          else if tm_role m = ''owner'' \<and> tm_status m = ''active'' \<and>
                  (ca_flt c ''count owners'' \<or> sql_count (active_owner (p_TenantUID p)) (db_members d) \<le> 1) then
            (fail r 409 ''last_owner'' ''the final active owner cannot be removed'', d)
          else (case commit_tx c (remove_member_tx c p memberUID d) of
            None \<Rightarrow> failed
          | Some d' \<Rightarrow> (no_content 204, d'))))"

section \<open>Invitations\<close>

definition invitationTTL :: duration where "invitationTTL = 7 * 24 * Hour"

definition invitation_status :: "time \<Rightarrow> invitation_row \<Rightarrow> string" where
  "invitation_status now i = (if iv_status i = ''pending'' \<and> iv_expires_at i \<le> now then ''expired'' else iv_status i)"

definition invitation_json :: "string \<Rightarrow> invitation_row \<Rightarrow> json" where
  "invitation_json status i = JObj ([(''uid'', JStr (iv_uid i)), (''email'', JStr (iv_email i)), (''role'', JStr (iv_role i)), (''status'', JStr status),
     (''created_at'', JNum (iv_created_at i)), (''expires_at'', JNum (iv_expires_at i))] @
     (case iv_accepted_at i of None \<Rightarrow> [] | Some t \<Rightarrow> [(''accepted_at'', JNum t)]) @
     (case iv_revoked_at i of None \<Rightarrow> [] | Some t \<Rightarrow> [(''revoked_at'', JNum t)]))"

definition listTenantInvitations :: "server \<Rightarrow> call \<Rightarrow> handler" where
  "listTenantInvitations sv c r d =
     list_page sv c ''list invitations'' ''could not load invitations'' (\<lambda>i. (iv_created_at i, iv_uid i))
       (\<lambda>i. iv_tenant_uid i = p_TenantUID (mustPrincipal r)) (\<lambda>i. invitation_json (invitation_status (ca_now c) i) i) db_invitations r d"

record createTenantInvitationInput =
  ti_Email :: string
  ti_Role :: string

definition new_invitation :: "server \<Rightarrow> call \<Rightarrow> principal \<Rightarrow> createTenantInvitationInput \<Rightarrow> string \<Rightarrow> invitation_row" where
  "new_invitation sv c p input token =
     \<lparr>iv_uid = ca_uid c ''invitation'', iv_tenant_uid = p_TenantUID p, iv_email = ti_Email input, iv_email_normalized = ti_Email input,
      iv_role = ti_Role input, iv_status = ''pending'', iv_acceptance_token_hash = SessionHash_of sv token,
      iv_created_by_member_uid = Some (p_MemberUID p), iv_accepted_by_member_uid = None, iv_revoked_by_member_uid = None,
      iv_created_at = ca_now c, iv_expires_at = ca_now c + invitationTTL, iv_accepted_at = None, iv_revoked_at = None\<rparr>"

text \<open>\<open>ON CONFLICT DO NOTHING\<close>: the primary key, the hash, and the partial index on the pending invitations of an email.\<close>

definition invitation_conflict :: "invitation_row \<Rightarrow> db \<Rightarrow> bool" where
  "invitation_conflict i d \<longleftrightarrow> list_ex (\<lambda>x. iv_uid x = iv_uid i \<or> iv_acceptance_token_hash x = iv_acceptance_token_hash i \<or>
     (iv_tenant_uid x = iv_tenant_uid i \<and> iv_email_normalized x = iv_email_normalized i \<and> iv_status x = ''pending'')) (db_invitations d)"

definition invitation_created :: "server \<Rightarrow> invitation_row \<Rightarrow> StoredHTTPResponse" where
  "invitation_created sv i =
     \<lparr>sr_Status = 201,
      sr_Headers = Some [(''Content-Type'', [''application/json'']), (''Location'', [''/v1/tenant/invitations/'' @ iv_uid i])],
      sr_Body = Some (json_text sv (invitation_json ''pending'' i) @ [char_of (10 :: nat)])\<rparr>"

definition invite_tx :: "server \<Rightarrow> call \<Rightarrow> principal \<Rightarrow> invitation_row \<Rightarrow> string \<Rightarrow> db \<Rightarrow> db option" where
  "invite_tx sv c p i token d =
     Option.bind (member_audit c p ''tenant_invitation.created'' ''tenant_invitation'' (iv_uid i) (JObj [(''role'', JStr (iv_role i))])
         (d\<lparr>db_invitations := db_invitations d @ [i]\<rparr>)) (\<lambda>d.
       if ca_flt c ''load tenant'' then None
       else (case sql_row (\<lambda>t. tn_uid t = p_TenantUID p) (db_tenants d) of
               None \<Rightarrow> None
             | Some t \<Rightarrow> send_token sv c (p_TenantUID p) ''tenant_invitation'' (iv_email i)
                 \<lparr>dp_DisplayName = [], dp_TenantName = tn_name t,
                  dp_Link = ConsoleOrigin sv @ ''/accept-invitation/'' @ iv_uid i @ ''#token='' @ token\<rparr> d))"

definition create_invitation_tx :: "server \<Rightarrow> call \<Rightarrow> createTenantInvitationInput \<Rightarrow> IdempotencyRequest \<Rightarrow> uid \<Rightarrow> string \<Rightarrow> handler" where
  "create_invitation_tx sv c input request lease token r d =
     (let p = mustPrincipal r; i = new_invitation sv c p input token; failed = ''could not create invitation'';
          refuse = (\<lambda>code detail. respond_stored sv c r request lease (problemResponse sv r 409 code detail) (Some d) failed d) in
      if ca_flt c ''begin transaction'' \<or> ca_flt c ''member exists'' then (fail r 500 ''internal_error'' failed, d)
      else if list_ex (\<lambda>m. tm_tenant_uid m = p_TenantUID p \<and> tm_email_normalized m = ti_Email input) (db_members d) then
        refuse ''tenant_member_exists'' ''the email already belongs to this Tenant''
      else if ca_flt c ''insert invitation'' \<or> length (iv_acceptance_token_hash i) \<noteq> 32 then (fail r 500 ''internal_error'' failed, d)
      else if invitation_conflict i d then refuse ''invitation_exists'' ''a pending invitation already exists for this email''
      else (case invite_tx sv c p i token d of
        None \<Rightarrow> (fail r 500 ''internal_error'' failed, d)
      | Some d' \<Rightarrow> respond_stored sv c r request lease (invitation_created sv i) (Some d') failed d))"

definition createTenantInvitation :: "server \<Rightarrow> createTenantInvitationInput option \<Rightarrow> call \<Rightarrow> handler" where
  "createTenantInvitation sv body c r d =
     (case body of
        None \<Rightarrow> (invalid_json r, d)
      | Some raw \<Rightarrow>
          let input = raw\<lparr>ti_Email := normalizeEmail sv (ti_Email raw)\<rparr>; key = hq_header r ''Idempotency-Key'' in
          if ti_Email input = [] \<or> CHR ''@'' \<notin> set (ti_Email input) \<or> \<not> validInvitationRole (ti_Role input) then
            (fail r 422 ''validation_failed'' ''a valid email and non-owner role are required'', d)
          else if key = [] then (fail r 400 ''idempotency_key_required'' ''Idempotency-Key is required'', d)
          else let request = create_request sv (mustPrincipal r) ''tenant_invitations.create'' key
                     (JObj [(''email'', JStr (ti_Email input)), (''role'', JStr (ti_Role input))]) in
            (case beginIdempotentRequest sv c r request d of
               (Inl response, d1) \<Rightarrow> (response, d1)
             | (Inr claim, d1) \<Rightarrow>
                 (case RandomToken (ca_rand c ''invitation token'') of
                    None \<Rightarrow> (fail r 500 ''internal_error'' ''could not create invitation'', d1)
                  | Some token \<Rightarrow> create_invitation_tx sv c input request (cl_LeaseUID claim) token r d1)))"

definition revocable :: "time \<Rightarrow> uid \<Rightarrow> uid \<Rightarrow> invitation_row \<Rightarrow> bool" where
  "revocable now tenantUID invitationUID i \<longleftrightarrow>
     iv_tenant_uid i = tenantUID \<and> iv_uid i = invitationUID \<and> iv_status i = ''pending'' \<and> iv_expires_at i > now"

definition revokeTenantInvitation :: "server \<Rightarrow> call \<Rightarrow> handler" where
  "revokeTenantInvitation sv c r d =
     (let p = mustPrincipal r; invitationUID = hq_path r ''invitation_uid''; hit = revocable (ca_now c) (p_TenantUID p) invitationUID in
      if ca_flt c ''revoke invitation'' \<or> \<not> uuid_ok sv invitationUID then (fail r 500 ''internal_error'' ''could not revoke invitation'', d)
      else if sql_count hit (db_invitations d) = 0 then
        (fail r 409 ''invitation_not_pending'' ''invitation is missing, expired, or no longer pending'', d)
      else (no_content 204,
            audit_event c (p_TenantUID p) [] ''tenant_member'' (p_MemberUID p) ''tenant_invitation.revoked'' ''tenant_invitation'' invitationUID (JObj [])
              (d\<lparr>db_invitations := sql_update hit (\<lambda>i. i\<lparr>iv_status := ''revoked'', iv_revoked_at := Some (ca_now c),
                 iv_revoked_by_member_uid := Some (p_MemberUID p)\<rparr>) (db_invitations d)\<rparr>)))"

section \<open>New members and their sessions\<close>

text \<open>A session starts with bootstrap assurance, which the guard of the management API does not accept.\<close>

definition new_member_session :: "server \<Rightarrow> call \<Rightarrow> uid \<Rightarrow> uid \<Rightarrow> string \<Rightarrow> string \<Rightarrow> member_session_row" where
  "new_member_session sv c memberUID tenantUID token assurance =
     \<lparr>ms_uid = ca_uid c ''session'', ms_tenant_member_uid = memberUID, ms_tenant_uid = tenantUID, ms_session_secret_hash = SessionHash_of sv token,
      ms_authentication_assurance = assurance, ms_created_at = ca_now c, ms_expires_at = ca_now c + MemberAbsoluteTTL sv,
      ms_idle_expires_at = ca_now c + MemberIdleTTL sv, ms_last_seen_at = ca_now c, ms_revoked_at = None\<rparr>"

definition insert_member_session :: "call \<Rightarrow> member_session_row \<Rightarrow> db \<Rightarrow> db option" where
  "insert_member_session c s = stmt c ''insert session'' (\<lambda>d.
     if list_ex (\<lambda>x. ms_uid x = ms_uid s \<or> ms_session_secret_hash x = ms_session_secret_hash s) (db_member_sessions d) then None
     else Some (d\<lparr>db_member_sessions := db_member_sessions d @ [s]\<rparr>))"

definition session_json :: "tenant_row \<Rightarrow> member_row \<Rightarrow> string \<Rightarrow> time \<Rightarrow> json" where
  "session_json t m assurance expires = JObj
     [(''tenant'', JObj [(''uid'', JStr (tn_uid t)), (''name'', JStr (tn_name t)), (''slug'', JStr (tn_slug t))]),
      (''member'', member_json m), (''authentication_assurance'', JStr assurance), (''expires_at'', JNum expires)]"

definition new_member :: "call \<Rightarrow> uid \<Rightarrow> string \<Rightarrow> string \<Rightarrow> string \<Rightarrow> string \<Rightarrow> time option \<Rightarrow> member_row" where
  "new_member c tenantUID email displayName role passwordHash verified =
     \<lparr>tm_uid = ca_uid c ''member'', tm_tenant_uid = tenantUID, tm_email = email, tm_email_normalized = email, tm_display_name = displayName,
      tm_role = role, tm_password_hash = passwordHash, tm_status = ''active'', tm_email_verified_at = verified, tm_created_at = ca_now c\<rparr>"

definition member_checks :: "member_row \<Rightarrow> db \<Rightarrow> bool" where
  "member_checks m d \<longleftrightarrow> \<not> list_ex (\<lambda>x. tm_uid x = tm_uid m) (db_members d) \<and> rune_count (tm_display_name m) \<in> {1..100}"

definition email_in_use :: "string \<Rightarrow> db \<Rightarrow> bool" where
  "email_in_use email d \<longleftrightarrow> list_ex (\<lambda>m. tm_email_normalized m = email) (db_members d)"

definition new_member_audit :: "call \<Rightarrow> uid \<Rightarrow> uid \<Rightarrow> string \<Rightarrow> string \<Rightarrow> uid \<Rightarrow> db \<Rightarrow> db option" where
  "new_member_audit c tenantUID memberUID action targetType target = stmt c ''insert audit event'' (\<lambda>d. Some (add_audit
     \<lparr>au_uid = ca_uid c ''audit'', au_tenant_uid = tenantUID, au_project_uid = None, au_actor_type = ''tenant_member'', au_actor_uid = Some memberUID,
      au_action = action, au_target_type = targetType, au_target_uid = target, au_metadata = JObj []\<rparr> d))"

record acceptInvitationInput =
  ai_AcceptanceToken :: string
  ai_Password :: string
  ai_DisplayName :: string

text \<open>The invitation with its tenant, locked.\<close>

definition load_invitation :: "server \<Rightarrow> call \<Rightarrow> uid \<Rightarrow> db \<Rightarrow> (invitation_row \<times> tenant_row) option" where
  "load_invitation sv c invitationUID d =
     (if ca_flt c ''load invitation'' \<or> \<not> uuid_ok sv invitationUID then None
      else (let tenant = (\<lambda>i. sql_row (\<lambda>t. tn_uid t = iv_tenant_uid i) (db_tenants d)) in
        case sql_row (\<lambda>i. iv_uid i = invitationUID \<and> tenant i \<noteq> None) (db_invitations d) of
          None \<Rightarrow> None | Some i \<Rightarrow> map_option (Pair i) (tenant i)))"

definition acceptable :: "server \<Rightarrow> time \<Rightarrow> string \<Rightarrow> invitation_row \<Rightarrow> bool" where
  "acceptable sv now token i \<longleftrightarrow> iv_status i = ''pending'' \<and> iv_expires_at i > now \<and>
     ConstantTimeCompare (iv_acceptance_token_hash i) (SessionHash_of sv token) = 1"

definition accept_tx :: "server \<Rightarrow> call \<Rightarrow> uid \<Rightarrow> member_row \<Rightarrow> string \<Rightarrow> db \<Rightarrow> db option" where
  "accept_tx sv c invitationUID m token d =
     Option.bind (stmt c ''accept invitation'' (\<lambda>d. Some (d\<lparr>db_invitations := sql_update (\<lambda>i. iv_uid i = invitationUID)
         (\<lambda>i. i\<lparr>iv_status := ''accepted'', iv_accepted_at := Some (ca_now c), iv_accepted_by_member_uid := Some (tm_uid m)\<rparr>) (db_invitations d)\<rparr>)) d) (\<lambda>d.
     Option.bind (insert_member_session c (new_member_session sv c (tm_uid m) (tm_tenant_uid m) token ''bootstrap'') d)
       (new_member_audit c (tm_tenant_uid m) (tm_uid m) ''tenant_invitation.accepted'' ''tenant_member'' (tm_uid m)))"

definition accept_invitation :: "server \<Rightarrow> call \<Rightarrow> string \<Rightarrow> string \<Rightarrow> string \<Rightarrow> invitation_row \<Rightarrow> tenant_row \<Rightarrow> handler" where
  "accept_invitation sv c displayName passwordHash token i t r d =
     (let m = new_member c (tn_uid t) (iv_email i) displayName (iv_role i) passwordHash (Some (ca_now c));
          failed = (fail r 500 ''internal_error'' ''could not accept invitation'', d) in
      if ca_flt c ''insert member'' \<or> \<not> member_checks m d then failed
      else if email_in_use (tm_email_normalized m) d then (fail r 409 ''email_exists'' ''an account with this email already exists'', d)
      else (case commit_tx c (accept_tx sv c (hq_path r ''invitation_uid'') m token (d\<lparr>db_members := db_members d @ [m]\<rparr>)) of
        None \<Rightarrow> failed
      | Some d' \<Rightarrow>
          let expires = ca_now c + MemberAbsoluteTTL sv in
          (setMemberCookie sv token expires (writeJSON 201 (session_json t m ''bootstrap'' expires)), d')))"

definition acceptTenantInvitation :: "server \<Rightarrow> acceptInvitationInput option \<Rightarrow> call \<Rightarrow> handler" where
  "acceptTenantInvitation sv body c r d =
     (case takeRateLimit sv c r ''tenant_invitation_accept'' (hq_path r ''invitation_uid'' @ [char_of (0 :: nat)] @ clientIP sv r) 10 (15 * Minute) d of
        (Some w, d1) \<Rightarrow> (w, d1)
      | (None, d1) \<Rightarrow>
          (case body of
             None \<Rightarrow> (invalid_json r, d1)
           | Some input \<Rightarrow>
               let displayName = TrimSpace (ai_DisplayName input) in
               if ai_AcceptanceToken input = [] \<or> displayName = [] then
                 (fail r 422 ''validation_failed'' ''acceptance_token, password, and display_name are required'', d1)
               else (case hash_or_answer sv c r (ai_Password input) of
                 Inl w \<Rightarrow> (w, d1)
               | Inr h \<Rightarrow>
                   (case RandomToken (ca_rand c ''session token'') of
                      None \<Rightarrow> (fail r 500 ''internal_error'' ''could not accept invitation'', d1)
                    | Some token \<Rightarrow>
                        if ca_flt c ''begin transaction'' then (fail r 500 ''internal_error'' ''could not accept invitation'', d1)
                        else (case load_invitation sv c (hq_path r ''invitation_uid'') d1 of
                          None \<Rightarrow> (fail r 401 ''invalid_invitation'' ''invitation is invalid, expired, or already used'', d1)
                        | Some (i, t) \<Rightarrow>
                            if \<not> acceptable sv (ca_now c) (ai_AcceptanceToken input) i then
                              (fail r 401 ''invalid_invitation'' ''invitation is invalid, expired, or already used'', d1)
                            else accept_invitation sv c displayName h token i t r d1)))))"

definition listMemberSessions :: "server \<Rightarrow> call \<Rightarrow> handler" where
  "listMemberSessions sv c r d =
     (let p = mustPrincipal r in
      list_page sv c ''list sessions'' ''could not load sessions'' (\<lambda>s. (ms_created_at s, ms_uid s))
        (\<lambda>s. ms_tenant_member_uid s = p_MemberUID p \<and> ms_tenant_uid s = p_TenantUID p \<and> ms_revoked_at s = None \<and>
             ms_expires_at s > ca_now c \<and> ms_idle_expires_at s > ca_now c)
        (\<lambda>s. JObj [(''uid'', JStr (ms_uid s)), (''current'', JBool (ms_uid s = p_SessionUID p)),
                (''authentication_assurance'', JStr (ms_authentication_assurance s)), (''created_at'', JNum (ms_created_at s)),
                (''last_seen_at'', JNum (ms_last_seen_at s)), (''expires_at'', JNum (ms_expires_at s))]) db_member_sessions r d)"

definition revokeMemberSession :: "server \<Rightarrow> call \<Rightarrow> handler" where
  "revokeMemberSession sv c r d =
     (let p = mustPrincipal r; sessionUID = hq_path r ''session_uid'';
          hit = (\<lambda>s. ms_uid s = sessionUID \<and> ms_tenant_member_uid s = p_MemberUID p \<and> ms_tenant_uid s = p_TenantUID p \<and> ms_revoked_at s = None) in
      if ca_flt c ''revoke session'' \<or> \<not> uuid_ok sv sessionUID then (fail r 500 ''internal_error'' ''could not revoke session'', d)
      else if sql_count hit (db_member_sessions d) = 0 then (fail r 404 ''session_not_found'' ''active session was not found'', d)
      else ((if sessionUID = p_SessionUID p then clear_cookie sv else id) (no_content 204),
            d\<lparr>db_member_sessions := sql_update hit (\<lambda>s. s\<lparr>ms_revoked_at := Some (ca_now c)\<rparr>) (db_member_sessions d)\<rparr>))"

definition logout :: "server \<Rightarrow> call \<Rightarrow> handler" where
  "logout sv c r d =
     (clear_cookie sv (no_content 204),
      if ca_flt c ''logout'' then d
      else d\<lparr>db_member_sessions := sql_update (\<lambda>s. ms_uid s = p_SessionUID (mustPrincipal r)) (\<lambda>s. s\<lparr>ms_revoked_at := Some (ca_now c)\<rparr>) (db_member_sessions d)\<rparr>)"

definition session_handler :: "server \<Rightarrow> call \<Rightarrow> handler" where
  "session_handler sv c r d =
     (let member = (\<lambda>s. sql_row (\<lambda>m. tm_uid m = ms_tenant_member_uid s) (db_members d));
          tenant = (\<lambda>s. sql_row (\<lambda>t. tn_uid t = ms_tenant_uid s) (db_tenants d)) in
      case (if ca_flt c ''load session'' then None
            else sql_row (\<lambda>s. ms_uid s = p_SessionUID (mustPrincipal r) \<and> member s \<noteq> None \<and> tenant s \<noteq> None) (db_member_sessions d)) of
        None \<Rightarrow> (unauthenticated r, d)
      | Some s \<Rightarrow>
          (case (member s, tenant s) of
             (Some m, Some t) \<Rightarrow> (writeJSON 200 (session_json t m (ms_authentication_assurance s) (ms_expires_at s)), d)
           | _ \<Rightarrow> (unauthenticated r, d)))"

section \<open>Sign-up\<close>

definition slug_c :: "char \<Rightarrow> bool" where
  "slug_c ch \<longleftrightarrow> (CHR ''a'' \<le> ch \<and> ch \<le> CHR ''z'') \<or> (CHR ''0'' \<le> ch \<and> ch \<le> CHR ''9'')"

text \<open>\<open>slugInvalid.ReplaceAllString\<close>: every longest run of other bytes becomes one hyphen.\<close>

fun hyphenate :: "bool \<Rightarrow> string \<Rightarrow> string" where
  "hyphenate gap [] = []"
| "hyphenate gap (ch # s) =
     (if slug_c ch then ch # hyphenate False s else if gap then hyphenate True s else CHR ''-'' # hyphenate True s)"

definition trim_hyphens :: "string \<Rightarrow> string" where
  "trim_hyphens s = (let drop = dropWhile (\<lambda>ch. ch = CHR ''-'') in rev (drop (rev (drop s))))"

definition slug_base :: "server \<Rightarrow> string \<Rightarrow> string" where
  "slug_base sv name =
     (let base = trim_hyphens (hyphenate False (ToLower (lower_unicode sv) name)) in take 50 (if base = [] then ''tenant'' else base))"

definition slug_candidate :: "string \<Rightarrow> nat \<Rightarrow> string" where
  "slug_candidate base i = (if i > 0 then base @ ''-'' @ decimal (i + 1) else base)"

text \<open>The loop over the candidates, with the number of candidates left.\<close>

fun free_slug :: "db \<Rightarrow> string \<Rightarrow> nat \<Rightarrow> nat \<Rightarrow> string option" where
  "free_slug d base i 0 = None"
| "free_slug d base i (Suc n) =
     (if list_ex (\<lambda>t. tn_slug t = slug_candidate base i) (db_tenants d) then free_slug d base (Suc i) n else Some (slug_candidate base i))"

definition uniqueSlug :: "server \<Rightarrow> call \<Rightarrow> string \<Rightarrow> db \<Rightarrow> string option" where
  "uniqueSlug sv c name d = (if ca_flt c ''check slug'' then None else free_slug d (slug_base sv name) 0 1000)"

record signupInput =
  si_Email :: string
  si_Password :: string
  si_DisplayName :: string
  si_TenantName :: string

definition insert_tenant :: "call \<Rightarrow> tenant_row \<Rightarrow> db \<Rightarrow> db option" where
  "insert_tenant c t = stmt c ''insert tenant'' (\<lambda>d.
     if list_ex (\<lambda>x. tn_uid x = tn_uid t \<or> tn_slug x = tn_slug t) (db_tenants d) \<or> rune_count (tn_name t) \<notin> {1..100} then None
     else Some (d\<lparr>db_tenants := db_tenants d @ [t]\<rparr>))"

text \<open>The statements of a sign-up; \<open>Inl True\<close> is the violation of the unique email.\<close>

definition signup_tx :: "server \<Rightarrow> call \<Rightarrow> tenant_row \<Rightarrow> member_row \<Rightarrow> string \<Rightarrow> db \<Rightarrow> bool + db" where
  "signup_tx sv c t m token d =
     (case insert_tenant c t d of
        None \<Rightarrow> Inl False
      | Some d1 \<Rightarrow>
          if ca_flt c ''insert member'' \<or> \<not> member_checks m d1 then Inl False
          else if email_in_use (tm_email_normalized m) d1 then Inl True
          else (case Option.bind (insert_member_session c (new_member_session sv c (tm_uid m) (tn_uid t) token ''bootstrap'') (d1\<lparr>db_members := db_members d1 @ [m]\<rparr>)) (\<lambda>d.
                     Option.bind (new_member_audit c (tn_uid t) (tm_uid m) ''tenant.created'' ''tenant'' (tn_uid t) d)
                       (insertTenantEmailVerification sv c (tm_uid m) (tn_uid t) (tm_email m) (tm_display_name m) (tn_name t))) of
                  None \<Rightarrow> Inl False | Some d' \<Rightarrow> Inr d'))"

definition signup :: "server \<Rightarrow> signupInput option \<Rightarrow> call \<Rightarrow> handler" where
  "signup sv body c r d =
     (case body of
        None \<Rightarrow> (invalid_json r, d)
      | Some raw \<Rightarrow>
          let email = normalizeEmail sv (si_Email raw); displayName = TrimSpace (si_DisplayName raw); tenantName = TrimSpace (si_TenantName raw);
              failed = (fail r 500 ''internal_error'' ''could not create account'', d) in
          if email = [] \<or> displayName = [] \<or> tenantName = [] then (fail r 422 ''validation_failed'' ''all fields are required'', d)
          else (case hash_or_answer sv c r (si_Password raw) of
            Inl w \<Rightarrow> (w, d)
          | Inr h \<Rightarrow>
              (case RandomToken (ca_rand c ''session token'') of
                 None \<Rightarrow> failed
               | Some token \<Rightarrow>
                   if ca_flt c ''begin transaction'' then failed
                   else (case uniqueSlug sv c tenantName d of
                     None \<Rightarrow> failed
                   | Some slug \<Rightarrow>
                       let t = \<lparr>tn_uid = ca_uid c ''tenant'', tn_name = tenantName, tn_slug = slug\<rparr>;
                           m = new_member c (ca_uid c ''tenant'') email displayName ''owner'' h None; expires = ca_now c + MemberAbsoluteTTL sv in
                       (case signup_tx sv c t m token d of
                          Inl True \<Rightarrow> (fail r 409 ''email_exists'' ''an account with this email already exists'', d)
                        | Inl False \<Rightarrow> failed
                        | Inr d' \<Rightarrow>
                            if ca_flt c ''commit'' then failed
                            else (setMemberCookie sv token expires (writeJSON 201 (session_json t m ''bootstrap'' expires)), d'))))))"

section \<open>What the calls do to the members\<close>

lemma member_audit_tables [simp]:
  assumes "member_audit c p action kind target metadata d = Some d'"
  shows "db_members d' = db_members d" "db_invitations d' = db_invitations d" "db_member_sessions d' = db_member_sessions d" "db_tenants d' = db_tenants d"
  using assms by (auto simp: member_audit_def stmt_def add_audit_def split: if_splits)

lemma new_member_audit_tables [simp]:
  assumes "new_member_audit c tenantUID memberUID action kind target d = Some d'"
  shows "db_members d' = db_members d" "db_invitations d' = db_invitations d" "db_member_sessions d' = db_member_sessions d" "db_tenants d' = db_tenants d"
  using assms by (auto simp: new_member_audit_def stmt_def add_audit_def split: if_splits)

lemma quiet_member_tables:
  assumes "quiet d d'"
  shows "db_members d' = db_members d" "db_invitations d' = db_invitations d" "db_member_sessions d' = db_member_sessions d" "db_tenants d' = db_tenants d"
  using assms by (cases d, cases d'; simp add: quiet_def)+

lemma query_row_memberD: "query_row sv c site uids p t = Row x \<Longrightarrow> x \<in> set t \<and> p x"
  by (auto dest!: query_row_RowD sql_row_SomeD)

lemma update_member_cases:
  assumes "updateTenantMember sv body c r d = (w, d')"
  obtains (same) "d' = d"
  | (updated) m input role status where "body = Some input" "m \<in> set (db_members d)" "own_member (p_TenantUID (mustPrincipal r)) (hq_path r ''member_uid'') m"
      "role = given (um_Role input) (tm_role m)" "status = given (um_Status input) (tm_status m)"
      "\<not> (p_Role (mustPrincipal r) = ''admin'' \<and> (tm_role m = ''owner'' \<or> um_Role input = Some ''owner''))"
      "\<not> (tm_role m = ''owner'' \<and> tm_status m = ''active'' \<and> (role \<noteq> ''owner'' \<or> status \<noteq> ''active'') \<and>
          sql_count (active_owner (p_TenantUID (mustPrincipal r))) (db_members d) \<le> 1)"
      "update_member_tx c (mustPrincipal r) (hq_path r ''member_uid'') role status d = Some d'"
proof -
  have "d' = d \<or> (\<exists>m input. body = Some input \<and> m \<in> set (db_members d) \<and> own_member (p_TenantUID (mustPrincipal r)) (hq_path r ''member_uid'') m \<and>
      \<not> (p_Role (mustPrincipal r) = ''admin'' \<and> (tm_role m = ''owner'' \<or> um_Role input = Some ''owner'')) \<and>
      \<not> (tm_role m = ''owner'' \<and> tm_status m = ''active'' \<and> (given (um_Role input) (tm_role m) \<noteq> ''owner'' \<or> given (um_Status input) (tm_status m) \<noteq> ''active'') \<and>
          sql_count (active_owner (p_TenantUID (mustPrincipal r))) (db_members d) \<le> 1) \<and>
      update_member_tx c (mustPrincipal r) (hq_path r ''member_uid'') (given (um_Role input) (tm_role m)) (given (um_Status input) (tm_status m)) d = Some d')"
    using assms unfolding updateTenantMember_def Let_def
    by (auto split: option.splits if_split_asm query.splits dest!: query_row_memberD)
  then show thesis using same updated by blast
qed

lemma update_member_tx_members:
  assumes "update_member_tx c p u role status d = Some d'"
  shows "db_members d' = sql_update (own_member (p_TenantUID p) u) (\<lambda>m. m\<lparr>tm_role := role, tm_status := status\<rparr>) (db_members d)"
  using assms by (auto simp: update_member_tx_def stmt_def bind_eq_Some_conv split: if_splits)

lemma remove_member_cases:
  assumes "removeTenantMember sv c r d = (w, d')"
  obtains (same) "d' = d" "hs_status w \<noteq> 204"
  | (removed) m where "m \<in> set (db_members d)" "own_member (p_TenantUID (mustPrincipal r)) (hq_path r ''member_uid'') m"
      "\<not> (p_Role (mustPrincipal r) = ''admin'' \<and> tm_role m = ''owner'')"
      "\<not> (tm_role m = ''owner'' \<and> tm_status m = ''active'' \<and> sql_count (active_owner (p_TenantUID (mustPrincipal r))) (db_members d) \<le> 1)"
      "remove_member_tx c (mustPrincipal r) (hq_path r ''member_uid'') d = Some d'"
proof -
  have "d' = d \<and> hs_status w \<noteq> 204 \<or> (\<exists>m. m \<in> set (db_members d) \<and> own_member (p_TenantUID (mustPrincipal r)) (hq_path r ''member_uid'') m \<and>
      \<not> (p_Role (mustPrincipal r) = ''admin'' \<and> tm_role m = ''owner'') \<and>
      \<not> (tm_role m = ''owner'' \<and> tm_status m = ''active'' \<and> sql_count (active_owner (p_TenantUID (mustPrincipal r))) (db_members d) \<le> 1) \<and>
      remove_member_tx c (mustPrincipal r) (hq_path r ''member_uid'') d = Some d')"
    using assms unfolding removeTenantMember_def Let_def
    by (auto simp: fail_def writeJSON_def split: option.splits if_split_asm query.splits dest!: query_row_memberD)
  then show thesis using same removed by blast
qed

lemma remove_member_tx_effect:
  assumes "remove_member_tx c p u d = Some d'"
  shows "db_members d' = sql_delete (own_member (p_TenantUID p) u) (db_members d)"
    and "\<not> list_ex (\<lambda>i. unlink_invitation u i \<noteq> i \<and> \<not> invitation_check (unlink_invitation u i)) (db_invitations d)"
  using assms by (auto simp: remove_member_tx_def delete_member_def stmt_def bind_eq_Some_conv split: if_splits)

lemma idempotent_tables:
  "beginIdempotentRequest sv c r request d = (x, d1) \<Longrightarrow> \<exists>t. d1 = d\<lparr>db_idempotency := t\<rparr>"
  by (auto simp: beginIdempotentRequest_def split: prod.splits sum.splits)

lemma finish_tx_tables: "finish_tx sv c request lease response d = Some d' \<Longrightarrow> \<exists>t. d' = d\<lparr>db_idempotency := t\<rparr>"
  by (auto simp: finish_tx_def split: prod.splits sum.splits if_splits)

lemma respond_stored_tables:
  assumes "respond_stored sv c r request lease response (Some d1) message d = (w, d')"
  shows "d' = d \<or> (\<exists>t. d' = d1\<lparr>db_idempotency := t\<rparr>)"
  using assms by (auto simp: respond_stored_def split: option.splits dest!: finish_tx_tables)

lemma invite_tx_tables:
  assumes "invite_tx sv c p i token d = Some d'"
  shows "db_members d' = db_members d" "db_invitations d' = db_invitations d @ [i]" "db_member_sessions d' = db_member_sessions d" "db_tenants d' = db_tenants d"
  using assms by (auto simp: invite_tx_def bind_eq_Some_conv quiet_member_tables split: if_splits option.splits dest!: send_token_quiet)

lemma invite_tx_cases:
  assumes "create_invitation_tx sv c input request lease token r d = (w, d')"
  obtains (stored) t where "d' = d\<lparr>db_idempotency := t\<rparr>"
  | (invited) i e t where "\<not> invitation_conflict i d" "iv_role i = ti_Role input" "iv_tenant_uid i = p_TenantUID (mustPrincipal r)" "iv_email_normalized i = ti_Email input"
      "invite_tx sv c (mustPrincipal r) i token d = Some e" "d' = e\<lparr>db_idempotency := t\<rparr>"
proof -
  let ?i = "new_invitation sv c (mustPrincipal r) input token"
  have "d' = d \<or> (\<exists>t. d' = d\<lparr>db_idempotency := t\<rparr>) \<or>
      (\<not> invitation_conflict ?i d \<and> (\<exists>e t. invite_tx sv c (mustPrincipal r) ?i token d = Some e \<and> d' = e\<lparr>db_idempotency := t\<rparr>))"
    using assms unfolding create_invitation_tx_def Let_def by (auto split: if_split_asm option.splits dest!: respond_stored_tables)
  moreover have "d = d\<lparr>db_idempotency := db_idempotency d\<rparr>" by simp
  moreover have "iv_role ?i = ti_Role input" "iv_tenant_uid ?i = p_TenantUID (mustPrincipal r)" "iv_email_normalized ?i = ti_Email input" by (simp_all add: new_invitation_def)
  ultimately show thesis using stored invited by metis
qed

lemma invite_cases:
  assumes "createTenantInvitation sv body c r d = (w, d')"
  obtains (stored) t where "d' = d\<lparr>db_idempotency := t\<rparr>"
  | (invited) i raw token t e u where "\<not> invitation_conflict i d" "validInvitationRole (iv_role i)" "body = Some raw" "iv_tenant_uid i = p_TenantUID (mustPrincipal r)"
      "iv_email_normalized i = normalizeEmail sv (ti_Email raw)" "invite_tx sv c (mustPrincipal r) i token (d\<lparr>db_idempotency := t\<rparr>) = Some e" "d' = e\<lparr>db_idempotency := u\<rparr>"
proof -
  have "d' = d \<or> (\<exists>raw request x d1. body = Some raw \<and> validInvitationRole (ti_Role raw) \<and> beginIdempotentRequest sv c r request d = (x, d1) \<and>
      (d' = d1 \<or> (\<exists>lease token. create_invitation_tx sv c (raw\<lparr>ti_Email := normalizeEmail sv (ti_Email raw)\<rparr>) request lease token r d1 = (w, d'))))"
    using assms by (auto simp: createTenantInvitation_def Let_def split: option.splits if_split_asm prod.splits sum.splits)
  then consider "d' = d" | request x d1 where "beginIdempotentRequest sv c r request d = (x, d1)" "d' = d1"
    | raw request x d1 lease token where "body = Some raw" "validInvitationRole (ti_Role raw)" "beginIdempotentRequest sv c r request d = (x, d1)"
        "create_invitation_tx sv c (raw\<lparr>ti_Email := normalizeEmail sv (ti_Email raw)\<rparr>) request lease token r d1 = (w, d')"
    by blast
  then show thesis
  proof cases
    case 1
    then show thesis using stored [of "db_idempotency d"] by simp
  next
    case 2
    then show thesis using idempotent_tables stored by blast
  next
    case 3
    obtain t where d1: "d1 = d\<lparr>db_idempotency := t\<rparr>" using idempotent_tables [OF 3(3)] by blast
    from 3(4) show thesis
    proof (cases rule: invite_tx_cases)
      case (stored u)
      then show thesis using d1 that(1) by simp
    next
      case (invited i e u)
      moreover have "invitation_conflict i d1 = invitation_conflict i d" by (simp add: d1 invitation_conflict_def)
      ultimately show thesis using d1 3(1,2) that(2) by simp
    qed
  qed
qed

lemma invite_effect:
  assumes "createTenantInvitation sv body c r d = (w, d')"
  shows "db_members d' = db_members d" and "db_tenants d' = db_tenants d"
    and "db_invitations d' = db_invitations d \<or> (\<exists>i. db_invitations d' = db_invitations d @ [i] \<and> validInvitationRole (iv_role i) \<and> \<not> invitation_conflict i d)"
  using assms by (cases rule: invite_cases; auto simp: invite_tx_tables)+

lemma revoke_invitation_effect:
  assumes "revokeTenantInvitation sv c r d = (w, d')"
  shows "db_members d' = db_members d" "db_tenants d' = db_tenants d" "map iv_role (db_invitations d') = map iv_role (db_invitations d)"
  using assms by (auto simp: revokeTenantInvitation_def Let_def audit_event_def add_audit_def split: if_splits)

lemma accept_tx_tables:
  assumes "accept_tx sv c u m token d = Some d'"
  shows "db_members d' = db_members d" "db_tenants d' = db_tenants d"
    "db_invitations d' = sql_update (\<lambda>i. iv_uid i = u)
      (\<lambda>i. i\<lparr>iv_status := ''accepted'', iv_accepted_at := Some (ca_now c), iv_accepted_by_member_uid := Some (tm_uid m)\<rparr>) (db_invitations d)"
    "db_member_sessions d' = db_member_sessions d @ [new_member_session sv c (tm_uid m) (tm_tenant_uid m) token ''bootstrap'']"
  using assms by (auto simp: accept_tx_def insert_member_session_def stmt_def bind_eq_Some_conv split: if_splits)

text \<open>What an accepted invitation was and what it makes of it.\<close>

lemma accept_cases:
  assumes "acceptTenantInvitation sv body c r d = (w, d')"
  obtains (refused) "quiet d d'" "hs_status w \<noteq> 201"
  | (joined) input i t h m token d1 where "body = Some input" "quiet d d1" "load_invitation sv c (hq_path r ''invitation_uid'') d1 = Some (i, t)"
      "acceptable sv (ca_now c) (ai_AcceptanceToken input) i" "m = new_member c (tn_uid t) (iv_email i) (TrimSpace (ai_DisplayName input)) (iv_role i) h (Some (ca_now c))"
      "HashPassword (Argon2 sv) (ca_rand c ''password salt'') (ai_Password input) = Inr h" "RandomToken (ca_rand c ''session token'') = Some token"
      "member_checks m d1" "\<not> email_in_use (iv_email i) d1"
      "accept_tx sv c (hq_path r ''invitation_uid'') m token (d1\<lparr>db_members := db_members d1 @ [m]\<rparr>) = Some d'"
      "w = setMemberCookie sv token (ca_now c + MemberAbsoluteTTL sv) (writeJSON 201 (session_json t m ''bootstrap'' (ca_now c + MemberAbsoluteTTL sv)))"
proof -
  obtain x d1 where lim: "takeRateLimit sv c r ''tenant_invitation_accept'' (hq_path r ''invitation_uid'' @ [char_of (0 :: nat)] @ clientIP sv r) 10 (15 * Minute) d = (x, d1)"
    by fastforce
  note q = takeRateLimit_quiet [OF lim]
  have bad: "hs_status v \<noteq> 201" if "hash_or_answer sv c r p = Inl v" for p v
    using that by (auto simp: hash_or_answer_def aborted_def no_content_def fail_def writeJSON_def split: sum.splits password_error.splits)
  have hash: "HashPassword (Argon2 sv) (ca_rand c ''password salt'') p = Inr h" if "hash_or_answer sv c r p = Inr h" for p h
    using that by (auto simp: hash_or_answer_def split: sum.splits password_error.splits)
  show thesis
  proof (cases x)
    case (Some y)
    have "hs_status y \<noteq> 201"
      using lim Some by (auto simp: takeRateLimit_def with_header_def fail_def writeJSON_def split: prod.splits sum.splits if_splits)
    moreover have "d' = d1" "w = y" using assms unfolding acceptTenantInvitation_def lim Some by simp_all
    ultimately show thesis using q refused by simp
  next
    case None
    have "quiet d d' \<and> hs_status w \<noteq> 201 \<or> (\<exists>input i t h token. body = Some input \<and> load_invitation sv c (hq_path r ''invitation_uid'') d1 = Some (i, t) \<and>
        acceptable sv (ca_now c) (ai_AcceptanceToken input) i \<and> hash_or_answer sv c r (ai_Password input) = Inr h \<and>
        RandomToken (ca_rand c ''session token'') = Some token \<and> accept_invitation sv c (TrimSpace (ai_DisplayName input)) h token i t r d1 = (w, d'))"
      using assms q bad unfolding acceptTenantInvitation_def lim None prod.case option.case Let_def
      by (auto simp: invalid_json_def fail_def writeJSON_def split: option.splits if_split_asm sum.splits)
    then consider "quiet d d'" "hs_status w \<noteq> 201" | input i t h token where "body = Some input" "load_invitation sv c (hq_path r ''invitation_uid'') d1 = Some (i, t)"
        "acceptable sv (ca_now c) (ai_AcceptanceToken input) i" "hash_or_answer sv c r (ai_Password input) = Inr h"
        "RandomToken (ca_rand c ''session token'') = Some token" "accept_invitation sv c (TrimSpace (ai_DisplayName input)) h token i t r d1 = (w, d')"
      by blast
    then show thesis
    proof cases
      case 1
      then show thesis by (rule refused)
    next
      case 2
      let ?m = "new_member c (tn_uid t) (iv_email i) (TrimSpace (ai_DisplayName input)) (iv_role i) h (Some (ca_now c))"
      have email: "tm_email_normalized ?m = iv_email i" by (simp add: new_member_def)
      have "quiet d d' \<and> hs_status w \<noteq> 201 \<or> (member_checks ?m d1 \<and> \<not> email_in_use (iv_email i) d1 \<and>
          accept_tx sv c (hq_path r ''invitation_uid'') ?m token (d1\<lparr>db_members := db_members d1 @ [?m]\<rparr>) = Some d' \<and>
          w = setMemberCookie sv token (ca_now c + MemberAbsoluteTTL sv) (writeJSON 201 (session_json t ?m ''bootstrap'' (ca_now c + MemberAbsoluteTTL sv))))"
        using 2(6) q unfolding accept_invitation_def Let_def email
        by (auto simp: fail_def writeJSON_def split: option.splits if_split_asm)
      then show thesis using refused joined [OF 2(1) q 2(2,3) refl hash [OF 2(4)] 2(5)] by blast
    qed
  qed
qed

lemma signup_cases:
  assumes "signup sv body c r d = (w, d')"
  obtains (refused) "d' = d" "hs_status w \<noteq> 201"
  | (created) raw h t m token where "body = Some raw" "uniqueSlug sv c (TrimSpace (si_TenantName raw)) d = Some (tn_slug t)" "tn_uid t = ca_uid c ''tenant''"
      "m = new_member c (tn_uid t) (normalizeEmail sv (si_Email raw)) (TrimSpace (si_DisplayName raw)) ''owner'' h None" "signup_tx sv c t m token d = Inr d'"
proof -
  have bad: "hs_status v \<noteq> 201" if "hash_or_answer sv c r p = Inl v" for p v
    using that by (auto simp: hash_or_answer_def aborted_def no_content_def fail_def writeJSON_def split: sum.splits password_error.splits)
  have "d' = d \<and> hs_status w \<noteq> 201 \<or> (\<exists>raw h slug token. body = Some raw \<and> uniqueSlug sv c (TrimSpace (si_TenantName raw)) d = Some slug \<and>
      signup_tx sv c \<lparr>tn_uid = ca_uid c ''tenant'', tn_name = TrimSpace (si_TenantName raw), tn_slug = slug\<rparr>
        (new_member c (ca_uid c ''tenant'') (normalizeEmail sv (si_Email raw)) (TrimSpace (si_DisplayName raw)) ''owner'' h None) token d = Inr d')"
    using assms bad unfolding signup_def Let_def
    by (auto simp: invalid_json_def fail_def writeJSON_def split: option.splits if_split_asm sum.splits bool.splits)
  then show thesis using refused created by (metis tenant_row.select_convs(1,3))
qed

lemma insert_verification_tables:
  assumes "insertTenantEmailVerification sv c m u email dn tn d = Some d'"
  shows "db_members d' = db_members d" "db_invitations d' = db_invitations d" "db_member_sessions d' = db_member_sessions d" "db_tenants d' = db_tenants d"
proof -
  obtain t where "quiet (d\<lparr>db_email_verifications := t\<rparr>) d'" using insert_verification_effect [OF assms] by blast
  from quiet_member_tables [OF this] show "db_members d' = db_members d" "db_invitations d' = db_invitations d"
    "db_member_sessions d' = db_member_sessions d" "db_tenants d' = db_tenants d" by simp_all
qed

lemma signup_tx_tables:
  assumes "signup_tx sv c t m token d = Inr d'"
  shows "db_members d' = db_members d @ [m]" "db_tenants d' = db_tenants d @ [t]" "db_invitations d' = db_invitations d" "member_checks m d"
    "\<not> list_ex (\<lambda>x. tn_uid x = tn_uid t \<or> tn_slug x = tn_slug t) (db_tenants d)"
    "db_member_sessions d' = db_member_sessions d @ [new_member_session sv c (tm_uid m) (tn_uid t) token ''bootstrap'']"
  using assms
  by (auto simp: signup_tx_def insert_tenant_def insert_member_session_def member_checks_def stmt_def bind_eq_Some_conv insert_verification_tables
      split: option.splits if_split_asm)

text \<open>Recovery changes the password and the verification of a member, never the role, the status or the tenant.\<close>

definition member_key :: "member_row \<Rightarrow> uid \<times> uid \<times> string \<times> string" where
  "member_key m = (tm_uid m, tm_tenant_uid m, tm_role m, tm_status m)"

lemma map_key_update: "(\<And>x. k (f x) = k x) \<Longrightarrow> map k (sql_update p f t) = map k t"
  by (simp add: sql_update_def)

lemma recovery_members:
  "map member_key (db_members (snd (recovery sv a c r d))) = map member_key (db_members d) \<and>
   db_invitations (snd (recovery sv a c r d)) = db_invitations d \<and> db_tenants (snd (recovery sv a c r d)) = db_tenants d"
proof (cases a)
  case (AskVerification body)
  then show ?thesis using ask_verification_effect [of d sv body c r] by (auto simp: quiet_member_tables)
next
  case (AskReset body)
  then show ?thesis using ask_reset_effect [of d sv body c r] by (auto simp: quiet_member_tables)
next
  case (VerifyEmail body)
  obtain w d' where run: "verifyTenantEmail sv body c r d = (w, d')" by fastforce
  then show ?thesis
  proof (cases rule: verify_email_cases)
    case refused
    then show ?thesis by (simp add: VerifyEmail run quiet_member_tables)
  next
    case (verified token v d1)
    have "db_invitations d' = db_invitations d1" "db_tenants d' = db_tenants d1"
      using verified(4) by (auto simp: verify_email_tx_def recovery_audit_def add_audit_def stmt_def bind_eq_Some_conv split: if_splits)
    then show ?thesis
      using quiet_member_tables [OF verified(2)] verify_email_tx_effect(3) [OF verified(4)] by (simp add: VerifyEmail run member_key_def map_key_update)
  qed
next
  case (ResetPassword body)
  obtain w d' where run: "resetTenantMemberPassword sv body c r d = (w, d')" by fastforce
  then show ?thesis
  proof (cases rule: reset_password_cases)
    case refused
    then show ?thesis by (simp add: ResetPassword run quiet_member_tables)
  next
    case (recovered input v h d1)
    have "db_invitations d' = db_invitations d1" "db_tenants d' = db_tenants d1"
      using recovered(5) by (simp_all add: reset_password_tx_def redeem_reset_def recovery_audit_def add_audit_def stmt_def bind_eq_Some_conv Let_def
          close_codes_def end_grants_def drop_credentials_def close_attempts_def end_member_sessions_def set_password_def split: if_split_asm) auto
    then show ?thesis
      using quiet_member_tables [OF recovered(2)] reset_password_tx_effect(3) [OF recovered(5)] by (simp add: ResetPassword run member_key_def map_key_update)
  qed
qed

section \<open>Every tenant keeps an owner\<close>

datatype member_call =
    UpdateMember "updateTenantMemberInput option" | RemoveMember | Invite "createTenantInvitationInput option" | RevokeInvitation
  | AcceptInvitation "acceptInvitationInput option" | SignUp "signupInput option" | Recover recovery_call

primrec member_operation :: "server \<Rightarrow> member_call \<Rightarrow> call \<Rightarrow> handler" where
  "member_operation sv (UpdateMember body) = updateTenantMember sv body"
| "member_operation sv RemoveMember = removeTenantMember sv"
| "member_operation sv (Invite body) = createTenantInvitation sv body"
| "member_operation sv RevokeInvitation = revokeTenantInvitation sv"
| "member_operation sv (AcceptInvitation body) = acceptTenantInvitation sv body"
| "member_operation sv (SignUp body) = signup sv body"
| "member_operation sv (Recover a) = recovery sv a"

definition member_step :: "server \<Rightarrow> member_call \<times> call \<times> http_request \<Rightarrow> db \<Rightarrow> http_response \<times> db" where
  "member_step sv x = member_operation sv (fst x) (fst (snd x)) (snd (snd x))"

text \<open>A tenant with an active owner, given the primary key.\<close>

definition owned :: "uid \<Rightarrow> member_row list \<Rightarrow> bool" where
  "owned T t \<longleftrightarrow> distinct (map tm_uid t) \<and> list_ex (active_owner T) t"

lemma another_owner:
  assumes "distinct (map tm_uid t)" "1 < sql_count (active_owner T) t"
  shows "\<exists>x \<in> set t. active_owner T x \<and> tm_uid x \<noteq> u"
  using assms
proof (induction t)
  case (Cons y t)
  show ?case
  proof (cases "active_owner T y \<and> tm_uid y = u")
    case True
    then obtain x where x: "x \<in> set t" "active_owner T x" using Cons.prems(2) by (cases "sql_count (active_owner T) t = 0") auto
    have "tm_uid y \<notin> tm_uid ` set t" using Cons.prems(1) by simp
    then have "tm_uid x \<noteq> u" using x(1) True by blast
    with x show ?thesis by auto
  next
    case False
    then show ?thesis using Cons.IH Cons.prems by (cases "active_owner T y") auto
  qed
qed simp

lemma keys_owned: "map member_key t' = map member_key t \<Longrightarrow> owned T t \<Longrightarrow> owned T t'"
proof -
  assume keys: "map member_key t' = map member_key t" and own: "owned T t"
  have uid: "map tm_uid s = map fst (map member_key s)" and ex: "list_ex (active_owner T) s = list_ex (\<lambda>k. fst (snd k) = T \<and> snd (snd k) = (''owner'', ''active'')) (map member_key s)" for s
    by (simp_all add: member_key_def comp_def list_ex_iff active_owner_def)
  show "owned T t'" using own unfolding owned_def uid ex keys .
qed

lemma uid_row:
  assumes "distinct (map tm_uid t)" "x \<in> set t" "y \<in> set t" "tm_uid x = tm_uid y"
  shows "x = y"
  using assms by (auto simp: distinct_map inj_on_def)

lemma written_owned:
  assumes "owned T t" "m \<in> set t" "own_member T' u m"
    and last: "\<not> (tm_role m = ''owner'' \<and> tm_status m = ''active'' \<and> (role \<noteq> ''owner'' \<or> status \<noteq> ''active'') \<and> sql_count (active_owner T') t \<le> 1)"
  shows "owned T (sql_update (own_member T' u) (\<lambda>m. m\<lparr>tm_role := role, tm_status := status\<rparr>) t)"
proof -
  obtain x where x: "x \<in> set t" "active_owner T x" using assms(1) by (auto simp: owned_def list_ex_iff)
  have uids: "distinct (map tm_uid t)" using assms(1) by (simp add: owned_def)
  have "\<exists>y \<in> set t. active_owner T (if own_member T' u y then y\<lparr>tm_role := role, tm_status := status\<rparr> else y)"
  proof (cases "own_member T' u x \<and> (role \<noteq> ''owner'' \<or> status \<noteq> ''active'')")
    case True
    then have "x = m" using uid_row [OF uids x(1) assms(2)] assms(3) by (auto simp: own_member_def)
    then have "T' = T" "1 < sql_count (active_owner T) t" using last x(2) True assms(3) by (auto simp: active_owner_def own_member_def)
    then obtain y where "y \<in> set t" "active_owner T y" "tm_uid y \<noteq> u" using another_owner [OF uids] by blast
    then show ?thesis by (auto simp: own_member_def)
  next
    case False
    then show ?thesis using x by (auto simp: active_owner_def)
  qed
  then show ?thesis using uids by (auto simp: owned_def list_ex_iff set_sql_update map_key_update split: if_splits)
qed

lemma dropped_owned:
  assumes "owned T t" "m \<in> set t" "own_member T' u m"
    and last: "\<not> (tm_role m = ''owner'' \<and> tm_status m = ''active'' \<and> sql_count (active_owner T') t \<le> 1)"
  shows "owned T (sql_delete (own_member T' u) t)"
proof -
  obtain x where x: "x \<in> set t" "active_owner T x" using assms(1) by (auto simp: owned_def list_ex_iff)
  have uids: "distinct (map tm_uid t)" using assms(1) by (simp add: owned_def)
  have "\<exists>y \<in> set t. active_owner T y \<and> \<not> own_member T' u y"
  proof (cases "own_member T' u x")
    case True
    then have "x = m" using uid_row [OF uids x(1) assms(2)] assms(3) by (auto simp: own_member_def)
    then have "T' = T" "1 < sql_count (active_owner T) t" using last x(2) assms(3) by (auto simp: active_owner_def own_member_def)
    then show ?thesis using another_owner [OF uids, of T u] by (auto simp: own_member_def)
  qed (use x in blast)
  then show ?thesis using uids by (auto simp: owned_def list_ex_iff set_sql_delete distinct_map_sql_delete)
qed


lemma added_owned: "owned T t \<Longrightarrow> \<not> list_ex (\<lambda>x. tm_uid x = tm_uid m) t \<Longrightarrow> owned T (t @ [m])"
  by (auto simp: owned_def list_ex_iff)

lemma update_owned:
  assumes run: "updateTenantMember sv body c r d = (w, d')" and own: "owned T (db_members d)"
  shows "owned T (db_members d')"
  using run
proof (cases rule: update_member_cases)
  case (updated m input role status)
  show ?thesis unfolding update_member_tx_members [OF updated(8)] by (rule written_owned [OF own updated(2,3,7)])
qed (use own in simp)

lemma remove_owned:
  assumes run: "removeTenantMember sv c r d = (w, d')" and own: "owned T (db_members d)"
  shows "owned T (db_members d')"
  using run
proof (cases rule: remove_member_cases)
  case (removed m)
  show ?thesis unfolding remove_member_tx_effect(1) [OF removed(5)] by (rule dropped_owned [OF own removed(1,2,4)])
qed (use own in simp)

lemma accept_owned:
  assumes run: "acceptTenantInvitation sv body c r d = (w, d')" and own: "owned T (db_members d)"
  shows "owned T (db_members d')"
  using run
proof (cases rule: accept_cases)
  case refused
  then show ?thesis using own by (simp add: quiet_member_tables)
next
  case (joined input i t h m token d1)
  have "db_members d' = db_members d @ [m]" using accept_tx_tables(1) [OF joined(10)] quiet_member_tables(1) [OF joined(2)] by simp
  then show ?thesis using added_owned [OF own] joined(8) quiet_member_tables(1) [OF joined(2)] by (simp add: member_checks_def)
qed

lemma signup_owned:
  assumes run: "signup sv body c r d = (w, d')" and own: "owned T (db_members d)"
  shows "owned T (db_members d')"
  using run
proof (cases rule: signup_cases)
  case (created raw h t m token)
  then show ?thesis using added_owned [OF own] signup_tx_tables [OF created(5)] by (simp add: member_checks_def)
qed (use own in simp)

lemma member_step_owned:
  assumes "owned T (db_members d)"
  shows "owned T (db_members (snd (member_step sv x d)))"
proof -
  obtain a c r where x: "x = (a, c, r)" by (cases x)
  obtain w d' where run: "member_operation sv a c r d = (w, d')" by fastforce
  have "owned T (db_members d')"
  proof (cases a)
    case (Recover b)
    then show ?thesis using run recovery_members [of sv b c r d] keys_owned [OF _ assms] by simp
  next
    case (Invite b)
    then show ?thesis using run invite_effect(1) assms by simp
  next
    case RevokeInvitation
    then show ?thesis using run revoke_invitation_effect(1) assms by simp
  qed (use run assms in \<open>simp_all add: update_owned remove_owned accept_owned signup_owned\<close>)
  then show ?thesis by (simp add: member_step_def x run)
qed


section \<open>Owners are made by owners\<close>

definition owners :: "uid \<Rightarrow> member_row list \<Rightarrow> (uid \<times> string) list" where
  "owners T t = map (\<lambda>m. (tm_uid m, tm_status m)) (filter (\<lambda>m. tm_tenant_uid m = T \<and> tm_role m = ''owner'') t)"

definition managed :: "member_call \<Rightarrow> bool" where
  "managed a \<longleftrightarrow> (case a of UpdateMember _ \<Rightarrow> True | RemoveMember \<Rightarrow> True | Invite _ \<Rightarrow> True | RevokeInvitation \<Rightarrow> True | _ \<Rightarrow> False)"

text \<open>A call the guard of the console let through, whose caller is not an owner of the tenant.\<close>

definition not_by_owner :: "uid \<Rightarrow> member_call \<times> call \<times> http_request \<Rightarrow> bool" where
  "not_by_owner T x \<longleftrightarrow> (let p = mustPrincipal (snd (snd x)) in
     managed (fst x) \<longrightarrow> roleAllows (p_Role p) permissionManageTenant \<and> \<not> (p_TenantUID p = T \<and> p_Role p = ''owner''))"

definition invitations_ok :: "invitation_row list \<Rightarrow> bool" where
  "invitations_ok t \<longleftrightarrow> list_all (\<lambda>i. validInvitationRole (iv_role i)) t"

definition tenant_known :: "uid \<Rightarrow> db \<Rightarrow> bool" where
  "tenant_known T d \<longleftrightarrow> list_ex (\<lambda>t. tn_uid t = T) (db_tenants d)"

lemma tenant_manager: "roleAllows role permissionManageTenant \<Longrightarrow> role = ''owner'' \<or> role = ''admin''"
  by (auto simp: roleAllows_def permissionsByRole_def permission_defs split: if_splits)

lemma owners_keys: "map member_key t' = map member_key t \<Longrightarrow> owners T t' = owners T t"
proof -
  assume keys: "map member_key t' = map member_key t"
  have "owners T s = map (\<lambda>k. (fst k, snd (snd (snd k)))) (filter (\<lambda>k. fst (snd k) = T \<and> fst (snd (snd k)) = ''owner'') (map member_key s))" for s
    by (induction s) (auto simp: owners_def member_key_def)
  then show ?thesis by (simp only: keys)
qed

lemma owners_added: "\<not> (tm_tenant_uid m = T \<and> tm_role m = ''owner'') \<Longrightarrow> owners T (t @ [m]) = owners T t"
  by (simp add: owners_def)

lemma owners_written:
  assumes "\<And>m. m \<in> set t \<Longrightarrow> own_member T' u m \<Longrightarrow> T' = T \<Longrightarrow> tm_role m \<noteq> ''owner'' \<and> role \<noteq> ''owner''"
  shows "owners T (sql_update (own_member T' u) (\<lambda>m. m\<lparr>tm_role := role, tm_status := status\<rparr>) t) = owners T t"
  using assms
proof (induction t)
  case (Cons m t)
  have "owners T (sql_update (own_member T' u) (\<lambda>m. m\<lparr>tm_role := role, tm_status := status\<rparr>) t) = owners T t"
    by (rule Cons.IH, rule Cons.prems) simp_all
  moreover have "own_member T' u m \<Longrightarrow> tm_tenant_uid m = T'" by (simp add: own_member_def)
  ultimately show ?case using Cons.prems [of m] by (cases "own_member T' u m"; cases "T' = T") (simp_all add: owners_def)
qed (simp add: owners_def)

lemma owners_dropped:
  assumes "\<And>m. m \<in> set t \<Longrightarrow> own_member T' u m \<Longrightarrow> T' = T \<Longrightarrow> tm_role m \<noteq> ''owner''"
  shows "owners T (sql_delete (own_member T' u) t) = owners T t"
  using assms by (induction t) (auto simp: owners_def own_member_def sql_delete_def)

lemma update_member_tx_tables:
  assumes "update_member_tx c p u role status d = Some d'"
  shows "db_invitations d' = db_invitations d" "db_tenants d' = db_tenants d"
  using assms by (auto simp: update_member_tx_def stmt_def bind_eq_Some_conv split: if_splits)

lemma remove_member_tx_tables:
  assumes "remove_member_tx c p u d = Some d'"
  shows "map iv_role (db_invitations d') = map iv_role (db_invitations d)" "db_tenants d' = db_tenants d"
  using assms by (auto simp: remove_member_tx_def delete_member_def unlink_member_def cascade_member_def unlink_invitation_def stmt_def bind_eq_Some_conv
      split: if_splits)

lemma roles_ok: "map iv_role t' = map iv_role t \<Longrightarrow> invitations_ok t' = invitations_ok t"
proof -
  assume roles: "map iv_role t' = map iv_role t"
  have "invitations_ok s = list_all validInvitationRole (map iv_role s)" for s by (simp add: invitations_ok_def list_all_iff)
  then show ?thesis by (simp only: roles)
qed

lemma load_invitationD:
  assumes "load_invitation sv c u d = Some (i, t)"
  shows "i \<in> set (db_invitations d)" "iv_uid i = u" "t \<in> set (db_tenants d)" "tn_uid t = iv_tenant_uid i"
  using assms by (auto simp: load_invitation_def Let_def split: if_splits option.splits dest!: sql_row_SomeD)

lemma member_step_ready:
  assumes "invitations_ok (db_invitations d)" "tenant_known T d"
  shows "invitations_ok (db_invitations (snd (member_step sv x d))) \<and> tenant_known T (snd (member_step sv x d))"
proof -
  obtain a c r where x: "x = (a, c, r)" by (cases x)
  obtain w d' where run: "member_operation sv a c r d = (w, d')" by fastforce
  have "invitations_ok (db_invitations d') \<and> tenant_known T d'"
  proof (cases a)
    case (UpdateMember b)
    then have "updateTenantMember sv b c r d = (w, d')" using run by simp
    then show ?thesis by (cases rule: update_member_cases) (use assms in \<open>auto simp: update_member_tx_tables tenant_known_def\<close>)
  next
    case RemoveMember
    then have "removeTenantMember sv c r d = (w, d')" using run by simp
    then show ?thesis
      by (cases rule: remove_member_cases) (use assms in \<open>auto simp: remove_member_tx_tables tenant_known_def roles_ok [OF remove_member_tx_tables(1)]\<close>)
  next
    case (Invite b)
    then have "createTenantInvitation sv b c r d = (w, d')" using run by simp
    from invite_effect(2,3) [OF this] show ?thesis using assms by (auto simp: tenant_known_def invitations_ok_def)
  next
    case RevokeInvitation
    then have "revokeTenantInvitation sv c r d = (w, d')" using run by simp
    from revoke_invitation_effect(2,3) [OF this] show ?thesis using assms by (simp add: tenant_known_def roles_ok [OF revoke_invitation_effect(3) [OF \<open>revokeTenantInvitation sv c r d = (w, d')\<close>]])
  next
    case (AcceptInvitation b)
    then have "acceptTenantInvitation sv b c r d = (w, d')" using run by simp
    then show ?thesis
      by (cases rule: accept_cases)
        (use assms in \<open>auto simp: accept_tx_tables quiet_member_tables tenant_known_def invitations_ok_def list_all_iff set_sql_update\<close>)
  next
    case (SignUp b)
    then have "signup sv b c r d = (w, d')" using run by simp
    then show ?thesis by (cases rule: signup_cases) (use assms in \<open>auto simp: signup_tx_tables tenant_known_def\<close>)
  next
    case (Recover b)
    then show ?thesis using run recovery_members [of sv b c r d] assms by (simp add: tenant_known_def)
  qed
  then show ?thesis by (simp add: member_step_def x run)
qed


text \<open>An admin, and anybody of another tenant, leaves the owners of a tenant alone.\<close>

lemma update_owners:
  assumes run: "updateTenantMember sv body c r d = (w, d')" and uids: "distinct (map tm_uid (db_members d))"
    and role: "p_Role (mustPrincipal r) = ''admin'' \<or> p_TenantUID (mustPrincipal r) \<noteq> T"
  shows "owners T (db_members d') = owners T (db_members d)"
  using run
proof (cases rule: update_member_cases)
  case (updated m input role' status)
  show ?thesis unfolding update_member_tx_members [OF updated(8)]
  proof (rule owners_written)
    fix y
    assume y: "y \<in> set (db_members d)" "own_member (p_TenantUID (mustPrincipal r)) (hq_path r ''member_uid'') y" and T: "p_TenantUID (mustPrincipal r) = T"
    have "y = m" using uid_row [OF uids y(1) updated(2)] y(2) updated(3) by (simp add: own_member_def)
    then show "tm_role y \<noteq> ''owner'' \<and> role' \<noteq> ''owner''" using role T updated(4,6) by (cases "um_Role input") (auto simp: given_def)
  qed
qed simp

lemma remove_owners:
  assumes run: "removeTenantMember sv c r d = (w, d')" and uids: "distinct (map tm_uid (db_members d))"
    and role: "p_Role (mustPrincipal r) = ''admin'' \<or> p_TenantUID (mustPrincipal r) \<noteq> T"
  shows "owners T (db_members d') = owners T (db_members d)"
  using run
proof (cases rule: remove_member_cases)
  case (removed m)
  show ?thesis unfolding remove_member_tx_effect(1) [OF removed(5)]
  proof (rule owners_dropped)
    fix y
    assume y: "y \<in> set (db_members d)" "own_member (p_TenantUID (mustPrincipal r)) (hq_path r ''member_uid'') y" and T: "p_TenantUID (mustPrincipal r) = T"
    have "y = m" using uid_row [OF uids y(1) removed(1)] y(2) removed(2) by (simp add: own_member_def)
    then show "tm_role y \<noteq> ''owner''" using role T removed(3) by auto
  qed
qed simp

lemma member_step_owners:
  assumes uids: "distinct (map tm_uid (db_members d))" and inv: "invitations_ok (db_invitations d)" and known: "tenant_known T d" and by_other: "not_by_owner T x"
  shows "owners T (db_members (snd (member_step sv x d))) = owners T (db_members d)"
proof -
  obtain a c r where x: "x = (a, c, r)" by (cases x)
  let ?p = "mustPrincipal r"
  obtain w d' where run: "member_operation sv a c r d = (w, d')" by fastforce
  have role: "p_Role ?p = ''admin'' \<or> p_TenantUID ?p \<noteq> T" if "managed a"
    using by_other that tenant_manager [of "p_Role ?p"] by (auto simp: not_by_owner_def x Let_def)
  have "owners T (db_members d') = owners T (db_members d)"
  proof (cases a)
    case (UpdateMember b)
    then show ?thesis using run update_owners [OF _ uids] role by (simp add: managed_def)
  next
    case RemoveMember
    then show ?thesis using run remove_owners [OF _ uids] role by (simp add: managed_def)
  next
    case (Invite b)
    then show ?thesis using run invite_effect(1) by simp
  next
    case RevokeInvitation
    then show ?thesis using run revoke_invitation_effect(1) by simp
  next
    case (AcceptInvitation b)
    then have "acceptTenantInvitation sv b c r d = (w, d')" using run by simp
    then show ?thesis
    proof (cases rule: accept_cases)
      case refused
      then show ?thesis by (simp add: quiet_member_tables)
    next
      case (joined input i t h m token d1)
      have "validInvitationRole (iv_role i)"
        using inv load_invitationD(1) [OF joined(3)] quiet_member_tables(2) [OF joined(2)] by (simp add: invitations_ok_def list_all_iff)
      then have "tm_role m \<noteq> ''owner''" by (auto simp: joined(5) new_member_def validInvitationRole_def)
      then show ?thesis using accept_tx_tables(1) [OF joined(10)] quiet_member_tables(1) [OF joined(2)] by (simp add: owners_added)
    qed
  next
    case (SignUp b)
    then have "signup sv b c r d = (w, d')" using run by simp
    then show ?thesis
    proof (cases rule: signup_cases)
      case (created raw h t m token)
      have "tn_uid t \<noteq> T" using known signup_tx_tables(5) [OF created(5)] unfolding tenant_known_def list_ex_iff by blast
      then have "tm_tenant_uid m \<noteq> T" by (simp add: created(4) new_member_def)
      then show ?thesis using signup_tx_tables(1) [OF created(5)] by (simp add: owners_added)
    qed simp
  next
    case (Recover b)
    then have "map member_key (db_members d') = map member_key (db_members d)" using run recovery_members [of sv b c r d] by simp
    then show ?thesis by (rule owners_keys)
  qed
  then show ?thesis by (simp add: member_step_def x run)
qed


section \<open>Properties\<close>

text \<open>
  C9 (tenant_keeps_an_owner): no tenant is left without an active owner. Whatever members do -- change roles and statuses, remove members, invite, accept, sign up,
  recover passwords -- in whatever order and with whatever failures of the database, a tenant that has an active owner has
  one afterwards, and the ids of members stay distinct.
\<close>

theorem tenant_keeps_an_owner:
  assumes "owned T (db_members d)"
  shows "owned T (db_members (after_calls (member_step sv) as d))"
  using assms by (induction as arbitrary: d) (simp_all add: member_step_owned)

text \<open>The final owner tries to become an admin.\<close>

theorem tenant_keeps_an_owner_witness:
  "owned ''t'' (db_members (after_calls (member_step demo_server)
     [(UpdateMember (Some \<lparr>um_Role = Some ''admin'', um_Status = None\<rparr>), demo_call,
       demo_request\<lparr>hq_principal := Some demo_principal, hq_path := (\<lambda>_. ''m'')\<rparr>)] recovery_db))"
  by (rule tenant_keeps_an_owner) (simp add: owned_def active_owner_def recovery_db_def demo_member_def)

text \<open>
  C10 (only_owners_change_owners): nobody but an owner of a tenant changes who its owners are. In every sequence of calls in which the guarded ones are made by
  somebody the guard admits but never by an owner of the tenant -- an admin of the tenant, or anybody of another tenant -- the owners and
  their statuses stay as they are: no role change, removal, invitation, acceptance, sign-up or recovery makes, demotes, disables or removes one.
\<close>

theorem only_owners_change_owners:
  assumes "owned T (db_members d)" and "invitations_ok (db_invitations d)" and "tenant_known T d" and "list_all (not_by_owner T) as"
  shows "owners T (db_members (after_calls (member_step sv) as d)) = owners T (db_members d)"
  using assms
proof (induction as arbitrary: d)
  case (Cons x as)
  let ?d = "snd (member_step sv x d)"
  have "owned T (db_members ?d)" and ready: "invitations_ok (db_invitations ?d)" "tenant_known T ?d"
    using Cons.prems member_step_owned member_step_ready by blast+
  then have "owners T (db_members (after_calls (member_step sv) as ?d)) = owners T (db_members ?d)" using Cons.IH Cons.prems(4) by simp
  moreover have "owners T (db_members ?d) = owners T (db_members d)"
    using Cons.prems by (intro member_step_owners) (simp_all add: owned_def)
  ultimately show ?case by simp
qed simp

text \<open>An admin tries to demote the owner.\<close>

definition tenant_db :: db where
  "tenant_db = recovery_db\<lparr>db_tenants := [\<lparr>tn_uid = ''t'', tn_name = ''Acme'', tn_slug = ''acme''\<rparr>]\<rparr>"

theorem only_owners_change_owners_witness:
  "owners ''t'' (db_members (after_calls (member_step demo_server)
     [(UpdateMember (Some \<lparr>um_Role = Some ''viewer'', um_Status = None\<rparr>), demo_call,
       demo_request\<lparr>hq_principal := Some (demo_principal\<lparr>p_Role := ''admin''\<rparr>), hq_path := (\<lambda>_. ''m'')\<rparr>)] tenant_db)) = [(''m'', ''active'')]"
proof -
  have db: "owned ''t'' (db_members tenant_db)" "invitations_ok (db_invitations tenant_db)" "tenant_known ''t'' tenant_db"
    "owners ''t'' (db_members tenant_db) = [(''m'', ''active'')]"
    by (simp_all add: owned_def active_owner_def invitations_ok_def tenant_known_def owners_def tenant_db_def recovery_db_def demo_member_def empty_db_def)
  have by_admin: "list_all (not_by_owner ''t'') [(a, demo_call, demo_request\<lparr>hq_principal := Some (demo_principal\<lparr>p_Role := ''admin''\<rparr>), hq_path := f\<rparr>)]" for a f
    by (simp add: not_by_owner_def mustPrincipal_def roleAllows_def permissionsByRole_def permission_defs)
  show ?thesis using only_owners_change_owners [OF db(1,2,3) by_admin] db(4) by simp
qed


lemma setMemberCookie_status [simp]: "hs_status (setMemberCookie sv token t w) = hs_status w"
  by (simp add: setMemberCookie_def with_header_def)

text \<open>An invitation whose rows are all accepted admits nobody any more.\<close>

lemma accepted_invitation_closed:
  assumes "list_all (\<lambda>i. iv_uid i = u \<longrightarrow> iv_status i = ''accepted'') (db_invitations d)" and "hq_path r ''invitation_uid'' = u"
  shows "hs_status (fst (acceptTenantInvitation sv body c r d)) \<noteq> 201"
proof -
  obtain w d' where run: "acceptTenantInvitation sv body c r d = (w, d')" by fastforce
  then have "hs_status w \<noteq> 201"
  proof (cases rule: accept_cases)
    case (joined input i t h m token d1)
    have "iv_status i = ''accepted''"
      using load_invitationD(1,2) [OF joined(3)] quiet_member_tables(2) [OF joined(2)] assms by (simp add: list_all_iff)
    then show ?thesis using joined(4) by (simp add: acceptable_def)
  qed
  then show ?thesis by (simp add: run)
qed

text \<open>The member an invitation stands for: its tenant, email and role, a verified email and no more than a bootstrap session.\<close>

definition joins :: "time \<Rightarrow> invitation_row \<Rightarrow> db \<Rightarrow> db \<Rightarrow> bool" where
  "joins now i d d' \<longleftrightarrow> (\<exists>m s. db_members d' = db_members d @ [m] \<and> tm_tenant_uid m = iv_tenant_uid i \<and> tm_email m = iv_email i \<and> tm_role m = iv_role i \<and>
     tm_status m = ''active'' \<and> tm_email_verified_at m = Some now \<and> db_member_sessions d' = db_member_sessions d @ [s] \<and>
     ms_tenant_member_uid s = tm_uid m \<and> ms_authentication_assurance s = ''bootstrap'')"



definition demo_invitation :: invitation_row where
  "demo_invitation = \<lparr>iv_uid = ''i'', iv_tenant_uid = ''t'', iv_email = ''bob@b.c'', iv_email_normalized = ''bob@b.c'', iv_role = ''admin'',
     iv_status = ''pending'', iv_acceptance_token_hash = SessionHash_of demo_server ''token'', iv_created_by_member_uid = Some ''m'',
     iv_accepted_by_member_uid = None, iv_revoked_by_member_uid = None, iv_created_at = 0, iv_expires_at = 2000 * Second,
     iv_accepted_at = None, iv_revoked_at = None\<rparr>"

definition invited_db :: db where
  "invited_db = tenant_db\<lparr>db_invitations := [demo_invitation]\<rparr>"

definition demo_accept :: acceptInvitationInput where
  "demo_accept = \<lparr>ai_AcceptanceToken = ''token'', ai_Password = ''correct horse battery'', ai_DisplayName = ''Bob''\<rparr>"

definition invitation_request :: http_request where
  "invitation_request = demo_request\<lparr>hq_path := (\<lambda>_. ''i'')\<rparr>"

lemma accept_tx_succeeds:
  assumes "\<And>site. ca_flt c site = False"
    and "\<not> list_ex (\<lambda>x. ms_uid x = ca_uid c ''session'' \<or> ms_session_secret_hash x = SessionHash_of sv token) (db_member_sessions d)"
  shows "\<exists>d'. accept_tx sv c u m token d = Some d'"
  unfolding accept_tx_def insert_member_session_def new_member_audit_def stmt_def assms(1) if_False Option.bind.simps new_member_session_def member_session_row.simps
  using assms(2) by simp

lemma demo_accept_run:
  "\<exists>w d'. acceptTenantInvitation demo_server (Some demo_accept) demo_call invitation_request invited_db = (w, d') \<and> hs_status w = 201"
proof -
  have flt: "ca_flt demo_call site = False" for site by (simp add: demo_call_def)
  have uid: "hq_path invitation_request ''invitation_uid'' = ''i''" by (simp add: invitation_request_def)
  have pat: "rateLimitPolicyPattern ''tenant_invitation_accept''"
    by (simp add: rateLimitPolicyPattern_def head_tail_match_def char_class_defs less_eq_char_def)
  obtain t where lim: "takeRateLimit demo_server demo_call invitation_request ''tenant_invitation_accept''
      (hq_path invitation_request ''invitation_uid'' @ [char_of (0 :: nat)] @ clientIP demo_server invitation_request) 10 (15 * Minute) invited_db
      = (None, invited_db\<lparr>db_buckets := t\<rparr>)"
    using demo_allowed [OF pat, of 10 "15 * Minute" invited_db] by (auto simp: time_defs invited_db_def tenant_db_def recovery_db_def empty_db_def)
  let ?d = "invited_db\<lparr>db_buckets := t\<rparr>" and ?t = "\<lparr>tn_uid = ''t'', tn_name = ''Acme'', tn_slug = ''acme''\<rparr>"
  obtain h where h: "hash_or_answer demo_server demo_call invitation_request ''correct horse battery'' = Inr h" using demo_password_hashed by blast
  obtain k where k: "RandomToken (ca_rand demo_call ''session token'') = Some k" by (simp add: RandomToken_def rand_Read_def demo_call_def)
  have row: "load_invitation demo_server demo_call ''i'' ?d = Some (demo_invitation, ?t)"
    by (simp add: load_invitation_def flt Let_def invited_db_def tenant_db_def demo_invitation_def demo_server_def)
  have ok: "acceptable demo_server (ca_now demo_call) ''token'' demo_invitation"
    by (simp add: acceptable_def demo_invitation_def demo_call_def time_defs)
  have name: "TrimSpace ''Bob'' = ''Bob''" by (rule TrimSpace_visible; simp add: visible_c_def)
  let ?m = "new_member demo_call ''t'' ''bob@b.c'' ''Bob'' ''admin'' h (Some (ca_now demo_call))"
  have checks: "member_checks ?m ?d" "\<not> email_in_use (tm_email_normalized ?m) ?d"
    by (simp_all add: member_checks_def email_in_use_def new_member_def demo_call_def invited_db_def tenant_db_def recovery_db_def demo_member_def rune_count_def count_runes_ascii)
  have "length (SessionHash_of demo_server k) = 32" by (simp add: SessionHash_of_def SessionHash_def demo_server_def Api_Base.demo_digest_def)
  then have "SessionHash_of demo_server k \<noteq> []" by force
  then have "\<not> list_ex (\<lambda>x. ms_uid x = ca_uid demo_call ''session'' \<or> ms_session_secret_hash x = SessionHash_of demo_server k) (db_member_sessions invited_db)"
    by (simp add: invited_db_def tenant_db_def recovery_db_def demo_session_def demo_call_def)
  then have "\<exists>d'. accept_tx demo_server demo_call ''i'' ?m k (?d\<lparr>db_members := db_members ?d @ [?m]\<rparr>) = Some d'"
    by (intro accept_tx_succeeds flt) simp
  then have "\<exists>w d'. accept_invitation demo_server demo_call ''Bob'' h k demo_invitation ?t invitation_request ?d = (w, d') \<and> hs_status w = 201"
    using checks by (auto simp: accept_invitation_def Let_def flt uid demo_invitation_def commit_tx_def stmt_def writeJSON_def)
  moreover have "acceptTenantInvitation demo_server (Some demo_accept) demo_call invitation_request invited_db =
      accept_invitation demo_server demo_call ''Bob'' h k demo_invitation ?t invitation_request ?d"
    unfolding acceptTenantInvitation_def lim demo_accept_def
    by (simp add: Let_def name h k flt uid row ok del: TrimSpace_def)
  ultimately show ?thesis by simp
qed



text \<open>A member an accepted invitation names cannot be deleted.\<close>

lemma accepted_blocks_removal:
  assumes "i \<in> set (db_invitations d)" "iv_status i = ''accepted''" "iv_accepted_by_member_uid i = Some u" "hq_path r ''member_uid'' = u"
    and run: "removeTenantMember sv c r d = (w, d')"
  shows "d' = d" and "hs_status w \<noteq> 204"
proof -
  have "unlink_invitation u i \<noteq> i" and "\<not> invitation_check (unlink_invitation u i)"
    using assms(2,3) by (auto simp: unlink_invitation_def unlink_def invitation_check_def dest: arg_cong [of _ _ iv_accepted_by_member_uid])
  then have blocked: "list_ex (\<lambda>i. unlink_invitation u i \<noteq> i \<and> \<not> invitation_check (unlink_invitation u i)) (db_invitations d)"
    using assms(1) unfolding list_ex_iff by blast
  have "d' = d \<and> hs_status w \<noteq> 204" using run
  proof (cases rule: remove_member_cases)
    case (removed m)
    then show ?thesis using remove_member_tx_effect(2) [OF removed(5)] blocked assms(4) by simp
  qed simp
  then show "d' = d" "hs_status w \<noteq> 204" by simp_all
qed



text \<open>
  Lemma (expired_invitation_blocks): an expired invitation keeps its email blocked. While the row of an invitation that ran out is there, it admits nobody and is
  shown as expired, its tenant cannot revoke it, and no new invitation for the same email can be created.
\<close>

theorem expired_invitation_blocks:
  assumes row: "i \<in> set (db_invitations d)" and pending: "iv_status i = ''pending''" and expired: "iv_expires_at i \<le> ca_now c"
    and uids: "distinct (map iv_uid (db_invitations d))" and target: "hq_path r ''invitation_uid'' = iv_uid i"
    and tenant: "p_TenantUID (mustPrincipal r') = iv_tenant_uid i" and email: "normalizeEmail sv (ti_Email input) = iv_email_normalized i"
  shows "invitation_status (ca_now c) i = ''expired'' \<and> hs_status (fst (acceptTenantInvitation sv body c r d)) \<noteq> 201 \<and>
    (hs_status (fst (revokeTenantInvitation sv c r d)) \<noteq> 204 \<and> snd (revokeTenantInvitation sv c r d) = d) \<and>
    db_invitations (snd (createTenantInvitation sv (Some input) c r' d)) = db_invitations d"
proof (intro conjI)
  have only: "j = i" if "j \<in> set (db_invitations d)" "iv_uid j = iv_uid i" for j
    using uids row that by (auto simp: distinct_map inj_on_def)
  obtain w d' where accept: "acceptTenantInvitation sv body c r d = (w, d')" by fastforce
  have "hs_status w \<noteq> 201" using accept
  proof (cases rule: accept_cases)
    case (joined raw j t h m token d1)
    then have "j = i" using only load_invitationD(1,2) [OF joined(3)] quiet_member_tables(2) [OF joined(2)] target by simp
    then show ?thesis using joined(4) expired by (simp add: acceptable_def)
  qed
  then show "hs_status (fst (acceptTenantInvitation sv body c r d)) \<noteq> 201" by (simp add: accept)
  have none: "sql_count (revocable (ca_now c) (p_TenantUID (mustPrincipal r)) (hq_path r ''invitation_uid'')) (db_invitations d) = 0"
    using expired by (auto simp: revocable_def target dest!: only)
  then show "hs_status (fst (revokeTenantInvitation sv c r d)) \<noteq> 204" "snd (revokeTenantInvitation sv c r d) = d"
    by (simp_all add: revokeTenantInvitation_def Let_def fail_def writeJSON_def)
  obtain v e where create: "createTenantInvitation sv (Some input) c r' d = (v, e)" by fastforce
  then have "db_invitations e = db_invitations d"
  proof (cases rule: invite_cases)
    case (invited j raw token t e' u)
    have "invitation_conflict j d" unfolding invitation_conflict_def list_ex_iff using row pending tenant email invited(3,4,5) by auto
    then show ?thesis using invited(1) by simp
  qed simp
  then show "db_invitations (snd (createTenantInvitation sv (Some input) c r' d)) = db_invitations d" by (simp add: create)
qed (simp add: invitation_status_def pending expired)


theorem expired_invitation_blocks_witness:
  "invitation_status (1000 * Second) (demo_invitation\<lparr>iv_expires_at := 0\<rparr>) = ''expired'' \<and>
   db_invitations (snd (createTenantInvitation demo_server (Some \<lparr>ti_Email = ''bob@b.c'', ti_Role = ''viewer''\<rparr>) demo_call
     (demo_request\<lparr>hq_principal := Some demo_principal\<rparr>) (tenant_db\<lparr>db_invitations := [demo_invitation\<lparr>iv_expires_at := 0\<rparr>]\<rparr>))) = [demo_invitation\<lparr>iv_expires_at := 0\<rparr>]"
proof -
  let ?i = "demo_invitation\<lparr>iv_expires_at := 0\<rparr>"
  let ?d = "tenant_db\<lparr>db_invitations := [?i]\<rparr>" and ?r = "demo_request\<lparr>hq_principal := Some demo_principal\<rparr>"
  have "TrimSpace ''bob@b.c'' = ''bob@b.c''" by (rule TrimSpace_visible; simp add: visible_c_def)
  moreover have "is_ascii ''bob@b.c'' \<and> map lower_c ''bob@b.c'' = ''bob@b.c''" by code_simp
  ultimately have email: "normalizeEmail demo_server (ti_Email \<lparr>ti_Email = ''bob@b.c'', ti_Role = ''viewer''\<rparr>) = iv_email_normalized ?i"
    by (simp add: normalizeEmail_def ToLower_def demo_invitation_def)
  have "?i \<in> set (db_invitations ?d)" "iv_status ?i = ''pending''" "iv_expires_at ?i \<le> ca_now demo_call" "distinct (map iv_uid (db_invitations ?d))"
    "hq_path invitation_request ''invitation_uid'' = iv_uid ?i" "p_TenantUID (mustPrincipal ?r) = iv_tenant_uid ?i"
    by (simp_all add: demo_invitation_def demo_call_def time_defs invitation_request_def mustPrincipal_def demo_principal_def)
  from expired_invitation_blocks [OF this email, of None] show ?thesis by (simp add: demo_call_def)
qed

lemma hyphenate_chars: "list_all (\<lambda>ch. slug_c ch \<or> ch = CHR ''-'') (hyphenate gap s)"
  by (induction gap s rule: hyphenate.induct) auto

lemma list_all_subset: "set xs \<subseteq> set ys \<Longrightarrow> list_all p ys \<Longrightarrow> list_all p xs"
  by (auto simp: list_all_iff)

lemma set_trim_hyphens: "set (trim_hyphens s) \<subseteq> set s"
  by (auto simp: trim_hyphens_def Let_def dest!: set_dropWhileD)

lemma slug_base_ok: "list_all (\<lambda>ch. slug_c ch \<or> ch = CHR ''-'') (slug_base sv name)" "length (slug_base sv name) \<le> 50" "slug_base sv name \<noteq> []"
proof -
  let ?ok = "list_all (\<lambda>ch. slug_c ch \<or> ch = CHR ''-'')" and ?base = "trim_hyphens (hyphenate False (ToLower (lower_unicode sv) name))"
  have "?ok ''tenant''" by code_simp
  moreover have "?ok ?base" by (rule list_all_subset [OF set_trim_hyphens hyphenate_chars])
  ultimately have "?ok (if ?base = [] then ''tenant'' else ?base)" by simp
  then show "?ok (slug_base sv name)" unfolding slug_base_def Let_def by (rule list_all_subset [OF set_take_subset])
qed (auto simp: slug_base_def Let_def)

lemma length_decimal: "n < 10 ^ k \<Longrightarrow> 0 < k \<Longrightarrow> length (decimal n) \<le> k"
proof (induction k arbitrary: n)
  case (Suc k)
  show ?case
  proof (cases "n < 10")
    case True
    then show ?thesis by (simp add: decimal.simps [of n])
  next
    case False
    then have "0 < k" using Suc.prems by (cases k) auto
    moreover have "n div 10 < 10 ^ k" using Suc.prems(1) by (simp add: div_less_iff_less_mult mult.commute)
    ultimately show ?thesis using Suc.IH [of "n div 10"] False by (simp add: decimal.simps [of n])
  qed
qed simp

lemma slug_taken: "list_ex (\<lambda>x. tn_slug x = s) t \<longleftrightarrow> s \<in> tn_slug ` set t"
  by (induction t) auto

lemma free_slug_Some:
  "free_slug d base i n = Some s \<Longrightarrow> s \<notin> tn_slug ` set (db_tenants d) \<and> (\<exists>j < i + n. s = slug_candidate base j)"
proof (induction d base i n rule: free_slug.induct)
  case (2 d base i n)
  show ?case
  proof (cases "slug_candidate base i \<in> tn_slug ` set (db_tenants d)")
    case True
    then show ?thesis using 2 by (simp add: slug_taken)
  next
    case False
    then show ?thesis using 2(2) by (intro conjI exI [of _ i]) (simp_all add: slug_taken)
  qed
qed simp

lemma free_slug_None: "free_slug d base i n = None \<Longrightarrow> slug_candidate base ` {i..<i + n} \<subseteq> tn_slug ` set (db_tenants d)"
proof (induction d base i n rule: free_slug.induct)
  case (2 d base i n)
  have "{i..<i + Suc n} = insert i {Suc i..<Suc i + n}" by auto
  then show ?case using 2 by (simp add: slug_taken split: if_splits)
qed simp

lemma slug_candidate_inj: "inj (slug_candidate base)"
proof (rule injI)
  fix i j
  assume same: "slug_candidate base i = slug_candidate base j"
  have "decimal (i + 1) = decimal (j + 1)" if "i > 0" "j > 0" using same that by (simp add: slug_candidate_def)
  then show "i = j" using same digits_value_decimal [of "i + 1"] digits_value_decimal [of "j + 1"]
    by (cases "i > 0"; cases "j > 0") (auto simp: slug_candidate_def)
qed

text \<open>
  Lemma (slug_is_new_and_short): a sign-up finds a slug for its tenant whatever the name is. The slug is non-empty, at most 55 bytes long, made of lower-case letters, digits
  and hyphens, and no tenant has it; there is none only when the database fails or a thousand tenants exist already.
\<close>

theorem slug_is_new_and_short:
  "case uniqueSlug sv c name d of
     None \<Rightarrow> ca_flt c ''check slug'' \<or> 1000 \<le> length (db_tenants d)
   | Some slug \<Rightarrow> slug \<notin> tn_slug ` set (db_tenants d) \<and> slug \<noteq> [] \<and> length slug \<le> 55 \<and> list_all (\<lambda>ch. slug_c ch \<or> ch = CHR ''-'') slug"
proof (cases "uniqueSlug sv c name d")
  case None
  have "1000 \<le> length (db_tenants d)" if "\<not> ca_flt c ''check slug''"
  proof -
    have "slug_candidate (slug_base sv name) ` {0..<1000} \<subseteq> tn_slug ` set (db_tenants d)"
      using free_slug_None [of d "slug_base sv name" 0 1000] None that by (simp add: uniqueSlug_def)
    then have "card (slug_candidate (slug_base sv name) ` {0..<1000}) \<le> card (tn_slug ` set (db_tenants d))" by (rule card_mono [rotated]) simp
    also have "\<dots> \<le> length (db_tenants d)" using card_image_le card_length le_trans by blast
    finally show ?thesis using card_image [OF inj_on_subset [OF slug_candidate_inj subset_UNIV]] by simp
  qed
  then show ?thesis by (auto simp: None)
next
  case (Some slug)
  then obtain j where j: "j < 1000" "slug = slug_candidate (slug_base sv name) j" and new: "slug \<notin> tn_slug ` set (db_tenants d)"
    using free_slug_Some [of d "slug_base sv name" 0 1000 slug] by (auto simp: uniqueSlug_def split: if_splits)
  have "length (decimal (j + 1)) \<le> 4" using length_decimal [of "j + 1" 4] j(1) by simp
  moreover have "list_all (\<lambda>ch. slug_c ch \<or> ch = CHR ''-'') (decimal (j + 1))"
    using decimal_digits by (auto simp: list_all_iff slug_c_def is_digit_c_def)
  ultimately show ?thesis using new slug_base_ok [of sv name] by (auto simp: Some j(2) slug_candidate_def)
qed

end
