(* ===== verification/Member_Login.thy ===== *)
theory Member_Login
  imports Tenant_Members
begin

text \<open>
  The login of tenant members with a password and a WebAuthn credential, and the management of these credentials
  (\<^verbatim>\<open>internal/api/tenant_member_webauthn.go\<close>). The WebAuthn library is a parameter.
\<close>

section \<open>The WebAuthn library\<close>

text \<open>A credential as the library returns it, and the user it is asked about.\<close>

record webauthn_credential =
  cd_ID :: "byte list"
  cd_AttestationType :: string
  cd_AttestationFormat :: string
  cd_AAGUID :: "byte list"
  cd_rest :: json

record tenantMemberWebUser =
  wu_UID :: uid
  wu_Email :: string
  wu_DisplayName :: string
  wu_Credentials :: "webauthn_credential list"

text \<open>
  \<open>webauthn.New\<close> for a relying party and its origins, the four steps of the ceremonies (the first component of what a ceremony
  begins with is sent to the browser, the second is kept as \<open>SessionData\<close>), and the JSON of sessions and credentials. The last field are the
  random bytes the process drew at its start.
\<close>

type_synonym relying_party = "string \<times> string list"

record webauthn_library =
  wa_New :: "string \<Rightarrow> string list \<Rightarrow> bool"
  wa_BeginLogin :: "relying_party \<Rightarrow> call \<Rightarrow> tenantMemberWebUser \<Rightarrow> string \<Rightarrow> (json \<times> json) option"
  wa_BeginRegistration :: "relying_party \<Rightarrow> call \<Rightarrow> tenantMemberWebUser \<Rightarrow> string \<Rightarrow> (json \<times> json) option"
  wa_FinishLogin :: "relying_party \<Rightarrow> time \<Rightarrow> tenantMemberWebUser \<Rightarrow> json \<Rightarrow> json \<Rightarrow> webauthn_credential option"
  wa_FinishRegistration :: "relying_party \<Rightarrow> time \<Rightarrow> tenantMemberWebUser \<Rightarrow> json \<Rightarrow> json \<Rightarrow> webauthn_credential option"
  wa_MarshalSession :: "json \<Rightarrow> json option"
  wa_UnmarshalSession :: "json \<Rightarrow> json option"
  wa_Marshal :: "webauthn_credential \<Rightarrow> json option"
  wa_Unmarshal :: "json \<Rightarrow> webauthn_credential option"
  wa_init :: entropy

section \<open>Login attempts\<close>

definition tenantMemberLoginAttemptTTL :: duration where "tenantMemberLoginAttemptTTL = 5 * Minute"

definition maxTenantMemberCredentials :: nat where "maxTenantMemberCredentials = 10"

text \<open>A process that cannot hash the dummy password does not start.\<close>

definition tenantMemberDummyPasswordHash :: "server \<Rightarrow> webauthn_library \<Rightarrow> string" where
  "tenantMemberDummyPasswordHash sv wa =
     (case HashPassword (Argon2 sv) (wa_init wa) ''dummy password used only for timing parity'' of Inr h \<Rightarrow> h | Inl _ \<Rightarrow> [])"

definition new_attempt :: "server \<Rightarrow> call \<Rightarrow> uid option \<Rightarrow> string \<Rightarrow> string \<Rightarrow> member_attempt_row" where
  "new_attempt sv c memberUID clientSecret email =
     \<lparr>xr_uid = ca_uid c ''login attempt'', xr_expires_at = ca_now c + tenantMemberLoginAttemptTTL, xr_login_attempt_uid = None, xr_session_uid = None,
      la_tenant_member_uid = memberUID, la_client_secret_hash = SessionHash_of sv clientSecret,
      la_identity_key_hash = SecretHash_of sv (''console_login_identity'' @ [char_of (0 :: nat)] @ email), la_password_verified_at = None, la_consumed_at = None\<rparr>"

definition insert_attempt :: "call \<Rightarrow> member_attempt_row \<Rightarrow> db \<Rightarrow> db option" where
  "insert_attempt c a = stmt c ''insert attempt'' (\<lambda>d.
     if list_ex (\<lambda>x. xr_uid x = xr_uid a \<or> la_client_secret_hash x = la_client_secret_hash a) (db_member_login_attempts d) \<or>
        length (la_client_secret_hash a) \<noteq> 32 \<or> length (la_identity_key_hash a) \<noteq> 32 then None
     else Some (d\<lparr>db_member_login_attempts := db_member_login_attempts d @ [a]\<rparr>))"

definition login_candidate :: "call \<Rightarrow> string \<Rightarrow> db \<Rightarrow> uid option" where
  "login_candidate c email d =
     (if ca_flt c ''find member'' then None
      else map_option tm_uid (sql_row (\<lambda>m. tm_email_normalized m = email \<and> tm_status m = ''active'') (db_members d)))"

definition createTenantMemberLoginAttempt :: "server \<Rightarrow> string option \<Rightarrow> call \<Rightarrow> handler" where
  "createTenantMemberLoginAttempt sv body c r d =
     (case body of
        None \<Rightarrow> (invalid_json r, d)
      | Some raw \<Rightarrow>
          let email = normalizeEmail sv raw in
          if email = [] \<or> length email > 320 then (fail r 422 ''validation_failed'' ''email must be a valid address'', d)
          else (case takeRateLimit sv c r ''console_login_start_ip'' (clientIP sv r) 50 (15 * Minute) d of
            (Some w, d1) \<Rightarrow> (w, d1)
          | (None, d1) \<Rightarrow>
              (case RandomToken (ca_rand c ''client secret'') of
                 None \<Rightarrow> (fail r 500 ''internal_error'' ''could not start login'', d1)
               | Some clientSecret \<Rightarrow>
                   let a = new_attempt sv c (login_candidate c email d1) clientSecret email in
                   (case insert_attempt c a d1 of
                      None \<Rightarrow> (fail r 500 ''internal_error'' ''could not start login'', d1)
                    | Some d2 \<Rightarrow>
                        (writeJSON 201 (JObj [(''uid'', JStr (xr_uid a)), (''client_secret'', JStr clientSecret), (''expires_at'', JNum (xr_expires_at a))]), d2)))))"

record tenantMemberLoginAttemptState =
  as_UID :: uid
  as_TenantUID :: uid
  as_TenantName :: string
  as_TenantSlug :: string
  as_MemberUID :: uid
  as_Email :: string
  as_DisplayName :: string
  as_Role :: string
  as_Status :: string
  as_EmailVerified :: bool
  as_MemberCreatedAt :: time
  as_PasswordHash :: string
  as_IdentityKeyHash :: "byte list"
  as_PasswordVerified :: bool
  as_ExpiresAt :: time

definition open_attempt :: "time \<Rightarrow> member_attempt_row \<Rightarrow> bool" where
  "open_attempt now a \<longleftrightarrow> la_consumed_at a = None \<and> xr_expires_at a > now"

text \<open>
  The attempt with its member and tenant, which the foreign keys of the schema provide: an attempt that names a member has its row, and
  so has the member its tenant. A member without an account leaves the fields empty.
\<close>

definition attempt_state :: "db \<Rightarrow> member_attempt_row \<Rightarrow> tenantMemberLoginAttemptState option" where
  "attempt_state d a =
     (let s = \<lparr>as_UID = xr_uid a, as_TenantUID = [], as_TenantName = [], as_TenantSlug = [], as_MemberUID = [], as_Email = [], as_DisplayName = [],
                as_Role = [], as_Status = [], as_EmailVerified = False, as_MemberCreatedAt = 0, as_PasswordHash = [],
                as_IdentityKeyHash = la_identity_key_hash a, as_PasswordVerified = la_password_verified_at a \<noteq> None, as_ExpiresAt = xr_expires_at a\<rparr> in
      case la_tenant_member_uid a of
        None \<Rightarrow> Some s
      | Some u \<Rightarrow>
          (case sql_row (\<lambda>m. tm_uid m = u) (db_members d) of
             None \<Rightarrow> None
           | Some m \<Rightarrow>
               (case tenant_of d m of
                  None \<Rightarrow> None
                | Some t \<Rightarrow> Some (s\<lparr>as_TenantUID := tn_uid t, as_TenantName := tn_name t, as_TenantSlug := tn_slug t, as_MemberUID := u, as_Email := tm_email m,
                    as_DisplayName := tm_display_name m, as_Role := tm_role m, as_Status := tm_status m, as_EmailVerified := (tm_email_verified_at m \<noteq> None),
                    as_MemberCreatedAt := tm_created_at m, as_PasswordHash := tm_password_hash m\<rparr>))))"

definition resolveTenantMemberLoginAttempt :: "server \<Rightarrow> call \<Rightarrow> http_request \<Rightarrow> db \<Rightarrow> tenantMemberLoginAttemptState option" where
  "resolveTenantMemberLoginAttempt sv c r d =
     (let clientSecret = hq_header r ''X-ComplicatedAuth-Login-Secret'' in
      if \<not> uuid_ok sv (hq_path r ''login_attempt_uid'') \<or> clientSecret = [] \<or> ca_flt c ''load attempt'' then None
      else (case sql_row (\<lambda>a. xr_uid a = hq_path r ''login_attempt_uid'' \<and> la_client_secret_hash a = SessionHash_of sv clientSecret \<and> open_attempt (ca_now c) a)
              (db_member_login_attempts d) of
              None \<Rightarrow> None | Some a \<Rightarrow> attempt_state d a))"

definition mark_verified :: "call \<Rightarrow> uid \<Rightarrow> db \<Rightarrow> db" where
  "mark_verified c uid d = d\<lparr>db_member_login_attempts := sql_update (\<lambda>a. xr_uid a = uid \<and> open_attempt (ca_now c) a)
     (\<lambda>a. a\<lparr>la_password_verified_at := coalesce (la_password_verified_at a) (ca_now c)\<rparr>) (db_member_login_attempts d)\<rparr>"

definition rehash_password :: "server \<Rightarrow> call \<Rightarrow> uid \<Rightarrow> string \<Rightarrow> db \<Rightarrow> db" where
  "rehash_password sv c memberUID password d =
     (case HashPassword (Argon2 sv) (ca_rand c ''password salt'') password of
        Inl _ \<Rightarrow> d
      | Inr h \<Rightarrow> if ca_flt c ''rehash'' then d else set_password memberUID h d)"

definition credentials_of :: "uid \<Rightarrow> db \<Rightarrow> nat" where
  "credentials_of memberUID d = sql_count (\<lambda>k. mw_tenant_member_uid k = memberUID) (db_member_credentials d)"

text \<open>What follows a correct password.\<close>

definition password_verified :: "server \<Rightarrow> call \<Rightarrow> tenantMemberLoginAttemptState \<Rightarrow> string \<Rightarrow> string \<Rightarrow> bool \<Rightarrow> handler" where
  "password_verified sv c a identityKey password rehash r d =
     (if ca_flt c ''mark verified'' \<or> sql_count (\<lambda>x. xr_uid x = as_UID a \<and> open_attempt (ca_now c) x) (db_member_login_attempts d) \<noteq> 1 then
        (fail r 401 ''invalid_login'' ''login attempt is invalid or expired'', d)
      else
        let d1 = resetRateLimit sv c ''console_login_password_identity'' identityKey (mark_verified c (as_UID a) d);
            d2 = (if rehash then rehash_password sv c (as_MemberUID a) password d1 else d1) in
        if ca_flt c ''count credentials'' then (fail r 500 ''internal_error'' ''could not inspect authentication credentials'', d2)
        else (writeJSON 201 (JObj [(''status'', JStr ''password_verified''), (''credential_setup_required'', JBool (credentials_of (as_MemberUID a) d2 = 0)),
                (''expires_at'', JNum (as_ExpiresAt a))]), d2))"

definition verifyTenantMemberLoginPassword :: "server \<Rightarrow> webauthn_library \<Rightarrow> string option \<Rightarrow> call \<Rightarrow> handler" where
  "verifyTenantMemberLoginPassword sv wa body c r d =
     (case resolveTenantMemberLoginAttempt sv c r d of
        None \<Rightarrow> (fail r 401 ''invalid_login'' ''login attempt is invalid or expired'', d)
      | Some a \<Rightarrow>
          (case takeRateLimit sv c r ''console_login_password_ip'' (clientIP sv r) 20 (15 * Minute) d of
             (Some w, d1) \<Rightarrow> (w, d1)
           | (None, d1) \<Rightarrow>
               let identityKey = hex_EncodeToString (as_IdentityKeyHash a) in
               (case takeRateLimit sv c r ''console_login_password_identity'' identityKey 5 (15 * Minute) d1 of
                  (Some w, d2) \<Rightarrow> (w, d2)
                | (None, d2) \<Rightarrow>
                    (case body of
                       None \<Rightarrow> (invalid_json r, d2)
                     | Some password \<Rightarrow>
                         (case VerifyPassword (Argon2 sv) (if as_PasswordHash a = [] then tenantMemberDummyPasswordHash sv wa else as_PasswordHash a) password of
                            Inl _ \<Rightarrow> (aborted, d2)
                          | Inr (valid, rehash) \<Rightarrow>
                              if \<not> valid \<or> as_MemberUID a = [] \<or> as_Status a \<noteq> ''active'' then
                                (fail r 401 ''invalid_credentials'' ''email or password is incorrect'', d2)
                              else password_verified sv c a identityKey password rehash r d2)))))"

section \<open>Ceremonies\<close>

definition tenantMemberWebAuthn :: "server \<Rightarrow> webauthn_library \<Rightarrow> relying_party option" where
  "tenantMemberWebAuthn sv wa =
     (case url_Parse sv (ConsoleOrigin sv) of
        None \<Rightarrow> None
      | Some origin \<Rightarrow>
          if up_Hostname origin = [] \<or> \<not> wa_New wa (up_Hostname origin) [ConsoleOrigin sv] then None
          else Some (up_Hostname origin, [ConsoleOrigin sv]))"

definition all_some :: "'a option list \<Rightarrow> 'a list option" where
  "all_some xs = (if list_ex (\<lambda>x. x = None) xs then None else Some (map the xs))"

definition loadTenantMemberWebUser :: "webauthn_library \<Rightarrow> call \<Rightarrow> uid \<Rightarrow> uid \<Rightarrow> string \<Rightarrow> db \<Rightarrow> tenantMemberWebUser option" where
  "loadTenantMemberWebUser wa c tenantUID memberUID kind d =
     (if ca_flt c ''load web user'' \<or> ca_flt c ''load credentials'' then None
      else (case sql_row (\<lambda>m. tm_uid m = memberUID \<and> tm_tenant_uid m = tenantUID \<and> tm_status m = ''active'') (db_members d) of
        None \<Rightarrow> None
      | Some m \<Rightarrow>
          map_option (\<lambda>ks. \<lparr>wu_UID = memberUID, wu_Email = tm_email m, wu_DisplayName = tm_display_name m, wu_Credentials = ks\<rparr>)
            (all_some (map (\<lambda>k. wa_Unmarshal wa (mw_credential_json k))
               (filter (\<lambda>k. mw_tenant_member_uid k = memberUID \<and> mw_tenant_uid k = tenantUID \<and> (kind = [] \<or> mw_credential_kind k = kind))
                 (db_member_credentials d))))))"

definition tenantMemberCredentialKind :: "string \<Rightarrow> string" where
  "tenantMemberCredentialKind mode = (if mode = ''hybrid'' then ''passkey'' else mode)"

definition fidoMode :: "string \<Rightarrow> bool \<Rightarrow> bool" where
  "fidoMode mode enrollment = (if mode = ''passkey'' \<or> mode = ''security_key'' then True else \<not> enrollment \<and> mode = ''hybrid'')"

definition fidoHint :: "string \<Rightarrow> string" where
  "fidoHint mode = (if mode = ''security_key'' then ''security-key'' else if mode = ''hybrid'' then ''hybrid'' else ''client-device'')"

definition tenantMemberEnrollmentMode :: "string \<Rightarrow> bool" where
  "tenantMemberEnrollmentMode mode \<longleftrightarrow> mode = ''passkey''"

definition insert_ceremony :: "call \<Rightarrow> member_ceremony_row \<Rightarrow> db \<Rightarrow> db option" where
  "insert_ceremony c x = stmt c ''insert ceremony'' (\<lambda>d.
     if list_ex (\<lambda>y. xr_uid y = xr_uid x) (db_member_ceremonies d) then None
     else Some (d\<lparr>db_member_ceremonies := db_member_ceremonies d @ [x]\<rparr>))"

text \<open>Store a ceremony and answer with what the browser needs.\<close>

definition store_ceremony :: "webauthn_library \<Rightarrow> call \<Rightarrow> (uid \<Rightarrow> json \<Rightarrow> member_ceremony_row) \<Rightarrow> json \<times> json \<Rightarrow> handler" where
  "store_ceremony wa c ceremony begun r d =
     (case wa_MarshalSession wa (snd begun) of
        None \<Rightarrow> (fail r 500 ''internal_error'' ''could not store WebAuthn ceremony'', d)
      | Some raw \<Rightarrow>
          let x = ceremony (ca_uid c ''ceremony'') raw in
          (case insert_ceremony c x d of
             None \<Rightarrow> (fail r 500 ''internal_error'' ''could not store WebAuthn ceremony'', d)
           | Some d' \<Rightarrow> (writeJSON 201 (JObj [(''uid'', JStr (xr_uid x)), (''expires_at'', JNum (xr_expires_at x)), (''public_key'', fst begun)]), d')))"

definition writeTenantMemberLoginCeremony ::
  "webauthn_library \<Rightarrow> call \<Rightarrow> tenantMemberLoginAttemptState \<Rightarrow> string \<Rightarrow> string \<Rightarrow> string \<Rightarrow> json \<times> json \<Rightarrow> handler" where
  "writeTenantMemberLoginCeremony wa c a ceremonyType kind name =
     store_ceremony wa c (\<lambda>uid raw.
       \<lparr>xr_uid = uid, xr_expires_at = ca_now c + tenantMemberLoginAttemptTTL, xr_login_attempt_uid = Some (as_UID a), xr_session_uid = None,
        mc_tenant_uid = as_TenantUID a, mc_tenant_member_uid = as_MemberUID a, mc_ceremony_type = ceremonyType, mc_credential_kind = kind,
        mc_credential_name = (if name = [] then None else Some name), mc_session_data = raw, mc_consumed_at = None\<rparr>)"

text \<open>The attempt of a request whose password factor is done.\<close>

definition password_done :: "server \<Rightarrow> call \<Rightarrow> http_request \<Rightarrow> db \<Rightarrow> tenantMemberLoginAttemptState option" where
  "password_done sv c r d =
     (case resolveTenantMemberLoginAttempt sv c r d of
        None \<Rightarrow> None
      | Some a \<Rightarrow> if \<not> as_PasswordVerified a \<or> as_MemberUID a = [] then None else Some a)"

definition factor_required :: "http_request \<Rightarrow> http_response" where
  "factor_required r = fail r 401 ''additional_factor_required'' ''verify the password factor first''"

definition webauthn_misconfigured :: "http_request \<Rightarrow> http_response" where
  "webauthn_misconfigured r = fail r 500 ''webauthn_configuration'' ''management WebAuthn configuration is invalid''"

definition beginTenantMemberWebAuthnLogin :: "server \<Rightarrow> webauthn_library \<Rightarrow> string option \<Rightarrow> call \<Rightarrow> handler" where
  "beginTenantMemberWebAuthnLogin sv wa body c r d =
     (case password_done sv c r d of
        None \<Rightarrow> (factor_required r, d)
      | Some a \<Rightarrow>
          (case body of
             None \<Rightarrow> (invalid_json r, d)
           | Some mode \<Rightarrow>
               if \<not> fidoMode mode False then (fail r 422 ''validation_failed'' ''mode must be passkey, security_key, or hybrid'', d)
               else (case loadTenantMemberWebUser wa c (as_TenantUID a) (as_MemberUID a) (tenantMemberCredentialKind mode) d of
                 None \<Rightarrow> (fail r 409 ''credential_setup_required'' ''no matching credential is enrolled; complete initial setup'', d)
               | Some user \<Rightarrow>
                   if wu_Credentials user = [] then (fail r 409 ''credential_setup_required'' ''no matching credential is enrolled; complete initial setup'', d)
                   else (case tenantMemberWebAuthn sv wa of
                     None \<Rightarrow> (webauthn_misconfigured r, d)
                   | Some rp \<Rightarrow>
                       (case wa_BeginLogin wa rp c user (fidoHint mode) of
                          None \<Rightarrow> (fail r 400 ''webauthn_begin_failed'' ''could not start authentication'', d)
                        | Some begun \<Rightarrow> writeTenantMemberLoginCeremony wa c a ''authentication'' mode [] begun r d)))))"

record tenantMemberCeremony =
  ce_Session :: json
  ce_TenantUID :: uid
  ce_MemberUID :: uid
  ce_LoginAttemptUID :: uid
  ce_MemberSessionUID :: uid
  ce_Kind :: string
  ce_Name :: string

definition open_ceremony :: "time \<Rightarrow> uid \<Rightarrow> string \<Rightarrow> member_ceremony_row \<Rightarrow> bool" where
  "open_ceremony now uid ceremonyType x \<longleftrightarrow> xr_uid x = uid \<and> mc_ceremony_type x = ceremonyType \<and> mc_consumed_at x = None \<and> xr_expires_at x > now"

definition text_or_empty :: "string option \<Rightarrow> string" where
  "text_or_empty x = (case x of None \<Rightarrow> [] | Some s \<Rightarrow> s)"

text \<open>\<open>UPDATE \<dots> RETURNING\<close> runs on its own: the ceremony is spent even when what follows fails.\<close>

definition consumeTenantMemberCeremony :: "server \<Rightarrow> webauthn_library \<Rightarrow> call \<Rightarrow> uid \<Rightarrow> string \<Rightarrow> db \<Rightarrow> tenantMemberCeremony option \<times> db" where
  "consumeTenantMemberCeremony sv wa c ceremonyUID ceremonyType d =
     (if \<not> uuid_ok sv ceremonyUID \<or> ca_flt c ''consume ceremony'' then (None, d)
      else (case sql_row (open_ceremony (ca_now c) ceremonyUID ceremonyType) (db_member_ceremonies d) of
        None \<Rightarrow> (None, d)
      | Some x \<Rightarrow>
          (map_option (\<lambda>session. \<lparr>ce_Session = session, ce_TenantUID = mc_tenant_uid x, ce_MemberUID = mc_tenant_member_uid x,
               ce_LoginAttemptUID = text_or_empty (xr_login_attempt_uid x), ce_MemberSessionUID = text_or_empty (xr_session_uid x),
               ce_Kind = mc_credential_kind x, ce_Name = text_or_empty (mc_credential_name x)\<rparr>) (wa_UnmarshalSession wa (mc_session_data x)),
           d\<lparr>db_member_ceremonies := sql_update (open_ceremony (ca_now c) ceremonyUID ceremonyType) (\<lambda>x. x\<lparr>mc_consumed_at := Some (ca_now c)\<rparr>)
               (db_member_ceremonies d)\<rparr>)))"

section \<open>Logging in\<close>

datatype login_error = CredentialMissing | LoginConsumed | LoginFailed

definition login_credential :: "tenantMemberLoginAttemptState \<Rightarrow> string \<Rightarrow> webauthn_credential \<Rightarrow> member_credential_row \<Rightarrow> bool" where
  "login_credential a mode credential k \<longleftrightarrow> mw_tenant_uid k = as_TenantUID a \<and> mw_tenant_member_uid k = as_MemberUID a \<and>
     mw_credential_id k = cd_ID credential \<and> mw_credential_kind k = tenantMemberCredentialKind mode"

definition touch_credential :: "time \<Rightarrow> tenantMemberLoginAttemptState \<Rightarrow> string \<Rightarrow> webauthn_credential \<Rightarrow> json \<Rightarrow> db \<Rightarrow> db" where
  "touch_credential now a mode credential raw d = d\<lparr>db_member_credentials := sql_update (login_credential a mode credential)
     (\<lambda>k. k\<lparr>mw_credential_json := raw, mw_updated_at := now, mw_last_used_at := Some now\<rparr>) (db_member_credentials d)\<rparr>"

definition consume_attempt :: "time \<Rightarrow> uid \<Rightarrow> db \<Rightarrow> db" where
  "consume_attempt now uid d = d\<lparr>db_member_login_attempts := sql_update (\<lambda>x. xr_uid x = uid \<and> open_attempt now x)
     (\<lambda>x. x\<lparr>la_consumed_at := Some now\<rparr>) (db_member_login_attempts d)\<rparr>"

definition end_bootstrap :: "time \<Rightarrow> uid \<Rightarrow> db \<Rightarrow> db" where
  "end_bootstrap now memberUID d = d\<lparr>db_member_sessions := sql_update
     (\<lambda>s. ms_tenant_member_uid s = memberUID \<and> ms_authentication_assurance s = ''bootstrap'' \<and> ms_revoked_at s = None)
     (\<lambda>s. s\<lparr>ms_revoked_at := coalesce (ms_revoked_at s) now\<rparr>) (db_member_sessions d)\<rparr>"

definition login_audit :: "call \<Rightarrow> uid \<Rightarrow> uid \<Rightarrow> string \<Rightarrow> string \<Rightarrow> uid \<Rightarrow> json \<Rightarrow> db \<Rightarrow> db option" where
  "login_audit c tenantUID memberUID action targetType target metadata = stmt c ''insert audit event'' (\<lambda>d. Some (add_audit
     \<lparr>au_uid = ca_uid c ''audit'', au_tenant_uid = tenantUID, au_project_uid = None, au_actor_type = ''tenant_member'', au_actor_uid = Some memberUID,
      au_action = action, au_target_type = targetType, au_target_uid = target, au_metadata = metadata\<rparr> d))"

text \<open>Bootstrap sessions end and a strong one starts.\<close>

definition strong_session_tx :: "server \<Rightarrow> call \<Rightarrow> tenantMemberLoginAttemptState \<Rightarrow> string \<Rightarrow> db \<Rightarrow> db option" where
  "strong_session_tx sv c a token d =
     Option.bind (stmt c ''end bootstrap sessions'' (\<lambda>d. Some (end_bootstrap (ca_now c) (as_MemberUID a) d)) d)
       (insert_member_session c (new_member_session sv c (as_MemberUID a) (as_TenantUID a) token ''strong''))"

definition completeTenantMemberWebAuthnLogin ::
  "server \<Rightarrow> webauthn_library \<Rightarrow> call \<Rightarrow> tenantMemberLoginAttemptState \<Rightarrow> string \<Rightarrow> webauthn_credential \<Rightarrow> db \<Rightarrow> login_error + string \<times> db" where
  "completeTenantMemberWebAuthnLogin sv wa c a mode credential d =
     (case (wa_Marshal wa credential, RandomToken (ca_rand c ''session token'')) of
        (Some raw, Some token) \<Rightarrow>
          if ca_flt c ''begin transaction'' \<or> ca_flt c ''use credential'' then Inl LoginFailed
          else if sql_count (login_credential a mode credential) (db_member_credentials d) \<noteq> 1 then Inl CredentialMissing
          else if ca_flt c ''consume attempt'' then Inl LoginFailed
          else if sql_count (\<lambda>x. xr_uid x = as_UID a \<and> open_attempt (ca_now c) x) (db_member_login_attempts d) \<noteq> 1 then Inl LoginConsumed
          else (case commit_tx c (Option.bind (strong_session_tx sv c a token (consume_attempt (ca_now c) (as_UID a) (touch_credential (ca_now c) a mode credential raw d)))
                  (login_audit c (as_TenantUID a) (as_MemberUID a) ''tenant_member.strongly_authenticated'' ''tenant_member'' (as_MemberUID a)
                    (JObj [(''credential_kind'', JStr mode)]))) of
                  None \<Rightarrow> Inl LoginFailed
                | Some d' \<Rightarrow> Inr (token, d'))
      | _ \<Rightarrow> Inl LoginFailed)"

definition writeStrongTenantMemberSession :: "server \<Rightarrow> call \<Rightarrow> tenantMemberLoginAttemptState \<Rightarrow> string \<Rightarrow> http_response" where
  "writeStrongTenantMemberSession sv c a token =
     (let expires = ca_now c + MemberAbsoluteTTL sv in
      setMemberCookie sv token expires (writeJSON 200 (JObj
        [(''tenant'', JObj [(''uid'', JStr (as_TenantUID a)), (''name'', JStr (as_TenantName a)), (''slug'', JStr (as_TenantSlug a))]),
         (''member'', JObj [(''uid'', JStr (as_MemberUID a)), (''email'', JStr (as_Email a)), (''display_name'', JStr (as_DisplayName a)),
            (''role'', JStr (as_Role a)), (''status'', JStr (as_Status a)), (''email_verified'', JBool (as_EmailVerified a)),
            (''created_at'', JNum (as_MemberCreatedAt a))]),
         (''authentication_assurance'', JStr ''strong''), (''expires_at'', JNum expires)])))"

record webauthnVerificationInput =
  wv_Mode :: string
  wv_CeremonyUID :: uid
  wv_Credential :: json

definition verification_failed :: "http_request \<Rightarrow> http_response" where
  "verification_failed r = fail r 400 ''webauthn_verification_failed'' ''credential verification failed''"

definition finishTenantMemberWebAuthnLogin :: "server \<Rightarrow> webauthn_library \<Rightarrow> webauthnVerificationInput option \<Rightarrow> call \<Rightarrow> handler" where
  "finishTenantMemberWebAuthnLogin sv wa body c r d =
     (case password_done sv c r d of
        None \<Rightarrow> (factor_required r, d)
      | Some a \<Rightarrow>
          (case body of
             None \<Rightarrow> (invalid_json r, d)
           | Some input \<Rightarrow>
               let mismatch = fail r 400 ''invalid_ceremony'' ''ceremony is expired, consumed, or does not match the login'' in
               (case consumeTenantMemberCeremony sv wa c (wv_CeremonyUID input) ''authentication'' d of
                  (None, d1) \<Rightarrow> (mismatch, d1)
                | (Some ceremony, d1) \<Rightarrow>
                    if ce_LoginAttemptUID ceremony \<noteq> as_UID a \<or> ce_MemberUID ceremony \<noteq> as_MemberUID a \<or> ce_Kind ceremony \<noteq> wv_Mode input then (mismatch, d1)
                    else (case loadTenantMemberWebUser wa c (as_TenantUID a) (as_MemberUID a) (tenantMemberCredentialKind (wv_Mode input)) d1 of
                      None \<Rightarrow> (verification_failed r, d1)
                    | Some user \<Rightarrow>
                        (case tenantMemberWebAuthn sv wa of
                           None \<Rightarrow> (webauthn_misconfigured r, d1)
                         | Some rp \<Rightarrow>
                             (case wa_FinishLogin wa rp (ca_now c) user (ce_Session ceremony) (wv_Credential input) of
                                None \<Rightarrow> (verification_failed r, d1)
                              | Some credential \<Rightarrow>
                                  (case completeTenantMemberWebAuthnLogin sv wa c a (wv_Mode input) credential d1 of
                                     Inl LoginFailed \<Rightarrow> (fail r 500 ''internal_error'' ''could not create management session'', d1)
                                   | Inl _ \<Rightarrow> (fail r 400 ''credential_not_found'' ''credential is not available for this login'', d1)
                                   | Inr (token, d2) \<Rightarrow> (writeStrongTenantMemberSession sv c a token, d2))))))))"

section \<open>Enrolling credentials\<close>

text \<open>The caller of a registration: the login attempt, or the principal of the session.\<close>

definition beginTenantMemberRegistration ::
  "server \<Rightarrow> webauthn_library \<Rightarrow> call \<Rightarrow> uid \<Rightarrow> uid \<Rightarrow> tenantMemberLoginAttemptState + principal \<Rightarrow> string \<Rightarrow> string \<Rightarrow> handler" where
  "beginTenantMemberRegistration sv wa c tenantUID memberUID caller name mode r d =
     (case loadTenantMemberWebUser wa c tenantUID memberUID [] d of
        None \<Rightarrow> (fail r 404 ''tenant_member_not_found'' ''Tenant Member was not found'', d)
      | Some user \<Rightarrow>
          (case tenantMemberWebAuthn sv wa of
             None \<Rightarrow> (webauthn_misconfigured r, d)
           | Some rp \<Rightarrow>
               (case wa_BeginRegistration wa rp c user (fidoHint mode) of
                  None \<Rightarrow> (fail r 422 ''webauthn_begin_failed'' ''could not start credential enrollment'', d)
                | Some begun \<Rightarrow>
                    (case caller of
                       Inl a \<Rightarrow> writeTenantMemberLoginCeremony wa c a ''registration'' mode name begun r d
                     | Inr p \<Rightarrow>
                         store_ceremony wa c (\<lambda>uid raw.
                           \<lparr>xr_uid = uid, xr_expires_at = ca_now c + tenantMemberLoginAttemptTTL, xr_login_attempt_uid = None, xr_session_uid = Some (p_SessionUID p),
                            mc_tenant_uid = p_TenantUID p, mc_tenant_member_uid = p_MemberUID p, mc_ceremony_type = ''registration'', mc_credential_kind = mode,
                            mc_credential_name = Some name, mc_session_data = raw, mc_consumed_at = None\<rparr>) begun r d))))"

definition beginInitialTenantMemberWebAuthnEnrollment :: "server \<Rightarrow> webauthn_library \<Rightarrow> string option \<Rightarrow> call \<Rightarrow> handler" where
  "beginInitialTenantMemberWebAuthnEnrollment sv wa body c r d =
     (case password_done sv c r d of
        None \<Rightarrow> (factor_required r, d)
      | Some a \<Rightarrow>
          (case body of
             None \<Rightarrow> (invalid_json r, d)
           | Some mode \<Rightarrow>
               if \<not> tenantMemberEnrollmentMode mode then (fail r 422 ''validation_failed'' ''mode must be passkey'', d)
               else if ca_flt c ''count credentials'' then (fail r 500 ''internal_error'' ''could not inspect authentication credentials'', d)
               else if credentials_of (as_MemberUID a) d \<noteq> 0 then
                 (fail r 409 ''enrollment_not_allowed'' ''initial enrollment is available only before the first credential'', d)
               else beginTenantMemberRegistration sv wa c (as_TenantUID a) (as_MemberUID a) (Inl a) ''Passkey'' mode r d))"

definition beginSessionTenantMemberWebAuthnEnrollment :: "server \<Rightarrow> webauthn_library \<Rightarrow> string option \<Rightarrow> call \<Rightarrow> handler" where
  "beginSessionTenantMemberWebAuthnEnrollment sv wa body c r d =
     (case body of
        None \<Rightarrow> (invalid_json r, d)
      | Some mode \<Rightarrow>
          let p = mustPrincipal r in
          if \<not> tenantMemberEnrollmentMode mode then (fail r 422 ''validation_failed'' ''mode must be passkey'', d)
          else if ca_flt c ''count credentials'' then (fail r 500 ''internal_error'' ''could not inspect authentication credentials'', d)
          else if credentials_of (p_MemberUID p) d \<ge> maxTenantMemberCredentials then
            (fail r 409 ''credential_limit_reached'' ''a Tenant Member may have at most 10 credentials'', d)
          else beginTenantMemberRegistration sv wa c (p_TenantUID p) (p_MemberUID p) (Inr p) (''Passkey '' @ take 8 (ca_uid c ''credential name'')) mode r d)"

text \<open>The verified credential with its ceremony, or the answer.\<close>

definition verifyTenantMemberRegistration ::
  "server \<Rightarrow> webauthn_library \<Rightarrow> webauthnVerificationInput option \<Rightarrow> call \<Rightarrow> uid \<Rightarrow> uid \<Rightarrow> uid \<Rightarrow> uid \<Rightarrow> http_request \<Rightarrow> db \<Rightarrow>
   (http_response + webauthn_credential \<times> tenantMemberCeremony) \<times> db" where
  "verifyTenantMemberRegistration sv wa body c memberUID tenantUID loginUID sessionUID r d =
     (case body of
        None \<Rightarrow> (Inl (invalid_json r), d)
      | Some input \<Rightarrow>
          let mismatch = Inl (fail r 400 ''invalid_ceremony'' ''ceremony is expired, consumed, or does not match the enrollment'') in
          (case consumeTenantMemberCeremony sv wa c (wv_CeremonyUID input) ''registration'' d of
             (None, d1) \<Rightarrow> (mismatch, d1)
           | (Some ceremony, d1) \<Rightarrow>
               if ce_MemberUID ceremony \<noteq> memberUID \<or> ce_TenantUID ceremony \<noteq> tenantUID \<or> ce_Kind ceremony \<noteq> wv_Mode input \<or>
                  ce_LoginAttemptUID ceremony \<noteq> loginUID \<or> ce_MemberSessionUID ceremony \<noteq> sessionUID \<or> \<not> tenantMemberEnrollmentMode (wv_Mode input) then
                 (mismatch, d1)
               else (case loadTenantMemberWebUser wa c tenantUID memberUID [] d1 of
                 None \<Rightarrow> (Inl (fail r 404 ''tenant_member_not_found'' ''Tenant Member was not found''), d1)
               | Some user \<Rightarrow>
                   (case tenantMemberWebAuthn sv wa of
                      None \<Rightarrow> (Inl (webauthn_misconfigured r), d1)
                    | Some rp \<Rightarrow>
                        (case wa_FinishRegistration wa rp (ca_now c) user (ce_Session ceremony) (wv_Credential input) of
                           None \<Rightarrow> (Inl (verification_failed r), d1)
                         | Some credential \<Rightarrow> (Inr (credential, ceremony), d1))))))"

definition attested :: "webauthn_credential \<Rightarrow> bool" where
  "attested credential \<longleftrightarrow> cd_AttestationType credential \<noteq> [] \<and> cd_AttestationType credential \<noteq> ''none'' \<and> cd_AttestationFormat credential \<noteq> ''none''"

definition new_member_credential :: "call \<Rightarrow> uid \<Rightarrow> uid \<Rightarrow> webauthn_credential \<Rightarrow> json \<Rightarrow> tenantMemberCeremony \<Rightarrow> member_credential_row" where
  "new_member_credential c tenantUID memberUID credential raw ceremony =
     \<lparr>mw_uid = ca_uid c ''credential'', mw_tenant_uid = tenantUID, mw_tenant_member_uid = memberUID, mw_credential_id = cd_ID credential,
      mw_credential_json = raw, mw_name = ce_Name ceremony, mw_credential_kind = ce_Kind ceremony, mw_attested = attested credential, mw_version = 1,
      mw_created_at = ca_now c, mw_updated_at = ca_now c, mw_last_used_at = None\<rparr>"

datatype credential_error = CredentialConflict | CredentialLimit | CredentialFailed

text \<open>
  The constraints of the table: the name and the kind, then the unique ids and names of a member, then the member it refers to. The lower-case form
  of a name is that of \<open>ToLower\<close>.
\<close>

definition name_taken :: "server \<Rightarrow> uid \<Rightarrow> string \<Rightarrow> (member_credential_row \<Rightarrow> bool) \<Rightarrow> db \<Rightarrow> bool" where
  "name_taken sv memberUID name other d \<longleftrightarrow> list_ex (\<lambda>k. other k \<and> mw_tenant_member_uid k = memberUID \<and>
     ToLower (lower_unicode sv) (mw_name k) = ToLower (lower_unicode sv) name) (db_member_credentials d)"

definition insert_member_credential :: "server \<Rightarrow> call \<Rightarrow> member_credential_row \<Rightarrow> db \<Rightarrow> credential_error + db" where
  "insert_member_credential sv c k d =
     (if ca_flt c ''insert credential'' \<or> rune_count (mw_name k) \<notin> {1..100} \<or> mw_credential_kind k \<notin> {''passkey'', ''security_key''} then Inl CredentialFailed
      else if list_ex (\<lambda>x. mw_uid x = mw_uid k \<or> mw_credential_id x = mw_credential_id k) (db_member_credentials d) \<or>
              name_taken sv (mw_tenant_member_uid k) (mw_name k) (\<lambda>_. True) d then Inl CredentialConflict
      else if \<not> list_ex (\<lambda>m. tm_uid m = mw_tenant_member_uid k) (db_members d) then Inl CredentialFailed
      else Inr (d\<lparr>db_member_credentials := db_member_credentials d @ [k]\<rparr>))"

definition created_metadata :: "string \<Rightarrow> bool \<Rightarrow> json" where
  "created_metadata kind initial = JObj [(''credential_kind'', JStr kind), (''initial'', JBool initial)]"

text \<open>The number of rows the attempt's update affects is not looked at.\<close>

definition persistInitialTenantMemberCredentialAndSession ::
  "server \<Rightarrow> webauthn_library \<Rightarrow> call \<Rightarrow> tenantMemberLoginAttemptState \<Rightarrow> tenantMemberCeremony \<Rightarrow> webauthn_credential \<Rightarrow> db \<Rightarrow> credential_error + string \<times> db" where
  "persistInitialTenantMemberCredentialAndSession sv wa c a ceremony credential d =
     (case (wa_Marshal wa credential, RandomToken (ca_rand c ''session token'')) of
        (Some raw, Some token) \<Rightarrow>
          if ca_flt c ''begin transaction'' \<or> ca_flt c ''lock member'' \<or> ca_flt c ''count credentials'' then Inl CredentialFailed
          else if credentials_of (as_MemberUID a) d \<noteq> 0 then Inl CredentialConflict
          else (case insert_member_credential sv c (new_member_credential c (as_TenantUID a) (as_MemberUID a) credential raw ceremony) d of
            Inl e \<Rightarrow> Inl e
          | Inr d1 \<Rightarrow>
              (case commit_tx c (Option.bind (stmt c ''consume attempt'' (\<lambda>d. Some (consume_attempt (ca_now c) (as_UID a) d)) d1) (\<lambda>d.
                      Option.bind (strong_session_tx sv c a token d)
                        (login_audit c (as_TenantUID a) (as_MemberUID a) ''tenant_member.webauthn_credential.created'' ''tenant_member_webauthn_credential''
                          (ca_uid c ''credential'') (created_metadata (ce_Kind ceremony) True)))) of
                 None \<Rightarrow> Inl CredentialFailed
               | Some d' \<Rightarrow> Inr (token, d')))
      | _ \<Rightarrow> Inl CredentialFailed)"

definition finishInitialTenantMemberWebAuthnEnrollment :: "server \<Rightarrow> webauthn_library \<Rightarrow> webauthnVerificationInput option \<Rightarrow> call \<Rightarrow> handler" where
  "finishInitialTenantMemberWebAuthnEnrollment sv wa body c r d =
     (case password_done sv c r d of
        None \<Rightarrow> (factor_required r, d)
      | Some a \<Rightarrow>
          (case verifyTenantMemberRegistration sv wa body c (as_MemberUID a) (as_TenantUID a) (as_UID a) [] r d of
             (Inl w, d1) \<Rightarrow> (w, d1)
           | (Inr (credential, ceremony), d1) \<Rightarrow>
               (case persistInitialTenantMemberCredentialAndSession sv wa c a ceremony credential d1 of
                  Inl CredentialConflict \<Rightarrow> (fail r 409 ''credential_exists'' ''an initial credential is already registered'', d1)
                | Inl _ \<Rightarrow> (fail r 500 ''internal_error'' ''could not save authentication credential'', d1)
                | Inr (token, d2) \<Rightarrow> (writeStrongTenantMemberSession sv c a token, d2))))"

definition tenantMemberCredentialAAGUID :: "webauthn_credential \<Rightarrow> string" where
  "tenantMemberCredentialAAGUID credential =
     (let b = (if length (cd_AAGUID credential) \<noteq> 16 then replicate 16 0 else cd_AAGUID credential); h = (\<lambda>i j. hex_EncodeToString (take (j - i) (drop i b))) in
      h 0 4 @ ''-'' @ h 4 6 @ ''-'' @ h 6 8 @ ''-'' @ h 8 10 @ ''-'' @ h 10 16)"

definition passkey_json :: "webauthn_credential \<Rightarrow> member_credential_row \<Rightarrow> json" where
  "passkey_json credential k = JObj ([(''uid'', JStr (mw_uid k)), (''name'', JStr (mw_name k)), (''aaguid'', JStr (tenantMemberCredentialAAGUID credential)),
     (''kind'', JStr (mw_credential_kind k)), (''attested'', JBool (mw_attested k)), (''version'', JNum (mw_version k)),
     (''created_at'', JNum (mw_created_at k)), (''updated_at'', JNum (mw_updated_at k))] @
     (case mw_last_used_at k of None \<Rightarrow> [] | Some t \<Rightarrow> [(''last_used_at'', JNum t)]))"

definition strengthen_session :: "principal \<Rightarrow> db \<Rightarrow> db" where
  "strengthen_session p d = d\<lparr>db_member_sessions := sql_update
     (\<lambda>s. ms_uid s = p_SessionUID p \<and> ms_tenant_member_uid s = p_MemberUID p \<and> ms_tenant_uid s = p_TenantUID p)
     (\<lambda>s. s\<lparr>ms_authentication_assurance := ''strong''\<rparr>) (db_member_sessions d)\<rparr>"

definition persistSessionTenantMemberCredential ::
  "server \<Rightarrow> webauthn_library \<Rightarrow> call \<Rightarrow> principal \<Rightarrow> tenantMemberCeremony \<Rightarrow> webauthn_credential \<Rightarrow> db \<Rightarrow> credential_error + member_credential_row \<times> db" where
  "persistSessionTenantMemberCredential sv wa c p ceremony credential d =
     (case wa_Marshal wa credential of
        None \<Rightarrow> Inl CredentialFailed
      | Some raw \<Rightarrow>
          let k = new_member_credential c (p_TenantUID p) (p_MemberUID p) credential raw ceremony in
          if ca_flt c ''begin transaction'' \<or> ca_flt c ''lock member'' \<or> ca_flt c ''count credentials'' then Inl CredentialFailed
          else if credentials_of (p_MemberUID p) d \<ge> maxTenantMemberCredentials then Inl CredentialLimit
          else (case insert_member_credential sv c k d of
            Inl e \<Rightarrow> Inl e
          | Inr d1 \<Rightarrow>
              (case commit_tx c (Option.bind (stmt c ''strengthen session'' (\<lambda>d. Some (strengthen_session p d)) d1)
                      (login_audit c (p_TenantUID p) (p_MemberUID p) ''tenant_member.webauthn_credential.created'' ''tenant_member_webauthn_credential'' (mw_uid k)
                        (created_metadata (mw_credential_kind k) (credentials_of (p_MemberUID p) d = 0)))) of
                 None \<Rightarrow> Inl CredentialFailed
               | Some d' \<Rightarrow> Inr (k, d'))))"

definition finishSessionTenantMemberWebAuthnEnrollment :: "server \<Rightarrow> webauthn_library \<Rightarrow> webauthnVerificationInput option \<Rightarrow> call \<Rightarrow> handler" where
  "finishSessionTenantMemberWebAuthnEnrollment sv wa body c r d =
     (let p = mustPrincipal r in
      case verifyTenantMemberRegistration sv wa body c (p_MemberUID p) (p_TenantUID p) [] (p_SessionUID p) r d of
        (Inl w, d1) \<Rightarrow> (w, d1)
      | (Inr (credential, ceremony), d1) \<Rightarrow>
          (case persistSessionTenantMemberCredential sv wa c p ceremony credential d1 of
             Inl CredentialLimit \<Rightarrow> (fail r 409 ''credential_limit_reached'' ''a Tenant Member may have at most 10 credentials'', d1)
           | Inl CredentialConflict \<Rightarrow> (fail r 409 ''credential_exists'' ''credential name or authenticator is already registered'', d1)
           | Inl CredentialFailed \<Rightarrow> (fail r 500 ''internal_error'' ''could not save authentication credential'', d1)
           | Inr (k, d2) \<Rightarrow> (setVersionETag (mw_version k) (writeJSON 201 (passkey_json credential k)), d2)))"

section \<open>Managing credentials\<close>

definition listTenantMemberWebAuthnCredentials :: "webauthn_library \<Rightarrow> call \<Rightarrow> handler" where
  "listTenantMemberWebAuthnCredentials wa c r d =
     (let p = mustPrincipal r;
          rows = newest_first (\<lambda>k. (mw_created_at k, mw_uid k))
            (filter (\<lambda>k. mw_tenant_uid k = p_TenantUID p \<and> mw_tenant_member_uid k = p_MemberUID p) (db_member_credentials d)) in
      case (if ca_flt c ''list credentials'' then None
            else all_some (map (\<lambda>k. map_option (\<lambda>credential. passkey_json credential k) (wa_Unmarshal wa (mw_credential_json k))) rows)) of
        None \<Rightarrow> (fail r 500 ''internal_error'' ''could not load authentication credentials'', d)
      | Some items \<Rightarrow> (writeJSON 200 (JObj [(''items'', JArr items)]), d))"

definition own_credential :: "principal \<Rightarrow> uid \<Rightarrow> member_credential_row \<Rightarrow> bool" where
  "own_credential p uid k \<longleftrightarrow> mw_uid k = uid \<and> mw_tenant_uid k = p_TenantUID p \<and> mw_tenant_member_uid k = p_MemberUID p"

definition credential_changed :: "int \<Rightarrow> http_request \<Rightarrow> http_response" where
  "credential_changed version r = setVersionETag version (fail r 412 ''version_conflict'' ''credential changed; retrieve its latest representation'')"

definition rename_row :: "time \<Rightarrow> string \<Rightarrow> member_credential_row \<Rightarrow> member_credential_row" where
  "rename_row now name k = k\<lparr>mw_name := name, mw_version := mw_version k + 1, mw_updated_at := now\<rparr>"

text \<open>A failing query for the current version is answered as a conflict with version 0.\<close>

definition updateTenantMemberWebAuthnCredential :: "server \<Rightarrow> webauthn_library \<Rightarrow> string option \<Rightarrow> call \<Rightarrow> handler" where
  "updateTenantMemberWebAuthnCredential sv wa body c r d =
     (case requireIfMatch r of
        Inl w \<Rightarrow> (w, d)
      | Inr version \<Rightarrow>
          (case body of
             None \<Rightarrow> (invalid_json r, d)
           | Some raw \<Rightarrow>
               let name = TrimSpace raw; p = mustPrincipal r; uid = hq_path r ''credential_uid'';
                   hit = (\<lambda>k. own_credential p uid k \<and> mw_version k = version) in
               if length name < 1 \<or> length name > 100 then (fail r 422 ''validation_failed'' ''name must contain between 1 and 100 characters'', d)
               else if ca_flt c ''rename credential'' \<or> \<not> uuid_ok sv uid then (fail r 500 ''internal_error'' ''could not update authentication credential'', d)
               else if sql_count hit (db_member_credentials d) \<noteq> 1 then
                 (case query_row sv c ''load version'' [uid] (own_credential p uid) (db_member_credentials d) of
                    NoRows \<Rightarrow> (fail r 404 ''webauthn_credential_not_found'' ''WebAuthn credential was not found'', d)
                  | QueryError \<Rightarrow> (credential_changed 0 r, d)
                  | Row k \<Rightarrow> (credential_changed (mw_version k) r, d))
               else if \<not> bigint_ok (version + 1) then (fail r 500 ''internal_error'' ''could not update authentication credential'', d)
               else if name_taken sv (p_MemberUID p) name (\<lambda>k. mw_uid k \<noteq> uid) d then
                 (fail r 409 ''credential_name_exists'' ''another credential already uses this name'', d)
               else let d1 = d\<lparr>db_member_credentials := sql_update hit (rename_row (ca_now c) name) (db_member_credentials d)\<rparr> in
                 (case (case query_row sv c ''load credential'' [uid] (\<lambda>k. mw_uid k = uid) (db_member_credentials d1) of
                          Row k \<Rightarrow> map_option (\<lambda>credential. (credential, k)) (wa_Unmarshal wa (mw_credential_json k))
                        | _ \<Rightarrow> None) of
                    None \<Rightarrow> (fail r 500 ''internal_error'' ''could not load authentication credential'', d1)
                  | Some (credential, k) \<Rightarrow>
                      (setVersionETag (mw_version k) (writeJSON 200 (passkey_json credential k)),
                       audit_event c (p_TenantUID p) [] ''tenant_member'' (p_MemberUID p) ''tenant_member.webauthn_credential.updated''
                         ''tenant_member_webauthn_credential'' (mw_uid k) (JObj []) d1))))"

definition end_other_sessions :: "time \<Rightarrow> principal \<Rightarrow> db \<Rightarrow> db" where
  "end_other_sessions now p d = d\<lparr>db_member_sessions := sql_update
     (\<lambda>s. ms_tenant_member_uid s = p_MemberUID p \<and> ms_uid s \<noteq> p_SessionUID p \<and> ms_revoked_at s = None)
     (\<lambda>s. s\<lparr>ms_revoked_at := coalesce (ms_revoked_at s) now\<rparr>) (db_member_sessions d)\<rparr>"

definition delete_credential_tx :: "call \<Rightarrow> principal \<Rightarrow> uid \<Rightarrow> db \<Rightarrow> db option" where
  "delete_credential_tx c p uid d =
     Option.bind (stmt c ''delete credential'' (\<lambda>d.
         if sql_count (own_credential p uid) (db_member_credentials d) \<noteq> 1 then None
         else Some (d\<lparr>db_member_credentials := sql_delete (own_credential p uid) (db_member_credentials d)\<rparr>)) d) (\<lambda>d.
     Option.bind (stmt c ''end other sessions'' (\<lambda>d. Some (end_other_sessions (ca_now c) p d)) d)
       (login_audit c (p_TenantUID p) (p_MemberUID p) ''tenant_member.webauthn_credential.deleted'' ''tenant_member_webauthn_credential'' uid (JObj [])))"

definition deleteTenantMemberWebAuthnCredential :: "server \<Rightarrow> call \<Rightarrow> handler" where
  "deleteTenantMemberWebAuthnCredential sv c r d =
     (case requireIfMatch r of
        Inl w \<Rightarrow> (w, d)
      | Inr version \<Rightarrow>
          let p = mustPrincipal r; uid = hq_path r ''credential_uid''; failed = (fail r 500 ''internal_error'' ''could not remove authentication credential'', d) in
          if ca_flt c ''begin transaction'' \<or> ca_flt c ''lock member'' then failed
          else (case query_row sv c ''load version'' [uid] (own_credential p uid) (db_member_credentials d) of
            NoRows \<Rightarrow> (fail r 404 ''webauthn_credential_not_found'' ''WebAuthn credential was not found'', d)
          | QueryError \<Rightarrow> failed
          | Row k \<Rightarrow>
              if mw_version k \<noteq> version then (credential_changed (mw_version k) r, d)
              else if ca_flt c ''count credentials'' then failed
              else if credentials_of (p_MemberUID p) d \<le> 1 then
                (fail r 409 ''last_credential'' ''the final authentication credential cannot be removed; enroll a replacement first'', d)
              else (case commit_tx c (delete_credential_tx c p uid d) of
                None \<Rightarrow> failed
              | Some d' \<Rightarrow> (no_content 204, d'))))"


section \<open>What a login does to the tables\<close>

lemma takeRateLimit_only_buckets: "takeRateLimit sv c r p k l w d = (x, d') \<Longrightarrow> \<exists>b. d' = d\<lparr>db_buckets := b\<rparr>"
  by (auto simp: takeRateLimit_def split: prod.splits sum.splits if_splits)

lemma takeRateLimit_not_ok: "takeRateLimit sv c r p k l w d = (Some v, d1) \<Longrightarrow> hs_status v \<noteq> 200"
  by (auto simp: takeRateLimit_def with_header_def fail_def writeJSON_def split: prod.splits sum.splits if_splits)

lemma login_audit_tables [simp]:
  assumes "login_audit c tenantUID memberUID action kind target metadata d = Some d'"
  shows "db_members d' = db_members d" "db_member_sessions d' = db_member_sessions d" "db_member_login_attempts d' = db_member_login_attempts d"
    "db_member_credentials d' = db_member_credentials d" "db_member_ceremonies d' = db_member_ceremonies d"
  using assms by (auto simp: login_audit_def stmt_def add_audit_def split: if_splits)

lemma strong_session_tx_tables:
  assumes "strong_session_tx sv c a token d = Some d'"
  shows "db_member_sessions d' = db_member_sessions (end_bootstrap (ca_now c) (as_MemberUID a) d) @
      [new_member_session sv c (as_MemberUID a) (as_TenantUID a) token ''strong'']"
    "db_member_login_attempts d' = db_member_login_attempts d" "db_member_credentials d' = db_member_credentials d"
    "db_member_ceremonies d' = db_member_ceremonies d" "db_members d' = db_members d"
  using assms by (auto simp: strong_session_tx_def insert_member_session_def end_bootstrap_def stmt_def bind_eq_Some_conv split: if_splits)

text \<open>The attempt a request presents: open, with the secret of the header.\<close>

definition presented :: "server \<Rightarrow> call \<Rightarrow> http_request \<Rightarrow> member_attempt_row \<Rightarrow> bool" where
  "presented sv c r a \<longleftrightarrow> xr_uid a = hq_path r ''login_attempt_uid'' \<and>
     la_client_secret_hash a = SessionHash_of sv (hq_header r ''X-ComplicatedAuth-Login-Secret'') \<and> open_attempt (ca_now c) a"

lemma attempt_stateD:
  assumes "attempt_state d a = Some s" "as_MemberUID s \<noteq> []"
  shows "as_UID s = xr_uid a" "la_tenant_member_uid a = Some (as_MemberUID s)" "as_PasswordVerified s = (la_password_verified_at a \<noteq> None)"
  using assms by (auto simp: attempt_state_def Let_def split: option.splits)

lemma password_doneD:
  assumes "password_done sv c r d = Some s"
  obtains a where "a \<in> set (db_member_login_attempts d)" "presented sv c r a" "la_password_verified_at a \<noteq> None"
    "la_tenant_member_uid a = Some (as_MemberUID s)" "as_UID s = xr_uid a"
proof -
  have "\<exists>a. a \<in> set (db_member_login_attempts d) \<and> presented sv c r a \<and> attempt_state d a = Some s \<and> as_PasswordVerified s \<and> as_MemberUID s \<noteq> []"
    using assms by (auto simp: password_done_def resolveTenantMemberLoginAttempt_def Let_def presented_def split: option.splits if_splits dest!: sql_row_SomeD)
  then show thesis using that attempt_stateD by metis
qed

lemma consume_ceremony_cases:
  assumes "consumeTenantMemberCeremony sv wa c u kind d = (x, d')"
  obtains (none) "x = None" "d' = d"
  | (spent) y where "y \<in> set (db_member_ceremonies d)" "open_ceremony (ca_now c) u kind y"
      "d' = d\<lparr>db_member_ceremonies := sql_update (open_ceremony (ca_now c) u kind) (\<lambda>x. x\<lparr>mc_consumed_at := Some (ca_now c)\<rparr>) (db_member_ceremonies d)\<rparr>"
      "\<And>ceremony. x = Some ceremony \<Longrightarrow> wa_UnmarshalSession wa (mc_session_data y) = Some (ce_Session ceremony) \<and> ce_MemberUID ceremony = mc_tenant_member_uid y \<and>
         ce_TenantUID ceremony = mc_tenant_uid y \<and> ce_LoginAttemptUID ceremony = text_or_empty (xr_login_attempt_uid y) \<and> ce_Kind ceremony = mc_credential_kind y"
proof (cases "\<not> uuid_ok sv u \<or> ca_flt c ''consume ceremony'' \<or> sql_row (open_ceremony (ca_now c) u kind) (db_member_ceremonies d) = None")
  case True
  then show thesis using assms none by (auto simp: consumeTenantMemberCeremony_def split: if_splits)
next
  case False
  then obtain y where y: "sql_row (open_ceremony (ca_now c) u kind) (db_member_ceremonies d) = Some y" by auto
  show thesis
  proof (rule spent [of y])
    show "y \<in> set (db_member_ceremonies d)" "open_ceremony (ca_now c) u kind y" using sql_row_SomeD [OF y] by simp_all
  qed (use assms False y in \<open>auto simp: consumeTenantMemberCeremony_def\<close>)
qed

lemma same_ceremonies: "d' = d \<Longrightarrow> \<exists>t. d' = d\<lparr>db_member_ceremonies := t\<rparr>"
  by (rule exI [of _ "db_member_ceremonies d"]) simp

lemma consume_ceremony_tables:
  assumes "consumeTenantMemberCeremony sv wa c u kind d = (x, d')"
  shows "\<exists>t. d' = d\<lparr>db_member_ceremonies := t\<rparr>"
  using assms by (cases rule: consume_ceremony_cases) (auto intro: exI [of _ "db_member_ceremonies d"])

lemma complete_login_effect:
  assumes "completeTenantMemberWebAuthnLogin sv wa c a mode credential d = Inr (token, d')"
  shows "list_ex (login_credential a mode credential) (db_member_credentials d)"
    and "db_member_sessions d' = db_member_sessions (end_bootstrap (ca_now c) (as_MemberUID a) d) @
      [new_member_session sv c (as_MemberUID a) (as_TenantUID a) token ''strong'']"
    and "db_member_login_attempts d' = db_member_login_attempts (consume_attempt (ca_now c) (as_UID a) d)"
    and "map mw_tenant_member_uid (db_member_credentials d') = map mw_tenant_member_uid (db_member_credentials d)"
    and "db_member_ceremonies d' = db_member_ceremonies d"
proof -
  obtain raw e where count: "sql_count (login_credential a mode credential) (db_member_credentials d) = 1"
    and tx: "strong_session_tx sv c a token (consume_attempt (ca_now c) (as_UID a) (touch_credential (ca_now c) a mode credential raw d)) = Some e"
    and audit: "login_audit c (as_TenantUID a) (as_MemberUID a) ''tenant_member.strongly_authenticated'' ''tenant_member'' (as_MemberUID a)
      (JObj [(''credential_kind'', JStr mode)]) e = Some d'"
    using assms by (auto simp: completeTenantMemberWebAuthnLogin_def bind_eq_Some_conv split: option.splits if_splits)
  note tables = strong_session_tx_tables [OF tx] login_audit_tables [OF audit]
  show "list_ex (login_credential a mode credential) (db_member_credentials d)"
    using count sql_count_0_iff [of "login_credential a mode credential" "db_member_credentials d"] by (auto simp: list_ex_iff)
  show "db_member_sessions d' = db_member_sessions (end_bootstrap (ca_now c) (as_MemberUID a) d) @
      [new_member_session sv c (as_MemberUID a) (as_TenantUID a) token ''strong'']"
    using tables by (simp add: end_bootstrap_def consume_attempt_def touch_credential_def)
  show "db_member_login_attempts d' = db_member_login_attempts (consume_attempt (ca_now c) (as_UID a) d)"
    using tables by (simp add: consume_attempt_def touch_credential_def)
  show "map mw_tenant_member_uid (db_member_credentials d') = map mw_tenant_member_uid (db_member_credentials d)"
    using tables by (simp add: consume_attempt_def touch_credential_def map_key_update)
  show "db_member_ceremonies d' = db_member_ceremonies d" using tables by (simp add: consume_attempt_def touch_credential_def)
qed

lemma insert_member_credential_Inr:
  "insert_member_credential sv c k d = Inr d' \<Longrightarrow> d' = d\<lparr>db_member_credentials := db_member_credentials d @ [k]\<rparr>"
  by (auto simp: insert_member_credential_def split: if_splits)

lemma persist_initial_effect:
  assumes "persistInitialTenantMemberCredentialAndSession sv wa c a ceremony credential d = Inr (token, d')"
  shows "credentials_of (as_MemberUID a) d = 0"
    and "\<exists>k. db_member_credentials d' = db_member_credentials d @ [k] \<and> mw_tenant_member_uid k = as_MemberUID a \<and> mw_credential_id k = cd_ID credential"
    and "db_member_sessions d' = db_member_sessions (end_bootstrap (ca_now c) (as_MemberUID a) d) @
      [new_member_session sv c (as_MemberUID a) (as_TenantUID a) token ''strong'']"
    and "db_member_login_attempts d' = db_member_login_attempts (consume_attempt (ca_now c) (as_UID a) d)"
    and "db_member_ceremonies d' = db_member_ceremonies d"
proof -
  obtain raw d1 e where none: "credentials_of (as_MemberUID a) d = 0"
    and ins: "insert_member_credential sv c (new_member_credential c (as_TenantUID a) (as_MemberUID a) credential raw ceremony) d = Inr d1"
    and tx: "strong_session_tx sv c a token (consume_attempt (ca_now c) (as_UID a) d1) = Some e"
    and audit: "login_audit c (as_TenantUID a) (as_MemberUID a) ''tenant_member.webauthn_credential.created'' ''tenant_member_webauthn_credential''
      (ca_uid c ''credential'') (created_metadata (ce_Kind ceremony) True) e = Some d'"
    using assms by (auto simp: persistInitialTenantMemberCredentialAndSession_def stmt_def bind_eq_Some_conv split: option.splits if_splits sum.splits)
  note tables = strong_session_tx_tables [OF tx] login_audit_tables [OF audit] insert_member_credential_Inr [OF ins]
  show "credentials_of (as_MemberUID a) d = 0" by (rule none)
  have "db_member_credentials d' = db_member_credentials d @ [new_member_credential c (as_TenantUID a) (as_MemberUID a) credential raw ceremony]"
    using tables by (simp add: consume_attempt_def)
  then show "\<exists>k. db_member_credentials d' = db_member_credentials d @ [k] \<and> mw_tenant_member_uid k = as_MemberUID a \<and> mw_credential_id k = cd_ID credential"
    by (simp add: new_member_credential_def)
  show "db_member_sessions d' = db_member_sessions (end_bootstrap (ca_now c) (as_MemberUID a) d) @
      [new_member_session sv c (as_MemberUID a) (as_TenantUID a) token ''strong'']"
    using tables by (simp add: end_bootstrap_def consume_attempt_def)
  show "db_member_login_attempts d' = db_member_login_attempts (consume_attempt (ca_now c) (as_UID a) d)" using tables by (simp add: consume_attempt_def)
  show "db_member_ceremonies d' = db_member_ceremonies d" using tables by (simp add: consume_attempt_def)
qed

lemma persist_session_effect:
  assumes "persistSessionTenantMemberCredential sv wa c p ceremony credential d = Inr (k, d')"
  shows "credentials_of (p_MemberUID p) d < maxTenantMemberCredentials" "db_member_credentials d' = db_member_credentials d @ [k]"
    "mw_tenant_member_uid k = p_MemberUID p" "db_member_login_attempts d' = db_member_login_attempts d"
    "db_member_sessions d' = db_member_sessions (strengthen_session p d)"
proof -
  obtain raw d1 where few: "credentials_of (p_MemberUID p) d < maxTenantMemberCredentials" and k: "k = new_member_credential c (p_TenantUID p) (p_MemberUID p) credential raw ceremony"
    and ins: "insert_member_credential sv c k d = Inr d1"
    and audit: "login_audit c (p_TenantUID p) (p_MemberUID p) ''tenant_member.webauthn_credential.created'' ''tenant_member_webauthn_credential'' (mw_uid k)
      (created_metadata (mw_credential_kind k) (credentials_of (p_MemberUID p) d = 0)) (strengthen_session p d1) = Some d'"
    using assms by (auto simp: persistSessionTenantMemberCredential_def stmt_def bind_eq_Some_conv Let_def split: option.splits if_splits sum.splits)
  note tables = login_audit_tables [OF audit] insert_member_credential_Inr [OF ins]
  show "credentials_of (p_MemberUID p) d < maxTenantMemberCredentials" by (rule few)
  show "db_member_credentials d' = db_member_credentials d @ [k]" "mw_tenant_member_uid k = p_MemberUID p" "db_member_login_attempts d' = db_member_login_attempts d"
    "db_member_sessions d' = db_member_sessions (strengthen_session p d)"
    using tables by (simp_all add: strengthen_session_def k new_member_credential_def)
qed

lemma fail_status: "hs_status (fail r n code detail) = n"
  by (simp add: fail_def writeJSON_def)

lemmas refusals = fail_status factor_required_def webauthn_misconfigured_def verification_failed_def invalid_json_def

lemma strong_session_status [simp]: "hs_status (writeStrongTenantMemberSession sv c a token) = 200"
  by (simp add: writeStrongTenantMemberSession_def Let_def writeJSON_def)

text \<open>A login that does not succeed spends a ceremony at most.\<close>

lemma finish_login_cases:
  assumes "finishTenantMemberWebAuthnLogin sv wa body c r d = (w, d')"
  obtains (refused) t where "d' = d\<lparr>db_member_ceremonies := t\<rparr>" "hs_status w \<noteq> 200"
  | (done_) input a ceremony rp user credential token d1 where "body = Some input" "password_done sv c r d = Some a"
      "consumeTenantMemberCeremony sv wa c (wv_CeremonyUID input) ''authentication'' d = (Some ceremony, d1)"
      "ce_LoginAttemptUID ceremony = as_UID a" "ce_MemberUID ceremony = as_MemberUID a"
      "loadTenantMemberWebUser wa c (as_TenantUID a) (as_MemberUID a) (tenantMemberCredentialKind (wv_Mode input)) d1 = Some user"
      "tenantMemberWebAuthn sv wa = Some rp" "wa_FinishLogin wa rp (ca_now c) user (ce_Session ceremony) (wv_Credential input) = Some credential"
      "completeTenantMemberWebAuthnLogin sv wa c a (wv_Mode input) credential d1 = Inr (token, d')" "hs_status w = 200"
proof -
  have "(\<exists>t. d' = d\<lparr>db_member_ceremonies := t\<rparr>) \<and> hs_status w \<noteq> 200 \<or> (\<exists>input a ceremony rp user credential token d1. body = Some input \<and>
      password_done sv c r d = Some a \<and> consumeTenantMemberCeremony sv wa c (wv_CeremonyUID input) ''authentication'' d = (Some ceremony, d1) \<and>
      ce_LoginAttemptUID ceremony = as_UID a \<and> ce_MemberUID ceremony = as_MemberUID a \<and>
      loadTenantMemberWebUser wa c (as_TenantUID a) (as_MemberUID a) (tenantMemberCredentialKind (wv_Mode input)) d1 = Some user \<and>
      tenantMemberWebAuthn sv wa = Some rp \<and> wa_FinishLogin wa rp (ca_now c) user (ce_Session ceremony) (wv_Credential input) = Some credential \<and>
      completeTenantMemberWebAuthnLogin sv wa c a (wv_Mode input) credential d1 = Inr (token, d') \<and> hs_status w = 200)" (is "?refused \<or> ?done")
  proof (cases "password_done sv c r d = None \<or> body = None")
    case True
    then have "d' = d \<and> hs_status w \<noteq> 200" using assms by (auto simp: finishTenantMemberWebAuthnLogin_def refusals split: option.splits)
    then show ?thesis using same_ceremonies by blast
  next
    case False
    then obtain a input where a: "password_done sv c r d = Some a" and body: "body = Some input" by auto
    obtain x d1 where ce: "consumeTenantMemberCeremony sv wa c (wv_CeremonyUID input) ''authentication'' d = (x, d1)" by fastforce
    obtain t where t: "d1 = d\<lparr>db_member_ceremonies := t\<rparr>" using consume_ceremony_tables [OF ce] by blast
    have "d' = d1 \<and> hs_status w \<noteq> 200 \<or> ?done"
      using assms unfolding finishTenantMemberWebAuthnLogin_def a body Let_def option.case ce
      by (auto simp: refusals ce split: option.splits if_split_asm sum.splits login_error.splits)
    then show ?thesis using t by blast
  qed
  then show thesis using refused done_ by blast
qed


lemma verify_registration_cases:
  assumes "verifyTenantMemberRegistration sv wa body c m tn l s r d = (x, d')"
  shows "\<exists>t. d' = d\<lparr>db_member_ceremonies := t\<rparr>" and "x = Inl w \<Longrightarrow> hs_status w \<noteq> 200"
    and "x = Inr (credential, ceremony) \<Longrightarrow> \<exists>input user rp. body = Some input \<and>
      consumeTenantMemberCeremony sv wa c (wv_CeremonyUID input) ''registration'' d = (Some ceremony, d') \<and> ce_LoginAttemptUID ceremony = l \<and> ce_MemberUID ceremony = m \<and>
      tenantMemberWebAuthn sv wa = Some rp \<and> wa_FinishRegistration wa rp (ca_now c) user (ce_Session ceremony) (wv_Credential input) = Some credential"
proof -
  have "(\<exists>t. d' = d\<lparr>db_member_ceremonies := t\<rparr>) \<and> (\<forall>w. x = Inl w \<longrightarrow> hs_status w \<noteq> 200) \<and>
     (\<forall>credential ceremony. x = Inr (credential, ceremony) \<longrightarrow> (\<exists>input user rp. body = Some input \<and>
      consumeTenantMemberCeremony sv wa c (wv_CeremonyUID input) ''registration'' d = (Some ceremony, d') \<and> ce_LoginAttemptUID ceremony = l \<and> ce_MemberUID ceremony = m \<and>
      tenantMemberWebAuthn sv wa = Some rp \<and> wa_FinishRegistration wa rp (ca_now c) user (ce_Session ceremony) (wv_Credential input) = Some credential))"
  proof (cases body)
    case None
    then have "d' = d" "x = Inl (invalid_json r)" using assms by (simp_all add: verifyTenantMemberRegistration_def)
    then show ?thesis by (intro conjI same_ceremonies) (simp_all add: refusals)
  next
    case (Some input)
    obtain y d1 where ce: "consumeTenantMemberCeremony sv wa c (wv_CeremonyUID input) ''registration'' d = (y, d1)" by fastforce
    have "d' = d1 \<and> (\<forall>w. x = Inl w \<longrightarrow> hs_status w \<noteq> 200) \<and> (\<forall>credential ceremony. x = Inr (credential, ceremony) \<longrightarrow> (\<exists>user rp. y = Some ceremony \<and>
        ce_LoginAttemptUID ceremony = l \<and> ce_MemberUID ceremony = m \<and>
        tenantMemberWebAuthn sv wa = Some rp \<and> wa_FinishRegistration wa rp (ca_now c) user (ce_Session ceremony) (wv_Credential input) = Some credential))"
      using assms unfolding verifyTenantMemberRegistration_def Some Let_def option.case ce
      by (auto simp: refusals split: option.splits if_split_asm)
    then show ?thesis using consume_ceremony_tables [OF ce] ce Some by auto
  qed
  then show "\<exists>t. d' = d\<lparr>db_member_ceremonies := t\<rparr>" "x = Inl w \<Longrightarrow> hs_status w \<noteq> 200"
    "x = Inr (credential, ceremony) \<Longrightarrow> \<exists>input user rp. body = Some input \<and>
      consumeTenantMemberCeremony sv wa c (wv_CeremonyUID input) ''registration'' d = (Some ceremony, d') \<and> ce_LoginAttemptUID ceremony = l \<and> ce_MemberUID ceremony = m \<and>
      tenantMemberWebAuthn sv wa = Some rp \<and> wa_FinishRegistration wa rp (ca_now c) user (ce_Session ceremony) (wv_Credential input) = Some credential"
    by blast+
qed

lemma finish_initial_cases:
  assumes "finishInitialTenantMemberWebAuthnEnrollment sv wa body c r d = (w, d')"
  obtains (refused) t where "d' = d\<lparr>db_member_ceremonies := t\<rparr>" "hs_status w \<noteq> 200"
  | (enrolled) a credential ceremony token d1 where "password_done sv c r d = Some a"
      "verifyTenantMemberRegistration sv wa body c (as_MemberUID a) (as_TenantUID a) (as_UID a) [] r d = (Inr (credential, ceremony), d1)"
      "persistInitialTenantMemberCredentialAndSession sv wa c a ceremony credential d1 = Inr (token, d')"
proof (cases "password_done sv c r d")
  case None
  then have "d' = d" "hs_status w \<noteq> 200" using assms by (auto simp: finishInitialTenantMemberWebAuthnEnrollment_def refusals)
  then show thesis using refused same_ceremonies by blast
next
  case (Some a)
  obtain x d1 where v: "verifyTenantMemberRegistration sv wa body c (as_MemberUID a) (as_TenantUID a) (as_UID a) [] r d = (x, d1)" by fastforce
  have "d' = d1 \<and> hs_status w \<noteq> 200 \<or> (\<exists>credential ceremony token. x = Inr (credential, ceremony) \<and>
      persistInitialTenantMemberCredentialAndSession sv wa c a ceremony credential d1 = Inr (token, d'))"
    using assms verify_registration_cases(2) [OF v] unfolding finishInitialTenantMemberWebAuthnEnrollment_def Some option.case v prod.case
    by (auto simp: refusals split: sum.splits credential_error.splits)
  then show thesis using refused enrolled [OF Some] v verify_registration_cases(1) [OF v] by blast
qed

lemma finish_session_cases:
  assumes "finishSessionTenantMemberWebAuthnEnrollment sv wa body c r d = (w, d')"
  obtains (refused) t where "d' = d\<lparr>db_member_ceremonies := t\<rparr>"
  | (enrolled) credential ceremony k t where
      "persistSessionTenantMemberCredential sv wa c (mustPrincipal r) ceremony credential (d\<lparr>db_member_ceremonies := t\<rparr>) = Inr (k, d')"
proof -
  let ?p = "mustPrincipal r"
  obtain x d1 where v: "verifyTenantMemberRegistration sv wa body c (p_MemberUID ?p) (p_TenantUID ?p) [] (p_SessionUID ?p) r d = (x, d1)" by fastforce
  have "d' = d1 \<or> (\<exists>credential ceremony k. persistSessionTenantMemberCredential sv wa c ?p ceremony credential d1 = Inr (k, d'))"
    using assms unfolding finishSessionTenantMemberWebAuthnEnrollment_def Let_def v prod.case
    by (auto split: sum.splits credential_error.splits)
  then show thesis using refused enrolled verify_registration_cases(1) [OF v] by blast
qed

section \<open>The calls of the login\<close>

datatype login_call =
    StartLogin "string option" | CheckPassword "string option" | BeginLogin "string option" | FinishLogin "webauthnVerificationInput option"
  | BeginInitial "string option" | FinishInitial "webauthnVerificationInput option" | BeginSession "string option" | FinishSession "webauthnVerificationInput option"
  | ListCredentials | RenameCredential "string option" | DeleteCredential

primrec login_operation :: "server \<Rightarrow> webauthn_library \<Rightarrow> login_call \<Rightarrow> call \<Rightarrow> handler" where
  "login_operation sv wa (StartLogin body) = createTenantMemberLoginAttempt sv body"
| "login_operation sv wa (CheckPassword body) = verifyTenantMemberLoginPassword sv wa body"
| "login_operation sv wa (BeginLogin body) = beginTenantMemberWebAuthnLogin sv wa body"
| "login_operation sv wa (FinishLogin body) = finishTenantMemberWebAuthnLogin sv wa body"
| "login_operation sv wa (BeginInitial body) = beginInitialTenantMemberWebAuthnEnrollment sv wa body"
| "login_operation sv wa (FinishInitial body) = finishInitialTenantMemberWebAuthnEnrollment sv wa body"
| "login_operation sv wa (BeginSession body) = beginSessionTenantMemberWebAuthnEnrollment sv wa body"
| "login_operation sv wa (FinishSession body) = finishSessionTenantMemberWebAuthnEnrollment sv wa body"
| "login_operation sv wa ListCredentials = listTenantMemberWebAuthnCredentials wa"
| "login_operation sv wa (RenameCredential body) = updateTenantMemberWebAuthnCredential sv wa body"
| "login_operation sv wa DeleteCredential = deleteTenantMemberWebAuthnCredential sv"

definition login_step :: "server \<Rightarrow> webauthn_library \<Rightarrow> login_call \<times> call \<times> http_request \<Rightarrow> db \<Rightarrow> http_response \<times> db" where
  "login_step sv wa x = login_operation sv wa (fst x) (fst (snd x)) (snd (snd x))"

text \<open>What a call does to the attempts: one more, or changes that keep the ids and never reopen one.\<close>

definition attempts_kept :: "member_attempt_row list \<Rightarrow> member_attempt_row list \<Rightarrow> bool" where
  "attempts_kept t t' \<longleftrightarrow> (\<exists>f. t' = map f t \<and> (\<forall>a. xr_uid (f a) = xr_uid a \<and> (la_consumed_at a \<noteq> None \<longrightarrow> la_consumed_at (f a) \<noteq> None))) \<or>
     (\<exists>a. t' = t @ [a] \<and> \<not> list_ex (\<lambda>x. xr_uid x = xr_uid a) t)"

text \<open>What it does to the credentials: none of a member more or less, one more below the limit, or one less above one.\<close>

definition credentials_kept :: "member_credential_row list \<Rightarrow> member_credential_row list \<Rightarrow> bool" where
  "credentials_kept t t' \<longleftrightarrow> (let n = (\<lambda>m. sql_count (\<lambda>k. mw_tenant_member_uid k = m) t) in
     map mw_tenant_member_uid t' = map mw_tenant_member_uid t \<or>
     (\<exists>k. t' = t @ [k] \<and> n (mw_tenant_member_uid k) < maxTenantMemberCredentials) \<or>
     (\<exists>p u. t' = sql_delete (own_credential p u) t \<and> sql_count (own_credential p u) t = 1 \<and> n (p_MemberUID p) > 1))"

lemma kept_refl [simp]: "attempts_kept s s" "credentials_kept t t"
  by (auto simp: attempts_kept_def credentials_kept_def Let_def intro: exI [of _ id])

lemma attempts_update:
  assumes "\<And>a. xr_uid (f a) = xr_uid a" "\<And>a. la_consumed_at a \<noteq> None \<Longrightarrow> la_consumed_at (f a) \<noteq> None"
  shows "attempts_kept t (sql_update p f t)"
  unfolding attempts_kept_def sql_update_def using assms by (intro disjI1 exI [of _ "\<lambda>a. if p a then f a else a"]) simp


lemma store_ceremony_tables:
  assumes "store_ceremony wa c x begun r d = (w, d')"
  shows "\<exists>t. d' = d\<lparr>db_member_ceremonies := t\<rparr>" and "hs_status w \<noteq> 200"
proof -
  have "(d' = d \<or> (\<exists>t. d' = d\<lparr>db_member_ceremonies := t\<rparr>)) \<and> hs_status w \<noteq> 200"
    using assms by (auto simp: store_ceremony_def insert_ceremony_def stmt_def Let_def refusals writeJSON_def split: option.splits if_splits)
  then show "\<exists>t. d' = d\<lparr>db_member_ceremonies := t\<rparr>" "hs_status w \<noteq> 200" using same_ceremonies by blast+
qed

lemma begin_tables:
  "beginTenantMemberWebAuthnLogin sv wa body c r d = (w, d') \<Longrightarrow> \<exists>t. d' = d\<lparr>db_member_ceremonies := t\<rparr>"
  "beginTenantMemberRegistration sv wa c tn m caller name mode r d = (w, d') \<Longrightarrow> \<exists>t. d' = d\<lparr>db_member_ceremonies := t\<rparr>"
proof -
  show "\<exists>t. d' = d\<lparr>db_member_ceremonies := t\<rparr>" if "beginTenantMemberRegistration sv wa c tn m caller name mode r d = (w, d')"
  proof -
    have "d' = d \<or> (\<exists>x begun. store_ceremony wa c x begun r d = (w, d'))"
      using that by (auto simp: beginTenantMemberRegistration_def writeTenantMemberLoginCeremony_def split: option.splits sum.splits)
    then show ?thesis by (elim disjE exE) (erule same_ceremonies store_ceremony_tables(1))+
  qed
  show "\<exists>t. d' = d\<lparr>db_member_ceremonies := t\<rparr>" if "beginTenantMemberWebAuthnLogin sv wa body c r d = (w, d')"
  proof -
    have "d' = d \<or> (\<exists>x begun. store_ceremony wa c x begun r d = (w, d'))"
      using that by (auto simp: beginTenantMemberWebAuthnLogin_def writeTenantMemberLoginCeremony_def split: option.splits if_splits)
    then show ?thesis by (elim disjE exE) (erule same_ceremonies store_ceremony_tables(1))+
  qed
qed

lemma begin_enrollment_tables:
  "beginInitialTenantMemberWebAuthnEnrollment sv wa body c r d = (w, d') \<Longrightarrow> \<exists>t. d' = d\<lparr>db_member_ceremonies := t\<rparr>"
  "beginSessionTenantMemberWebAuthnEnrollment sv wa body c r d = (w, d') \<Longrightarrow> \<exists>t. d' = d\<lparr>db_member_ceremonies := t\<rparr>"
proof -
  show "\<exists>t. d' = d\<lparr>db_member_ceremonies := t\<rparr>" if "beginInitialTenantMemberWebAuthnEnrollment sv wa body c r d = (w, d')"
  proof -
    have "d' = d \<or> (\<exists>tn m caller name mode. beginTenantMemberRegistration sv wa c tn m caller name mode r d = (w, d'))"
      using that by (auto simp: beginInitialTenantMemberWebAuthnEnrollment_def split: option.splits if_splits)
    then show ?thesis by (elim disjE exE) (erule same_ceremonies begin_tables(2))+
  qed
  show "\<exists>t. d' = d\<lparr>db_member_ceremonies := t\<rparr>" if "beginSessionTenantMemberWebAuthnEnrollment sv wa body c r d = (w, d')"
  proof -
    have "d' = d \<or> (\<exists>tn m caller name mode. beginTenantMemberRegistration sv wa c tn m caller name mode r d = (w, d'))"
      using that by (auto simp: beginSessionTenantMemberWebAuthnEnrollment_def Let_def split: option.splits if_splits)
    then show ?thesis by (elim disjE exE) (erule same_ceremonies begin_tables(2))+
  qed
qed

lemma start_login_tables:
  assumes "createTenantMemberLoginAttempt sv body c r d = (w, d')"
  shows "attempts_kept (db_member_login_attempts d) (db_member_login_attempts d')" "db_member_credentials d' = db_member_credentials d"
    "db_member_sessions d' = db_member_sessions d"
proof -
  obtain x d1 where lim: "takeRateLimit sv c r ''console_login_start_ip'' (clientIP sv r) 50 (15 * Minute) d = (x, d1)" by fastforce
  obtain b where b: "d1 = d\<lparr>db_buckets := b\<rparr>" using takeRateLimit_only_buckets [OF lim] by blast
  have "d' = d \<or> d' = d1 \<or> (\<exists>a. insert_attempt c a d1 = Some d')"
    using assms by (auto simp: createTenantMemberLoginAttempt_def Let_def lim split: option.splits if_splits)
  then consider "d' = d \<or> d' = d1" | a where "insert_attempt c a d1 = Some d'" by blast
  then have "attempts_kept (db_member_login_attempts d) (db_member_login_attempts d') \<and> db_member_credentials d' = db_member_credentials d \<and>
      db_member_sessions d' = db_member_sessions d"
  proof cases
    case 1
    then show ?thesis using b by auto
  next
    case 2
    then have "d' = d1\<lparr>db_member_login_attempts := db_member_login_attempts d1 @ [a]\<rparr>" "\<not> list_ex (\<lambda>x. xr_uid x = xr_uid a) (db_member_login_attempts d1)"
      by (auto simp: insert_attempt_def stmt_def list_ex_iff split: if_splits)
    then show ?thesis using b by (auto simp: attempts_kept_def)
  qed
  then show "attempts_kept (db_member_login_attempts d) (db_member_login_attempts d')" "db_member_credentials d' = db_member_credentials d"
    "db_member_sessions d' = db_member_sessions d" by blast+
qed

lemma password_verified_tables:
  assumes "password_verified sv c a key password rehash r d = (w, d')"
  shows "attempts_kept (db_member_login_attempts d) (db_member_login_attempts d')" "db_member_credentials d' = db_member_credentials d"
    "db_member_sessions d' = db_member_sessions d"
proof -
  have "d' = d \<or> d' = resetRateLimit sv c ''console_login_password_identity'' key (mark_verified c (as_UID a) d) \<or>
      d' = rehash_password sv c (as_MemberUID a) password (resetRateLimit sv c ''console_login_password_identity'' key (mark_verified c (as_UID a) d))"
    using assms by (auto simp: password_verified_def Let_def split: if_splits)
  moreover have "attempts_kept (db_member_login_attempts d) (db_member_login_attempts (mark_verified c (as_UID a) d))"
    by (simp add: mark_verified_def attempts_update)
  ultimately show "attempts_kept (db_member_login_attempts d) (db_member_login_attempts d')" "db_member_credentials d' = db_member_credentials d"
    "db_member_sessions d' = db_member_sessions d"
    by (auto simp: resetRateLimit_def rehash_password_def set_password_def mark_verified_def split: sum.splits if_splits)
qed

lemma check_password_tables:
  assumes "verifyTenantMemberLoginPassword sv wa body c r d = (w, d')"
  shows "attempts_kept (db_member_login_attempts d) (db_member_login_attempts d')" "db_member_credentials d' = db_member_credentials d"
    "db_member_sessions d' = db_member_sessions d"
proof -
  have "(\<exists>b. d' = d\<lparr>db_buckets := b\<rparr>) \<or> (\<exists>b a key password rehash. password_verified sv c a key password rehash r (d\<lparr>db_buckets := b\<rparr>) = (w, d'))"
  proof (cases "resolveTenantMemberLoginAttempt sv c r d")
    case None
    then have "d' = d\<lparr>db_buckets := db_buckets d\<rparr>" using assms by (simp add: verifyTenantMemberLoginPassword_def)
    then show ?thesis by blast
  next
    case (Some a)
    obtain x d1 where one: "takeRateLimit sv c r ''console_login_password_ip'' (clientIP sv r) 20 (15 * Minute) d = (x, d1)" by fastforce
    obtain y d2 where two: "takeRateLimit sv c r ''console_login_password_identity'' (hex_EncodeToString (as_IdentityKeyHash a)) 5 (15 * Minute) d1 = (y, d2)" by fastforce
    obtain b b2 where b: "d1 = d\<lparr>db_buckets := b\<rparr>" "d2 = d\<lparr>db_buckets := b2\<rparr>"
      using takeRateLimit_only_buckets [OF one] takeRateLimit_only_buckets [OF two] by auto
    have "d' = d1 \<or> d' = d2 \<or> (\<exists>key password rehash. password_verified sv c a key password rehash r d2 = (w, d'))"
      using assms unfolding verifyTenantMemberLoginPassword_def Some option.case one prod.case Let_def
      by (auto simp: two split: option.splits sum.splits if_split_asm)
    then show ?thesis using b by blast
  qed
  then consider b where "d' = d\<lparr>db_buckets := b\<rparr>" | b a key password rehash where "password_verified sv c a key password rehash r (d\<lparr>db_buckets := b\<rparr>) = (w, d')" by blast
  then show "attempts_kept (db_member_login_attempts d) (db_member_login_attempts d')" "db_member_credentials d' = db_member_credentials d"
    "db_member_sessions d' = db_member_sessions d"
    by (cases; use password_verified_tables in fastforce)+
qed


lemma consume_attempt_kept: "attempts_kept (db_member_login_attempts d) (db_member_login_attempts (consume_attempt now u d))"
  by (simp add: consume_attempt_def attempts_update)

lemma added_credential:
  "sql_count (\<lambda>x. mw_tenant_member_uid x = mw_tenant_member_uid k) t < maxTenantMemberCredentials \<Longrightarrow> credentials_kept t (t @ [k])"
  by (auto simp: credentials_kept_def Let_def)

lemma finish_login_tables:
  assumes "finishTenantMemberWebAuthnLogin sv wa body c r d = (w, d')"
  shows "attempts_kept (db_member_login_attempts d) (db_member_login_attempts d') \<and> credentials_kept (db_member_credentials d) (db_member_credentials d')"
  using assms
proof (cases rule: finish_login_cases)
  case (done_ input a ceremony rp user credential token d1)
  obtain t where "d1 = d\<lparr>db_member_ceremonies := t\<rparr>" using consume_ceremony_tables [OF done_(3)] by blast
  then show ?thesis
    using complete_login_effect(3,4) [OF done_(9)] consume_attempt_kept [of d1 "ca_now c" "as_UID a"] by (simp add: credentials_kept_def)
qed simp

lemma finish_initial_tables:
  assumes "finishInitialTenantMemberWebAuthnEnrollment sv wa body c r d = (w, d')"
  shows "attempts_kept (db_member_login_attempts d) (db_member_login_attempts d') \<and> credentials_kept (db_member_credentials d) (db_member_credentials d')"
  using assms
proof (cases rule: finish_initial_cases)
  case (enrolled a credential ceremony token d1)
  obtain t where "d1 = d\<lparr>db_member_ceremonies := t\<rparr>" using verify_registration_cases(1) [OF enrolled(2)] by blast
  moreover obtain k where "db_member_credentials d' = db_member_credentials d1 @ [k]" "mw_tenant_member_uid k = as_MemberUID a"
    using persist_initial_effect(2) [OF enrolled(3)] by blast
  moreover have "sql_count (\<lambda>x. mw_tenant_member_uid x = as_MemberUID a) (db_member_credentials d1) < maxTenantMemberCredentials"
    using persist_initial_effect(1) [OF enrolled(3)] by (simp only: credentials_of_def maxTenantMemberCredentials_def)
  ultimately show ?thesis
    using persist_initial_effect(4) [OF enrolled(3)] consume_attempt_kept [of d1 "ca_now c" "as_UID a"] added_credential [of k "db_member_credentials d"] by simp
qed simp

lemma finish_session_tables:
  assumes "finishSessionTenantMemberWebAuthnEnrollment sv wa body c r d = (w, d')"
  shows "attempts_kept (db_member_login_attempts d) (db_member_login_attempts d') \<and> credentials_kept (db_member_credentials d) (db_member_credentials d')"
  using assms
proof (cases rule: finish_session_cases)
  case (enrolled credential ceremony k t)
  note effect = persist_session_effect [OF enrolled]
  have "sql_count (\<lambda>x. mw_tenant_member_uid x = p_MemberUID (mustPrincipal r)) (db_member_credentials d) < maxTenantMemberCredentials"
    using effect(1) by (simp add: credentials_of_def)
  then show ?thesis using effect added_credential [of k "db_member_credentials d"] by simp
qed simp

lemma audit_event_tables [simp]:
  "db_member_login_attempts (audit_event c tn p actor m action kind target metadata d) = db_member_login_attempts d"
  "db_member_credentials (audit_event c tn p actor m action kind target metadata d) = db_member_credentials d"
  by (simp_all add: audit_event_def add_audit_def)

lemma rename_tables:
  assumes "updateTenantMemberWebAuthnCredential sv wa body c r d = (w, d')"
  shows "db_member_login_attempts d' = db_member_login_attempts d" "map mw_tenant_member_uid (db_member_credentials d') = map mw_tenant_member_uid (db_member_credentials d)"
proof -
  have keys: "map mw_tenant_member_uid (sql_update hit (rename_row now name) t) = map mw_tenant_member_uid t" for hit now name t
    by (rule map_key_update) (simp add: rename_row_def)
  have "db_member_login_attempts d' = db_member_login_attempts d \<and> map mw_tenant_member_uid (db_member_credentials d') = map mw_tenant_member_uid (db_member_credentials d)"
    using assms unfolding updateTenantMemberWebAuthnCredential_def Let_def
    by (auto simp: keys split: sum.splits option.splits if_split_asm query.splits)
  then show "db_member_login_attempts d' = db_member_login_attempts d" "map mw_tenant_member_uid (db_member_credentials d') = map mw_tenant_member_uid (db_member_credentials d)"
    by blast+
qed

lemma delete_credential_tables:
  assumes "deleteTenantMemberWebAuthnCredential sv c r d = (w, d')"
  shows "db_member_login_attempts d' = db_member_login_attempts d" "credentials_kept (db_member_credentials d) (db_member_credentials d')"
proof -
  let ?p = "mustPrincipal r" and ?u = "hq_path r ''credential_uid''"
  have "d' = d \<or> (credentials_of (p_MemberUID ?p) d > 1 \<and> delete_credential_tx c ?p ?u d = Some d')"
    using assms unfolding deleteTenantMemberWebAuthnCredential_def Let_def by (auto split: sum.splits option.splits if_split_asm query.splits)
  moreover have "db_member_login_attempts d' = db_member_login_attempts d \<and> db_member_credentials d' = sql_delete (own_credential ?p ?u) (db_member_credentials d) \<and>
      sql_count (own_credential ?p ?u) (db_member_credentials d) = 1" if "delete_credential_tx c ?p ?u d = Some d'"
    using that by (auto simp: delete_credential_tx_def end_other_sessions_def stmt_def bind_eq_Some_conv split: if_splits)
  ultimately show "db_member_login_attempts d' = db_member_login_attempts d" "credentials_kept (db_member_credentials d) (db_member_credentials d')"
    by (auto simp: credentials_kept_def credentials_of_def Let_def)
qed

lemma login_tables:
  "attempts_kept (db_member_login_attempts d) (db_member_login_attempts (snd (login_step sv wa x d))) \<and>
   credentials_kept (db_member_credentials d) (db_member_credentials (snd (login_step sv wa x d)))"
proof -
  obtain a c r where x: "x = (a, c, r)" by (cases x)
  obtain w d' where run: "login_operation sv wa a c r d = (w, d')" by fastforce
  have opened: "attempts_kept (db_member_login_attempts d) (db_member_login_attempts d') \<and> credentials_kept (db_member_credentials d) (db_member_credentials d')"
    if "\<exists>t. d' = d\<lparr>db_member_ceremonies := t\<rparr>" using that by auto
  have "attempts_kept (db_member_login_attempts d) (db_member_login_attempts d') \<and> credentials_kept (db_member_credentials d) (db_member_credentials d')"
  proof (cases a)
    case (StartLogin b)
    then show ?thesis using run start_login_tables [of sv b c r d w d'] by simp
  next
    case (CheckPassword b)
    then show ?thesis using run check_password_tables [of sv wa b c r d w d'] by simp
  next
    case (BeginLogin b)
    then show ?thesis using run begin_tables(1) [of sv wa b c r d w d'] opened by simp
  next
    case (FinishLogin b)
    then show ?thesis using run finish_login_tables by simp
  next
    case (BeginInitial b)
    then show ?thesis using run begin_enrollment_tables(1) [of sv wa b c r d w d'] opened by simp
  next
    case (FinishInitial b)
    then show ?thesis using run finish_initial_tables by simp
  next
    case (BeginSession b)
    then show ?thesis using run begin_enrollment_tables(2) [of sv wa b c r d w d'] opened by simp
  next
    case (FinishSession b)
    then show ?thesis using run finish_session_tables by simp
  next
    case ListCredentials
    then have "d' = d" using run by (auto simp: listTenantMemberWebAuthnCredentials_def Let_def split: option.splits)
    then show ?thesis by simp
  next
    case (RenameCredential b)
    then show ?thesis using run rename_tables [of sv wa b c r d w d'] by (simp add: credentials_kept_def)
  next
    case DeleteCredential
    then show ?thesis using run delete_credential_tables [of sv c r d w d'] by simp
  qed
  then show ?thesis by (simp add: login_step_def x run)
qed


section \<open>A login attempt opens one session at most\<close>

definition attempts_ok :: "db \<Rightarrow> bool" where
  "attempts_ok d \<longleftrightarrow> distinct (map xr_uid (db_member_login_attempts d))"

definition attempt_gone :: "uid \<Rightarrow> db \<Rightarrow> bool" where
  "attempt_gone u d \<longleftrightarrow> (\<exists>a \<in> set (db_member_login_attempts d). xr_uid a = u) \<and>
     (\<forall>a \<in> set (db_member_login_attempts d). xr_uid a = u \<longrightarrow> la_consumed_at a \<noteq> None)"

text \<open>The attempt a call tries to turn into a session.\<close>

definition finished_attempt :: "login_call \<times> call \<times> http_request \<Rightarrow> uid option" where
  "finished_attempt x = (case fst x of
     FinishLogin _ \<Rightarrow> Some (hq_path (snd (snd x)) ''login_attempt_uid'')
   | FinishInitial _ \<Rightarrow> Some (hq_path (snd (snd x)) ''login_attempt_uid'')
   | _ \<Rightarrow> None)"

lemma attempts_kept_ok:
  assumes "attempts_kept (db_member_login_attempts d) (db_member_login_attempts d')" and "attempts_ok d"
  shows "attempts_ok d'" and "attempt_gone u d \<Longrightarrow> attempt_gone u d'"
proof -
  consider f where "db_member_login_attempts d' = map f (db_member_login_attempts d)"
      "\<And>a. xr_uid (f a) = xr_uid a" "\<And>a. la_consumed_at a \<noteq> None \<Longrightarrow> la_consumed_at (f a) \<noteq> None"
    | a where "db_member_login_attempts d' = db_member_login_attempts d @ [a]" "\<not> list_ex (\<lambda>x. xr_uid x = xr_uid a) (db_member_login_attempts d)"
    using assms(1) unfolding attempts_kept_def by blast
  then have "attempts_ok d' \<and> (attempt_gone u d \<longrightarrow> attempt_gone u d')"
  proof cases
    case 1
    then have "map xr_uid (db_member_login_attempts d') = map xr_uid (db_member_login_attempts d)" by simp
    then have "attempts_ok d'" using assms(2) by (simp only: attempts_ok_def)
    moreover have "attempt_gone u d \<longrightarrow> attempt_gone u d'" using 1 by (auto simp: attempt_gone_def)
    ultimately show ?thesis by blast
  next
    case 2
    have new: "xr_uid a \<notin> xr_uid ` set (db_member_login_attempts d)" using 2(2) unfolding list_ex_iff by (metis imageE)
    then have "attempts_ok d'" using assms(2) by (simp add: attempts_ok_def 2(1))
    moreover have "attempt_gone u d'" if gone: "attempt_gone u d"
    proof -
      obtain x where "x \<in> set (db_member_login_attempts d)" "xr_uid x = u" using gone unfolding attempt_gone_def by blast
      then have "xr_uid a \<noteq> u" using new imageI [of x "set (db_member_login_attempts d)" xr_uid] by metis
      then show ?thesis using gone by (simp add: attempt_gone_def 2(1))
    qed
    ultimately show ?thesis by blast
  qed
  then show "attempts_ok d'" "attempt_gone u d \<Longrightarrow> attempt_gone u d'" by blast+
qed

lemma consumed_gone:
  assumes "attempts_ok d" "a \<in> set (db_member_login_attempts d)" "open_attempt now a"
    and "db_member_login_attempts d' = db_member_login_attempts (consume_attempt now (xr_uid a) d)"
  shows "\<not> attempt_gone (xr_uid a) d \<and> attempt_gone (xr_uid a) d'"
proof
  show "\<not> attempt_gone (xr_uid a) d" using assms(2,3) by (auto simp: attempt_gone_def open_attempt_def)
  have only: "x = a" if "x \<in> set (db_member_login_attempts d)" "xr_uid x = xr_uid a" for x
    using assms(1,2) that by (auto simp: attempts_ok_def distinct_map inj_on_def)
  have t: "db_member_login_attempts d' = map (\<lambda>x. if xr_uid x = xr_uid a \<and> open_attempt now x then x\<lparr>la_consumed_at := Some now\<rparr> else x) (db_member_login_attempts d)"
    by (simp add: assms(4) consume_attempt_def sql_update_def)
  have "a\<lparr>la_consumed_at := Some now\<rparr> \<in> set (db_member_login_attempts d')" using assms(2,3) unfolding t by force
  then have "\<exists>x \<in> set (db_member_login_attempts d'). xr_uid x = xr_uid a" by (rule bexI [rotated]) simp
  moreover have "\<forall>x \<in> set (db_member_login_attempts d'). xr_uid x = xr_uid a \<longrightarrow> la_consumed_at x \<noteq> None"
    using only assms(3) unfolding t by auto
  ultimately show "attempt_gone (xr_uid a) d'" by (simp add: attempt_gone_def)
qed

lemma finished_gone:
  assumes "attempts_ok d" "finished_attempt x = Some u" "hs_status (fst (login_step sv wa x d)) = 200"
  shows "\<not> attempt_gone u d \<and> attempt_gone u (snd (login_step sv wa x d))"
proof -
  obtain y c r where x: "x = (y, c, r)" by (cases x)
  obtain w d' where run: "login_operation sv wa y c r d = (w, d')" by fastforce
  have w: "hs_status w = 200" and d': "snd (login_step sv wa x d) = d'" using assms(3) by (simp_all add: login_step_def x run)
  have u: "u = hq_path r ''login_attempt_uid''" using assms(2) by (auto simp: finished_attempt_def x split: login_call.splits)
  have done': "\<not> attempt_gone u d \<and> attempt_gone u d'" if a: "password_done sv c r d = Some s"
    and t: "db_member_login_attempts d' = db_member_login_attempts (consume_attempt (ca_now c) (as_UID s) d)" for s
  proof -
    obtain a where "a \<in> set (db_member_login_attempts d)" "presented sv c r a" "as_UID s = xr_uid a" using password_doneD [OF a] by blast
    then show ?thesis using consumed_gone [OF assms(1), of a "ca_now c" d'] t u by (simp add: presented_def)
  qed
  have "\<not> attempt_gone u d \<and> attempt_gone u d'"
  proof (cases y)
    case (FinishLogin b)
    then have "finishTenantMemberWebAuthnLogin sv wa b c r d = (w, d')" using run by simp
    then show ?thesis
    proof (cases rule: finish_login_cases)
      case (done_ input a ceremony rp user credential token d1)
      obtain t where "d1 = d\<lparr>db_member_ceremonies := t\<rparr>" using consume_ceremony_tables [OF done_(3)] by blast
      then show ?thesis using done' [OF done_(2)] complete_login_effect(3) [OF done_(9)] by (simp add: consume_attempt_def)
    next
      case (refused t)
      show ?thesis using refused(2) w by simp
    qed
  next
    case (FinishInitial b)
    then have "finishInitialTenantMemberWebAuthnEnrollment sv wa b c r d = (w, d')" using run by simp
    then show ?thesis
    proof (cases rule: finish_initial_cases)
      case (enrolled a credential ceremony token d1)
      obtain t where "d1 = d\<lparr>db_member_ceremonies := t\<rparr>" using verify_registration_cases(1) [OF enrolled(2)] by blast
      then show ?thesis using done' [OF enrolled(1)] persist_initial_effect(4) [OF enrolled(3)] by (simp add: consume_attempt_def)
    next
      case (refused t)
      show ?thesis using refused(2) w by simp
    qed
  qed (use assms(2) in \<open>simp_all add: finished_attempt_def x\<close>)
  then show ?thesis by (simp add: d')
qed

interpretation logins: single_use attempts_ok attempt_gone "login_step sv wa" finished_attempt 200 for sv wa
proof
  fix d :: db and x :: "login_call \<times> call \<times> http_request" and u
  assume ok: "attempts_ok d"
  note kept = attempts_kept_ok [OF login_tables [THEN conjunct1] ok]
  show "attempts_ok (snd (login_step sv wa x d))" by (rule kept(1))
  show "attempt_gone u (snd (login_step sv wa x d))" if "attempt_gone u d" using that by (rule kept(2))
  show "\<not> attempt_gone u d \<and> attempt_gone u (snd (login_step sv wa x d))"
    if "finished_attempt x = Some u" "hs_status (fst (login_step sv wa x d)) = 200"
    using ok that by (rule finished_gone)
qed

section \<open>Numbers of credentials\<close>

lemma count_by_key: "map f t' = map f t \<Longrightarrow> sql_count (\<lambda>x. f x = m) t' = sql_count (\<lambda>x. f x = m) t"
proof -
  assume keys: "map f t' = map f t"
  have "sql_count (\<lambda>x. f x = m) s = length (filter (\<lambda>y. y = m) (map f s))" for s by (simp add: sql_count_def filter_map comp_def)
  then show ?thesis by (simp only: keys)
qed

lemma count_append: "sql_count q (t @ [k]) = sql_count q t + (if q k then 1 else 0)"
  by (induction t) auto

lemma count_deleted:
  assumes "\<And>x. p x \<Longrightarrow> q x"
  shows "sql_count q (sql_delete p t) + sql_count p t = sql_count q t"
  using assms by (induction t) auto

lemma count_disjoint:
  assumes "\<And>x. p x \<Longrightarrow> \<not> q x"
  shows "sql_count q (sql_delete p t) = sql_count q t"
  using assms by (induction t) auto

lemma credentials_bounded:
  fixes m :: uid
  assumes "credentials_kept t t'"
  defines "n \<equiv> \<lambda>s. sql_count (\<lambda>k. mw_tenant_member_uid k = m) s"
  shows "n t \<le> maxTenantMemberCredentials \<Longrightarrow> n t' \<le> maxTenantMemberCredentials" and "0 < n t \<Longrightarrow> 0 < n t'"
proof -
  consider "map mw_tenant_member_uid t' = map mw_tenant_member_uid t"
    | k where "t' = t @ [k]" "sql_count (\<lambda>x. mw_tenant_member_uid x = mw_tenant_member_uid k) t < maxTenantMemberCredentials"
    | p u where "t' = sql_delete (own_credential p u) t" "sql_count (own_credential p u) t = 1" "sql_count (\<lambda>k. mw_tenant_member_uid k = p_MemberUID p) t > 1"
    using assms(1) by (auto simp: credentials_kept_def Let_def)
  then have "(n t \<le> maxTenantMemberCredentials \<longrightarrow> n t' \<le> maxTenantMemberCredentials) \<and> (0 < n t \<longrightarrow> 0 < n t')"
  proof cases
    case 1
    then show ?thesis using count_by_key [of mw_tenant_member_uid t' t m] by (simp add: n_def)
  next
    case 2
    then show ?thesis by (auto simp: n_def count_append)
  next
    case 3
    show ?thesis
    proof (cases "p_MemberUID p = m")
      case True
      then show ?thesis using 3 count_deleted [of "own_credential p u" "\<lambda>k. mw_tenant_member_uid k = m" t] by (auto simp: n_def own_credential_def)
    next
      case False
      then show ?thesis using 3(1) count_disjoint [of "own_credential p u" "\<lambda>k. mw_tenant_member_uid k = m" t] by (auto simp: n_def own_credential_def)
    qed
  qed
  then show "n t \<le> maxTenantMemberCredentials \<Longrightarrow> n t' \<le> maxTenantMemberCredentials" "0 < n t \<Longrightarrow> 0 < n t'" by blast+
qed


section \<open>Properties\<close>

lemma load_web_userD:
  assumes "loadTenantMemberWebUser wa c tn m kind d = Some user"
  shows "wu_UID user = m" "list_ex (\<lambda>x. tm_uid x = m \<and> tm_status x = ''active'') (db_members d)"
  using assms by (auto simp: loadTenantMemberWebUser_def list_ex_iff split: if_splits option.splits dest!: sql_row_SomeD)

text \<open>Both factors of a member: an open attempt with the presented secret and a verified password, and an open ceremony of this attempt that the
  WebAuthn library finds answered by a credential the member has.\<close>

definition both_factors :: "server \<Rightarrow> webauthn_library \<Rightarrow> call \<Rightarrow> http_request \<Rightarrow> webauthnVerificationInput \<Rightarrow> db \<Rightarrow> uid \<Rightarrow> bool" where
  "both_factors sv wa c r input d m \<longleftrightarrow> (\<exists>a x k rp user session credential.
     a \<in> set (db_member_login_attempts d) \<and> presented sv c r a \<and> la_password_verified_at a \<noteq> None \<and> la_tenant_member_uid a = Some m \<and>
     x \<in> set (db_member_ceremonies d) \<and> open_ceremony (ca_now c) (wv_CeremonyUID input) ''authentication'' x \<and>
     text_or_empty (xr_login_attempt_uid x) = xr_uid a \<and> mc_tenant_member_uid x = m \<and>
     wa_UnmarshalSession wa (mc_session_data x) = Some session \<and> wu_UID user = m \<and>
     wa_FinishLogin wa rp (ca_now c) user session (wv_Credential input) = Some credential \<and>
     k \<in> set (db_member_credentials d) \<and> mw_tenant_member_uid k = m \<and> mw_credential_id k = cd_ID credential)"

text \<open>The sessions after a login: the bootstrap sessions of the member end and one strong session is added.\<close>

definition logged_in :: "time \<Rightarrow> uid \<Rightarrow> db \<Rightarrow> db \<Rightarrow> bool" where
  "logged_in now m d d' \<longleftrightarrow> (\<exists>s. db_member_sessions d' = db_member_sessions (end_bootstrap now m d) @ [s] \<and>
     ms_tenant_member_uid s = m \<and> ms_authentication_assurance s = ''strong'' \<and> ms_revoked_at s = None)"

text \<open>
  C7 (login_needs_both_factors): a strong session needs both factors. A login that succeeds presented the secret of an open attempt whose password was verified and answered an
  open ceremony of that attempt with a credential of the same, active member; it opens exactly one strong session for that member and ends the member's
  bootstrap sessions. A login that fails leaves all sessions alone.
\<close>

theorem login_needs_both_factors:
  assumes run: "finishTenantMemberWebAuthnLogin sv wa body c r d = (w, d')"
  shows "(hs_status w \<noteq> 200 \<longrightarrow> db_member_sessions d' = db_member_sessions d) \<and>
    (hs_status w = 200 \<longrightarrow> (\<exists>input m. body = Some input \<and> both_factors sv wa c r input d m \<and>
       list_ex (\<lambda>x. tm_uid x = m \<and> tm_status x = ''active'') (db_members d) \<and> logged_in (ca_now c) m d d'))"
  using run
proof (cases rule: finish_login_cases)
  case (refused t)
  show ?thesis using refused(2) by (simp add: refused(1))
next
  case (done_ input s ceremony rp user credential token d1)
  let ?m = "as_MemberUID s"
  obtain a where a: "a \<in> set (db_member_login_attempts d)" "presented sv c r a" "la_password_verified_at a \<noteq> None" "la_tenant_member_uid a = Some ?m" "as_UID s = xr_uid a"
    using password_doneD [OF done_(2)] by blast
  obtain t where d1: "d1 = d\<lparr>db_member_ceremonies := t\<rparr>" using consume_ceremony_tables [OF done_(3)] by blast
  obtain x where x: "x \<in> set (db_member_ceremonies d)" "open_ceremony (ca_now c) (wv_CeremonyUID input) ''authentication'' x"
    "wa_UnmarshalSession wa (mc_session_data x) = Some (ce_Session ceremony)" "ce_MemberUID ceremony = mc_tenant_member_uid x"
    "ce_LoginAttemptUID ceremony = text_or_empty (xr_login_attempt_uid x)"
    using done_(3) by (cases rule: consume_ceremony_cases) auto
  obtain k where k: "k \<in> set (db_member_credentials d)" "login_credential s (wv_Mode input) credential k"
    using complete_login_effect(1) [OF done_(9)] d1 by (auto simp: list_ex_iff)
  have ids: "text_or_empty (xr_login_attempt_uid x) = xr_uid a" "mc_tenant_member_uid x = ?m" "mw_tenant_member_uid k = ?m" "mw_credential_id k = cd_ID credential"
    using x(4,5) done_(4,5) a(5) k(2) by (simp_all add: login_credential_def)
  have factors: "both_factors sv wa c r input d ?m"
    unfolding both_factors_def using a(1-4) x(1-3) ids done_(8) load_web_userD(1) [OF done_(6)] k(1) by blast
  have "list_ex (\<lambda>x. tm_uid x = ?m \<and> tm_status x = ''active'') (db_members d)" using load_web_userD(2) [OF done_(6)] d1 by simp
  moreover have "logged_in (ca_now c) ?m d d'"
    using complete_login_effect(2) [OF done_(9)] by (simp add: logged_in_def d1 end_bootstrap_def new_member_session_def)
  ultimately show ?thesis using done_(1,10) factors by auto
qed

text \<open>
  C8 (one_session_per_attempt): a login attempt opens one session at most. In every sequence of calls of the login and the passkey endpoints, by anybody and with any failures, at most one
  call turns a given attempt into a session, be it with a passkey or by enrolling the first one.
\<close>

theorem one_session_per_attempt:
  assumes "attempts_ok d"
  shows "uses 200 (login_step sv wa) finished_attempt u as d \<le> 1"
  using assms by (rule logins.used_once)

text \<open>
  C14 (passkeys_bounded): a member keeps between one and ten passkeys. In every sequence of these calls a member with at most ten passkeys never gets an eleventh, and one
  who has a passkey never loses the last.
\<close>

theorem passkeys_bounded:
  assumes "credentials_of m d \<le> 10"
  shows "credentials_of m (after_calls (login_step sv wa) as d) \<le> 10 \<and>
    (credentials_of m d \<noteq> 0 \<longrightarrow> credentials_of m (after_calls (login_step sv wa) as d) \<noteq> 0)"
  using assms
proof (induction as arbitrary: d)
  case (Cons x as)
  let ?d = "snd (login_step sv wa x d)"
  note bounds = credentials_bounded [OF login_tables [THEN conjunct2], of m d, folded credentials_of_def, unfolded maxTenantMemberCredentials_def]
  have "credentials_of m ?d \<le> 10" and "credentials_of m d \<noteq> 0 \<longrightarrow> credentials_of m ?d \<noteq> 0"
    using bounds [of sv wa x] Cons.prems by auto
  then show ?case using Cons.IH [of ?d] by auto
qed simp


text \<open>A member with a passkey halfway through a login.\<close>

definition login_server :: server where
  "login_server = demo_server\<lparr>url_Parse := (\<lambda>u. Some \<lparr>up_Scheme = ''https'', up_Host = ''c'', up_Hostname = ''c'', up_has_User = False, up_Fragment = [],
     up_RawQuery = [], up_Path = [], up_String = u\<rparr>)\<rparr>"

definition demo_passkey :: webauthn_credential where
  "demo_passkey = \<lparr>cd_ID = [7], cd_AttestationType = ''none'', cd_AttestationFormat = ''none'', cd_AAGUID = [], cd_rest = JNull\<rparr>"

definition demo_library :: webauthn_library where
  "demo_library = \<lparr>wa_New = (\<lambda>_ _. True), wa_BeginLogin = (\<lambda>_ _ _ _. None), wa_BeginRegistration = (\<lambda>_ _ _ _. None),
     wa_FinishLogin = (\<lambda>_ _ _ _ answer. if answer = JStr ''signed'' then Some demo_passkey else None),
     wa_FinishRegistration = (\<lambda>_ _ _ _ answer. if answer = JStr ''created'' then Some demo_passkey else None),
     wa_MarshalSession = Some, wa_UnmarshalSession = Some, wa_Marshal = (\<lambda>_. Some JNull), wa_Unmarshal = (\<lambda>_. Some demo_passkey), wa_init = None\<rparr>"

definition demo_attempt :: member_attempt_row where
  "demo_attempt = \<lparr>xr_uid = ''a'', xr_expires_at = 2000 * Second, xr_login_attempt_uid = None, xr_session_uid = None, la_tenant_member_uid = Some ''m'',
     la_client_secret_hash = SessionHash_of login_server ''secret'', la_identity_key_hash = [], la_password_verified_at = Some 0, la_consumed_at = None\<rparr>"

definition demo_ceremony :: member_ceremony_row where
  "demo_ceremony = \<lparr>xr_uid = ''x'', xr_expires_at = 2000 * Second, xr_login_attempt_uid = Some ''a'', xr_session_uid = None, mc_tenant_uid = ''t'',
     mc_tenant_member_uid = ''m'', mc_ceremony_type = ''authentication'', mc_credential_kind = ''passkey'', mc_credential_name = None, mc_session_data = JNull,
     mc_consumed_at = None\<rparr>"

definition demo_credential_row :: member_credential_row where
  "demo_credential_row = \<lparr>mw_uid = ''k'', mw_tenant_uid = ''t'', mw_tenant_member_uid = ''m'', mw_credential_id = [7], mw_credential_json = JNull, mw_name = ''Passkey'',
     mw_credential_kind = ''passkey'', mw_attested = False, mw_version = 1, mw_created_at = 0, mw_updated_at = 0, mw_last_used_at = None\<rparr>"

definition login_db :: db where
  "login_db = tenant_db\<lparr>db_member_sessions := [], db_member_login_attempts := [demo_attempt], db_member_ceremonies := [demo_ceremony],
     db_member_credentials := [demo_credential_row]\<rparr>"

definition login_request :: http_request where
  "login_request = demo_request\<lparr>hq_path := (\<lambda>_. ''a''), hq_header := (\<lambda>_. ''secret'')\<rparr>"

definition demo_answer :: webauthnVerificationInput where
  "demo_answer = \<lparr>wv_Mode = ''passkey'', wv_CeremonyUID = ''x'', wv_Credential = JStr ''signed''\<rparr>"

lemma demo_faultless: "ca_flt demo_call site = False"
  by (simp add: demo_call_def)

lemma demo_token: "\<exists>k. RandomToken (ca_rand demo_call ''session token'') = Some k"
  by (simp add: RandomToken_def rand_Read_def demo_call_def)

lemma login_server_simps [simp]: "uuid_ok login_server = uuid_ok demo_server" "ConsoleOrigin login_server = ConsoleOrigin demo_server"
  "url_Parse login_server u = Some \<lparr>up_Scheme = ''https'', up_Host = ''c'', up_Hostname = ''c'', up_has_User = False, up_Fragment = [], up_RawQuery = [], up_Path = [], up_String = u\<rparr>"
  by (simp_all add: login_server_def)

lemma demo_password_done:
  assumes "db_member_login_attempts d = [demo_attempt]" "db_members d = [demo_member]" "db_tenants d = db_tenants tenant_db"
  obtains s where "password_done login_server demo_call login_request d = Some s" "as_UID s = ''a''" "as_MemberUID s = ''m''" "as_TenantUID s = ''t''"
proof -
  have "open_attempt (ca_now demo_call) demo_attempt" by (simp add: open_attempt_def demo_attempt_def demo_call_def time_defs)
  moreover have "uuid_ok demo_server ''a''" by (simp add: demo_server_def)
  moreover have "xr_uid demo_attempt = ''a''" "la_client_secret_hash demo_attempt = SessionHash_of login_server ''secret''" by (simp_all add: demo_attempt_def)
  ultimately have "resolveTenantMemberLoginAttempt login_server demo_call login_request d = attempt_state d demo_attempt"
    by (simp add: resolveTenantMemberLoginAttempt_def Let_def login_request_def demo_faultless assms(1))
  moreover obtain s where "attempt_state d demo_attempt = Some s" "as_UID s = ''a''" "as_MemberUID s = ''m''" "as_TenantUID s = ''t''" "as_PasswordVerified s"
    using assms(2,3) by (simp add: attempt_state_def Let_def demo_attempt_def demo_member_def tenant_of_def tenant_db_def)
  ultimately show thesis using that [of s] by (simp add: password_done_def)
qed

lemma strong_session_tx_succeeds:
  assumes "\<And>site. ca_flt c site = False"
    and "\<not> list_ex (\<lambda>x. ms_uid x = ca_uid c ''session'' \<or> ms_session_secret_hash x = SessionHash_of sv token) (db_member_sessions (end_bootstrap (ca_now c) (as_MemberUID a) d))"
  shows "\<exists>d'. strong_session_tx sv c a token d = Some d'"
  unfolding strong_session_tx_def insert_member_session_def stmt_def assms(1) if_False Option.bind.simps new_member_session_def member_session_row.simps
  using assms(2) by simp

lemma demo_login_run:
  "\<exists>w d'. finishTenantMemberWebAuthnLogin login_server demo_library (Some demo_answer) demo_call login_request login_db = (w, d') \<and> hs_status w = 200"
proof -
  obtain s where s: "password_done login_server demo_call login_request login_db = Some s" "as_UID s = ''a''" "as_MemberUID s = ''m''" "as_TenantUID s = ''t''"
    by (rule demo_password_done [of login_db]) (simp_all add: login_db_def tenant_db_def recovery_db_def)
  obtain k where k: "RandomToken (ca_rand demo_call ''session token'') = Some k" using demo_token by blast
  have opened: "open_ceremony (ca_now demo_call) ''x'' ''authentication'' demo_ceremony"
    by (simp add: open_ceremony_def demo_ceremony_def demo_call_def time_defs)
  define d1 where "d1 = login_db\<lparr>db_member_ceremonies := sql_update (open_ceremony (ca_now demo_call) ''x'' ''authentication'')
    (\<lambda>x. x\<lparr>mc_consumed_at := Some (ca_now demo_call)\<rparr>) (db_member_ceremonies login_db)\<rparr>"
  let ?ce = "\<lparr>ce_Session = JNull, ce_TenantUID = ''t'', ce_MemberUID = ''m'', ce_LoginAttemptUID = ''a'', ce_MemberSessionUID = [], ce_Kind = ''passkey'', ce_Name = []\<rparr>"
  have ce: "consumeTenantMemberCeremony login_server demo_library demo_call ''x'' ''authentication'' login_db = (Some ?ce, d1)"
  proof -
    have "sql_row (open_ceremony (ca_now demo_call) ''x'' ''authentication'') (db_member_ceremonies login_db) = Some demo_ceremony"
      using opened by (simp add: login_db_def)
    moreover have "uuid_ok demo_server ''x''" by (simp add: demo_server_def)
    ultimately show ?thesis
      by (simp add: consumeTenantMemberCeremony_def demo_faultless d1_def demo_library_def demo_ceremony_def text_or_empty_def)
  qed
  have rows: "db_members d1 = [demo_member]" "db_member_credentials d1 = [demo_credential_row]" "db_member_sessions d1 = []" "db_member_login_attempts d1 = [demo_attempt]"
    by (simp_all add: d1_def login_db_def tenant_db_def recovery_db_def)
  obtain user where user: "loadTenantMemberWebUser demo_library demo_call ''t'' ''m'' ''passkey'' d1 = Some user"
    by (simp add: loadTenantMemberWebUser_def demo_faultless rows demo_member_def demo_credential_row_def all_some_def demo_library_def)
  have rp: "tenantMemberWebAuthn login_server demo_library = Some (''c'', [ConsoleOrigin demo_server])"
    by (simp add: tenantMemberWebAuthn_def demo_library_def)
  have one: "login_credential s ''passkey'' demo_passkey demo_credential_row"
    by (simp add: login_credential_def s tenantMemberCredentialKind_def demo_credential_row_def demo_passkey_def)
  have two: "open_attempt (ca_now demo_call) demo_attempt" "xr_uid demo_attempt = ''a''"
    by (simp_all add: open_attempt_def demo_attempt_def demo_call_def time_defs)
  let ?d = "consume_attempt (ca_now demo_call) ''a'' (touch_credential (ca_now demo_call) s ''passkey'' demo_passkey JNull d1)"
  have "db_member_sessions (end_bootstrap (ca_now demo_call) (as_MemberUID s) ?d) = []"
    by (simp add: end_bootstrap_def consume_attempt_def touch_credential_def rows)
  then obtain e where e: "strong_session_tx login_server demo_call s k ?d = Some e"
    using strong_session_tx_succeeds [OF demo_faultless, of login_server k s ?d] by auto
  have raw: "wa_Marshal demo_library demo_passkey = Some JNull" by (simp add: demo_library_def)
  have "\<exists>d'. completeTenantMemberWebAuthnLogin login_server demo_library demo_call s ''passkey'' demo_passkey d1 = Inr (k, d')"
    by (simp add: completeTenantMemberWebAuthnLogin_def raw k demo_faultless rows one two s(2) e login_audit_def stmt_def commit_tx_def)
  then obtain d' where fin: "completeTenantMemberWebAuthnLogin login_server demo_library demo_call s ''passkey'' demo_passkey d1 = Inr (k, d')" by blast
  have "wa_FinishLogin demo_library (''c'', [ConsoleOrigin demo_server]) (ca_now demo_call) user JNull (JStr ''signed'') = Some demo_passkey"
    by (simp add: demo_library_def)
  then have "finishTenantMemberWebAuthnLogin login_server demo_library (Some demo_answer) demo_call login_request login_db =
      (writeStrongTenantMemberSession login_server demo_call s k, d')"
    by (simp add: finishTenantMemberWebAuthnLogin_def s demo_answer_def Let_def ce tenantMemberCredentialKind_def user rp fin)
  then show ?thesis by simp
qed

theorem login_needs_both_factors_witness:
  "\<exists>w d' m. finishTenantMemberWebAuthnLogin login_server demo_library (Some demo_answer) demo_call login_request login_db = (w, d') \<and> hs_status w = 200 \<and>
     both_factors login_server demo_library demo_call login_request demo_answer login_db m \<and> logged_in (ca_now demo_call) m login_db d'"
proof -
  obtain w d' where run: "finishTenantMemberWebAuthnLogin login_server demo_library (Some demo_answer) demo_call login_request login_db = (w, d')" "hs_status w = 200"
    using demo_login_run by blast
  from login_needs_both_factors [OF run(1)] run show ?thesis by auto
qed

theorem one_session_per_attempt_witness:
  "uses 200 (login_step login_server demo_library) finished_attempt ''a''
     [(FinishLogin (Some demo_answer), demo_call, login_request), (FinishLogin (Some demo_answer), demo_call, login_request)] login_db = 1"
proof -
  let ?x = "(FinishLogin (Some demo_answer), demo_call, login_request)"
  have "attempts_ok login_db" by (simp add: attempts_ok_def login_db_def)
  then have "uses 200 (login_step login_server demo_library) finished_attempt ''a'' [?x, ?x] login_db \<le> 1" by (rule one_session_per_attempt)
  moreover have "finished_attempt ?x = Some ''a''" by (simp add: finished_attempt_def login_request_def)
  moreover have "hs_status (fst (login_step login_server demo_library ?x login_db)) = 200" using demo_login_run by (auto simp: login_step_def)
  ultimately show ?thesis by simp
qed

theorem passkeys_bounded_witness:
  "credentials_of ''m'' (after_calls (login_step login_server demo_library) [(DeleteCredential, demo_call, login_request)] login_db) \<noteq> 0"
proof -
  have "credentials_of ''m'' login_db = 1" by (simp add: credentials_of_def login_db_def demo_credential_row_def)
  then show ?thesis using passkeys_bounded [of "''m''" login_db login_server demo_library "[(DeleteCredential, demo_call, login_request)]"] by simp
qed



definition demo_enrollment :: tenantMemberCeremony where
  "demo_enrollment = \<lparr>ce_Session = JNull, ce_TenantUID = ''t'', ce_MemberUID = ''m'', ce_LoginAttemptUID = ''a'', ce_MemberSessionUID = [], ce_Kind = ''passkey'', ce_Name = ''Passkey''\<rparr>"


end
