(* ===== verification/Spec2Isabelle.thy ===== *)
theory Spec2Isabelle
  imports Migrations Worker OAuth_Flow Member_Login
begin

text \<open>
  The ComplicatedAuth backend, a multi-tenant authentication and authorization service written in Go over PostgreSQL.
  This development models the service's own logic as HOL functions and proves what makes each part correct.
\<close>

section \<open>The program and its parts\<close>

text \<open>
  A request enters \<^verbatim>\<open>internal/api/server.go\<close> (\<open>Server.Handler\<close>, the route table), passes a guard (CSRF and console session,
  service credential, or OAuth bearer token) and reaches a handler. Handlers read and write PostgreSQL tables in one
  transaction, use the stores of \<^verbatim>\<open>internal/store\<close> (idempotency records, rate-limit buckets, background jobs) and the
  primitives of \<^verbatim>\<open>internal/auth\<close> (tokens, password hashes, the encryption keyring). Work that must not run in a request is
  written to \<open>background_jobs\<close> in the same transaction and taken by the worker of \<^verbatim>\<open>internal/api/background_jobs.go\<close>, which
  sends emails, purges support cases and runs the retention cleanup. The schema is brought up to date by
  \<^verbatim>\<open>internal/store/migrations.go\<close>.

  The theories, in the order they build on each other:

  \<^item> \<open>Auth_Prelude\<close>: the shared vocabulary: faults by site, time, SQL statements on row lists (\<open>sql_row\<close>, \<open>sql_update\<close>,
    \<open>sql_delete\<close>, \<open>sql_count\<close>), the collections of simplification rules, and generic lemmas on lists and tables.
  \<^item> \<open>Go_Strings\<close>: the Go string functions the program uses (\<open>TrimSpace\<close>, \<open>Split\<close>, \<open>Cut\<close>, rune counting, regular
    expressions as recursive matchers, decimal and hexadecimal text).
  \<^item> \<open>Base64_Codec\<close>, \<open>Tokens\<close>, \<open>Passwords\<close>, \<open>Keyring\<close>: \<^verbatim>\<open>internal/auth\<close>.
  \<^item> \<open>Store_Common\<close>, \<open>Background_Jobs\<close>, \<open>Idempotency\<close>, \<open>Rate_Limits\<close>, \<open>Migrations\<close>: \<^verbatim>\<open>internal/store\<close>.
  \<^item> \<open>Api_Base\<close>: the tables of the API as records, the server's configuration and third-party functions as the record
    \<open>server\<close>, one request (\<open>http_request\<close>), one response, the JSON values, and the request plumbing of \<^verbatim>\<open>server.go\<close>,
    \<^verbatim>\<open>idempotency_http.go\<close>.
  \<^item> \<open>Email_Delivery\<close>, \<open>Maintenance\<close>, \<open>Worker\<close>: \<^verbatim>\<open>email_delivery.go\<close>, \<^verbatim>\<open>maintenance.go\<close>, \<^verbatim>\<open>background_jobs.go\<close>.
  \<^item> \<open>Console_Guards\<close>: the four guards, the role table (\<^verbatim>\<open>permissions.go\<close>) and the route table.
  \<^item> \<open>OAuth_Scopes\<close>, \<open>OAuth_Signing\<close>, \<open>OAuth_Authorize\<close>, \<open>OAuth_Token\<close>: the OAuth 2.1 / OpenID Connect provider
    (\<^verbatim>\<open>oauth_authorization.go\<close>, \<^verbatim>\<open>oauth_signing.go\<close>, \<^verbatim>\<open>authorization_decisions.go\<close>).
  \<^item> \<open>OAuth_Flow\<close>: the composition of these endpoints, as an inductive step relation over the events of a deployment.
  \<^item> \<open>Api_Conventions\<close>: keyset pagination (\<^verbatim>\<open>pagination.go\<close>) and version ETags (end of \<^verbatim>\<open>oauth_applications.go\<close>).
  \<^item> \<open>Resources\<close>: resource servers, scopes and grants (\<^verbatim>\<open>authorization_resources.go\<close>).
  \<^item> \<open>Applications\<close>: OAuth applications, redirect URIs and client secrets (\<^verbatim>\<open>oauth_applications.go\<close>).
  \<^item> \<open>Service_Accounts\<close>: service accounts and their credentials (\<^verbatim>\<open>service_accounts.go\<close>).
  \<^item> \<open>External_Credentials\<close>: credentials delegated to an external platform (\<^verbatim>\<open>external_credentials.go\<close>).
  \<^item> \<open>Projects\<close>: projects, Origins and the RP ID lock (\<^verbatim>\<open>projects.go\<close>).
  \<^item> \<open>Project_Users\<close>: users of projects and their sessions (\<^verbatim>\<open>users.go\<close>, \<^verbatim>\<open>runtime.go\<close>).
  \<^item> \<open>Member_Recovery\<close>: the verification of a member's email and the password reset (\<^verbatim>\<open>tenant_member_recovery.go\<close>).
  \<^item> \<open>Tenant_Members\<close>: members, their sessions, invitations (\<^verbatim>\<open>tenant_members.go\<close>) and sign-up (\<^verbatim>\<open>server.go\<close>).
  \<^item> \<open>Member_Login\<close>: the login of members with password and passkey, and their passkeys (\<^verbatim>\<open>tenant_member_webauthn.go\<close>).
\<close>

section \<open>How the code is modelled\<close>

text \<open>
  \<^item> A table is the list of its rows, a row a \<open>record\<close> with the columns the program uses. An SQL statement is the list function
    that has its effect; the constraints of the schema that a statement can violate are checked where they can fail. A
    nullable column is an \<open>option\<close>.
  \<^item> A handler has the type \<open>http_request \<Rightarrow> db \<Rightarrow> http_response \<times> db\<close> and takes the server and the \<open>call\<close>. The call carries
    what one execution gets from outside: the clock, fresh identifiers and random bytes by site, and which database calls
    fail (\<open>ca_flt\<close>, by the name of the site). Every \<open>if err != nil\<close> is a branch. A transaction is computed on the
    side; a failing statement or commit leaves the tables as they were, as PostgreSQL does.
  \<^item> Row locks (\<open>FOR UPDATE\<close>, \<open>SKIP LOCKED\<close>) and the advisory lock of migrations serialize the transactions that touch the
    same rows, so a transaction is one atomic step; interleavings of requests are sequences of such steps. Where a row may
    be locked by somebody else (\<open>Claim\<close>) the set of locked rows is a parameter. The handlers of \<open>Projects\<close> that read and later write
    without a transaction are split there into a plan and its execution, and histories let executions of
    stale plans interleave.
  \<^item> Time is an integer count of nanoseconds, as \<open>time.Duration\<close>. One reading of the clock stands for all readings in a
    call; \<open>now()\<close> in a PostgreSQL transaction is constant anyway.
  \<^item> A request body is the decoded input or \<open>None\<close> when \<open>decode\<close> refused it. UUIDs are compared as their canonical text;
    \<open>uuid_ok\<close> says which texts PostgreSQL and \<open>uuid.Parse\<close> accept.
  \<^item> Code outside the repository is a field of \<open>server\<close>: SHA-256, HMAC, Argon2, AES-GCM, RSA, JSON text, URL parsing and
    printing, HTML escaping, IP parsing; the WebAuthn library is the record \<open>webauthn_library\<close> of \<open>Member_Login\<close>. Theorems that need a property of one of these assume it by name (for instance that
    opening undoes sealing) and their witnesses instantiate it.
  \<^item> Integers are \<open>int\<close> with the range checks of the column (\<open>bigint_ok\<close>) or of the parser (\<open>ParseInt64\<close>) written out;
    bytes are \<open>8 word\<close>, and the JWK exponent is converted through \<open>32 word\<close>.
\<close>

section \<open>What is proved\<close>

text \<open>
  \<^item> The authorization code flow: the authorization endpoint stores a request only for a registered client, redirect URI and
    granted scope; a decision needs the pending request of the member's own tenant; a token is issued only for an unconsumed,
    unexpired code bound to the client, the redirect URI and the PKCE verifier; over every history of the
    deployment a code is exchanged at most once; and a code just approved is exchanged successfully.
  \<^item> Clients are authenticated exactly as registered; revocation of a consent and withdrawal of a scope, a
    grant or a resource server kill the tokens that rest on it; decisions of resource servers reflect current grants.
  \<^item> Signing keys: one active key at any time, every unexpired token verifiable with a published key, JWKs decode to the key.
  \<^item> Guards let a handler run exactly under the documented conditions, and every route has its guard.
  \<^item> Idempotency: a stored response is replayed exactly, one owner per key, no response stored by a superseded owner.
  \<^item> Jobs: the table invariant over all reachable states, exclusive leases, oldest first, at most one completion,
    dead-lettering exactly on the last attempt.
  \<^item> Rate limits refine an abstract fixed-window counter.
  \<^item> Credentials: a client secret or service credential just issued is accepted until it expires; an application has at most two
    usable secrets in every history; deleting or disabling an application or service account ends what was issued for it; a
    credential delegated to an external platform never exceeds its account and cannot issue further ones.
  \<^item> Projects and users: a locked RP ID is final whatever requests interleave; a project keeps an Origin when requests are served
    one by one (and may lose the last one when two deletions race); no handler changes another tenant's project or
    another project's users; a withdrawn user's sessions no longer resolve.
  \<^item> Members: a tenant with an active owner keeps one, and only owners change who the owners are, over every sequence of the
    calls that touch members; an invitation admits once; a recovery token works once, a password reset ends everything the
    old password could have opened, and asking for one reveals nothing about accounts. Logging in needs the password and a passkey of the
    same member, an attempt opens one session at most, and a member keeps between one and ten passkeys. Three defects are theorems: a member who joined through
    an invitation cannot be removed, an expired invitation blocks its email, and an enrollment under way outlives a password reset.
  \<^item> Optimistic concurrency (locale \<open>versioned\<close>, interpreted for resource servers, scopes, grants, applications and service
    accounts): no lost updates. Keyset
    pagination enumerates exactly the listed rows and ends.
  \<^item> Round trips: keyring rotation, password hashes, cursors, ETags, keys, and the encrypted email outbox.
  \<^item> Cleanup removes only expired rows; migrations resume after a fault; a purge is all or nothing.

  The interfaces are locales, interpreted on the model's definitions: \<open>lease_contract\<close> (\<open>Store_Common\<close>), what an operation that
  needs a lease promises, holds of the job operations (through \<open>job_release\<close>) and of storing a response;
  \<open>versioned\<close> (\<open>Api_Conventions\<close>), what a handler guarded by If-Match promises; \<open>single_use\<close> (\<open>Member_Recovery\<close>), what
  works once, interpreted for login attempts (\<open>Member_Login\<close>) and, through \<open>one_time_tokens\<close>, for email verifications and password resets.
\<close>

section \<open>Bounds and termination\<close>

text \<open>
  All definitions are total. The only fuel is in \<open>walk\<close> of \<open>Api_Conventions\<close>, a client that follows cursors; one step more
  than the table has rows is proved to be enough. Loops of the program are structural recursions on the list they range
  over, or recursions on a string with a length measure.
\<close>

section \<open>Not modelled\<close>

text \<open>
  Logging, security headers and the request identifier (\<open>requestLog\<close>, \<open>securityHeaders\<close>) have no effect on the state.
  \<open>smtpEmailSender.Send\<close>, \<^verbatim>\<open>cmd/\<close> and the worker's waiting are input and output. \<open>listActivity\<close> of \<^verbatim>\<open>users.go\<close> lists audit events, whose time, source
  address and user agent are left out of the model. \<^verbatim>\<open>contract.gen.go\<close> and
  \<^verbatim>\<open>contract_adapter.go\<close> are generated types and forwarding. Biometrics rest on a third-party provider. The login of project users
  (\<^verbatim>\<open>webauthn.go\<close>, \<^verbatim>\<open>fido_flow.go\<close>, \<^verbatim>\<open>login_flow.go\<close>), the support cases and the external
  integrations are not modelled.
\<close>

end
